(* ===== verification/CC_Prelude.thy ===== *)
theory CC_Prelude
  imports Main "HOL-Library.Word"
begin

text \<open>
  The shared vocabulary of the development.

  \<^item> \<open>Machine types.\<close> The modelled target is the 32-bit RISC-V build (FE310, QEMU SiFive-E,
    Ibex), an ILP32 target: \<open>int\<close>, \<open>long\<close>, \<open>size_t\<close> and pointers are 32 bits wide,
    \<open>long long\<close> and \<open>int64_t\<close> are 64 bits wide, \<open>char\<close> is an unsigned byte.
  \<^item> \<open>Outcomes.\<close> A C function that may trap, panic or not return is a function into
    \<open>outcome\<close>: \<open>Ok\<close> is a normal return, \<open>Fault\<close> a trap, and \<open>Hang\<close> says that the fuel given
    to a loop was used up before the loop ended.
  \<^item> \<open>Collections.\<close> \<open>outcome_simps\<close> and \<open>word_facts\<close> gather what the component proofs share.
\<close>

unbundle bit_operations_syntax

named_theorems outcome_simps "equations of the outcome combinators"
named_theorems word_facts "facts on 32-bit offsets shared by the memory proofs"

section \<open>Machine types\<close>

type_synonym u8 = "8 word"
type_synonym u16 = "16 word"
type_synonym u32 = "32 word"
type_synonym u64 = "64 word"
type_synonym size_t = "32 word"
type_synonym ptr = "32 word"
type_synonym status_t = "32 word"

abbreviation (input) NULL :: ptr where
  "NULL \<equiv> 0"

section \<open>Outcomes of C functions\<close>

datatype fault =
    Null_deref
  | Out_of_bounds
  | Assert_failed
  | Div_by_zero
  | Signed_overflow
  | Panic status_t

datatype 'a outcome = Ok 'a | Fault fault | Hang

primrec obind :: "'a outcome \<Rightarrow> ('a \<Rightarrow> 'b outcome) \<Rightarrow> 'b outcome" where
  "obind (Ok a) f = f a"
| "obind (Fault e) f = Fault e"
| "obind Hang f = Hang"

definition require :: "bool \<Rightarrow> fault \<Rightarrow> 'a outcome \<Rightarrow> 'a outcome" where
  "require b e m = (if b then m else Fault e)"

primrec returns :: "'a outcome \<Rightarrow> bool" where
  "returns (Ok a) = True"
| "returns (Fault e) = False"
| "returns Hang = False"

lemma obind_eq_Ok [outcome_simps]:
  "obind m f = Ok b \<longleftrightarrow> (\<exists>a. m = Ok a \<and> f a = Ok b)"
  by (cases m) auto

lemma obind_eq_Hang [outcome_simps]:
  "obind m f = Hang \<longleftrightarrow> m = Hang \<or> (\<exists>a. m = Ok a \<and> f a = Hang)"
  by (cases m) auto

lemma obind_Ok [simp]: "obind m Ok = m"
  by (cases m) auto

lemma obind_assoc: "obind (obind m f) g = obind m (\<lambda>x. obind (f x) g)"
  by (cases m) auto

lemma require_eq_Ok [outcome_simps]: "require b e m = Ok a \<longleftrightarrow> b \<and> m = Ok a"
  by (auto simp: require_def)

lemma require_True [simp]: "require True e m = m"
  by (simp add: require_def)

lemma require_False [simp]: "require False e m = Fault e"
  by (simp add: require_def)

lemma returns_iff: "returns m \<longleftrightarrow> (\<exists>a. m = Ok a)"
  by (cases m) auto

section \<open>Single bits\<close>

lemma and_push_bit_nz: "(w :: 'a :: len word) AND push_bit n 1 \<noteq> 0 \<longleftrightarrow> bit w n"
proof -
  have "w AND push_bit n 1 \<noteq> 0 \<longleftrightarrow> (\<exists>k. bit (w AND push_bit n 1) k)"
    using bit_word_eqI [of "w AND push_bit n 1" 0] by auto
  then show ?thesis using bit_imp_le_length [of w n] by (auto simp: bit_simps)
qed

lemma bit_lt_32: "bit (w :: 32 word) k \<Longrightarrow> k < 32"
  using bit_imp_le_length [of w k] by simp

section \<open>Casts\<close>

lemma ucast_small_nat:
  fixes x :: "'a :: len word"
  assumes "unat x < 2 ^ LENGTH('b :: len)"
  shows "unat (ucast x :: 'b word) = unat x"
  using assms by (simp add: unsigned_ucast_eq take_bit_nat_eq_self)

lemma ucast_mod_small:
  fixes x k :: "'a :: len word"
  assumes "0 < unat k" and "unat k \<le> 2 ^ LENGTH('b :: len)"
  shows "unat (ucast (x mod k) :: 'b word) = unat x mod unat k"
proof -
  have "unat (x mod k) < 2 ^ LENGTH('b)"
    using mod_less_divisor [OF assms(1), of "unat x"] assms(2) by (simp add: unat_mod)
  then show ?thesis by (simp add: ucast_small_nat unat_mod)
qed

lemma unat_ucast_up:
  assumes "LENGTH('a :: len) \<le> LENGTH('b :: len)"
  shows "unat (ucast (x :: 'a word) :: 'b word) = unat x"
proof (rule ucast_small_nat)
  have "unat x < 2 ^ LENGTH('a)" by (rule unsigned_less)
  also have "(2 :: nat) ^ LENGTH('a) \<le> 2 ^ LENGTH('b)" using assms by (simp add: power_increasing)
  finally show "unat x < 2 ^ LENGTH('b)" .
qed

lemma of_nat_unat_ucast: "(of_nat (unat (x :: 'a :: len word)) :: 'b :: len word) = ucast x"
  by (simp add: word_unat_eq_iff unat_of_nat unsigned_ucast_eq take_bit_eq_mod)

section \<open>Offsets in a 32-bit address space\<close>

lemma unat_lt_32 [word_facts]: "unat (x :: 32 word) < 4294967296"
proof -
  have "unat x < 2 ^ LENGTH(32)" by (rule unsigned_less)
  then show ?thesis by simp
qed

lemma unat_of_nat_32 [word_facts]: "n < 4294967296 \<Longrightarrow> unat (of_nat n :: 32 word) = n"
  by (simp add: unat_of_nat)

lemma of_nat_eq_32 [word_facts]:
  assumes "a < 4294967296" and "b < 4294967296"
  shows "(of_nat a :: 32 word) = of_nat b \<longleftrightarrow> a = b"
proof
  assume "(of_nat a :: 32 word) = of_nat b"
  then have "unat (of_nat a :: 32 word) = unat (of_nat b :: 32 word)" by simp
  then show "a = b" using assms by (simp add: unat_of_nat_32)
qed simp

lemma unat_minus_1_32 [simp]: "unat (- 1 :: 32 word) = 4294967295"
  by (simp add: unsigned_minus_1_eq_mask mask_eq_exp_minus_1)

lemma word_less_nat_32: "(x :: 32 word) < y \<longleftrightarrow> unat x < unat y"
  by (simp add: word_less_nat_alt)

lemma of_nat_less_32 [word_facts]:
  "a < 4294967296 \<Longrightarrow> (of_nat a :: 32 word) < n \<longleftrightarrow> a < unat n"
  by (simp add: word_less_nat_alt unat_of_nat_32)

lemma less_of_nat_32 [word_facts]:
  "a < 4294967296 \<Longrightarrow> n < (of_nat a :: 32 word) \<longleftrightarrow> unat n < a"
  by (simp add: word_less_nat_alt unat_of_nat_32)

lemma of_nat_eq_iff_32 [word_facts]:
  "a < 4294967296 \<Longrightarrow> (of_nat a :: 32 word) = n \<longleftrightarrow> a = unat n"
  by (auto simp: unat_of_nat_32)

lemma of_nat_eq_0_32 [word_facts]:
  "a < 4294967296 \<Longrightarrow> (of_nat a :: 32 word) = 0 \<longleftrightarrow> a = 0"
  using of_nat_eq_32 [of a 0] by simp

text \<open>An address lies in the block of \<open>n\<close> bytes at \<open>p\<close> when its offset is below \<open>n\<close>, with
  the subtraction taken modulo the address space as the C code takes it.\<close>

definition in_block :: "ptr \<Rightarrow> nat \<Rightarrow> ptr \<Rightarrow> bool" where
  "in_block p n a \<longleftrightarrow> unat (a - p) < n"

lemma in_block_0 [simp]: "\<not> in_block p 0 a"
  by (simp add: in_block_def)

lemma in_block_offset:
  assumes "n \<le> 4294967296"
  shows "in_block p n a \<longleftrightarrow> (\<exists>k < n. a = p + of_nat k)"
proof
  assume "in_block p n a"
  then have "unat (a - p) < n" by (simp add: in_block_def)
  moreover have "a = p + of_nat (unat (a - p))" by simp
  ultimately show "\<exists>k < n. a = p + of_nat k" by blast
next
  assume "\<exists>k < n. a = p + of_nat k"
  then show "in_block p n a"
    using assms by (auto simp: in_block_def unat_of_nat_32)
qed

lemma unat_offset_Suc:
  fixes a p :: ptr
  assumes "a \<noteq> p"
  shows "unat (a - p) = Suc (unat (a - (p + 1)))"
proof -
  have nz: "a - p \<noteq> 0" using assms by simp
  then have "unat (a - p - 1) = unat (a - p) - 1" by (rule unat_minus_one)
  moreover have "0 < unat (a - p)" using nz by (simp add: unat_gt_0)
  ultimately show ?thesis by (simp add: diff_diff_eq)
qed

lemma in_block_Suc:
  "n < 4294967296 \<Longrightarrow> in_block p (Suc n) a \<longleftrightarrow> a = p \<or> in_block (p + 1) n a"
  using unat_offset_Suc [of a p] by (cases "a = p") (simp_all add: in_block_def)

lemma in_block_not_start: "n < 4294967296 \<Longrightarrow> \<not> in_block (p + 1) n p"
  by (simp add: in_block_def)

lemma fold_snoc: "fold (\<lambda>c h. h @ [c]) cs h = h @ cs"
  by (induction cs arbitrary: h) auto

end
