(* ===== verification/CC_Status.thy ===== *)
theory CC_Status
  imports CC_Prelude
begin

text \<open>
  The status codes of \<open>src/src/include/status.h\<close>. A \<open>status_t\<close> is an enumeration stored in an
  \<open>int\<close>; the HAL combines codes with \<open>|=\<close>, so the codes are kept as words.
\<close>

abbreviation (input) success :: status_t where
  "success \<equiv> 0x0000"

abbreviation (input) error_generic :: status_t where
  "error_generic \<equiv> 0x0001"

abbreviation (input) error_func_inval :: status_t where
  "error_func_inval \<equiv> 0x0002"

abbreviation (input) error_func_inval_arg :: status_t where
  "error_func_inval_arg \<equiv> 0x0003"

abbreviation (input) error_overflow :: status_t where
  "error_overflow \<equiv> 0x0004"

abbreviation (input) error_inval_pointer :: status_t where
  "error_inval_pointer \<equiv> 0x0005"

abbreviation (input) error_driver :: status_t where
  "error_driver \<equiv> 0x0100"

abbreviation (input) error_driver_init_done :: status_t where
  "error_driver_init_done \<equiv> 0x0101"

abbreviation (input) error_driver_init_failed :: status_t where
  "error_driver_init_failed \<equiv> 0x0102"

abbreviation (input) error_driver_busy :: status_t where
  "error_driver_busy \<equiv> 0x0103"

abbreviation (input) error_driver_data :: status_t where
  "error_driver_data \<equiv> 0x0104"

abbreviation (input) error_device :: status_t where
  "error_device \<equiv> 0x0200"

abbreviation (input) error_device_id_inval :: status_t where
  "error_device_id_inval \<equiv> 0x0201"

abbreviation (input) error_device_inval :: status_t where
  "error_device_inval \<equiv> 0x0202"

abbreviation (input) error_device_busy :: status_t where
  "error_device_busy \<equiv> 0x0203"

abbreviation (input) error_vcall :: status_t where
  "error_vcall \<equiv> 0x0300"

abbreviation (input) error_vcall_code_inval :: status_t where
  "error_vcall_code_inval \<equiv> 0x0301"

abbreviation (input) error_memory :: status_t where
  "error_memory \<equiv> 0x0600"

abbreviation (input) error_memory_low :: status_t where
  "error_memory_low \<equiv> 0x0601"

abbreviation (input) error_file :: status_t where
  "error_file \<equiv> 0x0700"

abbreviation (input) error_file_desc :: status_t where
  "error_file_desc \<equiv> 0x0701"

abbreviation (input) error_file_exist :: status_t where
  "error_file_exist \<equiv> 0x0702"

abbreviation (input) error_file_not_found :: status_t where
  "error_file_not_found \<equiv> 0x0703"

abbreviation (input) error_file_no_space :: status_t where
  "error_file_no_space \<equiv> 0x0704"

abbreviation (input) error_file_long_name :: status_t where
  "error_file_long_name \<equiv> 0x0705"

abbreviation (input) error_file_io :: status_t where
  "error_file_io \<equiv> 0x0706"

abbreviation (input) error_string :: status_t where
  "error_string \<equiv> 0x0800"

abbreviation (input) error_math :: status_t where
  "error_math \<equiv> 0x0900"

abbreviation (input) error_math_inval_arg :: status_t where
  "error_math_inval_arg \<equiv> 0x0901"

abbreviation (input) error_math_large_val :: status_t where
  "error_math_large_val \<equiv> 0x0902"

abbreviation (input) error_access :: status_t where
  "error_access \<equiv> 0x0a00"

abbreviation (input) error_system :: status_t where
  "error_system \<equiv> 0x0b00"

abbreviation (input) error_system_irq_link_fail :: status_t where
  "error_system_irq_link_fail \<equiv> 0x0b01"

abbreviation (input) error_system_irq_unlink_fail :: status_t where
  "error_system_irq_unlink_fail \<equiv> 0x0b02"

abbreviation (input) error_system_clk_caliberation :: status_t where
  "error_system_clk_caliberation \<equiv> 0x0b03"

abbreviation (input) error_system_prog_fail :: status_t where
  "error_system_prog_fail \<equiv> 0x0b04"

abbreviation (input) error_system_inval_cpu :: status_t where
  "error_system_inval_cpu \<equiv> 0x0b05"

abbreviation (input) error_net :: status_t where
  "error_net \<equiv> 0x0c00"

abbreviation (input) error_net_con_timeout :: status_t where
  "error_net_con_timeout \<equiv> 0x0c01"

abbreviation (input) error_user :: status_t where
  "error_user \<equiv> 0x0d00"

abbreviation (input) error_io :: status_t where
  "error_io \<equiv> 0x0e00"

abbreviation (input) error_os :: status_t where
  "error_os \<equiv> 0x0f00"

abbreviation (input) error_os_task_overfow :: status_t where
  "error_os_task_overfow \<equiv> 0x0f01"

abbreviation (input) error_os_deadlock :: status_t where
  "error_os_deadlock \<equiv> 0x0f02"

abbreviation (input) error_os_invalid_op :: status_t where
  "error_os_invalid_op \<equiv> 0x0f03"

abbreviation (input) error_os_sem_get :: status_t where
  "error_os_sem_get \<equiv> 0x0f04"

abbreviation (input) error_os_panic_presched_cb_null :: status_t where
  "error_os_panic_presched_cb_null \<equiv> 0x0f05"

abbreviation (input) error_os_panic_sched_algo_null :: status_t where
  "error_os_panic_sched_algo_null \<equiv> 0x0f06"

abbreviation (input) error_os_panic_os_start_fail :: status_t where
  "error_os_panic_os_start_fail \<equiv> 0x0f07"

abbreviation (input) error_os_mutex_lock :: status_t where
  "error_os_mutex_lock \<equiv> 0x0f08"

abbreviation (input) error_os_mutex_unlock :: status_t where
  "error_os_mutex_unlock \<equiv> 0x0f09"

abbreviation (input) error_mesg :: status_t where
  "error_mesg \<equiv> 0x1000"

abbreviation (input) error_mesg_long :: status_t where
  "error_mesg_long \<equiv> 0x1001"

abbreviation (input) error_list :: status_t where
  "error_list \<equiv> 0x1100"

abbreviation (input) error_list_node_exists :: status_t where
  "error_list_node_exists \<equiv> 0x1101"

abbreviation (input) error_list_node_not_found :: status_t where
  "error_list_node_not_found \<equiv> 0x1102"

section \<open>The codes together\<close>

definition status_codes :: "status_t list" where
  "status_codes =
    [success, error_generic, error_func_inval, error_func_inval_arg, error_overflow, error_inval_pointer, error_driver,
     error_driver_init_done, error_driver_init_failed, error_driver_busy, error_driver_data, error_device,
     error_device_id_inval, error_device_inval, error_device_busy, error_vcall, error_vcall_code_inval, error_memory,
     error_memory_low, error_file, error_file_desc, error_file_exist, error_file_not_found, error_file_no_space,
     error_file_long_name, error_file_io, error_string, error_math, error_math_inval_arg, error_math_large_val,
     error_access, error_system, error_system_irq_link_fail, error_system_irq_unlink_fail,
     error_system_clk_caliberation, error_system_prog_fail, error_system_inval_cpu, error_net, error_net_con_timeout,
     error_user, error_io, error_os, error_os_task_overfow, error_os_deadlock, error_os_invalid_op, error_os_sem_get,
     error_os_panic_presched_cb_null, error_os_panic_sched_algo_null, error_os_panic_os_start_fail,
     error_os_mutex_lock, error_os_mutex_unlock, error_mesg, error_mesg_long, error_list, error_list_node_exists,
     error_list_node_not_found]"

lemma status_codes_distinct: "distinct status_codes"
  by (simp add: status_codes_def)

text \<open>A sequence of steps whose results are combined with \<open>|=\<close> reports success exactly if every step does.\<close>

lemma or_chain_success: "foldr (OR) rs success = success \<longleftrightarrow> (\<forall>r\<in>set rs. r = success)"
  by (induction rs) (auto simp: or_eq_0_iff)

text \<open>The combination of two codes is in general no code, or a third one: a failed driver and a failed device read as a failed
  visor call.\<close>

lemma codes_combined:
  "error_driver OR error_device = error_vcall" "error_func_inval OR error_generic = error_func_inval_arg"
  "error_overflow OR error_func_inval \<notin> set status_codes"
  by (simp_all add: status_codes_def)

end
