(* ===== verification/C_String.thy ===== *)
theory C_String
  imports CC_Prelude
begin

text \<open>
  The string and memory routines of \<open>src/src/lib/libc/string.c\<close> over a flat byte memory.

  A routine that counts bytes down recurses on that count and is total. A routine that looks for
  a terminating NUL is a \<open>partial_function (option)\<close>: \<open>None\<close> says that the loop never ends (no
  NUL in the whole address space), and the theorems show that a NUL-terminated argument gives
  \<open>Some\<close>. Pointer arithmetic wraps at 32 bits; a C \<open>int\<close> result that is the difference of two
  bytes is an \<open>int\<close> in \<open>-255 .. 255\<close>.
\<close>

section \<open>Memory\<close>

type_synonym mem = "ptr \<Rightarrow> u8"

text \<open>\<open>bytes m p n\<close> reads the \<open>n\<close> bytes at \<open>p\<close>.\<close>

definition bytes :: "mem \<Rightarrow> ptr \<Rightarrow> nat \<Rightarrow> u8 list" where
  "bytes m p n = map (\<lambda>k. m (p + of_nat k)) [0..<n]"

text \<open>\<open>cstr m p xs\<close>: at \<open>p\<close> the memory holds the bytes \<open>xs\<close>, none of them NUL, and then a NUL.\<close>

primrec cstr :: "mem \<Rightarrow> ptr \<Rightarrow> u8 list \<Rightarrow> bool" where
  "cstr m p [] \<longleftrightarrow> m p = 0"
| "cstr m p (x # xs) \<longleftrightarrow> m p = x \<and> x \<noteq> 0 \<and> cstr m (p + 1) xs"

section \<open>The routines\<close>

primrec memchr_loop :: "nat \<Rightarrow> mem \<Rightarrow> ptr \<Rightarrow> u8 \<Rightarrow> ptr" where
  "memchr_loop 0 m src r = NULL"
| "memchr_loop (Suc n) m src r = (if m src = r then src else memchr_loop n m (src + 1) r)"

definition memchr :: "mem \<Rightarrow> ptr \<Rightarrow> u32 \<Rightarrow> size_t \<Rightarrow> ptr" where
  "memchr m i r n = memchr_loop (unat n) m i (ucast r)"

primrec memcmp_loop :: "nat \<Rightarrow> mem \<Rightarrow> ptr \<Rightarrow> ptr \<Rightarrow> int \<Rightarrow> int" where
  "memcmp_loop 0 m s d ret = ret"
| "memcmp_loop (Suc n) m s d ret =
     (let ret' = uint (m s) - uint (m d)
      in if ret' \<noteq> 0 then ret' else memcmp_loop n m (s + 1) (d + 1) ret')"

definition memcmp :: "mem \<Rightarrow> ptr \<Rightarrow> ptr \<Rightarrow> size_t \<Rightarrow> int" where
  "memcmp m i j sz = memcmp_loop (unat sz) m i j 0"

primrec memcpy_loop :: "nat \<Rightarrow> mem \<Rightarrow> ptr \<Rightarrow> ptr \<Rightarrow> mem \<times> ptr" where
  "memcpy_loop 0 m dst src = (m, dst)"
| "memcpy_loop (Suc n) m dst src = memcpy_loop n (m(dst := m src)) (dst + 1) (src + 1)"

definition memcpy :: "mem \<Rightarrow> ptr \<Rightarrow> ptr \<Rightarrow> size_t \<Rightarrow> mem \<times> ptr" where
  "memcpy m i j sz = memcpy_loop (unat sz) m i j"

function memmove_back :: "mem \<Rightarrow> ptr \<Rightarrow> ptr \<Rightarrow> ptr \<Rightarrow> mem" where
  "memmove_back m dst src end =
     (if dst = end then m
      else memmove_back (m(dst - 1 := m (src - 1))) (dst - 1) (src - 1) end)"
  by pat_completeness auto
termination
proof (relation "measure (\<lambda>(m, dst, src, end). unat (dst - end))")
  fix m :: mem and dst src "end" :: ptr
  assume "dst \<noteq> end"
  then have "dst - end \<noteq> 0" by simp
  then have "unat (dst - end - 1) < unat (dst - end)"
    using measure_unat by blast
  then show "((m(dst - 1 := m (src - 1)), dst - 1, src - 1, end), m, dst, src, end)
      \<in> measure (\<lambda>(m, dst, src, end). unat (dst - end))"
    by (simp add: algebra_simps)
qed simp

declare memmove_back.simps [simp del]

definition memmove :: "mem \<Rightarrow> ptr \<Rightarrow> ptr \<Rightarrow> size_t \<Rightarrow> mem \<times> ptr" where
  "memmove m i j sz =
     (if i - j \<ge> sz then (fst (memcpy m i j sz), i)
      else (memmove_back m (i + sz) (j + sz) i, i))"

primrec memchr_rev_loop :: "nat \<Rightarrow> mem \<Rightarrow> ptr \<Rightarrow> u8 \<Rightarrow> ptr" where
  "memchr_rev_loop 0 m src r = NULL"
| "memchr_rev_loop (Suc n) m src r = (if m src = r then src else memchr_rev_loop n m (src - 1) r)"

definition memchr_rev :: "mem \<Rightarrow> ptr \<Rightarrow> u32 \<Rightarrow> size_t \<Rightarrow> ptr" where
  "memchr_rev m i r n = memchr_rev_loop (unat n) m (i + n - 1) (ucast r)"

primrec memset_loop :: "nat \<Rightarrow> mem \<Rightarrow> ptr \<Rightarrow> u8 \<Rightarrow> mem" where
  "memset_loop 0 m p c = m"
| "memset_loop (Suc n) m p c = memset_loop n (m(p := c)) (p + 1) c"

definition memset :: "mem \<Rightarrow> ptr \<Rightarrow> u32 \<Rightarrow> size_t \<Rightarrow> mem \<times> ptr" where
  "memset m i n sz = (memset_loop (unat sz) m i (ucast n), i)"

partial_function (option) strchr_loop :: "mem \<Rightarrow> ptr \<Rightarrow> u8 \<Rightarrow> ptr option" where
  "strchr_loop m i r =
     (if m i = r then Some i else if m i = 0 then Some NULL else strchr_loop m (i + 1) r)"

definition strchr :: "mem \<Rightarrow> ptr \<Rightarrow> u32 \<Rightarrow> ptr option" where
  "strchr m i r = strchr_loop m i (ucast r)"

partial_function (option) strcmp :: "mem \<Rightarrow> ptr \<Rightarrow> ptr \<Rightarrow> int option" where
  "strcmp m i j =
     (if m i = m j then (if m i = 0 then Some 0 else strcmp m (i + 1) (j + 1))
      else Some (uint (m i) - uint (m j)))"

text \<open>The copying loop of \<open>strlcpy\<close>: \<open>while(--size) if((*i++ = *j++) == 0) break;\<close>. The count
  argument is the value of \<open>size\<close> after the pre-decrement; the loop gives the memory, the two
  pointers and the final \<open>size\<close>, zero exactly when the count ran out.\<close>

primrec strlcpy_loop :: "nat \<Rightarrow> mem \<Rightarrow> ptr \<Rightarrow> ptr \<Rightarrow> mem \<times> ptr \<times> ptr \<times> nat" where
  "strlcpy_loop 0 m i j = (m, i, j, 0)"
| "strlcpy_loop (Suc n) m i j =
     (if m j = 0 then (m(i := 0), i + 1, j + 1, Suc n)
      else strlcpy_loop n (m(i := m j)) (i + 1) (j + 1))"

definition strlcpy :: "mem \<Rightarrow> ptr \<Rightarrow> ptr \<Rightarrow> size_t \<Rightarrow> mem \<times> size_t" where
  "strlcpy m i j sz =
     (if sz = 0 then (m, j - j - 1)
      else (case strlcpy_loop (unat sz - 1) m i j of (m', i', j', rest) \<Rightarrow>
              (if rest = 0 then m'(i' := 0) else m', j' - j - 1)))"

partial_function (option) strlen_loop :: "mem \<Rightarrow> ptr \<Rightarrow> ptr option" where
  "strlen_loop m p = (if m p = 0 then Some p else strlen_loop m (p + 1))"

definition strlen :: "mem \<Rightarrow> ptr \<Rightarrow> size_t option" where
  "strlen m i = map_option (\<lambda>p. p - i) (strlen_loop m i)"

primrec strncmp_loop :: "nat \<Rightarrow> mem \<Rightarrow> ptr \<Rightarrow> ptr \<Rightarrow> int" where
  "strncmp_loop 0 m i j = 0"
| "strncmp_loop (Suc n) m i j =
     (if m i \<noteq> m j then uint (m i) - uint (m j)
      else if m i = 0 then 0 else strncmp_loop n m (i + 1) (j + 1))"

definition strncmp :: "mem \<Rightarrow> ptr \<Rightarrow> ptr \<Rightarrow> size_t \<Rightarrow> int" where
  "strncmp m i j n = strncmp_loop (unat n) m i j"

primrec strnlen_loop :: "nat \<Rightarrow> mem \<Rightarrow> ptr \<Rightarrow> nat" where
  "strnlen_loop 0 m i = 0"
| "strnlen_loop (Suc n) m i = (if m i = 0 then 0 else Suc (strnlen_loop n m (i + 1)))"

definition strnlen :: "mem \<Rightarrow> ptr \<Rightarrow> size_t \<Rightarrow> size_t" where
  "strnlen m i sz = of_nat (strnlen_loop (unat sz) m i)"

partial_function (option) strchr_rev_loop :: "mem \<Rightarrow> ptr \<Rightarrow> u8 \<Rightarrow> ptr \<Rightarrow> ptr option" where
  "strchr_rev_loop m i r ret =
     (let ret' = (if m i = r then i else ret)
      in if m i = 0 then Some ret' else strchr_rev_loop m (i + 1) r ret')"

definition strchr_rev :: "mem \<Rightarrow> ptr \<Rightarrow> u32 \<Rightarrow> ptr option" where
  "strchr_rev m i r = strchr_rev_loop m i (ucast r) NULL"

text \<open>The macro \<open>strcpy(i, j)\<close> of \<open>string.h\<close>.\<close>

definition strcpy :: "mem \<Rightarrow> ptr \<Rightarrow> ptr \<Rightarrow> (mem \<times> size_t) option" where
  "strcpy m i j = map_option (strlcpy m i j) (strlen m j)"

section \<open>Block copies\<close>

lemma memcpy_loop_end: "snd (memcpy_loop n m d s) = d + of_nat n"
  by (induction n arbitrary: m d s) (auto simp: algebra_simps)

lemma memcpy_loop_at:
  assumes "n < 4294967296" and "n \<le> unat (d - s)"
  shows "fst (memcpy_loop n m d s) a =
    (if in_block d n a then m (s + (a - d)) else m a)"
  using assms
proof (induction n arbitrary: m d s)
  case 0
  then show ?case by simp
next
  case (Suc n)
  let ?m = "m(d := m s)"
  have ds: "d + 1 - (s + 1) = d - s" by simp
  have IH: "fst (memcpy_loop n ?m (d + 1) (s + 1)) a =
      (if in_block (d + 1) n a then ?m (s + 1 + (a - (d + 1))) else ?m a)"
    using Suc.prems by (intro Suc.IH) (simp_all add: ds)
  show ?case
  proof (cases "a = d")
    case True
    have "\<not> in_block (d + 1) n a"
      using Suc.prems by (simp add: True in_block_def)
    then show ?thesis using IH True by (simp add: in_block_def)
  next
    case False
    then have nz: "a - d \<noteq> 0" by simp
    then have pred: "unat (a - (d + 1)) = unat (a - d) - 1"
      by (metis diff_diff_eq unat_minus_one)
    have pos: "0 < unat (a - d)" using nz by (simp add: unat_gt_0)
    have blk: "in_block (d + 1) n a \<longleftrightarrow> in_block d (Suc n) a"
      using pred pos by (auto simp: in_block_def)
    have src: "s + 1 + (a - (d + 1)) = s + (a - d)" by simp
    have "s + (a - d) \<noteq> d" if "in_block d (Suc n) a"
    proof
      assume "s + (a - d) = d"
      then have "a - d = d - s" by (simp add: algebra_simps)
      with that Suc.prems show False by (simp add: in_block_def)
    qed
    then show ?thesis using IH False by (simp add: blk src)
  qed
qed

lemma memmove_back_at:
  assumes "unat (d - s) < n" and "n + n \<le> 4294967296" and "k \<le> n"
  shows "memmove_back m (d + of_nat k) (s + of_nat k) d a =
    (if in_block d k a then m (s + (a - d)) else m a)"
  using assms(3)
proof (induction k arbitrary: m)
  case 0
  then show ?case by (simp add: memmove_back.simps)
next
  case (Suc k)
  let ?m = "m(d + of_nat k := m (s + of_nat k))"
  have kb: "Suc k < 4294967296" using Suc.prems assms by simp
  have "(of_nat (Suc k) :: 32 word) \<noteq> 0"
    using of_nat_eq_32 [of "Suc k" 0] kb by simp
  then have step: "memmove_back m (d + of_nat (Suc k)) (s + of_nat (Suc k)) d a =
      memmove_back ?m (d + of_nat k) (s + of_nat k) d a"
    by (subst memmove_back.simps) (simp add: algebra_simps)
  have IH: "memmove_back ?m (d + of_nat k) (s + of_nat k) d a =
      (if in_block d k a then ?m (s + (a - d)) else ?m a)"
    using Suc.prems by (intro Suc.IH) simp
  have sep: "s + (a - d) \<noteq> d + of_nat k" if "in_block d k a"
  proof
    assume eq: "s + (a - d) = d + of_nat k"
    have "unat (d - s) + k = unat (d - s + of_nat k)"
      using assms Suc.prems kb by (simp add: unat_word_ariths unat_of_nat_32)
    also have "d - s + of_nat k = a - d" using eq by (simp add: algebra_simps)
    finally show False using that by (simp add: in_block_def)
  qed
  have blk: "in_block d (Suc k) a \<longleftrightarrow> in_block d k a \<or> a = d + of_nat k"
    using kb by (auto simp: in_block_offset less_Suc_eq)
  show ?case
    unfolding step IH using sep by (auto simp: blk)
qed

text \<open>C2: \<open>memmove\<close> moves the block as if through a temporary copy, whether or not the source and
  the destination overlap and in either direction: afterwards the byte at offset \<open>k < size\<close> of
  the destination is the byte that was at offset \<open>k\<close> of the source, every other byte is
  unchanged, and the destination pointer is returned. The block is at most half the address
  space, as every C object is.\<close>

theorem memmove_correct:
  assumes "unat sz \<le> 2147483648"
  shows "fst (memmove m i j sz) a = (if a - i < sz then m (j + (a - i)) else m a)
    \<and> snd (memmove m i j sz) = i"
proof (cases "i - j \<ge> sz")
  case True
  then have "unat sz \<le> unat (i - j)" by (simp add: word_le_nat_alt)
  then show ?thesis
    using True memcpy_loop_at [OF unat_lt_32, of sz i j m a]
    by (simp add: memmove_def memcpy_def in_block_def word_less_nat_alt)
next
  case False
  then have "unat (i - j) < unat sz" by (simp add: word_less_nat_alt not_le)
  then show ?thesis
    using False assms memmove_back_at [of i j "unat sz" "unat sz" m a]
    by (simp add: memmove_def in_block_def word_less_nat_alt)
qed

theorem memmove_correct_witness:
  "fst (memmove (\<lambda>a. ucast a) 0x101 0x100 3) 0x102 = 0x01
    \<and> snd (memmove (\<lambda>a. ucast a) 0x101 0x100 3) = 0x101"
  using memmove_correct [of 3 "\<lambda>a. ucast a" "0x101" "0x100" "0x102"] by simp

text \<open>\<open>memcpy\<close> is that same move when the destination does not start inside the source; the
  pointer it returns is the end of the destination, where the header promises its start.\<close>

lemma memcpy_correct:
  assumes "i - j \<ge> sz"
  shows "fst (memcpy m i j sz) a = (if a - i < sz then m (j + (a - i)) else m a)"
    and "snd (memcpy m i j sz) = i + sz"
proof -
  have "unat sz \<le> unat (i - j)" using assms by (simp add: word_le_nat_alt)
  then show "fst (memcpy m i j sz) a = (if a - i < sz then m (j + (a - i)) else m a)"
    using memcpy_loop_at [OF unat_lt_32, of sz i j m a]
    by (simp add: memcpy_def in_block_def word_less_nat_alt)
  show "snd (memcpy m i j sz) = i + sz"
    by (simp add: memcpy_def memcpy_loop_end)
qed

lemma memset_loop_at:
  assumes "n < 4294967296"
  shows "memset_loop n m p c a = (if in_block p n a then c else m a)"
  using assms
proof (induction n arbitrary: m p)
  case 0
  then show ?case by simp
next
  case (Suc n)
  then show ?case using in_block_Suc [of n p a] by auto
qed

lemma memset_correct:
  "fst (memset m i n sz) a = (if a - i < sz then ucast n else m a)"
  using memset_loop_at [OF unat_lt_32, of sz m i "ucast n" a]
  by (simp add: memset_def in_block_def word_less_nat_alt)

section \<open>Comparison\<close>

lemma bytes_0 [simp]: "bytes m p 0 = []"
  by (simp add: bytes_def)

lemma bytes_Suc [simp]: "bytes m p (Suc n) = m p # bytes m (p + 1) n"
proof -
  have "[0..<Suc n] = 0 # map Suc [0..<n]"
    by (simp add: upt_conv_Cons map_Suc_upt del: upt_Suc)
  then show ?thesis by (simp add: bytes_def comp_def algebra_simps del: upt_Suc)
qed

lemma length_bytes [simp]: "length (bytes m p n) = n"
  by (simp add: bytes_def)

text \<open>The byte orders of the comparison routines: \<open>lex_less\<close> is the lexicographic order on byte
  strings by unsigned value.\<close>

fun lex_less :: "u8 list \<Rightarrow> u8 list \<Rightarrow> bool" where
  "lex_less xs [] \<longleftrightarrow> False"
| "lex_less [] (y # ys) \<longleftrightarrow> True"
| "lex_less (x # xs) (y # ys) \<longleftrightarrow> x < y \<or> x = y \<and> lex_less xs ys"

lemma lex_less_irrefl [simp]: "\<not> lex_less xs xs"
  by (induction xs) auto

lemma lex_less_total: "xs \<noteq> ys \<Longrightarrow> lex_less xs ys \<or> lex_less ys xs"
proof (induction xs ys rule: lex_less.induct)
  case (3 x xs y ys)
  then show ?case by (cases x y rule: linorder_cases) auto
qed (auto simp: neq_Nil_conv)

lemma lex_less_asym: "lex_less xs ys \<Longrightarrow> \<not> lex_less ys xs"
  by (induction xs ys rule: lex_less.induct) (auto dest: less_asym)

lemma byte_diff_sign:
  fixes x y :: u8
  shows "uint x = uint y \<longleftrightarrow> x = y" and "uint x < uint y \<longleftrightarrow> x < y"
  by (simp_all add: word_less_def word_uint_eq_iff)

lemma memcmp_loop_sign:
  "(memcmp_loop n m i j 0 = 0 \<longleftrightarrow> bytes m i n = bytes m j n)
    \<and> (memcmp_loop n m i j 0 < 0 \<longleftrightarrow> lex_less (bytes m i n) (bytes m j n))"
proof (induction n arbitrary: i j)
  case 0
  then show ?case by simp
next
  case (Suc n)
  then show ?case
    by (cases "m i = m j") (auto simp: Let_def byte_diff_sign)
qed

text \<open>C27: \<open>memcmp\<close> compares the two blocks as strings of unsigned bytes: its result is zero
  exactly when the blocks are equal, negative exactly when the first precedes the second
  lexicographically and positive exactly when it follows it.\<close>

theorem memcmp_order:
  "(memcmp m i j sz = 0 \<longleftrightarrow> bytes m i (unat sz) = bytes m j (unat sz))
    \<and> (memcmp m i j sz < 0 \<longleftrightarrow> lex_less (bytes m i (unat sz)) (bytes m j (unat sz)))
    \<and> (memcmp m i j sz > 0 \<longleftrightarrow> lex_less (bytes m j (unat sz)) (bytes m i (unat sz)))"
proof -
  let ?r = "memcmp m i j sz" and ?x = "bytes m i (unat sz)" and ?y = "bytes m j (unat sz)"
  have z: "?r = 0 \<longleftrightarrow> ?x = ?y" and l: "?r < 0 \<longleftrightarrow> lex_less ?x ?y"
    using memcmp_loop_sign by (simp_all add: memcmp_def)
  then have "?r > 0 \<longleftrightarrow> lex_less ?y ?x"
    using lex_less_total [of ?x ?y] lex_less_asym [of ?x ?y]
    by (metis lex_less_irrefl not_less_iff_gr_or_eq)
  with z l show ?thesis by blast
qed

section \<open>NUL-terminated strings\<close>

lemma cstr_nonzero: "cstr m p xs \<Longrightarrow> 0 \<notin> set xs"
  by (induction xs arbitrary: p) auto

lemma cstr_append:
  "cstr m p (xs @ ys) \<longleftrightarrow> bytes m p (length xs) = xs \<and> 0 \<notin> set xs \<and> cstr m (p + of_nat (length xs)) ys"
  by (induction xs arbitrary: p) (auto simp: algebra_simps)

lemma cstr_iff:
  "cstr m p xs \<longleftrightarrow> bytes m p (length xs) = xs \<and> 0 \<notin> set xs \<and> m (p + of_nat (length xs)) = 0"
  using cstr_append [of m p xs "[]"] by simp

lemma strlen_loop_cstr: "cstr m p xs \<Longrightarrow> strlen_loop m p = Some (p + of_nat (length xs))"
proof (induction xs arbitrary: p)
  case Nil
  then show ?case by (simp add: strlen_loop.simps)
next
  case (Cons x xs)
  then show ?case by (simp add: strlen_loop.simps [of m p] algebra_simps)
qed

lemma strlen_cstr: "cstr m p xs \<Longrightarrow> strlen m p = Some (of_nat (length xs))"
  by (simp add: strlen_def strlen_loop_cstr)

lemma strcmp_cstr:
  assumes "cstr m i xs" and "cstr m j ys"
  shows "\<exists>r. strcmp m i j = Some r \<and> (r = 0 \<longleftrightarrow> xs = ys) \<and> (r < 0 \<longleftrightarrow> lex_less xs ys)"
  using assms
proof (induction xs ys arbitrary: i j rule: lex_less.induct)
  case (1 xs)
  then show ?case
    by (cases xs) (auto simp: strcmp.simps [of m i j] byte_diff_sign uint_0_iff)
next
  case (2 y ys)
  then show ?case
    using word_gt_0 [of y] by (auto simp: strcmp.simps [of m i j] byte_diff_sign word_less_def)
next
  case (3 x xs y ys)
  then show ?case
    by (cases "x = y") (auto simp: strcmp.simps [of m i j] byte_diff_sign)
qed

text \<open>C28: On two NUL-terminated strings \<open>strcmp\<close> returns (its loop ends), and the result is zero
  exactly when the strings are equal, negative exactly when the first is lexicographically
  smaller and positive exactly when it is larger, bytes being compared unsigned.\<close>

theorem strcmp_order:
  assumes "cstr m i xs" and "cstr m j ys"
  shows "\<exists>r. strcmp m i j = Some r \<and> (r = 0 \<longleftrightarrow> xs = ys)
    \<and> (r < 0 \<longleftrightarrow> lex_less xs ys) \<and> (r > 0 \<longleftrightarrow> lex_less ys xs)"
proof -
  from strcmp_cstr [OF assms] obtain r where r: "strcmp m i j = Some r" "r = 0 \<longleftrightarrow> xs = ys"
    "r < 0 \<longleftrightarrow> lex_less xs ys" by blast
  then have "r > 0 \<longleftrightarrow> lex_less ys xs"
    using lex_less_total [of xs ys] lex_less_asym [of xs ys]
    by (metis lex_less_irrefl not_less_iff_gr_or_eq)
  with r show ?thesis by blast
qed

text \<open>A concrete memory for the witnesses: the bytes of a list at an address, zero elsewhere.\<close>

definition mem_of :: "ptr \<Rightarrow> u8 list \<Rightarrow> mem" where
  "mem_of p xs a = (if unat (a - p) < length xs then xs ! unat (a - p) else 0)"

theorem strcmp_order_witness:
  "\<exists>r. strcmp (mem_of 16 [97, 98, 0, 97, 99, 0]) 16 19 = Some r
    \<and> (r = 0 \<longleftrightarrow> [97, 98] = [97, 99 :: u8])
    \<and> (r < 0 \<longleftrightarrow> lex_less [97, 98] [97, 99]) \<and> (r > 0 \<longleftrightarrow> lex_less [97, 99] [97, 98])"
  by (rule strcmp_order) (simp_all add: mem_of_def)

section \<open>Bounded copies\<close>

lemma cstr_cong:
  assumes "length xs < 4294967295"
    and "\<And>a. in_block p (Suc (length xs)) a \<Longrightarrow> m a = m' a"
  shows "cstr m p xs \<longleftrightarrow> cstr m' p xs"
  using assms
proof (induction xs arbitrary: p)
  case Nil
  then show ?case by (simp add: in_block_def)
next
  case (Cons x xs)
  have "cstr m (p + 1) xs \<longleftrightarrow> cstr m' (p + 1) xs"
    using Cons.prems by (intro Cons.IH) (simp_all add: in_block_Suc [of "Suc (length xs)"])
  then show ?case using Cons.prems by (simp add: in_block_def)
qed

text \<open>What the copying loop leaves when the source string and the \<open>n\<close> bytes of the destination
  do not overlap: the first \<open>n\<close> of the string's bytes, the NUL counted.\<close>

lemma strlcpy_loop_spec:
  assumes "cstr m j xs" and "n < 4294967296" and "length xs < 4294967295"
    and "\<And>a. in_block i n a \<Longrightarrow> \<not> in_block j (Suc (length xs)) a"
  shows "strlcpy_loop n m i j =
    (let k = min n (Suc (length xs))
     in (\<lambda>a. if in_block i k a then (xs @ [0]) ! unat (a - i) else m a,
         i + of_nat k, j + of_nat k, n - length xs))"
  using assms
proof (induction n arbitrary: m i j xs)
  case 0
  then show ?case by simp
next
  case (Suc n)
  have nb: "n < 4294967296" using Suc.prems by simp
  show ?case
  proof (cases xs)
    case Nil
    then show ?thesis using Suc.prems nb in_block_Suc [of 0 i]
      by (auto simp: fun_eq_iff)
  next
    case (Cons x ys)
    let ?m = "m(i := x)"
    have lb: "length ys < 4294967295" "Suc (length ys) < 4294967296"
      using Suc.prems Cons by simp_all
    have sep: "\<not> in_block (j + 1) (Suc (length ys)) a" if "in_block i (Suc n) a" for a
      using Suc.prems(4) [OF that] Cons in_block_Suc [OF lb(2), of j a] by simp
    have blk: "in_block i (Suc n) a \<longleftrightarrow> a = i \<or> in_block (i + 1) n a" for a
      using in_block_Suc [OF nb] .
    have "cstr m (j + 1) ys \<longleftrightarrow> cstr ?m (j + 1) ys"
      using lb(1) sep blk by (intro cstr_cong) auto
    then have c: "cstr ?m (j + 1) ys" using Suc.prems Cons by simp
    have IH: "strlcpy_loop n ?m (i + 1) (j + 1) =
      (let k = min n (Suc (length ys))
       in (\<lambda>a. if in_block (i + 1) k a then (ys @ [0]) ! unat (a - (i + 1)) else ?m a,
           i + 1 + of_nat k, j + 1 + of_nat k, n - length ys))"
      by (rule Suc.IH [OF c nb lb(1)]) (use sep blk in auto)
    have kb: "min n (Suc (length ys)) < 4294967296" using nb by simp
    have at: "(if in_block (i + 1) k a then (ys @ [0]) ! unat (a - (i + 1)) else ?m a) =
      (if in_block i (Suc k) a then (x # ys @ [0]) ! unat (a - i) else m a)"
      if "k < 4294967296" for k a
    proof (cases "a = i")
      case True
      then show ?thesis using that by (simp add: in_block_not_start in_block_def)
    next
      case False
      then show ?thesis using unat_offset_Suc [OF False] in_block_Suc [OF that, of i a] by simp
    qed
    have step: "strlcpy_loop (Suc n) m i j = strlcpy_loop n ?m (i + 1) (j + 1)"
      using Suc.prems(1) by (simp add: Cons)
    have off: "p + 1 + of_nat k = p + of_nat (Suc k)" for p :: ptr and k
      by (simp add: add.assoc)
    have len: "min (Suc n) (Suc (length xs)) = Suc (min n (Suc (length ys)))"
      by (simp add: Cons)
    show ?thesis
      unfolding step IH Let_def at [OF kb] off len by (simp add: Cons cong: if_cong)
  qed
qed

lemma cstr_placed:
  assumes "0 \<notin> set ys" and "length ys < 4294967295"
  shows "cstr (\<lambda>a. if in_block i (Suc (length ys)) a then (ys @ [0]) ! unat (a - i) else m a) i ys"
  unfolding cstr_iff
  using assms by (auto simp: bytes_def in_block_def unat_of_nat_32 nth_append intro!: nth_equalityI)

lemma strlcpy_mem:
  assumes "cstr m j xs" and "length xs < 4294967295" and "sz \<noteq> 0"
    and "\<And>a. in_block i (unat sz) a \<Longrightarrow> \<not> in_block j (Suc (length xs)) a"
  shows "fst (strlcpy m i j sz) =
    (let ys = take (unat sz - 1) xs
     in (\<lambda>a. if in_block i (Suc (length ys)) a then (ys @ [0]) ! unat (a - i) else m a))"
proof -
  let ?n = "unat sz - 1"
  have n: "unat sz = Suc ?n" using assms(3) by (simp add: unat_gt_0)
  have nb: "?n < 4294967295" using n unat_lt_32 [of sz] by simp
  have loop: "strlcpy_loop ?n m i j =
    (let k = min ?n (Suc (length xs))
     in (\<lambda>a. if in_block i k a then (xs @ [0]) ! unat (a - i) else m a,
         i + of_nat k, j + of_nat k, ?n - length xs))"
    by (rule strlcpy_loop_spec [OF assms(1) _ assms(2)])
      (use nb n assms(4) in \<open>auto simp: in_block_def\<close>)
  show ?thesis
  proof (cases "?n \<le> length xs")
    case True
    have "a = i + of_nat ?n \<longleftrightarrow> unat (a - i) = ?n" for a
      using nb by (auto simp: unat_of_nat_32 algebra_simps dest!: arg_cong [where f = "of_nat :: nat \<Rightarrow> ptr"])
    then show ?thesis
      using True loop assms(3)
      by (auto simp: strlcpy_def Let_def fun_eq_iff in_block_def nth_append min_def)
  next
    case False
    then show ?thesis
      using loop assms(3) by (auto simp: strlcpy_def Let_def fun_eq_iff)
  qed
qed

text \<open>\<open>strlcpy\<close> into a buffer of \<open>size > 0\<close> bytes that does not overlap the source string
  leaves there the longest prefix of the string that fits together with its NUL, and no byte
  outside the buffer changes.\<close>

theorem strlcpy_correct:
  assumes "cstr m j xs" and "length xs < 4294967295" and "sz \<noteq> 0"
    and "\<And>a. in_block i (unat sz) a \<Longrightarrow> \<not> in_block j (Suc (length xs)) a"
  shows "cstr (fst (strlcpy m i j sz)) i (take (unat sz - 1) xs)
    \<and> (\<forall>a. \<not> in_block i (unat sz) a \<longrightarrow> fst (strlcpy m i j sz) a = m a)"
proof -
  have lb: "length (take (unat sz - 1) xs) < 4294967295" using assms(2) by simp
  have nz: "0 \<notin> set (take (unat sz - 1) xs)"
    using cstr_nonzero [OF assms(1)] by (auto dest: in_set_takeD)
  have "0 < unat sz" using assms(3) by (simp add: unat_gt_0)
  then have le: "Suc (length (take (unat sz - 1) xs)) \<le> unat sz" by simp
  have "fst (strlcpy m i j sz) a = m a" if "\<not> in_block i (unat sz) a" for a
    using that le strlcpy_mem [OF assms] by (auto simp: in_block_def Let_def)
  moreover have "cstr (fst (strlcpy m i j sz)) i (take (unat sz - 1) xs)"
    using cstr_placed [OF nz lb, of i m] by (simp only: strlcpy_mem [OF assms] Let_def)
  ultimately show ?thesis by blast
qed

theorem strlcpy_correct_witness:
  "cstr (fst (strlcpy (mem_of 16 [97, 98, 99, 0]) 32 16 3)) 32 (take 2 [97, 98, 99])
    \<and> fst (strlcpy (mem_of 16 [97, 98, 99, 0]) 32 16 3) 35 = 0"
proof -
  have "cstr (mem_of 16 [97, 98, 99, 0]) 16 [97, 98, 99]" by (simp add: mem_of_def)
  moreover have "\<not> in_block 16 (Suc (length [97, 98, 99 :: u8])) a" if "in_block 32 3 a" for a :: ptr
  proof -
    have "a = 32 \<or> a = 33 \<or> a = 34"
      using that by (auto simp: in_block_offset less_Suc_eq numeral_3_eq_3)
    then show ?thesis by (auto simp: in_block_def)
  qed
  ultimately have "cstr (fst (strlcpy (mem_of 16 [97, 98, 99, 0]) 32 16 3)) 32
      (take (unat (3 :: size_t) - 1) [97, 98, 99])
    \<and> (\<forall>a. \<not> in_block 32 (unat (3 :: size_t)) a \<longrightarrow>
          fst (strlcpy (mem_of 16 [97, 98, 99, 0]) 32 16 3) a = mem_of 16 [97, 98, 99, 0] a)"
    by (intro strlcpy_correct) (assumption | simp)+
  then show ?thesis by (simp add: in_block_def mem_of_def)
qed

end
