(* ===== verification/Arch_Riscv.thy ===== *)
theory Arch_Riscv
  imports CC_Status
begin

text \<open>
  The interrupt-enable part of the RISC-V architecture layer
  (\<open>src/src/arch/riscv/32/i/terravisor/arch.c\<close> and \<open>include/arch.h\<close>): the machine CSRs \<open>mie\<close> and
  \<open>mstatus\<close> with the set and clear instructions the inline assembly issues, saving and restoring
  the enables around a critical section, and the suspend flag of each core.
\<close>

record cpu =
  mie :: u32
  mstatus :: u32

definition csrs_mie :: "u32 \<Rightarrow> cpu \<Rightarrow> cpu" where
  "csrs_mie bits c = c\<lparr>mie := mie c OR bits\<rparr>"

definition csrc_mie :: "u32 \<Rightarrow> cpu \<Rightarrow> cpu" where
  "csrc_mie bits c = c\<lparr>mie := mie c AND NOT bits\<rparr>"

definition arch_ei :: "cpu \<Rightarrow> cpu" where
  "arch_ei c = c\<lparr>mstatus := mstatus c OR (push_bit 3 1 OR push_bit 7 1)\<rparr>"

definition arch_di :: "cpu \<Rightarrow> cpu" where
  "arch_di c =
     csrc_mie (push_bit 3 1 OR push_bit 7 1 OR push_bit 11 1)
       (c\<lparr>mstatus := mstatus c AND NOT (push_bit 3 1 OR push_bit 7 1)\<rparr>)"

definition arch_ei_mei :: "cpu \<Rightarrow> cpu" where
  "arch_ei_mei = csrs_mie (push_bit 11 1)"

definition arch_di_mei :: "cpu \<Rightarrow> cpu" where
  "arch_di_mei = csrc_mie (push_bit 11 1)"

definition arch_ei_mtime :: "cpu \<Rightarrow> cpu" where
  "arch_ei_mtime = csrs_mie (push_bit 7 1)"

definition arch_di_mtime :: "cpu \<Rightarrow> cpu" where
  "arch_di_mtime = csrc_mie (push_bit 7 1)"

definition arch_ei_msoftirq :: "cpu \<Rightarrow> cpu" where
  "arch_ei_msoftirq = csrs_mie (push_bit 3 1)"

definition arch_di_msoftirq :: "cpu \<Rightarrow> cpu" where
  "arch_di_msoftirq = csrc_mie (push_bit 3 1)"

definition arch_di_save_state :: "cpu \<Rightarrow> u32 \<times> cpu" where
  "arch_di_save_state c =
     (mie c AND (push_bit 3 1 OR push_bit 7 1 OR push_bit 11 1), arch_di c)"

definition arch_ei_restore_state :: "u32 \<Rightarrow> cpu \<Rightarrow> cpu" where
  "arch_ei_restore_state istate c = arch_ei (csrs_mie istate c)"

text \<open>Interrupts are globally enabled when \<open>mstatus.MIE\<close> (bit 3) is set.\<close>

definition irqs_on :: "cpu \<Rightarrow> bool" where
  "irqs_on c \<longleftrightarrow> bit (mstatus c) 3"

lemma irqs_on_arch_di [simp]: "\<not> irqs_on (arch_di c)"
  by (simp add: irqs_on_def arch_di_def csrc_mie_def bit_simps)

lemma irqs_on_arch_ei [simp]: "irqs_on (arch_ei c)"
  by (simp add: irqs_on_def arch_ei_def bit_simps)

text \<open>Leaving a critical section puts the interrupt enables of \<open>mie\<close> back as they were, but
  always turns the global enable on, also when it was off on entry.\<close>

lemma restore_after_save:
  assumes "arch_di_save_state c = (s, c')"
  shows "mie (arch_ei_restore_state s c') = mie c" and "irqs_on (arch_ei_restore_state s c')"
proof -
  show "mie (arch_ei_restore_state s c') = mie c"
    using assms
    by (auto simp: arch_di_save_state_def arch_ei_restore_state_def csrs_mie_def csrc_mie_def
        arch_ei_def arch_di_def
        intro!: bit_word_eqI simp: bit_simps)
  show "irqs_on (arch_ei_restore_state s c')"
    by (simp add: arch_ei_restore_state_def)
qed

section \<open>Suspend flags\<close>

text \<open>\<open>sleep_flag[N_CORES]\<close>, indexed by \<open>arch_core_index()\<close>; \<open>resume\<close> is 0xffff.\<close>

type_synonym sleep_flags = "nat \<Rightarrow> u32"

definition arch_suspended_state_was :: "nat \<Rightarrow> u32 \<Rightarrow> sleep_flags \<Rightarrow> bool" where
  "arch_suspended_state_was core state f = (if f core = 0 then False else f core = state)"

definition arch_signal_suspend :: "nat \<Rightarrow> u32 \<Rightarrow> sleep_flags \<Rightarrow> sleep_flags" where
  "arch_signal_suspend core state f = f(core := state)"

definition arch_signal_resume :: "nat \<Rightarrow> sleep_flags \<Rightarrow> sleep_flags" where
  "arch_signal_resume core f = f(core := 0xffff)"

end
