(* ===== verification/C_Malloc.thy ===== *)
theory C_Malloc
  imports C_String Arch_Riscv
begin

text \<open>
  The heap of \<open>src/src/lib/libc/malloc_lite.c\<close> in its 32-bit build (\<open>HEAP_ALIGN = 4\<close>, so a
  chunk header is three words, \<open>sizeof(chunk_t) = 12\<close>).

  The headers are a store of chunk records indexed by address and the payload is a byte memory;
  a header at address 0 does not exist, so following a NULL pointer is a \<open>Fault\<close>. The loops over
  the chunk list get the heap's size in bytes as fuel, which is more than the number of chunks a
  well-formed heap can hold (each takes at least twelve bytes); the theorems show that it never
  runs out. The heap lock is a flag: on the one hart that runs this code a second acquisition
  spins forever.

  The abstraction of a well-formed heap is the list of its blocks, each a payload size and a free
  flag, laid end to end from \<open>_heap_start\<close> to \<open>_heap_end\<close> (\<open>tiling\<close>).
\<close>

section \<open>State\<close>

record chunk =
  chunk_size :: size_t
  chunk_free :: size_t
  chunk_next :: ptr

record heap =
  chunks :: "ptr \<Rightarrow> chunk"
  data :: mem
  freeList :: ptr
  heap_start :: ptr
  heap_end :: ptr
  mlock :: bool
  istate :: u32
  hcpu :: cpu

abbreviation (input) sizeof_chunk :: size_t where
  "sizeof_chunk \<equiv> 12"

definition put_chunk :: "ptr \<Rightarrow> chunk \<Rightarrow> heap \<Rightarrow> heap" where
  "put_chunk p c h = h\<lparr>chunks := (chunks h)(p := c)\<rparr>"

definition heap_fuel :: "heap \<Rightarrow> nat" where
  "heap_fuel h = Suc (unat (heap_end h))"

section \<open>Operations\<close>

definition heap_lock :: "heap \<Rightarrow> heap outcome" where
  "heap_lock h =
     (if mlock h then Hang
      else let (s, c) = arch_di_save_state (hcpu h)
           in Ok (h\<lparr>mlock := True, istate := s, hcpu := c\<rparr>))"

definition heap_unlock :: "heap \<Rightarrow> heap" where
  "heap_unlock h =
     h\<lparr>mlock := False, hcpu := arch_ei_restore_state (istate h) (hcpu h)\<rparr>"

definition split :: "ptr \<Rightarrow> size_t \<Rightarrow> heap \<Rightarrow> heap outcome" where
  "split fit_slot sz h =
     (let new = fit_slot + sz + sizeof_chunk
      in require (new \<noteq> NULL) Null_deref
        (let c = chunks h fit_slot;
             h1 = put_chunk new \<lparr>chunk_size = chunk_size c - sz - sizeof_chunk,
                                  chunk_free = 1, chunk_next = chunk_next c\<rparr> h
         in Ok (put_chunk fit_slot \<lparr>chunk_size = sz, chunk_free = 0, chunk_next = new\<rparr> h1)))"

fun merge_loop :: "nat \<Rightarrow> ptr \<Rightarrow> heap \<Rightarrow> heap outcome" where
  "merge_loop 0 cur h = Hang"
| "merge_loop (Suc k) cur h =
     (if cur = NULL \<or> chunk_next (chunks h cur) = NULL then Ok h
      else let c = chunks h cur; d = chunks h (chunk_next c)
           in if chunk_free c \<noteq> 0 \<and> chunk_free d \<noteq> 0
              then merge_loop k (chunk_next d)
                     (put_chunk cur (c\<lparr>chunk_size := chunk_size c + (chunk_size d + sizeof_chunk),
                                       chunk_next := chunk_next d\<rparr>) h)
              else merge_loop k (chunk_next c) h)"

definition merge :: "heap \<Rightarrow> heap outcome" where
  "merge h = merge_loop (heap_fuel h) (freeList h) h"

definition get_header :: "ptr \<Rightarrow> ptr" where
  "get_header p = p - sizeof_chunk"

definition platform_init_heap :: "heap \<Rightarrow> (status_t \<times> heap) outcome" where
  "platform_init_heap h =
     obind (heap_lock h) (\<lambda>h.
       let sz = heap_end h - heap_start h;
           h1 = h\<lparr>data := fst (memset (data h) (heap_start h) 0 sz), freeList := heap_start h\<rparr>
       in require (freeList h1 \<noteq> NULL) Null_deref
            (Ok (success, heap_unlock
              (put_chunk (freeList h1)
                \<lparr>chunk_size = sz - sizeof_chunk, chunk_free = 1, chunk_next = NULL\<rparr> h1))))"

text \<open>\<open>ROUNDUP_ALIGN(x, 4)\<close>: a multiple of four also grows by four.\<close>

definition roundup_align :: "size_t \<Rightarrow> size_t" where
  "roundup_align x = x + (4 - x mod 4)"

text \<open>\<open>while(cur->size < n_bytes || (!cur->free && cur->next)) cur = cur->next;\<close>\<close>

fun find_loop :: "nat \<Rightarrow> size_t \<Rightarrow> ptr \<Rightarrow> heap \<Rightarrow> ptr outcome" where
  "find_loop 0 n cur h = Hang"
| "find_loop (Suc k) n cur h =
     require (cur \<noteq> NULL) Null_deref
       (let c = chunks h cur
        in if chunk_size c < n \<or> (chunk_free c = 0 \<and> chunk_next c \<noteq> NULL)
           then find_loop k n (chunk_next c) h else Ok cur)"

text \<open>What \<open>malloc\<close> does with the chunk the search stopped at.\<close>

definition take_chunk :: "size_t \<Rightarrow> ptr \<Rightarrow> heap \<Rightarrow> (ptr \<times> heap) outcome" where
  "take_chunk n cur h =
     (let c = chunks h cur
      in if chunk_size c = n then Ok (cur + sizeof_chunk, put_chunk cur (c\<lparr>chunk_free := 0\<rparr>) h)
         else if chunk_size c > n + sizeof_chunk
              then obind (split cur n h) (\<lambda>h'. Ok (cur + sizeof_chunk, h'))
         else Ok (NULL, h))"

definition malloc :: "size_t \<Rightarrow> heap \<Rightarrow> (ptr \<times> heap) outcome" where
  "malloc n_bytes h =
     (if n_bytes = 0 then Ok (NULL, h)
      else let n = roundup_align n_bytes
      in obind (heap_lock h) (\<lambda>h.
         require (freeList h \<noteq> NULL) Null_deref
           (if chunk_size (chunks h (freeList h)) = 0 then Ok (NULL, heap_unlock h)
            else obind (find_loop (heap_fuel h) n (freeList h) h) (\<lambda>cur.
                 obind (take_chunk n cur h) (\<lambda>(p, h'). Ok (p, heap_unlock h'))))))"

definition free :: "ptr \<Rightarrow> heap \<Rightarrow> heap outcome" where
  "free p h =
     (if p = NULL then Ok h
      else let cur = get_header p
      in obind (heap_lock h) (\<lambda>h.
         if heap_start h \<le> cur \<and> cur \<le> heap_end h
         then require (cur \<noteq> NULL) Null_deref
                (obind (merge (put_chunk cur ((chunks h cur)\<lparr>chunk_free := 1\<rparr>) h)) (\<lambda>h.
                 obind (merge h) (\<lambda>h. Ok (heap_unlock h))))
         else Ok (heap_unlock h)))"

definition calloc :: "size_t \<Rightarrow> size_t \<Rightarrow> heap \<Rightarrow> (ptr \<times> heap) outcome" where
  "calloc n_blocks n_bytes h =
     (let n = n_bytes * n_blocks
      in obind (malloc n h) (\<lambda>(p, h').
         Ok (p, if p \<noteq> NULL then h'\<lparr>data := fst (memset (data h') p 0 n)\<rparr> else h')))"

definition realloc :: "ptr \<Rightarrow> size_t \<Rightarrow> heap \<Rightarrow> (ptr \<times> heap) outcome" where
  "realloc p n_bytes h =
     (if p = NULL then malloc n_bytes h
      else if n_bytes = 0 then obind (free p h) (\<lambda>h'. Ok (NULL, h'))
      else obind (malloc n_bytes h) (\<lambda>(new_p, h').
        if new_p = NULL then Ok (NULL, h')
        else require (get_header p \<noteq> NULL) Null_deref
          (let sz = chunk_size (chunks h' (get_header p))
           in obind (free p (h'\<lparr>data := fst (memcpy (data h') new_p p sz)\<rparr>))
                (\<lambda>h2. Ok (new_p, h2)))))"

fun heap_usage_loop :: "nat \<Rightarrow> u32 \<Rightarrow> ptr \<Rightarrow> heap \<Rightarrow> u32 outcome" where
  "heap_usage_loop 0 usage head h = Hang"
| "heap_usage_loop (Suc k) usage head h =
     require (head \<noteq> NULL) Null_deref
       (let c = chunks h head
        in if chunk_next c \<noteq> NULL
           then heap_usage_loop k
                  (if chunk_free c = 0 then usage + (chunk_size c + sizeof_chunk) else usage)
                  (chunk_next c) h
           else Ok usage)"

definition heap_usage :: "heap \<Rightarrow> u32 outcome" where
  "heap_usage h = heap_usage_loop (heap_fuel h) 0 (heap_start h) h"

section \<open>Well-formed heaps\<close>

type_synonym block = "nat \<times> bool"

text \<open>\<open>tiling H p e bs\<close>: the headers \<open>H\<close> lay the blocks \<open>bs\<close> end to end from \<open>p\<close> to \<open>e\<close>.\<close>

primrec tiling :: "(ptr \<Rightarrow> chunk) \<Rightarrow> nat \<Rightarrow> nat \<Rightarrow> block list \<Rightarrow> bool" where
  "tiling H p e [] \<longleftrightarrow> p = e"
| "tiling H p e (b # bs) \<longleftrightarrow>
     H (of_nat p) = \<lparr>chunk_size = of_nat (fst b), chunk_free = (if snd b then 1 else 0),
                     chunk_next = (if bs = [] then NULL else of_nat (p + 12 + fst b))\<rparr>
     \<and> tiling H (p + 12 + fst b) e bs"

definition heap_wf :: "heap \<Rightarrow> block list \<Rightarrow> bool" where
  "heap_wf h bs \<longleftrightarrow> bs \<noteq> [] \<and> heap_start h \<noteq> 0 \<and> freeList h = heap_start h \<and> \<not> mlock h
     \<and> tiling (chunks h) (unat (heap_start h)) (unat (heap_end h)) bs"

text \<open>The payloads in use: address and size of each block that is not free.\<close>

primrec used :: "nat \<Rightarrow> block list \<Rightarrow> (nat \<times> nat) set" where
  "used p [] = {}"
| "used p (b # bs) = (if snd b then {} else {(p + 12, fst b)}) \<union> used (p + 12 + fst b) bs"

section \<open>The list-level allocator\<close>

text \<open>First fit as the code performs it: a block that is large enough is taken when it is free or
  when it is the last one; \<open>None\<close> says that the search ran past the last block, where the code
  follows a NULL pointer.\<close>

primrec amalloc :: "nat \<Rightarrow> nat \<Rightarrow> block list \<Rightarrow> (nat option \<times> block list) option" where
  "amalloc n p [] = None"
| "amalloc n p (b # bs) =
     (if fst b < n \<or> \<not> snd b \<and> bs \<noteq> []
      then map_option (\<lambda>(r, bs'). (r, b # bs')) (amalloc n (p + 12 + fst b) bs)
      else if fst b = n then Some (Some (p + 12), (fst b, False) # bs)
      else if fst b > n + 12
           then Some (Some (p + 12), (n, False) # (fst b - n - 12, True) # bs)
      else Some (None, b # bs))"

fun amerge :: "block list \<Rightarrow> block list" where
  "amerge [] = []"
| "amerge [b] = [b]"
| "amerge (b # c # bs) =
     (if snd b \<and> snd c then (fst b + (fst c + 12), snd b) # amerge bs else b # amerge (c # bs))"

primrec arelease :: "nat \<Rightarrow> nat \<Rightarrow> block list \<Rightarrow> block list" where
  "arelease q p [] = []"
| "arelease q p (b # bs) =
     (if p + 12 = q then (fst b, True) # bs else b # arelease q (p + 12 + fst b) bs)"

lemma tiling_le: "tiling H p e bs \<Longrightarrow> p + 12 * length bs \<le> e"
  by (induction bs arbitrary: p) force+

lemma tiling_size: "tiling H p e bs \<Longrightarrow> b \<in> set bs \<Longrightarrow> p + 12 + fst b \<le> e"
  by (induction bs arbitrary: p) (force dest: tiling_le)+

lemma tiling_cong:
  assumes "\<And>a. unat a \<ge> p \<Longrightarrow> H a = H' a" and "e < 4294967296" and "tiling H p e bs"
  shows "tiling H' p e bs"
  using assms
proof (induction bs arbitrary: p)
  case (Cons b bs)
  have "p < 4294967296" using tiling_le [OF Cons.prems(3)] Cons.prems(2) by simp
  then have "H (of_nat p) = H' (of_nat p)" using Cons.prems(1) by (simp add: unat_of_nat_32)
  then show ?case using Cons by simp
qed simp

section \<open>The code refines the list-level allocator\<close>

definition alloc_from :: "nat \<Rightarrow> size_t \<Rightarrow> ptr \<Rightarrow> heap \<Rightarrow> (ptr \<times> heap) outcome" where
  "alloc_from k n cur h = obind (find_loop k n cur h) (\<lambda>cur. take_chunk n cur h)"

abbreviation (input) block_ptr :: "nat \<Rightarrow> block list \<Rightarrow> ptr" where
  "block_ptr p bs \<equiv> if bs = [] then NULL else of_nat p"

abbreviation (input) result_ptr :: "nat option \<Rightarrow> ptr" where
  "result_ptr r \<equiv> case r of None \<Rightarrow> NULL | Some q \<Rightarrow> of_nat q"

lemma amalloc_not_Nil: "amalloc n p bs = Some (r, bs') \<Longrightarrow> bs \<noteq> [] \<and> bs' \<noteq> []"
  by (cases bs) (auto split: if_splits)

lemma alloc_from_skip:
  assumes "cur \<noteq> NULL" and "chunks h cur = c"
    and "chunk_size c < n \<or> (chunk_free c = 0 \<and> chunk_next c \<noteq> NULL)"
  shows "alloc_from (Suc k) n cur h = alloc_from k n (chunk_next c) h"
  using assms by (simp add: alloc_from_def)

lemma alloc_from_stop:
  assumes "cur \<noteq> NULL" and "chunks h cur = c"
    and "\<not> (chunk_size c < n \<or> (chunk_free c = 0 \<and> chunk_next c \<noteq> NULL))"
  shows "alloc_from (Suc k) n cur h = take_chunk n cur h"
  using assms by (auto simp: alloc_from_def)

lemma take_chunk_refines:
  assumes t: "tiling (chunks h) p e (b # bs)" and p: "0 < p" and e: "e < 4294967296"
    and n: "unat n + 12 < 4294967296" and fit: "unat n \<le> fst b"
  shows "\<exists>r bs' H'. (if fst b = unat n then (Some (p + 12), (fst b, False) # bs)
      else if fst b > unat n + 12
           then (Some (p + 12), (unat n, False) # (fst b - unat n - 12, True) # bs)
      else (None, b # bs)) = (r, bs')
    \<and> take_chunk n (of_nat p) h = Ok (result_ptr r, h\<lparr>chunks := H'\<rparr>) \<and> tiling H' p e bs'
    \<and> (\<forall>a. unat a < p \<longrightarrow> H' a = chunks h a)"
proof -
  let ?c = "chunks h (of_nat p)" and ?q = "p + unat n + 12"
  have le: "p + 12 + fst b \<le> e" using tiling_size [OF t, of b] by simp
  have up: "unat (of_nat p :: ptr) = p" using le e by (simp add: unat_of_nat_32)
  have sz: "chunk_size ?c = of_nat (fst b)" using t by simp
  have eq: "chunk_size ?c = n \<longleftrightarrow> fst b = unat n"
    using sz le e by (simp add: of_nat_eq_iff_32)
  have "unat (n + 12) = unat n + 12" using n by (simp add: unat_word_ariths)
  then have gt: "chunk_size ?c > n + 12 \<longleftrightarrow> fst b > unat n + 12"
    using sz le e by (simp add: less_of_nat_32)
  have rest: "tiling (chunks h) (p + 12 + fst b) e bs" using t by simp
  have keep: "tiling H' (p + 12 + fst b) e bs"
    if "\<And>a. unat a \<ge> p + 12 + fst b \<Longrightarrow> H' a = chunks h a" for H'
    using tiling_cong [OF _ e rest] that by metis
  consider (exact) "fst b = unat n" | (split) "fst b > unat n + 12"
    | (slack) "fst b \<noteq> unat n" "fst b \<le> unat n + 12" by linarith
  then show ?thesis
  proof cases
    case exact
    let ?H = "(chunks h)(of_nat p := ?c\<lparr>chunk_free := 0\<rparr>)"
    have "tiling ?H (p + 12 + fst b) e bs" using up by (intro keep) auto
    then have "tiling ?H p e ((fst b, False) # bs)" using t by simp
    moreover have "\<forall>a. unat a < p \<longrightarrow> ?H a = chunks h a" using up by auto
    moreover have "take_chunk n (of_nat p) h = Ok (result_ptr (Some (p + 12)), h\<lparr>chunks := ?H\<rparr>)"
      using exact eq by (simp add: take_chunk_def put_chunk_def Let_def)
    ultimately show ?thesis unfolding if_P [OF exact] by blast
  next
    case split
    let ?H = "(chunks h)(of_nat ?q := \<lparr>chunk_size = of_nat (fst b) - n - 12, chunk_free = 1,
        chunk_next = chunk_next ?c\<rparr>,
      of_nat p := \<lparr>chunk_size = n, chunk_free = 0, chunk_next = of_nat ?q\<rparr>)"
    have uq: "unat (of_nat ?q :: ptr) = ?q" using split le e by (simp only: unat_of_nat_32)
    have new: "of_nat p + n + 12 = (of_nat ?q :: ptr)" by simp
    have "unat (of_nat ?q :: ptr) \<noteq> unat (of_nat p :: ptr)" "unat (of_nat ?q :: ptr) \<noteq> 0"
      unfolding uq up by simp_all
    then have ne: "(of_nat ?q :: ptr) \<noteq> NULL" "(of_nat ?q :: ptr) \<noteq> of_nat p"
      by (metis unat_0, metis)
    have sub: "of_nat (fst b) - n - 12 = (of_nat (fst b - unat n - 12) :: size_t)"
      using split by (simp add: of_nat_diff)
    have "tiling ?H (p + 12 + fst b) e bs" using up uq split by (intro keep) auto
    then have "tiling ?H p e ((unat n, False) # (fst b - unat n - 12, True) # bs)"
      using ne t split sub by (simp add: algebra_simps)
    moreover have "\<forall>a. unat a < p \<longrightarrow> ?H a = chunks h a" using up uq by auto
    moreover have "take_chunk n (of_nat p) h = Ok (result_ptr (Some (p + 12)), h\<lparr>chunks := ?H\<rparr>)"
      using split eq gt sz new ne
      by (simp add: take_chunk_def split_def put_chunk_def Let_def)
    moreover have "fst b \<noteq> unat n" using split by simp
    ultimately show ?thesis unfolding if_P [OF split] if_not_P [OF \<open>fst b \<noteq> unat n\<close>] by blast
  next
    case slack
    have "take_chunk n (of_nat p) h = Ok (0, h\<lparr>chunks := chunks h\<rparr>)"
      using slack eq gt by (simp add: take_chunk_def)
    then show ?thesis using slack t
      by (intro exI [of _ None] exI [of _ "b # bs"] exI [of _ "chunks h"]) simp
  qed
qed

lemma alloc_from_refines:
  assumes "tiling (chunks h) p e bs" and "0 < p" and e: "e < 4294967296"
    and n: "unat n + 12 < 4294967296" and "length bs < k"
  shows "case amalloc (unat n) p bs of
      None \<Rightarrow> alloc_from k n (block_ptr p bs) h = Fault Null_deref
    | Some (r, bs') \<Rightarrow> \<exists>H'. alloc_from k n (block_ptr p bs) h = Ok (result_ptr r, h\<lparr>chunks := H'\<rparr>)
        \<and> tiling H' p e bs' \<and> (\<forall>a. unat a < p \<longrightarrow> H' a = chunks h a)"
  using assms(1,2,5)
proof (induction bs arbitrary: p k)
  case Nil
  then show ?case by (cases k) (simp_all add: alloc_from_def)
next
  case (Cons b bs)
  obtain k' where k: "k = Suc k'" using Cons.prems by (cases k) auto
  let ?p = "p + 12 + fst b" and ?c = "chunks h (of_nat p)"
  have le: "?p \<le> e" using tiling_size [OF Cons.prems(1), of b] by simp
  have pn: "(of_nat p :: ptr) \<noteq> 0" "bs \<noteq> [] \<Longrightarrow> (of_nat ?p :: ptr) \<noteq> 0"
    using Cons.prems le e of_nat_eq_0_32 [of p] of_nat_eq_0_32 [of ?p] by auto
  have cond: "chunk_size ?c < n \<or> (chunk_free ?c = 0 \<and> chunk_next ?c \<noteq> 0) \<longleftrightarrow>
      fst b < unat n \<or> \<not> snd b \<and> bs \<noteq> []"
    using Cons.prems(1) pn le e of_nat_less_32 [of "fst b" n] by auto
  show ?case
  proof (cases "fst b < unat n \<or> \<not> snd b \<and> bs \<noteq> []")
    case True
    have IH: "case amalloc (unat n) ?p bs of
        None \<Rightarrow> alloc_from k' n (block_ptr ?p bs) h = Fault Null_deref
      | Some (r, bs') \<Rightarrow> \<exists>H'. alloc_from k' n (block_ptr ?p bs) h = Ok (result_ptr r, h\<lparr>chunks := H'\<rparr>)
          \<and> tiling H' ?p e bs' \<and> (\<forall>a. unat a < ?p \<longrightarrow> H' a = chunks h a)"
      using Cons.prems k by (intro Cons.IH) simp_all
    have step: "alloc_from k n (of_nat p) h = alloc_from k' n (block_ptr ?p bs) h"
      using alloc_from_skip [of "of_nat p" h ?c n k'] pn cond True Cons.prems(1) k by simp
    have up: "unat (of_nat p :: ptr) < ?p" using le e by (simp add: unat_of_nat_32)
    show ?thesis
    proof (cases "amalloc (unat n) ?p bs")
      case None
      then show ?thesis using IH step True by simp
    next
      case (Some rb)
      obtain r bs' where rb: "rb = (r, bs')" by (cases rb)
      with Some IH obtain H' where H': "alloc_from k' n (block_ptr ?p bs) h = Ok (result_ptr r, h\<lparr>chunks := H'\<rparr>)"
        "tiling H' ?p e bs'" "\<forall>a. unat a < ?p \<longrightarrow> H' a = chunks h a" by auto
      have "tiling H' p e (b # bs')"
        using H'(2,3) Cons.prems(1) up amalloc_not_Nil [OF Some [unfolded rb]] by simp
      then show ?thesis using H' Some rb step True by auto
    qed
  next
    case False
    then have "alloc_from k n (of_nat p) h = take_chunk n (of_nat p) h"
      using alloc_from_stop [of "of_nat p" h ?c n k'] pn cond k by simp
    then show ?thesis
      using take_chunk_refines [OF Cons.prems(1,2) e n] False by (auto simp: not_less)
  qed
qed

lemma roundup_align_bound:
  assumes "unat n \<le> 4294967275"
  shows "unat (roundup_align n) = unat n + (4 - unat n mod 4)"
    and "unat n < unat (roundup_align n)" and "unat (roundup_align n) + 12 < 4294967296"
    and "roundup_align n \<noteq> 0"
proof -
  have m: "unat n mod 4 < 4" by simp
  have "unat (4 - n mod 4 :: 32 word) = 4 - unat n mod 4"
    using m by (subst unat_sub) (simp_all add: word_le_nat_alt unat_mod)
  then show u: "unat (roundup_align n) = unat n + (4 - unat n mod 4)"
    using assms by (simp add: roundup_align_def unat_word_ariths)
  then show "unat n < unat (roundup_align n)" "unat (roundup_align n) + 12 < 4294967296"
    using assms m by linarith+
  then show "roundup_align n \<noteq> 0" by auto
qed

text \<open>\<open>malloc\<close> of a request whose rounding does not overflow performs \<open>amalloc\<close> on the block
  list, unless the first block is empty, when it gives up at once.\<close>

lemma malloc_refines:
  assumes wf: "heap_wf h bs" and n: "n \<noteq> 0" "unat n \<le> 4294967275" and hd: "fst (hd bs) \<noteq> 0"
  shows "case amalloc (unat (roundup_align n)) (unat (heap_start h)) bs of
      None \<Rightarrow> malloc n h = Fault Null_deref
    | Some (r, bs') \<Rightarrow> \<exists>h'. malloc n h = Ok (result_ptr r, h') \<and> heap_wf h' bs'
        \<and> heap_start h' = heap_start h \<and> heap_end h' = heap_end h \<and> data h' = data h
        \<and> mie (hcpu h') = mie (hcpu h)"
proof -
  let ?n = "roundup_align n"
  obtain s c where sc: "arch_di_save_state (hcpu h) = (s, c)" by fastforce
  define h1 where "h1 = h\<lparr>mlock := True, istate := s, hcpu := c\<rparr>"
  obtain b bs1 where bs: "bs = b # bs1" using wf by (cases bs) (auto simp: heap_wf_def)
  have t: "tiling (chunks h1) (unat (heap_start h)) (unat (heap_end h)) bs"
    and st: "heap_start h \<noteq> 0" and lk: "\<not> mlock h" and fl: "freeList h1 = heap_start h"
    using wf by (simp_all add: heap_wf_def h1_def)
  have pos: "0 < unat (heap_start h)" using st by (simp add: unat_gt_0)
  have e: "unat (heap_end h) < 4294967296" by (rule unat_lt_32)
  have k: "length bs < heap_fuel h1"
    using tiling_le [OF t] by (simp add: heap_fuel_def h1_def)
  have "fst b < 4294967296" using tiling_size [OF t, of b] bs e by simp
  then have sz: "chunk_size (chunks h1 (heap_start h)) \<noteq> 0"
    using t hd bs by (simp add: of_nat_eq_0_32)
  have m: "malloc n h = obind (alloc_from (heap_fuel h1) ?n (block_ptr (unat (heap_start h)) bs) h1)
      (\<lambda>(p, h'). Ok (p, heap_unlock h'))"
    using n lk sc fl sz st bs
    by (simp add: malloc_def heap_lock_def Let_def alloc_from_def obind_assoc flip: h1_def)
  let ?a = "alloc_from (heap_fuel h1) ?n (block_ptr (unat (heap_start h)) bs) h1"
  note ref = alloc_from_refines [OF t pos e roundup_align_bound(3) [OF n(2)] k]
  show ?thesis
  proof (cases "amalloc (unat ?n) (unat (heap_start h)) bs")
    case None
    then show ?thesis using ref m by simp
  next
    case (Some rb)
    obtain r bs' where rb: "rb = (r, bs')" by (cases rb)
    from ref Some rb obtain H' where a: "?a = Ok (result_ptr r, h1\<lparr>chunks := H'\<rparr>)"
      and t': "tiling H' (unat (heap_start h)) (unat (heap_end h)) bs'" by auto
    define h2 where "h2 = heap_unlock (h1\<lparr>chunks := H'\<rparr>)"
    have "heap_wf h2 bs'"
      using t' st fl amalloc_not_Nil [OF Some [unfolded rb]]
      by (simp add: heap_wf_def heap_unlock_def h1_def h2_def)
    moreover have "heap_start h2 = heap_start h" "heap_end h2 = heap_end h" "data h2 = data h"
      "mie (hcpu h2) = mie (hcpu h)"
      using restore_after_save(1) [OF sc] by (simp_all add: heap_unlock_def h1_def h2_def)
    moreover have "malloc n h = Ok (result_ptr r, h2)" using m a by (simp add: h2_def)
    ultimately show ?thesis using Some rb by auto
  qed
qed

lemma amerge_eq_Nil [simp]: "amerge bs = [] \<longleftrightarrow> bs = []"
  by (cases bs rule: amerge.cases) auto

lemma merge_loop_refines:
  assumes "tiling (chunks h) p e bs" and "0 < p" and e: "e < 4294967296" and "length bs < k"
  shows "\<exists>H'. merge_loop k (block_ptr p bs) h = Ok (h\<lparr>chunks := H'\<rparr>) \<and> tiling H' p e (amerge bs)
    \<and> (\<forall>a. unat a < p \<longrightarrow> H' a = chunks h a)"
  using assms(1,2,4)
proof (induction bs arbitrary: p k h rule: amerge.induct)
  case 1
  then show ?case by (cases k) (auto intro!: exI [of _ "chunks h"])
next
  case (2 b)
  then show ?case by (cases k) (auto intro!: exI [of _ "chunks h"])
next
  case (3 b c bs)
  obtain k' where k: "k = Suc k'" using 3 by (cases k) auto
  let ?q = "p + 12 + fst b" let ?r = "?q + 12 + fst c"
  let ?B = "chunks h (of_nat p)" and ?C = "chunks h (of_nat ?q)"
  have le: "?r \<le> e" using tiling_le [of "chunks h" ?r e bs] 3 by simp
  have ne: "(of_nat p :: ptr) \<noteq> 0" "(of_nat ?q :: ptr) \<noteq> 0" "bs \<noteq> [] \<Longrightarrow> (of_nat ?r :: ptr) \<noteq> 0"
    using 3 le e of_nat_eq_0_32 [of p] of_nat_eq_0_32 [of ?q] of_nat_eq_0_32 [of ?r] by auto
  have up: "unat (of_nat p :: ptr) = p" using le e by (simp add: unat_of_nat_32)
  have B: "?B = \<lparr>chunk_size = of_nat (fst b), chunk_free = (if snd b then 1 else 0), chunk_next = of_nat ?q\<rparr>"
    and C: "?C = \<lparr>chunk_size = of_nat (fst c), chunk_free = (if snd c then 1 else 0), chunk_next = block_ptr ?r bs\<rparr>"
    and t: "tiling (chunks h) ?q e (c # bs)" "tiling (chunks h) ?r e bs"
    using 3 by simp_all
  show ?case
  proof (cases "snd b \<and> snd c")
    case True
    define D where "D = ?B\<lparr>chunk_size := of_nat (fst b) + (of_nat (fst c) + 12),
        chunk_next := block_ptr ?r bs\<rparr>"
    define h1 where "h1 = put_chunk (of_nat p) D h"
    have h1: "chunks h1 = (chunks h)(of_nat p := D)" by (simp add: h1_def put_chunk_def)
    have "tiling (chunks h1) ?r e bs"
      by (rule tiling_cong [OF _ e t(2)]) (use up in \<open>auto simp: h1\<close>)
    from 3(1) [OF True this, of k'] 3(4,5) k obtain H'
      where H': "merge_loop k' (block_ptr ?r bs) h1 = Ok (h1\<lparr>chunks := H'\<rparr>)"
        "tiling H' ?r e (amerge bs)" "\<forall>a. unat a < ?r \<longrightarrow> H' a = chunks h1 a" by auto
    have "unat (of_nat p :: ptr) < ?r" using up by simp
    then have "H' (of_nat p) = D" using H'(3) h1 by simp
    then have "tiling H' p e (amerge (b # c # bs))"
      using H'(2) True B by (simp add: D_def algebra_simps)
    moreover have "merge_loop k (of_nat p) h = Ok (h\<lparr>chunks := H'\<rparr>)"
    proof -
      have "merge_loop k (of_nat p) h = merge_loop k' (block_ptr ?r bs) h1"
        using True ne k unfolding h1_def D_def by (simp add: B C [simplified] Let_def)
      then show ?thesis using H'(1) by (simp add: h1_def put_chunk_def)
    qed
    moreover have "\<forall>a. unat a < p \<longrightarrow> H' a = chunks h a" using H'(3) up h1 by auto
    ultimately show ?thesis by auto
  next
    case False
    from 3(2) [OF False t(1), of k'] 3(4,5) k obtain H'
      where H': "merge_loop k' (of_nat ?q) h = Ok (h\<lparr>chunks := H'\<rparr>)"
        "tiling H' ?q e (amerge (c # bs))" "\<forall>a. unat a < ?q \<longrightarrow> H' a = chunks h a" by auto
    have "H' (of_nat p) = ?B" using H'(3) up by simp
    then have "tiling H' p e (b # amerge (c # bs))" using H'(2) B by simp
    moreover have "merge_loop k (of_nat p) h = Ok (h\<lparr>chunks := H'\<rparr>)"
      using H'(1) False ne k by (auto simp: B C [simplified] Let_def)
    moreover have "\<forall>a. unat a < p \<longrightarrow> H' a = chunks h a" using H'(3) by auto
    ultimately show ?thesis using False by auto
  qed
qed

section \<open>Live blocks\<close>

lemma used_ge: "(a, m) \<in> used p bs \<Longrightarrow> p + 12 \<le> a"
  by (induction bs arbitrary: p) (fastforce split: if_splits)+

lemma used_amerge: "used p (amerge bs) = used p bs"
  by (induction bs arbitrary: p rule: amerge.induct) (auto simp: algebra_simps)

lemma arelease_eq_Nil [simp]: "arelease q p bs = [] \<longleftrightarrow> bs = []"
  by (cases bs) auto

lemma used_arelease:
  "(q, m) \<in> used p bs \<Longrightarrow> used p (arelease q p bs) = used p bs - {(q, m)}"
proof (induction bs arbitrary: p)
  case (Cons b bs)
  then show ?case
    using used_ge [of q _ "p + 12 + fst b" bs] used_ge [of "p + 12" _ "p + 12 + fst b" bs]
    by (auto split: if_splits)
qed simp

lemma arelease_tiling:
  assumes "tiling H p e bs" and e: "e < 4294967296" and "(q, m) \<in> used p bs"
    and a: "a = of_nat (q - 12)" and H': "\<And>x. H' x = (if x = a then (H a)\<lparr>chunk_free := 1\<rparr> else H x)"
  shows "tiling H' p e (arelease q p bs) \<and> p + 12 \<le> q \<and> q \<le> e"
  using assms(1,3)
proof (induction bs arbitrary: p)
  case (Cons b bs)
  have le: "p + 12 + fst b \<le> e" using tiling_size [OF Cons.prems(1), of b] by simp
  have t: "tiling H (p + 12 + fst b) e bs" using Cons.prems(1) by simp
  show ?case
  proof (cases "p + 12 = q")
    case True
    then have "q - 12 = p" by simp
    then have ap: "a = of_nat p" "unat a = p" using a le e by (simp_all add: unat_of_nat_32)
    have "H x = H' x" if "p + 12 + fst b \<le> unat x" for x using that ap(2) by (auto simp: H')
    then have "tiling H' (p + 12 + fst b) e bs" by (rule tiling_cong [OF _ e t])
    then show ?thesis using Cons.prems(1) True ap(1) le H' [of "of_nat p"] by simp
  next
    case False
    then have m: "(q, m) \<in> used (p + 12 + fst b) bs"
      using Cons.prems(2) by (auto split: if_splits)
    have IH: "tiling H' (p + 12 + fst b) e (arelease q (p + 12 + fst b) bs)
        \<and> p + 12 + fst b + 12 \<le> q \<and> q \<le> e"
      using t m by (rule Cons.IH)
    then have "(of_nat p :: ptr) \<noteq> of_nat (q - 12)" using e by (subst of_nat_eq_32) auto
    then have "of_nat p \<noteq> a" using a by simp
    then show ?thesis using IH Cons.prems(1) False H' [of "of_nat p"] by simp
  qed
qed simp

lemma free_refines:
  assumes wf: "heap_wf h bs" and q: "(unat q, m) \<in> used (unat (heap_start h)) bs"
  shows "\<exists>h'. free q h = Ok h'
    \<and> heap_wf h' (amerge (amerge (arelease (unat q) (unat (heap_start h)) bs)))
    \<and> heap_start h' = heap_start h \<and> heap_end h' = heap_end h \<and> data h' = data h
    \<and> mie (hcpu h') = mie (hcpu h)"
proof -
  let ?s = "unat (heap_start h)" and ?e = "unat (heap_end h)" and ?a = "get_header q"
  let ?bs = "arelease (unat q) ?s bs"
  obtain s c where sc: "arch_di_save_state (hcpu h) = (s, c)" by fastforce
  define h1 where "h1 = h\<lparr>mlock := True, istate := s, hcpu := c,
      chunks := (chunks h)(?a := (chunks h ?a)\<lparr>chunk_free := 1\<rparr>)\<rparr>"
  have t: "tiling (chunks h) ?s ?e bs" and ne: "bs \<noteq> []" and st: "heap_start h \<noteq> 0"
    and fl: "freeList h = heap_start h" and lk: "\<not> mlock h"
    using wf by (simp_all add: heap_wf_def)
  have e: "?e < 4294967296" by (rule unat_lt_32)
  have ge: "?s + 12 \<le> unat q" using used_ge [OF q] .
  then have "12 \<le> q" by (simp add: word_le_nat_alt)
  then have ua: "unat ?a = unat q - 12" by (simp add: get_header_def unat_sub)
  then have a: "?a = of_nat (unat q - 12)" by (metis of_nat_unat ucast_id)
  have t1: "tiling (chunks h1) ?s ?e ?bs" and qe: "unat q \<le> ?e"
    using arelease_tiling [OF t e q a, of "chunks h1"] by (simp_all add: h1_def)
  have pos: "0 < ?s" using st by (simp add: unat_gt_0)
  have merge: "\<exists>H'. merge h2 = Ok (h2\<lparr>chunks := H'\<rparr>) \<and> tiling H' ?s ?e (amerge cs)"
    if "tiling (chunks h2) ?s ?e cs" "cs \<noteq> []" "freeList h2 = heap_start h"
      "heap_end h2 = heap_end h" for h2 cs
  proof -
    have "length cs < heap_fuel h2"
      using tiling_le [OF that(1)] that(4) by (simp add: heap_fuel_def)
    from merge_loop_refines [OF that(1) pos e this] show ?thesis
      using that by (auto simp: merge_def)
  qed
  obtain H1 where H1: "merge h1 = Ok (h1\<lparr>chunks := H1\<rparr>)" "tiling H1 ?s ?e (amerge ?bs)"
    using merge [OF t1] ne fl by (auto simp: h1_def)
  obtain H2 where H2: "merge (h1\<lparr>chunks := H1\<rparr>) = Ok (h1\<lparr>chunks := H2\<rparr>)"
    "tiling H2 ?s ?e (amerge (amerge ?bs))"
    using merge [of "h1\<lparr>chunks := H1\<rparr>" "amerge ?bs"] H1(2) ne fl by (auto simp: h1_def)
  define h' where "h' = heap_unlock (h1\<lparr>chunks := H2\<rparr>)"
  have "q \<noteq> 0" using ge by auto
  moreover have "heap_start h \<le> ?a" "?a \<le> heap_end h" "?a \<noteq> 0"
    using ua ge qe pos by (auto simp: word_le_nat_alt simp flip: unat_eq_0)
  ultimately have "free q h = Ok h'"
    using lk sc H1(1) H2(1)
    by (simp add: free_def heap_lock_def put_chunk_def h1_def h'_def Let_def)
  moreover have "heap_wf h' (amerge (amerge ?bs))"
    using H2(2) ne st fl by (simp add: heap_wf_def h'_def h1_def heap_unlock_def)
  moreover have "heap_start h' = heap_start h" "heap_end h' = heap_end h" "data h' = data h"
    "mie (hcpu h') = mie (hcpu h)"
    using restore_after_save(1) [OF sc] by (simp_all add: heap_unlock_def h1_def h'_def)
  ultimately show ?thesis by blast
qed

text \<open>When the last block is free, what the search takes is free: the new block is carved out of
  a free one and clears every live block by at least a header.\<close>

lemma amalloc_used:
  assumes "amalloc n p bs = Some (Some q, bs')" and "snd (last bs)"
  shows "used p bs' = insert (q, n) (used p bs) \<and> p + 12 \<le> q
    \<and> (\<forall>(a, m) \<in> used p bs. a + m + 12 \<le> q \<or> q + n + 12 \<le> a)"
  using assms
proof (induction bs arbitrary: p bs')
  case (Cons b bs)
  let ?p = "p + 12 + fst b"
  show ?case
  proof (cases "fst b < n \<or> \<not> snd b \<and> bs \<noteq> []")
    case True
    then obtain bs1 where a: "amalloc n ?p bs = Some (Some q, bs1)" and bs': "bs' = b # bs1"
      using Cons.prems(1) by auto
    then have "snd (last bs)" using amalloc_not_Nil [OF a] Cons.prems(2) by simp
    from Cons.IH [OF a this] show ?thesis using bs' by auto
  next
    case False
    then have b: "snd b" using Cons.prems(2) by (cases bs) auto
    have ge: "\<forall>(a, m) \<in> used ?p bs. ?p + 12 \<le> a" using used_ge by fastforce
    show ?thesis
    proof (cases "fst b = n")
      case True
      then show ?thesis using False b Cons.prems(1) ge by auto
    next
      case ne: False
      then have "fst b > n + 12" using False Cons.prems(1) by (auto split: if_splits)
      moreover then have "p + 12 + n + 12 + (fst b - n - 12) = ?p" by simp
      ultimately show ?thesis using False ne b Cons.prems(1) ge by (auto simp: algebra_simps)
    qed
  qed
qed simp

lemma amalloc_None: "amalloc n p bs = Some (None, bs') \<Longrightarrow> bs' = bs"
  by (induction bs arbitrary: p bs') (auto split: if_splits)

section \<open>The contract of an allocator\<close>

text \<open>What a client may rely on. \<open>live\<close> gives the payloads in use, \<open>room\<close> is the condition
  under which an allocation respects them.\<close>

locale allocator =
  fixes good :: "'h \<Rightarrow> bool" and room :: "'h \<Rightarrow> bool" and live :: "'h \<Rightarrow> (nat \<times> nat) set"
    and alloc :: "size_t \<Rightarrow> 'h \<Rightarrow> (ptr \<times> 'h) outcome" and release :: "ptr \<Rightarrow> 'h \<Rightarrow> 'h outcome"
  assumes alloc_null: "good h \<Longrightarrow> room h \<Longrightarrow> alloc n h = Ok (0, h') \<Longrightarrow> good h' \<and> live h' = live h"
    and alloc_block: "good h \<Longrightarrow> room h \<Longrightarrow> alloc n h = Ok (p, h') \<Longrightarrow> p \<noteq> 0 \<Longrightarrow>
      good h' \<and> (\<exists>m \<ge> unat n. live h' = insert (unat p, m) (live h)
        \<and> (\<forall>(a, k) \<in> live h. a + k < unat p \<or> unat p + m < a))"
    and release_block: "good h \<Longrightarrow> (unat p, m) \<in> live h \<Longrightarrow>
      \<exists>h'. release p h = Ok h' \<and> good h' \<and> live h' = live h - {(unat p, m)}"
begin

lemma alloc_fresh:
  assumes "good h" and "room h" and "alloc n h = Ok (p, h')" and "p \<noteq> 0"
  shows "\<forall>k. (unat p, k) \<notin> live h"
  using alloc_block [OF assms] by auto

text \<open>Allocating and releasing at once leaves the live blocks as they were.\<close>

lemma alloc_release:
  assumes "good h" and "room h" and "alloc n h = Ok (p, h')" and "p \<noteq> 0"
  shows "\<exists>h''. release p h' = Ok h'' \<and> good h'' \<and> live h'' = live h"
proof -
  obtain m where m: "good h'" "live h' = insert (unat p, m) (live h)"
    using alloc_block [OF assms] by blast
  then have "(unat p, m) \<in> live h'" by simp
  from release_block [OF m(1) this] obtain h'' where "release p h' = Ok h''" "good h''"
    "live h'' = live h' - {(unat p, m)}" by blast
  moreover have "(unat p, m) \<notin> live h" using alloc_fresh [OF assms] by blast
  ultimately show ?thesis using m(2) by auto
qed

text \<open>The blocks of two allocations do not overlap.\<close>

lemma alloc_alloc_disjoint:
  assumes "good h" and "room h" and "alloc n h = Ok (p, h1)" and "p \<noteq> 0"
    and "room h1" and "alloc k h1 = Ok (q, h2)" and "q \<noteq> 0"
  shows "unat p + unat n < unat q \<or> unat q + unat k < unat p"
proof -
  obtain m where m: "good h1" "live h1 = insert (unat p, m) (live h)" "m \<ge> unat n"
    using alloc_block [OF assms(1-4)] by blast
  obtain l where l: "l \<ge> unat k" "\<forall>(a, k) \<in> live h1. a + k < unat q \<or> unat q + l < a"
    using alloc_block [OF m(1) assms(5-7)] by blast
  have "(unat p, m) \<in> live h1" using m(2) by simp
  with l(2) have "unat p + m < unat q \<or> unat q + l < unat p" by blast
  then show ?thesis using m(3) l(1) by linarith
qed

end

section \<open>The heap provides it\<close>

text \<open>The block list of a heap, read off the headers.\<close>

definition heap_good :: "heap \<Rightarrow> bool" where
  "heap_good h \<longleftrightarrow> (\<exists>bs. heap_wf h bs)"

definition heap_room :: "heap \<Rightarrow> bool" where
  "heap_room h \<longleftrightarrow> (\<exists>bs. heap_wf h bs \<and> snd (last bs))"

definition heap_live :: "heap \<Rightarrow> (nat \<times> nat) set" where
  "heap_live h = {x. \<exists>bs. heap_wf h bs \<and> x \<in> used (unat (heap_start h)) bs}"

lemma tiling_unique:
  assumes "tiling H p e bs" and "tiling H p e cs" and e: "e < 4294967296"
  shows "bs = cs"
  using assms(1,2)
proof (induction bs arbitrary: p cs)
  case Nil
  then show ?case using tiling_le [of H p e cs] by (cases cs) auto
next
  case (Cons b bs)
  obtain c cs' where cs: "cs = c # cs'"
    using Cons.prems tiling_le [of H p e "b # bs"] by (cases cs) auto
  have "fst b < 4294967296" "fst c < 4294967296"
    using tiling_size [OF Cons.prems(1), of b] tiling_size [OF Cons.prems(2), of c] cs e by auto
  then have "b = c"
    using Cons.prems cs of_nat_eq_32 [of "fst b" "fst c"] by (auto simp: prod_eq_iff split: if_splits)
  then show ?case using Cons cs by auto
qed

lemma heap_wf_unique: "heap_wf h bs \<Longrightarrow> heap_wf h cs \<Longrightarrow> bs = cs"
  using tiling_unique [OF _ _ unat_lt_32] by (auto simp: heap_wf_def)

lemma heap_live_eq: "heap_wf h bs \<Longrightarrow> heap_live h = used (unat (heap_start h)) bs"
  using heap_wf_unique by (auto simp: heap_live_def)

lemma malloc_Ok_cases:
  assumes wf: "heap_wf h bs" and ok: "malloc n h = Ok (p, h')" and n: "unat n \<le> 4294967275"
  shows "p = 0 \<and> heap_wf h' bs \<and> heap_start h' = heap_start h
    \<or> (\<exists>q bs'. amalloc (unat (roundup_align n)) (unat (heap_start h)) bs = Some (Some q, bs')
        \<and> p = of_nat q \<and> heap_wf h' bs' \<and> heap_start h' = heap_start h)"
proof (cases "n = 0 \<or> fst (hd bs) = 0")
  case True
  moreover have "p = 0 \<and> h' = h" if "n = 0" using ok that by (simp add: malloc_def)
  moreover have "p = 0 \<and> heap_wf h' bs \<and> heap_start h' = heap_start h" if "n \<noteq> 0" "fst (hd bs) = 0"
    using wf ok that
    by (cases bs) (auto simp: malloc_def heap_lock_def heap_wf_def heap_unlock_def Let_def
        split: prod.splits)
  ultimately show ?thesis using wf by auto
next
  case False
  then show ?thesis
    using malloc_refines [OF wf _ n] ok
    by (auto split: option.splits dest: amalloc_None)
qed

text \<open>The rounding must not overflow for the contract to hold, so the allocation of the contract
  is the code on requests below the last words of the address space.\<close>

definition malloc_small :: "size_t \<Rightarrow> heap \<Rightarrow> (ptr \<times> heap) outcome" where
  "malloc_small n h = (if unat n \<le> 4294967275 then malloc n h else Ok (0, h))"

lemma malloc_small_cases:
  assumes "heap_wf h bs" and "malloc_small n h = Ok (p, h')"
  shows "p = 0 \<and> heap_wf h' bs \<and> heap_start h' = heap_start h
    \<or> (\<exists>q bs'. unat n < unat (roundup_align n) \<and>
        amalloc (unat (roundup_align n)) (unat (heap_start h)) bs = Some (Some q, bs')
        \<and> p = of_nat q \<and> heap_wf h' bs' \<and> heap_start h' = heap_start h)"
  using assms malloc_Ok_cases [of h bs n p h'] roundup_align_bound(2) [of n]
  by (auto simp: malloc_small_def split: if_splits)

lemma amalloc_le:
  "amalloc n p bs = Some (Some q, bs') \<Longrightarrow> tiling H p e bs \<Longrightarrow> q \<le> e \<and> 0 < q"
proof (induction bs arbitrary: p bs')
  case (Cons b bs)
  have "p + 12 + fst b \<le> e" using tiling_size [OF Cons.prems(2), of b] by simp
  then show ?case
    using Cons.prems Cons.IH [of "p + 12 + fst b"] by (auto split: if_splits)
qed simp

interpretation libc: allocator heap_good heap_room heap_live malloc_small free
proof
  fix h n h' assume room: "heap_room h" and ok: "malloc_small n h = Ok (0, h')"
  from room obtain bs where wf: "heap_wf h bs" by (auto simp: heap_room_def)
  show "heap_good h' \<and> heap_live h' = heap_live h"
    using malloc_small_cases [OF wf ok]
  proof (elim disjE exE conjE)
    fix q bs' assume a: "amalloc (unat (roundup_align n)) (unat (heap_start h)) bs = Some (Some q, bs')"
      and q: "0 = (of_nat q :: ptr)"
    have "q \<le> unat (heap_end h) \<and> 0 < q" using amalloc_le [OF a, of "chunks h" "unat (heap_end h)"] wf by (simp add: heap_wf_def)
    then show ?thesis using q unat_lt_32 [of "heap_end h"] of_nat_eq_0_32 [of q] by simp
  qed (use wf in \<open>auto simp: heap_good_def heap_live_eq\<close>)
next
  fix h n p h' assume room: "heap_room h" and ok: "malloc_small n h = Ok (p, h')" and p: "p \<noteq> 0"
  from room obtain bs where wf: "heap_wf h bs" and l: "snd (last bs)" by (auto simp: heap_room_def)
  from malloc_small_cases [OF wf ok] p obtain q bs' where n: "unat n < unat (roundup_align n)"
    and a: "amalloc (unat (roundup_align n)) (unat (heap_start h)) bs = Some (Some q, bs')"
    and pq: "p = of_nat q" and wf': "heap_wf h' bs'" "heap_start h' = heap_start h" by auto
  have "q \<le> unat (heap_end h)" using amalloc_le [OF a, of "chunks h" "unat (heap_end h)"] wf by (simp add: heap_wf_def)
  then have uq: "unat p = q" using pq unat_lt_32 [of "heap_end h"] by (simp add: unat_of_nat_32)
  show "heap_good h' \<and> (\<exists>m \<ge> unat n. heap_live h' = insert (unat p, m) (heap_live h)
        \<and> (\<forall>(a, k) \<in> heap_live h. a + k < unat p \<or> unat p + m < a))"
    using amalloc_used [OF a l] n wf' uq
    by (auto simp: heap_good_def heap_live_eq [OF wf] heap_live_eq [OF wf'(1)]
        intro!: exI [of _ "unat (roundup_align n)"])
next
  fix h :: heap and p :: ptr and m assume "heap_good h" and live: "(unat p, m) \<in> heap_live h"
  then obtain bs where wf: "heap_wf h bs" by (auto simp: heap_good_def)
  have u: "(unat p, m) \<in> used (unat (heap_start h)) bs" using live heap_live_eq [OF wf] by simp
  from free_refines [OF wf u] obtain h' where h': "free p h = Ok h'"
    "heap_wf h' (amerge (amerge (arelease (unat p) (unat (heap_start h)) bs)))"
    "heap_start h' = heap_start h" by blast
  then show "\<exists>h'. free p h = Ok h' \<and> heap_good h' \<and> heap_live h' = heap_live h - {(unat p, m)}"
    using heap_live_eq [OF h'(2)] heap_live_eq [OF wf] used_arelease [OF u]
    by (auto simp: heap_good_def used_amerge)
qed

section \<open>Properties\<close>

text \<open>C1: On a well-formed heap whose last block is free, a successful \<open>malloc\<close> returns a payload of
  the rounded size that keeps clear of every live payload by at least a chunk header, and it
  leaves a well-formed heap in which the live payloads are the old ones and the new one.\<close>

theorem malloc_safe:
  assumes "heap_wf h bs" and "snd (last bs)" and "unat n \<le> 4294967275"
    and "malloc n h = Ok (p, h')" and "p \<noteq> 0"
  shows "\<exists>bs'. heap_wf h' bs' \<and> unat n < unat (roundup_align n)
    \<and> used (unat (heap_start h')) bs'
        = insert (unat p, unat (roundup_align n)) (used (unat (heap_start h)) bs)
    \<and> (\<forall>(a, m) \<in> used (unat (heap_start h)) bs.
          a + m + 12 \<le> unat p \<or> unat p + unat (roundup_align n) + 12 \<le> a)"
proof -
  from malloc_Ok_cases [OF assms(1,4,3)] assms(5) obtain q bs'
    where a: "amalloc (unat (roundup_align n)) (unat (heap_start h)) bs = Some (Some q, bs')"
      and q: "p = of_nat q" "heap_wf h' bs'" "heap_start h' = heap_start h" by auto
  have "q \<le> unat (heap_end h)"
    using amalloc_le [OF a, of "chunks h" "unat (heap_end h)"] assms(1) by (simp add: heap_wf_def)
  then have "unat p = q" using q unat_lt_32 [of "heap_end h"] by (simp add: unat_of_nat_32)
  then show ?thesis
    using amalloc_used [OF a assms(2)] q roundup_align_bound(2) [OF assms(3)] by auto
qed

text \<open>A heap of 100 bytes at address 16 for the witnesses.\<close>

definition demo_heap :: "size_t \<Rightarrow> heap" where
  "demo_heap sz = \<lparr>chunks = (\<lambda>a. \<lparr>chunk_size = sz, chunk_free = 1, chunk_next = 0\<rparr>),
     data = (\<lambda>a. 0), freeList = 16, heap_start = 16, heap_end = 28 + sz, mlock = False,
     istate = 0, hcpu = \<lparr>mie = 0, mstatus = 0\<rparr>\<rparr>"

lemma demo_heap_wf: "heap_wf (demo_heap 88) [(88, True)]"
  by (simp add: heap_wf_def demo_heap_def)

lemma demo_malloc:
  "\<exists>h'. malloc 8 (demo_heap 88) = Ok (28, h')"
  using malloc_refines [OF demo_heap_wf, of 8] by (auto simp: roundup_align_def demo_heap_def)

theorem malloc_safe_witness:
  "\<exists>h' bs'. malloc 8 (demo_heap 88) = Ok (28, h') \<and> heap_wf h' bs'
    \<and> used (unat (heap_start h')) bs' = {(28, 12)}"
proof -
  obtain h' where m: "malloc 8 (demo_heap 88) = Ok (28, h')" using demo_malloc by blast
  have "\<exists>bs'. heap_wf h' bs' \<and> unat (8 :: size_t) < unat (roundup_align 8)
    \<and> used (unat (heap_start h')) bs'
        = insert (unat (28 :: ptr), unat (roundup_align 8)) (used (unat (heap_start (demo_heap 88))) [(88, True)])
    \<and> (\<forall>(a, m) \<in> used (unat (heap_start (demo_heap 88))) [(88, True)].
          a + m + 12 \<le> unat (28 :: ptr) \<or> unat (28 :: ptr) + unat (roundup_align 8) + 12 \<le> a)"
    by (rule malloc_safe [OF demo_heap_wf _ _ m]) simp_all
  then show ?thesis using m by (auto simp: roundup_align_def)
qed

lemma amalloc_returns:
  "bs \<noteq> [] \<Longrightarrow> snd (last bs) \<Longrightarrow> n \<le> fst (last bs) \<Longrightarrow> \<exists>r bs'. amalloc n p bs = Some (r, bs')"
proof (induction bs arbitrary: p)
  case (Cons b bs)
  then show ?case using Cons.IH [of "p + 12 + fst b"] by (cases "bs = []") auto
qed simp

text \<open>C30: \<open>malloc\<close> returns (no NULL pointer is followed, the search ends) whenever the last block is
  free and as large as the rounded request, whatever the state of the other blocks.\<close>

theorem malloc_returns:
  assumes "heap_wf h bs" and "snd (last bs)" and "unat n \<le> 4294967275"
    and "unat (roundup_align n) \<le> fst (last bs)"
  shows "\<exists>p h'. malloc n h = Ok (p, h')"
proof (cases "n = 0 \<or> fst (hd bs) = 0")
  case True
  then show ?thesis
    using assms(1)
    by (cases bs) (auto simp: malloc_def heap_lock_def heap_wf_def Let_def split: prod.splits)
next
  case False
  have "bs \<noteq> []" using assms(1) by (simp add: heap_wf_def)
  then obtain r bs' where "amalloc (unat (roundup_align n)) (unat (heap_start h)) bs = Some (r, bs')"
    using amalloc_returns [OF _ assms(2,4)] by blast
  then show ?thesis
    using malloc_refines [OF assms(1) _ assms(3)] False by auto
qed

theorem malloc_returns_witness: "\<exists>p h'. malloc 8 (demo_heap 88) = Ok (p, h')"
  by (rule malloc_returns [OF demo_heap_wf]) (simp_all add: roundup_align_def)

lemma amalloc_too_small: "\<forall>b \<in> set bs. fst b < n \<Longrightarrow> amalloc n p bs = None"
  by (induction bs arbitrary: p) auto

text \<open>When every block of a well-formed heap, the first one not empty, is smaller than the rounded
  request, \<open>malloc\<close> does not return NULL: its search runs off the end of the chunk list and reads
  through the NULL pointer.\<close>

theorem malloc_exhausted_fault:
  assumes "heap_wf h bs" and "n \<noteq> 0" and "unat n \<le> 4294967275" and "fst (hd bs) \<noteq> 0"
    and "\<forall>b \<in> set bs. fst b < unat (roundup_align n)"
  shows "malloc n h = Fault Null_deref"
  using malloc_refines [OF assms(1-4)] amalloc_too_small [OF assms(5)] by simp

theorem malloc_exhausted_fault_witness: "malloc 88 (demo_heap 88) = Fault Null_deref"
  by (rule malloc_exhausted_fault [OF demo_heap_wf]) (simp_all add: roundup_align_def)

text \<open>C29: Allocating a block and freeing it at once succeeds and leaves exactly the live payloads there
  were before (the allocator's contract, interpreted on the code).\<close>

theorem malloc_free_roundtrip:
  assumes "heap_wf h bs" and "snd (last bs)" and "unat n \<le> 4294967275"
    and "malloc n h = Ok (p, h')" and "p \<noteq> 0"
  shows "\<exists>h'' bs''. free p h' = Ok h'' \<and> heap_wf h'' bs''
    \<and> used (unat (heap_start h'')) bs'' = used (unat (heap_start h)) bs"
proof -
  have "heap_good h" "heap_room h" "malloc_small n h = Ok (p, h')"
    using assms by (auto simp: heap_good_def heap_room_def malloc_small_def)
  from libc.alloc_release [OF this assms(5)] obtain h'' where "free p h' = Ok h''"
    "heap_good h''" "heap_live h'' = heap_live h" by blast
  then show ?thesis
    using heap_live_eq [OF assms(1)] heap_live_eq [of h''] by (auto simp: heap_good_def)
qed

theorem malloc_free_roundtrip_witness:
  "\<exists>h' h'' bs''. malloc 8 (demo_heap 88) = Ok (28, h') \<and> free 28 h' = Ok h'' \<and> heap_wf h'' bs''
    \<and> used (unat (heap_start h'')) bs'' = {}"
proof -
  obtain h' where m: "malloc 8 (demo_heap 88) = Ok (28, h')" using demo_malloc by blast
  have "\<exists>h'' bs''. free 28 h' = Ok h'' \<and> heap_wf h'' bs'' \<and> used (unat (heap_start h'')) bs''
      = used (unat (heap_start (demo_heap 88))) [(88, True)]"
    by (rule malloc_free_roundtrip [OF demo_heap_wf _ _ m]) simp_all
  then show ?thesis using m by auto
qed

text \<open>C7: \<open>free\<close> of a live payload returns, and afterwards the live payloads are all the others,
  unchanged in place and size: coalescing never touches a block in use.\<close>

theorem free_releases_only:
  assumes "heap_wf h bs" and "(unat p, m) \<in> used (unat (heap_start h)) bs"
  shows "\<exists>h' bs'. free p h = Ok h' \<and> heap_wf h' bs' \<and> data h' = data h
    \<and> used (unat (heap_start h')) bs' = used (unat (heap_start h)) bs - {(unat p, m)}"
proof -
  from free_refines [OF assms] obtain h' where h': "free p h = Ok h'"
    "heap_wf h' (amerge (amerge (arelease (unat p) (unat (heap_start h)) bs)))"
    "heap_start h' = heap_start h" "data h' = data h" by blast
  moreover have "used (unat (heap_start h')) (amerge (amerge (arelease (unat p) (unat (heap_start h)) bs)))
      = used (unat (heap_start h)) bs - {(unat p, m)}"
    using h'(3) used_arelease [OF assms(2)] by (simp add: used_amerge)
  ultimately show ?thesis by blast
qed

text \<open>A heap with a live payload of 12 bytes at 28 and a free tail.\<close>

definition demo_used_heap :: heap where
  "demo_used_heap = (demo_heap 88)\<lparr>chunks := (chunks (demo_heap 88))
     (16 := \<lparr>chunk_size = 12, chunk_free = 0, chunk_next = 40\<rparr>,
      40 := \<lparr>chunk_size = 64, chunk_free = 1, chunk_next = 0\<rparr>)\<rparr>"

lemma demo_used_heap_wf: "heap_wf demo_used_heap [(12, False), (64, True)]"
  by (simp add: heap_wf_def demo_used_heap_def demo_heap_def)

theorem free_releases_only_witness:
  "\<exists>h' bs'. free 28 demo_used_heap = Ok h' \<and> heap_wf h' bs'
    \<and> used (unat (heap_start h')) bs' = {}"
proof -
  have m: "(unat (28 :: ptr), 12) \<in> used (unat (heap_start demo_used_heap)) [(12, False), (64, True)]"
    by (simp add: demo_used_heap_def demo_heap_def)
  have u: "unat (heap_start demo_used_heap) = 16"
    by (simp add: demo_used_heap_def demo_heap_def)
  from free_releases_only [OF demo_used_heap_wf m] show ?thesis by (auto simp: u)
qed

lemma init_heap_result:
  assumes "\<not> mlock h" and "heap_start h \<noteq> 0" and "unat (heap_start h) + 12 \<le> unat (heap_end h)"
  shows "\<exists>h'. platform_init_heap h = Ok (success, h')
    \<and> heap_wf h' [(unat (heap_end h) - unat (heap_start h) - 12, True)]
    \<and> (\<forall>a. heap_start h \<le> a \<and> a < heap_end h \<longrightarrow> data h' a = 0)
    \<and> mie (hcpu h') = mie (hcpu h) \<and> irqs_on (hcpu h')"
proof -
  let ?sz = "heap_end h - heap_start h"
  obtain s c where sc: "arch_di_save_state (hcpu h) = (s, c)" by fastforce
  have le: "heap_start h \<le> heap_end h" using assms(3) by (simp add: word_le_nat_alt)
  have u: "unat ?sz = unat (heap_end h) - unat (heap_start h)" using le by (simp add: unat_sub)
  then have "12 \<le> ?sz" using assms(3) by (simp add: word_le_nat_alt)
  then have "unat (?sz - 12) = unat (heap_end h) - unat (heap_start h) - 12"
    using u by (simp add: unat_sub)
  then have sz: "?sz - 12 = of_nat (unat (heap_end h) - unat (heap_start h) - 12)"
    by (metis of_nat_unat ucast_id)
  have d: "fst (memset (data h) (heap_start h) 0 ?sz) a = 0"
    if "heap_start h \<le> a" "a < heap_end h" for a
  proof -
    have "a - heap_start h < ?sz"
      using that le by (simp add: word_less_nat_alt word_le_nat_alt unat_sub)
    then show ?thesis by (simp add: memset_correct)
  qed
  show ?thesis
    using assms sc sz d restore_after_save [OF sc]
    by (auto simp: platform_init_heap_def heap_lock_def heap_unlock_def put_chunk_def
        heap_wf_def Let_def)
qed

text \<open>\<open>platform_init_heap\<close> turns the region between \<open>_heap_start\<close> and \<open>_heap_end\<close>, whatever the
  headers hold, into a well-formed heap of one free block, clears its bytes and releases the lock.\<close>

theorem platform_init_heap_wf:
  assumes "\<not> mlock h" and "heap_start h \<noteq> 0" and "unat (heap_start h) + 12 \<le> unat (heap_end h)"
  shows "\<exists>h'. platform_init_heap h = Ok (success, h')
    \<and> heap_wf h' [(unat (heap_end h) - unat (heap_start h) - 12, True)]
    \<and> (\<forall>a. heap_start h \<le> a \<and> a < heap_end h \<longrightarrow> data h' a = 0)"
  using init_heap_result [OF assms] by blast

theorem platform_init_heap_wf_witness:
  "\<exists>h'. platform_init_heap (demo_heap 88) = Ok (success, h') \<and> heap_wf h' [(88, True)]"
  using platform_init_heap_wf [of "demo_heap 88"] by (auto simp: demo_heap_def)

text \<open>When the last block is in use and fits a request exactly, and no earlier block serves it,
  \<open>malloc\<close> hands out that live block a second time.\<close>

theorem malloc_double_allocation:
  assumes "heap_wf h (bs @ [(unat (roundup_align n), False)])" and "n \<noteq> 0"
    and "unat n \<le> 4294967275" and "\<forall>b \<in> set bs. fst b < unat (roundup_align n) \<or> \<not> snd b"
    and "bs \<noteq> [] \<longrightarrow> fst (hd bs) \<noteq> 0"
  shows "\<exists>p h'. malloc n h = Ok (of_nat p, h')
    \<and> (p, unat (roundup_align n)) \<in> used (unat (heap_start h)) (bs @ [(unat (roundup_align n), False)])"
proof -
  let ?n = "unat (roundup_align n)"
  have am: "\<exists>q. amalloc ?n p (bs @ [(?n, False)]) = Some (Some q, bs @ [(?n, False)])
      \<and> (q, ?n) \<in> used p (bs @ [(?n, False)])" for p
    using assms(4) by (induction bs arbitrary: p) auto
  have "fst (hd (bs @ [(?n, False)])) \<noteq> 0"
    using assms(5) roundup_align_bound(2) [OF assms(3)] by (cases bs) auto
  from malloc_refines [OF assms(1-3) this] am [of "unat (heap_start h)"] show ?thesis by force
qed

theorem malloc_double_allocation_witness:
  "\<exists>p h'. malloc 8 ((demo_heap 12)\<lparr>chunks := (\<lambda>a. \<lparr>chunk_size = 12, chunk_free = 0, chunk_next = 0\<rparr>)\<rparr>)
      = Ok (of_nat p, h') \<and> (p, 12) \<in> {(28, 12)}"
proof -
  let ?h = "(demo_heap 12)\<lparr>chunks := (\<lambda>a. \<lparr>chunk_size = 12, chunk_free = 0, chunk_next = 0\<rparr>)\<rparr>"
  have r: "unat (roundup_align 8) = 12" by (simp add: roundup_align_def)
  have "heap_wf ?h ([] @ [(unat (roundup_align 8), False)])"
    by (simp add: r heap_wf_def demo_heap_def)
  from malloc_double_allocation [OF this] show ?thesis by (simp add: r demo_heap_def)
qed

end
