(* ===== verification/Ring.thy ===== *)
theory Ring
  imports CC_Prelude
begin

text \<open>
  Circular doubly linked lists, the shape of the ready and the wait list of the Helios kernel.

  \<open>dseg\<close> is a doubly linked segment, \<open>ring\<close> closes it. A ring may be entered at any node
  (\<open>ring_rotate\<close>), so insertion and removal are proved once, at the head. The locale \<open>links\<close> is
  the interface of a pair of link fields: its clients rely on the read-after-write laws only, and
  it is interpreted for the ready link and for the wait link of a task control block.
\<close>

section \<open>Segments and rings\<close>

fun dseg :: "('a \<Rightarrow> 'a) \<Rightarrow> ('a \<Rightarrow> 'a) \<Rightarrow> 'a list \<Rightarrow> bool" where
  "dseg nx pv (x # y # zs) \<longleftrightarrow> nx x = y \<and> pv y = x \<and> dseg nx pv (y # zs)"
| "dseg nx pv xs \<longleftrightarrow> True"

fun ring :: "('a \<Rightarrow> 'a) \<Rightarrow> ('a \<Rightarrow> 'a) \<Rightarrow> 'a list \<Rightarrow> bool" where
  "ring nx pv [] \<longleftrightarrow> False"
| "ring nx pv (x # xs) \<longleftrightarrow> distinct (x # xs) \<and> dseg nx pv (x # xs @ [x])"

lemma dseg_append: "dseg nx pv (xs @ y # ys) \<longleftrightarrow> dseg nx pv (xs @ [y]) \<and> dseg nx pv (y # ys)"
proof (induction xs)
  case (Cons x xs)
  then show ?case by (cases xs) auto
qed simp

lemma dseg_snoc2: "dseg nx pv (xs @ [y, z]) \<longleftrightarrow> dseg nx pv (xs @ [y]) \<and> nx y = z \<and> pv z = y"
  using dseg_append [of nx pv xs y "[z]"] by simp

lemma dseg_cong:
  assumes "\<And>x. x \<in> set (butlast xs) \<Longrightarrow> nx x = nx' x" and "\<And>x. x \<in> set (tl xs) \<Longrightarrow> pv x = pv' x"
  shows "dseg nx pv xs \<longleftrightarrow> dseg nx' pv' xs"
  using assms
proof (induction nx pv xs rule: dseg.induct)
  case (1 nx pv x y zs)
  then show ?case by (cases zs) auto
qed auto

lemma ring_iff:
  "ring nx pv xs \<longleftrightarrow> xs \<noteq> [] \<and> distinct xs \<and> dseg nx pv xs \<and> nx (last xs) = hd xs \<and> pv (hd xs) = last xs"
proof (cases xs rule: rev_cases)
  case (snoc ws l)
  obtain y ys where y: "xs = y # ys" using snoc by (metis append_is_Nil_conv list.exhaust list.distinct(1))
  have "dseg nx pv (xs @ [y]) \<longleftrightarrow> dseg nx pv xs \<and> nx l = y \<and> pv y = l"
    using dseg_snoc2 [of nx pv ws l y] snoc by simp
  moreover have "last xs = l" using snoc by simp
  ultimately show ?thesis using y by auto
qed simp

lemma not_distinct_butlast: "xs \<noteq> [] \<Longrightarrow> distinct xs \<Longrightarrow> last xs \<notin> set (butlast xs)"
  by (cases xs rule: rev_cases) auto

lemma ring_rotate1: "ring nx pv (x # xs) \<longleftrightarrow> ring nx pv (xs @ [x])"
proof (cases xs)
  case (Cons y ys)
  have "dseg nx pv (y # ys @ [x, y]) \<longleftrightarrow> dseg nx pv (y # ys @ [x]) \<and> nx x = y \<and> pv y = x"
    using dseg_snoc2 [of nx pv "y # ys" x y] by simp
  then show ?thesis by (auto simp: Cons)
qed simp

lemma ring_rotate: "ring nx pv (us @ vs) \<longleftrightarrow> ring nx pv (vs @ us)"
proof (induction us arbitrary: vs)
  case (Cons u us)
  have "ring nx pv (u # us @ vs) \<longleftrightarrow> ring nx pv (us @ vs @ [u])" by (simp only: ring_rotate1 append_assoc)
  also have "\<dots> \<longleftrightarrow> ring nx pv ((vs @ [u]) @ us)" by (rule Cons.IH)
  finally show ?case by simp
qed simp

lemma ring_distinct: "ring nx pv xs \<Longrightarrow> distinct xs"
  by (cases xs) auto

lemma ring_cong:
  assumes "\<And>x. x \<in> set xs \<Longrightarrow> nx x = nx' x" and "\<And>x. x \<in> set xs \<Longrightarrow> pv x = pv' x"
  shows "ring nx pv xs \<longleftrightarrow> ring nx' pv' xs"
proof (cases xs)
  case (Cons y ys)
  have "dseg nx pv (y # ys @ [y]) \<longleftrightarrow> dseg nx' pv' (y # ys @ [y])"
    using assms Cons by (intro dseg_cong) (auto simp: butlast_append)
  then show ?thesis using Cons by simp
qed simp

lemma ring_next:
  assumes "ring nx pv (us @ x # vs)"
  shows "nx x = hd (vs @ us @ [x])" and "pv x = last (x # vs @ us)"
proof -
  have r: "ring nx pv (x # vs @ us)" using assms ring_rotate [of nx pv us "x # vs"] by simp
  then show "nx x = hd (vs @ us @ [x])" by (cases vs; cases us) auto
  from r show "pv x = last (x # vs @ us)" by (simp only: ring_iff list.sel)
qed

section \<open>The interface of a pair of link fields\<close>

locale links =
  fixes nx pv :: "'s \<Rightarrow> ptr \<Rightarrow> ptr" and set_nx set_pv :: "ptr \<Rightarrow> ptr \<Rightarrow> 's \<Rightarrow> 's"
  assumes nx_set_nx: "nx (set_nx p v s) q = (if q = p then v else nx s q)"
    and nx_set_pv: "nx (set_pv p v s) q = nx s q"
    and pv_set_nx: "pv (set_nx p v s) q = pv s q"
    and pv_set_pv: "pv (set_pv p v s) q = (if q = p then v else pv s q)"
begin

lemmas link_laws = nx_set_nx nx_set_pv pv_set_nx pv_set_pv

lemma single_ring: "ring (nx (set_pv n n (set_nx n n s))) (pv (set_pv n n (set_nx n n s))) [n]"
  by (simp add: link_laws)

text \<open>Four writes link \<open>n\<close> in front of \<open>r\<close>.\<close>

lemma insert_before_ring:
  assumes r: "ring (nx s) (pv s) (r # xs)" and n: "n \<notin> set (r # xs)"
    and s': "s' = set_nx (pv s r) n (set_pv r n (set_pv n (pv s r) (set_nx n r s)))"
  shows "ring (nx s') (pv s') (n # r # xs)"
proof -
  let ?l = "last (r # xs)"
  have seg: "dseg (nx s) (pv s) (r # xs)" and d: "distinct (r # xs)"
    and lr: "nx s ?l = r" "pv s r = ?l"
    using r unfolding ring_iff by simp_all
  have l: "?l \<in> set (r # xs)" "?l \<notin> set (butlast (r # xs))"
    using d by (simp_all only: last_in_set not_distinct_butlast list.distinct simp_thms)
  have "dseg (nx s') (pv s') (r # xs) \<longleftrightarrow> dseg (nx s) (pv s) (r # xs)"
  proof (rule dseg_cong)
    fix x assume x: "x \<in> set (butlast (r # xs))"
    then have "x \<noteq> ?l" using l(2) by metis
    moreover have "x \<noteq> n" using in_set_butlastD [OF x] n by metis
    ultimately have "x \<noteq> ?l" "x \<noteq> n" by simp_all
    then show "nx s' x = nx s x" using lr by (simp add: s' link_laws del: last.simps)
  next
    fix x assume "x \<in> set (tl (r # xs))"
    then show "pv s' x = pv s x" using d n by (auto simp: s' link_laws)
  qed
  moreover have "nx s' n = r" "pv s' r = n" "nx s' ?l = n" "pv s' n = ?l"
    using lr n l(1) by (auto simp: s' link_laws simp del: last.simps)
  ultimately show ?thesis unfolding ring_iff using seg n d by (simp del: last.simps add: last_ConsR)
qed

text \<open>Four writes link \<open>n\<close> behind \<open>r\<close>.\<close>

lemma insert_after_ring:
  assumes r: "ring (nx s) (pv s) (r # xs)" and n: "n \<notin> set (r # xs)"
    and s': "s' = set_nx r n (set_pv (nx s r) n (set_pv n r (set_nx n (nx s r) s)))"
  shows "ring (nx s') (pv s') (r # n # xs)"
proof (cases xs)
  case Nil
  then show ?thesis using r n by (auto simp: s' link_laws)
next
  case (Cons y ys)
  have ry: "nx s r = y" "pv s y = r" and seg: "dseg (nx s) (pv s) (y # ys @ [r])"
    and d: "distinct (r # y # ys)" using r Cons by auto
  have "dseg (nx s') (pv s') (y # ys @ [r]) \<longleftrightarrow> dseg (nx s) (pv s) (y # ys @ [r])"
    using d n Cons ry by (intro dseg_cong) (auto simp: s' link_laws butlast_append)
  then show ?thesis using seg n d ry Cons by (auto simp: s' link_laws)
qed

text \<open>Two writes unlink \<open>n\<close> from a ring of several nodes.\<close>

lemma detach_ring:
  assumes r: "ring (nx s) (pv s) (n # r # xs)"
    and s': "s' = set_pv (nx s n) (pv s n) (set_nx (pv s n) (nx s n) s)"
  shows "ring (nx s') (pv s') (r # xs)"
proof -
  let ?l = "last (r # xs)"
  have seg: "dseg (nx s) (pv s) (r # xs)" and d: "distinct (n # r # xs)" and nr: "nx s n = r"
    and ln: "nx s ?l = n" "pv s n = ?l"
    using r unfolding ring_iff by (simp_all only: dseg.simps last_ConsR list.distinct list.sel simp_thms)
  have l: "?l \<notin> set (butlast (r # xs))"
    using d by (simp only: not_distinct_butlast list.distinct distinct.simps simp_thms)
  have "dseg (nx s') (pv s') (r # xs) \<longleftrightarrow> dseg (nx s) (pv s) (r # xs)"
  proof (rule dseg_cong)
    fix x assume "x \<in> set (butlast (r # xs))"
    then have "x \<noteq> ?l" using l by metis
    then show "nx s' x = nx s x" using ln by (simp add: s' link_laws del: last.simps)
  next
    fix x assume "x \<in> set (tl (r # xs))"
    then show "pv s' x = pv s x" using d nr by (auto simp: s' link_laws)
  qed
  moreover have "nx s' ?l = r" "pv s' r = ?l"
    using nr ln by (simp_all add: s' link_laws del: last.simps)
  ultimately show ?thesis unfolding ring_iff using seg d by (simp del: last.simps)
qed

end

end
