(* ===== verification/Helios_Sched.thy ===== *)
theory Helios_Sched
  imports Ring C_Malloc
begin

text \<open>
  The scheduler of the Helios kernel (\<open>helios_sched.c\<close>, \<open>helios_sched.h\<close>, \<open>helios_heap.c\<close>) in its
  dynamic build (\<open>HELIOS_USE_DYNAMIC = 1\<close>).

  The kernel state holds the task control blocks as a store indexed by address, the scheduler
  control block \<open>g_sched_ctrl\<close>, the words of the semaphores and mutexes (their value word is what
  the scheduler polls through \<open>wait_on_resource\<close>), the C heap and the calls made to the user's
  deadlock hook. Following a NULL pointer is a \<open>Fault\<close>. A loop over a list takes fuel; \<open>Hang\<close> is
  the answer of a loop that has used it up. \<open>anti_deadlock\<close> stands for the build switch
  \<open>HELIOS_ANTI_DEADLOCK\<close>; \<open>HELIOS_POWER_SAVE_EN\<close> is 0.

  A ready or wait list is a \<open>ring\<close> of task control blocks, abstracted to the list of its nodes
  from its head on; the link operations are shown to be list insertions and deletions.
\<close>

section \<open>State\<close>

datatype task_status_t =
    task_status_exit
  | task_status_running
  | task_status_ready
  | task_status_wait
  | task_status_pause
  | task_status_max

primrec task_status_code :: "task_status_t \<Rightarrow> nat" where
  "task_status_code task_status_exit = 0x00"
| "task_status_code task_status_running = 0x01"
| "task_status_code task_status_ready = 0x02"
| "task_status_code task_status_wait = 0x03"
| "task_status_code task_status_pause = 0x04"
| "task_status_code task_status_max = 0xff"

lemma task_status_code_inj: "task_status_code a = task_status_code b \<longleftrightarrow> a = b"
  by (cases a; cases b) simp_all

text \<open>The enumeration is ordered by its codes, as the comparison \<open>task_status < wait\<close> reads it.\<close>

instantiation task_status_t :: linorder
begin

definition less_eq_task_status_t :: "task_status_t \<Rightarrow> task_status_t \<Rightarrow> bool" where
  "a \<le> b \<longleftrightarrow> task_status_code a \<le> task_status_code b"

definition less_task_status_t :: "task_status_t \<Rightarrow> task_status_t \<Rightarrow> bool" where
  "a < b \<longleftrightarrow> task_status_code a < task_status_code b"

instance
  by standard (auto simp: less_eq_task_status_t_def less_task_status_t_def task_status_code_inj)

end

record link_t =
  link_prev :: ptr
  link_next :: ptr

record wres_t =
  wait_on_resource :: ptr
  task_delay_ticks :: size_t

record tcb =
  tcb_name :: ptr
  priority :: u8
  task_flags :: u8
  stack_ptr :: ptr
  task_func :: ptr
  args_ptr :: ptr
  wait_res :: wres_t
  ready_link :: link_t
  wait_link :: link_t
  task_id :: u16
  task_wd_ticks :: size_t
  task_status :: task_status_t

record kernel =
  tcbs :: "ptr \<Rightarrow> tcb"
  ready_list_head :: ptr
  curr_task :: ptr
  wait_list_head :: ptr
  selected_sched :: "nat option"
  pre_sched :: bool
  deadlock_notify :: ptr
  notified :: "(ptr \<times> ptr) list"
  task_id_gen :: u16
  sync_val :: "ptr \<Rightarrow> u32"
  sync_init :: "ptr \<Rightarrow> u8"
  lock_task :: "ptr \<Rightarrow> ptr"
  kheap :: heap
  anti_deadlock :: bool

text \<open>\<open>link_type\<close>: \<open>HELIOS_LINK_WAIT\<close> is \<open>true\<close>, \<open>HELIOS_LINK_READY\<close> is \<open>false\<close>.\<close>

abbreviation (input) HELIOS_LINK_WAIT :: bool where
  "HELIOS_LINK_WAIT \<equiv> True"

abbreviation (input) HELIOS_LINK_READY :: bool where
  "HELIOS_LINK_READY \<equiv> False"

abbreviation (input) HELIOS_DELAY_MAX :: size_t where
  "HELIOS_DELAY_MAX \<equiv> - 1"

definition upd_tcb :: "ptr \<Rightarrow> (tcb \<Rightarrow> tcb) \<Rightarrow> kernel \<Rightarrow> kernel" where
  "upd_tcb p f k = k\<lparr>tcbs := (tcbs k)(p := f (tcbs k p))\<rparr>"

definition get_next :: "bool \<Rightarrow> kernel \<Rightarrow> ptr \<Rightarrow> ptr" where
  "get_next wait k p = link_next (if wait then wait_link (tcbs k p) else ready_link (tcbs k p))"

definition get_prev :: "bool \<Rightarrow> kernel \<Rightarrow> ptr \<Rightarrow> ptr" where
  "get_prev wait k p = link_prev (if wait then wait_link (tcbs k p) else ready_link (tcbs k p))"

definition set_next :: "bool \<Rightarrow> ptr \<Rightarrow> ptr \<Rightarrow> kernel \<Rightarrow> kernel" where
  "set_next wait p v =
     (if wait then upd_tcb p (\<lambda>t. t\<lparr>wait_link := (wait_link t)\<lparr>link_next := v\<rparr>\<rparr>)
      else upd_tcb p (\<lambda>t. t\<lparr>ready_link := (ready_link t)\<lparr>link_next := v\<rparr>\<rparr>))"

definition set_prev :: "bool \<Rightarrow> ptr \<Rightarrow> ptr \<Rightarrow> kernel \<Rightarrow> kernel" where
  "set_prev wait p v =
     (if wait then upd_tcb p (\<lambda>t. t\<lparr>wait_link := (wait_link t)\<lparr>link_prev := v\<rparr>\<rparr>)
      else upd_tcb p (\<lambda>t. t\<lparr>ready_link := (ready_link t)\<lparr>link_prev := v\<rparr>\<rparr>))"

abbreviation (input) set_status :: "ptr \<Rightarrow> task_status_t \<Rightarrow> kernel \<Rightarrow> kernel" where
  "set_status p s \<equiv> upd_tcb p (\<lambda>t. t\<lparr>task_status := s\<rparr>)"

abbreviation (input) set_delay :: "ptr \<Rightarrow> size_t \<Rightarrow> kernel \<Rightarrow> kernel" where
  "set_delay p n \<equiv> upd_tcb p (\<lambda>t. t\<lparr>wait_res := (wait_res t)\<lparr>task_delay_ticks := n\<rparr>\<rparr>)"

section \<open>Kernel heap\<close>

definition helios_malloc :: "size_t \<Rightarrow> kernel \<Rightarrow> (ptr \<times> kernel) outcome" where
  "helios_malloc sz k = obind (malloc sz (kheap k)) (\<lambda>(p, h). Ok (p, k\<lparr>kheap := h\<rparr>))"

definition helios_free :: "ptr \<Rightarrow> kernel \<Rightarrow> kernel outcome" where
  "helios_free p k = obind (free p (kheap k)) (\<lambda>h. Ok (k\<lparr>kheap := h\<rparr>))"

section \<open>Links\<close>

text \<open>The first argument is the link type; the value of \<open>*ptr\<close> is passed in and its new value is
  returned beside the status.\<close>

definition helios_sched_insert_after ::
  "bool \<Rightarrow> ptr \<Rightarrow> ptr \<Rightarrow> kernel \<Rightarrow> (status_t \<times> ptr \<times> kernel) outcome" where
  "helios_sched_insert_after link_type p new_node k =
     (if new_node = NULL then Ok (error_func_inval_arg, p, k)
      else if p = NULL
      then Ok (success, new_node, set_prev link_type new_node new_node
                                    (set_next link_type new_node new_node k))
      else let k1 = set_next link_type new_node (get_next link_type k p) k;
               k2 = set_prev link_type new_node p k1
           in require (get_next link_type k2 new_node \<noteq> NULL) Null_deref
                (let k3 = set_prev link_type (get_next link_type k2 new_node) new_node k2
                 in Ok (success, p, set_next link_type p new_node k3)))"

definition helios_sched_insert_before ::
  "bool \<Rightarrow> ptr \<Rightarrow> ptr \<Rightarrow> kernel \<Rightarrow> (status_t \<times> ptr \<times> kernel) outcome" where
  "helios_sched_insert_before link_type p new_node k =
     (if new_node = NULL then Ok (error_func_inval_arg, p, k)
      else if p = NULL
      then Ok (success, new_node, set_prev link_type new_node new_node
                                    (set_next link_type new_node new_node k))
      else let k1 = set_next link_type new_node p k;
               k2 = set_prev link_type new_node (get_prev link_type k1 p) k1;
               k3 = set_prev link_type p new_node k2
           in require (get_prev link_type k3 new_node \<noteq> NULL) Null_deref
                (Ok (success, p, set_next link_type (get_prev link_type k3 new_node) new_node k3)))"

text \<open>Unlinking from the wait list moves its head to the next \<^emph>\<open>ready\<close> node, as the code has it.\<close>

definition helios_sched_node_detach :: "bool \<Rightarrow> ptr \<Rightarrow> kernel \<Rightarrow> (status_t \<times> kernel) outcome" where
  "helios_sched_node_detach link_type node_ptr k =
     (if node_ptr = NULL then Ok (error_func_inval_arg, k)
      else let k1 = (if link_type
                     then (if node_ptr = wait_list_head k
                           then k\<lparr>wait_list_head := get_next HELIOS_LINK_READY k node_ptr\<rparr> else k)
                     else (if node_ptr = ready_list_head k
                           then k\<lparr>ready_list_head := get_next HELIOS_LINK_READY k node_ptr\<rparr> else k))
           in require (get_prev link_type k1 node_ptr \<noteq> NULL) Null_deref
             (let k2 = set_next link_type (get_prev link_type k1 node_ptr)
                         (get_next link_type k1 node_ptr) k1
              in require (get_next link_type k2 node_ptr \<noteq> NULL) Null_deref
                (let k3 = set_prev link_type (get_next link_type k2 node_ptr)
                            (get_prev link_type k2 node_ptr) k2
                 in Ok (success, set_prev link_type node_ptr NULL
                                   (set_next link_type node_ptr NULL k3)))))"

section \<open>State changes of a task\<close>

definition helios_sched_send_to_wait :: "ptr \<Rightarrow> size_t \<Rightarrow> kernel \<Rightarrow> kernel outcome" where
  "helios_sched_send_to_wait p ticks k =
     require (p \<noteq> NULL) Null_deref
       (if task_status (tcbs k p) = task_status_wait then Ok k
        else obind (helios_sched_insert_before HELIOS_LINK_WAIT (wait_list_head k) p k)
          (\<lambda>(st, h, k1).
            let k2 = k1\<lparr>wait_list_head := h\<rparr>
            in Ok (if st = success then set_status p task_status_wait (set_delay p ticks k2)
                   else k2)))"

definition helios_sched_send_to_pause :: "ptr \<Rightarrow> kernel \<Rightarrow> kernel outcome" where
  "helios_sched_send_to_pause p k =
     require (p \<noteq> NULL) Null_deref
       (if task_status (tcbs k p) = task_status_pause then Ok k
        else obind (helios_sched_insert_before HELIOS_LINK_WAIT (wait_list_head k) p k)
          (\<lambda>(st, h, k1).
            let k2 = k1\<lparr>wait_list_head := h\<rparr>
            in Ok (if st = success
                   then set_status p task_status_pause (set_delay p HELIOS_DELAY_MAX k2)
                   else k2)))"

definition helios_sched_send_to_resume :: "ptr \<Rightarrow> kernel \<Rightarrow> kernel outcome" where
  "helios_sched_send_to_resume p k =
     require (p \<noteq> NULL) Null_deref
       (if task_status (tcbs k p) < task_status_wait then Ok k
        else let k1 = (if p = wait_list_head k
                       then if get_next HELIOS_LINK_WAIT k p = p \<and> get_prev HELIOS_LINK_WAIT k p = p
                            then k\<lparr>wait_list_head := NULL\<rparr>
                            else k\<lparr>wait_list_head := get_next HELIOS_LINK_WAIT k p\<rparr>
                       else k)
             in obind (helios_sched_node_detach HELIOS_LINK_WAIT p k1) (\<lambda>(st, k2).
                  Ok (set_status p task_status_ready (set_delay p 0 k2))))"

section \<open>Ordering by priority\<close>

text \<open>\<open>while(node_ptr->priority >= ref_ptr->priority)\<close>: gives the place to insert at and whether
  no node was passed (\<open>least_prio\<close>).\<close>

fun find_prio_loop :: "nat \<Rightarrow> u8 \<Rightarrow> ptr \<Rightarrow> bool \<Rightarrow> kernel \<Rightarrow> (ptr \<times> bool) outcome" where
  "find_prio_loop 0 prio ref_ptr least_prio k = Hang"
| "find_prio_loop (Suc n) prio ref_ptr least_prio k =
     require (ref_ptr \<noteq> NULL) Null_deref
       (if prio \<ge> priority (tcbs k ref_ptr)
        then let ref_ptr' = get_next HELIOS_LINK_READY k ref_ptr
             in if ref_ptr' = ready_list_head k then Ok (ref_ptr', False)
                else find_prio_loop n prio ref_ptr' False k
        else Ok (ref_ptr, least_prio))"

definition helios_sched_send_back_of_task_prio ::
  "nat \<Rightarrow> ptr \<Rightarrow> kernel \<Rightarrow> (status_t \<times> kernel) outcome" where
  "helios_sched_send_back_of_task_prio fuel node_ptr k =
     (if node_ptr = NULL then Ok (error_func_inval_arg, k)
      else if ready_list_head k = NULL \<or> node_ptr = ready_list_head k then Ok (success, k)
      else obind (find_prio_loop fuel (priority (tcbs k node_ptr)) (ready_list_head k) True k)
        (\<lambda>(ref_ptr, least_prio).
          let k1 = (if least_prio then k\<lparr>ready_list_head := node_ptr\<rparr> else k)
          in obind (if get_next HELIOS_LINK_READY k1 node_ptr = get_prev HELIOS_LINK_READY k1 node_ptr
                    then Ok (success, k1)
                    else helios_sched_node_detach HELIOS_LINK_READY node_ptr k1)
               (\<lambda>(_, k2). obind (helios_sched_insert_before HELIOS_LINK_READY ref_ptr node_ptr k2)
                 (\<lambda>(_, _, k3). Ok (success, k3)))))"

section \<open>Per-tick adjustments\<close>

text \<open>The loop body never advances \<open>ptr\<close>.\<close>

definition deadlock_tick :: "ptr \<Rightarrow> kernel \<Rightarrow> kernel" where
  "deadlock_tick p k =
     (let k1 = (if task_status (tcbs k p) \<noteq> task_status_pause
                then upd_tcb p (\<lambda>t. t\<lparr>task_wd_ticks := task_wd_ticks t - 1\<rparr>) k else k)
      in if task_wd_ticks (tcbs k1 p) = 0 \<and> deadlock_notify k1 \<noteq> NULL
         then let k2 = (if task_status (tcbs k1 p) \<noteq> task_status_exit
                        then set_status p task_status_exit k1 else k1)
              in k2\<lparr>notified := notified k2 @ [(tcb_name (tcbs k1 p), task_func (tcbs k1 p))]\<rparr>
         else k1)"

fun deadlock_loop :: "nat \<Rightarrow> ptr \<Rightarrow> kernel \<Rightarrow> kernel outcome" where
  "deadlock_loop 0 p k = Hang"
| "deadlock_loop (Suc n) p k =
     (if p = NULL then Ok k
      else let k1 = deadlock_tick p k
           in if get_next HELIOS_LINK_READY k1 p = ready_list_head k1 then Ok k1
              else deadlock_loop n p k1)"

definition helios_sched_deadlock_adjustment_and_detection :: "nat \<Rightarrow> kernel \<Rightarrow> kernel outcome" where
  "helios_sched_deadlock_adjustment_and_detection fuel k =
     (if anti_deadlock k then deadlock_loop fuel (ready_list_head k) k else Ok k)"

text \<open>One pass of the wait-list loop: \<open>wait_res\<close> was read from the head before the loop.\<close>

definition wait_tick :: "ptr \<Rightarrow> ptr \<Rightarrow> kernel \<Rightarrow> kernel outcome" where
  "wait_tick wait_res_ptr p k =
     (let k1 = upd_tcb p (\<lambda>t. t\<lparr>wait_res := (wait_res t)
                 \<lparr>task_delay_ticks := task_delay_ticks (wait_res t) - 1\<rparr>\<rparr>) k;
          k2 = (if wait_res_ptr \<noteq> NULL \<and> 0 < sint (sync_val k1 wait_res_ptr)
                then upd_tcb p (\<lambda>t. t\<lparr>wait_res := \<lparr>wait_on_resource = 0, task_delay_ticks = 0\<rparr>\<rparr>) k1
                else k1)
      in if task_delay_ticks (wait_res (tcbs k2 p)) = 0
         then helios_sched_send_to_resume p k2 else Ok k2)"

fun wait_list_loop :: "nat \<Rightarrow> ptr \<Rightarrow> ptr \<Rightarrow> kernel \<Rightarrow> kernel outcome" where
  "wait_list_loop 0 r p k = Hang"
| "wait_list_loop (Suc n) r p k =
     (if p = NULL then Ok k
      else if task_status (tcbs k p) = task_status_wait
      then obind (wait_tick r p k) (\<lambda>k1.
             if get_next HELIOS_LINK_WAIT k1 p = wait_list_head k1 then Ok k1
             else wait_list_loop n r (get_next HELIOS_LINK_WAIT k1 p) k1)
      else wait_list_loop n r p k)"

definition helios_sched_wait_list_adjustment :: "nat \<Rightarrow> kernel \<Rightarrow> kernel outcome" where
  "helios_sched_wait_list_adjustment fuel k =
     (if wait_list_head k = NULL then Ok k
      else wait_list_loop fuel (wait_on_resource (wait_res (tcbs k (wait_list_head k))))
             (wait_list_head k) k)"

definition helios_pre_sched :: "nat \<Rightarrow> kernel \<Rightarrow> kernel outcome" where
  "helios_pre_sched fuel k =
     require (curr_task k \<noteq> NULL) Null_deref
       (obind (helios_sched_wait_list_adjustment fuel (set_status (curr_task k) task_status_ready k))
         (\<lambda>k1. obind (helios_sched_deadlock_adjustment_and_detection fuel k1)
           (\<lambda>k2. obind (helios_sched_send_back_of_task_prio fuel (curr_task k2) k2)
             (\<lambda>(_, k3). Ok k3))))"

section \<open>Scheduling algorithms\<close>

definition helios_sched_context_switch :: "ptr \<Rightarrow> kernel \<Rightarrow> kernel outcome" where
  "helios_sched_context_switch next_task k =
     require (next_task \<noteq> NULL) Null_deref (Ok (set_status next_task task_status_running k))"

definition helios_sched_algo_round_robin_fn :: "kernel \<Rightarrow> kernel outcome" where
  "helios_sched_algo_round_robin_fn k =
     require (curr_task k \<noteq> NULL) Null_deref
       (let p = get_next HELIOS_LINK_READY k (curr_task k)
        in obind (if p = ready_list_head k then helios_sched_send_to_resume p k else Ok k) (\<lambda>k1.
           require (p \<noteq> NULL) Null_deref
             (if task_status (tcbs k1 p) = task_status_ready
              then helios_sched_context_switch (get_next HELIOS_LINK_READY k1 p) k1 else Ok k1)))"

fun priority_loop :: "nat \<Rightarrow> ptr \<Rightarrow> kernel \<Rightarrow> (ptr \<times> kernel) outcome" where
  "priority_loop 0 p k = Hang"
| "priority_loop (Suc n) p k =
     require (p \<noteq> NULL) Null_deref
       (if task_status (tcbs k p) \<noteq> task_status_ready
        then let p' = get_prev HELIOS_LINK_WAIT k p
             in if p' = ready_list_head k
                then obind (helios_sched_send_to_resume p' k) (\<lambda>k1. Ok (p', k1))
                else priority_loop n p' k
        else Ok (p, k))"

definition helios_sched_algo_priority_driven_fn :: "nat \<Rightarrow> kernel \<Rightarrow> kernel outcome" where
  "helios_sched_algo_priority_driven_fn fuel k =
     require (ready_list_head k \<noteq> NULL) Null_deref
       (let p = get_prev HELIOS_LINK_READY k (ready_list_head k)
        in if p \<noteq> NULL
           then obind (priority_loop fuel p k) (\<lambda>(q, k1). helios_sched_context_switch q k1)
           else Ok k)"

text \<open>\<open>g_helios_sched_list\<close> has two entries; an index beyond it is read out of bounds.\<close>

definition run_algo :: "nat \<Rightarrow> nat \<Rightarrow> kernel \<Rightarrow> kernel outcome" where
  "run_algo fuel i k =
     (if i = 0 then helios_sched_algo_round_robin_fn k
      else if i = 1 then helios_sched_algo_priority_driven_fn fuel k
      else Fault Out_of_bounds)"

definition helios_scheduler_despatch :: "nat \<Rightarrow> kernel \<Rightarrow> kernel outcome" where
  "helios_scheduler_despatch fuel k =
     obind (if pre_sched k then helios_pre_sched fuel k
            else Fault (Panic error_os_panic_presched_cb_null)) (\<lambda>k1.
       case selected_sched k1 of
         Some i \<Rightarrow> run_algo fuel i k1
       | None \<Rightarrow> Fault (Panic error_os_panic_sched_algo_null))"

section \<open>The lists of the kernel\<close>

interpretation rl: links "get_next False" "get_prev False" "set_next False" "set_prev False"
  by standard (simp_all add: get_next_def get_prev_def set_next_def set_prev_def upd_tcb_def)

interpretation wl: links "get_next True" "get_prev True" "set_next True" "set_prev True"
  by standard (simp_all add: get_next_def get_prev_def set_next_def set_prev_def upd_tcb_def)

lemma links_both: "links (get_next w) (get_prev w) (set_next w) (set_prev w)"
  by (cases w) (unfold_locales, simp_all add: get_next_def get_prev_def set_next_def set_prev_def upd_tcb_def)

lemmas kernel_insert_before = links.insert_before_ring [OF links_both]
lemmas kernel_insert_after = links.insert_after_ring [OF links_both]
lemmas kernel_detach = links.detach_ring [OF links_both]
lemmas kernel_links [simp] = links.link_laws [OF links_both]

definition node_ring :: "bool \<Rightarrow> kernel \<Rightarrow> ptr list \<Rightarrow> bool" where
  "node_ring w k xs \<longleftrightarrow> 0 \<notin> set xs \<and> ring (get_next w k) (get_prev w k) xs"

lemma node_ring_distinct: "node_ring w k xs \<Longrightarrow> distinct xs"
  using ring_distinct by (auto simp: node_ring_def)

definition node_list :: "bool \<Rightarrow> ptr \<Rightarrow> kernel \<Rightarrow> ptr list \<Rightarrow> bool" where
  "node_list w h k xs \<longleftrightarrow> (if xs = [] then h = 0 else h = hd xs \<and> node_ring w k xs)"

lemma node_list_distinct: "node_list w h k xs \<Longrightarrow> distinct xs"
  using node_ring_distinct [of w k xs] by (cases "xs = []") (auto simp: node_list_def)

lemma node_list_head_nz: "node_list w h k xs \<Longrightarrow> xs \<noteq> [] \<Longrightarrow> h \<noteq> 0"
  by (cases xs) (auto simp: node_list_def node_ring_def)

abbreviation (input) ready_list :: "kernel \<Rightarrow> ptr list \<Rightarrow> bool" where
  "ready_list k \<equiv> node_list False (ready_list_head k) k"

abbreviation (input) wait_list :: "kernel \<Rightarrow> ptr list \<Rightarrow> bool" where
  "wait_list k \<equiv> node_list True (wait_list_head k) k"

text \<open>\<open>link_frame w k k'\<close>: from \<open>k\<close> to \<open>k'\<close> nothing changed but links of type \<open>w\<close>.\<close>

definition erase_link :: "bool \<Rightarrow> tcb \<Rightarrow> tcb" where
  "erase_link w t =
     (if w then t\<lparr>wait_link := \<lparr>link_prev = 0, link_next = 0\<rparr>\<rparr>
      else t\<lparr>ready_link := \<lparr>link_prev = 0, link_next = 0\<rparr>\<rparr>)"

definition link_frame :: "bool \<Rightarrow> kernel \<Rightarrow> kernel \<Rightarrow> bool" where
  "link_frame w k k' \<longleftrightarrow> k'\<lparr>tcbs := tcbs k\<rparr> = k \<and> (\<forall>p. erase_link w (tcbs k' p) = erase_link w (tcbs k p))"

lemma link_frame_set [simp]: "link_frame w k (set_next w p v k)" "link_frame w k (set_prev w p v k)"
  by (simp_all add: link_frame_def set_next_def set_prev_def upd_tcb_def erase_link_def)

lemma link_frame_refl [simp]: "link_frame w k k"
  by (simp add: link_frame_def)

lemma link_frame_trans: "link_frame w k k' \<Longrightarrow> link_frame w k' k'' \<Longrightarrow> link_frame w k k''"
proof -
  assume a: "link_frame w k k'" "link_frame w k' k''"
  then have "k''\<lparr>tcbs := tcbs k'\<rparr>\<lparr>tcbs := tcbs k\<rparr> = k" by (simp add: link_frame_def)
  then show ?thesis using a by (simp add: link_frame_def)
qed

lemma link_frame_then [simp]:
  "link_frame w k k' \<Longrightarrow> link_frame w k (set_next w p v k')"
  "link_frame w k k' \<Longrightarrow> link_frame w k (set_prev w p v k')"
  by (auto intro: link_frame_trans)

lemma link_frame_settings:
  assumes "link_frame w k k'"
  shows "selected_sched k' = selected_sched k"
proof -
  have "k'\<lparr>tcbs := tcbs k\<rparr> = k" using assms by (simp add: link_frame_def)
  from arg_cong [OF this, of selected_sched] show ?thesis by simp
qed

lemma link_frame_fields:
  assumes "link_frame w k k'"
  shows "task_status (tcbs k' p) = task_status (tcbs k p)" "priority (tcbs k' p) = priority (tcbs k p)"
    "task_id (tcbs k' p) = task_id (tcbs k p)" "wait_res (tcbs k' p) = wait_res (tcbs k p)"
    "ready_list_head k' = ready_list_head k" "wait_list_head k' = wait_list_head k"
    "curr_task k' = curr_task k" "kheap k' = kheap k" "task_id_gen k' = task_id_gen k"
    "anti_deadlock k' = anti_deadlock k"
proof -
  have e: "erase_link w (tcbs k' p) = erase_link w (tcbs k p)" and k: "k'\<lparr>tcbs := tcbs k\<rparr> = k"
    using assms by (simp_all add: link_frame_def)
  show "task_status (tcbs k' p) = task_status (tcbs k p)"
    using arg_cong [OF e, of task_status] by (simp add: erase_link_def split: if_splits)
  show "priority (tcbs k' p) = priority (tcbs k p)"
    using arg_cong [OF e, of priority] by (simp add: erase_link_def split: if_splits)
  show "task_id (tcbs k' p) = task_id (tcbs k p)"
    using arg_cong [OF e, of task_id] by (simp add: erase_link_def split: if_splits)
  show "wait_res (tcbs k' p) = wait_res (tcbs k p)"
    using arg_cong [OF e, of wait_res] by (simp add: erase_link_def split: if_splits)
  show "ready_list_head k' = ready_list_head k" using arg_cong [OF k, of ready_list_head] by simp
  show "wait_list_head k' = wait_list_head k" using arg_cong [OF k, of wait_list_head] by simp
  show "curr_task k' = curr_task k" using arg_cong [OF k, of curr_task] by simp
  show "kheap k' = kheap k" using arg_cong [OF k, of kheap] by simp
  show "task_id_gen k' = task_id_gen k" using arg_cong [OF k, of task_id_gen] by simp
  show "anti_deadlock k' = anti_deadlock k" using arg_cong [OF k, of anti_deadlock] by simp
qed

lemma link_frame_stack_ptr:
  assumes "link_frame w k k'"
  shows "stack_ptr (tcbs k' p) = stack_ptr (tcbs k p)"
proof -
  have "erase_link w (tcbs k' p) = erase_link w (tcbs k p)" using assms by (simp add: link_frame_def)
  from arg_cong [OF this, of stack_ptr] show ?thesis by (simp add: erase_link_def split: if_splits)
qed

lemma link_frame_other:
  assumes "link_frame w k k'" and "v \<noteq> w"
  shows "get_next v k' p = get_next v k p" "get_prev v k' p = get_prev v k p"
proof -
  have e: "erase_link w (tcbs k' p) = erase_link w (tcbs k p)" using assms by (simp add: link_frame_def)
  show "get_next v k' p = get_next v k p" "get_prev v k' p = get_prev v k p"
    using arg_cong [OF e, of wait_link] arg_cong [OF e, of ready_link] assms(2)
    by (auto simp: erase_link_def get_next_def get_prev_def split: if_splits)
qed

lemma link_frame_node_list:
  assumes "link_frame w k k'" and "v \<noteq> w"
  shows "node_list v h k' xs \<longleftrightarrow> node_list v h k xs"
  using link_frame_other [OF assms] ring_cong [of xs "get_next v k'" "get_next v k" "get_prev v k'" "get_prev v k"]
  by (simp add: node_list_def node_ring_def)

section \<open>Insertion and removal\<close>

lemma insert_before_node:
  assumes r: "node_ring w k (us @ r # vs)" and n: "n \<notin> set (us @ r # vs)" "n \<noteq> 0"
  shows "\<exists>k'. helios_sched_insert_before w r n k = Ok (success, r, k')
    \<and> node_ring w k' (us @ n # r # vs) \<and> link_frame w k k'"
proof -
  let ?k = "set_next w (get_prev w k r) n (set_prev w r n (set_prev w n (get_prev w k r) (set_next w n r k)))"
  have nz: "0 \<notin> set (us @ r # vs)" and ring: "ring (get_next w k) (get_prev w k) (r # vs @ us)"
    using r ring_rotate [of _ _ us "r # vs"] by (auto simp: node_ring_def)
  have "get_prev w k r = last (r # vs @ us)" using ring by (simp only: ring_iff list.sel)
  also have "\<dots> \<in> set (us @ r # vs)" using last_in_set [of "r # vs @ us"] by auto
  finally have p: "get_prev w k r \<noteq> 0" using nz by metis
  have "ring (get_next w ?k) (get_prev w ?k) (n # r # vs @ us)"
    by (rule kernel_insert_before [OF ring]) (use n in auto)
  then have "node_ring w ?k (us @ n # r # vs)"
    using nz n ring_rotate [of _ _ us "n # r # vs"] by (auto simp: node_ring_def)
  moreover have "helios_sched_insert_before w r n k = Ok (success, r, ?k)"
    using n nz p by (auto simp: helios_sched_insert_before_def Let_def)
  moreover have "link_frame w k ?k" by simp
  ultimately show ?thesis by blast
qed

lemma insert_before_list:
  assumes l: "node_list w h k xs" and n: "n \<notin> set xs" "n \<noteq> 0"
  shows "\<exists>h' k'. helios_sched_insert_before w h n k = Ok (success, h', k')
    \<and> node_list w h' k' (xs @ [n]) \<and> link_frame w k k'"
proof (cases xs)
  case Nil
  then show ?thesis
    using l n links.single_ring [OF links_both, of w n k]
    by (auto simp: node_list_def node_ring_def helios_sched_insert_before_def)
next
  case (Cons x ys)
  then have r: "node_ring w k ([] @ x # ys)" and h: "h = x" using l by (auto simp: node_list_def)
  from insert_before_node [OF r] n Cons obtain k' where k': "helios_sched_insert_before w x n k = Ok (success, x, k')"
    "node_ring w k' (n # x # ys)" "link_frame w k k'" by auto
  moreover have "node_ring w k' (x # ys @ [n])"
    using k'(2) ring_rotate1 [of _ _ n "x # ys"] by (auto simp: node_ring_def)
  ultimately show ?thesis using h Cons by (auto simp: node_list_def)
qed

lemma insert_after_node:
  assumes r: "node_ring w k (us @ r # vs)" and n: "n \<notin> set (us @ r # vs)" "n \<noteq> 0"
  shows "\<exists>k'. helios_sched_insert_after w r n k = Ok (success, r, k')
    \<and> node_ring w k' (us @ r # n # vs) \<and> link_frame w k k'"
proof -
  let ?k = "set_next w r n (set_prev w (get_next w k r) n (set_prev w n r (set_next w n (get_next w k r) k)))"
  have nz: "0 \<notin> set (us @ r # vs)" and ring: "ring (get_next w k) (get_prev w k) (r # vs @ us)"
    using r ring_rotate [of _ _ us "r # vs"] by (auto simp: node_ring_def)
  have "get_next w k r = hd (vs @ us @ [r])"
    using r ring_next(1) unfolding node_ring_def by fast
  also have "\<dots> \<in> set (us @ r # vs)" using hd_in_set [of "vs @ us @ [r]"] by auto
  finally have p: "get_next w k r \<noteq> 0" using nz by metis
  have "ring (get_next w ?k) (get_prev w ?k) (r # n # vs @ us)"
    by (rule kernel_insert_after [OF ring]) (use n in auto)
  then have "node_ring w ?k (us @ r # n # vs)"
    using nz n ring_rotate [of _ _ us "r # n # vs"] by (auto simp: node_ring_def)
  moreover have "helios_sched_insert_after w r n k = Ok (success, r, ?k)"
    using n nz p by (auto simp: helios_sched_insert_after_def Let_def)
  moreover have "link_frame w k ?k" by simp
  ultimately show ?thesis by blast
qed

lemma get_link_head [simp]:
  "get_next w (k\<lparr>wait_list_head := h\<rparr>) = get_next w k" "get_prev w (k\<lparr>wait_list_head := h\<rparr>) = get_prev w k"
  "get_next w (k\<lparr>ready_list_head := h\<rparr>) = get_next w k" "get_prev w (k\<lparr>ready_list_head := h\<rparr>) = get_prev w k"
  by (simp_all add: fun_eq_iff get_next_def get_prev_def)

text \<open>The head that \<open>node_detach\<close> leaves when it unlinks \<open>n\<close>.\<close>

definition head_moved :: "bool \<Rightarrow> ptr \<Rightarrow> kernel \<Rightarrow> kernel" where
  "head_moved w n k =
     (if w then (if n = wait_list_head k then k\<lparr>wait_list_head := get_next False k n\<rparr> else k)
      else (if n = ready_list_head k then k\<lparr>ready_list_head := get_next False k n\<rparr> else k))"

lemma get_link_head_moved [simp]:
  "get_next w (head_moved v n k) = get_next w k" "get_prev w (head_moved v n k) = get_prev w k"
  by (simp_all add: head_moved_def)

lemma detach_code:
  assumes "n \<noteq> 0" and "get_prev w k n \<noteq> 0" and "get_next w k n \<noteq> 0"
    and "get_prev w k n = n \<Longrightarrow> get_next w k n = n"
  shows "helios_sched_node_detach w n k = Ok (success, set_prev w n 0 (set_next w n 0
    (set_prev w (get_next w k n) (get_prev w k n) (set_next w (get_prev w k n) (get_next w k n) (head_moved w n k)))))"
proof -
  let ?k1 = "head_moved w n k"
  have "get_next w (set_next w (get_prev w k n) (get_next w k n) ?k1) n = get_next w k n"
    using assms(4) by auto
  then show ?thesis
    using assms unfolding helios_sched_node_detach_def head_moved_def [symmetric] Let_def by simp
qed

lemma detach_node:
  assumes r: "node_ring w k (us @ n # vs)" and ne: "us @ vs \<noteq> []"
  shows "\<exists>k'. helios_sched_node_detach w n k = Ok (success, k') \<and> node_ring w k' (us @ vs)
    \<and> link_frame w (head_moved w n k) k' \<and> get_next w k' n = 0 \<and> get_prev w k' n = 0"
proof -
  let ?k1 = "head_moved w n k"
  let ?k3 = "set_prev w (get_next w k n) (get_prev w k n) (set_next w (get_prev w k n) (get_next w k n) ?k1)"
  let ?k = "set_prev w n 0 (set_next w n 0 ?k3)"
  obtain m ws where m: "vs @ us = m # ws" using ne by (cases "vs @ us") auto
  have nz: "0 \<notin> set (us @ n # vs)" and ring: "ring (get_next w k) (get_prev w k) (n # m # ws)"
    using r ring_rotate [of _ _ us "n # vs"] m by (auto simp: node_ring_def)
  have set: "set (us @ n # vs) = set (n # m # ws)" using m by (metis list.simps(15) set_append Un_commute Un_insert_right)
  have d: "distinct (n # m # ws)" using ring_distinct [OF ring] .
  have nx: "get_next w k n = m" using ring by simp
  have pv: "get_prev w k n = last (m # ws)" using ring unfolding ring_iff by simp
  have "last (m # ws) \<in> set (m # ws)" by (rule last_in_set) simp
  then have ok: "n \<noteq> 0" "m \<noteq> 0" "get_prev w k n \<noteq> 0" "get_prev w k n \<noteq> n"
    using nz set d pv by (auto simp del: last.simps)
  have "ring (get_next w ?k3) (get_prev w ?k3) (m # ws)"
    using kernel_detach [of w ?k1 n m ws ?k3] ring by simp
  moreover have "ring (get_next w ?k) (get_prev w ?k) (m # ws) \<longleftrightarrow> ring (get_next w ?k3) (get_prev w ?k3) (m # ws)"
    by (rule ring_cong) (use d in auto)
  ultimately have "node_ring w ?k (us @ vs)"
    using nz m ring_rotate [of _ _ us vs] by (auto simp: node_ring_def)
  moreover have "helios_sched_node_detach w n k = Ok (success, ?k)"
    using detach_code [of n w k] ok nx by simp
  moreover have "link_frame w ?k1 ?k" by simp
  ultimately show ?thesis by auto
qed

lemma detach_single:
  assumes "node_ring w k [n]"
  shows "\<exists>k'. helios_sched_node_detach w n k = Ok (success, k') \<and> link_frame w (head_moved w n k) k'
    \<and> get_next w k' n = 0 \<and> get_prev w k' n = 0"
  using assms detach_code [of n w k] by (auto simp: node_ring_def)

section \<open>Waiting and resuming\<close>

text \<open>\<open>task_frame k k'\<close>: only wait links, wait resources and task states, and the head of the wait
  list, changed.\<close>

definition erase_wait :: "tcb \<Rightarrow> tcb" where
  "erase_wait t = t\<lparr>wait_link := \<lparr>link_prev = 0, link_next = 0\<rparr>,
     wait_res := \<lparr>wait_on_resource = 0, task_delay_ticks = 0\<rparr>, task_status := task_status_exit\<rparr>"

definition task_frame :: "kernel \<Rightarrow> kernel \<Rightarrow> bool" where
  "task_frame k k' \<longleftrightarrow> k'\<lparr>tcbs := tcbs k, wait_list_head := wait_list_head k\<rparr> = k
     \<and> (\<forall>p. erase_wait (tcbs k' p) = erase_wait (tcbs k p))"

lemma task_frame_refl [simp]: "task_frame k k"
  by (simp add: task_frame_def)

lemma task_frame_trans:
  assumes "task_frame k k'" and "task_frame k' k''"
  shows "task_frame k k''"
proof -
  have "k''\<lparr>tcbs := tcbs k', wait_list_head := wait_list_head k'\<rparr>
      \<lparr>tcbs := tcbs k, wait_list_head := wait_list_head k\<rparr> = k"
    using assms by (simp add: task_frame_def)
  then show ?thesis using assms by (simp add: task_frame_def)
qed

lemma link_frame_task_frame: "link_frame True k k' \<Longrightarrow> task_frame k k'"
proof -
  assume f: "link_frame True k k'"
  have "erase_wait (tcbs k' p) = erase_wait (tcbs k p)" for p
  proof -
    have "erase_wait (erase_link True (tcbs k' p)) = erase_wait (erase_link True (tcbs k p))"
      using f by (simp add: link_frame_def)
    then show ?thesis by (simp add: erase_wait_def erase_link_def)
  qed
  moreover have "k'\<lparr>tcbs := tcbs k, wait_list_head := wait_list_head k\<rparr> = k"
  proof -
    have k: "k'\<lparr>tcbs := tcbs k\<rparr> = k" using f by (simp add: link_frame_def)
    then have "k'\<lparr>tcbs := tcbs k\<rparr>\<lparr>wait_list_head := wait_list_head k\<rparr> = k" by simp
    then show ?thesis by simp
  qed
  ultimately show ?thesis by (simp add: task_frame_def)
qed

lemma task_frame_upd:
  "(\<And>t. erase_wait (f t) = erase_wait t) \<Longrightarrow> task_frame k (upd_tcb p f k)"
  by (simp add: task_frame_def upd_tcb_def)

lemma task_frame_head [simp]: "task_frame k (k\<lparr>wait_list_head := h\<rparr>)"
  by (simp add: task_frame_def)

lemma task_frame_settings:
  assumes "task_frame k k'"
  shows "selected_sched k' = selected_sched k"
proof -
  have "k'\<lparr>tcbs := tcbs k, wait_list_head := wait_list_head k\<rparr> = k" using assms by (simp add: task_frame_def)
  from arg_cong [OF this, of selected_sched] show ?thesis by simp
qed

lemma task_frame_fields:
  assumes "task_frame k k'"
  shows "priority (tcbs k' p) = priority (tcbs k p)" "task_id (tcbs k' p) = task_id (tcbs k p)"
    "ready_link (tcbs k' p) = ready_link (tcbs k p)"
    "ready_list_head k' = ready_list_head k" "curr_task k' = curr_task k"
    "kheap k' = kheap k" "task_id_gen k' = task_id_gen k" "anti_deadlock k' = anti_deadlock k"
proof -
  have e: "erase_wait (tcbs k' p) = erase_wait (tcbs k p)"
    and k: "k'\<lparr>tcbs := tcbs k, wait_list_head := wait_list_head k\<rparr> = k"
    using assms by (simp_all add: task_frame_def)
  show "priority (tcbs k' p) = priority (tcbs k p)"
    using arg_cong [OF e, of priority] by (simp add: erase_wait_def)
  show "task_id (tcbs k' p) = task_id (tcbs k p)"
    using arg_cong [OF e, of task_id] by (simp add: erase_wait_def)
  show "ready_link (tcbs k' p) = ready_link (tcbs k p)"
    using arg_cong [OF e, of ready_link] by (simp add: erase_wait_def)
  show "ready_list_head k' = ready_list_head k" using arg_cong [OF k, of ready_list_head] by simp
  show "curr_task k' = curr_task k" using arg_cong [OF k, of curr_task] by simp
  show "kheap k' = kheap k" using arg_cong [OF k, of kheap] by simp
  show "task_id_gen k' = task_id_gen k" using arg_cong [OF k, of task_id_gen] by simp
  show "anti_deadlock k' = anti_deadlock k" using arg_cong [OF k, of anti_deadlock] by simp
qed

lemma task_frame_hooks:
  assumes "task_frame k k'"
  shows "pre_sched k' = pre_sched k" "selected_sched k' = selected_sched k"
proof -
  have k: "k'\<lparr>tcbs := tcbs k, wait_list_head := wait_list_head k\<rparr> = k"
    using assms by (simp add: task_frame_def)
  show "pre_sched k' = pre_sched k" using arg_cong [OF k, of pre_sched] by simp
  show "selected_sched k' = selected_sched k" using arg_cong [OF k, of selected_sched] by simp
qed

lemma task_frame_links:
  assumes "task_frame k k'"
  shows "get_next False k' p = get_next False k p" "get_prev False k' p = get_prev False k p"
  using task_frame_fields(3) [OF assms] by (simp_all add: get_next_def get_prev_def)

lemma task_frame_ready_list:
  assumes "task_frame k k'"
  shows "ready_list k' xs \<longleftrightarrow> ready_list k xs"
  using task_frame_fields(4) [OF assms] task_frame_links [OF assms]
    ring_cong [of xs "get_next False k'" "get_next False k" "get_prev False k'" "get_prev False k"]
  by (simp add: node_list_def node_ring_def)

lemma get_link_upd:
  assumes "\<And>t. wait_link (f t) = wait_link t" and "\<And>t. ready_link (f t) = ready_link t"
  shows "get_next w (upd_tcb p f k) = get_next w k" "get_prev w (upd_tcb p f k) = get_prev w k"
  using assms by (auto simp: fun_eq_iff get_next_def get_prev_def upd_tcb_def)

lemma node_list_links:
  "get_next w k' = get_next w k \<Longrightarrow> get_prev w k' = get_prev w k \<Longrightarrow> node_list w h k' xs \<longleftrightarrow> node_list w h k xs"
  by (simp add: node_list_def node_ring_def)

lemma node_list_upd:
  assumes "\<And>t. wait_link (f t) = wait_link t" and "\<And>t. ready_link (f t) = ready_link t"
  shows "node_list w h (upd_tcb p f k) xs \<longleftrightarrow> node_list w h k xs"
  using get_link_upd [OF assms] by (simp add: node_list_def node_ring_def)

lemma node_list_head [simp]:
  "node_list w h (k\<lparr>wait_list_head := g\<rparr>) xs \<longleftrightarrow> node_list w h k xs"
  "node_list w h (k\<lparr>ready_list_head := g\<rparr>) xs \<longleftrightarrow> node_list w h k xs"
  "node_list w h (k\<lparr>kheap := m\<rparr>) xs \<longleftrightarrow> node_list w h k xs"
  by (rule node_list_links; simp add: fun_eq_iff get_next_def get_prev_def)+

lemma upd_tcb_heads [simp]:
  "wait_list_head (upd_tcb p f k) = wait_list_head k" "ready_list_head (upd_tcb p f k) = ready_list_head k"
  "curr_task (upd_tcb p f k) = curr_task k" "anti_deadlock (upd_tcb p f k) = anti_deadlock k"
  "task_id_gen (upd_tcb p f k) = task_id_gen k"
  by (simp_all add: upd_tcb_def)

text \<open>Putting a task on the wait list in state \<open>s\<close> with delay \<open>n\<close>: what \<open>send_to_wait\<close> and
  \<open>send_to_pause\<close> share.\<close>

lemma enqueue_wait:
  assumes l: "wait_list k ws" and p: "p \<notin> set ws" "p \<noteq> 0"
  shows "\<exists>h k1. helios_sched_insert_before True (wait_list_head k) p k = Ok (success, h, k1)
    \<and> (let k' = set_status p s (set_delay p n (k1\<lparr>wait_list_head := h\<rparr>))
       in wait_list k' (ws @ [p]) \<and> task_frame k k'
          \<and> (\<forall>q. task_status (tcbs k' q) = (if q = p then s else task_status (tcbs k q))))"
proof -
  obtain h k1 where k1: "helios_sched_insert_before True (wait_list_head k) p k = Ok (success, h, k1)"
    "node_list True h k1 (ws @ [p])" "link_frame True k k1"
    using insert_before_list [OF l p] by blast
  let ?k2 = "k1\<lparr>wait_list_head := h\<rparr>"
  let ?k' = "set_status p s (set_delay p n ?k2)"
  have "wait_list ?k' (ws @ [p])" using k1(2) by (simp add: node_list_upd)
  moreover have "task_frame k ?k'"
  proof -
    have "task_frame k k1" using k1(3) by (rule link_frame_task_frame)
    also have "task_frame k1 ?k2" by simp
    finally (task_frame_trans) have a: "task_frame k ?k2" .
    have "task_frame ?k2 (set_delay p n ?k2)" by (rule task_frame_upd) (simp add: erase_wait_def)
    with a have b: "task_frame k (set_delay p n ?k2)" by (rule task_frame_trans)
    have "task_frame (set_delay p n ?k2) ?k'" by (rule task_frame_upd) (simp add: erase_wait_def)
    with b show ?thesis by (rule task_frame_trans)
  qed
  moreover have "task_status (tcbs ?k' q) = (if q = p then s else task_status (tcbs k q))" for q
    using link_frame_fields(1) [OF k1(3)] by (simp add: upd_tcb_def)
  ultimately show ?thesis using k1(1) by (simp add: Let_def)
qed

lemma send_to_pause_list:
  assumes "wait_list k ws" and "p \<notin> set ws" "p \<noteq> 0" and "task_status (tcbs k p) \<noteq> task_status_pause"
  shows "\<exists>k'. helios_sched_send_to_pause p k = Ok k' \<and> wait_list k' (ws @ [p]) \<and> task_frame k k'
    \<and> (\<forall>q. task_status (tcbs k' q) = (if q = p then task_status_pause else task_status (tcbs k q)))"
  using enqueue_wait [OF assms(1-3), of task_status_pause HELIOS_DELAY_MAX] assms(3,4)
  by (auto simp: helios_sched_send_to_pause_def Let_def)

lemma send_to_wait_list:
  assumes "wait_list k ws" and "p \<notin> set ws" "p \<noteq> 0" and "task_status (tcbs k p) \<noteq> task_status_wait"
  shows "\<exists>k'. helios_sched_send_to_wait p n k = Ok k' \<and> wait_list k' (ws @ [p]) \<and> task_frame k k'
    \<and> (\<forall>q. task_status (tcbs k' q) = (if q = p then task_status_wait else task_status (tcbs k q)))"
  using enqueue_wait [OF assms(1-3), of task_status_wait n] assms(3,4)
  by (auto simp: helios_sched_send_to_wait_def Let_def)

lemma resume_not_waiting:
  "p \<noteq> 0 \<Longrightarrow> task_status (tcbs k p) < task_status_wait \<Longrightarrow> helios_sched_send_to_resume p k = Ok k"
  by (simp add: helios_sched_send_to_resume_def)

text \<open>Resuming a task of the wait list takes it off, wherever it stands, and makes it ready.\<close>

lemma send_to_resume_list:
  assumes l: "wait_list k (us @ p # vs)" and s: "task_status (tcbs k p) \<ge> task_status_wait"
  shows "\<exists>k'. helios_sched_send_to_resume p k = Ok k' \<and> wait_list k' (us @ vs) \<and> task_frame k k'
    \<and> (\<forall>q. task_status (tcbs k' q) = (if q = p then task_status_ready else task_status (tcbs k q)))"
proof -
  let ?ws = "us @ p # vs"
  have r: "node_ring True k ?ws" and h: "wait_list_head k = hd ?ws"
    using l by (auto simp: node_list_def)
  have d: "distinct ?ws" using r by (rule node_ring_distinct)
  have p0: "p \<noteq> 0" and nz: "0 \<notin> set ?ws" using r by (auto simp: node_ring_def)
  have nx: "get_next True k p = hd (vs @ us @ [p])" and pv: "get_prev True k p = last (p # vs @ us)"
    using r ring_next [of "get_next True k" "get_prev True k" us p vs] by (auto simp: node_ring_def)
  define g where "g = (if us @ vs = [] then 0 else hd (us @ vs))"
  define k1 where "k1 = k\<lparr>wait_list_head := g\<rparr>"
  have hd_ne: "p = hd ?ws \<longleftrightarrow> us = []" using d by (cases us) auto
  have start: "(if p = wait_list_head k
      then if get_next True k p = p \<and> get_prev True k p = p then k\<lparr>wait_list_head := 0\<rparr>
           else k\<lparr>wait_list_head := get_next True k p\<rparr> else k) = k1"
  proof (cases us)
    case Nil
    then show ?thesis using h nx pv d by (cases vs) (auto simp: k1_def g_def)
  next
    case (Cons a us')
    then show ?thesis using h hd_ne by (auto simp: k1_def g_def)
  qed
  have pg: "p \<noteq> g" using d nz p0 by (cases us; cases vs) (auto simp: g_def)
  have hm: "head_moved True p k1 = k1" using pg by (simp add: head_moved_def k1_def)
  have r1: "node_ring True k1 ?ws" using r by (simp add: node_ring_def k1_def)
  obtain k2 where k2: "helios_sched_node_detach True p k1 = Ok (success, k2)" "link_frame True k1 k2"
    "us @ vs \<noteq> [] \<longrightarrow> node_ring True k2 (us @ vs)"
    using detach_node [OF r1] detach_single [of True k1 p] r1 hm by (cases "us @ vs = []") auto
  let ?k' = "set_status p task_status_ready (set_delay p 0 k2)"
  have "wait_list_head k2 = g" using link_frame_fields(6) [OF k2(2)] by (simp add: k1_def)
  then have "wait_list ?k' (us @ vs)" using k2(3) by (simp add: node_list_upd) (simp add: node_list_def g_def)
  moreover have "task_frame k ?k'"
  proof -
    have "task_frame k k1" by (simp add: k1_def)
    from task_frame_trans [OF this link_frame_task_frame [OF k2(2)]] have a: "task_frame k k2" .
    have "task_frame k2 (set_delay p 0 k2)" by (rule task_frame_upd) (simp add: erase_wait_def)
    with a have b: "task_frame k (set_delay p 0 k2)" by (rule task_frame_trans)
    have "task_frame (set_delay p 0 k2) ?k'" by (rule task_frame_upd) (simp add: erase_wait_def)
    with b show ?thesis by (rule task_frame_trans)
  qed
  moreover have "task_status (tcbs ?k' q) = (if q = p then task_status_ready else task_status (tcbs k q))" for q
    using link_frame_fields(1) [OF k2(2)] by (simp add: upd_tcb_def k1_def)
  moreover have "helios_sched_send_to_resume p k = Ok ?k'"
    using s p0 k2(1) start by (simp add: helios_sched_send_to_resume_def not_less Let_def)
  ultimately show ?thesis by blast
qed

section \<open>The ready list stays sorted\<close>

text \<open>The list-level contract of \<open>send_back_of_task_prio\<close>: behind every task of at most the same
  priority that precedes the first one of a greater priority.\<close>

definition prio_insert :: "('a \<Rightarrow> 'p :: linorder) \<Rightarrow> 'a \<Rightarrow> 'a list \<Rightarrow> 'a list" where
  "prio_insert pr n xs =
     takeWhile (\<lambda>p. pr p \<le> pr n) xs @ n # dropWhile (\<lambda>p. pr p \<le> pr n) xs"

lemma set_prio_insert [simp]: "set (prio_insert pr n xs) = insert n (set xs)"
proof -
  have "set xs = set (takeWhile (\<lambda>p. pr p \<le> pr n) xs) \<union> set (dropWhile (\<lambda>p. pr p \<le> pr n) xs)"
    using set_append [of "takeWhile (\<lambda>p. pr p \<le> pr n) xs" "dropWhile (\<lambda>p. pr p \<le> pr n) xs"] by simp
  then show ?thesis by (auto simp: prio_insert_def)
qed

lemma prio_insert_not_Nil [simp]: "prio_insert pr n xs \<noteq> []"
  by (simp add: prio_insert_def)

lemma prio_insert_cong: "(\<And>p. pr p = pr' p) \<Longrightarrow> prio_insert pr n xs = prio_insert pr' n xs"
  by (simp add: prio_insert_def)

lemma sorted_prio_insert:
  assumes "sorted (map pr xs)"
  shows "sorted (map pr (prio_insert pr n xs))"
proof -
  let ?t = "takeWhile (\<lambda>p. pr p \<le> pr n) xs" and ?d = "dropWhile (\<lambda>p. pr p \<le> pr n) xs"
  have s: "sorted (map pr (?t @ ?d))" using assms by simp
  have t: "\<forall>x \<in> set ?t. pr x \<le> pr n" by (auto dest: set_takeWhileD)
  have "\<forall>x \<in> set ?d. pr n \<le> pr x"
  proof (cases ?d)
    case Nil
    then show ?thesis by (simp only: list.set) simp
  next
    case (Cons y ys)
    then have "\<not> pr y \<le> pr n" by (metis dropWhile_eq_Cons_conv)
    moreover have "sorted (map pr (y # ys))" using s Cons by (simp add: sorted_append)
    ultimately show ?thesis using Cons by auto
  qed
  moreover have "sorted (map pr ?t)" "sorted (map pr ?d)"
    using s unfolding map_append sorted_append by simp_all
  ultimately show ?thesis using t by (fastforce simp: prio_insert_def sorted_append)
qed

lemma find_prio_loop_result:
  assumes r: "node_ring False k (us @ vs)" and h: "ready_list_head k = hd (us @ vs)"
    and "vs \<noteq> []" and "length vs \<le> f"
  shows "find_prio_loop f prio (hd vs) least k =
    (let rest = dropWhile (\<lambda>p. priority (tcbs k p) \<le> prio) vs
     in Ok (if rest = [] then (hd (us @ vs), False)
            else (hd rest, least \<and> \<not> priority (tcbs k (hd vs)) \<le> prio)))"
  using assms
proof (induction vs arbitrary: us f least)
  case (Cons v vs)
  obtain f' where f: "f = Suc f'" using Cons.prems(4) by (cases f) auto
  have v0: "v \<noteq> 0" using Cons.prems(1) by (auto simp: node_ring_def)
  have nx: "get_next False k v = hd (vs @ us @ [v])"
    using Cons.prems(1) ring_next(1) unfolding node_ring_def by fast
  show ?case
  proof (cases "priority (tcbs k v) \<le> prio")
    case False
    then show ?thesis using f v0 by simp
  next
    case True
    show ?thesis
    proof (cases vs)
      case Nil
      then have "get_next False k v = hd (us @ [v])" using nx by simp
      then show ?thesis using f v0 True Cons.prems(2) Nil by simp
    next
      case (Cons w ws)
      have "distinct (us @ v # vs)" using Cons.prems(1) by (rule node_ring_distinct)
      then have ne: "w \<noteq> hd (us @ v # vs)" using \<open>vs = w # ws\<close> by (cases us) auto
      have "find_prio_loop f' prio (hd vs) False k =
        (let rest = dropWhile (\<lambda>p. priority (tcbs k p) \<le> prio) vs
         in Ok (if rest = [] then (hd ((us @ [v]) @ vs), False)
                else (hd rest, False \<and> \<not> priority (tcbs k (hd vs)) \<le> prio)))"
        using Cons.prems f \<open>vs = w # ws\<close> by (intro Cons.IH) simp_all
      then show ?thesis
        using f v0 True nx ne Cons.prems(2) \<open>vs = w # ws\<close> by (simp add: Let_def hd_append)
    qed
  qed
qed simp

text \<open>Linking \<open>n\<close> in at the place the search found: the node in front of which it goes, or the head
  when every node was passed.\<close>

lemma insert_at_prio:
  assumes r: "node_ring False k ys" and n: "n \<notin> set ys" "n \<noteq> 0" and ne: "ys \<noteq> []"
    and rest: "rest = dropWhile (\<lambda>p. priority (tcbs k p) \<le> priority (tcbs k n)) ys"
  shows "\<exists>k'. helios_sched_insert_before False (if rest = [] then hd ys else hd rest) n k
      = Ok (success, if rest = [] then hd ys else hd rest, k')
    \<and> node_ring False k' (prio_insert (\<lambda>p. priority (tcbs k p)) n ys) \<and> link_frame False k k'"
proof (cases rest)
  case Nil
  obtain y ys' where ys: "ys = y # ys'" using ne by (cases ys) auto
  obtain k' where k': "helios_sched_insert_before False y n k = Ok (success, y, k')"
    "node_ring False k' (n # ys)" "link_frame False k k'"
    using insert_before_node [of False k "[]" y ys' n] r n ys by auto
  have "node_ring False k' (ys @ [n])"
    using k'(2) by (auto simp only: node_ring_def ring_rotate1 set_append list.set)
  moreover have "prio_insert (\<lambda>p. priority (tcbs k p)) n ys = ys @ [n]"
    using Nil rest by (simp add: prio_insert_def takeWhile_eq_all_conv dropWhile_eq_Nil_conv)
  ultimately show ?thesis using k' Nil ys by auto
next
  case (Cons q qs)
  let ?t = "takeWhile (\<lambda>p. priority (tcbs k p) \<le> priority (tcbs k n)) ys"
  have ys: "ys = ?t @ q # qs" using rest Cons takeWhile_dropWhile_id by metis
  obtain k' where k': "helios_sched_insert_before False q n k = Ok (success, q, k')"
    "node_ring False k' (?t @ n # q # qs)" "link_frame False k k'"
    using insert_before_node [of False k ?t q qs n] r n ys by metis
  have "prio_insert (\<lambda>p. priority (tcbs k p)) n ys = ?t @ n # q # qs"
    using Cons rest by (simp add: prio_insert_def)
  then show ?thesis using k' Cons by auto
qed

text \<open>A new node (its ready links are equal, as in cleared memory) is put in its place by
  priority; the head moves to it exactly when it is the least.\<close>

lemma send_back_new:
  assumes l: "ready_list k xs" and ne: "xs \<noteq> []" and n: "n \<notin> set xs" "n \<noteq> 0"
    and new: "get_next False k n = get_prev False k n" and f: "length xs \<le> f"
  shows "\<exists>k1 k'. helios_sched_send_back_of_task_prio f n k = Ok (success, k')
    \<and> ready_list k' (prio_insert (\<lambda>p. priority (tcbs k p)) n xs)
    \<and> (\<exists>h. k1 = k\<lparr>ready_list_head := h\<rparr>) \<and> link_frame False k1 k'"
proof -
  let ?pr = "\<lambda>p. priority (tcbs k p)"
  define rest where "rest = dropWhile (\<lambda>p. ?pr p \<le> ?pr n) xs"
  define least where "least = (\<not> ?pr (hd xs) \<le> ?pr n)"
  define k1 where "k1 = (if least then k\<lparr>ready_list_head := n\<rparr> else k)"
  have r: "node_ring False k xs" and h: "ready_list_head k = hd xs"
    using l ne by (simp_all add: node_list_def)
  have nh: "hd xs \<noteq> 0" "n \<noteq> hd xs" using r n hd_in_set [OF ne] by (auto simp: node_ring_def)
  have loop: "find_prio_loop f (?pr n) (hd xs) True k =
      Ok (if rest = [] then (hd xs, False) else (hd rest, least))"
    using find_prio_loop_result [of k "[]" xs f "?pr n" True] r h ne f
    by (simp add: rest_def least_def Let_def)
  have k1: "tcbs k1 = tcbs k" "get_next False k1 = get_next False k" "get_prev False k1 = get_prev False k"
    by (simp_all add: k1_def)
  have r1: "node_ring False k1 xs" using r by (simp add: node_ring_def k1)
  obtain k' where k': "helios_sched_insert_before False (if rest = [] then hd xs else hd rest) n k1
      = Ok (success, if rest = [] then hd xs else hd rest, k')"
    "node_ring False k' (prio_insert ?pr n xs)" "link_frame False k1 k'"
    using insert_at_prio [OF r1 n ne, of rest] by (auto simp: k1 rest_def)
  have nl: "rest = [] \<Longrightarrow> \<not> least" using ne by (cases xs) (auto simp: rest_def least_def split: if_splits)
  have "helios_sched_send_back_of_task_prio f n k = Ok (success, k')"
    using loop nh n h new k'(1) nl k1
    by (auto simp: helios_sched_send_back_of_task_prio_def k1_def Let_def split: if_splits)
  moreover have "ready_list_head k' = hd (prio_insert ?pr n xs)"
  proof -
    have "ready_list_head k1 = (if least then n else hd xs)" using h by (simp add: k1_def)
    moreover have "hd (prio_insert ?pr n xs) = (if least then n else hd xs)"
      using ne by (cases xs) (auto simp: prio_insert_def least_def)
    ultimately show ?thesis using link_frame_fields(5) [OF k'(3)] by simp
  qed
  moreover have "\<exists>h. k1 = k\<lparr>ready_list_head := h\<rparr>"
    by (auto simp: k1_def intro: exI [of _ "ready_list_head k"])
  ultimately show ?thesis using k' by (auto simp: node_list_def)
qed

text \<open>The insertion leaves the ready links of every node outside the list as they are.\<close>

lemma insert_before_outside:
  assumes "helios_sched_insert_before w p n k = Ok (s, p', k')" and "q \<noteq> n" and "q \<noteq> p" and "q \<noteq> get_prev w k p"
  shows "get_next w k' q = get_next w k q \<and> get_prev w k' q = get_prev w k q"
  using assms by (cases w)
    (auto simp: helios_sched_insert_before_def Let_def require_def rl.link_laws wl.link_laws split: if_splits)

lemma ring_prev_in:
  assumes "node_ring w k xs" and "x \<in> set xs"
  shows "get_prev w k x \<in> set xs"
proof -
  obtain us vs where xs: "xs = us @ x # vs" using assms(2) by (meson split_list)
  then have "get_prev w k x = last (x # vs @ us)" using assms(1) ring_next(2) by (fastforce simp: node_ring_def)
  then show ?thesis using last_in_set [of "x # vs @ us"] xs by auto
qed

lemma send_back_new_outside:
  assumes l: "ready_list k xs" and ne: "xs \<noteq> []" and n: "n \<notin> set xs" "n \<noteq> 0"
    and new: "get_next False k n = get_prev False k n" and f: "length xs \<le> f"
    and res: "helios_sched_send_back_of_task_prio f n k = Ok (s, k')" and q: "q \<notin> set xs" "q \<noteq> n"
  shows "get_next False k' q = get_next False k q \<and> get_prev False k' q = get_prev False k q"
proof -
  let ?pr = "\<lambda>p. priority (tcbs k p)"
  let ?rest = "dropWhile (\<lambda>p. ?pr p \<le> ?pr n) xs"
  define r least where "r = (if ?rest = [] then hd xs else hd ?rest)"
    and "least = (?rest \<noteq> [] \<and> \<not> ?pr (hd xs) \<le> ?pr n)"
  define k1 where "k1 = (if least then k\<lparr>ready_list_head := n\<rparr> else k)"
  have rg: "node_ring False k xs" and h: "ready_list_head k = hd xs"
    using l ne by (simp_all add: node_list_def)
  have nh: "hd xs \<noteq> 0" "n \<noteq> hd xs" using rg n hd_in_set [OF ne] by (auto simp: node_ring_def)
  have "r \<in> set xs"
    using ne set_dropWhileD [OF hd_in_set, of "\<lambda>p. ?pr p \<le> ?pr n" xs] by (auto simp: r_def)
  then have "get_prev False k r \<in> set xs" by (rule ring_prev_in [OF rg])
  with \<open>r \<in> set xs\<close> q have out: "q \<noteq> r" "q \<noteq> get_prev False k1 r" by (auto simp: k1_def)
  have "find_prio_loop f (?pr n) (hd xs) True k = Ok (r, least)"
    using find_prio_loop_result [of k "[]" xs f "?pr n" True] rg h ne f
    by (simp add: r_def least_def Let_def)
  then have "obind (helios_sched_insert_before False r n k1) (\<lambda>(_, _, k3). Ok (success, k3)) = Ok (s, k')"
    using res nh n h new by (simp add: helios_sched_send_back_of_task_prio_def k1_def Let_def split: if_splits)
  then obtain s2 p2 where "helios_sched_insert_before False r n k1 = Ok (s2, p2, k')"
    by (cases "helios_sched_insert_before False r n k1") auto
  from insert_before_outside [OF this q(2) out] show ?thesis by (simp add: k1_def split: if_splits)
qed

lemma dropWhile_skip:
  assumes "P n"
  shows "hd (dropWhile P (us @ n # vs)) = hd (dropWhile P (us @ vs)) \<and>
    (dropWhile P (us @ n # vs) = [] \<longleftrightarrow> dropWhile P (us @ vs) = [])"
  using assms by (induction us) auto

text \<open>A node of a ready list of at least three, not its head, goes to the end of its priority
  group.\<close>

lemma send_back_existing:
  assumes l: "ready_list k (us @ n # vs)" and us: "us \<noteq> []" and three: "2 \<le> length (us @ vs)"
    and low: "priority (tcbs k (hd us)) \<le> priority (tcbs k n)" and f: "length (us @ n # vs) \<le> f"
  shows "\<exists>k'. helios_sched_send_back_of_task_prio f n k = Ok (success, k')
    \<and> ready_list k' (prio_insert (\<lambda>p. priority (tcbs k p)) n (us @ vs)) \<and> link_frame False k k'"
proof -
  let ?pr = "\<lambda>p. priority (tcbs k p)" and ?xs = "us @ n # vs" and ?ys = "us @ vs"
  define rest where "rest = dropWhile (\<lambda>p. ?pr p \<le> ?pr n) ?ys"
  have r: "node_ring False k ?xs" and h: "ready_list_head k = hd us"
    using l us by (simp_all add: node_list_def)
  have d: "distinct ?xs" using r by (rule node_ring_distinct)
  have hn: "n \<noteq> 0" "hd us \<noteq> 0" "n \<noteq> hd us"
    using r d hd_in_set [OF us] by (auto simp: node_ring_def)
  have "get_next False k n = hd (vs @ us @ [n])" "get_prev False k n = last (n # vs @ us)"
    using r ring_next unfolding node_ring_def by fast+
  moreover have "hd (vs @ us @ [n]) \<noteq> last (n # vs @ us)"
  proof -
    have "2 \<le> length (vs @ us)" using three by simp
    then obtain a b cs where abc: "vs @ us = a # b # cs"
      unfolding numeral_2_eq_2 Suc_le_length_iff by blast
    then have "hd (vs @ us @ [n]) = a" by (metis append.assoc append_Cons list.sel(1))
    moreover have "last (n # vs @ us) \<in> set (b # cs)" using abc last_in_set [of "b # cs"] by simp
    moreover have "distinct (a # b # cs)" using d unfolding abc [symmetric] by auto
    ultimately show ?thesis by auto
  qed
  ultimately have old: "get_next False k n \<noteq> get_prev False k n" by simp
  have loop: "find_prio_loop f (?pr n) (hd us) True k = Ok (if rest = [] then (hd us, False) else (hd rest, False))"
    using find_prio_loop_result [of k "[]" ?xs f "?pr n" True] r h us f low
      dropWhile_skip [of "\<lambda>p. ?pr p \<le> ?pr n" n us vs]
    by (simp add: rest_def Let_def)
  obtain k2 where k2: "helios_sched_node_detach False n k = Ok (success, k2)"
    "node_ring False k2 ?ys" "link_frame False k k2"
    using detach_node [OF r] us hn h by (auto simp: head_moved_def)
  have pr: "priority (tcbs k2 p) = ?pr p" for p using link_frame_fields(2) [OF k2(3)] .
  obtain k' where k': "helios_sched_insert_before False (if rest = [] then hd ?ys else hd rest) n k2
      = Ok (success, if rest = [] then hd ?ys else hd rest, k')"
    "node_ring False k' (prio_insert ?pr n ?ys)" "link_frame False k2 k'"
    using insert_at_prio [OF k2(2), of n rest] d hn us by (auto simp: pr rest_def)
  have fr: "link_frame False k k'" using k2(3) k'(3) by (rule link_frame_trans)
  have "helios_sched_send_back_of_task_prio f n k = Ok (success, k')"
    using loop hn h old k2(1) k'(1) us
    by (auto simp: helios_sched_send_back_of_task_prio_def Let_def split: if_splits)
  moreover have "hd (prio_insert ?pr n ?ys) = hd us"
    using low us by (cases us) (auto simp: prio_insert_def)
  ultimately show ?thesis
    using k'(2) fr link_frame_fields(5) [OF fr] h by (auto simp: node_list_def)
qed

section \<open>Properties\<close>

text \<open>Pausing a task that is neither paused nor on the wait list appends it to the wait list and
  marks it paused; resuming any task of the wait list takes it off again and marks it ready. A
  pause followed by a resume restores the wait list and leaves the ready list untouched.\<close>

theorem pause_resume_roundtrip:
  assumes "wait_list k ws" and "ready_list k xs" and "p \<notin> set ws" and "p \<noteq> 0"
    and "task_status (tcbs k p) = task_status_ready"
  shows "\<exists>k1 k2. helios_sched_send_to_pause p k = Ok k1 \<and> wait_list k1 (ws @ [p])
    \<and> task_status (tcbs k1 p) = task_status_pause
    \<and> helios_sched_send_to_resume p k1 = Ok k2 \<and> wait_list k2 ws \<and> ready_list k2 xs
    \<and> (\<forall>q. task_status (tcbs k2 q) = task_status (tcbs k q))"
proof -
  obtain k1 where k1: "helios_sched_send_to_pause p k = Ok k1" "wait_list k1 (ws @ [p])" "task_frame k k1"
    "\<forall>q. task_status (tcbs k1 q) = (if q = p then task_status_pause else task_status (tcbs k q))"
    using send_to_pause_list [OF assms(1,3,4)] assms(5) by auto
  have "task_status (tcbs k1 p) \<ge> task_status_wait"
    using k1(4) by (simp add: less_eq_task_status_t_def)
  then obtain k2 where k2: "helios_sched_send_to_resume p k1 = Ok k2" "wait_list k2 ws" "task_frame k1 k2"
    "\<forall>q. task_status (tcbs k2 q) = (if q = p then task_status_ready else task_status (tcbs k1 q))"
    using send_to_resume_list [of k1 ws p "[]"] k1(2) by auto
  have "ready_list k2 xs"
    using task_frame_ready_list [OF task_frame_trans [OF k1(3) k2(3)]] assms(2) by simp
  then show ?thesis using k1 k2 assms(5) by auto
qed

text \<open>A kernel for the witnesses: the tasks 16, 32 and 48 of priorities 1, 2 and 2 linked in this
  order, all ready, the wait list empty.\<close>

definition demo_tcb :: "u8 \<Rightarrow> ptr \<Rightarrow> ptr \<Rightarrow> tcb" where
  "demo_tcb pr pv nx = \<lparr>tcb_name = 1, priority = pr, task_flags = 0, stack_ptr = 0, task_func = 4,
     args_ptr = 0, wait_res = \<lparr>wait_on_resource = 0, task_delay_ticks = 0\<rparr>,
     ready_link = \<lparr>link_prev = pv, link_next = nx\<rparr>, wait_link = \<lparr>link_prev = 0, link_next = 0\<rparr>,
     task_id = 0, task_wd_ticks = - 1, task_status = task_status_ready\<rparr>"

definition demo_kernel :: kernel where
  "demo_kernel = \<lparr>tcbs = (\<lambda>p. if p = 16 then demo_tcb 1 48 32 else if p = 32 then demo_tcb 2 16 48
       else if p = 48 then demo_tcb 2 32 16 else demo_tcb 2 0 0),
     ready_list_head = 16, curr_task = 0, wait_list_head = 0, selected_sched = Some 0,
     pre_sched = True, deadlock_notify = 0, notified = [], task_id_gen = 3, sync_val = (\<lambda>_. 0),
     sync_init = (\<lambda>_. 0), lock_task = (\<lambda>_. 0), kheap = demo_heap 400, anti_deadlock = False\<rparr>"

lemma demo_ready: "ready_list demo_kernel [16, 32, 48]"
  by (simp add: node_list_def node_ring_def demo_kernel_def demo_tcb_def get_next_def get_prev_def)

lemma demo_wait: "wait_list demo_kernel []"
  by (simp add: node_list_def demo_kernel_def)

theorem pause_resume_roundtrip_witness:
  "\<exists>k1 k2. helios_sched_send_to_pause 32 demo_kernel = Ok k1 \<and> wait_list k1 [32]
    \<and> helios_sched_send_to_resume 32 k1 = Ok k2 \<and> wait_list k2 [] \<and> ready_list k2 [16, 32, 48]"
  using pause_resume_roundtrip [OF demo_wait demo_ready, of 32]
  by (simp add: demo_kernel_def demo_tcb_def) blast

text \<open>C3: \<open>_helios_sched_send_back_of_task_prio\<close> on a new task puts it into the circular ready list
  behind every task of at most its priority and in front of the first one of a greater priority;
  the list stays sorted by priority and its head is the least task.\<close>

theorem send_back_new_sorted:
  assumes "ready_list k xs" and "xs \<noteq> []" and "n \<notin> set xs" and "n \<noteq> 0"
    and "get_next False k n = get_prev False k n" and "length xs \<le> fuel"
    and "sorted (map (\<lambda>p. priority (tcbs k p)) xs)"
  shows "\<exists>k' ys. helios_sched_send_back_of_task_prio fuel n k = Ok (success, k')
    \<and> ys = prio_insert (\<lambda>p. priority (tcbs k p)) n xs \<and> ready_list k' ys
    \<and> sorted (map (\<lambda>p. priority (tcbs k' p)) ys)"
proof -
  obtain k1 k' h where k': "helios_sched_send_back_of_task_prio fuel n k = Ok (success, k')"
    "ready_list k' (prio_insert (\<lambda>p. priority (tcbs k p)) n xs)"
    "k1 = k\<lparr>ready_list_head := h\<rparr>" "link_frame False k1 k'"
    using send_back_new [OF assms(1-6)] by blast
  have "priority (tcbs k' p) = priority (tcbs k p)" for p
    using link_frame_fields(2) [OF k'(4)] k'(3) by simp
  then show ?thesis using k' sorted_prio_insert [OF assms(7)] by auto
qed

theorem send_back_new_sorted_witness:
  "\<exists>k'. helios_sched_send_back_of_task_prio 3 64 demo_kernel = Ok (success, k')
    \<and> ready_list k' [16, 32, 48, 64]"
proof -
  have "prio_insert (\<lambda>p. priority (tcbs demo_kernel p)) 64 [16, 32, 48] = [16, 32, 48, 64]"
    by (simp add: prio_insert_def demo_kernel_def demo_tcb_def)
  then show ?thesis
    using send_back_new_sorted [OF demo_ready, of 64 3]
    by (simp add: get_next_def get_prev_def) (simp add: demo_kernel_def demo_tcb_def, blast)
qed

lemma set_status_ready_list: "ready_list (set_status p s k) xs \<longleftrightarrow> ready_list k xs"
  by (simp add: node_list_upd)

text \<open>C31: The hook that runs before a scheduling decision, in the case that the deadlock detection is compiled out, no task
  is waiting, the ready list has at least three tasks, the current task is not its head and its priority is not below the
  head's: the hook returns, has moved the current task to the end of its priority group and marked it ready, and the ready
  list keeps its tasks. (With waiting tasks, with two tasks or with the detection compiled in the hook behaves otherwise.)\<close>

theorem pre_sched_requeues:
  assumes "ready_list k (us @ curr_task k # vs)" and "us \<noteq> []" and "2 \<le> length (us @ vs)"
    and "priority (tcbs k (hd us)) \<le> priority (tcbs k (curr_task k))" and "wait_list k []"
    and "\<not> anti_deadlock k" and "length (us @ curr_task k # vs) \<le> fuel"
  shows "\<exists>k'. helios_pre_sched fuel k = Ok k'
    \<and> ready_list k' (prio_insert (\<lambda>p. priority (tcbs k p)) (curr_task k) (us @ vs))
    \<and> task_status (tcbs k' (curr_task k)) = task_status_ready \<and> curr_task k' = curr_task k"
proof -
  let ?c = "curr_task k"
  let ?k1 = "set_status ?c task_status_ready k"
  have c0: "?c \<noteq> 0" using assms(1) by (auto simp: node_list_def node_ring_def)
  have pr: "priority (tcbs ?k1 p) = priority (tcbs k p)" for p by (simp add: upd_tcb_def)
  have "ready_list ?k1 (us @ ?c # vs)" using assms(1) by (simp only: set_status_ready_list)
  from send_back_existing [OF this assms(2,3) _ assms(7)] assms(4) pr obtain k' where
    k': "helios_sched_send_back_of_task_prio fuel ?c ?k1 = Ok (success, k')"
    "ready_list k' (prio_insert (\<lambda>p. priority (tcbs k p)) ?c (us @ vs))" "link_frame False ?k1 k'" by auto
  have "wait_list_head k = 0" using assms(5) by (simp add: node_list_def)
  then have "helios_pre_sched fuel k = Ok k'"
    using c0 assms(6) k'(1)
    by (simp add: helios_pre_sched_def helios_sched_wait_list_adjustment_def
        helios_sched_deadlock_adjustment_and_detection_def)
  moreover have "task_status (tcbs k' ?c) = task_status_ready" "curr_task k' = ?c"
    using link_frame_fields [OF k'(3)] by (simp_all add: upd_tcb_def)
  ultimately show ?thesis using k'(2) by blast
qed

theorem pre_sched_requeues_witness:
  "\<exists>k'. helios_pre_sched 3 (demo_kernel\<lparr>curr_task := 32\<rparr>) = Ok k' \<and> ready_list k' [16, 48, 32]"
proof -
  let ?k = "demo_kernel\<lparr>curr_task := 32\<rparr>"
  have "ready_list ?k ([16] @ curr_task ?k # [48])" and "wait_list ?k []"
    by (simp_all add: node_list_def node_ring_def demo_kernel_def demo_tcb_def get_next_def get_prev_def)
  moreover have "prio_insert (\<lambda>p. priority (tcbs ?k p)) (curr_task ?k) ([16] @ [48]) = [16, 48, 32]"
    by (simp add: prio_insert_def demo_kernel_def demo_tcb_def)
  ultimately show ?thesis
    using pre_sched_requeues [of ?k "[16]" "[48]" 3]
    by (simp add: demo_kernel_def demo_tcb_def) blast
qed

text \<open>With exactly two tasks, the same step destroys the ready list: the current task's links
  look like those of a new node, it is inserted without being unlinked and ends up pointing to
  itself, so that no circular list starts at the head any more.\<close>

theorem send_back_two_tasks_breaks:
  assumes "ready_list k [h, n]" and "priority (tcbs k h) \<le> priority (tcbs k n)" and "2 \<le> fuel"
  shows "\<exists>k'. helios_sched_send_back_of_task_prio fuel n k = Ok (success, k')
    \<and> get_next False k' n = n \<and> ready_list_head k' = h \<and> (\<nexists>xs. ready_list k' xs)"
proof -
  have l: "h \<noteq> 0" "n \<noteq> 0" "h \<noteq> n" "ready_list_head k = h" "node_ring False k [h, n]"
    "get_next False k h = n" "get_next False k n = h" "get_prev False k h = n" "get_prev False k n = h"
    using assms(1) by (auto simp: node_list_def node_ring_def)
  have "dropWhile (\<lambda>p. priority (tcbs k p) \<le> priority (tcbs k n)) [h, n] = []" using assms(2) by simp
  then have loop: "find_prio_loop fuel (priority (tcbs k n)) h True k = Ok (h, False)"
    using find_prio_loop_result [of k "[]" "[h, n]" fuel "priority (tcbs k n)" True] l assms(3)
    by (simp only: append_Nil list.sel Let_def) simp
  define k' where "k' = set_next False n n (set_prev False h n (set_prev False n n (set_next False n h k)))"
  have code: "helios_sched_send_back_of_task_prio fuel n k = Ok (success, k')"
    using loop l by (simp add: helios_sched_send_back_of_task_prio_def helios_sched_insert_before_def
        Let_def k'_def)
  have nx: "get_next False k' n = n" by (simp add: k'_def)
  have hd': "ready_list_head k' = h"
    using l by (simp add: k'_def set_next_def set_prev_def)
  have nh: "get_next False k' h = n" using l by (simp add: k'_def)
  have False if "ready_list k' xs" for xs
  proof -
    have r: "node_ring False k' xs" and x: "xs \<noteq> []" "hd xs = h"
      using that hd' l by (auto simp: node_list_def split: if_splits)
    obtain ys where ys: "xs = h # ys" using x by (cases xs) auto
    have d: "distinct xs" using r by (rule node_ring_distinct)
    have "n = hd (ys @ [h])"
      using ring_next(1) [of _ _ "[]" h ys] r nh ys by (auto simp: node_ring_def simp del: ring.simps)
    then obtain zs where zs: "ys = n # zs" using l by (cases ys) auto
    have "n = hd (zs @ [h] @ [n])"
      using ring_next(1) [of _ _ "[h]" n zs] r nx ys zs by (auto simp: node_ring_def simp del: ring.simps)
    then show False using d ys zs l by (cases zs) auto
  qed
  then show ?thesis using code nx hd' by auto
qed

theorem send_back_two_tasks_breaks_witness:
  "\<exists>k'. helios_sched_send_back_of_task_prio 2 32
      (demo_kernel\<lparr>tcbs := (\<lambda>p. if p = 16 then demo_tcb 1 32 32 else demo_tcb 2 16 16)\<rparr>) = Ok (success, k')
    \<and> (\<nexists>xs. ready_list k' xs)"
proof -
  let ?k = "demo_kernel\<lparr>tcbs := (\<lambda>p. if p = 16 then demo_tcb 1 32 32 else demo_tcb 2 16 16)\<rparr>"
  have "ready_list ?k [16, 32]"
    by (simp add: node_list_def node_ring_def demo_kernel_def demo_tcb_def get_next_def get_prev_def)
  then show ?thesis
    using send_back_two_tasks_breaks [of ?k 16 32 2] by (simp add: demo_kernel_def demo_tcb_def) blast
qed

lemma deadlock_tick_links:
  "get_next w (deadlock_tick p k) = get_next w k" "ready_list_head (deadlock_tick p k) = ready_list_head k"
  by (auto simp: deadlock_tick_def Let_def upd_tcb_def get_next_def fun_eq_iff)

lemma deadlock_loop_hangs:
  "p \<noteq> 0 \<Longrightarrow> get_next False k p \<noteq> ready_list_head k \<Longrightarrow> deadlock_loop f p k = Hang"
  by (induction f arbitrary: k) (simp_all add: deadlock_tick_links Let_def)



text \<open>C10: The priority-driven algorithm, on a ready list sorted by priority whose last task is
  ready, marks that task running and changes nothing else: it is a task of the greatest
  priority.\<close>

theorem priority_driven_picks_greatest:
  assumes "ready_list k (xs @ [z])" and "sorted (map (\<lambda>p. priority (tcbs k p)) (xs @ [z]))"
    and "task_status (tcbs k z) = task_status_ready" and "0 < fuel"
  shows "helios_sched_algo_priority_driven_fn fuel k = Ok (set_status z task_status_running k)
    \<and> (\<forall>p \<in> set (xs @ [z]). priority (tcbs k p) \<le> priority (tcbs k z))"
proof -
  have r: "node_ring False k (xs @ [z])" "ready_list_head k = hd (xs @ [z])"
    using assms(1) by (simp_all add: node_list_def)
  have "get_prev False k (hd (xs @ [z])) = z"
    using r(1) unfolding node_ring_def ring_iff by simp
  moreover have "z \<noteq> 0" using r(1) by (auto simp: node_ring_def)
  moreover have "hd (xs @ [z]) \<noteq> 0"
    using node_list_head_nz [OF assms(1)] r(2) by simp
  moreover have "priority_loop fuel z k = Ok (z, k)"
    using assms(3,4) \<open>z \<noteq> 0\<close> by (cases fuel) simp_all
  ultimately have "helios_sched_algo_priority_driven_fn fuel k = Ok (set_status z task_status_running k)"
    using r(2) by (simp add: helios_sched_algo_priority_driven_fn_def helios_sched_context_switch_def)
  then show ?thesis using assms(2) by (auto simp: sorted_append)
qed

theorem priority_driven_picks_greatest_witness:
  "helios_sched_algo_priority_driven_fn 1 demo_kernel = Ok (set_status 48 task_status_running demo_kernel)"
  using priority_driven_picks_greatest [of demo_kernel "[16, 32]" 48 1] demo_ready
  by (simp add: demo_kernel_def demo_tcb_def)

text \<open>The round-robin algorithm, when the successor of the current task is ready (and is not the
  idle task at the head), marks running not that successor but the task after it.\<close>

theorem round_robin_skips_successor:
  assumes "ready_list k (us @ curr_task k # p # q # vs)" and "task_status (tcbs k p) = task_status_ready"
  shows "helios_sched_algo_round_robin_fn k = Ok (set_status q task_status_running k) \<and> q \<noteq> p"
proof -
  let ?c = "curr_task k"
  have r: "node_ring False k (us @ ?c # p # q # vs)" and h: "ready_list_head k = hd (us @ ?c # p # q # vs)"
    using assms(1) by (auto simp: node_list_def)
  have d: "distinct (us @ ?c # p # q # vs)" using r by (rule node_ring_distinct)
  have nz: "?c \<noteq> 0" "p \<noteq> 0" "q \<noteq> 0" using r by (auto simp: node_ring_def)
  have "get_next False k ?c = p" "get_next False k p = q"
    using r ring_next(1) [of "get_next False k" "get_prev False k" us ?c "p # q # vs"]
      ring_next(1) [of "get_next False k" "get_prev False k" "us @ [?c]" p "q # vs"]
    by (simp_all add: node_ring_def)
  moreover have "p \<noteq> ready_list_head k" using d h by (cases us) auto
  ultimately show ?thesis
    using nz assms(2) d by (auto simp: helios_sched_algo_round_robin_fn_def helios_sched_context_switch_def)
qed

theorem round_robin_skips_successor_witness:
  "helios_sched_algo_round_robin_fn (demo_kernel\<lparr>curr_task := 16\<rparr>)
    = Ok (set_status 48 task_status_running (demo_kernel\<lparr>curr_task := 16\<rparr>))"
proof -
  have "ready_list (demo_kernel\<lparr>curr_task := 16\<rparr>)
      ([] @ curr_task (demo_kernel\<lparr>curr_task := 16\<rparr>) # 32 # 48 # [])"
    by (simp add: node_list_def node_ring_def demo_kernel_def demo_tcb_def get_next_def get_prev_def)
  from round_robin_skips_successor [OF this] show ?thesis
    by (simp add: demo_kernel_def demo_tcb_def)
qed

end
