(* ===== verification/Helios_Tasks.thy ===== *)
theory Helios_Tasks
  imports Helios_Sched
begin

text \<open>
  The task interface of the Helios kernel (\<open>helios_tasks.c\<close>) and its idle task
  (\<open>helios_task_idle.c\<close>), over the scheduler state of \<open>Helios_Sched\<close>.

  The address of the idle function and of its name are link-time constants and are arguments of
  the definitions that use them. A handle \<open>*helios_task\<close> that a function writes is passed in and
  returned. The endless loop of the idle task is given by its body.
\<close>

section \<open>Helpers\<close>

abbreviation (input) HELIOS_PRIORITY_MAX :: u8 where
  "HELIOS_PRIORITY_MAX \<equiv> 255"

abbreviation (input) HELIOS_IDLE_TASK_PRIORITY :: u8 where
  "HELIOS_IDLE_TASK_PRIORITY \<equiv> 1"

abbreviation (input) HELIOS_IDLE_TASK_STACK_LEN :: size_t where
  "HELIOS_IDLE_TASK_STACK_LEN \<equiv> 255"

text \<open>\<open>sizeof(helios_sched_tcb_t)\<close> with 4-byte pointers and enumerations; the tick counter is a field only in a build with deadlock
  detection.\<close>

definition sizeof_tcb :: "kernel \<Rightarrow> size_t" where
  "sizeof_tcb k = (if anti_deadlock k then 56 else 52)"

definition helios_init_scheduler :: "kernel \<Rightarrow> kernel" where
  "helios_init_scheduler k = k\<lparr>pre_sched := True, curr_task := ready_list_head k\<rparr>"

definition helios_task_id_generate :: "kernel \<Rightarrow> u16 \<times> kernel" where
  "helios_task_id_generate k = (task_id_gen k + 1, k\<lparr>task_id_gen := task_id_gen k + 1\<rparr>)"

fun get_tcb_loop :: "nat \<Rightarrow> u16 \<Rightarrow> ptr \<Rightarrow> kernel \<Rightarrow> ptr outcome" where
  "get_tcb_loop 0 tid p k = Hang"
| "get_tcb_loop (Suc n) tid p k =
     require (p \<noteq> NULL) Null_deref
       (if get_next HELIOS_LINK_READY k p \<noteq> ready_list_head k
        then if task_id (tcbs k p) = tid then Ok p
             else get_tcb_loop n tid (get_next HELIOS_LINK_READY k p) k
        else Ok NULL)"

definition helios_get_tcb_using_task_id :: "nat \<Rightarrow> u16 \<Rightarrow> kernel \<Rightarrow> ptr outcome" where
  "helios_get_tcb_using_task_id fuel tid k = get_tcb_loop fuel tid (ready_list_head k) k"

definition helios_set_task_flag :: "ptr \<Rightarrow> u8 \<Rightarrow> bool \<Rightarrow> kernel \<Rightarrow> status_t \<times> kernel" where
  "helios_set_task_flag p flag en k =
     (if p = NULL then (error_func_inval_arg, k)
      else (success, upd_tcb p (\<lambda>t. t\<lparr>task_flags := (if en then task_flags t OR flag
                                                     else task_flags t AND NOT flag)\<rparr>) k))"

definition helios_is_task_flag :: "ptr \<Rightarrow> u8 \<Rightarrow> kernel \<Rightarrow> bool" where
  "helios_is_task_flag p flag k = (p \<noteq> NULL \<and> task_flags (tcbs k p) AND flag = 0)"

abbreviation (input) helios_task_flag_set_anti_deadlock :: u8 where
  "helios_task_flag_set_anti_deadlock \<equiv> 1"

section \<open>Pausing and resuming\<close>

fun pause_all_loop :: "nat \<Rightarrow> ptr \<Rightarrow> kernel \<Rightarrow> kernel outcome" where
  "pause_all_loop 0 p k = Hang"
| "pause_all_loop (Suc n) p k =
     (if p = curr_task k then pause_all_loop n p k
      else obind (helios_sched_send_to_pause p k) (\<lambda>k1.
        let p' = get_next HELIOS_LINK_READY k1 p
        in if p' = ready_list_head k1 then Ok k1 else pause_all_loop n p' k1))"

definition helios_pause_all_task :: "nat \<Rightarrow> kernel \<Rightarrow> (status_t \<times> kernel) outcome" where
  "helios_pause_all_task fuel k =
     (if ready_list_head k \<noteq> NULL
      then obind (pause_all_loop fuel (ready_list_head k) k) (\<lambda>k1. Ok (success, k1))
      else Ok (success, k))"

fun resume_all_loop :: "nat \<Rightarrow> ptr \<Rightarrow> kernel \<Rightarrow> kernel outcome" where
  "resume_all_loop 0 p k = Hang"
| "resume_all_loop (Suc n) p k =
     (let p' = get_next HELIOS_LINK_READY k p
      in obind (helios_sched_send_to_resume p' k) (\<lambda>k1.
         if p' = ready_list_head k1 then Ok k1
         else resume_all_loop n p' k1))"

definition helios_resume_all_task :: "nat \<Rightarrow> kernel \<Rightarrow> (status_t \<times> kernel) outcome" where
  "helios_resume_all_task fuel k =
     (if ready_list_head k \<noteq> NULL
      then obind (resume_all_loop fuel (ready_list_head k) k) (\<lambda>k1. Ok (success, k1))
      else Ok (error_os_invalid_op, k))"

definition helios_pause_task :: "nat \<Rightarrow> u16 \<Rightarrow> kernel \<Rightarrow> (status_t \<times> kernel) outcome" where
  "helios_pause_task fuel tid k =
     obind (helios_get_tcb_using_task_id fuel tid k) (\<lambda>q.
       let p = (if q = NULL then curr_task k else q)
       in obind (helios_sched_send_to_pause p k) (\<lambda>k1. Ok (success, k1)))"

definition helios_resume_task :: "nat \<Rightarrow> u16 \<Rightarrow> kernel \<Rightarrow> (status_t \<times> kernel) outcome" where
  "helios_resume_task fuel tid k =
     obind (helios_get_tcb_using_task_id fuel tid k) (\<lambda>p.
       if p = NULL then Ok (error_func_inval_arg, k)
       else if task_status (tcbs k p) \<noteq> task_status_pause
       then obind (helios_sched_send_to_resume p k) (\<lambda>k1. Ok (success, k1))
       else Ok (error_os_invalid_op, k))"

section \<open>Creating and deleting tasks\<close>

definition fill_tcb :: "ptr \<Rightarrow> u8 \<Rightarrow> ptr \<Rightarrow> ptr \<Rightarrow> bool \<Rightarrow> tcb \<Rightarrow> tcb" where
  "fill_tcb name prio func args ad t =
     (let t1 = t\<lparr>tcb_name := name, priority := prio, task_func := func, args_ptr := args\<rparr>
      in if ad then t1\<lparr>task_wd_ticks := - 1\<rparr> else t1)"

text \<open>From the allocated control block to the end of \<open>helios_add_task\<close>.\<close>

definition link_task ::
  "nat \<Rightarrow> ptr \<Rightarrow> ptr \<Rightarrow> u8 \<Rightarrow> ptr \<Rightarrow> ptr \<Rightarrow> kernel \<Rightarrow> (status_t \<times> u16 \<times> kernel) outcome" where
  "link_task fuel p name prio func args k =
     (let k1 = upd_tcb p (fill_tcb name prio func args (anti_deadlock k)) k;
          k2 = (if ready_list_head k1 = NULL
                then (set_prev HELIOS_LINK_READY p p (set_next HELIOS_LINK_READY p p k1))
                       \<lparr>ready_list_head := p\<rparr>
                else k1)
      in obind (helios_sched_send_back_of_task_prio fuel p k2) (\<lambda>(_, k3).
           let (i, k4) = helios_task_id_generate (set_status p task_status_ready k3);
               k5 = upd_tcb p (\<lambda>t. t\<lparr>task_id := i\<rparr>) k4
           in obind (helios_resume_all_task fuel k5) (\<lambda>(_, k6). Ok (success, i, k6))))"

definition helios_add_task ::
  "nat \<Rightarrow> u16 \<Rightarrow> ptr \<Rightarrow> ptr \<Rightarrow> ptr \<Rightarrow> u8 \<Rightarrow> size_t \<Rightarrow> kernel \<Rightarrow> (status_t \<times> u16 \<times> kernel) outcome" where
  "helios_add_task fuel helios_task name func args prio stack_len k =
     (if helios_task \<noteq> 0 \<or> name = NULL \<or> func = NULL \<or> stack_len = 0
         \<or> \<not> prio \<ge> HELIOS_IDLE_TASK_PRIORITY \<or> \<not> prio < HELIOS_PRIORITY_MAX
      then Ok (error_func_inval_arg, helios_task, k)
      else obind (helios_pause_all_task fuel k) (\<lambda>(_, k1).
        obind (helios_malloc (sizeof_tcb k1) k1) (\<lambda>(p, k2).
          if p = NULL
          then obind (helios_resume_all_task fuel k2) (\<lambda>(_, k3).
                 Ok (error_memory_low, helios_task, k3))
          else obind (helios_malloc stack_len k2) (\<lambda>(sp, k3).
            let k4 = upd_tcb p (\<lambda>t. t\<lparr>stack_ptr := sp\<rparr>) k3
            in if sp = NULL
               then obind (helios_resume_all_task fuel k4) (\<lambda>(_, k5).
                      Ok (error_memory_low, helios_task, k5))
               else link_task fuel p name prio func args k4))))"

definition helios_task_yield :: "nat \<Rightarrow> kernel \<Rightarrow> kernel outcome" where
  "helios_task_yield fuel k = helios_scheduler_despatch fuel k"

definition helios_del_task :: "nat \<Rightarrow> ptr \<Rightarrow> u16 \<Rightarrow> kernel \<Rightarrow> (status_t \<times> kernel) outcome" where
  "helios_del_task fuel idle_fn tid k =
     obind (helios_get_tcb_using_task_id fuel tid k) (\<lambda>q.
       let p = (if q = NULL then curr_task k else q)
       in require (p \<noteq> NULL) Null_deref
         (if task_func (tcbs k p) = idle_fn then Ok (error_func_inval_arg, k)
          else if p = ready_list_head k then Ok (error_os_invalid_op, k)
          else let k1 = set_status p task_status_exit k
               in if p = curr_task k1
                  then obind (helios_task_yield fuel k1) (\<lambda>k2. Ok (success, k2))
                  else Ok (success, k1)))"

definition helios_task_wait :: "nat \<Rightarrow> size_t \<Rightarrow> kernel \<Rightarrow> kernel outcome" where
  "helios_task_wait fuel ticks k =
     obind (if ticks > 0 then helios_sched_send_to_wait (curr_task k) ticks k else Ok k)
       (helios_task_yield fuel)"

section \<open>Queries and settings\<close>

definition helios_get_args :: "kernel \<Rightarrow> ptr outcome" where
  "helios_get_args k = require (curr_task k \<noteq> NULL) Null_deref (Ok (args_ptr (tcbs k (curr_task k))))"

definition helios_get_curr_task_name :: "kernel \<Rightarrow> ptr outcome" where
  "helios_get_curr_task_name k =
     require (curr_task k \<noteq> NULL) Null_deref (Ok (tcb_name (tcbs k (curr_task k))))"

definition helios_get_task_name :: "nat \<Rightarrow> u16 \<Rightarrow> kernel \<Rightarrow> ptr outcome" where
  "helios_get_task_name fuel tid k =
     obind (helios_get_tcb_using_task_id fuel tid k) (\<lambda>p.
       Ok (if p \<noteq> NULL then tcb_name (tcbs k p) else NULL))"

text \<open>An algorithm is an enumeration value; \<open>0xff\<close> is \<open>helios_sched_algo_max\<close>.\<close>

definition helios_set_sched_algo :: "nat \<Rightarrow> kernel \<Rightarrow> status_t \<times> kernel" where
  "helios_set_sched_algo algo k =
     (if algo = 0xff then (error_func_inval_arg, k) else (success, k\<lparr>selected_sched := Some algo\<rparr>))"

definition helios_task_anti_deadlock_enable_and_feed ::
  "size_t \<Rightarrow> kernel \<Rightarrow> (status_t \<times> kernel) outcome" where
  "helios_task_anti_deadlock_enable_and_feed ticks k =
     (let flag = helios_task_flag_set_anti_deadlock; p = curr_task k
      in if anti_deadlock k
         then if \<not> (ticks > 0 \<and> ticks < - 1) then Ok (error_func_inval_arg, k)
              else let k1 = (if helios_is_task_flag p flag k
                             then snd (helios_set_task_flag p flag True k) else k)
                   in require (p \<noteq> NULL) Null_deref
                        (Ok (success, upd_tcb p (\<lambda>t. t\<lparr>task_wd_ticks := ticks\<rparr>) k1))
         else Ok (error_func_inval, if helios_is_task_flag p flag k
                                    then snd (helios_set_task_flag p flag False k) else k))"

definition helios_task_anti_deadlock_disable :: "kernel \<Rightarrow> (status_t \<times> kernel) outcome" where
  "helios_task_anti_deadlock_disable k =
     (let flag = helios_task_flag_set_anti_deadlock; p = curr_task k;
          k1 = (if helios_is_task_flag p flag k then snd (helios_set_task_flag p flag False k) else k)
      in if anti_deadlock k
         then require (p \<noteq> NULL) Null_deref
                (Ok (success, upd_tcb p (\<lambda>t. t\<lparr>task_wd_ticks := - 1\<rparr>) k1))
         else Ok (error_func_inval, k1))"

datatype helios_sched_cb_t =
    helios_sched_cb_power_pre_sleep
  | helios_sched_cb_power_post_sleep
  | helios_sched_cb_power_sleep
  | helios_sched_cb_deadlock_notify
  | helios_sched_cb_max

primrec helios_set_callback :: "helios_sched_cb_t \<Rightarrow> ptr \<Rightarrow> kernel \<Rightarrow> status_t \<times> kernel" where
  "helios_set_callback helios_sched_cb_power_post_sleep f k = (error_func_inval, k)"
| "helios_set_callback helios_sched_cb_power_pre_sleep f k = (error_func_inval, k)"
| "helios_set_callback helios_sched_cb_power_sleep f k = (error_func_inval, k)"
| "helios_set_callback helios_sched_cb_deadlock_notify f k =
     (if anti_deadlock k then (success, k\<lparr>deadlock_notify := f\<rparr>) else (error_func_inval, k))"
| "helios_set_callback helios_sched_cb_max f k = (error_func_inval, k)"

text \<open>\<open>helios_run\<close> never returns: after the first yield it panics.\<close>

definition helios_run :: "nat \<Rightarrow> u16 \<Rightarrow> ptr \<Rightarrow> ptr \<Rightarrow> ptr \<Rightarrow> kernel \<Rightarrow> kernel outcome" where
  "helios_run fuel idle_task idle_name idle_fn sched_ctrl k =
     obind (helios_add_task fuel idle_task idle_name idle_fn sched_ctrl
              HELIOS_IDLE_TASK_PRIORITY HELIOS_IDLE_TASK_STACK_LEN k) (\<lambda>(_, _, k1).
       obind (helios_task_yield fuel (helios_init_scheduler k1)) (\<lambda>_.
         Fault (Panic error_os_panic_os_start_fail)))"

section \<open>The idle task\<close>

definition free_terminated_task :: "ptr \<Rightarrow> kernel \<Rightarrow> (ptr \<times> kernel) outcome" where
  "free_terminated_task p k =
     require (p \<noteq> NULL) Null_deref
       (let next_ptr = get_next HELIOS_LINK_READY k p
        in require (next_ptr \<noteq> NULL) Null_deref
          (if task_status (tcbs k next_ptr) = task_status_exit
           then obind (helios_sched_node_detach HELIOS_LINK_READY p k) (\<lambda>(_, k1).
                  obind (helios_free (stack_ptr (tcbs k1 p)) k1) (\<lambda>k2.
                    obind (helios_free p k2) (\<lambda>k3. Ok (next_ptr, k3))))
           else Ok (next_ptr, k)))"

definition helios_idle_task_body :: "nat \<Rightarrow> ptr \<Rightarrow> kernel \<Rightarrow> (ptr \<times> kernel) outcome" where
  "helios_idle_task_body fuel p k =
     obind (free_terminated_task p k) (\<lambda>(q, k1).
       obind (helios_task_yield fuel k1) (\<lambda>k2. Ok (q, k2)))"

section \<open>Pausing and resuming every task\<close>

lemma pause_all_loop_list:
  assumes "ready_list k (us @ vs)" and "vs \<noteq> []" and "wait_list k ws" and "set ws \<inter> set vs = {}"
    and "\<forall>v \<in> set vs. task_status (tcbs k v) \<noteq> task_status_pause" and "curr_task k = 0" and "length vs \<le> f"
  shows "\<exists>k'. pause_all_loop f (hd vs) k = Ok k' \<and> wait_list k' (ws @ vs) \<and> task_frame k k'
    \<and> (\<forall>q. task_status (tcbs k' q) = (if q \<in> set vs then task_status_pause else task_status (tcbs k q)))"
  using assms
proof (induction vs arbitrary: us ws k f)
  case (Cons v vs)
  obtain f' where f: "f = Suc f'" using Cons.prems(7) by (cases f) auto
  have r: "node_ring False k (us @ v # vs)" and h: "ready_list_head k = hd (us @ v # vs)"
    using Cons.prems(1) by (auto simp: node_list_def)
  have d: "distinct (us @ v # vs)" using r by (rule node_ring_distinct)
  have v0: "v \<noteq> 0" using r by (auto simp: node_ring_def)
  obtain k1 where k1: "helios_sched_send_to_pause v k = Ok k1" "wait_list k1 (ws @ [v])" "task_frame k k1"
    "\<forall>q. task_status (tcbs k1 q) = (if q = v then task_status_pause else task_status (tcbs k q))"
    using send_to_pause_list [OF Cons.prems(3), of v] Cons.prems(4,5) v0 by auto
  have fr: "ready_list_head k1 = ready_list_head k" "curr_task k1 = curr_task k"
    "get_next False k1 v = get_next False k v"
    using task_frame_fields [OF k1(3)] task_frame_links [OF k1(3)] by simp_all
  have nx: "get_next False k v = hd (vs @ us @ [v])"
    using r ring_next(1) unfolding node_ring_def by fast
  show ?case
  proof (cases vs)
    case Nil
    then have "get_next False k v = ready_list_head k" using nx h by (cases us) auto
    then have "pause_all_loop f v k = Ok k1"
      using f v0 Cons.prems(6) k1(1) fr by simp
    then show ?thesis using k1 Nil by auto
  next
    case (Cons w us')
    have ne: "get_next False k v = w" "w \<noteq> ready_list_head k"
      using nx h d \<open>vs = w # us'\<close> by (auto simp: hd_append split: if_splits)
    have st: "\<forall>q \<in> set vs. task_status (tcbs k1 q) \<noteq> task_status_pause"
      using Cons.prems(5) k1(4) d by auto
    have rl: "ready_list k1 ((us @ [v]) @ vs)"
      using task_frame_ready_list [OF k1(3)] Cons.prems(1) by simp
    obtain k' where k': "pause_all_loop f' (hd vs) k1 = Ok k'" "wait_list k' ((ws @ [v]) @ vs)" "task_frame k1 k'"
      "\<forall>q. task_status (tcbs k' q) = (if q \<in> set vs then task_status_pause else task_status (tcbs k1 q))"
      using Cons.IH [OF rl _ k1(2) _ st, of f'] Cons.prems(4,6,7) d f fr \<open>vs = w # us'\<close> by auto
    have "pause_all_loop f v k = Ok k'"
      using f v0 Cons.prems(6) k1(1) fr ne k'(1) \<open>vs = w # us'\<close> by simp
    moreover have "task_frame k k'" using k1(3) k'(3) by (rule task_frame_trans)
    ultimately show ?thesis using k' k1(4) by auto
  qed
qed simp

lemma resume_one:
  assumes l: "wait_list k ws" and p: "p \<noteq> 0"
    and st: "p \<in> set ws \<longleftrightarrow> task_status (tcbs k p) \<ge> task_status_wait"
  shows "\<exists>k'. helios_sched_send_to_resume p k = Ok k' \<and> wait_list k' (remove1 p ws) \<and> task_frame k k'
    \<and> (\<forall>q. task_status (tcbs k' q) = (if q = p \<and> p \<in> set ws then task_status_ready else task_status (tcbs k q)))"
proof (cases "p \<in> set ws")
  case True
  then obtain us vs where ws: "ws = us @ p # vs" "p \<notin> set us" by (metis split_list_first)
  from send_to_resume_list [of k us p vs] l st True ws show ?thesis by (auto simp: remove1_append)
next
  case False
  then have "remove1 p ws = ws" by (rule remove1_idem)
  then show ?thesis using False st l resume_not_waiting [OF p, of k] by (auto simp: not_le)
qed

lemma resume_all_loop_list:
  assumes "ready_list k (us @ p # vs)" and "h = hd (us @ p # vs)" and "wait_list k ws"
    and "set ws \<subseteq> set (vs @ [h])"
    and "\<forall>q \<in> set (vs @ [h]). q \<in> set ws \<longleftrightarrow> task_status (tcbs k q) \<ge> task_status_wait" and "length (vs @ [h]) \<le> f"
  shows "\<exists>k'. resume_all_loop f p k = Ok k' \<and> wait_list k' [] \<and> task_frame k k'
    \<and> (\<forall>q. task_status (tcbs k' q) = (if q \<in> set ws then task_status_ready else task_status (tcbs k q)))"
  using assms
proof (induction vs arbitrary: us p ws k f)
  case Nil
  obtain f' where f: "f = Suc f'" using Nil.prems(6) by (cases f) auto
  have r: "node_ring False k (us @ [p])" and hd: "ready_list_head k = h"
    using Nil.prems(1,2) by (auto simp: node_list_def)
  have h0: "h \<noteq> 0" using node_list_head_nz [OF Nil.prems(1)] hd by simp
  have nx: "get_next False k p = h"
    using r Nil.prems(2) ring_next(1) [of "get_next False k" "get_prev False k" us p "[]"]
    by (simp add: node_ring_def)
  obtain k1 where k1: "helios_sched_send_to_resume h k = Ok k1" "wait_list k1 (remove1 h ws)" "task_frame k k1"
    "\<forall>q. task_status (tcbs k1 q) = (if q = h \<and> h \<in> set ws then task_status_ready else task_status (tcbs k q))"
    using resume_one [OF Nil.prems(3) h0] Nil.prems(5) by auto
  have "distinct ws" using Nil.prems(3) by (rule node_list_distinct)
  then have "ws = [] \<or> ws = [h]" using Nil.prems(4) by (cases ws; cases "tl ws") auto
  then have "wait_list k1 []"
    "\<forall>q. task_status (tcbs k1 q) = (if q \<in> set ws then task_status_ready else task_status (tcbs k q))"
    using k1(2,4) by auto
  moreover have "resume_all_loop f p k = Ok k1"
    using f nx k1(1) hd task_frame_fields(4) [OF k1(3)] by simp
  ultimately show ?case using k1(3) by blast
next
  case (Cons v vs)
  obtain f' where f: "f = Suc f'" using Cons.prems(6) by (cases f) auto
  have r: "node_ring False k (us @ p # v # vs)" and hd: "ready_list_head k = h"
    using Cons.prems(1,2) by (auto simp: node_list_def)
  have d: "distinct (us @ p # v # vs)" using r by (rule node_ring_distinct)
  have v0: "v \<noteq> 0" using r by (auto simp: node_ring_def)
  have vh: "v \<noteq> h" using d Cons.prems(2) by (cases us) auto
  have nx: "get_next False k p = v"
    using r ring_next(1) [of "get_next False k" "get_prev False k" us p "v # vs"] by (simp add: node_ring_def)
  obtain k1 where k1: "helios_sched_send_to_resume v k = Ok k1" "wait_list k1 (remove1 v ws)" "task_frame k k1"
    "\<forall>q. task_status (tcbs k1 q) = (if q = v \<and> v \<in> set ws then task_status_ready else task_status (tcbs k q))"
    using resume_one [OF Cons.prems(3) v0] Cons.prems(5) by auto
  have dw: "distinct ws" using Cons.prems(3) by (rule node_list_distinct)
  have rl: "ready_list k1 ((us @ [p]) @ v # vs)"
    using task_frame_ready_list [OF k1(3)] Cons.prems(1) by simp
  have hh: "h = hd ((us @ [p]) @ v # vs)" using Cons.prems(2) by simp
  have sub: "set (remove1 v ws) \<subseteq> set (vs @ [h])" using Cons.prems(4) dw by (auto simp: set_remove1_eq)
  have st: "\<forall>q \<in> set (vs @ [h]). q \<in> set (remove1 v ws) \<longleftrightarrow> task_status (tcbs k1 q) \<ge> task_status_wait"
    using Cons.prems(5) k1(4) vh d dw by (auto simp: set_remove1_eq)
  obtain k' where k': "resume_all_loop f' v k1 = Ok k'" "wait_list k' []" "task_frame k1 k'"
    "\<forall>q. task_status (tcbs k' q) = (if q \<in> set (remove1 v ws) then task_status_ready else task_status (tcbs k1 q))"
    using Cons.IH [OF rl hh k1(2) sub st, of f'] Cons.prems(6) f by auto
  have "resume_all_loop f p k = Ok k'"
    using f nx k1(1) hd vh task_frame_fields(4) [OF k1(3)] k'(1) by simp
  moreover have "task_frame k k'" using k1(3) k'(3) by (rule task_frame_trans)
  moreover have "\<forall>q. task_status (tcbs k' q) = (if q \<in> set ws then task_status_ready else task_status (tcbs k q))"
    using k'(4) k1(4) dw by (auto simp: set_remove1_eq)
  ultimately show ?case using k'(2) by blast
qed

lemma pause_all_list:
  assumes "ready_list k xs" and "wait_list k []" and "curr_task k = 0"
    and "\<forall>x \<in> set xs. task_status (tcbs k x) \<noteq> task_status_pause" and "length xs \<le> f"
  shows "\<exists>k'. helios_pause_all_task f k = Ok (success, k') \<and> wait_list k' xs \<and> task_frame k k'
    \<and> (\<forall>q. task_status (tcbs k' q) = (if q \<in> set xs then task_status_pause else task_status (tcbs k q)))"
proof (cases "xs = []")
  case True
  then show ?thesis using assms(1,2) by (auto simp: helios_pause_all_task_def node_list_def)
next
  case False
  then have h: "ready_list_head k = hd xs" using assms(1) by (simp add: node_list_def)
  then show ?thesis
    using pause_all_loop_list [of k "[]" xs "[]" f] assms False node_list_head_nz [OF assms(1) False]
    by (auto simp: helios_pause_all_task_def)
qed

lemma resume_all_list:
  assumes l: "ready_list k xs" and ne: "xs \<noteq> []" and ws: "wait_list k ws" "set ws \<subseteq> set xs"
    and st: "\<forall>q \<in> set xs. q \<in> set ws \<longleftrightarrow> task_status (tcbs k q) \<ge> task_status_wait" and f: "length xs \<le> f"
  shows "\<exists>k'. helios_resume_all_task f k = Ok (success, k') \<and> wait_list k' [] \<and> task_frame k k'
    \<and> (\<forall>q. task_status (tcbs k' q) = (if q \<in> set ws then task_status_ready else task_status (tcbs k q)))"
proof -
  obtain x ys where xs: "xs = x # ys" using ne by (cases xs) auto
  have h: "ready_list_head k = x" "x \<noteq> 0"
    using l xs node_list_head_nz [OF l ne] by (simp_all add: node_list_def)
  have "set (ys @ [x]) = set xs" using xs by auto
  then obtain k' where "resume_all_loop f x k = Ok k'" "wait_list k' []" "task_frame k k'"
    "\<forall>q. task_status (tcbs k' q) = (if q \<in> set ws then task_status_ready else task_status (tcbs k q))"
    using resume_all_loop_list [of k "[]" x ys x ws f] l ws st f xs by auto
  then show ?thesis using h by (auto simp: helios_resume_all_task_def)
qed

section \<open>Adding a task\<close>

text \<open>The kernel before \<open>helios_run\<close>: no current task, nobody waits, the ready list is sorted by
  priority and every task in it is ready.\<close>

definition boot_inv :: "kernel \<Rightarrow> ptr list \<Rightarrow> bool" where
  "boot_inv k xs \<longleftrightarrow> ready_list k xs \<and> wait_list k [] \<and> curr_task k = 0
     \<and> sorted (map (\<lambda>p. priority (tcbs k p)) xs)
     \<and> (\<forall>x \<in> set xs. task_status (tcbs k x) = task_status_ready)"

lemma wait_list_ready_link_frame:
  assumes "link_frame False k k'"
  shows "wait_list k' ws \<longleftrightarrow> wait_list k ws"
  using link_frame_node_list [OF assms, of True] link_frame_fields(6) [OF assms] by simp

text \<open>Putting a filled control block into the ready list, empty or not.\<close>

text \<open>The ready links of the nodes outside a set are the same in both kernels.\<close>

definition ready_links_outside :: "ptr set \<Rightarrow> kernel \<Rightarrow> kernel \<Rightarrow> bool" where
  "ready_links_outside A k k' \<longleftrightarrow>
     (\<forall>q. q \<notin> A \<longrightarrow> get_next False k' q = get_next False k q \<and> get_prev False k' q = get_prev False k q)"

text \<open>What entering a task leaves alone: the heap, the settings, the other tasks, and the links outside the list.\<close>

definition boot_frame :: "ptr \<Rightarrow> ptr list \<Rightarrow> kernel \<Rightarrow> kernel \<Rightarrow> bool" where
  "boot_frame p xs k k' \<longleftrightarrow> kheap k' = kheap k \<and> anti_deadlock k' = anti_deadlock k
     \<and> selected_sched k' = selected_sched k \<and> task_id_gen k' = task_id_gen k + 1
     \<and> (\<forall>q. q \<noteq> p \<longrightarrow> priority (tcbs k' q) = priority (tcbs k q) \<and> task_id (tcbs k' q) = task_id (tcbs k q))
     \<and> ready_links_outside (insert p (set xs)) k k'"

lemma enter_ready_list:
  assumes l: "ready_list k xs" and p: "p \<notin> set xs" "p \<noteq> 0"
    and new: "get_next False k p = get_prev False k p" and f: "length xs \<le> f"
  shows "\<exists>k'. helios_sched_send_back_of_task_prio f p
      (if ready_list_head k = 0 then (set_prev False p p (set_next False p p k))\<lparr>ready_list_head := p\<rparr> else k)
      = Ok (success, k')
    \<and> ready_list k' (prio_insert (\<lambda>q. priority (tcbs k q)) p xs)
    \<and> (\<exists>h k1. link_frame False k k1 \<and> k' = k1\<lparr>ready_list_head := h\<rparr>)
    \<and> ready_links_outside (insert p (set xs)) k k'"
proof (cases "xs = []")
  case True
  let ?k1 = "set_prev False p p (set_next False p p k)"
  have h: "ready_list_head k = 0" using l True by (simp add: node_list_def)
  have "node_ring False ?k1 [p]" using rl.single_ring p by (simp add: node_ring_def)
  then have "ready_list (?k1\<lparr>ready_list_head := p\<rparr>) [p]" by (simp add: node_list_def node_ring_def)
  moreover have "link_frame False k ?k1" by simp
  moreover have "helios_sched_send_back_of_task_prio f p (?k1\<lparr>ready_list_head := p\<rparr>)
      = Ok (success, ?k1\<lparr>ready_list_head := p\<rparr>)"
    using p by (simp add: helios_sched_send_back_of_task_prio_def)
  moreover have "prio_insert (\<lambda>q. priority (tcbs k q)) p xs = [p]"
    using True by (simp add: prio_insert_def)
  moreover have "ready_links_outside (insert p (set xs)) k (?k1\<lparr>ready_list_head := p\<rparr>)"
    by (simp add: ready_links_outside_def)
  ultimately show ?thesis unfolding h if_P [OF refl] by metis
next
  case False
  obtain k1 k' h where k': "helios_sched_send_back_of_task_prio f p k = Ok (success, k')"
    "ready_list k' (prio_insert (\<lambda>p. priority (tcbs k p)) p xs)"
    "k1 = k\<lparr>ready_list_head := h\<rparr>" "link_frame False k1 k'"
    using send_back_new [OF l False p new f] by blast
  let ?k2 = "k'\<lparr>ready_list_head := ready_list_head k\<rparr>"
  have "k' = ?k2\<lparr>ready_list_head := ready_list_head k'\<rparr>" by simp
  moreover have "link_frame False k ?k2"
  proof -
    have "k'\<lparr>tcbs := tcbs k\<rparr> = k\<lparr>ready_list_head := h\<rparr>" using k'(3,4) by (simp add: link_frame_def)
    moreover have "?k2\<lparr>tcbs := tcbs k\<rparr> = k'\<lparr>tcbs := tcbs k\<rparr>\<lparr>ready_list_head := ready_list_head k\<rparr>" by simp
    ultimately have "?k2\<lparr>tcbs := tcbs k\<rparr> = k" by simp
    moreover have "\<forall>p. erase_link False (tcbs ?k2 p) = erase_link False (tcbs k p)"
      using k'(3,4) by (simp add: link_frame_def)
    ultimately show ?thesis unfolding link_frame_def by blast
  qed
  ultimately have "\<exists>h k1. link_frame False k k1 \<and> k' = k1\<lparr>ready_list_head := h\<rparr>" by blast
  moreover have "ready_links_outside (insert p (set xs)) k k'"
    using send_back_new_outside [OF l False p new f k'(1)] by (simp add: ready_links_outside_def)
  ultimately show ?thesis using k'(1,2) node_list_head_nz [OF l False] by auto
qed

lemma link_task_ok:
  assumes l: "ready_list k xs" and w: "wait_list k xs" and c: "curr_task k = 0"
    and st: "\<forall>x \<in> set xs. task_status (tcbs k x) = task_status_pause"
    and so: "sorted (map (\<lambda>q. priority (tcbs k q)) xs)"
    and p: "p \<notin> set xs" "p \<noteq> 0" and new: "get_next False k p = get_prev False k p"
    and f: "Suc (length xs) \<le> f"
  shows "\<exists>k'. link_task f p name prio func args k = Ok (success, task_id_gen k + 1, k')
    \<and> boot_inv k' (prio_insert ((\<lambda>q. priority (tcbs k q))(p := prio)) p xs)
    \<and> task_id (tcbs k' p) = task_id_gen k + 1 \<and> priority (tcbs k' p) = prio \<and> boot_frame p xs k k'"
proof -
  define k1 where "k1 = upd_tcb p (fill_tcb name prio func args (anti_deadlock k)) k"
  let ?pr = "(\<lambda>q. priority (tcbs k q))(p := prio)"
  let ?ys = "prio_insert ?pr p xs"
  have pr1: "(\<lambda>q. priority (tcbs k1 q)) = ?pr" by (auto simp: fun_eq_iff k1_def upd_tcb_def fill_tcb_def Let_def)
  have k1: "ready_list_head k1 = ready_list_head k" "wait_list_head k1 = wait_list_head k" "curr_task k1 = 0"
    "task_id_gen k1 = task_id_gen k" "\<And>q. q \<noteq> p \<Longrightarrow> tcbs k1 q = tcbs k q"
    using c by (simp_all add: k1_def upd_tcb_def)
  have links: "get_next v k1 = get_next v k" "get_prev v k1 = get_prev v k" for v
    unfolding k1_def by (rule get_link_upd; simp add: fill_tcb_def Let_def)+
  have l1: "ready_list k1 xs" and w1: "wait_list k1 xs" and new1: "get_next False k1 p = get_prev False k1 p"
    using l w new by (simp_all add: node_list_links [of _ k1 k] links k1)
  obtain k3 h k2 where k3: "helios_sched_send_back_of_task_prio f p
      (if ready_list_head k1 = 0 then (set_prev False p p (set_next False p p k1))\<lparr>ready_list_head := p\<rparr> else k1)
      = Ok (success, k3)" "ready_list k3 ?ys" "link_frame False k1 k2" "k3 = k2\<lparr>ready_list_head := h\<rparr>"
      "ready_links_outside (insert p (set xs)) k1 k3"
    using enter_ready_list [OF l1 p new1, of f] f pr1 by auto
  define i where "i = task_id_gen k + 1"
  define k5 where "k5 = upd_tcb p (\<lambda>t. t\<lparr>task_id := i\<rparr>)
      ((set_status p task_status_ready k3)\<lparr>task_id_gen := i\<rparr>)"
  have fr: "task_id_gen k3 = task_id_gen k" "curr_task k3 = 0"
    "\<And>q. task_status (tcbs k3 q) = task_status (tcbs k1 q)" "\<And>q. priority (tcbs k3 q) = ?pr q"
    using link_frame_fields [OF k3(3)] k3(4) k1 fun_cong [OF pr1] by auto
  have links5: "get_next v k5 = get_next v k3" "get_prev v k5 = get_prev v k3" for v
    by (simp_all add: fun_eq_iff k5_def get_next_def get_prev_def upd_tcb_def)
  have k5: "ready_list_head k5 = ready_list_head k3" "wait_list_head k5 = wait_list_head k3" "curr_task k5 = 0"
    using fr by (simp_all add: k5_def)
  have l5: "ready_list k5 ?ys" using k3(2) by (simp add: node_list_links [of _ k5 k3] links5 k5)
  have "wait_list k3 xs"
    using w1 wait_list_ready_link_frame [OF k3(3), of xs] k3(4) by (simp add: node_list_links [of _ k3 k2])
  then have w5: "wait_list k5 xs" by (simp add: node_list_links [of _ k5 k3] links5 k5)
  have st5: "task_status (tcbs k5 q) = (if q = p then task_status_ready else task_status (tcbs k q))" for q
    using fr(3) k1(5) by (simp add: k5_def upd_tcb_def)
  have pr5: "priority (tcbs k5 q) = ?pr q" for q using fr(4) [of q] by (auto simp: k5_def upd_tcb_def)
  have "\<forall>q \<in> set ?ys. q \<in> set xs \<longleftrightarrow> task_status (tcbs k5 q) \<ge> task_status_wait"
    using st p(1) st5 by (auto simp: less_eq_task_status_t_def)
  moreover have "length ?ys \<le> f"
  proof -
    have "length ?ys = Suc (length xs)"
      using arg_cong [OF takeWhile_dropWhile_id, of length "\<lambda>q. ?pr q \<le> ?pr p" xs]
      by (simp only: prio_insert_def length_append list.size)
    then show ?thesis using f by simp
  qed
  ultimately obtain k6 where k6: "helios_resume_all_task f k5 = Ok (success, k6)" "wait_list k6 []" "task_frame k5 k6"
    "\<forall>q. task_status (tcbs k6 q) = (if q \<in> set xs then task_status_ready else task_status (tcbs k5 q))"
    using resume_all_list [OF l5 _ w5, of f] by auto
  have pr6: "(\<lambda>q. priority (tcbs k6 q)) = ?pr" using task_frame_fields(1) [OF k6(3)] pr5 by (simp add: fun_eq_iff)
  have "sorted (map ?pr xs)"
    using so p(1) by (metis (mono_tags, lifting) fun_upd_other map_cong)
  then have "sorted (map ?pr ?ys)" by (rule sorted_prio_insert)
  then have "boot_inv k6 ?ys"
    unfolding boot_inv_def pr6
    using l5 k6 st st5 task_frame_ready_list [OF k6(3)] task_frame_fields(5) [OF k6(3)] k5(3) by auto
  moreover have "link_task f p name prio func args k = Ok (success, i, k6)"
    unfolding link_task_def Let_def k1_def [symmetric] k3(1)
    using k6(1) fr(1) by (simp add: helios_task_id_generate_def i_def k5_def)
  moreover have "task_id (tcbs k6 p) = i"
    using task_frame_fields(2) [OF k6(3)] by (simp add: k5_def upd_tcb_def)
  moreover have "priority (tcbs k6 p) = prio" using fun_cong [OF pr6, of p] by simp
  moreover have "boot_frame p xs k k6"
    unfolding boot_frame_def
  proof (intro conjI)
    show "ready_links_outside (insert p (set xs)) k k6"
      using k3(5) task_frame_links [OF k6(3)] by (simp add: ready_links_outside_def links links5)
  qed (use link_frame_settings [OF k3(3)] task_frame_settings [OF k6(3)] link_frame_fields(3,8,10) [OF k3(3)]
      task_frame_fields(2,6,7,8) [OF k6(3)] fun_cong [OF pr6] k3(4) in \<open>simp_all add: k1_def k5_def i_def upd_tcb_def\<close>)
  ultimately show ?thesis by (auto simp: i_def)
qed

lemma add_task_boot_result:
  assumes inv: "boot_inv k xs" and m1: "malloc (sizeof_tcb k) (kheap k) = Ok (p, h1)" and m2: "malloc len h1 = Ok (sp, h2)"
    and p: "p \<noteq> 0" "p \<notin> set xs" and sp: "sp \<noteq> 0"
    and new: "get_next False k p = get_prev False k p"
    and args: "name \<noteq> 0" "func \<noteq> 0" "len \<noteq> 0" "1 \<le> prio" "prio < 255" and f: "length xs < fuel"
  shows "\<exists>k'. helios_add_task fuel 0 name func args prio len k = Ok (success, task_id_gen k + 1, k')
    \<and> boot_inv k' (prio_insert ((\<lambda>q. priority (tcbs k q))(p := prio)) p xs)
    \<and> task_id (tcbs k' p) = task_id_gen k + 1 \<and> priority (tcbs k' p) = prio
    \<and> boot_frame p xs (k\<lparr>kheap := h2\<rparr>) k'"
proof -
  have i: "ready_list k xs" "wait_list k []" "curr_task k = 0" "sorted (map (\<lambda>p. priority (tcbs k p)) xs)"
    "\<forall>x \<in> set xs. task_status (tcbs k x) \<noteq> task_status_pause"
    using inv by (auto simp: boot_inv_def)
  have f': "length xs \<le> fuel" "Suc (length xs) \<le> fuel" using f by simp_all
  obtain k1 where k1: "helios_pause_all_task fuel k = Ok (success, k1)" "wait_list k1 xs" "task_frame k k1"
    "\<forall>q. task_status (tcbs k1 q) = (if q \<in> set xs then task_status_pause else task_status (tcbs k q))"
    using pause_all_list [OF i(1,2,3,5) f'(1)] by blast
  define k4 where "k4 = upd_tcb p (\<lambda>t. t\<lparr>stack_ptr := sp\<rparr>) (k1\<lparr>kheap := h2\<rparr>)"
  have links: "get_next v k4 = get_next v k1" "get_prev v k4 = get_prev v k1" for v
    by (simp_all add: fun_eq_iff k4_def get_next_def get_prev_def upd_tcb_def)
  have fr: "ready_list_head k4 = ready_list_head k1" "wait_list_head k4 = wait_list_head k1"
    "curr_task k4 = 0" "task_id_gen k4 = task_id_gen k" "\<And>q. priority (tcbs k4 q) = priority (tcbs k q)"
    "\<And>q. task_status (tcbs k4 q) = task_status (tcbs k1 q)"
    using task_frame_fields [OF k1(3)] i(3) by (simp_all add: k4_def upd_tcb_def)
  have "ready_list k4 xs" "wait_list k4 xs"
    using i(1) k1(2) task_frame_ready_list [OF k1(3)] by (simp_all add: node_list_links [of _ k4 k1] links fr)
  moreover have "get_next False k4 p = get_prev False k4 p"
    using new task_frame_links [OF k1(3)] by (simp add: links)
  moreover have "\<forall>x \<in> set xs. task_status (tcbs k4 x) = task_status_pause" using k1(4) fr(6) by simp
  ultimately obtain k' where k': "link_task fuel p name prio func args k4 = Ok (success, task_id_gen k + 1, k')"
    "boot_inv k' (prio_insert ((\<lambda>q. priority (tcbs k q))(p := prio)) p xs)"
    "task_id (tcbs k' p) = task_id_gen k + 1" "priority (tcbs k' p) = prio" "boot_frame p xs k4 k'"
    using link_task_ok [of k4 xs p fuel name prio func args] i(4) p f'(2) fr by auto
  have sz: "sizeof_tcb k1 = sizeof_tcb k" using task_frame_fields [OF k1(3)] by (simp add: sizeof_tcb_def)
  have "helios_add_task fuel 0 name func args prio len k = Ok (success, task_id_gen k + 1, k')"
    using args k1(1) m1 m2 p(1) sp k'(1) task_frame_fields(6) [OF k1(3)] sz
    by (simp add: helios_add_task_def helios_malloc_def k4_def Let_def)
  moreover have "boot_frame p xs (k\<lparr>kheap := h2\<rparr>) k'"
    using k'(5) task_frame_fields(2,8) [OF k1(3)] task_frame_settings [OF k1(3)] task_frame_links [OF k1(3)] fr(4,5)
    by (simp add: boot_frame_def ready_links_outside_def links) (simp add: k4_def upd_tcb_def get_next_def get_prev_def)
  ultimately show ?thesis using k' by blast
qed

text \<open>C4: Adding a task before the scheduler runs, with both allocations successful and a fresh control
  block whose ready links are equal, pauses and resumes every task on the way and ends with the
  invariant of the boot phase: the new task stands in the circular ready list behind all tasks of
  at most its priority, every task is ready, nobody waits, and the task has the next identifier,
  which is also what the caller's handle gets.\<close>

theorem helios_add_task_boot:
  assumes "boot_inv k xs" and "malloc (sizeof_tcb k) (kheap k) = Ok (p, h1)" and "malloc len h1 = Ok (sp, h2)"
    and "p \<noteq> 0" "p \<notin> set xs" and "sp \<noteq> 0"
    and "get_next False k p = get_prev False k p"
    and "name \<noteq> 0" "func \<noteq> 0" "len \<noteq> 0" "1 \<le> prio" "prio < 255" and "length xs < fuel"
  shows "\<exists>k'. helios_add_task fuel 0 name func args prio len k = Ok (success, task_id_gen k + 1, k')
    \<and> boot_inv k' (prio_insert ((\<lambda>q. priority (tcbs k q))(p := prio)) p xs)
    \<and> task_id (tcbs k' p) = task_id_gen k + 1 \<and> priority (tcbs k' p) = prio"
  using add_task_boot_result [OF assms] by blast

text \<open>An empty kernel on a heap of one free block of 400 bytes.\<close>

definition fresh_kernel :: kernel where
  "fresh_kernel = demo_kernel\<lparr>tcbs := (\<lambda>p. demo_tcb 2 0 0), ready_list_head := 0, task_id_gen := 0\<rparr>"

lemma demo_heap_400_wf: "heap_wf (demo_heap 400) [(400, True)]"
  by (simp add: heap_wf_def demo_heap_def)

lemma fresh_mallocs:
  "\<exists>h1 h2. malloc 52 (kheap fresh_kernel) = Ok (28, h1) \<and> malloc 64 h1 = Ok (96, h2)"
proof -
  obtain h1 where h1: "malloc 52 (demo_heap 400) = Ok (28, h1)" "heap_wf h1 [(56, False), (332, True)]"
    "heap_start h1 = heap_start (demo_heap 400)"
    using malloc_refines [OF demo_heap_400_wf, of 52] by (auto simp: roundup_align_def demo_heap_def)
  moreover obtain h2 where "malloc 64 h1 = Ok (96, h2)"
    using malloc_refines [OF h1(2), of 64] h1(3) by (auto simp: roundup_align_def demo_heap_def)
  ultimately show ?thesis by (auto simp: fresh_kernel_def demo_kernel_def)
qed

theorem helios_add_task_boot_witness:
  "\<exists>k'. helios_add_task 1 0 1 4 0 2 64 fresh_kernel = Ok (success, 1, k') \<and> boot_inv k' [28]"
proof -
  obtain h1 h2 where m: "malloc (sizeof_tcb fresh_kernel) (kheap fresh_kernel) = Ok (28, h1)" "malloc 64 h1 = Ok (96, h2)"
    using fresh_mallocs by (auto simp: sizeof_tcb_def fresh_kernel_def demo_kernel_def)
  have "boot_inv fresh_kernel []"
    by (simp add: boot_inv_def fresh_kernel_def demo_kernel_def node_list_def)
  moreover have "get_next False fresh_kernel 28 = get_prev False fresh_kernel 28"
    by (simp add: get_next_def get_prev_def fresh_kernel_def demo_kernel_def demo_tcb_def)
  moreover have "task_id_gen fresh_kernel + 1 = 1" by (simp add: fresh_kernel_def)
  ultimately show ?thesis
    using helios_add_task_boot [OF _ m, of "[]" 1 4 2 1 0] by (auto simp: prio_insert_def)
qed

lemma pause_all_loop_stuck: "pause_all_loop f (curr_task k) k = Hang"
  by (induction f) simp_all

lemma pause_all_loop_reaches_current:
  assumes "ready_list k (us @ vs)" and "curr_task k \<in> set vs" and "wait_list k ws" and "set ws \<inter> set vs = {}"
    and "\<forall>v \<in> set vs. task_status (tcbs k v) \<noteq> task_status_pause"
  shows "pause_all_loop f (hd vs) k = Hang"
  using assms
proof (induction vs arbitrary: us ws k f)
  case (Cons v vs)
  show ?case
  proof (cases "v = curr_task k \<or> f = 0")
    case True
    then show ?thesis using pause_all_loop_stuck [of f k] by auto
  next
    case False
    then obtain f' where f: "f = Suc f'" by (cases f) auto
    have r: "node_ring False k (us @ v # vs)" and h: "ready_list_head k = hd (us @ v # vs)"
      using Cons.prems(1) by (auto simp: node_list_def)
    have d: "distinct (us @ v # vs)" using r by (rule node_ring_distinct)
    have v0: "v \<noteq> 0" using r by (auto simp: node_ring_def)
    obtain k1 where k1: "helios_sched_send_to_pause v k = Ok k1" "wait_list k1 (ws @ [v])" "task_frame k k1"
      "\<forall>q. task_status (tcbs k1 q) = (if q = v then task_status_pause else task_status (tcbs k q))"
      using send_to_pause_list [OF Cons.prems(3), of v] Cons.prems(4,5) v0 by auto
    have "curr_task k \<in> set vs" using Cons.prems(2) False by auto
    then obtain w vs' where vs: "vs = w # vs'" by (cases vs) auto
    have "get_next False k v = hd (vs @ us @ [v])"
      using r ring_next(1) unfolding node_ring_def by fast
    then have ne: "get_next False k v = w" "w \<noteq> ready_list_head k"
      using h d vs by (auto simp: hd_append split: if_splits)
    have "pause_all_loop f' (hd vs) k1 = Hang"
    proof (rule Cons.IH)
      show "ready_list k1 ((us @ [v]) @ vs)" using task_frame_ready_list [OF k1(3)] Cons.prems(1) by simp
      show "curr_task k1 \<in> set vs" using \<open>curr_task k \<in> set vs\<close> task_frame_fields(5) [OF k1(3)] by simp
      show "wait_list k1 (ws @ [v])" by (rule k1(2))
      show "set (ws @ [v]) \<inter> set vs = {}" using Cons.prems(4) d by auto
      show "\<forall>u \<in> set vs. task_status (tcbs k1 u) \<noteq> task_status_pause" using Cons.prems(5) k1(4) d by auto
    qed
    then show ?thesis
      using f False k1(1) ne vs task_frame_fields(4) [OF k1(3)] task_frame_links(1) [OF k1(3)] by simp
  qed
qed simp

text \<open>Once the scheduler has a current task that is in the ready list, \<open>helios_pause_all_task\<close>,
  and with it \<open>helios_add_task\<close> with valid arguments, never returns: the loop meets the current task
  and repeats without advancing.\<close>

theorem helios_add_task_hangs_when_running:
  assumes "ready_list k xs" and "curr_task k \<in> set xs" and "wait_list k []"
    and "\<forall>x \<in> set xs. task_status (tcbs k x) \<noteq> task_status_pause"
    and "name \<noteq> 0" and "func \<noteq> 0" and "len \<noteq> 0" and "1 \<le> prio" and "prio < 255"
  shows "\<forall>fuel. helios_pause_all_task fuel k = Hang
    \<and> helios_add_task fuel 0 name func args prio len k = Hang"
proof -
  have "xs \<noteq> []" using assms(2) by auto
  then have h: "ready_list_head k = hd xs" "hd xs \<noteq> 0"
    using assms(1) node_list_head_nz [OF assms(1)] by (simp_all add: node_list_def)
  have "pause_all_loop fuel (hd xs) k = Hang" for fuel
    using pause_all_loop_reaches_current [of k "[]" xs "[]" fuel] assms(1-4) by simp
  then show ?thesis
    using h assms(5-9) by (simp add: helios_pause_all_task_def helios_add_task_def)
qed

theorem helios_add_task_hangs_when_running_witness:
  "\<forall>fuel. helios_pause_all_task fuel (demo_kernel\<lparr>curr_task := 32\<rparr>) = Hang
    \<and> helios_add_task fuel 0 1 4 0 2 64 (demo_kernel\<lparr>curr_task := 32\<rparr>) = Hang"
proof (rule helios_add_task_hangs_when_running [where xs = "[16, 32, 48]"])
  show "ready_list (demo_kernel\<lparr>curr_task := 32\<rparr>) [16, 32, 48]" "wait_list (demo_kernel\<lparr>curr_task := 32\<rparr>) []"
    by (simp_all add: node_list_def node_ring_def demo_kernel_def demo_tcb_def get_next_def get_prev_def)
qed (simp_all add: demo_kernel_def demo_tcb_def)

section \<open>Finding a task by its identifier\<close>

abbreviation (input) find_task :: "kernel \<Rightarrow> u16 \<Rightarrow> ptr list \<Rightarrow> ptr" where
  "find_task k tid xs \<equiv> case find (\<lambda>p. task_id (tcbs k p) = tid) xs of None \<Rightarrow> NULL | Some p \<Rightarrow> p"

lemma get_tcb_loop_result:
  assumes "ready_list k (us @ vs)" and "vs \<noteq> []" and "length vs \<le> f"
  shows "get_tcb_loop f tid (hd vs) k = Ok (find_task k tid (butlast vs))"
  using assms
proof (induction vs arbitrary: us f)
  case (Cons v vs)
  obtain f' where f: "f = Suc f'" using Cons.prems(3) by (cases f) auto
  have r: "node_ring False k (us @ v # vs)" and h: "ready_list_head k = hd (us @ v # vs)"
    using Cons.prems(1) by (auto simp: node_list_def)
  have d: "distinct (us @ v # vs)" using r by (rule node_ring_distinct)
  have v0: "v \<noteq> 0" using r by (auto simp: node_ring_def)
  have nx: "get_next False k v = hd (vs @ us @ [v])"
    using r ring_next(1) unfolding node_ring_def by fast
  show ?case
  proof (cases vs)
    case Nil
    then have "get_next False k v = ready_list_head k" using nx h by (cases us) auto
    then show ?thesis using f v0 Nil by simp
  next
    case (Cons w ws)
    have "get_next False k v = w" "w \<noteq> ready_list_head k"
      using nx h d Cons by (auto simp: hd_append split: if_splits)
    moreover have "get_tcb_loop f' tid (hd vs) k = Ok (find_task k tid (butlast vs))"
      using Cons.prems f Cons by (intro Cons.IH [of "us @ [v]"]) simp_all
    ultimately show ?thesis using f v0 Cons by simp
  qed
qed simp

text \<open>Looking a task up by its identifier finds the first task of the ready list that has it, but
  never the last one: the loop ends before it compares the node that points back to the head, and
  the answer is then NULL as for an unknown identifier.\<close>

theorem get_tcb_skips_last:
  assumes "ready_list k xs" and "xs \<noteq> []" and "length xs \<le> fuel"
  shows "helios_get_tcb_using_task_id fuel tid k = Ok (find_task k tid (butlast xs))"
  using get_tcb_loop_result [of k "[]" xs fuel tid] assms
  by (simp add: helios_get_tcb_using_task_id_def node_list_def)

theorem get_tcb_skips_last_witness:
  "helios_get_tcb_using_task_id 3 7 (upd_tcb 48 (\<lambda>t. t\<lparr>task_id := 7\<rparr>) demo_kernel) = Ok NULL"
proof -
  let ?k = "upd_tcb 48 (\<lambda>t. t\<lparr>task_id := 7\<rparr>) demo_kernel"
  have "ready_list ?k [16, 32, 48]" using demo_ready by (simp add: node_list_upd)
  then show ?thesis
    using get_tcb_skips_last [of ?k "[16, 32, 48]" 3 7]
    by (simp add: upd_tcb_def demo_kernel_def demo_tcb_def)
qed

section \<open>Reaping terminated tasks\<close>

text \<open>When the task after the idle task has terminated, the idle task's clean-up unlinks and frees
  the idle task itself and keeps the terminated one: afterwards the ready list starts with the
  terminated task and the idle task's control block is no longer allocated.\<close>

theorem free_terminated_task_frees_wrong_one:
  assumes l: "ready_list k (h # t # xs)" and st: "task_status (tcbs k t) = task_status_exit"
    and good: "heap_good (kheap k)" and live: "(unat h, m) \<in> heap_live (kheap k)"
    and live2: "(unat (stack_ptr (tcbs k h)), n) \<in> heap_live (kheap k)" and ne: "stack_ptr (tcbs k h) \<noteq> h"
  shows "\<exists>k'. free_terminated_task h k = Ok (t, k') \<and> ready_list k' (t # xs)
    \<and> (unat h, m) \<notin> heap_live (kheap k') \<and> task_status (tcbs k' t) = task_status_exit"
proof -
  have r: "node_ring False k ([] @ h # t # xs)" and hd: "ready_list_head k = h"
    using l by (auto simp: node_list_def)
  have nz: "h \<noteq> 0" "t \<noteq> 0" and nx: "get_next False k h = t" using r by (auto simp: node_ring_def)
  obtain k1 where k1: "helios_sched_node_detach False h k = Ok (success, k1)" "node_ring False k1 (t # xs)"
    "link_frame False (k\<lparr>ready_list_head := t\<rparr>) k1"
    using detach_node [OF r] hd nx by (auto simp: head_moved_def)
  note fr = link_frame_fields [OF k1(3)]
  have sp: "stack_ptr (tcbs k1 h) = stack_ptr (tcbs k h)"
    using link_frame_stack_ptr [OF k1(3)] by simp
  obtain h1 where h1: "free (stack_ptr (tcbs k h)) (kheap k) = Ok h1" "heap_good h1"
    "heap_live h1 = heap_live (kheap k) - {(unat (stack_ptr (tcbs k h)), n)}"
    using libc.release_block [OF good live2] by blast
  have "unat h \<noteq> unat (stack_ptr (tcbs k h))" using ne word_unat_eq_iff by metis
  then have "(unat h, m) \<in> heap_live h1" using h1(3) live by simp
  then obtain h2 where h2: "free h h1 = Ok h2" "heap_live h2 = heap_live h1 - {(unat h, m)}"
    using libc.release_block [OF h1(2)] by blast
  have "free_terminated_task h k = Ok (t, k1\<lparr>kheap := h2\<rparr>)"
    using nz nx st k1(1) sp h1(1) h2(1) fr(8)
    by (simp add: free_terminated_task_def helios_free_def)
  moreover have "ready_list k1 (t # xs)" using k1(2) fr(5) by (simp add: node_list_def)
  then have "ready_list (k1\<lparr>kheap := h2\<rparr>) (t # xs)" by simp
  ultimately show ?thesis using h2(2) fr(1) [of t] st by fastforce
qed

definition reap_heap :: heap where
  "reap_heap = (demo_heap 400)\<lparr>chunks := (chunks (demo_heap 400))
     (16 := \<lparr>chunk_size = 60, chunk_free = 0, chunk_next = 88\<rparr>,
      88 := \<lparr>chunk_size = 68, chunk_free = 0, chunk_next = 168\<rparr>,
      168 := \<lparr>chunk_size = 248, chunk_free = 1, chunk_next = 0\<rparr>)\<rparr>"

definition reap_kernel :: kernel where
  "reap_kernel = demo_kernel\<lparr>tcbs := (\<lambda>p. if p = 28 then (demo_tcb 1 200 200)\<lparr>stack_ptr := 100\<rparr>
       else (demo_tcb 2 28 28)\<lparr>task_status := task_status_exit\<rparr>),
     ready_list_head := 28, kheap := reap_heap\<rparr>"

lemma reap_heap_wf: "heap_wf reap_heap [(60, False), (68, False), (248, True)]"
  by (simp add: heap_wf_def reap_heap_def demo_heap_def)

lemma reap_heap_live: "heap_live reap_heap = {(28, 60), (100, 68)}"
  using heap_live_eq [OF reap_heap_wf] by (auto simp: reap_heap_def demo_heap_def)

theorem free_terminated_task_frees_wrong_one_witness:
  "\<exists>k'. free_terminated_task 28 reap_kernel = Ok (200, k') \<and> ready_list k' [200]
    \<and> (28, 60) \<notin> heap_live (kheap k')"
proof -
  have k: "kheap reap_kernel = reap_heap" "stack_ptr (tcbs reap_kernel 28) = 100"
    by (simp_all add: reap_kernel_def)
  have "ready_list reap_kernel (28 # 200 # [])"
    by (simp add: node_list_def node_ring_def reap_kernel_def demo_tcb_def get_next_def get_prev_def)
  moreover have "heap_good (kheap reap_kernel)" using reap_heap_wf k by (auto simp: heap_good_def)
  moreover have "task_status (tcbs reap_kernel 200) = task_status_exit" by (simp add: reap_kernel_def)
  ultimately show ?thesis
    using free_terminated_task_frees_wrong_one [of reap_kernel 28 200 "[]" 60 68]
    by (auto simp: k reap_heap_live)
qed

end
