(* ===== verification/Helios_Sync.thy ===== *)
theory Helios_Sync
  imports Helios_Tasks
begin

text \<open>
  The mutexes and semaphores of the Helios kernel (\<open>helios_mutex.c\<close>, \<open>helios_sem.c\<close>).

  Both structures start with their value word, which \<open>sync_val\<close> holds by address, followed by the
  initialisation flag (\<open>sync_init\<close>) and, for a mutex, the task that holds it (\<open>lock_task\<close>). A
  pointer variable \<open>*mutex_ptr\<close> that a function writes is passed in and returned.
\<close>

section \<open>Mutexes\<close>

abbreviation (input) MUTEX_INIT_VAL :: u32 where
  "MUTEX_INIT_VAL \<equiv> 1"

abbreviation (input) sizeof_mutex :: size_t where
  "sizeof_mutex \<equiv> 12"

definition helios_mutex_create :: "ptr \<Rightarrow> kernel \<Rightarrow> (status_t \<times> ptr \<times> kernel) outcome" where
  "helios_mutex_create mutex_ptr k =
     (if mutex_ptr \<noteq> NULL then Ok (error_func_inval_arg, mutex_ptr, k)
      else obind (helios_malloc sizeof_mutex k) (\<lambda>(m, k1).
        if m = NULL then Ok (error_memory_low, m, k1)
        else Ok (success, m, k1\<lparr>sync_val := (sync_val k1)(m := MUTEX_INIT_VAL),
                                 sync_init := (sync_init k1)(m := 1)\<rparr>)))"

definition helios_mutex_lock :: "nat \<Rightarrow> ptr \<Rightarrow> size_t \<Rightarrow> kernel \<Rightarrow> (status_t \<times> kernel) outcome" where
  "helios_mutex_lock fuel m wait_ticks k =
     (if m = NULL \<or> sync_init k m = 0 then Ok (error_func_inval_arg, k)
      else let locked = k\<lparr>lock_task := (lock_task k)(m := curr_task k),
                          sync_val := (sync_val k)(m := sync_val k m - 1)\<rparr>
      in if sync_val k m \<noteq> MUTEX_INIT_VAL \<and> lock_task k m \<noteq> NULL
         then if wait_ticks = 0 then Ok (error_os_mutex_lock, k)
              else if lock_task k m \<noteq> curr_task k
              then require (curr_task k \<noteq> NULL) Null_deref
                (obind (helios_task_wait fuel wait_ticks
                          (upd_tcb (curr_task k) (\<lambda>t. t\<lparr>wait_res := (wait_res t)\<lparr>wait_on_resource := m\<rparr>\<rparr>) k))
                   (\<lambda>k1. Ok (success, k1)))
              else Ok (success, locked)
         else Ok (success, locked))"

definition helios_mutex_unlock :: "ptr \<Rightarrow> kernel \<Rightarrow> status_t \<times> kernel" where
  "helios_mutex_unlock m k =
     (if m = NULL \<or> sync_init k m = 0 then (error_func_inval_arg, k)
      else if lock_task k m \<noteq> curr_task k then (error_os_mutex_unlock, k)
      else let k1 = k\<lparr>sync_val := (sync_val k)(m := sync_val k m + 1)\<rparr>
           in (success, if sync_val k1 m = MUTEX_INIT_VAL
                        then k1\<lparr>lock_task := (lock_task k1)(m := NULL)\<rparr> else k1))"

definition helios_mutex_delete :: "ptr \<Rightarrow> kernel \<Rightarrow> (status_t \<times> kernel) outcome" where
  "helios_mutex_delete m k =
     (if m = NULL \<or> sync_init k m = 0 then Ok (error_func_inval_arg, k)
      else obind (helios_free m (k\<lparr>sync_init := (sync_init k)(m := 0)\<rparr>)) (\<lambda>k1. Ok (success, k1)))"

definition helios_mutex_get_val :: "ptr \<Rightarrow> kernel \<Rightarrow> status_t \<times> u32 option" where
  "helios_mutex_get_val m k =
     (if m = NULL \<or> sync_init k m = 0 then (error_func_inval_arg, None) else (success, Some (sync_val k m)))"

section \<open>Semaphores\<close>

abbreviation (input) sizeof_sem :: size_t where
  "sizeof_sem \<equiv> 8"

definition helios_sem_create :: "ptr \<Rightarrow> size_t \<Rightarrow> kernel \<Rightarrow> (status_t \<times> ptr \<times> kernel) outcome" where
  "helios_sem_create sem_ptr init_val k =
     (if sem_ptr \<noteq> NULL then Ok (error_func_inval_arg, sem_ptr, k)
      else obind (helios_malloc sizeof_sem k) (\<lambda>(s, k1).
        if s = NULL then Ok (error_memory_low, s, k1)
        else Ok (success, s, k1\<lparr>sync_val := (sync_val k1)(s := init_val),
                                 sync_init := (sync_init k1)(s := 1)\<rparr>)))"

definition helios_sem_take :: "nat \<Rightarrow> ptr \<Rightarrow> size_t \<Rightarrow> kernel \<Rightarrow> (status_t \<times> kernel) outcome" where
  "helios_sem_take fuel s wait_ticks k =
     (if s = NULL \<or> sync_init k s = 0 then Ok (error_func_inval_arg, k)
      else if sync_val k s = 0
      then if wait_ticks = 0 then Ok (error_os_sem_get, k)
           else require (curr_task k \<noteq> NULL) Null_deref
             (obind (helios_task_wait fuel wait_ticks
                       (upd_tcb (curr_task k) (\<lambda>t. t\<lparr>wait_res := (wait_res t)\<lparr>wait_on_resource := s\<rparr>\<rparr>) k))
                (\<lambda>k1. Ok (success, k1)))
      else Ok (success, k\<lparr>sync_val := (sync_val k)(s := sync_val k s - 1)\<rparr>))"

definition helios_sem_give :: "ptr \<Rightarrow> kernel \<Rightarrow> status_t \<times> kernel" where
  "helios_sem_give s k =
     (if s = NULL \<or> sync_init k s = 0 then (error_func_inval_arg, k)
      else (success, k\<lparr>sync_val := (sync_val k)(s := sync_val k s + 1)\<rparr>))"

text \<open>\<open>helios_sem_delete\<close> checks the address of the pointer variable, not the pointer.\<close>

definition helios_sem_delete :: "ptr \<Rightarrow> kernel \<Rightarrow> (status_t \<times> kernel) outcome" where
  "helios_sem_delete s k =
     require (s \<noteq> NULL) Null_deref
       (if sync_init k s = 0 then Ok (error_func_inval_arg, k)
        else obind (helios_free s (k\<lparr>sync_init := (sync_init k)(s := 0)\<rparr>)) (\<lambda>k1. Ok (success, k1)))"

definition helios_sem_get_val :: "ptr \<Rightarrow> kernel \<Rightarrow> status_t \<times> size_t option" where
  "helios_sem_get_val s k =
     (if s = NULL \<or> sync_init k s = 0 then (error_func_inval_arg, None) else (success, Some (sync_val k s)))"

section \<open>The scheduler keeps the synchronisation words\<close>

definition sync_of :: "kernel \<Rightarrow> (ptr \<Rightarrow> u32) \<times> (ptr \<Rightarrow> u8) \<times> (ptr \<Rightarrow> ptr)" where
  "sync_of k = (sync_val k, sync_init k, lock_task k)"

lemma sync_of_upd [simp]:
  "sync_of (upd_tcb p f k) = sync_of k" "sync_of (set_next w p v k) = sync_of k"
  "sync_of (set_prev w p v k) = sync_of k" "sync_of (k\<lparr>wait_list_head := h\<rparr>) = sync_of k"
  "sync_of (k\<lparr>ready_list_head := h\<rparr>) = sync_of k" "sync_of (k\<lparr>notified := l\<rparr>) = sync_of k"
  by (simp_all add: sync_of_def upd_tcb_def set_next_def set_prev_def)

lemma sync_insert_before: "helios_sched_insert_before w p n k = Ok (st, h, k') \<Longrightarrow> sync_of k' = sync_of k"
  by (auto simp: helios_sched_insert_before_def Let_def outcome_simps split: if_splits)

lemma sync_detach: "helios_sched_node_detach w n k = Ok (st, k') \<Longrightarrow> sync_of k' = sync_of k"
  by (auto simp: helios_sched_node_detach_def Let_def outcome_simps split: if_splits)

lemma sync_wait: "helios_sched_send_to_wait p t k = Ok k' \<Longrightarrow> sync_of k' = sync_of k"
  by (auto simp: helios_sched_send_to_wait_def Let_def outcome_simps dest!: sync_insert_before split: if_splits)

lemma sync_resume: "helios_sched_send_to_resume p k = Ok k' \<Longrightarrow> sync_of k' = sync_of k"
  by (auto simp: helios_sched_send_to_resume_def Let_def outcome_simps dest!: sync_detach split: if_splits)

lemma sync_send_back: "helios_sched_send_back_of_task_prio f n k = Ok (st, k') \<Longrightarrow> sync_of k' = sync_of k"
  by (auto simp: helios_sched_send_back_of_task_prio_def Let_def outcome_simps
      dest!: sync_insert_before sync_detach split: if_splits)

lemma sync_wait_tick: "wait_tick r p k = Ok k' \<Longrightarrow> sync_of k' = sync_of k"
  by (auto simp: wait_tick_def Let_def dest!: sync_resume split: if_splits)

lemma sync_wait_loop: "wait_list_loop f r p k = Ok k' \<Longrightarrow> sync_of k' = sync_of k"
  by (induction f r p k arbitrary: k' rule: wait_list_loop.induct)
    (auto simp: outcome_simps dest!: sync_wait_tick split: if_splits)

lemma sync_deadlock_loop: "deadlock_loop f p k = Ok k' \<Longrightarrow> sync_of k' = sync_of k"
proof (induction f p k arbitrary: k' rule: deadlock_loop.induct)
  case (2 n p k)
  have "sync_of (deadlock_tick p k) = sync_of k" by (auto simp: deadlock_tick_def Let_def)
  then show ?case using 2 by (auto simp: Let_def split: if_splits)
qed simp

lemma sync_pre_sched: "helios_pre_sched f k = Ok k' \<Longrightarrow> sync_of k' = sync_of k"
  by (auto simp: helios_pre_sched_def helios_sched_wait_list_adjustment_def
      helios_sched_deadlock_adjustment_and_detection_def outcome_simps
      dest!: sync_wait_loop sync_deadlock_loop sync_send_back split: if_splits)

lemma sync_priority_loop: "priority_loop f p k = Ok (q, k') \<Longrightarrow> sync_of k' = sync_of k"
  by (induction f p k arbitrary: q k' rule: priority_loop.induct)
    (auto simp: outcome_simps Let_def dest!: sync_resume split: if_splits)

lemma sync_run_algo: "run_algo f i k = Ok k' \<Longrightarrow> sync_of k' = sync_of k"
  by (auto simp: run_algo_def helios_sched_algo_round_robin_fn_def helios_sched_algo_priority_driven_fn_def
      helios_sched_context_switch_def Let_def outcome_simps dest!: sync_resume sync_priority_loop split: if_splits)

lemma sync_despatch: "helios_scheduler_despatch f k = Ok k' \<Longrightarrow> sync_of k' = sync_of k"
  by (auto simp: helios_scheduler_despatch_def outcome_simps dest!: sync_pre_sched sync_run_algo
      split: if_splits option.splits)

lemma sync_task_wait: "helios_task_wait f t k = Ok k' \<Longrightarrow> sync_of k' = sync_of k"
  by (auto simp: helios_task_wait_def helios_task_yield_def outcome_simps
      dest!: sync_wait sync_despatch split: if_splits)

section \<open>What a mutex promises\<close>

text \<open>The abstract mutex is free or held by a task, recursively, to some depth.\<close>

datatype amutex = Free | Held ptr nat

primrec alock :: "ptr \<Rightarrow> amutex \<Rightarrow> amutex option" where
  "alock c Free = Some (Held c 1)"
| "alock c (Held t d) = (if t = c then Some (Held c (d + 1)) else None)"

primrec aunlock :: "ptr \<Rightarrow> amutex \<Rightarrow> amutex option" where
  "aunlock c Free = None"
| "aunlock c (Held t d) = (if t = c then Some (if d = 1 then Free else Held c (d - 1)) else None)"

definition mutex_abs :: "kernel \<Rightarrow> ptr \<Rightarrow> amutex" where
  "mutex_abs k m = (if sync_val k m = 1 then Free else Held (lock_task k m) (unat (1 - sync_val k m)))"

text \<open>A mutex that was created and used through its operations: free mutexes have no owner, held ones
  have one. The depth counts how far the value lies below its initial value.\<close>

definition mutex_wf :: "kernel \<Rightarrow> ptr \<Rightarrow> bool" where
  "mutex_wf k m \<longleftrightarrow> m \<noteq> 0 \<and> sync_init k m \<noteq> 0 \<and> (sync_val k m = 1 \<longleftrightarrow> lock_task k m = 0)"

lemma depth_step:
  fixes v :: u32
  assumes "unat (1 - v) < 4294967295"
  shows "unat (1 - (v - 1)) = unat (1 - v) + 1" and "v - 1 \<noteq> 1"
proof -
  have "1 - (v - 1) = (1 - v) + 1" by simp
  moreover have "unat ((1 - v) + 1) = unat (1 - v) + 1"
    using assms by (subst unat_word_ariths) simp
  ultimately show u: "unat (1 - (v - 1)) = unat (1 - v) + 1" by (simp only:)
  show "v - 1 \<noteq> 1"
  proof
    assume "v - 1 = 1"
    then have "unat (1 - (v - 1)) = 0" by simp
    with u show False by simp
  qed
qed

lemma depth_back:
  fixes v :: u32
  assumes "v \<noteq> 1"
  shows "unat (1 - (v + 1)) = unat (1 - v) - 1" and "v + 1 = 1 \<longleftrightarrow> unat (1 - v) = 1"
proof -
  have "1 - v \<noteq> 0" using assms by simp
  then have "unat (1 - v - 1) = unat (1 - v) - 1" by (rule unat_minus_one)
  then show "unat (1 - (v + 1)) = unat (1 - v) - 1" by simp
  have "unat (1 - v) = 1 \<longleftrightarrow> 1 - v = (1 :: u32)" by (metis unat_1 word_unat_eq_iff)
  then show "v + 1 = 1 \<longleftrightarrow> unat (1 - v) = 1" by (auto simp: algebra_simps)
qed

text \<open>C8: \<open>helios_mutex_lock\<close> against the abstract recursive mutex: a free mutex is taken at depth one; a task that holds it
  and gives a waiting time goes one level deeper; with no waiting time (\<open>ticks = 0\<close>) every lock of a mutex that is held is
  refused with \<open>error_os_mutex_lock\<close> and changes nothing. The refusal covers the holder itself, contrary to
  \<open>helios_mutex.h\<close>, which promises that the task that holds the mutex can lock it again: in this one case the code does
  not implement the abstract mutex. Nothing is stated for another task that waits.\<close>

theorem mutex_lock_refines:
  assumes "mutex_wf k m" and "curr_task k \<noteq> 0" and "unat (1 - sync_val k m) < 4294967295"
  shows "case alock (curr_task k) (mutex_abs k m) of
      Some a \<Rightarrow> if ticks = 0 \<and> mutex_abs k m \<noteq> Free then helios_mutex_lock fuel m ticks k = Ok (error_os_mutex_lock, k)
        else (\<exists>k'. helios_mutex_lock fuel m ticks k = Ok (success, k') \<and> mutex_abs k' m = a \<and> mutex_wf k' m)
    | None \<Rightarrow> ticks = 0 \<longrightarrow> helios_mutex_lock fuel m ticks k = Ok (error_os_mutex_lock, k)"
proof (cases "sync_val k m = 1")
  case True
  then show ?thesis
    using assms by (simp add: helios_mutex_lock_def mutex_abs_def mutex_wf_def)
next
  case False
  then show ?thesis
    using assms depth_step [OF assms(3)]
    by (auto simp: helios_mutex_lock_def mutex_abs_def mutex_wf_def Let_def)
qed

text \<open>A kernel with a free mutex at 64 and the current task 32.\<close>

definition mutex_kernel :: kernel where
  "mutex_kernel = demo_kernel\<lparr>curr_task := 32, sync_val := (\<lambda>_. 1), sync_init := (\<lambda>_. 1)\<rparr>"

lemma mutex_kernel_wf: "mutex_wf mutex_kernel 64" "curr_task mutex_kernel = 32" "sync_val mutex_kernel 64 = 1"
  by (simp_all add: mutex_wf_def mutex_kernel_def demo_kernel_def)

theorem mutex_lock_refines_witness:
  "\<exists>k'. helios_mutex_lock 0 64 5 mutex_kernel = Ok (success, k') \<and> mutex_abs k' 64 = Held 32 1"
proof -
  have a: "mutex_abs mutex_kernel 64 = Free" by (simp add: mutex_abs_def mutex_kernel_wf)
  show ?thesis using mutex_lock_refines [OF mutex_kernel_wf(1), of 5 0] by (auto simp: mutex_kernel_wf a)
qed

text \<open>C9: \<open>helios_mutex_unlock\<close> implements the abstract recursive mutex: the holder's unlock undoes one
  lock and frees the mutex at depth one; any other task's unlock is refused and changes nothing.\<close>

theorem mutex_unlock_refines:
  assumes "mutex_wf k m" and "curr_task k \<noteq> 0"
  shows "case aunlock (curr_task k) (mutex_abs k m) of
      Some a \<Rightarrow> \<exists>k'. helios_mutex_unlock m k = (success, k') \<and> mutex_abs k' m = a \<and> mutex_wf k' m
    | None \<Rightarrow> helios_mutex_unlock m k = (error_os_mutex_unlock, k)"
proof (cases "sync_val k m = 1")
  case True
  then show ?thesis
    using assms by (simp add: helios_mutex_unlock_def mutex_abs_def mutex_wf_def)
next
  case False
  then show ?thesis
    using assms depth_back [OF False]
    by (auto simp: helios_mutex_unlock_def mutex_abs_def mutex_wf_def Let_def)
qed

theorem mutex_unlock_refines_witness:
  "helios_mutex_unlock 64 mutex_kernel = (error_os_mutex_unlock, mutex_kernel)"
  using mutex_unlock_refines [OF mutex_kernel_wf(1)] by (simp add: mutex_kernel_wf mutex_abs_def)

text \<open>When another task holds the mutex and the caller is willing to wait, \<open>helios_mutex_lock\<close>
  reports success whenever it returns, although the mutex is still held by the other task: the
  caller waits once and does not try again.\<close>

lemma mutex_lock_contended_not_acquired:
  assumes "mutex_wf k m" and "mutex_abs k m = Held t d" and "t \<noteq> curr_task k" and "ticks \<noteq> 0"
    and "helios_mutex_lock fuel m ticks k = Ok (st, k')"
  shows "st = success \<and> mutex_abs k' m = Held t d"
proof -
  have v: "sync_val k m \<noteq> 1" "lock_task k m = t" "t \<noteq> 0"
    using assms(1,2) by (auto simp: mutex_abs_def mutex_wf_def split: if_splits)
  from assms(5) v assms(1,3,4) have st: "st = success"
    and w: "helios_task_wait fuel ticks
      (upd_tcb (curr_task k) (\<lambda>t. t\<lparr>wait_res := (wait_res t)\<lparr>wait_on_resource := m\<rparr>\<rparr>) k) = Ok k'"
    by (auto simp: helios_mutex_lock_def mutex_wf_def outcome_simps)
  have "sync_of k' = sync_of k" using sync_task_wait [OF w] by simp
  then have "mutex_abs k' m = mutex_abs k m" by (simp add: mutex_abs_def sync_of_def)
  then show ?thesis using st assms(2) by simp
qed

lemma wait_list_loop_stuck:
  "p \<noteq> 0 \<Longrightarrow> task_status (tcbs k p) \<noteq> task_status_wait \<Longrightarrow> wait_list_loop f r p k = Hang"
  by (induction f) simp_all

text \<open>A task that goes to wait on an empty wait list is marked ready again by the scheduler's first
  step while it is still the head of the wait list, where the loop over that list waits for a
  state that never comes.\<close>

lemma task_wait_hangs:
  assumes "wait_list k []" and "curr_task k \<noteq> 0" and "task_status (tcbs k (curr_task k)) \<noteq> task_status_wait"
    and "pre_sched k" and "ticks \<noteq> 0"
  shows "helios_task_wait fuel ticks k = Hang"
proof -
  let ?c = "curr_task k"
  obtain k1 where k1: "helios_sched_send_to_wait ?c ticks k = Ok k1" "wait_list k1 [?c]" "task_frame k k1"
    using send_to_wait_list [OF assms(1) _ assms(2,3), of ticks] by auto
  let ?k2 = "set_status ?c task_status_ready k1"
  have c: "curr_task k1 = ?c" "pre_sched k1" and h: "wait_list_head k1 = ?c"
    using task_frame_fields(5) [OF k1(3)] task_frame_hooks(1) [OF k1(3)] k1(2) assms(4)
    by (auto simp: node_list_def)
  have "wait_list_loop f r ?c ?k2 = Hang" for f r
    using assms(2) by (intro wait_list_loop_stuck) (simp_all add: upd_tcb_def)
  then have "helios_pre_sched f k1 = Hang" for f
    using assms(2) c h by (simp add: helios_pre_sched_def helios_sched_wait_list_adjustment_def)
  then show ?thesis
    using k1(1) c assms(5) by (simp add: helios_task_wait_def helios_task_yield_def
        helios_scheduler_despatch_def word_neq_0_conv)
qed

text \<open>When another task holds the mutex and nobody waits yet, a task that calls
  \<open>helios_mutex_lock\<close> with a waiting time never returns, and neither does one that takes an empty
  semaphore with a waiting time.\<close>

theorem blocking_lock_never_returns:
  assumes "mutex_wf k m" and "mutex_abs k m = Held t d" and "t \<noteq> curr_task k" and "ticks \<noteq> 0"
    and "wait_list k []" and "curr_task k \<noteq> 0" and "task_status (tcbs k (curr_task k)) \<noteq> task_status_wait"
    and "pre_sched k" and "s \<noteq> 0" and "sync_init k s \<noteq> 0" and "sync_val k s = 0"
  shows "\<forall>fuel. helios_mutex_lock fuel m ticks k = Hang \<and> helios_sem_take fuel s ticks k = Hang"
proof -
  have v: "sync_val k m \<noteq> 1" "lock_task k m = t" "t \<noteq> 0"
    using assms(1,2) by (auto simp: mutex_abs_def mutex_wf_def split: if_splits)
  have "helios_task_wait fuel ticks
      (upd_tcb (curr_task k) (\<lambda>t. t\<lparr>wait_res := (wait_res t)\<lparr>wait_on_resource := r\<rparr>\<rparr>) k) = Hang" for fuel r
    using assms(4-8) by (intro task_wait_hangs) (simp_all add: node_list_upd, simp_all add: upd_tcb_def)
  then show ?thesis
    using v assms by (simp add: helios_mutex_lock_def helios_sem_take_def mutex_wf_def)
qed

theorem blocking_lock_never_returns_witness:
  "\<forall>fuel. helios_mutex_lock fuel 64 5 (mutex_kernel\<lparr>sync_val := (\<lambda>_. 0), lock_task := (\<lambda>_. 48)\<rparr>) = Hang
    \<and> helios_sem_take fuel 68 5 (mutex_kernel\<lparr>sync_val := (\<lambda>_. 0), lock_task := (\<lambda>_. 48)\<rparr>) = Hang"
proof (rule blocking_lock_never_returns [where t = 48 and d = 1])
  let ?k = "mutex_kernel\<lparr>sync_val := (\<lambda>_. 0), lock_task := (\<lambda>_. 48)\<rparr>"
  show "mutex_wf ?k 64" "mutex_abs ?k 64 = Held 48 1"
    by (simp_all add: mutex_wf_def mutex_abs_def mutex_kernel_def)
  show "wait_list ?k []" by (simp add: node_list_def mutex_kernel_def demo_kernel_def)
qed (simp_all add: mutex_kernel_def demo_kernel_def demo_tcb_def)

text \<open>A semaphore counts: \<open>helios_sem_give\<close> adds one, \<open>helios_sem_take\<close> of a positive value subtracts
  one and of a zero value, without a waiting time, is refused and changes nothing; a give followed
  by a take restores the value unless the counter wrapped.\<close>

theorem sem_give_take:
  assumes "s \<noteq> 0" and "sync_init k s \<noteq> 0" and "sync_val k s \<noteq> - 1"
  shows "\<exists>k1 k2. helios_sem_give s k = (success, k1) \<and> unat (sync_val k1 s) = unat (sync_val k s) + 1
    \<and> helios_sem_take fuel s ticks k1 = Ok (success, k2) \<and> sync_val k2 = sync_val k
    \<and> (sync_val k s = 0 \<longrightarrow> helios_sem_take fuel s 0 k = Ok (error_os_sem_get, k))"
proof -
  have "sync_val k s + 1 \<noteq> 0" using assms(3) by (metis add_eq_0_iff2)
  moreover then have "unat (sync_val k s + 1) = unat (sync_val k s) + 1"
    using unat_minus_one [of "sync_val k s + 1"] unat_gt_0 [of "sync_val k s + 1"] by simp
  ultimately show ?thesis
    using assms(1,2) by (simp add: helios_sem_give_def helios_sem_take_def)
qed

theorem sem_give_take_witness:
  "\<exists>k1 k2. helios_sem_give 64 mutex_kernel = (success, k1)
    \<and> helios_sem_take 0 64 0 k1 = Ok (success, k2) \<and> sync_val k2 = sync_val mutex_kernel"
  using sem_give_take [of 64 mutex_kernel 0 0] by (auto simp: mutex_kernel_def)

section \<open>Counting semaphores as an interface\<close>

text \<open>The contract of a counting semaphore: an operation gives the new state, or nothing when it is refused. The
  client runs any sequence of operations; a refused one is skipped.\<close>

datatype sem_op = Give | Take

primrec sem_run :: "('s \<Rightarrow> 's option) \<Rightarrow> ('s \<Rightarrow> 's option) \<Rightarrow> sem_op list \<Rightarrow> 's \<Rightarrow> nat \<times> 's" where
  "sem_run give tk [] s = (0, s)"
| "sem_run give tk (x # xs) s =
     (case x of
        Give \<Rightarrow> sem_run give tk xs (case give s of Some s1 \<Rightarrow> s1 | None \<Rightarrow> s)
      | Take \<Rightarrow> (case tk s of
                  Some s1 \<Rightarrow> (case sem_run give tk xs s1 of (n, s2) \<Rightarrow> (Suc n, s2))
                | None \<Rightarrow> sem_run give tk xs s))"

locale counting =
  fixes give tk :: "'s \<Rightarrow> 's option" and cnt :: "'s \<Rightarrow> nat" and ok :: "'s \<Rightarrow> bool" and cap :: nat
  assumes give_adds: "\<lbrakk>ok s; cnt s < cap\<rbrakk> \<Longrightarrow> \<exists>s1. give s = Some s1 \<and> ok s1 \<and> cnt s1 = Suc (cnt s)"
    and take_subtracts: "\<lbrakk>ok s; 0 < cnt s\<rbrakk> \<Longrightarrow> \<exists>s1. tk s = Some s1 \<and> ok s1 \<and> Suc (cnt s1) = cnt s"
    and take_refused: "\<lbrakk>ok s; cnt s = 0\<rbrakk> \<Longrightarrow> tk s = None"
begin

lemma run_conserves:
  assumes "ok s" and "cnt s + length (filter ((=) Give) ops) \<le> cap" and "sem_run give tk ops s = (n, s1)"
  shows "ok s1 \<and> cnt s1 + n = cnt s + length (filter ((=) Give) ops)"
  using assms
proof (induction ops arbitrary: s n)
  case Nil
  then show ?case by simp
next
  case (Cons x xs)
  show ?case
  proof (cases x)
    case Give
    then obtain s2 where "give s = Some s2" "ok s2" "cnt s2 = Suc (cnt s)" using give_adds [of s] Cons.prems by auto
    then show ?thesis using Cons.IH [of s2 n] Cons.prems Give by simp
  next
    case Take
    show ?thesis
    proof (cases "cnt s = 0")
      case True
      then show ?thesis using Cons.IH [of s n] Cons.prems Take take_refused by simp
    next
      case False
      then obtain s2 where "tk s = Some s2" "ok s2" "Suc (cnt s2) = cnt s" using take_subtracts [of s] Cons.prems by auto
      then show ?thesis using Cons.IH [of s2] Cons.prems Take by (auto split: prod.splits)
    qed
  qed
qed

end

text \<open>The semaphores of the kernel, taken without waiting.\<close>

definition helios_give :: "ptr \<Rightarrow> kernel \<Rightarrow> kernel option" where
  "helios_give s k = (case helios_sem_give s k of (st, k1) \<Rightarrow> if st = success then Some k1 else None)"

definition helios_take :: "ptr \<Rightarrow> kernel \<Rightarrow> kernel option" where
  "helios_take s k = (case helios_sem_take 0 s 0 k of Ok (st, k1) \<Rightarrow> if st = success then Some k1 else None | _ \<Rightarrow> None)"

lemma unat_add_1: "unat (x :: u32) < 4294967295 \<Longrightarrow> unat (x + 1) = Suc (unat x)"
  by (simp add: unat_word_ariths)

lemma unat_sub_1: "0 < unat (x :: u32) \<Longrightarrow> Suc (unat (x - 1)) = unat x"
  using unat_minus_one [of x] by fastforce

interpretation hsem: counting "helios_give s" "helios_take s" "\<lambda>k. unat (sync_val k s)" "\<lambda>k. s \<noteq> NULL \<and> sync_init k s \<noteq> 0" 4294967295
  by unfold_locales
    (auto simp: helios_give_def helios_take_def helios_sem_give_def helios_sem_take_def unat_add_1 unat_sub_1 unat_gt_0 unat_eq_0)

text \<open>C37: the semaphore conserves what it counts: a give adds one and a take without waiting removes one or is refused at 0, so
  that after any sequence of them the value plus the number of takes that succeeded is the initial value plus the number of
  gives, as long as the 32-bit counter does not wrap. The comments in \<open>helios_sem.h\<close> describe the two operations the other way
  round (give as a decrement, take as an increment); this is the direction of the code.\<close>

theorem sem_conserves:
  assumes "s \<noteq> NULL" and "sync_init k s \<noteq> 0" and "unat (sync_val k s) + length (filter ((=) Give) ops) < 2 ^ 32"
    and "sem_run (helios_give s) (helios_take s) ops k = (n, k1)"
  shows "unat (sync_val k1 s) + n = unat (sync_val k s) + length (filter ((=) Give) ops)"
  using hsem.run_conserves [of s k ops n k1] assms by simp

theorem sem_conserves_witness:
  "\<exists>n k1. sem_run (helios_give 64) (helios_take 64) [Give, Take, Take, Take, Give] mutex_kernel = (n, k1)
     \<and> unat (sync_val k1 64) + n = 3"
proof -
  obtain n k1 where r: "sem_run (helios_give 64) (helios_take 64) [Give, Take, Take, Take, Give] mutex_kernel = (n, k1)"
    by fastforce
  show ?thesis using sem_conserves [OF _ _ _ r] r by (simp add: mutex_kernel_def)
qed

end
