(* ===== verification/Posix_Time.thy ===== *)
theory Posix_Time
  imports C_String CC_Status "HOL-Library.Signed_Division"
begin

text \<open>
  The time arithmetic of the POSIX layer (\<open>src/src/lib/libposix/src/posix_utils.c\<close>).

  \<open>time_t\<close> is \<open>int64_t\<close> and \<open>long\<close> is 32 bits wide; the fields are integers kept in those ranges by
  \<open>wrap64\<close> and \<open>wrap32\<close>, applied where the C expression is converted or stored. Division and
  remainder truncate towards zero (\<open>sdiv\<close>, \<open>smod\<close>). An argument that may be NULL is an option, and
  a result structure is passed in and returned. \<open>errno.h\<close> defines the error numbers as negated
  status codes, so that \<open>-EINVAL\<close> is the positive code \<open>error_func_inval_arg\<close>.
\<close>

section \<open>Types and constants\<close>

definition wrap32 :: "int \<Rightarrow> int" where
  "wrap32 x = signed_take_bit 31 x"

definition wrap64 :: "int \<Rightarrow> int" where
  "wrap64 x = signed_take_bit 63 x"

record timespec =
  tv_sec :: int
  tv_nsec :: int

abbreviation (input) NANOSECONDS_PER_SECOND :: int where
  "NANOSECONDS_PER_SECOND \<equiv> 1000000000"

abbreviation (input) posixconfigTICK_RATE_HZ :: int where
  "posixconfigTICK_RATE_HZ \<equiv> 1000"

abbreviation (input) NANOSECONDS_PER_TICK :: int where
  "NANOSECONDS_PER_TICK \<equiv> 1000000"

text \<open>\<open>-EINVAL\<close> and \<open>-ETIMEDOUT\<close>.\<close>

abbreviation (input) neg_EINVAL :: int where
  "neg_EINVAL \<equiv> 0x0003"

abbreviation (input) neg_ETIMEDOUT :: int where
  "neg_ETIMEDOUT \<equiv> 0x0c01"

section \<open>The functions\<close>

primrec UTILS_strnlen_loop :: "nat \<Rightarrow> mem \<Rightarrow> ptr \<Rightarrow> nat" where
  "UTILS_strnlen_loop 0 m s = 0"
| "UTILS_strnlen_loop (Suc n) m s = (if m s \<noteq> 0 then Suc (UTILS_strnlen_loop n m (s + 1)) else 0)"

definition UTILS_strnlen :: "mem \<Rightarrow> ptr \<Rightarrow> size_t \<Rightarrow> size_t" where
  "UTILS_strnlen m s max_len = (if s \<noteq> NULL then of_nat (UTILS_strnlen_loop (unat max_len) m s) else 0)"

definition UTILS_TimespecCompare :: "timespec option \<Rightarrow> timespec option \<Rightarrow> int" where
  "UTILS_TimespecCompare px py =
     (case (px, py) of
        (None, None) \<Rightarrow> 0
      | (Some x, None) \<Rightarrow> 1
      | (None, Some y) \<Rightarrow> - 1
      | (Some x, Some y) \<Rightarrow>
          if tv_sec x > tv_sec y then 1
          else if tv_sec x < tv_sec y then - 1
          else if tv_nsec x > tv_nsec y then 1
          else if tv_nsec x < tv_nsec y then - 1
          else 0)"

definition UTILS_ValidateTimespec :: "timespec option \<Rightarrow> bool" where
  "UTILS_ValidateTimespec p =
     (case p of None \<Rightarrow> False | Some t \<Rightarrow> tv_nsec t \<ge> 0 \<and> tv_nsec t < NANOSECONDS_PER_SECOND)"

definition UTILS_TimespecSubtract ::
  "timespec option \<Rightarrow> timespec option \<Rightarrow> timespec option \<Rightarrow> int \<times> timespec option" where
  "UTILS_TimespecSubtract px py pr =
     (case (px, py, pr) of
        (Some x, Some y, Some r) \<Rightarrow>
          (let comp = UTILS_TimespecCompare px py
           in if comp = - 1 then (1, Some r)
              else if comp = 0 then (0, Some (r\<lparr>tv_sec := 0, tv_nsec := 0\<rparr>))
              else let sec = wrap64 (tv_sec x - tv_sec y);
                       nsec = wrap32 (tv_nsec x - tv_nsec y);
                       sec' = (if nsec < 0 then wrap64 (sec - 1) else sec);
                       nsec' = (if nsec < 0 then wrap32 (nsec + NANOSECONDS_PER_SECOND) else nsec)
                   in (if nsec' < 0 then - 1 else 0, Some (r\<lparr>tv_sec := sec', tv_nsec := nsec'\<rparr>)))
      | _ \<Rightarrow> (- 1, pr))"

definition UTILS_TimespecToTicks :: "timespec option \<Rightarrow> u32 option \<Rightarrow> int \<times> u32 option" where
  "UTILS_TimespecToTicks pt pr =
     (case (pt, pr) of
        (Some t, Some r) \<Rightarrow>
          if \<not> UTILS_ValidateTimespec pt then (neg_EINVAL, pr)
          else let secs = wrap64 (posixconfigTICK_RATE_HZ * tv_sec t);
                   nano_secs = wrap32 (tv_nsec t sdiv NANOSECONDS_PER_TICK
                                 + (if tv_nsec t smod NANOSECONDS_PER_TICK \<noteq> 0 then 1 else 0));
                   total_ticks = wrap64 (secs + nano_secs)
               in (if total_ticks < 0 then neg_EINVAL
                   else if total_ticks > 4294967295 then neg_EINVAL else 0,
                   Some (word_of_int total_ticks))
      | _ \<Rightarrow> (neg_EINVAL, pr))"

definition UTILS_AbsoluteTimespecToDeltaTicks ::
  "timespec option \<Rightarrow> timespec option \<Rightarrow> u32 option \<Rightarrow> int \<times> u32 option" where
  "UTILS_AbsoluteTimespecToDeltaTicks pabs pcur pr =
     (if pabs = None \<or> pcur = None \<or> pr = None then (neg_EINVAL, pr)
      else case UTILS_TimespecSubtract pabs pcur (Some \<lparr>tv_sec = 0, tv_nsec = 0\<rparr>) of
             (err, diff) \<Rightarrow>
               if err = 1 then (neg_ETIMEDOUT, pr)
               else if err = - 1 then (neg_EINVAL, pr)
               else UTILS_TimespecToTicks diff pr)"

definition UTILS_NanosecondsToTimespec :: "int \<Rightarrow> timespec" where
  "UTILS_NanosecondsToTimespec src =
     (let sec = wrap64 (src sdiv NANOSECONDS_PER_SECOND);
          nsec = wrap32 (src smod NANOSECONDS_PER_SECOND)
      in if nsec < 0
         then let carry_sec = wrap32 (nsec sdiv NANOSECONDS_PER_SECOND + 1)
              in \<lparr>tv_sec = wrap64 (sec - carry_sec),
                  tv_nsec = wrap32 (nsec + carry_sec * NANOSECONDS_PER_SECOND)\<rparr>
         else \<lparr>tv_sec = sec, tv_nsec = nsec\<rparr>)"

definition UTILS_TimespecAdd ::
  "timespec option \<Rightarrow> timespec option \<Rightarrow> timespec option \<Rightarrow> int \<times> timespec option" where
  "UTILS_TimespecAdd px py pr =
     (case (px, py, pr) of
        (Some x, Some y, Some r) \<Rightarrow>
          (let nsec = wrap32 (tv_nsec x + tv_nsec y)
           in if nsec < 0 then (1, Some (r\<lparr>tv_nsec := nsec\<rparr>))
              else let partial_sec = nsec sdiv NANOSECONDS_PER_SECOND;
                       sec = wrap64 (tv_sec x + tv_sec y + partial_sec)
                   in (if sec < 0 then 1 else 0,
                       Some (r\<lparr>tv_sec := sec, tv_nsec := nsec smod NANOSECONDS_PER_SECOND\<rparr>)))
      | _ \<Rightarrow> (- 1, pr))"

definition UTILS_TimespecAddNanoseconds ::
  "timespec option \<Rightarrow> int \<Rightarrow> timespec option \<Rightarrow> int \<times> timespec option" where
  "UTILS_TimespecAddNanoseconds px nanos pr =
     (case (px, pr) of
        (Some x, Some r) \<Rightarrow>
          (let total_sec = wrap64 (tv_nsec x + nanos)
           in if total_sec < 0 then (1, Some r)
              else let sec = wrap64 (tv_sec x + total_sec sdiv NANOSECONDS_PER_SECOND)
                   in (if sec < 0 then 1 else 0,
                       Some (r\<lparr>tv_nsec := wrap32 (total_sec smod NANOSECONDS_PER_SECOND),
                               tv_sec := sec\<rparr>)))
      | _ \<Rightarrow> (- 1, pr))"

section \<open>Time as a number of nanoseconds\<close>

definition ns :: "timespec \<Rightarrow> int" where
  "ns t = tv_sec t * 1000000000 + tv_nsec t"

definition valid :: "timespec \<Rightarrow> bool" where
  "valid t \<longleftrightarrow> 0 \<le> tv_nsec t \<and> tv_nsec t < 1000000000
     \<and> - (2 ^ 63) \<le> tv_sec t \<and> tv_sec t < 2 ^ 63"

lemma wrap32_id: "- 2147483648 \<le> x \<Longrightarrow> x < 2147483648 \<Longrightarrow> wrap32 x = x"
  by (simp add: wrap32_def signed_take_bit_int_eq_self)

lemma wrap64_id: "- 9223372036854775808 \<le> x \<Longrightarrow> x < 9223372036854775808 \<Longrightarrow> wrap64 x = x"
  by (simp add: wrap64_def signed_take_bit_int_eq_self)

lemma sdiv_smod_nonneg:
  fixes x y :: int
  assumes "0 \<le> x" and "0 < y"
  shows "x sdiv y = x div y" and "x smod y = x mod y"
proof -
  show "x sdiv y = x div y" using assms by (simp add: signed_divide_int_def sgn_if)
  show "x smod y = x mod y" using assms by (simp add: signed_modulo_int_def sgn_if)
qed

lemma compare_sign:
  assumes "valid x" and "valid y"
  shows "UTILS_TimespecCompare (Some x) (Some y) = sgn (ns x - ns y)"
  using assms by (auto simp: UTILS_TimespecCompare_def ns_def valid_def sgn_if)

lemma subtract_exact:
  assumes "valid x" and "valid y" and "0 \<le> tv_sec x" and "0 \<le> tv_sec y"
  shows "if ns x < ns y then UTILS_TimespecSubtract (Some x) (Some y) (Some r) = (1, Some r)
    else (\<exists>d. UTILS_TimespecSubtract (Some x) (Some y) (Some r) = (0, Some d) \<and> valid d \<and> ns d = ns x - ns y)"
proof -
  note c = compare_sign [OF assms(1,2)]
  consider (less) "ns x < ns y" | (eq) "ns x = ns y" | (gt) "ns x > ns y" by linarith
  then show ?thesis
  proof cases
    case less
    then show ?thesis using c by (simp add: UTILS_TimespecSubtract_def)
  next
    case eq
    then show ?thesis using c by (simp add: UTILS_TimespecSubtract_def valid_def ns_def)
  next
    case gt
    have w: "wrap64 (tv_sec x - tv_sec y) = tv_sec x - tv_sec y"
      "wrap64 (tv_sec x - tv_sec y - 1) = tv_sec x - tv_sec y - 1"
      "wrap32 (tv_nsec x - tv_nsec y) = tv_nsec x - tv_nsec y"
      "tv_nsec x < tv_nsec y \<Longrightarrow> wrap32 (tv_nsec x - tv_nsec y + 1000000000) = tv_nsec x - tv_nsec y + 1000000000"
      using assms by (auto simp: valid_def intro!: wrap64_id wrap32_id)
    show ?thesis
      using gt c w assms
      by (cases "tv_nsec x < tv_nsec y") (auto simp: UTILS_TimespecSubtract_def Let_def valid_def ns_def)
  qed
qed

text \<open>On valid times (nanoseconds within a second) with non-negative seconds, \<open>UTILS_TimespecSubtract\<close>
  reports 1 exactly when the first is earlier than the second; otherwise it reports 0 and its
  result is a valid time, the exact difference in nanoseconds.\<close>

theorem timespec_subtract_exact:
  assumes "valid x" and "valid y" and "0 \<le> tv_sec x" and "0 \<le> tv_sec y"
  shows "if ns x < ns y then UTILS_TimespecSubtract (Some x) (Some y) (Some r) = (1, Some r)
    else (\<exists>d. UTILS_TimespecSubtract (Some x) (Some y) (Some r) = (0, Some d) \<and> valid d \<and> ns d = ns x - ns y)"
  using subtract_exact [OF assms] .

theorem timespec_subtract_exact_witness:
  "\<exists>d. UTILS_TimespecSubtract (Some \<lparr>tv_sec = 5, tv_nsec = 1\<rparr>) (Some \<lparr>tv_sec = 3, tv_nsec = 2\<rparr>)
      (Some \<lparr>tv_sec = 0, tv_nsec = 0\<rparr>) = (0, Some d) \<and> ns d = 1999999999"
  using timespec_subtract_exact [of "\<lparr>tv_sec = 5, tv_nsec = 1\<rparr>" "\<lparr>tv_sec = 3, tv_nsec = 2\<rparr>"
      "\<lparr>tv_sec = 0, tv_nsec = 0\<rparr>"]
  by (auto simp: valid_def ns_def)

text \<open>\<open>UTILS_NanosecondsToTimespec\<close> turns every 64-bit number of nanoseconds, negative ones included,
  into the valid time of exactly that many nanoseconds.\<close>

theorem nanoseconds_to_timespec_exact:
  assumes "- (2 ^ 63) \<le> n" and "n < 2 ^ 63"
  shows "valid (UTILS_NanosecondsToTimespec n) \<and> ns (UTILS_NanosecondsToTimespec n) = n"
proof -
  let ?q = "n sdiv 1000000000" and ?r = "n smod 1000000000"
  have n: "n = ?q * 1000000000 + ?r"
  proof (cases "n < 0")
    case True
    then have "?q = - ((- n) div 1000000000)" "?r = - ((- n) mod 1000000000)"
      by (simp_all add: signed_modulo_int_def signed_divide_int_def sgn_if)
    then show ?thesis using div_mult_mod_eq [of "- n" 1000000000] by linarith
  next
    case False
    then show ?thesis using sdiv_smod_nonneg [of n 1000000000] by simp
  qed
  have r: "\<bar>?r\<bar> < 1000000000" "0 \<le> n \<Longrightarrow> 0 \<le> ?r" "n < 0 \<Longrightarrow> ?r \<le> 0"
  proof -
    show "0 \<le> n \<Longrightarrow> 0 \<le> ?r" using sdiv_smod_nonneg(2) [of n 1000000000] by simp
    have neg: "?r = - ((- n) mod 1000000000)" if "n < 0"
      using that by (simp add: signed_modulo_int_def sgn_if)
    then show "n < 0 \<Longrightarrow> ?r \<le> 0" by simp
    show "\<bar>?r\<bar> < 1000000000"
      using neg sdiv_smod_nonneg(2) [of n 1000000000] by (cases "n < 0") simp_all
  qed
  have "- 9223372036854775808 \<le> n" "n < 9223372036854775808" using assms by simp_all
  then have q: "- 9223372037 \<le> ?q" "?q \<le> 9223372037" using n r(1) by linarith+
  have w: "wrap64 ?q = ?q" "wrap32 ?r = ?r" "wrap64 (?q - 1) = ?q - 1"
    using q r by (auto intro!: wrap64_id wrap32_id)
  show ?thesis
  proof (cases "?r < 0")
    case True
    have "?r sdiv 1000000000 = 0" using r True by (simp add: signed_divide_int_def sgn_if)
    moreover have "wrap32 (?r + 1000000000) = ?r + 1000000000" "wrap32 1 = 1"
      using r True by (auto intro!: wrap32_id)
    ultimately show ?thesis
      using True w n r q by (simp add: UTILS_NanosecondsToTimespec_def Let_def valid_def ns_def)
  next
    case False
    then show ?thesis
      using w n r q by (simp add: UTILS_NanosecondsToTimespec_def Let_def valid_def ns_def)
  qed
qed

theorem nanoseconds_to_timespec_exact_witness:
  "ns (UTILS_NanosecondsToTimespec (- 1)) = - 1"
  using nanoseconds_to_timespec_exact [of "- 1"] by simp

lemma ceil_div:
  fixes n d :: int
  assumes "0 < d"
  shows "n div d + (if n mod d \<noteq> 0 then 1 else 0) = (n + (d - 1)) div d"
proof -
  have m: "0 \<le> n mod d" "n mod d < d" using assms by simp_all
  have "n + (d - 1) = n div d * d + (n mod d + (d - 1))" by simp
  then have q: "(n + (d - 1)) div d = n div d + (n mod d + (d - 1)) div d"
    using assms by (simp only: div_mult_self3)
  show ?thesis
  proof (cases "n mod d = 0")
    case True
    then show ?thesis using q assms by (simp add: div_pos_pos_trivial)
  next
    case False
    then have "(n mod d - 1) div d = 0" using m by (intro div_pos_pos_trivial) simp_all
    moreover have "((n mod d - 1) + d) div d = (n mod d - 1) div d + 1"
      by (rule div_add_self2) (use assms in simp)
    moreover have "n mod d + (d - 1) = (n mod d - 1) + d" by simp
    ultimately have "(n mod d + (d - 1)) div d = 1" by (simp only: add_0)
    then show ?thesis using q False by simp
  qed
qed

lemma to_ticks_exact:
  assumes "valid t" and "0 \<le> tv_sec t" and "tv_sec t \<le> 4294967"
  shows "UTILS_TimespecToTicks (Some t) (Some r) =
    (let n = (ns t + 999999) div 1000000 in (if n > 4294967295 then neg_EINVAL else 0, Some (word_of_int n)))"
proof -
  let ?f = "tv_nsec t div 1000000 + (if tv_nsec t mod 1000000 \<noteq> 0 then 1 else 0)"
  have d: "tv_nsec t sdiv 1000000 = tv_nsec t div 1000000" "tv_nsec t smod 1000000 = tv_nsec t mod 1000000"
    using assms(1) sdiv_smod_nonneg [of "tv_nsec t" 1000000] by (simp_all add: valid_def)
  have f: "?f = (tv_nsec t + 999999) div 1000000" using ceil_div [of 1000000 "tv_nsec t"] by simp
  have fb: "0 \<le> ?f" "?f \<le> 1000" using assms(1) unfolding f by (simp_all add: valid_def) linarith+
  have n: "(ns t + 999999) div 1000000 = 1000 * tv_sec t + ?f"
  proof -
    have "ns t + 999999 = (1000 * tv_sec t) * 1000000 + (tv_nsec t + 999999)" by (simp add: ns_def)
    then show ?thesis unfolding f by (simp only: div_mult_self3)
  qed
  have w: "wrap64 (1000 * tv_sec t) = 1000 * tv_sec t" "wrap32 ?f = ?f"
    "wrap64 (1000 * tv_sec t + ?f) = 1000 * tv_sec t + ?f"
    using assms fb by (auto intro!: wrap64_id wrap32_id simp del: if_split)
  have v: "UTILS_ValidateTimespec (Some t)" using assms(1) by (simp add: UTILS_ValidateTimespec_def valid_def)
  have nn: "\<not> 1000 * tv_sec t + ?f < 0" using assms(2) fb by linarith
  show ?thesis
    unfolding n by (simp only: UTILS_TimespecToTicks_def prod.case option.case v d w Let_def nn if_False not_True_eq_False)
qed

text \<open>C33: \<open>UTILS_AbsoluteTimespecToDeltaTicks\<close>, on valid times with non-negative seconds less than 4294967
  seconds apart, reports a timeout exactly when the absolute time has passed; otherwise it
  returns 0 and the number of kernel ticks (one millisecond each) that cover the remaining time:
  the quotient rounded up, so that a wait of that many ticks never ends early.\<close>

theorem absolute_to_delta_ticks_exact:
  assumes "valid a" and "valid c" and "0 \<le> tv_sec a" and "0 \<le> tv_sec c" and "tv_sec a - tv_sec c < 4294967"
  shows "UTILS_AbsoluteTimespecToDeltaTicks (Some a) (Some c) (Some r) =
    (if ns a < ns c then (neg_ETIMEDOUT, Some r)
     else (0, Some (word_of_int ((ns a - ns c + 999999) div 1000000))))
    \<and> (ns c \<le> ns a \<longrightarrow> (ns a - ns c + 999999) div 1000000 * 1000000 \<ge> ns a - ns c)"
proof (cases "ns a < ns c")
  case True
  then show ?thesis
    using compare_sign [OF assms(1,2)]
    by (simp add: UTILS_AbsoluteTimespecToDeltaTicks_def UTILS_TimespecSubtract_def)
next
  case False
  let ?z = "\<lparr>tv_sec = 0, tv_nsec = 0\<rparr>"
  obtain d where d: "UTILS_TimespecSubtract (Some a) (Some c) (Some ?z) = (0, Some d)" "valid d" "ns d = ns a - ns c"
    using subtract_exact [OF assms(1-4), of ?z] False by auto
  have "0 \<le> ns d" "ns d < 4294967 * 1000000000 + 1000000000"
    using d(3) False assms by (simp_all add: ns_def valid_def)
  then have b: "0 \<le> tv_sec d" "tv_sec d \<le> 4294967" using d(2) by (simp_all add: ns_def valid_def)
  have "ns d + 999999 < 4294967296 * 1000000"
    using d(3) assms by (simp add: ns_def valid_def)
  then have "(ns d + 999999) div 1000000 \<le> 4294967295" by linarith
  then have "UTILS_TimespecToTicks (Some d) (Some r) = (0, Some (word_of_int ((ns d + 999999) div 1000000)))"
    using to_ticks_exact [OF d(2) b, of r] by (simp add: Let_def)
  then show ?thesis
    using d False by (simp add: UTILS_AbsoluteTimespecToDeltaTicks_def)
qed

theorem absolute_to_delta_ticks_exact_witness:
  "UTILS_AbsoluteTimespecToDeltaTicks (Some \<lparr>tv_sec = 2, tv_nsec = 1\<rparr>) (Some \<lparr>tv_sec = 1, tv_nsec = 0\<rparr>) (Some 0)
    = (0, Some 1001)"
  using absolute_to_delta_ticks_exact [of "\<lparr>tv_sec = 2, tv_nsec = 1\<rparr>" "\<lparr>tv_sec = 1, tv_nsec = 0\<rparr>" 0]
  by (simp add: valid_def ns_def)

end
