(* ===== verification/Locks.thy ===== *)
theory Locks
  imports CC_Prelude
begin

text \<open>
  The locks of \<open>src/src/lib/liblocks\<close> and of the RISC-V architecture layer.

  Each core (or, for the interrupt-masking spinlock, each thread of one core) has a program counter,
  and one step of it performs one access to the shared lock word, so that every interleaving of the
  accesses is an execution. The accesses are \<open>volatile\<close> and separated by \<open>arch_dmb\<close> or \<open>fence\<close>; steps
  interleave in one global order. Spinning is a step that leaves the state as it is.

  \<^item> \<open>transition_system\<close> is the locale of such systems: an invariant of the initial state that each
    enabled step keeps holds in all reachable states. It is interpreted on the three locks.
  \<^item> \<open>bakerylock.c\<close>: Lamport's bakery with 8-bit tickets. Mutual exclusion holds as long as no ticket
    wraps around, and two cores that take turns 255 times break it.
  \<^item> \<open>spinlock.c\<close> of the A extension (\<open>amoswap\<close>) and of the base ISA (interrupts off).
\<close>

section \<open>Transition systems\<close>

locale transition_system =
  fixes init :: "'s \<Rightarrow> bool" and step :: "'s \<Rightarrow> 's \<Rightarrow> bool" and inv :: "'s \<Rightarrow> bool"
  assumes init_inv: "init s \<Longrightarrow> inv s"
    and step_inv: "inv s \<Longrightarrow> step s s' \<Longrightarrow> inv s'"
begin

lemma reach_inv:
  assumes "init s" and "step\<^sup>*\<^sup>* s s'"
  shows "inv s'"
  using assms(2)
proof (induction rule: rtranclp_induct)
  case base
  then show ?case using assms(1) by (rule init_inv)
next
  case (step y z)
  then show ?case by (blast intro: step_inv)
qed

end

section \<open>The bakery lock\<close>

record bakerylock =
  thread_count :: "nat \<Rightarrow> u8"
  protect :: "nat \<Rightarrow> bool"

text \<open>The program points of \<open>bakerylock_acquire\<close>, named after the next access: the scan for the
  greatest ticket with its index and maximum, the end of the doorway, and for each index the test of
  \<open>protect\<close> and the three reads of \<open>thread_count[i]\<close> in the loop condition.\<close>

datatype bpc =
    B_Idle
  | B_Scan nat u32
  | B_Unprotect
  | B_WaitP nat
  | B_WaitZ nat
  | B_WaitL nat
  | B_WaitE nat
  | B_CS

record bakery =
  key :: bakerylock
  bpcs :: "nat \<Rightarrow> bpc"

definition bakerylock_acquire :: "nat \<Rightarrow> nat \<Rightarrow> bpc \<Rightarrow> bakerylock \<Rightarrow> bpc \<times> bakerylock" where
  "bakerylock_acquire n tid pc k =
     (case pc of
        B_Idle \<Rightarrow> (B_Scan 0 0, k\<lparr>protect := (protect k)(tid := True)\<rparr>)
      | B_Scan i n_max \<Rightarrow>
          if i < n
          then let n_cust = ucast (thread_count k i) :: u32
               in (B_Scan (i + 1) (if n_cust > n_max then n_cust else n_max), k)
          else (B_Unprotect, k\<lparr>thread_count := (thread_count k)(tid := ucast (n_max + 1))\<rparr>)
      | B_Unprotect \<Rightarrow> (B_WaitP 0, k\<lparr>protect := (protect k)(tid := False)\<rparr>)
      | B_WaitP i \<Rightarrow>
          if i < n then (if protect k i then B_WaitP i else B_WaitZ i, k) else (B_CS, k)
      | B_WaitZ i \<Rightarrow> (if thread_count k i \<noteq> 0 then B_WaitL i else B_WaitP (i + 1), k)
      | B_WaitL i \<Rightarrow> (if thread_count k i < thread_count k tid then B_WaitZ i else B_WaitE i, k)
      | B_WaitE i \<Rightarrow>
          (if thread_count k i = thread_count k tid \<and> i < tid then B_WaitZ i else B_WaitP (i + 1), k)
      | B_CS \<Rightarrow> (B_CS, k))"

definition bakerylock_release :: "nat \<Rightarrow> bakerylock \<Rightarrow> bakerylock" where
  "bakerylock_release tid k = k\<lparr>thread_count := (thread_count k)(tid := 0)\<rparr>"

definition bakery_step :: "nat \<Rightarrow> nat \<Rightarrow> bakery \<Rightarrow> bakery" where
  "bakery_step n tid s =
     (case bpcs s tid of
        B_CS \<Rightarrow> s\<lparr>key := bakerylock_release tid (key s), bpcs := (bpcs s)(tid := B_Idle)\<rparr>
      | pc \<Rightarrow> (case bakerylock_acquire n tid pc (key s) of
                 (pc', k') \<Rightarrow> s\<lparr>key := k', bpcs := (bpcs s)(tid := pc')\<rparr>))"

definition bakery_init :: "bakery \<Rightarrow> bool" where
  "bakery_init s \<longleftrightarrow> (\<forall>t. thread_count (key s) t = 0 \<and> \<not> protect (key s) t \<and> bpcs s t = B_Idle)"

inductive bakery_trans :: "nat \<Rightarrow> bakery \<Rightarrow> bakery \<Rightarrow> bool" for n where
  bakery_trans: "t < n \<Longrightarrow> bakery_trans n s (bakery_step n t s)"

text \<open>A ticket is about to wrap around when the scan has met the greatest ticket, 255.\<close>

definition no_wrap :: "nat \<Rightarrow> bakery \<Rightarrow> bool" where
  "no_wrap n s \<longleftrightarrow> (\<forall>t < n. \<forall>i m. bpcs s t = B_Scan i m \<longrightarrow> m < 255)"

definition bakery_trans_nw :: "nat \<Rightarrow> bakery \<Rightarrow> bakery \<Rightarrow> bool" where
  "bakery_trans_nw n s s' \<longleftrightarrow> no_wrap n s \<and> bakery_trans n s s'"

subsection \<open>The invariant\<close>

text \<open>\<open>ticketed\<close>: the core holds a ticket; \<open>passed pc j\<close>: the core need not wait for core \<open>j\<close> any more;
  \<open>seen pc j\<close>: it has found core \<open>j\<close> outside the doorway since it took its ticket.\<close>

fun ticketed :: "bpc \<Rightarrow> bool" where
  "ticketed B_Idle = False"
| "ticketed (B_Scan i m) = False"
| "ticketed pc = True"

fun choosing :: "bpc \<Rightarrow> bool" where
  "choosing (B_Scan i m) = True"
| "choosing B_Unprotect = True"
| "choosing pc = False"

fun passed :: "bpc \<Rightarrow> nat \<Rightarrow> bool" where
  "passed (B_WaitP i) j = (j < i)"
| "passed (B_WaitZ i) j = (j < i)"
| "passed (B_WaitL i) j = (j < i)"
| "passed (B_WaitE i) j = (j < i)"
| "passed B_CS j = True"
| "passed pc j = False"

fun seen :: "bpc \<Rightarrow> nat \<Rightarrow> bool" where
  "seen (B_WaitP i) j = (j < i)"
| "seen (B_WaitZ i) j = (j \<le> i)"
| "seen (B_WaitL i) j = (j \<le> i)"
| "seen (B_WaitE i) j = (j \<le> i)"
| "seen B_CS j = True"
| "seen pc j = False"

text \<open>What holds of a core, and of a pair of cores \<open>a\<close>, \<open>b\<close> where \<open>a\<close> may have passed \<open>b\<close>.\<close>

definition core_ok :: "bpc \<Rightarrow> u8 \<Rightarrow> bool \<Rightarrow> bool" where
  "core_ok pc c p \<longleftrightarrow> (ticketed pc \<longleftrightarrow> c \<noteq> 0) \<and> (choosing pc \<longleftrightarrow> p)"

definition pair_ok :: "nat \<Rightarrow> bpc \<Rightarrow> u8 \<Rightarrow> nat \<Rightarrow> bpc \<Rightarrow> u8 \<Rightarrow> bool" where
  "pair_ok a pa ca b pb cb \<longleftrightarrow>
     (seen pa b \<longrightarrow> (\<forall>i m. pb = B_Scan i m \<longrightarrow> a < i \<longrightarrow> (ucast ca :: u32) \<le> m))
     \<and> (pa = B_WaitE b \<longrightarrow> ticketed pb \<longrightarrow> ca \<le> cb)
     \<and> (passed pa b \<longrightarrow> ticketed pb \<longrightarrow> ca < cb \<or> ca = cb \<and> a < b)"

definition bakery_inv :: "nat \<Rightarrow> bakery \<Rightarrow> bool" where
  "bakery_inv n s \<longleftrightarrow>
     (\<forall>t < n. core_ok (bpcs s t) (thread_count (key s) t) (protect (key s) t))
     \<and> (\<forall>a < n. \<forall>b < n. a \<noteq> b \<longrightarrow>
          pair_ok a (bpcs s a) (thread_count (key s) a) b (bpcs s b) (thread_count (key s) b))"


lemma next_ticket:
  assumes "m < (255 :: u32)"
  shows "(ucast (m + 1) :: u8) \<noteq> 0" and "(ucast c :: u32) \<le> m \<Longrightarrow> c < (ucast (m + 1) :: u8)"
proof -
  have m: "unat m < 255" using assms by (simp add: word_less_nat_alt)
  then have "unat (m + 1) = Suc (unat m)" by (simp add: unat_word_ariths)
  then have u: "unat (ucast (m + 1) :: u8) = Suc (unat m)"
    using m by (simp add: unsigned_ucast_eq take_bit_nat_eq_self)
  then show "(ucast (m + 1) :: u8) \<noteq> 0" by auto
  assume "(ucast c :: u32) \<le> m"
  moreover have "unat c < 256" using unsigned_less [of c] by simp
  ultimately have "unat c \<le> unat m" 
    by (simp add: word_le_nat_alt unsigned_ucast_eq take_bit_nat_eq_self)
  then show "c < (ucast (m + 1) :: u8)" using u by (simp add: word_less_nat_alt)
qed


lemmas bakery_defs = bakery_step_def bakerylock_acquire_def bakerylock_release_def

lemma bakery_step_other [simp]:
  assumes "u \<noteq> t"
  shows "bpcs (bakery_step n t s) u = bpcs s u"
    and "thread_count (key (bakery_step n t s)) u = thread_count (key s) u"
    and "protect (key (bakery_step n t s)) u = protect (key s) u"
  using assms by (auto simp: bakery_defs Let_def split: bpc.split)

lemma step_core_ok:
  assumes "core_ok (bpcs s t) (thread_count (key s) t) (protect (key s) t)"
    and "\<And>i m. bpcs s t = B_Scan i m \<Longrightarrow> m < 255"
  shows "core_ok (bpcs (bakery_step n t s) t) (thread_count (key (bakery_step n t s)) t)
    (protect (key (bakery_step n t s)) t)"
  using assms
  by (cases "bpcs s t") (auto simp: bakery_defs core_ok_def Let_def next_ticket)

lemma step_pair_mover:
  assumes "pair_ok t (bpcs s t) (thread_count (key s) t) b (bpcs s b) (thread_count (key s) b)"
    and "core_ok (bpcs s b) (thread_count (key s) b) (protect (key s) b)"
    and "t \<noteq> b" and "b < n"
  shows "pair_ok t (bpcs (bakery_step n t s) t) (thread_count (key (bakery_step n t s)) t)
    b (bpcs s b) (thread_count (key s) b)"
  using assms
  by (cases "bpcs s t") (auto simp: bakery_defs core_ok_def pair_ok_def Let_def not_less less_Suc_eq le_less)

lemma passed_seen: "passed pc j \<Longrightarrow> seen pc j"
  by (cases pc) auto

lemma step_pair_other:
  assumes "pair_ok a (bpcs s a) (thread_count (key s) a) t (bpcs s t) (thread_count (key s) t)"
    and "core_ok (bpcs s a) (thread_count (key s) a) (protect (key s) a)"
    and "\<And>i m. bpcs s t = B_Scan i m \<Longrightarrow> m < 255"
    and "a \<noteq> t" and "a < n"
  shows "pair_ok a (bpcs s a) (thread_count (key s) a)
    t (bpcs (bakery_step n t s) t) (thread_count (key (bakery_step n t s)) t)"
  using assms
  by (cases "bpcs s t") (auto simp: bakery_defs core_ok_def pair_ok_def Let_def next_ticket less_Suc_eq
        dest: passed_seen intro: next_ticket(2) less_imp_le)

interpretation bakery: transition_system bakery_init "bakery_trans_nw n" "bakery_inv n" for n
proof
  fix s s'
  show "bakery_init s \<Longrightarrow> bakery_inv n s"
    by (simp add: bakery_init_def bakery_inv_def core_ok_def pair_ok_def)
  assume inv: "bakery_inv n s" and st: "bakery_trans_nw n s s'"
  then obtain t where t: "t < n" "s' = bakery_step n t s" "no_wrap n s"
    by (auto simp: bakery_trans_nw_def bakery_trans.simps)
  note m = t(3) [unfolded no_wrap_def, rule_format, OF t(1)]
  show "bakery_inv n s'"
    unfolding bakery_inv_def
  proof (intro conjI allI impI)
    fix u assume "u < n"
    then show "core_ok (bpcs s' u) (thread_count (key s') u) (protect (key s') u)"
      using inv m step_core_ok [of s t n] by (cases "u = t") (auto simp: t(2) bakery_inv_def)
  next
    fix a b assume ab: "a < n" "b < n" "a \<noteq> b"
    then have h: "pair_ok a (bpcs s a) (thread_count (key s) a) b (bpcs s b) (thread_count (key s) b)"
      "core_ok (bpcs s a) (thread_count (key s) a) (protect (key s) a)"
      "core_ok (bpcs s b) (thread_count (key s) b) (protect (key s) b)"
      using inv by (auto simp: bakery_inv_def)
    show "pair_ok a (bpcs s' a) (thread_count (key s') a) b (bpcs s' b) (thread_count (key s') b)"
    proof (cases "a = t")
      case True
      then show ?thesis using step_pair_mover [OF h(1) [unfolded True] h(3)] ab by (simp add: t(2))
    next
      case False
      then show ?thesis
        using step_pair_other [of a s b n] h m ab by (cases "b = t") (auto simp: t(2))
    qed
  qed
qed

text \<open>C5: the bakery lock excludes: as long as no scan meets the ticket 255, two cores are never
  in their critical sections together, for any number of cores and any interleaving of their
  accesses to the lock.\<close>

theorem bakery_mutual_exclusion:
  assumes "bakery_init s" and "(bakery_trans_nw n)\<^sup>*\<^sup>* s s'"
    and "a < n" and "b < n" and "bpcs s' a = B_CS" and "bpcs s' b = B_CS"
  shows "a = b"
proof (rule ccontr)
  assume "a \<noteq> b"
  moreover have "bakery_inv n s'" using assms(1,2) by (rule bakery.reach_inv)
  ultimately have "pair_ok a B_CS (thread_count (key s') a) b B_CS (thread_count (key s') b)"
    "pair_ok b B_CS (thread_count (key s') b) a B_CS (thread_count (key s') a)"
    using assms(3-6) by (metis bakery_inv_def)+
  then show False by (auto simp: pair_ok_def)
qed


subsection \<open>Schedules\<close>

text \<open>A schedule names the core that moves at each step; \<open>bakery_run\<close> executes it, and \<open>nw_run\<close> checks
  that no ticket is about to wrap on the way.\<close>

definition bakery_run :: "nat \<Rightarrow> nat list \<Rightarrow> bakery \<Rightarrow> bakery" where
  "bakery_run n ts s = fold (bakery_step n) ts s"

primrec nw_run :: "nat \<Rightarrow> nat list \<Rightarrow> bakery \<Rightarrow> bool" where
  "nw_run n [] s = True"
| "nw_run n (t # ts) s = (t < n \<and> no_wrap n s \<and> nw_run n ts (bakery_step n t s))"

lemma bakery_run_reach:
  "\<forall>t \<in> set ts. t < n \<Longrightarrow> (bakery_trans n)\<^sup>*\<^sup>* s (bakery_run n ts s)"
  by (induction ts arbitrary: s)
    (auto simp: bakery_run_def intro: bakery_trans converse_rtranclp_into_rtranclp)

lemma nw_run_reach:
  "nw_run n ts s \<Longrightarrow> (bakery_trans_nw n)\<^sup>*\<^sup>* s (bakery_run n ts s)"
proof (induction ts arbitrary: s)
  case Nil
  then show ?case by (simp add: bakery_run_def)
next
  case (Cons t ts)
  then have "bakery_trans_nw n s (bakery_step n t s)" by (simp add: bakery_trans_nw_def bakery_trans)
  then show ?case
    using Cons by (auto simp: bakery_run_def intro: converse_rtranclp_into_rtranclp)
qed

definition bakery0 :: bakery where
  "bakery0 = \<lparr>key = \<lparr>thread_count = \<lambda>_. 0, protect = \<lambda>_. False\<rparr>, bpcs = \<lambda>_. B_Idle\<rparr>"

lemma no_wrap_2: "no_wrap 2 s \<longleftrightarrow> (\<forall>t \<in> {0, 1}. case bpcs s t of B_Scan i m \<Rightarrow> m < 255 | _ \<Rightarrow> True)"
  by (auto simp: no_wrap_def less_2_cases_iff split: bpc.splits)

lemmas run_simps = bakery_run_def bakery_defs Let_def no_wrap_2 bakery0_def

theorem bakery_mutual_exclusion_witness:
  "\<exists>s s'. bakery_init s \<and> (bakery_trans_nw 2)\<^sup>*\<^sup>* s s' \<and> bpcs s' 1 = B_CS \<and> bpcs s' 0 \<noteq> B_CS"
proof -
  let ?ts = "[1, 1, 1, 1, 0, 0, 0, 0, 0, 1, 1, 1, 1, 1, 1, 1, 1, 1, 1, 0, 0, 0, 0, 0, 0] :: nat list"
  let ?s = "bakery_run 2 ?ts bakery0"
  have i: "bakery_init bakery0" by (simp add: bakery_init_def bakery0_def)
  have r: "(bakery_trans_nw 2)\<^sup>*\<^sup>* bakery0 ?s" by (rule nw_run_reach) (simp add: run_simps)
  have "bpcs ?s 1 = B_CS" by (simp add: run_simps)
  moreover from this have "bpcs ?s 0 \<noteq> B_CS"
    using bakery_mutual_exclusion [OF i r, of 1 0] by auto
  ultimately show ?thesis using i r by blast
qed

subsection \<open>Tickets are eight bits wide\<close>

definition holds_ticket :: "nat \<Rightarrow> u8 \<Rightarrow> bakery \<Rightarrow> bool" where
  "holds_ticket c x s \<longleftrightarrow>
     bpcs s c = B_CS \<and> thread_count (key s) c = x \<and> bpcs s (1 - c) = B_Idle
     \<and> thread_count (key s) (1 - c) = 0 \<and> \<not> protect (key s) 0 \<and> \<not> protect (key s) 1"

lemma first_ticket:
  assumes "bakery_init s"
  shows "holds_ticket 0 1 (bakery_run 2 (replicate 12 0) s)"
  using assms by (simp add: bakery_init_def holds_ticket_def run_simps numeral_eq_Suc)

lemma ucast_succ: "(ucast (ucast (x :: u8) + 1 :: u32) :: u8) = x + 1"
  by (simp add: word_uint_eq_iff unsigned_ucast_eq take_bit_eq_mod uint_word_ariths mod_simps
      mod_mod_cancel)

lemma ucast_pos: "(x :: u8) \<noteq> 0 \<Longrightarrow> 0 < (ucast x :: u32)"
  using unsigned_less [of x, where ?'a = nat]
  by (simp add: word_gt_0 word_unat_eq_iff unsigned_ucast_eq take_bit_nat_eq_self)

lemma handover:
  assumes "holds_ticket c x s" and "c = 0 \<or> c = 1" and "x \<noteq> 0" and "x + 1 \<noteq> 0"
  shows "holds_ticket (1 - c) (x + 1) (bakery_run 2 ([1-c, 1-c, 1-c, 1-c, 1-c, c] @ replicate 7 (1-c)) s)"
  using assms(2)
proof
  assume "c = 0"
  then show ?thesis
    using assms by (simp add: holds_ticket_def run_simps numeral_eq_Suc ucast_succ ucast_pos)
next
  assume "c = 1"
  then show ?thesis
    using assms by (simp add: holds_ticket_def run_simps numeral_eq_Suc ucast_succ ucast_pos)
qed


lemma double_entry:
  assumes "holds_ticket c 255 s" and "c = 0 \<or> c = 1"
  shows "bpcs (bakery_run 2 ([1-c, 1-c, 1-c, 1-c, 1-c, 1-c, 1-c, 1-c, 1-c, 1-c, 1-c, 1-c]) s) 0 = B_CS
    \<and> bpcs (bakery_run 2 ([1-c, 1-c, 1-c, 1-c, 1-c, 1-c, 1-c, 1-c, 1-c, 1-c, 1-c, 1-c]) s) 1 = B_CS"
  using assms(2) by (rule disjE; use assms in \<open>simp add: holds_ticket_def run_simps\<close>)

lemma tickets_grow:
  assumes "bakery_init s" and "k < 255"
  shows "\<exists>s' c. (bakery_trans 2)\<^sup>*\<^sup>* s s' \<and> (c = 0 \<or> c = 1) \<and> holds_ticket c (of_nat (Suc k)) s'"
  using assms(2)
proof (induction k)
  case 0
  have "(bakery_trans 2)\<^sup>*\<^sup>* s (bakery_run 2 (replicate 12 0) s)" by (rule bakery_run_reach) simp
  then show ?case using first_ticket [OF assms(1)] by (intro exI conjI) simp_all
next
  case (Suc k)
  then obtain s' c where h: "(bakery_trans 2)\<^sup>*\<^sup>* s s'" "c = 0 \<or> c = 1" "holds_ticket c (of_nat (Suc k)) s'"
    by auto
  let ?ts = "[1-c, 1-c, 1-c, 1-c, 1-c, c] @ replicate 7 (1-c)"
  have "(of_nat (Suc k) :: u8) \<noteq> 0" "(of_nat (Suc k) + 1 :: u8) \<noteq> 0"
    using Suc.prems by (simp_all add: word_unat_eq_iff unat_word_ariths unat_of_nat)
  with handover [OF h(3,2)] have "holds_ticket (1 - c) (of_nat (Suc k) + 1) (bakery_run 2 ?ts s')" by simp
  moreover have "(bakery_trans 2)\<^sup>*\<^sup>* s' (bakery_run 2 ?ts s')"
    by (rule bakery_run_reach) (use h(2) in auto)
  ultimately show ?case using h(1,2) by (intro exI [of _ "bakery_run 2 ?ts s'"] exI [of _ "1 - c"]) (auto simp: add.commute)
qed

text \<open>The tickets wrap around: on two cores that hand the lock to each other, the ticket reaches
  255, the next one is stored as 0, which reads as no ticket at all, and both cores are in
  their critical sections together.\<close>

theorem bakery_ticket_wrap:
  assumes "bakery_init s"
  shows "\<exists>s'. (bakery_trans 2)\<^sup>*\<^sup>* s s' \<and> bpcs s' 0 = B_CS \<and> bpcs s' 1 = B_CS"
proof -
  obtain s' c where h: "(bakery_trans 2)\<^sup>*\<^sup>* s s'" "c = 0 \<or> c = 1" "holds_ticket c 255 s'"
    using tickets_grow [OF assms, of 254] by auto
  moreover have "(bakery_trans 2)\<^sup>*\<^sup>* s' (bakery_run 2 ([1-c, 1-c, 1-c, 1-c, 1-c, 1-c, 1-c, 1-c, 1-c, 1-c, 1-c, 1-c]) s')"
    by (rule bakery_run_reach) simp
  ultimately show ?thesis using double_entry [OF h(3,2)] by (meson rtranclp_trans)
qed

theorem bakery_ticket_wrap_witness:
  "\<exists>s'. (bakery_trans 2)\<^sup>*\<^sup>* bakery0 s' \<and> bpcs s' 0 = B_CS \<and> bpcs s' 1 = B_CS"
  by (rule bakery_ticket_wrap) (simp add: bakery_init_def bakery0_def)


section \<open>The spinlock of the A extension\<close>

datatype spc = S_Idle | S_Test | S_Swap | S_CS

text \<open>The loop reads the lock word and, when it is 0, exchanges it with 1 in one atomic \<open>amoswap.w\<close>.\<close>

definition spinlock_acquire_a :: "spc \<Rightarrow> u32 \<Rightarrow> spc \<times> u32" where
  "spinlock_acquire_a pc k =
     (case pc of
        S_Idle \<Rightarrow> (S_Test, k)
      | S_Test \<Rightarrow> (if k \<noteq> 0 then S_Test else S_Swap, k)
      | S_Swap \<Rightarrow> (if k = 0 then S_CS else S_Test, 1)
      | S_CS \<Rightarrow> (S_CS, k))"

definition spinlock_release_a :: "u32 \<Rightarrow> u32" where
  "spinlock_release_a k = 0"

record spin =
  skey :: u32
  spcs :: "nat \<Rightarrow> spc"

inductive spin_trans :: "spin \<Rightarrow> spin \<Rightarrow> bool" where
  spin_acquire: "spcs s t \<noteq> S_CS \<Longrightarrow> spinlock_acquire_a (spcs s t) (skey s) = (pc', k')
    \<Longrightarrow> spin_trans s (s\<lparr>skey := k', spcs := (spcs s)(t := pc')\<rparr>)"
| spin_release: "spcs s t = S_CS
    \<Longrightarrow> spin_trans s (s\<lparr>skey := spinlock_release_a (skey s), spcs := (spcs s)(t := S_Idle)\<rparr>)"

definition spin_init :: "spin \<Rightarrow> bool" where
  "spin_init s \<longleftrightarrow> skey s = 0 \<and> (\<forall>t. spcs s t = S_Idle)"

definition spin_inv :: "spin \<Rightarrow> bool" where
  "spin_inv s \<longleftrightarrow> (\<forall>t. spcs s t = S_CS \<longrightarrow> skey s \<noteq> 0 \<and> (\<forall>u. spcs s u = S_CS \<longrightarrow> u = t))"

interpretation spin: transition_system spin_init spin_trans spin_inv
proof
  fix s s'
  show "spin_init s \<Longrightarrow> spin_inv s" by (simp add: spin_init_def spin_inv_def)
  assume inv: "spin_inv s" and "spin_trans s s'"
  from this(2) show "spin_inv s'"
  proof (cases rule: spin_trans.cases)
    case (spin_acquire t pc' k')
    then show ?thesis
      using inv by (cases "spcs s t") (auto simp: spin_inv_def spinlock_acquire_a_def split: if_splits)
  next
    case (spin_release t)
    then show ?thesis using inv by (auto simp: spin_inv_def)
  qed
qed

text \<open>C11: The \<open>amoswap\<close> spinlock excludes: in every interleaving of any number of cores at most one core
  is past \<open>spinlock_acquire\<close>, and while one is the lock word is not 0.\<close>

theorem spinlock_a_mutual_exclusion:
  assumes "spin_init s" and "spin_trans\<^sup>*\<^sup>* s s'" and "spcs s' a = S_CS"
  shows "skey s' \<noteq> 0 \<and> (\<forall>b. spcs s' b = S_CS \<longrightarrow> b = a)"
  using spin.reach_inv [OF assms(1,2)] assms(3) by (simp add: spin_inv_def)

lemma spin_solo:
  assumes "skey s = 0" and "spcs s t = S_Idle"
  shows "spin_trans\<^sup>*\<^sup>* s (s\<lparr>skey := 1, spcs := (spcs s)(t := S_CS)\<rparr>)"
proof -
  let ?s1 = "s\<lparr>skey := 0, spcs := (spcs s)(t := S_Test)\<rparr>" and ?s2 = "s\<lparr>skey := 0, spcs := (spcs s)(t := S_Swap)\<rparr>"
  have "spin_trans s ?s1"
    using spin_acquire [of s t S_Test 0] assms by (simp add: spinlock_acquire_a_def)
  moreover have "spin_trans ?s1 ?s2"
    using spin_acquire [of ?s1 t S_Swap 0] assms by (simp add: spinlock_acquire_a_def)
  moreover have "spin_trans ?s2 (s\<lparr>skey := 1, spcs := (spcs s)(t := S_CS)\<rparr>)"
    using spin_acquire [of ?s2 t S_CS 1] assms by (simp add: spinlock_acquire_a_def)
  ultimately show ?thesis by (meson rtranclp.rtrancl_into_rtrancl rtranclp.rtrancl_refl)
qed

theorem spinlock_a_mutual_exclusion_witness:
  "\<exists>s'. spin_trans\<^sup>*\<^sup>* \<lparr>skey = 0, spcs = \<lambda>_. S_Idle\<rparr> s' \<and> spcs s' 3 = S_CS \<and> skey s' \<noteq> 0 \<and> spcs s' 4 \<noteq> S_CS"
proof -
  let ?s = "\<lparr>skey = 0, spcs = \<lambda>_. S_Idle\<rparr>" and ?s' = "\<lparr>skey = 1, spcs = (\<lambda>_. S_Idle)(3 := S_CS)\<rparr>"
  have r: "spin_trans\<^sup>*\<^sup>* ?s ?s'" using spin_solo [of ?s 3] by simp
  have "spin_init ?s" by (simp add: spin_init_def)
  moreover have c: "spcs ?s' 3 = S_CS" by simp
  ultimately have x: "skey ?s' \<noteq> 0 \<and> (\<forall>b. spcs ?s' b = S_CS \<longrightarrow> b = 3)"
    using r by (intro spinlock_a_mutual_exclusion)
  have "(4 :: nat) \<noteq> 3" by simp
  then have "spcs ?s' 4 \<noteq> S_CS" using x by blast
  then show ?thesis using r c x by blast
qed

section \<open>The spinlock of the base ISA\<close>

text \<open>The weak definition runs the test and the assignment with interrupts disabled on a single
  hart. Another thread of the hart runs only after a preemption, which needs interrupts enabled.\<close>

datatype ipc = I_Idle | I_Di | I_Read | I_Set | I_EiSpin | I_Ei | I_CS

record ispin =
  ikey :: u32
  imie :: bool
  icur :: nat
  ipcs :: "nat \<Rightarrow> ipc"

definition spinlock_acquire_i :: "ipc \<Rightarrow> u32 \<Rightarrow> bool \<Rightarrow> ipc \<times> u32 \<times> bool" where
  "spinlock_acquire_i pc k mie =
     (case pc of
        I_Idle \<Rightarrow> (I_Di, k, mie)
      | I_Di \<Rightarrow> (I_Read, k, False)
      | I_Read \<Rightarrow> (if k = 0 then I_Set else I_EiSpin, k, mie)
      | I_Set \<Rightarrow> (I_Ei, 1, mie)
      | I_EiSpin \<Rightarrow> (I_Di, k, True)
      | I_Ei \<Rightarrow> (I_CS, k, True)
      | I_CS \<Rightarrow> (I_CS, k, mie))"

definition spinlock_release_i :: "u32 \<Rightarrow> u32" where
  "spinlock_release_i k = 0"

inductive ispin_trans :: "ispin \<Rightarrow> ispin \<Rightarrow> bool" where
  ispin_acquire: "ipcs s (icur s) \<noteq> I_CS \<Longrightarrow> spinlock_acquire_i (ipcs s (icur s)) (ikey s) (imie s) = (pc', k', m')
    \<Longrightarrow> ispin_trans s (s\<lparr>ikey := k', imie := m', ipcs := (ipcs s)(icur s := pc')\<rparr>)"
| ispin_release: "ipcs s (icur s) = I_CS
    \<Longrightarrow> ispin_trans s (s\<lparr>ikey := spinlock_release_i (ikey s), ipcs := (ipcs s)(icur s := I_Idle)\<rparr>)"
| ispin_preempt: "imie s \<Longrightarrow> ispin_trans s (s\<lparr>icur := t\<rparr>)"

definition ispin_init :: "ispin \<Rightarrow> bool" where
  "ispin_init s \<longleftrightarrow> ikey s = 0 \<and> (\<forall>t. ipcs s t = I_Idle)"

primrec masked :: "ipc \<Rightarrow> bool" where
  "masked I_Idle = False" | "masked I_Di = False" | "masked I_Read = True" | "masked I_Set = True"
| "masked I_EiSpin = True" | "masked I_Ei = True" | "masked I_CS = False"

primrec owns :: "ipc \<Rightarrow> bool" where
  "owns I_Idle = False" | "owns I_Di = False" | "owns I_Read = False" | "owns I_Set = False"
| "owns I_EiSpin = False" | "owns I_Ei = True" | "owns I_CS = True"

definition ispin_inv :: "ispin \<Rightarrow> bool" where
  "ispin_inv s \<longleftrightarrow>
     (\<forall>t. masked (ipcs s t) \<longrightarrow> \<not> imie s \<and> t = icur s)
     \<and> (ipcs s (icur s) = I_Set \<longrightarrow> ikey s = 0)
     \<and> (\<forall>t. owns (ipcs s t) \<longrightarrow> ikey s \<noteq> 0)
     \<and> (\<forall>t u. owns (ipcs s t) \<longrightarrow> owns (ipcs s u) \<longrightarrow> t = u)"

lemma ispin_invI:
  assumes "ispin_inv s"
    and "masked pc' \<Longrightarrow> \<not> m'" and "pc' = I_Set \<Longrightarrow> k' = 0"
    and "owns pc' \<Longrightarrow> k' \<noteq> 0 \<and> (owns (ipcs s (icur s)) \<or> ikey s = 0)"
    and "\<not> owns pc' \<Longrightarrow> k' = ikey s \<and> \<not> owns (ipcs s (icur s)) \<or> owns (ipcs s (icur s))"
  shows "ispin_inv (s\<lparr>ikey := k', imie := m', ipcs := (ipcs s)(icur s := pc')\<rparr>)"
proof -
  let ?c = "icur s" and ?s = "s\<lparr>ikey := k', imie := m', ipcs := (ipcs s)(icur s := pc')\<rparr>"
  have o: "\<not> masked (ipcs s t)" if "t \<noteq> ?c" for t using assms(1) that by (auto simp: ispin_inv_def)
  have k: "ikey s \<noteq> 0" if "owns (ipcs s t)" for t using assms(1) that by (auto simp: ispin_inv_def)
  have u: "t = v" if "owns (ipcs s t)" "owns (ipcs s v)" for t v using assms(1) that by (auto simp: ispin_inv_def)
  have n: "\<not> owns (ipcs s t)" if "t \<noteq> ?c" "owns pc'" for t using assms(4) that k u by blast
  have "k' \<noteq> 0" if "owns (ipcs ?s t)" for t
  proof (cases "t = ?c")
    case True
    then show ?thesis using that assms(4) by simp
  next
    case False
    then have t: "owns (ipcs s t)" using that by simp
    with False n u have "\<not> owns pc'" "\<not> owns (ipcs s ?c)" by blast+
    then show ?thesis using assms(5) k [OF t] by simp
  qed
  moreover have "t = v" if "owns (ipcs ?s t)" "owns (ipcs ?s v)" for t v
    using that u n by (cases "t = ?c"; cases "v = ?c") auto
  moreover have "\<not> m' \<and> t = ?c" if "masked (ipcs ?s t)" for t
    using that o assms(2) by (cases "t = ?c") auto
  moreover have "ipcs ?s (icur ?s) = I_Set \<longrightarrow> ikey ?s = 0" "icur ?s = ?c" "ikey ?s = k'" "imie ?s = m'"
    using assms(3) by simp_all
  ultimately show ?thesis unfolding ispin_inv_def by metis
qed

lemma ispin_acquire_inv:
  assumes "ispin_inv s" and "spinlock_acquire_i (ipcs s (icur s)) (ikey s) (imie s) = (pc', k', m')"
  shows "ispin_inv (s\<lparr>ikey := k', imie := m', ipcs := (ipcs s)(icur s := pc')\<rparr>)"
proof (rule ispin_invI [OF assms(1)])
  have c: "masked (ipcs s (icur s)) \<Longrightarrow> \<not> imie s" "ipcs s (icur s) = I_Set \<Longrightarrow> ikey s = 0"
    "owns (ipcs s (icur s)) \<Longrightarrow> ikey s \<noteq> 0"
    using assms(1) by (auto simp: ispin_inv_def)
  show "masked pc' \<Longrightarrow> \<not> m'" "pc' = I_Set \<Longrightarrow> k' = 0"
    "owns pc' \<Longrightarrow> k' \<noteq> 0 \<and> (owns (ipcs s (icur s)) \<or> ikey s = 0)"
    "\<not> owns pc' \<Longrightarrow> k' = ikey s \<and> \<not> owns (ipcs s (icur s)) \<or> owns (ipcs s (icur s))"
    using assms(2) c
    by (cases "ipcs s (icur s)"; auto simp: spinlock_acquire_i_def split: if_splits)+
qed

interpretation ispin: transition_system ispin_init ispin_trans ispin_inv
proof
  fix s s'
  show "ispin_init s \<Longrightarrow> ispin_inv s"
    by (simp add: ispin_init_def ispin_inv_def)
  assume inv: "ispin_inv s" and "ispin_trans s s'"
  from this(2) show "ispin_inv s'"
  proof (cases rule: ispin_trans.cases)
    case (ispin_acquire pc' k' m')
    then show ?thesis using ispin_acquire_inv [OF inv] by simp
  next
    case ispin_release
    then show ?thesis using inv by (auto simp: ispin_inv_def)
  next
    case (ispin_preempt t)
    then show ?thesis using inv by (simp add: ispin_inv_def) (metis masked.simps(4))
  qed
qed

text \<open>The interrupt-masking spinlock excludes on one hart: for any threads and any preemptions at
  points where interrupts are enabled, at most one thread is past \<open>spinlock_acquire\<close>.\<close>

theorem spinlock_i_mutual_exclusion:
  assumes "ispin_init s" and "ispin_trans\<^sup>*\<^sup>* s s'" and "ipcs s' a = I_CS" and "ipcs s' b = I_CS"
  shows "a = b \<and> ikey s' \<noteq> 0"
  using ispin.reach_inv [OF assms(1,2)] assms(3,4) by (metis ispin_inv_def owns.simps(7))

theorem spinlock_i_mutual_exclusion_witness:
  "ikey \<lparr>ikey = 1, imie = True, icur = 3, ipcs = (\<lambda>_. I_Idle)(3 := I_CS)\<rparr> \<noteq> 0"
proof -
  let ?st = "\<lambda>pc k m. \<lparr>ikey = k, imie = m, icur = 3, ipcs = (\<lambda>_. I_Idle)(3 := pc)\<rparr>"
  have st: "ispin_trans (?st pc k m) (?st pc' k' m')"
    if "pc \<noteq> I_CS" "spinlock_acquire_i pc k m = (pc', k', m')" for pc k m pc' k' m'
    using ispin_acquire [of "?st pc k m" pc' k' m'] that by simp
  have "ispin_trans (?st I_Idle 0 False) (?st I_Di 0 False)"
    "ispin_trans (?st I_Di 0 False) (?st I_Read 0 False)"
    "ispin_trans (?st I_Read 0 False) (?st I_Set 0 False)"
    "ispin_trans (?st I_Set 0 False) (?st I_Ei 1 False)"
    "ispin_trans (?st I_Ei 1 False) (?st I_CS 1 True)"
    by (rule st; simp add: spinlock_acquire_i_def)+
  then have "ispin_trans\<^sup>*\<^sup>* (?st I_Idle 0 False) (?st I_CS 1 True)"
    by (meson converse_rtranclp_into_rtranclp rtranclp.rtrancl_refl)
  then show ?thesis
    using spinlock_i_mutual_exclusion [of "?st I_Idle 0 False" _ 3 3] by (auto simp: ispin_init_def)
qed

end
