(* ===== verification/Driver.thy ===== *)
theory Driver
  imports CC_Status "HOL-Library.Multiset"
begin

text \<open>
  The driver core (\<open>src/src/driver/driver.c\<close>).

  The linker gathers the \<open>device_t\<close> entries into one table; a device is named by its index in it. The
  function pointers are identifiers, and what a driver's function does is the parameter \<open>run\<close>: it
  takes the whole state, because a driver may call the driver core again (the serial console's
  setup stops the early console). The state records the calls of driver functions in \<open>calls\<close>.
  Messages to the log are not part of the state.

  \<^item> \<open>device_walk\<close> is the contract of an operation on one device that keeps the static part of the
    table; walking the table by rank is then the operation on the devices in rank order. It is
    interpreted on \<open>driver_register\<close> and \<open>driver_deregister\<close>.
  \<^item> The registration of one device by two cores is a step relation: the test and the setting of the
    flag are two critical sections, and both cores can run the setup function.
\<close>

section \<open>State\<close>

record device =
  dname :: string
  driver_setup_fn :: nat
  driver_exit_fn :: nat
  sorder :: u8
  eorder :: u8
  exec :: bool
  percpu :: bool

datatype devcall = Setup_call nat | Exit_call nat

record 'w machine =
  table :: "device list"
  calls :: "devcall list"
  world :: 'w

type_synonym 'w runs = "nat \<Rightarrow> 'w machine \<Rightarrow> status_t \<times> 'w machine"

section \<open>Operations\<close>

definition set_exec :: "nat \<Rightarrow> bool \<Rightarrow> 'w machine \<Rightarrow> 'w machine" where
  "set_exec i b s = s\<lparr>table := (table s)[i := (table s ! i)\<lparr>exec := b\<rparr>]\<rparr>"

definition driver_register :: "'w runs \<Rightarrow> nat \<Rightarrow> 'w machine \<Rightarrow> status_t \<times> 'w machine" where
  "driver_register run dev s =
     (let d = table s ! dev
      in if \<not> percpu d \<and> exec d then (error_driver_init_done, s)
         else let s1 = (if \<not> percpu d then set_exec dev True s else s)
              in run (driver_setup_fn d) (s1\<lparr>calls := calls s1 @ [Setup_call dev]\<rparr>))"

definition driver_deregister :: "'w runs \<Rightarrow> nat \<Rightarrow> 'w machine \<Rightarrow> status_t \<times> 'w machine" where
  "driver_deregister run dev s =
     (let d = table s ! dev
      in if \<not> percpu d \<and> \<not> exec d then (error_driver, s)
         else let s1 = (if \<not> percpu d then set_exec dev False s else s)
              in run (driver_exit_fn d) (s1\<lparr>calls := calls s1 @ [Exit_call dev]\<rparr>))"

text \<open>The table walks take the index and the end of the table and accumulate the status with \<open>|=\<close>.\<close>

function walk_with_order ::
  "(nat \<Rightarrow> 'w machine \<Rightarrow> status_t \<times> 'w machine) \<Rightarrow> nat \<Rightarrow> nat \<Rightarrow> nat \<Rightarrow> status_t \<Rightarrow> 'w machine
    \<Rightarrow> status_t \<times> 'w machine" where
  "walk_with_order f ptr stop order ret s =
     (if ptr < stop
      then if order = unat (sorder (table s ! ptr))
           then case f ptr s of (r, s1) \<Rightarrow> walk_with_order f (ptr + 1) stop order (ret OR r) s1
           else walk_with_order f (ptr + 1) stop order ret s
      else (ret, s))"
  by pat_completeness auto
termination
  by (relation "measure (\<lambda>(f, ptr, stop, _). stop - ptr)") auto

declare walk_with_order.simps [simp del]

definition driver_register_with_order :: "'w runs \<Rightarrow> nat \<Rightarrow> 'w machine \<Rightarrow> status_t \<times> 'w machine" where
  "driver_register_with_order run order s =
     walk_with_order (driver_register run) 0 (length (table s)) order success s"

definition driver_deregister_with_order :: "'w runs \<Rightarrow> nat \<Rightarrow> 'w machine \<Rightarrow> status_t \<times> 'w machine" where
  "driver_deregister_with_order run order s =
     walk_with_order (driver_deregister run) 0 (length (table s)) order success s"

primrec orders_loop ::
  "(nat \<Rightarrow> 'w machine \<Rightarrow> status_t \<times> 'w machine) \<Rightarrow> nat list \<Rightarrow> status_t \<Rightarrow> 'w machine \<Rightarrow> status_t \<times> 'w machine" where
  "orders_loop g [] ret s = (ret, s)"
| "orders_loop g (order # rest) ret s = (case g order s of (r, s1) \<Rightarrow> orders_loop g rest (ret OR r) s1)"

definition driver_setup_all :: "'w runs \<Rightarrow> 'w machine \<Rightarrow> status_t \<times> 'w machine" where
  "driver_setup_all run s = orders_loop (driver_register_with_order run) [0 ..< 256] success s"

definition driver_exit_all :: "'w runs \<Rightarrow> 'w machine \<Rightarrow> status_t \<times> 'w machine" where
  "driver_exit_all run s = orders_loop (driver_deregister_with_order run) (rev [0 ..< 256]) success s"

function find_name :: "device list \<Rightarrow> string \<Rightarrow> nat \<Rightarrow> nat option" where
  "find_name t nm ptr =
     (if ptr < length t then if dname (t ! ptr) = nm then Some ptr else find_name t nm (ptr + 1)
      else None)"
  by pat_completeness auto
termination
  by (relation "measure (\<lambda>(t, nm, ptr). length t - ptr)") auto

declare find_name.simps [simp del]

definition driver_setup_with_name :: "'w runs \<Rightarrow> string \<Rightarrow> 'w machine \<Rightarrow> status_t \<times> 'w machine" where
  "driver_setup_with_name run nm s =
     (case find_name (table s) nm 0 of
        Some ptr \<Rightarrow> driver_register run ptr s
      | None \<Rightarrow> (error_func_inval, s))"

definition driver_exit_with_name :: "'w runs \<Rightarrow> string \<Rightarrow> 'w machine \<Rightarrow> status_t \<times> 'w machine" where
  "driver_exit_with_name run nm s =
     (case find_name (table s) nm 0 of
        Some ptr \<Rightarrow> driver_deregister run ptr s
      | None \<Rightarrow> (error_func_inval, s))"

definition driver_setup :: "'w runs \<Rightarrow> string \<Rightarrow> 'w machine \<Rightarrow> status_t \<times> 'w machine" where
  "driver_setup run nm s = driver_setup_with_name run nm s"

definition driver_exit :: "'w runs \<Rightarrow> string \<Rightarrow> 'w machine \<Rightarrow> status_t \<times> 'w machine" where
  "driver_exit run nm s = driver_exit_with_name run nm s"

section \<open>Walking the table by rank\<close>

text \<open>The static part of a device is everything but its \<open>exec\<close> flag.\<close>

definition static :: "device list \<Rightarrow> device list" where
  "static t = map (\<lambda>d. d\<lparr>exec := False\<rparr>) t"

lemma static_length: "static t = static t' \<Longrightarrow> length t = length t'"
  unfolding static_def by (rule map_eq_imp_length_eq)

lemma static_nth:
  assumes "static t = static t'" and "i < length t"
  shows "sorder (t ! i) = sorder (t' ! i)" "percpu (t ! i) = percpu (t' ! i)" "dname (t ! i) = dname (t' ! i)"
    "driver_setup_fn (t ! i) = driver_setup_fn (t' ! i)" "driver_exit_fn (t ! i) = driver_exit_fn (t' ! i)"
proof -
  have "(t ! i)\<lparr>exec := False\<rparr> = (t' ! i)\<lparr>exec := False\<rparr>"
    using assms static_length [OF assms(1)] by (metis static_def nth_map)
  then show "sorder (t ! i) = sorder (t' ! i)" "percpu (t ! i) = percpu (t' ! i)" "dname (t ! i) = dname (t' ! i)"
    "driver_setup_fn (t ! i) = driver_setup_fn (t' ! i)" "driver_exit_fn (t ! i) = driver_exit_fn (t' ! i)"
    by (cases "t ! i"; cases "t' ! i"; simp)+
qed

lemma static_set_exec [simp]: "static (table (set_exec i b s)) = static (table s)"
  by (cases "i < length (table s)")
    (simp_all add: set_exec_def static_def map_update list_update_same_conv list_update_beyond)

primrec op_seq ::
  "(nat \<Rightarrow> 'w machine \<Rightarrow> status_t \<times> 'w machine) \<Rightarrow> nat list \<Rightarrow> status_t \<Rightarrow> 'w machine \<Rightarrow> status_t \<times> 'w machine" where
  "op_seq f [] ret s = (ret, s)"
| "op_seq f (i # is) ret s = (case f i s of (r, s1) \<Rightarrow> op_seq f is (ret OR r) s1)"

definition rank :: "device list \<Rightarrow> nat \<Rightarrow> nat" where
  "rank t i = unat (sorder (t ! i))"

definition at_rank :: "device list \<Rightarrow> nat \<Rightarrow> nat list" where
  "at_rank t k = filter (\<lambda>i. rank t i = k) [0 ..< length t]"

text \<open>The hypothesis on the drivers: their functions keep the static part of the table.\<close>

definition static_runs :: "'w runs \<Rightarrow> bool" where
  "static_runs run \<longleftrightarrow> (\<forall>g s. static (table (snd (run g s))) = static (table s))"

locale device_walk =
  fixes op :: "'w runs \<Rightarrow> nat \<Rightarrow> 'w machine \<Rightarrow> status_t \<times> 'w machine"
  assumes keeps_static: "static_runs run \<Longrightarrow> static (table (snd (op run i s))) = static (table s)"
begin

lemma op_seq_static: "static_runs run \<Longrightarrow> static (table (snd (op_seq (op run) is ret s))) = static (table s)"
proof (induction "is" arbitrary: ret s)
  case (Cons i "is")
  obtain r s1 where f: "op run i s = (r, s1)" by force
  then show ?case using Cons keeps_static [of run i s] by simp
qed simp

lemma op_seq_append:
  "op_seq (op run) (is @ js) ret s = (case op_seq (op run) is ret s of (r, s1) \<Rightarrow> op_seq (op run) js r s1)"
  by (induction "is" arbitrary: ret s) (simp_all split: prod.split)

lemma op_seq_ret: "op_seq (op run) is ret s = (ret OR fst (op_seq (op run) is 0 s), snd (op_seq (op run) is 0 s))"
proof (induction "is" arbitrary: ret s)
  case (Cons i "is")
  obtain r s1 where f: "op run i s = (r, s1)" by force
  show ?case
    using Cons.IH [of "ret OR r" s1] Cons.IH [of r s1] by (simp add: f or.assoc)
qed simp

lemma rank_static: "static t = static t' \<Longrightarrow> i < length t \<Longrightarrow> rank t i = rank t' i"
  by (simp add: rank_def static_nth(1))

lemma walk_op_seq:
  assumes "static_runs run" and "n = length (table s)"
  shows "walk_with_order (op run) p n k ret s = op_seq (op run) (filter (\<lambda>i. rank (table s) i = k) [p ..< n]) ret s"
  using assms(2)
proof (induction "n - p" arbitrary: p ret s)
  case 0
  then show ?case by (simp add: walk_with_order.simps)
next
  case (Suc d)
  then have p: "p < n" "d = n - (p + 1)" by simp_all
  obtain r s1 where f: "op run p s = (r, s1)" by force
  then have st: "static (table s1) = static (table s)" using keeps_static [OF assms(1), of p s] by simp
  then have n1: "n = length (table s1)" using Suc.prems static_length [OF st] by simp
  have e: "filter (\<lambda>i. rank (table s1) i = k) [p + 1 ..< n] = filter (\<lambda>i. rank (table s) i = k) [p + 1 ..< n]"
    using rank_static [OF st] n1 by (intro filter_cong) auto
  show ?case
    using p Suc.hyps(1) [OF p(2) n1] Suc.hyps(1) [OF p(2) Suc.prems] f e
    by (subst walk_with_order.simps) (auto simp: upt_conv_Cons rank_def)
qed

lemma at_rank_static: "static t = static t' \<Longrightarrow> at_rank t k = at_rank t' k"
  unfolding at_rank_def by (rule filter_cong) (simp_all add: static_length [of t t'] rank_static [of t t'])

lemma orders_op_seq:
  assumes "static_runs run"
  shows "orders_loop (\<lambda>k s. walk_with_order (op run) 0 (length (table s)) k 0 s) ks ret s =
     op_seq (op run) (concat (map (at_rank (table s)) ks)) ret s"
proof (induction ks arbitrary: ret s)
  case (Cons k ks)
  have w: "walk_with_order (op run) 0 (length (table s)) k 0 s = op_seq (op run) (at_rank (table s) k) 0 s"
    by (simp add: walk_op_seq [OF assms] at_rank_def)
  obtain r s1 where q: "op_seq (op run) (at_rank (table s) k) 0 s = (r, s1)" by force
  then have "static (table s1) = static (table s)" using op_seq_static [OF assms, of "at_rank (table s) k" 0 s] by simp
  from at_rank_static [OF this] have "at_rank (table s1) = at_rank (table s)" by blast
  then show ?case
    using Cons.IH [of "ret OR r" s1] w q op_seq_ret [of run "at_rank (table s) k" ret s]
    by (simp add: op_seq_append)
qed simp

end

lemma filter_by_key:
  "filter (\<lambda>i. r i = k) (concat (map (\<lambda>k. filter (\<lambda>i. r i = k) xs) [0 ..< m])) =
    (if k < m then filter (\<lambda>i. r i = k) xs else [])"
  by (induction m) (auto simp: less_Suc_eq filter_empty_conv intro: filter_cong)

lemma by_key_ascending:
  fixes r :: "'a \<Rightarrow> nat"
  defines "ys m xs \<equiv> concat (map (\<lambda>k. filter (\<lambda>i. r i = k) xs) [0 ..< m])"
  shows "sorted (map r (ys m xs)) \<and> (\<forall>i \<in> set (ys m xs). r i < m)"
proof (induction m)
  case (Suc m)
  have "map r (filter (\<lambda>i. r i = m) xs) = replicate (length (filter (\<lambda>i. r i = m) xs)) m"
    by (rule replicate_eqI) auto
  then show ?case using Suc by (fastforce simp: ys_def sorted_append)
qed (simp add: ys_def)

lemma by_key_sorted:
  fixes r :: "'a \<Rightarrow> nat"
  assumes "\<And>i. r i < m"
  shows "concat (map (\<lambda>k. filter (\<lambda>i. r i = k) xs) [0 ..< m]) = sort_key r xs"
proof (rule properties_for_sort_key [symmetric])
  let ?ys = "concat (map (\<lambda>k. filter (\<lambda>i. r i = k) xs) [0 ..< m])"
  show "filter (\<lambda>i. r k = r i) ?ys = filter (\<lambda>i. r k = r i) xs" for k
    using filter_by_key [of r "r k" xs m] assms [of k] unfolding eq_commute [of "r k"] by simp
  have "count (mset ?ys) i = count (mset xs) i" for i
  proof -
    have "count (mset ?ys) i = count (mset (filter (\<lambda>j. r j = r i) ?ys)) i"
      by (simp only: mset_filter count_filter_mset refl if_True)
    also have "\<dots> = count (mset (filter (\<lambda>j. r j = r i) xs)) i" using filter_by_key [of r "r i" xs m] assms by simp
    also have "\<dots> = count (mset xs) i" by (simp only: mset_filter count_filter_mset refl if_True)
    finally show ?thesis .
  qed
  then show "mset ?ys = mset xs" by (rule multiset_eqI)
  show "sorted (map r ?ys)" using by_key_ascending by blast
qed

lemma rank_less: "rank t i < 256"
  unfolding rank_def using unsigned_less [of "sorder (t ! i)"] by simp


lemma static_runsD: "static_runs run \<Longrightarrow> static (table (snd (run g s))) = static (table s)"
  by (simp add: static_runs_def)

interpretation reg: device_walk driver_register
  by unfold_locales (simp add: driver_register_def Let_def static_runsD)

interpretation dereg: device_walk driver_deregister
  by unfold_locales (simp add: driver_deregister_def Let_def static_runsD)

lemma by_rank_ascending:
  "concat (map (at_rank t) [0 ..< 256]) = sort_key (rank t) [0 ..< length t]"
  using by_key_sorted [of "rank t" 256 "[0 ..< length t]", OF rank_less] unfolding at_rank_def .

lemma by_key_descending:
  fixes r :: "'a \<Rightarrow> nat"
  assumes "\<And>i. r i < m"
  shows "concat (map (\<lambda>k. filter (\<lambda>i. r i = k) xs) (rev [0 ..< m])) = sort_key (\<lambda>i. m - 1 - r i) xs"
proof -
  have rv: "rev [0 ..< m] = map (\<lambda>k. m - 1 - k) [0 ..< m]"
    by (rule nth_equalityI) (auto simp: rev_nth)
  have k: "(r i = m - 1 - k) = (m - 1 - r i = k)" if "k < m" for i k
    using assms [of i] that by linarith
  have "map (\<lambda>k. filter (\<lambda>i. r i = k) xs) (rev [0 ..< m]) = map (\<lambda>k. filter (\<lambda>i. m - 1 - r i = k) xs) [0 ..< m]"
    unfolding rv map_map comp_def by (rule map_cong [OF refl]) (simp only: k set_upt atLeastLessThan_iff)
  moreover have "m - 1 - r i < m" for i using assms [of i] by simp
  ultimately show ?thesis using by_key_sorted [of "\<lambda>i. m - 1 - r i" m xs] by simp
qed

lemma by_rank_descending:
  "concat (map (at_rank t) (rev [0 ..< 256])) = sort_key (\<lambda>i. 255 - rank t i) [0 ..< length t]"
proof -
  have "256 - 1 = (255 :: nat)" by simp
  then show ?thesis
    using by_key_descending [of "rank t" 256 "[0 ..< length t]", OF rank_less] by (simp only: at_rank_def [abs_def])
qed

lemma driver_setup_all_seq:
  assumes "static_runs run"
  shows "driver_setup_all run s = op_seq (driver_register run) (sort_key (rank (table s)) [0 ..< length (table s)]) 0 s"
  using reg.orders_op_seq [OF assms, of "[0 ..< 256]" 0 s]
  unfolding driver_setup_all_def driver_register_with_order_def by_rank_ascending .

lemma driver_exit_all_seq:
  assumes "static_runs run"
  shows "driver_exit_all run s =
    op_seq (driver_deregister run) (sort_key (\<lambda>i. 255 - rank (table s) i) [0 ..< length (table s)]) 0 s"
  using dereg.orders_op_seq [OF assms, of "rev [0 ..< 256]" 0 s]
  unfolding driver_exit_all_def driver_deregister_with_order_def by_rank_descending .


section \<open>The order of setups and exits\<close>

primrec setup_of :: "devcall \<Rightarrow> nat list" where
  "setup_of (Setup_call i) = [i]"
| "setup_of (Exit_call i) = []"

primrec exit_of :: "devcall \<Rightarrow> nat list" where
  "exit_of (Setup_call i) = []"
| "exit_of (Exit_call i) = [i]"

definition setups :: "'w machine \<Rightarrow> nat list" where
  "setups s = concat (map setup_of (calls s))"

definition exits :: "'w machine \<Rightarrow> nat list" where
  "exits s = concat (map exit_of (calls s))"

text \<open>The hypotheses on the drivers' functions: a setup function starts no driver (it may stop some),
  an exit function stops none (it may start some).\<close>

definition setup_runs :: "'w runs \<Rightarrow> device list \<Rightarrow> bool" where
  "setup_runs run t \<longleftrightarrow> (\<forall>s. static (table s) = static t \<longrightarrow> (\<forall>d \<in> set (table s). let s' = snd (run (driver_setup_fn d) s) in
     setups s' = setups s \<and> (\<forall>i < length (table s). exec (table s' ! i) \<longrightarrow> exec (table s ! i))))"

definition exit_runs :: "'w runs \<Rightarrow> device list \<Rightarrow> bool" where
  "exit_runs run t \<longleftrightarrow> (\<forall>s. static (table s) = static t \<longrightarrow> (\<forall>d \<in> set (table s). let s' = snd (run (driver_exit_fn d) s) in
     exits s' = exits s \<and> (\<forall>i < length (table s). exec (table s ! i) \<longrightarrow> exec (table s' ! i))))"

lemma set_exec_nth:
  "j < length (table s) \<Longrightarrow> exec (table (set_exec i b s) ! j) = (if i = j then b else exec (table s ! j))"
  by (simp add: set_exec_def nth_list_update)

lemma set_exec_simps [simp]:
  "calls (set_exec i b s) = calls s" "length (table (set_exec i b s)) = length (table s)"
  by (simp_all add: set_exec_def)

lemma set_exec_fns:
  assumes "i < length (table s)"
  shows "driver_setup_fn (table (set_exec i b s) ! i) = driver_setup_fn (table s ! i)"
    "driver_exit_fn (table (set_exec i b s) ! i) = driver_exit_fn (table s ! i)"
  using assms by (simp_all add: set_exec_def)

lemma driver_register_starts:
  assumes "setup_runs run t" and "static (table s) = static t" and "i < length (table s)" and "percpu (table s ! i) \<or> \<not> exec (table s ! i)"
  shows "setups (snd (driver_register run i s)) = setups s @ [i]"
    and "j < length (table s) \<Longrightarrow> j \<noteq> i \<Longrightarrow> exec (table (snd (driver_register run i s)) ! j) \<Longrightarrow> exec (table s ! j)"
proof -
  let ?d = "table s ! i"
  let ?s1 = "if \<not> percpu ?d then set_exec i True s else s"
  let ?s2 = "?s1\<lparr>calls := calls ?s1 @ [Setup_call i]\<rparr>"
  have r: "driver_register run i s = run (driver_setup_fn ?d) ?s2"
    using assms(4) by (auto simp: driver_register_def Let_def)
  have st: "static (table ?s2) = static t" using assms(2) by simp
  have len: "i < length (table ?s2)" using assms(3) by simp
  have "driver_setup_fn (table ?s2 ! i) = driver_setup_fn ?d" using assms(3) by (simp add: set_exec_fns)
  with assms(1) st nth_mem [OF len]
  have "setups (snd (run (driver_setup_fn ?d) ?s2)) = setups ?s2"
    "\<forall>j < length (table ?s2). exec (table (snd (run (driver_setup_fn ?d) ?s2)) ! j) \<longrightarrow> exec (table ?s2 ! j)"
    unfolding setup_runs_def Let_def by metis+
  then show "setups (snd (driver_register run i s)) = setups s @ [i]"
    "j < length (table s) \<Longrightarrow> j \<noteq> i \<Longrightarrow> exec (table (snd (driver_register run i s)) ! j) \<Longrightarrow> exec (table s ! j)"
    unfolding r by (simp_all add: setups_def set_exec_nth split: if_splits)
qed

lemma driver_deregister_stops:
  assumes "exit_runs run t" and "static (table s) = static t" and "i < length (table s)" and "percpu (table s ! i) \<or> exec (table s ! i)"
  shows "exits (snd (driver_deregister run i s)) = exits s @ [i]"
    and "j < length (table s) \<Longrightarrow> j \<noteq> i \<Longrightarrow> exec (table s ! j) \<Longrightarrow> exec (table (snd (driver_deregister run i s)) ! j)"
proof -
  let ?d = "table s ! i"
  let ?s1 = "if \<not> percpu ?d then set_exec i False s else s"
  let ?s2 = "?s1\<lparr>calls := calls ?s1 @ [Exit_call i]\<rparr>"
  have r: "driver_deregister run i s = run (driver_exit_fn ?d) ?s2"
    using assms(4) by (auto simp: driver_deregister_def Let_def)
  have st: "static (table ?s2) = static t" using assms(2) by simp
  have len: "i < length (table ?s2)" using assms(3) by simp
  have "driver_exit_fn (table ?s2 ! i) = driver_exit_fn ?d" using assms(3) by (simp add: set_exec_fns)
  with assms(1) st nth_mem [OF len]
  have "exits (snd (run (driver_exit_fn ?d) ?s2)) = exits ?s2"
    "\<forall>j < length (table ?s2). exec (table ?s2 ! j) \<longrightarrow> exec (table (snd (run (driver_exit_fn ?d) ?s2)) ! j)"
    unfolding exit_runs_def Let_def by metis+
  then show "exits (snd (driver_deregister run i s)) = exits s @ [i]"
    "j < length (table s) \<Longrightarrow> j \<noteq> i \<Longrightarrow> exec (table s ! j) \<Longrightarrow> exec (table (snd (driver_deregister run i s)) ! j)"
    unfolding r by (simp_all add: exits_def set_exec_nth split: if_splits)
qed

lemma register_seq_setups:
  assumes "static_runs run" and "setup_runs run t" and "static (table s) = static t"
    and "distinct is" and "\<And>i. i \<in> set is \<Longrightarrow> i < length (table s) \<and> (percpu (table s ! i) \<or> \<not> exec (table s ! i))"
  shows "setups (snd (op_seq (driver_register run) is r s)) = setups s @ is"
  using assms(3-)
proof (induction "is" arbitrary: r s)
  case (Cons i "is")
  obtain r1 s1 where f: "driver_register run i s = (r1, s1)" by force
  have i: "i < length (table s)" "percpu (table s ! i) \<or> \<not> exec (table s ! i)" using Cons.prems(3) by auto
  have st: "static (table s1) = static (table s)" using reg.keeps_static [OF assms(1), of i s] f by simp
  have "j < length (table s1) \<and> (percpu (table s1 ! j) \<or> \<not> exec (table s1 ! j))" if "j \<in> set is" for j
    using Cons.prems that static_length [OF st] static_nth(2) [OF st, of j]
      driver_register_starts(2) [OF assms(2) Cons.prems(1) i, of j] f by auto
  then show ?case
    using Cons.IH [of s1] Cons.prems(1,2) st driver_register_starts(1) [OF assms(2) Cons.prems(1) i] f by simp
qed simp

lemma deregister_seq_exits:
  assumes "static_runs run" and "exit_runs run t" and "static (table s) = static t"
    and "distinct is" and "\<And>i. i \<in> set is \<Longrightarrow> i < length (table s) \<and> (percpu (table s ! i) \<or> exec (table s ! i))"
  shows "exits (snd (op_seq (driver_deregister run) is r s)) = exits s @ is"
  using assms(3-)
proof (induction "is" arbitrary: r s)
  case (Cons i "is")
  obtain r1 s1 where f: "driver_deregister run i s = (r1, s1)" by force
  have i: "i < length (table s)" "percpu (table s ! i) \<or> exec (table s ! i)" using Cons.prems(3) by auto
  have st: "static (table s1) = static (table s)" using dereg.keeps_static [OF assms(1), of i s] f by simp
  have "j < length (table s1) \<and> (percpu (table s1 ! j) \<or> exec (table s1 ! j))" if "j \<in> set is" for j
    using Cons.prems that static_length [OF st] static_nth(2) [OF st, of j]
      driver_deregister_stops(2) [OF assms(2) Cons.prems(1) i, of j] f by auto
  then show ?case
    using Cons.IH [of s1] Cons.prems(1,2) st driver_deregister_stops(1) [OF assms(2) Cons.prems(1) i] f by simp
qed simp


text \<open>C19: on a table in which nothing has been started, \<open>driver_setup_all\<close> calls the setup function of
  every device exactly once, in ascending order of its start rank and, within a rank, in the
  order of the table. The drivers' functions keep the static part of the table, and a setup
  function starts no other driver.\<close>

theorem driver_setup_all_order:
  assumes "static_runs run" and "setup_runs run (table s)" and "\<forall>d \<in> set (table s). \<not> exec d"
  shows "setups (snd (driver_setup_all run s)) = setups s @ sort_key (rank (table s)) [0 ..< length (table s)]"
  unfolding driver_setup_all_seq [OF assms(1)] using assms(3)
  by (intro register_seq_setups [OF assms(1,2) refl]) simp_all

text \<open>On a table in which every device runs, \<open>driver_exit_all\<close> calls the exit function of every
  device exactly once, in descending order of the start rank (the exit rank \<open>eorder\<close> has no
  influence) and, within a rank, in the order of the table.\<close>

theorem driver_exit_all_order:
  assumes "static_runs run" and "exit_runs run (table s)" and "\<forall>d \<in> set (table s). percpu d \<or> exec d"
  shows "exits (snd (driver_exit_all run s)) = exits s @ sort_key (\<lambda>i. 255 - rank (table s) i) [0 ..< length (table s)]"
  unfolding driver_exit_all_seq [OF assms(1)] using assms(3)
  by (intro deregister_seq_exits [OF assms(1,2) refl]) simp_all

text \<open>A table of three devices for the witnesses, in which the setup function 5 of the console stops
  the early console and its exit function 6 starts it again.\<close>

definition demo_table :: "bool \<Rightarrow> device list" where
  "demo_table b =
    [\<lparr>dname = ''earlycon'', driver_setup_fn = 1, driver_exit_fn = 2, sorder = 0, eorder = 0, exec = b, percpu = False\<rparr>,
     \<lparr>dname = ''console'', driver_setup_fn = 5, driver_exit_fn = 6, sorder = 2, eorder = 0, exec = b, percpu = False\<rparr>,
     \<lparr>dname = ''plic'', driver_setup_fn = 3, driver_exit_fn = 4, sorder = 1, eorder = 1, exec = b, percpu = True\<rparr>]"

definition demo_run :: "unit runs" where
  "demo_run g s = (success, if g = 5 then set_exec 0 False s else if g = 6 then set_exec 0 True s else s)"

definition demo_machine :: "bool \<Rightarrow> unit machine" where
  "demo_machine b = \<lparr>table = demo_table b, calls = [], world = ()\<rparr>"

lemma demo_static_runs: "static_runs demo_run"
  by (simp add: static_runs_def demo_run_def)

lemma demo_fns:
  assumes "static t = static (demo_table b)" and "d \<in> set t"
  shows "driver_setup_fn d \<noteq> 6" and "driver_exit_fn d \<noteq> 5" and "length t = 3"
proof -
  obtain i where i: "i < length t" "d = t ! i" using assms(2) by (auto simp: in_set_conv_nth)
  have l: "length t = 3" using static_length [OF assms(1)] by (simp add: demo_table_def)
  then have "i = 0 \<or> i = 1 \<or> i = 2" using i by linarith
  then show "driver_setup_fn d \<noteq> 6" "driver_exit_fn d \<noteq> 5"
    using static_nth(4,5) [OF assms(1) i(1)] i(2) by (auto simp: demo_table_def)
  show "length t = 3" by (rule l)
qed

lemma demo_facts:
  "table (demo_machine b) = demo_table b" "length (demo_table b) = 3" "setups (demo_machine b) = []" "exits (demo_machine b) = []"
  "\<forall>d \<in> set (demo_table False). \<not> exec d" "\<forall>d \<in> set (demo_table True). percpu d \<or> exec d"
  "sort_key (rank (demo_table False)) [0 ..< 3] = [0, 2, 1]"
  "sort_key (\<lambda>i. 255 - rank (demo_table True) i) [0 ..< 3] = [1, 2, 0]"
  by (simp_all add: demo_machine_def demo_table_def setups_def exits_def rank_def upt_rec)

theorem driver_setup_all_order_witness:
  "setups (snd (driver_setup_all demo_run (demo_machine False))) = [0, 2, 1]"
proof -
  have "setup_runs demo_run (table (demo_machine False))"
    unfolding setup_runs_def Let_def
    by (auto simp: demo_run_def demo_machine_def setups_def set_exec_nth demo_fns split: if_splits)
  then show ?thesis
    using driver_setup_all_order [of demo_run "demo_machine False", OF demo_static_runs]
    by (simp only: demo_facts append_Nil) (simp add: demo_table_def)
qed

theorem driver_exit_all_order_witness:
  "exits (snd (driver_exit_all demo_run (demo_machine True))) = [1, 2, 0]"
proof -
  have "exit_runs demo_run (table (demo_machine True))"
    unfolding exit_runs_def Let_def
    by (auto simp: demo_run_def demo_machine_def exits_def set_exec_nth demo_fns split: if_splits)
  then show ?thesis
    using driver_exit_all_order [of demo_run "demo_machine True", OF demo_static_runs]
    by (simp only: demo_facts append_Nil) (simp add: demo_table_def)
qed

section \<open>Two cores register one device\<close>

text \<open>\<open>driver_register\<close> of a device that is not per-CPU, split at its critical sections: the flag is read
  under the lock, the lock is released, and the flag is set under the lock again.\<close>

datatype rpc = R_Test | R_Set | R_Run | R_Done status_t

definition register_step :: "status_t \<Rightarrow> rpc \<Rightarrow> bool \<Rightarrow> nat \<Rightarrow> rpc \<times> bool \<times> nat" where
  "register_step res pc flag n =
     (case pc of
        R_Test \<Rightarrow> (if flag then R_Done error_driver_init_done else R_Set, flag, n)
      | R_Set \<Rightarrow> (R_Run, True, n)
      | R_Run \<Rightarrow> (R_Done res, flag, n + 1)
      | R_Done r \<Rightarrow> (R_Done r, flag, n))"

record race =
  rflag :: bool
  nsetups :: nat
  rpcs :: "nat \<Rightarrow> rpc"

inductive race_trans :: "status_t \<Rightarrow> race \<Rightarrow> race \<Rightarrow> bool" for res where
  race_trans: "register_step res (rpcs s t) (rflag s) (nsetups s) = (pc', f', n')
    \<Longrightarrow> race_trans res s (s\<lparr>rflag := f', nsetups := n', rpcs := (rpcs s)(t := pc')\<rparr>)"

text \<open>\<open>driver_register\<close> does not make the start of a driver unique: two cores that register the same
  device can both find its flag clear, because the lock is released between the test and the
  assignment, and both run its setup function.\<close>

theorem driver_register_race:
  assumes "\<not> rflag s" and "rpcs s a = R_Test" and "rpcs s b = R_Test" and "a \<noteq> b"
  shows "\<exists>s'. (race_trans res)\<^sup>*\<^sup>* s s' \<and> nsetups s' = nsetups s + 2 \<and> rpcs s' a = R_Done res \<and> rpcs s' b = R_Done res"
proof -
  let ?st = "\<lambda>f n p q. s\<lparr>rflag := f, nsetups := n, rpcs := (rpcs s)(a := p, b := q)\<rparr>"
  let ?n = "nsetups s"
  have sa: "race_trans res (?st f n p q) (?st f' n' p' q)" if "register_step res p f n = (p', f', n')" for f n p q f' n' p'
    using race_trans [of res "?st f n p q" a p' f' n'] that assms(4) by (simp add: fun_upd_twist)
  have sb: "race_trans res (?st f n p q) (?st f' n' p q')" if "register_step res q f n = (q', f', n')" for f n p q f' n' q'
    using race_trans [of res "?st f n p q" b q' f' n'] that by simp
  have "race_trans res (?st False ?n R_Test R_Test) (?st False ?n R_Set R_Test)"
    "race_trans res (?st False ?n R_Set R_Set) (?st True ?n R_Run R_Set)"
    "race_trans res (?st True ?n R_Run R_Run) (?st True (?n + 1) (R_Done res) R_Run)"
    by (rule sa; simp add: register_step_def)+
  moreover have "race_trans res (?st False ?n R_Set R_Test) (?st False ?n R_Set R_Set)"
    "race_trans res (?st True ?n R_Run R_Set) (?st True ?n R_Run R_Run)"
    "race_trans res (?st True (?n + 1) (R_Done res) R_Run) (?st True (?n + 2) (R_Done res) (R_Done res))"
    by (rule sb; simp add: register_step_def)+
  ultimately have "(race_trans res)\<^sup>*\<^sup>* (?st False ?n R_Test R_Test) (?st True (?n + 2) (R_Done res) (R_Done res))"
    by (meson converse_rtranclp_into_rtranclp rtranclp.rtrancl_refl)
  moreover have "?st False ?n R_Test R_Test = s" using assms by (simp add: fun_upd_idem)
  ultimately have "(race_trans res)\<^sup>*\<^sup>* s (?st True (?n + 2) (R_Done res) (R_Done res))" by metis
  then show ?thesis
    by (intro exI [of _ "?st True (?n + 2) (R_Done res) (R_Done res)"] conjI) simp_all
qed

theorem driver_register_race_witness:
  "\<exists>s'. (race_trans success)\<^sup>*\<^sup>* \<lparr>rflag = False, nsetups = 0, rpcs = \<lambda>_. R_Test\<rparr> s' \<and> nsetups s' = 2"
  using driver_register_race [of "\<lparr>rflag = False, nsetups = 0, rpcs = \<lambda>_. R_Test\<rparr>" 0 1 success] by auto

end
