(* ===== verification/Resources.thy ===== *)
theory Resources
  imports CC_Status
begin

text \<open>
  Resource tables and visor calls: \<open>src/src/lib/libresource\<close>, the FE310 handlers in
  \<open>platform/sifive/common_fe310/platform/platform_resource.c\<close>, the dispatcher
  \<open>visor/workers/vcall/visor_call.c\<close> and the tables of the FE310-G002
  (\<open>platform/sifive/fe310g002/resources\<close>).

  A pointer to a property structure is an option of its contents; \<open>vret_t.p\<close>, which may hold any such
  pointer, is the sum type \<open>vptr\<close>. Two of the loops have the same shape (the first entry with the
  identifier); \<open>keyed_table\<close> is their contract.
\<close>

section \<open>Data\<close>

abbreviation (input) int_arch :: u32 where "int_arch \<equiv> 1"
abbreviation (input) int_local :: u32 where "int_local \<equiv> 2"
abbreviation (input) int_plat :: u32 where "int_plat \<equiv> 3"

datatype int_trigger_t = int_falling_edge | int_rising_edge | int_level

record irqs_t =
  irq_module :: u32
  irq_id :: u32
  irq_trigger :: int_trigger_t

text \<open>An entry without interrupts is initialised with zeros; \<open>MAX_INTERRUPTS_PER_DEVICE\<close> is 1.\<close>

definition no_irq :: irqs_t where
  "no_irq = \<lparr>irq_module = 0, irq_id = 0, irq_trigger = int_falling_edge\<rparr>"

record module_t =
  mod_id :: u32
  mod_baddr :: u32
  mod_stride :: u32
  mod_clk :: u32
  mod_clk_id :: u32
  interrupt :: "irqs_t list"

record gpio_module_t =
  gpio_id :: u32
  gpio_baddr :: u32
  gpio_stride :: u32

record pinmux_t =
  pm_port :: u8
  pm_function :: u8
  pm_pins :: "u8 list"

record swdev_t =
  swdev_id :: u32
  hwdev_id :: u32
  pmux :: "pinmux_t option"

record visor_t =
  devids :: "u32 list"

record dp_t =
  base_clock :: u32
  ports :: "gpio_module_t list"
  modules :: "module_t list"

record sp_t =
  terravisor :: visor_t
  swdev :: "swdev_t list"

abbreviation (input) hw_clock :: u32 where "hw_clock \<equiv> 0x3000"
abbreviation (input) hw_uart :: u32 where "hw_uart \<equiv> 0x4000"
abbreviation (input) hw_gpio :: u32 where "hw_gpio \<equiv> 0x5000"
abbreviation (input) hw_timer :: u32 where "hw_timer \<equiv> 0x7000"
abbreviation (input) hw_clint :: u32 where "hw_clint \<equiv> 0x8400"
abbreviation (input) hw_plic :: u32 where "hw_plic \<equiv> 0x8500"
abbreviation (input) hw_prci :: u32 where "hw_prci \<equiv> 0x9000"
abbreviation (input) hw_aon :: u32 where "hw_aon \<equiv> 0xa000"

abbreviation (input) console_uart :: u32 where "console_uart \<equiv> 0x100"
abbreviation (input) sched_timer :: u32 where "sched_timer \<equiv> 0x200"
abbreviation (input) onboard_led :: u32 where "onboard_led \<equiv> 0x300"

datatype vptr = P_null | P_swdev swdev_t | P_clock u32 | P_gpio gpio_module_t | P_module module_t

record vret_t =
  vr_p :: vptr
  vr_size :: u32
  vr_status :: status_t

record resources =
  dev_prop :: "dp_t option"
  sw_prop :: "sp_t option"

section \<open>Property lookups\<close>

definition dp_init :: "dp_t option \<Rightarrow> resources \<Rightarrow> status_t \<times> resources" where
  "dp_init p r = (if p \<noteq> None then (success, r\<lparr>dev_prop := p\<rparr>) else (error_func_inval_arg, r))"

definition sp_init :: "sp_t option \<Rightarrow> resources \<Rightarrow> status_t \<times> resources" where
  "sp_init p r = (if p \<noteq> None then (success, r\<lparr>sw_prop := p\<rparr>) else (error_func_inval_arg, r))"

fun dp_get_port_info :: "gpio_module_t list \<Rightarrow> u32 \<Rightarrow> gpio_module_t option" where
  "dp_get_port_info [] i = None"
| "dp_get_port_info (p # ps) i = (if gpio_id p = i then Some p else dp_get_port_info ps i)"

fun dp_get_module_info :: "module_t list \<Rightarrow> u32 \<Rightarrow> module_t option" where
  "dp_get_module_info [] i = None"
| "dp_get_module_info (m # ms) i = (if mod_id m = i then Some m else dp_get_module_info ms i)"

fun find_swdev :: "swdev_t list \<Rightarrow> u32 \<Rightarrow> swdev_t option" where
  "find_swdev [] i = None"
| "find_swdev (d # ds) i = (if i = swdev_id d then Some d else find_swdev ds i)"

text \<open>The outer loop goes on over the identifiers when the inner one finds nothing.\<close>

fun sp_dev_loop :: "swdev_t list \<Rightarrow> u32 list \<Rightarrow> u32 \<Rightarrow> swdev_t option" where
  "sp_dev_loop ds [] i = None"
| "sp_dev_loop ds (x # xs) i =
     (if i = x
      then case find_swdev ds i of Some d \<Rightarrow> Some d | None \<Rightarrow> sp_dev_loop ds xs i
      else sp_dev_loop ds xs i)"

definition sp_terravisor_dev_info :: "sp_t \<Rightarrow> u32 \<Rightarrow> swdev_t option" where
  "sp_terravisor_dev_info sp i = sp_dev_loop (swdev sp) (devids (terravisor sp)) i"

text \<open>The getters of the fields that the drivers do not read: processors, base clock and memory. \<open>core\<close> is an array of \<open>N_CORES\<close>
  pointers, and the index is not compared with it.\<close>

record cpu_info_t =
  cpu_name :: string
  cpu_id :: u16
  cpu_states :: "u32 list"

record memory_t =
  memory_start :: u32
  memory_size :: u32

record system_dp_t = dp_t +
  dp_core :: "cpu_info_t option list"
  dp_memory :: "memory_t option"

definition dp_get_cpu_info :: "'a system_dp_t_scheme option \<Rightarrow> u8 \<Rightarrow> cpu_info_t option outcome" where
  "dp_get_cpu_info prop i =
     (case prop of
        None \<Rightarrow> Fault Null_deref
      | Some dp \<Rightarrow> require (unat i < length (dp_core dp)) Out_of_bounds (Ok (dp_core dp ! unat i)))"

definition dp_get_base_clock :: "'a dp_t_scheme option \<Rightarrow> u32 outcome" where
  "dp_get_base_clock prop = (case prop of None \<Rightarrow> Fault Null_deref | Some dp \<Rightarrow> Ok (base_clock dp))"

definition dp_get_memory_info :: "'a system_dp_t_scheme option \<Rightarrow> memory_t option outcome" where
  "dp_get_memory_info prop = (case prop of None \<Rightarrow> Fault Null_deref | Some dp \<Rightarrow> Ok (dp_memory dp))"

text \<open>The lookups of the other visors, for builds with \<open>NSEC_HYP\<close>, \<open>SEC_HYP\<close>, \<open>NSEC_SUP\<close> and \<open>SEC_SUP\<close>: their visors are
  further fields of the tree. \<open>visor_dev_info\<close> is the common body of the five functions.\<close>

record visors_sp_t = sp_t +
  nsec_hypervisor :: "visor_t option"
  sec_hypervisor :: "visor_t option"
  nsec_supervisor :: "visor_t list"
  sec_supervisor :: "visor_t list"

definition visor_dev_info :: "'a sp_t_scheme \<Rightarrow> visor_t option \<Rightarrow> u32 \<Rightarrow> swdev_t option outcome" where
  "visor_dev_info sp v i = (case v of None \<Rightarrow> Fault Null_deref | Some x \<Rightarrow> Ok (sp_dev_loop (swdev sp) (devids x) i))"

definition visor_at :: "visor_t list \<Rightarrow> u32 \<Rightarrow> (visor_t option \<Rightarrow> 'a outcome) \<Rightarrow> 'a outcome" where
  "visor_at vs index f = require (unat index < length vs) Out_of_bounds (f (Some (vs ! unat index)))"

definition sp_nsec_hypervisor_dev_into :: "visors_sp_t \<Rightarrow> u32 \<Rightarrow> swdev_t option outcome" where
  "sp_nsec_hypervisor_dev_into sp i = visor_dev_info sp (nsec_hypervisor sp) i"

definition sp_sec_hypervisor_dev_info :: "visors_sp_t \<Rightarrow> u32 \<Rightarrow> swdev_t option outcome" where
  "sp_sec_hypervisor_dev_info sp i = visor_dev_info sp (sec_hypervisor sp) i"

definition sp_nsec_supervisor_dev_info :: "visors_sp_t \<Rightarrow> u32 \<Rightarrow> u32 \<Rightarrow> swdev_t option outcome" where
  "sp_nsec_supervisor_dev_info sp index i = visor_at (nsec_supervisor sp) index (\<lambda>v. visor_dev_info sp v i)"

definition sp_sec_supervisor_dev_info :: "visors_sp_t \<Rightarrow> u32 \<Rightarrow> u32 \<Rightarrow> swdev_t option outcome" where
  "sp_sec_supervisor_dev_info sp index i = visor_at (sec_supervisor sp) index (\<lambda>v. visor_dev_info sp v i)"

section \<open>The visor-call handlers of the FE310\<close>

definition platform_resources_setup :: "dp_t \<Rightarrow> sp_t \<Rightarrow> resources \<Rightarrow> status_t \<times> resources" where
  "platform_resources_setup device_prop software_prop r =
     (case dp_init (Some device_prop) r of (ret, r1) \<Rightarrow>
        (case sp_init (Some software_prop) r1 of (ret', r2) \<Rightarrow> (ret OR ret', r2)))"

definition status_of_ptr :: "vptr \<Rightarrow> status_t" where
  "status_of_ptr p = (if p \<noteq> P_null then success else error_device_id_inval)"

definition ptr_of :: "('a \<Rightarrow> vptr) \<Rightarrow> 'a option \<Rightarrow> vptr" where
  "ptr_of f x = (case x of Some a \<Rightarrow> f a | None \<Rightarrow> P_null)"

definition platform_fetch_sp :: "u32 \<Rightarrow> u32 \<Rightarrow> u32 \<Rightarrow> vret_t \<Rightarrow> resources \<Rightarrow> vret_t outcome" where
  "platform_fetch_sp a0 a1 a2 ret r =
     (case sw_prop r of
        None \<Rightarrow> Fault Null_deref
      | Some sp \<Rightarrow>
          let p = ptr_of P_swdev (sp_terravisor_dev_info sp a0)
          in Ok (ret\<lparr>vr_p := p, vr_size := (if p \<noteq> P_null then 4 else 0), vr_status := status_of_ptr p\<rparr>))"

definition platform_fetch_dp :: "u32 \<Rightarrow> u32 \<Rightarrow> u32 \<Rightarrow> vret_t \<Rightarrow> resources \<Rightarrow> vret_t outcome" where
  "platform_fetch_dp a0 a1 a2 ret r =
     (case dev_prop r of
        None \<Rightarrow> Fault Null_deref
      | Some dp \<Rightarrow>
          let (p, sz) =
            (if a0 = hw_clock then (P_clock (base_clock dp), 8)
             else if a0 = hw_gpio then (ptr_of P_gpio (dp_get_port_info (ports dp) (a0 OR a1)), 12)
             else (ptr_of P_module (dp_get_module_info (modules dp) (a0 OR a1)), 24))
          in Ok (ret\<lparr>vr_p := p, vr_size := (if p \<noteq> P_null then sz else 0), vr_status := status_of_ptr p\<rparr>))"

section \<open>The dispatcher\<close>

record 's vcall_t =
  vc_id :: u32
  vc_callback :: "(u32 \<Rightarrow> u32 \<Rightarrow> u32 \<Rightarrow> vret_t \<Rightarrow> 's \<Rightarrow> (vret_t \<times> 's) outcome) option"

fun get_callback_from_table ::
  "'s vcall_t list \<Rightarrow> u32 \<Rightarrow> (u32 \<Rightarrow> u32 \<Rightarrow> u32 \<Rightarrow> vret_t \<Rightarrow> 's \<Rightarrow> (vret_t \<times> 's) outcome) option" where
  "get_callback_from_table [] i = None"
| "get_callback_from_table (v # vs) i = (if vc_id v = i then vc_callback v else get_callback_from_table vs i)"

definition vcall_handler ::
  "'s vcall_t list \<Rightarrow> u32 \<Rightarrow> u32 \<Rightarrow> u32 \<Rightarrow> u32 \<Rightarrow> vret_t \<Rightarrow> 's \<Rightarrow> (vret_t \<times> 's) outcome" where
  "vcall_handler tbl i a0 a1 a2 ret s =
     (let ret1 = ret\<lparr>vr_p := P_null, vr_size := 0, vr_status := error_vcall_code_inval\<rparr>
      in case get_callback_from_table tbl i of
           Some cb \<Rightarrow> cb a0 a1 a2 ret1 s
         | None \<Rightarrow> Ok (ret1, s))"

abbreviation (input) fetch_sp :: u32 where "fetch_sp \<equiv> 1"
abbreviation (input) fetch_dp :: u32 where "fetch_dp \<equiv> 2"
abbreviation (input) fetch_clk :: u32 where "fetch_clk \<equiv> 4"
abbreviation (input) config_clk :: u32 where "config_clk \<equiv> 5"

text \<open>The codes of the POSIX layer (\<open>vcall_id.h\<close>): an enumerator without a value is one more than the one before it. The
  classes of hardware and software devices have a low byte of zero, which holds the instance.\<close>

definition posix_vcalls :: "(string \<times> u32) list" where
  "posix_vcalls =
     zip [''pthread_barrier_destroy'', ''pthread_barrier_init'', ''pthread_barrier_wait'', ''pthread_create'',
           ''pthread_cond_broadcast'', ''pthread_cond_destroy'', ''pthread_cond_init'', ''pthread_cond_signal'',
           ''pthread_cond_timedwait'', ''pthread_equal'', ''pthread_exit'', ''pthread_getschedparam'',
           ''pthread_join'', ''pthread_mutex_destroy'', ''pthread_mutex_init'', ''pthread_mutex_timedlock'',
           ''pthread_mutex_unlock'', ''pthread_mutexattr_destroy'', ''pthread_mutexattr_gettype'',
           ''pthread_mutexattr_init'', ''pthread_mutexattr_settype'', ''pthread_self'', ''pthread_setschedparam'',
           ''pthread_delay_ticks'']
       (map (\<lambda>k. 0x1001 + of_nat k) [0..<24])
     @ zip [''mq_close'', ''mq_setattr'', ''mq_getattr'', ''mq_open'', ''mq_receive'', ''mq_send'', ''mq_unlink'',
           ''sem_init'', ''sem_destroy'', ''sem_getvalue'', ''sem_post'', ''sem_wait'', ''sched_get_max_priority'',
           ''sched_get_min_priority'', ''sched_yield'']
       (map (\<lambda>k. 0x2001 + of_nat k) [0..<15])"

definition hw_devids :: "u32 list" where
  "hw_devids =
     [0x1000, 0x2000, hw_clock, hw_uart, hw_gpio, 0x6000, hw_timer, 0x8000, 0x8100, 0x8200, 0x8300, hw_clint, hw_plic, hw_prci,
      hw_aon, 0xb000]"

definition resource_vcalls :: "resources vcall_t list" where
  "resource_vcalls =
     [\<lparr>vc_id = fetch_sp, vc_callback = Some (\<lambda>a0 a1 a2 ret r. obind (platform_fetch_sp a0 a1 a2 ret r) (\<lambda>v. Ok (v, r)))\<rparr>,
      \<lparr>vc_id = fetch_dp, vc_callback = Some (\<lambda>a0 a1 a2 ret r. obind (platform_fetch_dp a0 a1 a2 ret r) (\<lambda>v. Ok (v, r)))\<rparr>]"

text \<open>\<open>arch_visor_call\<close> as the drivers use it to fetch properties.\<close>

definition visor_fetch :: "resources \<Rightarrow> u32 \<Rightarrow> u32 \<Rightarrow> u32 \<Rightarrow> vret_t outcome" where
  "visor_fetch r c a0 a1 =
     obind (vcall_handler resource_vcalls c a0 a1 0 \<lparr>vr_p = P_null, vr_size = 0, vr_status = 0\<rparr> r) (\<lambda>(v, _). Ok v)"

section \<open>The tables of the FE310-G002\<close>

definition fe310_modules :: "module_t list" where
  "fe310_modules =
     [\<lparr>mod_id = hw_plic, mod_baddr = 0x0c000000, mod_stride = 0x04000000, mod_clk = 0, mod_clk_id = 0,
       interrupt = [\<lparr>irq_module = int_local, irq_id = 11, irq_trigger = int_rising_edge\<rparr>]\<rparr>,
      \<lparr>mod_id = hw_uart OR 0, mod_baddr = 0x10013000, mod_stride = 0x20, mod_clk = 115200, mod_clk_id = 0,
       interrupt = [\<lparr>irq_module = int_plat, irq_id = 3, irq_trigger = int_rising_edge\<rparr>]\<rparr>,
      \<lparr>mod_id = hw_prci, mod_baddr = 0x10008000, mod_stride = 0x1000, mod_clk = 0, mod_clk_id = 0, interrupt = [no_irq]\<rparr>,
      \<lparr>mod_id = hw_clint, mod_baddr = 0x02000000, mod_stride = 0xc000, mod_clk = 0, mod_clk_id = 0, interrupt = [no_irq]\<rparr>,
      \<lparr>mod_id = hw_aon OR 0, mod_baddr = 0x10000000, mod_stride = 0x1000, mod_clk = 0, mod_clk_id = 0, interrupt = [no_irq]\<rparr>,
      \<lparr>mod_id = hw_uart OR 1, mod_baddr = 0x10023000, mod_stride = 0x20, mod_clk = 115200, mod_clk_id = 0,
       interrupt = [\<lparr>irq_module = int_plat, irq_id = 4, irq_trigger = int_rising_edge\<rparr>]\<rparr>,
      \<lparr>mod_id = hw_timer OR 0, mod_baddr = 0, mod_stride = 0, mod_clk = 32768, mod_clk_id = 0,
       interrupt = [\<lparr>irq_module = int_local, irq_id = 7, irq_trigger = int_level\<rparr>]\<rparr>]"

text \<open>\<open>XCLK\<close> is a build parameter.\<close>

definition fe310_device_prop :: "u32 \<Rightarrow> dp_t" where
  "fe310_device_prop xclk =
     \<lparr>base_clock = xclk, ports = [\<lparr>gpio_id = hw_gpio OR 0, gpio_baddr = 0x10012000, gpio_stride = 0x4c\<rparr>],
      modules = fe310_modules\<rparr>"

definition fe310_software_prop :: sp_t where
  "fe310_software_prop =
     \<lparr>terravisor = \<lparr>devids = [console_uart, sched_timer, onboard_led OR 0, onboard_led OR 1]\<rparr>,
      swdev =
        [\<lparr>swdev_id = console_uart, hwdev_id = hw_uart OR 0, pmux = Some \<lparr>pm_port = 0, pm_function = 0, pm_pins = [16, 17]\<rparr>\<rparr>,
         \<lparr>swdev_id = sched_timer, hwdev_id = hw_timer OR 0, pmux = None\<rparr>,
         \<lparr>swdev_id = onboard_led OR 0, hwdev_id = 0, pmux = Some \<lparr>pm_port = 0, pm_function = 0, pm_pins = [19, 21]\<rparr>\<rparr>,
         \<lparr>swdev_id = onboard_led OR 1, hwdev_id = 0, pmux = Some \<lparr>pm_port = 0, pm_function = 0, pm_pins = [20]\<rparr>\<rparr>]\<rparr>"

section \<open>Lookups\<close>

text \<open>The contract of a table searched by identifier: the result is an entry with the identifier, and
  there is one whenever the identifier occurs.\<close>

locale keyed_table =
  fixes lookup :: "'a list \<Rightarrow> u32 \<Rightarrow> 'a option" and id_of :: "'a \<Rightarrow> u32"
  assumes lookup_Nil: "lookup [] i = None"
    and lookup_Cons: "lookup (x # xs) i = (if id_of x = i then Some x else lookup xs i)"
begin

lemma lookup_find: "lookup xs i = find (\<lambda>x. id_of x = i) xs"
  by (induction xs) (simp_all add: lookup_Nil lookup_Cons)

lemma lookup_None_iff: "lookup xs i = None \<longleftrightarrow> i \<notin> id_of ` set xs"
  by (auto simp: lookup_find find_None_iff)

lemma lookup_distinct:
  assumes "distinct (map id_of xs)" and "x \<in> set xs"
  shows "lookup xs (id_of x) = Some x"
  using assms by (induction xs) (auto simp: lookup_Cons)

end

interpretation port_table: keyed_table dp_get_port_info gpio_id
  by unfold_locales simp_all

interpretation module_table: keyed_table dp_get_module_info mod_id
  by unfold_locales simp_all

lemma visor_fetch_module:
  assumes "dev_prop r = Some dp" and "a0 \<noteq> hw_clock" and "a0 \<noteq> hw_gpio"
    and "dp_get_module_info (modules dp) (a0 OR a1) = Some m"
  shows "visor_fetch r fetch_dp a0 a1 = Ok \<lparr>vr_p = P_module m, vr_size = 24, vr_status = success\<rparr>"
  using assms
  by (simp add: visor_fetch_def vcall_handler_def resource_vcalls_def platform_fetch_dp_def ptr_of_def status_of_ptr_def)

interpretation swdev_table: keyed_table find_swdev swdev_id
  by unfold_locales auto

lemma sp_dev_loop_eq: "sp_dev_loop ds xs i = (if i \<in> set xs then find_swdev ds i else None)"
  by (induction xs) (auto split: option.split)

text \<open>Isolation of the visors: a lookup for a supervisor returns a device of its own list only, and exactly the listed devices
  that the tree describes are found.\<close>

lemma supervisor_sees_own_devices:
  assumes "unat index < length (nsec_supervisor sp)" and "distinct (map swdev_id (swdev sp))" and "d \<in> set (swdev sp)"
  shows "sp_nsec_supervisor_dev_info sp index (swdev_id d)
    = Ok (if swdev_id d \<in> set (devids (nsec_supervisor sp ! unat index)) then Some d else None)"
  using assms swdev_table.lookup_distinct [OF assms(2,3)]
  by (simp add: sp_nsec_supervisor_dev_info_def visor_at_def visor_dev_info_def sp_dev_loop_eq)

text \<open>C12: A driver finds its device: for every software device of the visor whose hardware identifier is
  the identifier of a module, in tables without duplicates, the call \<open>fetch_sp\<close> returns the
  software device, and \<open>fetch_dp\<close> with the upper and lower part of its hardware identifier,
  split with the masks the drivers use, returns that module.\<close>

theorem fetch_chain:
  assumes "r = \<lparr>dev_prop = Some dp, sw_prop = Some sp\<rparr>"
    and "d \<in> set (swdev sp)" and "distinct (map swdev_id (swdev sp))" and "swdev_id d \<in> set (devids (terravisor sp))"
    and "m \<in> set (modules dp)" and "distinct (map mod_id (modules dp))" and "hwdev_id d = mod_id m"
    and "mod_id m AND 0xffff = mod_id m" and "mod_id m AND 0xff00 \<notin> {hw_clock, hw_gpio}"
  shows "\<exists>v w. vcall_handler resource_vcalls fetch_sp (swdev_id d) 0 0 v0 r = Ok (v, r)
    \<and> vr_p v = P_swdev d \<and> vr_status v = success
    \<and> vcall_handler resource_vcalls fetch_dp (hwdev_id d AND 0xff00) (hwdev_id d AND 0xff) 0 v r = Ok (w, r)
    \<and> vr_p w = P_module m \<and> vr_status w = success"
proof -
  have "(0xff00 :: u32) OR 0xff = 0xffff" by simp
  then have a: "(mod_id m AND 0xff00) OR (mod_id m AND 0xff) = mod_id m"
    using assms(8) by (metis and.commute bit.conj_disj_distrib2)
  have s: "find_swdev (swdev sp) (swdev_id d) = Some d"
    using swdev_table.lookup_distinct [OF assms(3,2)] .
  have q: "dp_get_module_info (modules dp) (mod_id m) = Some m"
    using module_table.lookup_distinct [OF assms(6,5)] .
  show ?thesis
    using assms(1,4,7,9) s q a
    by (simp add: vcall_handler_def resource_vcalls_def platform_fetch_sp_def platform_fetch_dp_def
        sp_terravisor_dev_info_def sp_dev_loop_eq ptr_of_def status_of_ptr_def Let_def)
qed

lemma vcall_unknown:
  "i \<notin> {fetch_sp, fetch_dp} \<Longrightarrow> \<exists>v. vcall_handler resource_vcalls i a0 a1 a2 v0 r = Ok (v, r)
    \<and> vr_p v = P_null \<and> vr_size v = 0 \<and> vr_status v = error_vcall_code_inval"
  by (simp add: vcall_handler_def resource_vcalls_def Let_def)

text \<open>The POSIX calls have no handler among those of the resources (and the two further calls of the repository, those of the clock
  driver, are not among them): they are answered with the code for an unknown call.\<close>

lemma posix_vcalls_unserved:
  assumes "(name, i) \<in> set posix_vcalls"
  shows "\<exists>v. vcall_handler resource_vcalls i a0 a1 a2 v0 r = Ok (v, r) \<and> vr_p v = P_null \<and> vr_status v = error_vcall_code_inval"
proof -
  have "list_all (\<lambda>(_, c). c \<notin> {fetch_sp, fetch_dp}) posix_vcalls" by code_simp
  then have "i \<notin> {fetch_sp, fetch_dp}" using assms by (auto simp: list_all_iff)
  then show ?thesis using vcall_unknown by blast
qed

text \<open>The identifier of an instance splits into its class and its number, whatever the class.\<close>

lemma devid_split:
  assumes "c \<in> set hw_devids" and "k AND 0xff = k"
  shows "(c OR k) AND 0xff00 = c" and "(c OR k) AND 0xff = k"
proof -
  have "list_all (\<lambda>c. c AND 0xff00 = c \<and> c AND 0xff = 0) hw_devids" by code_simp
  then have c: "c AND 0xff00 = c" "c AND 0xff = 0" using assms(1) by (auto simp: list_all_iff)
  have "k AND 0xff00 = k AND (0xff AND 0xff00)" using assms(2) by (metis and.assoc)
  then have "k AND 0xff00 = 0" by simp
  then show "(c OR k) AND 0xff00 = c" "(c OR k) AND 0xff = k" using c assms(2) by (simp_all add: bit.conj_disj_distrib2)
qed

lemma fe310_tables:
  "distinct (map mod_id fe310_modules)" "distinct (map swdev_id (swdev fe310_software_prop))"
  "set (devids (terravisor fe310_software_prop)) = swdev_id ` set (swdev fe310_software_prop)"
  by (simp_all add: fe310_modules_def fe310_software_prop_def insert_commute)

theorem fetch_chain_witness:
  "\<exists>v w. vcall_handler resource_vcalls fetch_sp console_uart 0 0 \<lparr>vr_p = P_null, vr_size = 0, vr_status = 0\<rparr>
      \<lparr>dev_prop = Some (fe310_device_prop 16000000), sw_prop = Some fe310_software_prop\<rparr>
        = Ok (v, \<lparr>dev_prop = Some (fe310_device_prop 16000000), sw_prop = Some fe310_software_prop\<rparr>)
    \<and> vr_p v = P_swdev (swdev fe310_software_prop ! 0)
    \<and> vcall_handler resource_vcalls fetch_dp 0x4000 0 0 v
        \<lparr>dev_prop = Some (fe310_device_prop 16000000), sw_prop = Some fe310_software_prop\<rparr>
        = Ok (w, \<lparr>dev_prop = Some (fe310_device_prop 16000000), sw_prop = Some fe310_software_prop\<rparr>)
    \<and> vr_p w = P_module (fe310_modules ! 1)"
proof -
  let ?d = "swdev fe310_software_prop ! 0" and ?m = "fe310_modules ! 1"
  have f: "?d \<in> set (swdev fe310_software_prop)" "?m \<in> set fe310_modules"
    "swdev_id ?d = 0x100" "hwdev_id ?d = mod_id ?m" "mod_id ?m = 0x4000"
    by (simp_all add: fe310_modules_def fe310_software_prop_def)
  have "modules (fe310_device_prop 16000000) = fe310_modules" by (simp add: fe310_device_prop_def)
  then show ?thesis
    using fetch_chain [OF refl, of ?d fe310_software_prop ?m "fe310_device_prop 16000000"
        "\<lparr>vr_p = P_null, vr_size = 0, vr_status = 0\<rparr>"] f fe310_tables by auto
qed

end
