(* ===== verification/Interrupts.thy ===== *)
theory Interrupts
  imports Arch_Riscv Resources
begin

text \<open>
  Interrupt handling: the platform-level interrupt controller (\<open>src/src/driver/interrupt/plic/plic.c\<close>),
  the interrupt-controller core (\<open>interrupt_controller.c\<close>), linking of handlers (\<open>interrupt.c\<close>) and
  the trap dispatcher (\<open>arch/riscv/32/i/terravisor/exception_handler.c\<close>).

  \<^item> The PLIC's registers are a word memory. Its claim register has side effects in the device: what a
    claim returns and what a completion does are the parameter \<open>plic_hw\<close>.
  \<^item> Handlers are identifiers; what a handler does is the parameter \<open>run\<close>, except for
    \<open>plic_irqhandler\<close>, which is part of the model. \<open>arch_core_index()\<close> is the argument \<open>core\<close>.
  \<^item> \<open>ic_device\<close> is the contract behind \<open>ic_t\<close>: priorities and enables per interrupt. It is
    interpreted on the PLIC.
\<close>

type_synonym handler = nat

abbreviation (input) no_handler :: handler where "no_handler \<equiv> 0"
abbreviation (input) arch_panic_handler :: handler where "arch_panic_handler \<equiv> 1"
abbreviation (input) arch_unhandled_irq :: handler where "arch_unhandled_irq \<equiv> 2"
abbreviation (input) plat_panic_handler :: handler where "plat_panic_handler \<equiv> 3"
abbreviation (input) plic_irqhandler_ptr :: handler where "plic_irqhandler_ptr \<equiv> 4"

abbreviation (input) N_PLAT_IRQS :: nat where "N_PLAT_IRQS \<equiv> 52"
abbreviation (input) N_EXCEP :: u32 where "N_EXCEP \<equiv> 12"
abbreviation (input) N_IRQ :: u32 where "N_IRQ \<equiv> 12"

section \<open>The PLIC\<close>

definition PLIC_IPRIORITY_OFFSET :: "u32 \<Rightarrow> u32" where
  "PLIC_IPRIORITY_OFFSET irq = 0x00000000 + 0x04 * irq"

definition PLIC_IPENDING_OFFSET :: "u32 \<Rightarrow> u32" where
  "PLIC_IPENDING_OFFSET irq = 0x00001000 + 0x04 * (irq div 31)"

definition PLIC_IENABLE_OFFSET :: "u32 \<Rightarrow> u32 \<Rightarrow> u32" where
  "PLIC_IENABLE_OFFSET core irq = 0x00002000 + 0x80 * core + 0x04 * (irq div 32)"

definition PLIC_ITHRESHOLD_OFFSET :: "u32 \<Rightarrow> u32" where
  "PLIC_ITHRESHOLD_OFFSET core = 0x00200000 + 0x1000 * core"

record plic_port_t =
  plic_baddr :: u32
  plic_stride :: u32
  plic_irq :: irqs_t

record 'h plic_hw =
  hw_claim :: "u32 \<Rightarrow> 'h \<Rightarrow> u32 \<times> 'h"
  hw_complete :: "u32 \<Rightarrow> u32 \<Rightarrow> 'h \<Rightarrow> 'h"

record 'h plic =
  port :: "plic_port_t option"
  ic_allocated :: bool
  plic_irq_handler :: "handler list"
  regs :: "u32 \<Rightarrow> u32"
  dev :: 'h

text \<open>\<open>assert(port->baddr)\<close> at the head of every register access.\<close>

definition with_base :: "'h plic \<Rightarrow> (u32 \<Rightarrow> 'a outcome) \<Rightarrow> 'a outcome" where
  "with_base p f =
     (case port p of
        None \<Rightarrow> Fault Null_deref
      | Some q \<Rightarrow> require (plic_baddr q \<noteq> 0) Assert_failed (f (plic_baddr q)))"

definition mmio_write :: "u32 \<Rightarrow> u32 \<Rightarrow> 'h plic \<Rightarrow> 'h plic" where
  "mmio_write a v p = p\<lparr>regs := (regs p)(a := v)\<rparr>"

definition plic_setup :: "resources \<Rightarrow> bool \<Rightarrow> 'h plic \<Rightarrow> (status_t \<times> 'h plic) outcome" where
  "plic_setup r alloc p =
     obind (vcall_handler resource_vcalls fetch_dp hw_plic 0 0 \<lparr>vr_p = P_null, vr_size = 0, vr_status = 0\<rparr> r)
       (\<lambda>(v, _).
          if vr_status v \<noteq> success then Ok (vr_status v, p)
          else if \<not> alloc then Ok (error_memory_low, p\<lparr>port := None\<rparr>)
          else case vr_p v of
                 P_module m \<Rightarrow>
                   (case interrupt m of
                      q # _ \<Rightarrow> Ok (success, p\<lparr>port := Some \<lparr>plic_baddr = mod_baddr m, plic_stride = mod_stride m, plic_irq = q\<rparr>\<rparr>)
                    | [] \<Rightarrow> Fault Out_of_bounds)
               | _ \<Rightarrow> Fault Null_deref)"

definition plic_get_priority :: "u32 \<Rightarrow> 'h plic \<Rightarrow> u32 outcome" where
  "plic_get_priority irq p = with_base p (\<lambda>b. Ok (regs p (b + PLIC_IPRIORITY_OFFSET irq)))"

definition plic_set_priority :: "u32 \<Rightarrow> u32 \<Rightarrow> 'h plic \<Rightarrow> (status_t \<times> 'h plic) outcome" where
  "plic_set_priority irq priority p =
     with_base p (\<lambda>b. Ok (success, mmio_write (b + PLIC_IPRIORITY_OFFSET irq) priority p))"

definition plic_get_threshold :: "u32 \<Rightarrow> 'h plic \<Rightarrow> u32 outcome" where
  "plic_get_threshold core p = with_base p (\<lambda>b. Ok (regs p (b + PLIC_ITHRESHOLD_OFFSET core)))"

definition plic_set_threshold :: "u32 \<Rightarrow> u32 \<Rightarrow> 'h plic \<Rightarrow> (status_t \<times> 'h plic) outcome" where
  "plic_set_threshold core threshold p =
     with_base p (\<lambda>b. Ok (success, mmio_write (b + PLIC_ITHRESHOLD_OFFSET core) threshold p))"

definition plic_get_interrupt :: "'h plic_hw \<Rightarrow> u32 \<Rightarrow> 'h plic \<Rightarrow> (u32 \<times> 'h plic) outcome" where
  "plic_get_interrupt hw core p =
     with_base p (\<lambda>_. case hw_claim hw core (dev p) of (irq, d) \<Rightarrow> Ok (irq, p\<lparr>dev := d\<rparr>))"

definition plic_clr_interrupt :: "'h plic_hw \<Rightarrow> u32 \<Rightarrow> u32 \<Rightarrow> 'h plic \<Rightarrow> 'h plic outcome" where
  "plic_clr_interrupt hw core irq p = with_base p (\<lambda>_. Ok (p\<lparr>dev := hw_complete hw core irq (dev p)\<rparr>))"

definition plic_int_en :: "u32 \<Rightarrow> u32 \<Rightarrow> 'h plic \<Rightarrow> (status_t \<times> 'h plic) outcome" where
  "plic_int_en core irq p =
     with_base p (\<lambda>b. let a = b + PLIC_IENABLE_OFFSET core irq
                      in Ok (success, mmio_write a (regs p a OR push_bit (unat (irq mod 32)) 1) p))"

definition plic_int_dis :: "u32 \<Rightarrow> u32 \<Rightarrow> 'h plic \<Rightarrow> (status_t \<times> 'h plic) outcome" where
  "plic_int_dis core irq p =
     with_base p (\<lambda>b. let a = b + PLIC_IENABLE_OFFSET core irq
                      in Ok (success, mmio_write a (regs p a AND NOT (push_bit (unat (irq mod 32)) 1)) p))"

definition plic_get_pending :: "u32 \<Rightarrow> 'h plic \<Rightarrow> bool outcome" where
  "plic_get_pending irq p =
     with_base p (\<lambda>b. Ok (regs p (b + PLIC_IPENDING_OFFSET irq) AND push_bit (unat (irq mod 32)) 1 \<noteq> 0))"

definition plic_register_irq_handler :: "u32 \<Rightarrow> handler \<Rightarrow> 'h plic \<Rightarrow> 'h plic outcome" where
  "plic_register_irq_handler i h p =
     (if i \<noteq> 0 \<and> h \<noteq> no_handler
      then require (unat i < length (plic_irq_handler p)) Out_of_bounds
             (Ok (p\<lparr>plic_irq_handler := (plic_irq_handler p)[unat i := h]\<rparr>))
      else Ok p)"

section \<open>The interrupt-controller core\<close>

text \<open>\<open>ic_t\<close> with the state its functions work on made explicit.\<close>

record 's ic_t =
  get_priority :: "u32 \<Rightarrow> 's \<Rightarrow> u32 outcome"
  set_priority :: "u32 \<Rightarrow> u32 \<Rightarrow> 's \<Rightarrow> (status_t \<times> 's) outcome"
  get_affinity :: "u32 \<Rightarrow> 's \<Rightarrow> u32 outcome"
  set_affinity :: "u32 \<Rightarrow> u32 \<Rightarrow> 's \<Rightarrow> (status_t \<times> 's) outcome"
  get_irq :: "'s \<Rightarrow> (u32 \<times> 's) outcome"
  en_irq :: "u32 \<Rightarrow> 's \<Rightarrow> (status_t \<times> 's) outcome"
  dis_irq :: "u32 \<Rightarrow> 's \<Rightarrow> (status_t \<times> 's) outcome"
  pending :: "u32 \<Rightarrow> 's \<Rightarrow> bool outcome"
  register_handler :: "u32 \<Rightarrow> handler \<Rightarrow> 's \<Rightarrow> 's outcome"

record 's ic_core =
  ic :: "'s ic_t option"
  ic_attached :: bool

definition ic_attach_device :: "status_t \<Rightarrow> 's ic_t option \<Rightarrow> 's ic_core \<Rightarrow> status_t \<times> 's ic_core" where
  "ic_attach_device dev_status pic c =
     (let c1 = c\<lparr>ic_attached := False, ic := pic\<rparr>
      in if pic \<noteq> None then (dev_status, c1\<lparr>ic_attached := (dev_status = success)\<rparr>)
         else (error_device_inval, c1))"

definition ic_release_device :: "'s ic_core \<Rightarrow> status_t \<times> 's ic_core" where
  "ic_release_device c = (success, c\<lparr>ic := None, ic_attached := False\<rparr>)"

text \<open>The calls through \<open>ic\<close> under the guard \<open>ic_attached\<close>.\<close>

definition with_ic :: "'s ic_core \<Rightarrow> 'a \<Rightarrow> ('s ic_t \<Rightarrow> 'a outcome) \<Rightarrow> 'a outcome" where
  "with_ic c dflt f =
     (if ic_attached c then (case ic c of Some d \<Rightarrow> f d | None \<Rightarrow> Fault Null_deref) else Ok dflt)"

definition ic_get_irq :: "'s ic_core \<Rightarrow> 's \<Rightarrow> (u32 \<times> 's) outcome" where
  "ic_get_irq c s = with_ic c (0, s) (\<lambda>d. get_irq d s)"

definition ic_set_priority_of_irq :: "'s ic_core \<Rightarrow> u32 \<Rightarrow> u32 \<Rightarrow> 's \<Rightarrow> (status_t \<times> 's) outcome" where
  "ic_set_priority_of_irq c irq priority s = with_ic c (error_driver_init_failed, s) (\<lambda>d. set_priority d irq priority s)"

definition ic_get_priority_of_irq :: "'s ic_core \<Rightarrow> u32 \<Rightarrow> 's \<Rightarrow> u32 outcome" where
  "ic_get_priority_of_irq c irq s = with_ic c 0 (\<lambda>d. get_priority d irq s)"

definition ic_en_irq :: "'s ic_core \<Rightarrow> u32 \<Rightarrow> 's \<Rightarrow> (status_t \<times> 's) outcome" where
  "ic_en_irq c irq s = with_ic c (error_driver_init_failed, s) (\<lambda>d. en_irq d irq s)"

definition ic_dis_irq :: "'s ic_core \<Rightarrow> u32 \<Rightarrow> 's \<Rightarrow> (status_t \<times> 's) outcome" where
  "ic_dis_irq c irq s = with_ic c (error_driver_init_failed, s) (\<lambda>d. dis_irq d irq s)"

definition ic_get_affinity_of_core :: "'s ic_core \<Rightarrow> u32 \<Rightarrow> 's \<Rightarrow> u32 outcome" where
  "ic_get_affinity_of_core c core s = with_ic c 0 (\<lambda>d. get_affinity d core s)"

definition ic_set_affinity_of_core :: "'s ic_core \<Rightarrow> u32 \<Rightarrow> u32 \<Rightarrow> 's \<Rightarrow> (status_t \<times> 's) outcome" where
  "ic_set_affinity_of_core c core irq s =
     with_ic c (error_driver_init_failed, s) (\<lambda>d. set_affinity d core irq s)"

definition ic_register_interrupt_handler :: "'s ic_core \<Rightarrow> u32 \<Rightarrow> handler \<Rightarrow> 's \<Rightarrow> 's outcome" where
  "ic_register_interrupt_handler c i h s =
     (if ic_attached c \<and> h \<noteq> no_handler \<and> i \<noteq> 0
      then (case ic c of Some d \<Rightarrow> register_handler d i h s | None \<Rightarrow> Fault Null_deref)
      else Ok s)"

section \<open>The trap dispatcher\<close>

record 'h sys =
  exhandler :: "u32 \<Rightarrow> u32 \<Rightarrow> handler"
  irqhandler :: "u32 \<Rightarrow> u32 \<Rightarrow> handler"
  local_frame :: "u32 \<Rightarrow> ptr"
  frame_mepc :: "ptr \<Rightarrow> u32"
  code :: "ptr \<Rightarrow> u8"
  csrs :: cpu
  plic :: "'h plic"
  ic_state :: "'h plic ic_core"

definition in_isr :: "u32 \<Rightarrow> 'h sys \<Rightarrow> bool" where
  "in_isr core s = (local_frame s core \<noteq> NULL)"

definition set_context_frame :: "u32 \<Rightarrow> ptr \<Rightarrow> 'h sys \<Rightarrow> 'h sys" where
  "set_context_frame core frame s = s\<lparr>local_frame := (local_frame s)(core := frame)\<rparr>"

definition get_context_frame :: "u32 \<Rightarrow> 'h sys \<Rightarrow> ptr" where
  "get_context_frame core s = local_frame s core"

definition arch_register_interrupt_handler :: "u32 \<Rightarrow> u32 \<Rightarrow> handler \<Rightarrow> 'h sys \<Rightarrow> 'h sys outcome" where
  "arch_register_interrupt_handler core i h s =
     require (i < N_EXCEP) Assert_failed
       (Ok (s\<lparr>exhandler := (exhandler s)(core := (exhandler s core)(i := h))\<rparr>))"

definition local_register_interrupt_handler :: "u32 \<Rightarrow> u32 \<Rightarrow> handler \<Rightarrow> 'h sys \<Rightarrow> 'h sys outcome" where
  "local_register_interrupt_handler core i h s =
     require (i < N_IRQ) Assert_failed
       (Ok (s\<lparr>irqhandler := (irqhandler s)(core := (irqhandler s core)(i := h))\<rparr>))"

definition lift_plic :: "('h plic \<Rightarrow> ('a \<times> 'h plic) outcome) \<Rightarrow> 'h sys \<Rightarrow> ('a \<times> 'h sys) outcome" where
  "lift_plic f s = obind (f (plic s)) (\<lambda>(a, p). Ok (a, s\<lparr>plic := p\<rparr>))"

definition link_interrupt :: "u32 \<Rightarrow> u32 \<Rightarrow> u32 \<Rightarrow> handler \<Rightarrow> 'h sys \<Rightarrow> (status_t \<times> 'h sys) outcome" where
  "link_interrupt core target i h s =
     (if target = int_arch then obind (arch_register_interrupt_handler core i h s) (\<lambda>s1. Ok (success, s1))
      else if target = int_local then obind (local_register_interrupt_handler core i h s) (\<lambda>s1. Ok (success, s1))
      else if target = int_plat
      then obind (ic_register_interrupt_handler (ic_state s) i h (plic s)) (\<lambda>p. Ok (success, s\<lparr>plic := p\<rparr>))
      else Ok (error_system_irq_link_fail, s))"

definition unlink_interrupt :: "u32 \<Rightarrow> u32 \<Rightarrow> u32 \<Rightarrow> 'h sys \<Rightarrow> (status_t \<times> 'h sys) outcome" where
  "unlink_interrupt core target i s =
     (if target = int_arch
      then obind (arch_register_interrupt_handler core i arch_panic_handler s) (\<lambda>s1. Ok (success, s1))
      else if target = int_local
      then obind (local_register_interrupt_handler core i plat_panic_handler s) (\<lambda>s1. Ok (success, s1))
      else if target = int_plat
      then obind (ic_register_interrupt_handler (ic_state s) i plat_panic_handler (plic s)) (\<lambda>p. Ok (success, s\<lparr>plic := p\<rparr>))
      else Ok (error_system_irq_unlink_fail, s))"

text \<open>\<open>int_wait_t\<close> holds one flag. What happens while the core sleeps in \<open>arch_wfi\<close> (an interrupt handler
  may clear the flag) is the parameter \<open>wfi\<close> on the flag and the rest of the state.\<close>

definition wait_lock :: "u8 \<Rightarrow> status_t \<times> u8" where
  "wait_lock v = (success, 1)"

definition wait_release_on_irq :: "u8 \<Rightarrow> status_t \<times> u8" where
  "wait_release_on_irq v = (success, 0)"

primrec wait_till_irq :: "nat \<Rightarrow> (u8 \<times> 's \<Rightarrow> u8 \<times> 's) \<Rightarrow> u8 \<times> 's \<Rightarrow> (status_t \<times> (u8 \<times> 's)) outcome" where
  "wait_till_irq 0 wfi s = Hang"
| "wait_till_irq (Suc fuel) wfi s =
     (let s1 = wfi s in if fst s1 = 1 then wait_till_irq fuel wfi s1 else Ok (success, s1))"

definition plic_irqhandler ::
  "'h plic_hw \<Rightarrow> (handler \<Rightarrow> 'h sys \<Rightarrow> 'h sys outcome) \<Rightarrow> u32 \<Rightarrow> 'h sys \<Rightarrow> 'h sys outcome" where
  "plic_irqhandler hw run core s =
     obind (lift_plic (plic_get_interrupt hw core) s) (\<lambda>(irq, s1).
     obind (plic_clr_interrupt hw core irq (plic s1)) (\<lambda>p.
     let s2 = s1\<lparr>plic := p\<rparr>
     in require (unat irq < length (plic_irq_handler p)) Out_of_bounds
          (run (plic_irq_handler p ! unat irq) s2)))"

definition call_handler ::
  "'h plic_hw \<Rightarrow> (handler \<Rightarrow> 'h sys \<Rightarrow> 'h sys outcome) \<Rightarrow> u32 \<Rightarrow> handler \<Rightarrow> 'h sys \<Rightarrow> 'h sys outcome" where
  "call_handler hw run core h s = (if h = plic_irqhandler_ptr then plic_irqhandler hw run core s else run h s)"

definition mepc_skip :: "u8 \<Rightarrow> u32" where
  "mepc_skip b = (if b AND 2 \<noteq> 0 then 4 else 2)"

definition exception_handler ::
  "'h plic_hw \<Rightarrow> (handler \<Rightarrow> 'h sys \<Rightarrow> 'h sys outcome) \<Rightarrow> u32 \<Rightarrow> u32 \<Rightarrow> ptr \<Rightarrow> 'h sys \<Rightarrow> 'h sys outcome" where
  "exception_handler hw run core mcause frame s =
     (let cause = mcause AND NOT (push_bit 31 1);
          s1 = set_context_frame core frame s
      in obind
           (if mcause AND push_bit 31 1 \<noteq> 0
            then require (cause < N_IRQ) Out_of_bounds (call_handler hw run core (irqhandler s1 core cause) s1)
            else require (cause < N_EXCEP) Out_of_bounds
                   (obind (call_handler hw run core (exhandler s1 core cause) s1) (\<lambda>s2.
                      let pc = frame_mepc s2 frame
                      in Ok (s2\<lparr>frame_mepc := (frame_mepc s2)(frame := pc + mepc_skip (code s2 pc))\<rparr>))))
           (\<lambda>s3. Ok (set_context_frame core NULL s3)))"


section \<open>The PLIC driver\<close>

definition plic_ic :: "'h plic_hw \<Rightarrow> u32 \<Rightarrow> 'h plic ic_t" where
  "plic_ic hw core =
     \<lparr>get_priority = plic_get_priority, set_priority = plic_set_priority,
      get_affinity = plic_get_threshold, set_affinity = plic_set_threshold,
      get_irq = plic_get_interrupt hw core, en_irq = plic_int_en core, dis_irq = plic_int_dis core,
      pending = plic_get_pending, register_handler = plic_register_irq_handler\<rparr>"

definition plic_driver_exit :: "'h sys \<Rightarrow> status_t \<times> 'h sys" where
  "plic_driver_exit s =
     (case ic_release_device (ic_state s) of
        (r, c) \<Rightarrow> (r, s\<lparr>plic := (plic s)\<lparr>ic_allocated := False\<rparr>, ic_state := c\<rparr>))"

definition plic_driver_exit_pcpu :: "u32 \<Rightarrow> 'h sys \<Rightarrow> (status_t \<times> 'h sys) outcome" where
  "plic_driver_exit_pcpu core s =
     (let s1 = s\<lparr>csrs := arch_di_mei (csrs s)\<rparr>
      in case port (plic s1) of
           None \<Rightarrow> Fault Null_deref
         | Some q \<Rightarrow> unlink_interrupt core (irq_module (plic_irq q)) (irq_id (plic_irq q)) s1)"

primrec plic_reset_loop :: "nat \<Rightarrow> u32 \<Rightarrow> u32 \<Rightarrow> 'h plic \<Rightarrow> 'h plic outcome" where
  "plic_reset_loop 0 core i p = Ok p"
| "plic_reset_loop (Suc n) core i p =
     obind (plic_int_dis core i p) (\<lambda>(_, p1).
     obind (plic_set_priority i 1 p1) (\<lambda>(_, p2). plic_reset_loop n core (i + 1) p2))"

text \<open>\<open>alloc1\<close> and \<open>alloc2\<close>: the two allocations succeed.\<close>

definition plic_driver_setup ::
  "'h plic_hw \<Rightarrow> u32 \<Rightarrow> resources \<Rightarrow> bool \<Rightarrow> bool \<Rightarrow> 'h sys \<Rightarrow> (status_t \<times> 'h sys) outcome" where
  "plic_driver_setup hw core r alloc1 alloc2 s =
     (let s0 = s\<lparr>csrs := arch_di_mei (csrs s)\<rparr>
      in obind (lift_plic (plic_setup r alloc1) s0) (\<lambda>(ret, s1).
         if ret \<noteq> success then Ok (ret, snd (plic_driver_exit s1))
         else if \<not> alloc2 then Ok (error_memory_low, snd (plic_driver_exit s1))
         else case ic_attach_device ret (Some (plic_ic hw core)) (ic_state s1) of (ret2, c) \<Rightarrow>
           let s2 = s1\<lparr>plic := (plic s1)\<lparr>ic_allocated := True\<rparr>, ic_state := c\<rparr>
           in if ret2 \<noteq> success then Ok (ret2, snd (plic_driver_exit s2))
              else obind (plic_reset_loop N_PLAT_IRQS core 1 (plic s2)) (\<lambda>p. Ok (ret2, s2\<lparr>plic := p\<rparr>))))"

text \<open>The loop that claims and completes what is pending.\<close>

primrec plic_drain_loop :: "nat \<Rightarrow> 'h plic_hw \<Rightarrow> u32 \<Rightarrow> 'h plic \<Rightarrow> 'h plic outcome" where
  "plic_drain_loop 0 hw core p = Hang"
| "plic_drain_loop (Suc fuel) hw core p =
     obind (plic_get_interrupt hw core p) (\<lambda>(irq, p1).
       if irq \<noteq> 0 then obind (plic_clr_interrupt hw core irq p1) (plic_drain_loop fuel hw core) else Ok p1)"

definition plic_driver_setup_pcpu :: "nat \<Rightarrow> 'h plic_hw \<Rightarrow> u32 \<Rightarrow> 'h sys \<Rightarrow> (status_t \<times> 'h sys) outcome" where
  "plic_driver_setup_pcpu fuel hw core s =
     (case port (plic s) of
        None \<Rightarrow> Ok (error_driver_init_failed, s)
      | Some q \<Rightarrow>
          obind (lift_plic (plic_set_threshold core 0) s) (\<lambda>(_, s1).
          obind (link_interrupt core (irq_module (plic_irq q)) (irq_id (plic_irq q)) plic_irqhandler_ptr s1) (\<lambda>(ret, s2).
          if ret \<noteq> success then obind (plic_driver_exit_pcpu core s2) (\<lambda>(_, s3). Ok (ret, s3))
          else obind (plic_drain_loop fuel hw core (plic s2)) (\<lambda>p.
                 Ok (ret, s2\<lparr>plic := p, csrs := arch_ei_mei (csrs s2)\<rparr>)))))"


section \<open>The contract of an interrupt controller\<close>

locale ic_device =
  fixes ready :: "'s \<Rightarrow> bool" and valid :: "u32 \<Rightarrow> bool"
    and prio :: "u32 \<Rightarrow> 's \<Rightarrow> u32" and enabled :: "u32 \<Rightarrow> 's \<Rightarrow> bool"
    and set_prio :: "u32 \<Rightarrow> u32 \<Rightarrow> 's \<Rightarrow> (status_t \<times> 's) outcome"
    and en :: "u32 \<Rightarrow> 's \<Rightarrow> (status_t \<times> 's) outcome"
    and dis :: "u32 \<Rightarrow> 's \<Rightarrow> (status_t \<times> 's) outcome"
  assumes set_prio: "ready s \<Longrightarrow> valid i \<Longrightarrow> \<exists>s'. set_prio i v s = Ok (success, s') \<and> ready s'
      \<and> (\<forall>j. valid j \<longrightarrow> prio j s' = (if j = i then v else prio j s) \<and> enabled j s' = enabled j s)"
    and en: "ready s \<Longrightarrow> valid i \<Longrightarrow> \<exists>s'. en i s = Ok (success, s') \<and> ready s'
      \<and> (\<forall>j. valid j \<longrightarrow> enabled j s' = (j = i \<or> enabled j s) \<and> prio j s' = prio j s)"
    and dis: "ready s \<Longrightarrow> valid i \<Longrightarrow> \<exists>s'. dis i s = Ok (success, s') \<and> ready s'
      \<and> (\<forall>j. valid j \<longrightarrow> enabled j s' = (j \<noteq> i \<and> enabled j s) \<and> prio j s' = prio j s)"
begin

primrec reset_seq :: "u32 list \<Rightarrow> 's \<Rightarrow> 's outcome" where
  "reset_seq [] s = Ok s"
| "reset_seq (i # is) s = obind (dis i s) (\<lambda>(_, s1). obind (set_prio i 1 s1) (\<lambda>(_, s2). reset_seq is s2))"

lemma reset_seq_ok:
  assumes "ready s" and "\<And>i. i \<in> set is \<Longrightarrow> valid i"
  shows "\<exists>s'. reset_seq is s = Ok s' \<and> ready s'
    \<and> (\<forall>j. valid j \<longrightarrow> (enabled j s' \<longleftrightarrow> j \<notin> set is \<and> enabled j s) \<and> prio j s' = (if j \<in> set is then 1 else prio j s))"
  using assms
proof (induction "is" arbitrary: s)
  case (Cons i "is")
  then have v: "valid i" by simp
  obtain s1 where s1: "dis i s = Ok (success, s1)" "ready s1"
    "\<forall>j. valid j \<longrightarrow> enabled j s1 = (j \<noteq> i \<and> enabled j s) \<and> prio j s1 = prio j s"
    using dis [OF Cons.prems(1) v] by auto
  obtain s2 where s2: "set_prio i 1 s1 = Ok (success, s2)" "ready s2"
    "\<forall>j. valid j \<longrightarrow> prio j s2 = (if j = i then 1 else prio j s1) \<and> enabled j s2 = enabled j s1"
    using set_prio [OF s1(2) v, of 1] by auto
  obtain s3 where "reset_seq is s2 = Ok s3" "ready s3"
    "\<forall>j. valid j \<longrightarrow> (enabled j s3 \<longleftrightarrow> j \<notin> set is \<and> enabled j s2) \<and> prio j s3 = (if j \<in> set is then 1 else prio j s2)"
    using Cons.IH [OF s2(2)] Cons.prems(2) by auto
  then show ?case using s1 s2 by auto
qed simp

lemma en_then_dis:
  assumes "ready s" and "valid i"
  shows "\<exists>s1 s2. en i s = Ok (success, s1) \<and> dis i s1 = Ok (success, s2)
    \<and> (\<forall>j. valid j \<longrightarrow> enabled j s2 = (j \<noteq> i \<and> enabled j s) \<and> prio j s2 = prio j s)"
proof -
  obtain s1 where s1: "en i s = Ok (success, s1)" "ready s1"
    "\<forall>j. valid j \<longrightarrow> enabled j s1 = (j = i \<or> enabled j s) \<and> prio j s1 = prio j s"
    using en [OF assms] by auto
  then show ?thesis using dis [OF s1(2) assms(2)] by auto
qed

end

subsection \<open>The PLIC fulfils it\<close>

definition plic_ready :: "'h plic \<Rightarrow> bool" where
  "plic_ready p \<longleftrightarrow> (\<exists>q. port p = Some q \<and> plic_baddr q \<noteq> 0)"

definition base :: "'h plic \<Rightarrow> u32" where
  "base p = plic_baddr (the (port p))"

definition plic_prio :: "u32 \<Rightarrow> 'h plic \<Rightarrow> u32" where
  "plic_prio irq p = regs p (base p + PLIC_IPRIORITY_OFFSET irq)"

definition plic_enabled :: "u32 \<Rightarrow> u32 \<Rightarrow> 'h plic \<Rightarrow> bool" where
  "plic_enabled core irq p = bit (regs p (base p + PLIC_IENABLE_OFFSET core irq)) (unat (irq mod 32))"

lemma with_base_ready: "plic_ready p \<Longrightarrow> with_base p f = f (base p)"
  by (auto simp: plic_ready_def with_base_def base_def)

lemma mmio_write_simps [simp]:
  "port (mmio_write a v p) = port p" "regs (mmio_write a v p) = (regs p)(a := v)"
  "plic_irq_handler (mmio_write a v p) = plic_irq_handler p" "dev (mmio_write a v p) = dev p"
  "base (mmio_write a v p) = base p" "plic_ready (mmio_write a v p) = plic_ready p"
  by (simp_all add: mmio_write_def base_def plic_ready_def)

lemma plic_update_simps [simp]:
  "plic_ready (p\<lparr>dev := x\<rparr>) = plic_ready p" "base (p\<lparr>dev := x\<rparr>) = base p"
  "plic_ready (p\<lparr>plic_irq_handler := t\<rparr>) = plic_ready p" "base (p\<lparr>plic_irq_handler := t\<rparr>) = base p"
  by (simp_all add: base_def plic_ready_def)

lemma irq_bounds:
  assumes "(i :: u32) < 1024" and "c < 8"
  shows "unat (PLIC_IPRIORITY_OFFSET i) = 4 * unat i"
    and "unat (PLIC_IENABLE_OFFSET c i) = 8192 + 128 * unat c + 4 * (unat i div 32)"
proof -
  have i: "unat i < 1024" and c: "unat c < 8" using assms by (simp_all add: word_less_nat_alt)
  then show "unat (PLIC_IPRIORITY_OFFSET i) = 4 * unat i"
    by (simp add: PLIC_IPRIORITY_OFFSET_def unat_word_ariths)
  have d: "unat (i div 32) = unat i div 32" by (simp add: unat_div)
  have "unat i div 32 < 32" using i by simp
  then show "unat (PLIC_IENABLE_OFFSET c i) = 8192 + 128 * unat c + 4 * (unat i div 32)"
    using c by (simp add: PLIC_IENABLE_OFFSET_def unat_word_ariths d)
qed

lemma plic_addresses:
  assumes "(i :: u32) < 1024" and "j < 1024" and "c < 8"
  shows "PLIC_IPRIORITY_OFFSET i = PLIC_IPRIORITY_OFFSET j \<longleftrightarrow> i = j"
    and "PLIC_IENABLE_OFFSET c i = PLIC_IENABLE_OFFSET c j \<longleftrightarrow> unat i div 32 = unat j div 32"
    and "PLIC_IPRIORITY_OFFSET i \<noteq> PLIC_IENABLE_OFFSET c j"
    and "PLIC_IENABLE_OFFSET c j \<noteq> PLIC_IPRIORITY_OFFSET i"
proof -
  have "unat i < 1024" using assms by (simp add: word_less_nat_alt)
  then show "PLIC_IPRIORITY_OFFSET i = PLIC_IPRIORITY_OFFSET j \<longleftrightarrow> i = j"
    "PLIC_IENABLE_OFFSET c i = PLIC_IENABLE_OFFSET c j \<longleftrightarrow> unat i div 32 = unat j div 32"
    "PLIC_IPRIORITY_OFFSET i \<noteq> PLIC_IENABLE_OFFSET c j" "PLIC_IENABLE_OFFSET c j \<noteq> PLIC_IPRIORITY_OFFSET i"
    using irq_bounds [OF assms(1,3)] irq_bounds [OF assms(2,3)] by (auto simp: word_unat_eq_iff)
qed

lemma same_irq: "unat (i :: u32) div 32 = unat j div 32 \<and> unat (i mod 32) = unat (j mod 32) \<longleftrightarrow> i = j"
  by (auto simp: unat_mod word_unat_eq_iff) (metis div_mult_mod_eq)

lemma irq_bit_less: "unat ((i :: u32) mod 32) < 32"
  by (simp add: unat_mod)

lemma enable_bit:
  assumes "(i :: u32) < 1024" and "j < 1024" and "c < 8"
    and "p' = mmio_write (base p + PLIC_IENABLE_OFFSET c i) (f (regs p (base p + PLIC_IENABLE_OFFSET c i))) p"
    and "\<And>w n. bit (f w) n = (if n = unat (i mod 32) then b else bit w n)"
  shows "plic_enabled c j p' = (if j = i then b else plic_enabled c j p)" and "plic_prio j p' = plic_prio j p"
proof -
  show "plic_prio j p' = plic_prio j p"
    using plic_addresses(3) [OF assms(2,1,3)] by (simp add: assms(4) plic_prio_def)
  show "plic_enabled c j p' = (if j = i then b else plic_enabled c j p)"
  proof (cases "PLIC_IENABLE_OFFSET c j = PLIC_IENABLE_OFFSET c i")
    case True
    then have "unat (j mod 32) = unat (i mod 32) \<longleftrightarrow> j = i"
      using plic_addresses(2) [OF assms(2,1,3)] same_irq [of j i] by auto
    then show ?thesis using True by (simp add: assms(4,5) plic_enabled_def)
  next
    case False
    then show ?thesis by (auto simp: assms(4) plic_enabled_def)
  qed
qed

interpretation plic: ic_device plic_ready "\<lambda>i. i < 1024 \<and> c < 8" plic_prio "plic_enabled c"
    plic_set_priority "plic_int_en c" "plic_int_dis c" for c
proof (unfold_locales, goal_cases)
  case (1 s i v)
  then have i: "i < 1024" "c < 8" by simp_all
  show ?case
    using 1(1) plic_addresses(1) [OF _ i] plic_addresses(4) [OF i(1) _ i(2)]
    by (auto simp: plic_set_priority_def with_base_ready plic_prio_def plic_enabled_def)
next
  case (2 s i)
  then have i: "i < 1024" "c < 8" by simp_all
  have "bit (w OR push_bit (unat (i mod 32)) 1) n = (if n = unat (i mod 32) then True else bit w n)" for w :: u32 and n
    using irq_bit_less [of i] by (auto simp: bit_simps)
  from enable_bit [where p = s, OF i(1) _ i(2) refl this] show ?case
    using 2(1) by (auto simp: plic_int_en_def with_base_ready Let_def)
next
  case (3 s i)
  then have i: "i < 1024" "c < 8" by simp_all
  have "bit (w AND NOT (push_bit (unat (i mod 32)) 1)) n = (if n = unat (i mod 32) then False else bit w n)" for w :: u32 and n
    using irq_bit_less [of i] bit_imp_le_length [of w n] by (auto simp: bit_simps)
  from enable_bit [where p = s, OF i(1) _ i(2) refl this] show ?case
    using 3(1) by (auto simp: plic_int_dis_def with_base_ready Let_def)
qed


lemma plic_reset_loop_seq:
  "plic_reset_loop n c i p = plic.reset_seq c (map (\<lambda>k. i + of_nat k) [0 ..< n]) p"
proof (induction n arbitrary: i p)
  case (Suc n)
  have "map (\<lambda>k. i + of_nat k) [0 ..< Suc n] = i # map (\<lambda>k. i + 1 + of_nat k) [0 ..< n]"
    by (simp add: upt_conv_Cons map_Suc_upt [symmetric] add.assoc del: upt_Suc)
  then show ?case using Suc by (simp add: case_prod_unfold)
qed simp

definition plic_irqs :: "u32 set" where
  "plic_irqs = {i. 1 \<le> i \<and> i \<le> 52}"

lemma reset_irqs: "set (map (\<lambda>k. 1 + of_nat k :: u32) [0 ..< 52]) = plic_irqs"
proof
  show "set (map (\<lambda>k. 1 + of_nat k :: u32) [0 ..< 52]) \<subseteq> plic_irqs"
    by (auto simp: plic_irqs_def word_le_nat_alt unat_word_ariths unat_of_nat)
  show "plic_irqs \<subseteq> set (map (\<lambda>k. 1 + of_nat k :: u32) [0 ..< 52])"
  proof
    fix i :: u32 assume "i \<in> plic_irqs"
    then have "unat i - 1 < 52" "i = 1 + of_nat (unat i - 1)"
      by (auto simp: plic_irqs_def word_le_nat_alt of_nat_diff)
    then show "i \<in> set (map (\<lambda>k. 1 + of_nat k :: u32) [0 ..< 52])"
      unfolding set_map set_upt by (intro image_eqI) simp_all
  qed
qed

lemma plic_reset_ok:
  assumes "plic_ready p" and "c < 8"
  shows "\<exists>p'. plic_reset_loop 52 c 1 p = Ok p' \<and> plic_ready p'
    \<and> (\<forall>j < 1024. (plic_enabled c j p' \<longleftrightarrow> j \<notin> plic_irqs \<and> plic_enabled c j p)
        \<and> plic_prio j p' = (if j \<in> plic_irqs then 1 else plic_prio j p))"
proof -
  have "i < 1024" if "i \<in> plic_irqs" for i
    using that by (auto simp: plic_irqs_def word_le_nat_alt word_less_nat_alt)
  then show ?thesis
    using assms(2) plic.reset_seq_ok [OF assms(1), of "map (\<lambda>k. 1 + of_nat k) [0 ..< 52]" c]
    unfolding plic_reset_loop_seq reset_irqs by blast
qed

definition plic_module :: "resources \<Rightarrow> module_t \<Rightarrow> irqs_t \<Rightarrow> bool" where
  "plic_module r m q \<longleftrightarrow> (\<exists>dp. dev_prop r = Some dp \<and> dp_get_module_info (modules dp) hw_plic = Some m)
     \<and> interrupt m = [q] \<and> mod_baddr m \<noteq> 0"

lemma plic_setup_ok:
  assumes "plic_module r m q"
  shows "plic_setup r True p =
    Ok (success, p\<lparr>port := Some \<lparr>plic_baddr = mod_baddr m, plic_stride = mod_stride m, plic_irq = q\<rparr>\<rparr>)"
  using assms
  by (auto simp: plic_setup_def plic_module_def vcall_handler_def resource_vcalls_def platform_fetch_dp_def
      ptr_of_def status_of_ptr_def Let_def)

text \<open>\<open>plic_driver_setup\<close>, when the platform describes a PLIC and the allocations succeed, returns success
  and leaves the controller attached, the external interrupt of the core masked, and every interrupt
  from 1 to 52 disabled at priority 1.\<close>

theorem plic_driver_setup_state:
  assumes "plic_module r m q" and "core < 8"
  shows "\<exists>s'. plic_driver_setup hw core r True True s = Ok (success, s')
    \<and> ic_state s' = \<lparr>ic = Some (plic_ic hw core), ic_attached = True\<rparr>
    \<and> \<not> bit (mie (csrs s')) 11
    \<and> (\<forall>j \<in> plic_irqs. \<not> plic_enabled core j (plic s') \<and> plic_prio j (plic s') = 1)"
proof -
  let ?q = "Some \<lparr>plic_baddr = mod_baddr m, plic_stride = mod_stride m, plic_irq = q\<rparr>"
  let ?p = "(plic s)\<lparr>port := ?q, ic_allocated := True\<rparr>"
  have "plic_ready ?p" using assms(1) by (simp add: plic_ready_def plic_module_def)
  from plic_reset_ok [OF this assms(2)] obtain p' where p': "plic_reset_loop 52 core 1 ?p = Ok p'"
    "\<forall>j < 1024. (plic_enabled core j p' \<longleftrightarrow> j \<notin> plic_irqs \<and> plic_enabled core j ?p)
        \<and> plic_prio j p' = (if j \<in> plic_irqs then 1 else plic_prio j ?p)"
    by blast
  have "j < 1024" if "j \<in> plic_irqs" for j
    using that by (auto simp: plic_irqs_def word_le_nat_alt word_less_nat_alt)
  moreover have "\<not> bit (mie (arch_di_mei (csrs s))) 11"
    by (simp add: arch_di_mei_def csrc_mie_def bit_simps)
  ultimately show ?thesis
    using p' plic_setup_ok [OF assms(1), of "plic s"]
    by (simp add: plic_driver_setup_def lift_plic_def ic_attach_device_def Let_def)
qed

section \<open>Routing of external interrupts\<close>

text \<open>C13: an external interrupt reaches its handler: once a handler is linked to interrupt \<open>irq\<close> (1 to 51) of
  the attached controller and the core's external interrupt line is linked to the PLIC, a trap
  with that cause claims the interrupt, completes it, runs exactly that handler, with the trap's context
  frame installed, and clears the frame afterwards.\<close>

theorem external_interrupt_routed:
  assumes "ic_state s = \<lparr>ic = Some (plic_ic hw core), ic_attached = True\<rparr>" and "plic_ready (plic s)"
    and "irqhandler s core 11 = plic_irqhandler_ptr" and "length (plic_irq_handler (plic s)) = N_PLAT_IRQS"
    and "0 < irq" and "irq < 52" and "h \<noteq> no_handler"
    and "link_interrupt core int_plat irq h s = Ok (st, s1)"
    and "hw_claim hw core (dev (plic s1)) = (irq, d)"
  shows "st = success
    \<and> exception_handler hw run core 0x8000000b frame s1 =
        obind (run h (s1\<lparr>local_frame := (local_frame s1)(core := frame),
                        plic := (plic s1)\<lparr>dev := hw_complete hw core irq d\<rparr>\<rparr>))
          (\<lambda>s2. Ok (set_context_frame core NULL s2))"
proof -
  have l: "unat irq < 52" "irq \<noteq> 0" using assms(5,6) by (auto simp: word_less_nat_alt)
  have s1: "st = success" "s1 = s\<lparr>plic := (plic s)\<lparr>plic_irq_handler := (plic_irq_handler (plic s))[unat irq := h]\<rparr>\<rparr>"
    using assms(1,4,7,8) l
    by (auto simp: link_interrupt_def ic_register_interrupt_handler_def plic_ic_def plic_register_irq_handler_def)
  have r: "plic_ready (plic s1)" using assms(2) by (simp add: s1(2))
  show ?thesis
    using s1(1) assms(3,4,9) l r
    by (simp add: exception_handler_def call_handler_def plic_irqhandler_def lift_plic_def plic_get_interrupt_def
        plic_clr_interrupt_def set_context_frame_def Let_def with_base_ready)
      (simp add: s1(2))
qed


text \<open>A machine for the witnesses: the PLIC of the FE310 with one pending interrupt.\<close>

definition demo_hw :: "u32 plic_hw" where
  "demo_hw = \<lparr>hw_claim = \<lambda>core d. (d, 0), hw_complete = \<lambda>core irq d. d\<rparr>"

definition demo_sys :: "u32 sys" where
  "demo_sys =
     \<lparr>exhandler = \<lambda>_ _. arch_panic_handler, irqhandler = \<lambda>_ i. if i = 11 then plic_irqhandler_ptr else arch_unhandled_irq,
      local_frame = \<lambda>_. NULL, frame_mepc = \<lambda>_. 0, code = \<lambda>_. 0, csrs = \<lparr>mie = 0, mstatus = 0\<rparr>,
      plic = \<lparr>port = Some \<lparr>plic_baddr = 0x0c000000, plic_stride = 0x04000000, plic_irq = no_irq\<rparr>, ic_allocated = True,
              plic_irq_handler = replicate 52 plat_panic_handler, regs = \<lambda>_. 0, dev = 3\<rparr>,
      ic_state = \<lparr>ic = Some (plic_ic demo_hw 0), ic_attached = True\<rparr>\<rparr>"

definition demo_resources :: resources where
  "demo_resources = \<lparr>dev_prop = Some (fe310_device_prop 16000000), sw_prop = Some fe310_software_prop\<rparr>"

theorem plic_driver_setup_state_witness:
  "\<exists>s'. plic_driver_setup demo_hw 0 demo_resources True True demo_sys = Ok (success, s')
    \<and> ic_attached (ic_state s')"
proof -
  have "plic_module demo_resources (fe310_modules ! 0) \<lparr>irq_module = int_local, irq_id = 11, irq_trigger = int_rising_edge\<rparr>"
    by (simp add: plic_module_def demo_resources_def fe310_device_prop_def fe310_modules_def)
  from plic_driver_setup_state [OF this, of 0 demo_hw demo_sys] show ?thesis by auto
qed

theorem external_interrupt_routed_witness:
  "\<exists>s1 s2. link_interrupt 0 int_plat 3 7 demo_sys = Ok (success, s1)
    \<and> exception_handler demo_hw (\<lambda>h s. Ok (s\<lparr>frame_mepc := \<lambda>_. of_nat h\<rparr>)) 0 0x8000000b 0x80001000 s1 = Ok s2
    \<and> frame_mepc s2 0 = 7"
proof -
  obtain s1 where s1: "link_interrupt 0 int_plat 3 7 demo_sys = Ok (success, s1)" "dev (plic s1) = 3"
    by (simp add: link_interrupt_def ic_register_interrupt_handler_def demo_sys_def plic_ic_def plic_register_irq_handler_def)
  have "plic_ready (plic demo_sys)" by (simp add: plic_ready_def demo_sys_def)
  from external_interrupt_routed [where hw = demo_hw and frame = "0x80001000"
        and run = "\<lambda>h s. Ok (s\<lparr>frame_mepc := \<lambda>_. of_nat h\<rparr>)", OF _ this _ _ _ _ _ s1(1)]
  show ?thesis using s1 by (auto simp: demo_sys_def demo_hw_def set_context_frame_def)
qed

section \<open>Limits of the code\<close>

text \<open>The last interrupt has no slot: \<open>plic_driver_setup\<close> prepares the interrupts 1 to \<open>N_PLAT_IRQS\<close>, but the
  table of handlers has the slots 0 to \<open>N_PLAT_IRQS - 1\<close>, and neither linking a handler nor the
  dispatch of a claimed interrupt compares the number with the size: for interrupt 52 both leave
  the table.\<close>

theorem plic_last_irq_out_of_bounds:
  assumes "ic_state s = \<lparr>ic = Some (plic_ic hw core), ic_attached = True\<rparr>" and "plic_ready (plic s)"
    and "length (plic_irq_handler (plic s)) = N_PLAT_IRQS" and "52 \<le> irq"
  shows "(h \<noteq> no_handler \<longrightarrow> link_interrupt core int_plat irq h s = Fault Out_of_bounds)
    \<and> (hw_claim hw core (dev (plic s)) = (irq, d) \<longrightarrow> plic_irqhandler hw run core s = Fault Out_of_bounds)"
proof
  have "\<not> unat irq < 52" using assms(4) by (auto simp: word_le_nat_alt)
  moreover have "irq \<noteq> 0" using assms(4) by auto
  ultimately show "h \<noteq> no_handler \<longrightarrow> link_interrupt core int_plat irq h s = Fault Out_of_bounds"
    using assms(1,3)
    by (simp add: link_interrupt_def ic_register_interrupt_handler_def plic_ic_def plic_register_irq_handler_def)
next
  have "\<not> unat irq < 52" using assms(4) by (auto simp: word_le_nat_alt)
  then show "hw_claim hw core (dev (plic s)) = (irq, d) \<longrightarrow> plic_irqhandler hw run core s = Fault Out_of_bounds"
    using assms(2,3)
    by (simp add: plic_irqhandler_def lift_plic_def plic_get_interrupt_def plic_clr_interrupt_def with_base_ready)
qed

theorem plic_last_irq_out_of_bounds_witness:
  "link_interrupt 0 int_plat 52 7 demo_sys = Fault Out_of_bounds"
  using plic_last_irq_out_of_bounds [of demo_sys demo_hw 0 52 7]
  by (simp add: demo_sys_def plic_ready_def)

text \<open>The register layout of the PLIC keeps the pending bit of \<open>irq\<close> in bit \<open>irq mod 32\<close> of word \<open>irq div 32\<close>;
  \<open>PLIC_IPENDING_OFFSET\<close> divides by 31, so the query is right for every interrupt of the platform
  except 31, for which it reads the bit of interrupt 63.\<close>

definition pending_bit :: "u32 \<Rightarrow> 'h plic \<Rightarrow> bool" where
  "pending_bit irq p = bit (regs p (base p + (0x1000 + 4 * (irq div 32)))) (unat (irq mod 32))"

lemma plic_get_pending_31:
  assumes "plic_ready p" and "irq \<le> 52"
  shows "plic_get_pending irq p = Ok (pending_bit (if irq = 31 then 63 else irq) p)"
proof -
  have "unat irq div 31 = unat (if irq = 31 then 63 else irq) div 32"
  proof -
    have "unat irq \<le> 52" "irq = 31 \<longleftrightarrow> unat irq = 31" using assms(2) by (auto simp: word_le_nat_alt word_unat_eq_iff)
    moreover have "unat irq div 31 = 1" "unat irq div 32 = 1" if "32 \<le> unat irq"
      using that \<open>unat irq \<le> 52\<close> by (auto intro: div_nat_eqI)
    ultimately show ?thesis by (cases "unat irq < 31"; cases "unat irq = 31") auto
  qed
  then have d: "irq div 31 = (if irq = 31 then 63 else irq) div 32"
    by (simp add: word_unat_eq_iff unat_div if_distrib [of unat])
  have "(if irq = 31 then 63 else irq) mod 32 = irq mod 32" by simp
  then show ?thesis
    using assms(1) d by (simp only: plic_get_pending_def with_base_ready and_push_bit_nz pending_bit_def PLIC_IPENDING_OFFSET_def)
qed

text \<open>After an exception the dispatcher skips the trapping instruction. An instruction is four bytes
  long when its two low bits are both set; the code tests one of them, so a two-byte instruction
  with the low bits \<open>10\<close> (for example \<open>c.ebreak\<close>) is skipped together with the next two bytes.\<close>

definition insn_length :: "u8 \<Rightarrow> u32" where
  "insn_length b = (if b AND 3 = 3 then 4 else 2)"

lemma mepc_skip_exact: "mepc_skip b = insn_length b \<longleftrightarrow> b AND 3 \<noteq> 2"
proof -
  have "b AND 3 = take_bit 2 b" by (simp add: take_bit_eq_mask mask_eq_exp_minus_1)
  then have t: "b AND 3 = of_bool (odd b) + 2 * of_bool (odd (b div 2))"
    by (simp add: numeral_2_eq_2 take_bit_Suc mod_2_eq_odd)
  have "b AND 2 \<noteq> 0 \<longleftrightarrow> odd (b div 2)"
    using and_push_bit_nz [of b 1] by (simp add: bit_Suc bit_0)
  then show ?thesis
    using t by (cases "odd b"; cases "odd (b div 2)") (simp_all add: mepc_skip_def insn_length_def)
qed

end
