(* ===== verification/Console.thy ===== *)
theory Console
  imports CC_Status
begin

text \<open>
  Console and log: the pseudo file system (\<open>src/src/lib/libccfs/ccpfs.c\<close>), the standard devices
  (\<open>lib/libc/stddev.c\<close>), the console engine (\<open>driver/console/stdcon.c\<close>), the character output of
  \<open>lib/libc/printf.c\<close>, and the memory-buffer logger (\<open>driver/console/stdlog_membuf/stdlog_membuf.c\<close>).

  A \<open>console_t\<close> is a record of the driver's functions, which work on the device state \<open>'d\<close>. The
  function pointers in \<open>stddev\<close> are values of the type \<open>fnptr\<close>. Locks are left out: the functions
  are atomic.

  \<^item> \<open>char_sink\<close> is the contract of a device that accepts characters; it is interpreted on the membuf
    logger and the console. A \<open>reliable_sink\<close> also reports success for each of them.
  \<^item> The log buffer holds the last 1024 characters, and a dump prints the whole buffer once.
\<close>

section \<open>Data\<close>

abbreviation (input) chr_bs :: u8 where "chr_bs \<equiv> 0x08"
abbreviation (input) chr_lf :: u8 where "chr_lf \<equiv> 0x0a"
abbreviation (input) chr_cr :: u8 where "chr_cr \<equiv> 0x0d"

datatype fnptr = F_null | F_console_putc | F_console_getc | F_logger_putc

record ccpdfs_t =
  fs_write :: fnptr
  fs_read :: fnptr

record 'd console_t =
  con_write :: "(u8 \<Rightarrow> 'd \<Rightarrow> status_t \<times> 'd) option"
  con_read :: "('d \<Rightarrow> status_t \<times> u8 \<times> 'd) option"
  con_flush :: "('d \<Rightarrow> status_t \<times> 'd) option"
  con_payload_size :: "('d \<Rightarrow> u32) option"

text \<open>\<open>con_hw\<close> is the state of the console's device, \<open>log_hw\<close> that of the logger's.\<close>

record ('c, 'l) stdio =
  stddev :: "nat \<Rightarrow> ccpdfs_t"
  con :: "'c console_t option"
  console_attached :: bool
  con_hw :: 'c
  log :: "'l console_t option"
  logger_attached :: bool
  log_hw :: 'l

abbreviation (input) std_in :: nat where "std_in \<equiv> 0"
abbreviation (input) std_out :: nat where "std_out \<equiv> 1"
abbreviation (input) std_err :: nat where "std_err \<equiv> 2"
abbreviation (input) std_log :: nat where "std_log \<equiv> 3"

section \<open>Registering the standard devices\<close>

definition set_fs_read :: "nat \<Rightarrow> fnptr \<Rightarrow> ('c, 'l) stdio \<Rightarrow> ('c, 'l) stdio" where
  "set_fs_read i f s = s\<lparr>stddev := (stddev s)(i := (stddev s i)\<lparr>fs_read := f\<rparr>)\<rparr>"

definition set_fs_write :: "nat \<Rightarrow> fnptr \<Rightarrow> ('c, 'l) stdio \<Rightarrow> ('c, 'l) stdio" where
  "set_fs_write i f s = s\<lparr>stddev := (stddev s)(i := (stddev s i)\<lparr>fs_write := f\<rparr>)\<rparr>"

definition stdin_register :: "fnptr \<Rightarrow> ('c, 'l) stdio \<Rightarrow> status_t \<times> ('c, 'l) stdio" where
  "stdin_register f s = (if f = F_null then (error_device_inval, s) else (success, set_fs_read std_in f s))"

definition stdout_register :: "fnptr \<Rightarrow> ('c, 'l) stdio \<Rightarrow> status_t \<times> ('c, 'l) stdio" where
  "stdout_register f s = (if f = F_null then (error_device_inval, s) else (success, set_fs_write std_out f s))"

definition stderr_register :: "fnptr \<Rightarrow> ('c, 'l) stdio \<Rightarrow> status_t \<times> ('c, 'l) stdio" where
  "stderr_register f s = (if f = F_null then (error_device_inval, s) else (success, set_fs_write std_err f s))"

definition stdlog_register :: "fnptr \<Rightarrow> ('c, 'l) stdio \<Rightarrow> status_t \<times> ('c, 'l) stdio" where
  "stdlog_register f s = (if f = F_null then (error_device_inval, s) else (success, set_fs_write std_log f s))"

section \<open>The console engine\<close>

definition console_attach_device :: "status_t \<Rightarrow> 'c console_t option \<Rightarrow> ('c, 'l) stdio \<Rightarrow> status_t \<times> ('c, 'l) stdio" where
  "console_attach_device dev_status pcon s =
     (let s1 = s\<lparr>console_attached := False, con := pcon\<rparr>
      in if pcon \<noteq> None
         then let s2 = s1\<lparr>console_attached := (dev_status = success)\<rparr>;
                  (r1, s3) = stdout_register F_console_putc s2;
                  (r2, s4) = stderr_register F_console_putc s3;
                  (r3, s5) = stdin_register F_console_getc s4
              in (dev_status OR r1 OR r2 OR r3, s5)
         else (error_device_inval, s1))"

definition console_release_device :: "('c, 'l) stdio \<Rightarrow> status_t \<times> ('c, 'l) stdio" where
  "console_release_device s = (success, s\<lparr>con := None, console_attached := False\<rparr>)"

definition console_putc :: "u8 \<Rightarrow> ('c, 'l) stdio \<Rightarrow> (status_t \<times> ('c, 'l) stdio) outcome" where
  "console_putc c s =
     (if console_attached s
      then case con s of
             None \<Rightarrow> Fault Null_deref
           | Some d \<Rightarrow> (case con_write d of
                          Some w \<Rightarrow> (case w c (con_hw s) of (r, h) \<Rightarrow> Ok (r, s\<lparr>con_hw := h\<rparr>))
                        | None \<Rightarrow> Ok (error_func_inval, s))
      else Ok (error_func_inval, s))"

definition console_getc :: "('c, 'l) stdio \<Rightarrow> (status_t \<times> u8 option \<times> ('c, 'l) stdio) outcome" where
  "console_getc s =
     (if console_attached s
      then case con s of
             None \<Rightarrow> Fault Null_deref
           | Some d \<Rightarrow> (case con_read d of
                          Some rd \<Rightarrow> (case rd (con_hw s) of (r, c, h) \<Rightarrow> Ok (r, Some c, s\<lparr>con_hw := h\<rparr>))
                        | None \<Rightarrow> Ok (error_func_inval, None, s))
      else Ok (error_func_inval, None, s))"

definition console_flush :: "('c, 'l) stdio \<Rightarrow> (status_t \<times> ('c, 'l) stdio) outcome" where
  "console_flush s =
     (if console_attached s
      then case con s of
             None \<Rightarrow> Fault Null_deref
           | Some d \<Rightarrow> (case con_flush d of
                          Some f \<Rightarrow> (case f (con_hw s) of (r, h) \<Rightarrow> Ok (r, s\<lparr>con_hw := h\<rparr>))
                        | None \<Rightarrow> Ok (error_func_inval, s))
      else Ok (error_func_inval, s))"

definition console_get_payload_size :: "('c, 'l) stdio \<Rightarrow> u32 outcome" where
  "console_get_payload_size s =
     (if console_attached s
      then case con s of
             None \<Rightarrow> Fault Null_deref
           | Some d \<Rightarrow> Ok (case con_payload_size d of Some p \<Rightarrow> p (con_hw s) | None \<Rightarrow> 0)
      else Ok 0)"

definition logger_attach_device :: "status_t \<Rightarrow> 'l console_t option \<Rightarrow> ('c, 'l) stdio \<Rightarrow> status_t \<times> ('c, 'l) stdio" where
  "logger_attach_device dev_status pcon s =
     (let s1 = s\<lparr>logger_attached := False, log := pcon\<rparr>
      in if pcon \<noteq> None
         then let s2 = s1\<lparr>logger_attached := (dev_status = success)\<rparr>;
                  (r1, s3) = stdlog_register F_logger_putc s2
              in (dev_status OR r1, s3)
         else (error_device_inval, s1))"

definition logger_release_device :: "('c, 'l) stdio \<Rightarrow> status_t \<times> ('c, 'l) stdio" where
  "logger_release_device s = (success, s\<lparr>log := None, logger_attached := False\<rparr>)"

definition logger_putc :: "u8 \<Rightarrow> ('c, 'l) stdio \<Rightarrow> (status_t \<times> ('c, 'l) stdio) outcome" where
  "logger_putc c s =
     (if logger_attached s
      then case log s of
             None \<Rightarrow> Fault Null_deref
           | Some d \<Rightarrow> (case con_write d of
                          Some w \<Rightarrow> (case w c (log_hw s) of (r, h) \<Rightarrow> Ok (r, s\<lparr>log_hw := h\<rparr>))
                        | None \<Rightarrow> Ok (error_func_inval, s))
      else Ok (error_func_inval, s))"

section \<open>Character output\<close>

text \<open>Only output functions are ever registered as \<open>write\<close>.\<close>

definition ccpdfs_write :: "nat \<Rightarrow> u8 \<Rightarrow> ('c, 'l) stdio \<Rightarrow> (status_t \<times> ('c, 'l) stdio) outcome" where
  "ccpdfs_write fd c s =
     (case fs_write (stddev s fd) of
        F_console_putc \<Rightarrow> console_putc c s
      | F_logger_putc \<Rightarrow> logger_putc c s
      | _ \<Rightarrow> Ok (error_file_io, s))"

definition ccpdfs_read :: "nat \<Rightarrow> ('c, 'l) stdio \<Rightarrow> (status_t \<times> u8 option \<times> ('c, 'l) stdio) outcome" where
  "ccpdfs_read fd s =
     (case fs_read (stddev s fd) of
        F_console_getc \<Rightarrow> console_getc s
      | _ \<Rightarrow> Ok (error_file_io, None, s))"

text \<open>\<open>__fputc\<close>: the recursive call for a line feed writes a carriage return and does not recur again.\<close>

definition fputc_one :: "nat \<Rightarrow> bool \<Rightarrow> u8 \<Rightarrow> ('c, 'l) stdio \<Rightarrow> (status_t \<times> ('c, 'l) stdio) outcome" where
  "fputc_one fd en_stdout c s =
     obind (ccpdfs_write fd c s) (\<lambda>(ret, s1).
       if en_stdout then obind (ccpdfs_write std_out c s1) (\<lambda>(_, s2). Ok (ret, s2)) else Ok (ret, s1))"

definition fputc_en :: "nat \<Rightarrow> bool \<Rightarrow> u8 \<Rightarrow> ('c, 'l) stdio \<Rightarrow> (status_t \<times> ('c, 'l) stdio) outcome" where
  "fputc_en fd en_stdout c s =
     obind (fputc_one fd en_stdout c s) (\<lambda>(ret, s1).
       if c = chr_lf \<and> (fd = std_out \<or> fd = std_log)
       then obind (fputc_one fd en_stdout chr_cr s1) (\<lambda>(_, s2). Ok (ret, s2))
       else Ok (ret, s1))"

definition fputc :: "nat \<Rightarrow> u8 \<Rightarrow> ('c, 'l) stdio \<Rightarrow> (status_t \<times> ('c, 'l) stdio) outcome" where
  "fputc fd c s = fputc_en fd False c s"

primrec fputs_en :: "nat \<Rightarrow> bool \<Rightarrow> u8 list \<Rightarrow> ('c, 'l) stdio \<Rightarrow> (u32 \<times> ('c, 'l) stdio) outcome" where
  "fputs_en fd en_stdout [] s = Ok (0, s)"
| "fputs_en fd en_stdout (c # cs) s =
     obind (fputc_en fd en_stdout c s) (\<lambda>(_, s1).
     obind (fputs_en fd en_stdout cs s1) (\<lambda>(n, s2). Ok (n + 1, s2)))"

definition fputs :: "nat \<Rightarrow> u8 list \<Rightarrow> ('c, 'l) stdio \<Rightarrow> (u32 \<times> ('c, 'l) stdio) outcome" where
  "fputs fd cs s = fputs_en fd False cs s"

section \<open>The log dump\<close>

primrec dprint_loop :: "nat \<Rightarrow> nat \<Rightarrow> ('c, 'l) stdio \<Rightarrow> ('c, 'l) stdio outcome" where
  "dprint_loop 0 fd s = Hang"
| "dprint_loop (Suc fuel) fd s =
     (case log s of
        None \<Rightarrow> Fault Null_deref
      | Some d \<Rightarrow> (case con_read d of
                     None \<Rightarrow> Fault Null_deref
                   | Some rd \<Rightarrow> (case rd (log_hw s) of (lvar, c, h) \<Rightarrow>
                       obind (fputc fd c (s\<lparr>log_hw := h\<rparr>)) (\<lambda>(_, s1).
                         if lvar \<noteq> success then dprint_loop fuel fd s1 else Ok s1))))"

definition logger_dprint :: "nat \<Rightarrow> nat option \<Rightarrow> ('c, 'l) stdio \<Rightarrow> (status_t \<times> ('c, 'l) stdio) outcome" where
  "logger_dprint fuel device s =
     (case device of
        Some fd \<Rightarrow> if logger_attached s then obind (dprint_loop fuel fd s) (\<lambda>s1. Ok (success, s1))
                   else Ok (error_device_inval, s)
      | None \<Rightarrow> Ok (error_device_inval, s))"

definition syslog_print :: "nat \<Rightarrow> ('c, 'l) stdio \<Rightarrow> (status_t \<times> ('c, 'l) stdio) outcome" where
  "syslog_print fuel s = logger_dprint fuel (Some std_out) s"

section \<open>The memory-buffer logger\<close>

abbreviation (input) MEMBUF_SIZE :: nat where "MEMBUF_SIZE \<equiv> 1024"

record membuf_t =
  membuf :: "u8 list"
  wpointer :: nat
  pread :: nat

definition membuf_setup :: status_t where
  "membuf_setup = success"

definition membuf_writeb :: "u8 \<Rightarrow> membuf_t \<Rightarrow> status_t \<times> membuf_t" where
  "membuf_writeb c m =
     (if c = chr_bs \<and> wpointer m \<noteq> 0 then (success, m\<lparr>wpointer := wpointer m - 1\<rparr>)
      else let p = (if wpointer m = MEMBUF_SIZE then 0 else wpointer m)
           in (success, m\<lparr>membuf := (membuf m)[p := c], wpointer := p + 1\<rparr>))"

definition membuf_read :: "membuf_t \<Rightarrow> status_t \<times> u8 \<times> membuf_t" where
  "membuf_read m =
     (let c = membuf m ! pread m; p = pread m + 1
      in if p = MEMBUF_SIZE then (success, c, m\<lparr>pread := 0\<rparr>) else (error_generic, c, m\<lparr>pread := p\<rparr>))"

definition membuf_flush :: "membuf_t \<Rightarrow> status_t \<times> membuf_t" where
  "membuf_flush m = (success, m)"

definition membuf_driver :: "membuf_t console_t" where
  "membuf_driver =
     \<lparr>con_write = Some membuf_writeb, con_read = Some membuf_read, con_flush = Some membuf_flush, con_payload_size = None\<rparr>"

definition membuf_driver_setup :: "('c, membuf_t) stdio \<Rightarrow> status_t \<times> ('c, membuf_t) stdio" where
  "membuf_driver_setup s =
     (let ret = membuf_setup; (r, s1) = logger_attach_device ret (Some membuf_driver) s in (ret OR r, s1))"

definition membuf_driver_exit :: "('c, membuf_t) stdio \<Rightarrow> status_t \<times> ('c, membuf_t) stdio" where
  "membuf_driver_exit s = logger_release_device s"


section \<open>Sinks of characters\<close>

primrec puts :: "(u8 \<Rightarrow> 's \<Rightarrow> (status_t \<times> 's) outcome) \<Rightarrow> u8 list \<Rightarrow> 's \<Rightarrow> 's outcome" where
  "puts put [] s = Ok s"
| "puts put (c # cs) s = obind (put c s) (\<lambda>(_, s1). puts put cs s1)"

lemma puts_append: "puts put (xs @ ys) s = obind (puts put xs s) (puts put ys)"
  by (induction xs arbitrary: s) (auto simp: obind_assoc case_prod_unfold)

locale char_sink =
  fixes put :: "u8 \<Rightarrow> 's \<Rightarrow> (status_t \<times> 's) outcome" and ok :: "'s \<Rightarrow> bool"
    and contents :: "'s \<Rightarrow> 'h" and push :: "u8 \<Rightarrow> 'h \<Rightarrow> 'h" and frame :: "'s \<Rightarrow> 'f"
  assumes put_ok: "ok s \<Longrightarrow> \<exists>r s'. put c s = Ok (r, s') \<and> ok s' \<and> contents s' = push c (contents s) \<and> frame s' = frame s"
begin

lemma puts_ok:
  "ok s \<Longrightarrow> \<exists>s'. puts put cs s = Ok s' \<and> ok s' \<and> contents s' = fold push cs (contents s) \<and> frame s' = frame s"
proof (induction cs arbitrary: s)
  case (Cons c cs)
  obtain r s1 where s1: "put c s = Ok (r, s1)" "ok s1" "contents s1 = push c (contents s)" "frame s1 = frame s"
    using put_ok [OF Cons.prems] by blast
  then show ?case using Cons.IH [OF s1(2)] by auto
qed simp

end

text \<open>The same with the status of every write, for a sink that reports success as long as it accepts characters.\<close>

primrec writes :: "(u8 \<Rightarrow> 's \<Rightarrow> (status_t \<times> 's) outcome) \<Rightarrow> u8 list \<Rightarrow> 's \<Rightarrow> (status_t list \<times> 's) outcome" where
  "writes put [] s = Ok ([], s)"
| "writes put (c # cs) s = obind (put c s) (\<lambda>(r, s1). obind (writes put cs s1) (\<lambda>(rs, s2). Ok (r # rs, s2)))"

locale reliable_sink = char_sink +
  assumes put_success: "ok s \<Longrightarrow> put c s = Ok (r, s') \<Longrightarrow> r = success"
begin

lemma writes_ok:
  "ok s \<Longrightarrow> \<exists>s'. writes put cs s = Ok (replicate (length cs) success, s') \<and> ok s' \<and> contents s' = fold push cs (contents s)"
proof (induction cs arbitrary: s)
  case (Cons c cs)
  obtain r s1 where s1: "put c s = Ok (r, s1)" "ok s1" "contents s1 = push c (contents s)"
    using put_ok [OF Cons.prems] by blast
  then show ?case using Cons.IH [OF s1(2)] put_success [OF Cons.prems s1(1)] by auto
qed simp

end

text \<open>The logger with a given driver, and the console with a given write function.\<close>

definition log_ready :: "(u8 \<Rightarrow> 'l \<Rightarrow> status_t \<times> 'l) \<Rightarrow> ('c, 'l) stdio \<Rightarrow> bool" where
  "log_ready w s \<longleftrightarrow> logger_attached s \<and> (\<exists>d. log s = Some d \<and> con_write d = Some w)
     \<and> fs_write (stddev s std_log) = F_logger_putc"

definition con_ready :: "(u8 \<Rightarrow> 'c \<Rightarrow> status_t \<times> 'c) \<Rightarrow> ('c, 'l) stdio \<Rightarrow> bool" where
  "con_ready w s \<longleftrightarrow> console_attached s \<and> (\<exists>d. con s = Some d \<and> con_write d = Some w)
     \<and> fs_write (stddev s std_out) = F_console_putc"

interpretation logsink: char_sink "ccpdfs_write std_log" "log_ready w" log_hw "\<lambda>c h. snd (w c h)"
    "\<lambda>s. s\<lparr>log_hw := undefined\<rparr>" for w
  by unfold_locales
    (auto simp: log_ready_def ccpdfs_write_def logger_putc_def split: prod.split)

interpretation consink: char_sink "ccpdfs_write std_out" "con_ready w" con_hw "\<lambda>c h. snd (w c h)"
    "\<lambda>s. s\<lparr>con_hw := undefined\<rparr>" for w
  by unfold_locales
    (auto simp: con_ready_def ccpdfs_write_def console_putc_def split: prod.split)

text \<open>On standard output and the log a line feed is followed by a carriage return.\<close>

definition crlf :: "u8 \<Rightarrow> u8 list" where
  "crlf c = (if c = chr_lf then [c, chr_cr] else [c])"

lemma fputc_puts:
  assumes "fd = std_out \<or> fd = std_log"
  shows "obind (fputc_en fd False c s) (\<lambda>(_, s1). Ok s1) = puts (ccpdfs_write fd) (crlf c) s"
  using assms
  by (cases "ccpdfs_write fd c s")
    (auto simp: fputc_en_def fputc_one_def crlf_def obind_assoc case_prod_unfold)

lemma fputs_puts:
  assumes "fd = std_out \<or> fd = std_log"
  shows "obind (fputs_en fd False cs s) (\<lambda>(_, s1). Ok s1) = puts (ccpdfs_write fd) (concat (map crlf cs)) s"
proof (induction cs arbitrary: s)
  case (Cons c cs)
  show ?case
    using Cons fputc_puts [OF assms, of c s, symmetric]
    by (cases "fputc_en fd False c s") (auto simp: puts_append obind_assoc case_prod_unfold)
qed simp


section \<open>The log buffer\<close>

definition membuf_push :: "u8 \<Rightarrow> membuf_t \<Rightarrow> membuf_t" where
  "membuf_push c m = snd (membuf_writeb c m)"

definition ring_holds :: "u8 list \<Rightarrow> membuf_t \<Rightarrow> bool" where
  "ring_holds cs m \<longleftrightarrow> length (membuf m) = MEMBUF_SIZE
     \<and> wpointer m = (if cs = [] then 0 else (length cs - 1) mod MEMBUF_SIZE + 1)
     \<and> (\<forall>k < length cs. length cs \<le> k + MEMBUF_SIZE \<longrightarrow> membuf m ! (k mod MEMBUF_SIZE) = cs ! k)"

lemma ring_holds_push:
  assumes "ring_holds cs m" and "c \<noteq> chr_bs"
  shows "ring_holds (cs @ [c]) (membuf_push c m)"
proof -
  let ?n = "length cs"
  have p: "(if wpointer m = MEMBUF_SIZE then 0 else wpointer m) = ?n mod MEMBUF_SIZE"
  proof (cases "cs = []")
    case False
    then obtain j where j: "?n = Suc j" by (cases cs) auto
    then show ?thesis using assms(1) False by (simp add: ring_holds_def mod_Suc)
  qed (use assms(1) in \<open>simp add: ring_holds_def\<close>)
  have m: "membuf_push c m = m\<lparr>membuf := (membuf m)[?n mod MEMBUF_SIZE := c], wpointer := ?n mod MEMBUF_SIZE + 1\<rparr>"
    using assms(2) p unfolding membuf_push_def membuf_writeb_def Let_def by simp
  have "(membuf m)[?n mod 1024 := c] ! (k mod 1024) = (cs @ [c]) ! k" if "k < ?n + 1" "?n + 1 \<le> k + 1024" for k
  proof (cases "k = ?n")
    case False
    then have k: "k < ?n" "?n - k < 1024" using that by simp_all
    then have "k mod 1024 \<noteq> ?n mod 1024"
      by (metis mod_eq_dvd_iff_nat [of k ?n 1024] nat_dvd_not_less zero_less_diff less_imp_le)
    then show ?thesis using assms(1) k that by (simp add: ring_holds_def nth_append)
  qed (use assms(1) in \<open>simp add: ring_holds_def nth_append\<close>)
  then show ?thesis using assms(1) by (simp add: ring_holds_def m)
qed

lemma ring_holds_fold:
  assumes "ring_holds [] m" and "chr_bs \<notin> set cs"
  shows "ring_holds cs (fold membuf_push cs m)"
  using assms(2) by (induction cs rule: rev_induct) (simp_all add: assms(1) ring_holds_push)

lemma chr_bs_crlf: "chr_bs \<notin> set cs \<Longrightarrow> chr_bs \<notin> set (concat (map crlf cs))"
  by (auto simp: crlf_def split: if_splits)

text \<open>C34: the log buffer keeps the end of the log: after any text without backspaces has been written to an
  empty log through the standard log device, each of the last 1024 characters, with a carriage
  return after every line feed, stands in the buffer, the \<open>k\<close>-th at index \<open>k mod 1024\<close>.\<close>

theorem log_keeps_last:
  fixes s :: "('c, membuf_t) stdio"
  assumes "log_ready membuf_writeb s" and "length (membuf (log_hw s)) = MEMBUF_SIZE" and "wpointer (log_hw s) = 0"
    and "chr_bs \<notin> set cs"
  defines "out \<equiv> concat (map crlf cs)"
  shows "\<exists>n s'. fputs std_log cs s = Ok (n, s')
    \<and> (\<forall>k < length out. length out \<le> k + MEMBUF_SIZE \<longrightarrow> membuf (log_hw s') ! (k mod MEMBUF_SIZE) = out ! k)"
proof -
  have "(\<lambda>c h. snd (membuf_writeb c h)) = membuf_push" by (simp add: membuf_push_def fun_eq_iff)
  with logsink.puts_ok [OF assms(1), of out] obtain s' where
    s': "puts (ccpdfs_write std_log) out s = Ok s'" "log_hw s' = fold membuf_push out (log_hw s)" by auto
  then have "obind (fputs_en std_log False cs s) (\<lambda>(_, s1). Ok s1) = Ok s'"
    using fputs_puts [of std_log cs s] by (simp add: out_def)
  then obtain n where "fputs std_log cs s = Ok (n, s')" by (auto simp: fputs_def outcome_simps)
  moreover have "ring_holds out (log_hw s')"
    unfolding s'(2) out_def using assms(2,3) chr_bs_crlf [OF assms(4)]
    by (intro ring_holds_fold) (simp_all add: ring_holds_def)
  ultimately show ?thesis by (auto simp: ring_holds_def)
qed

lemma fputc_console:
  assumes "con_ready w s"
  shows "\<exists>r s'. fputc std_out c s = Ok (r, s') \<and> con_ready w s'
    \<and> con_hw s' = fold (\<lambda>c h. snd (w c h)) (crlf c) (con_hw s) \<and> s'\<lparr>con_hw := undefined\<rparr> = s\<lparr>con_hw := undefined\<rparr>"
proof -
  obtain s' where s': "puts (ccpdfs_write std_out) (crlf c) s = Ok s'" "con_ready w s'"
    "con_hw s' = fold (\<lambda>c h. snd (w c h)) (crlf c) (con_hw s)" "s'\<lparr>con_hw := undefined\<rparr> = s\<lparr>con_hw := undefined\<rparr>"
    using consink.puts_ok [OF assms, of "crlf c"] by blast
  moreover have "obind (fputc_en std_out False c s) (\<lambda>(_, s1). Ok s1) = puts (ccpdfs_write std_out) (crlf c) s"
    by (simp add: fputc_puts)
  ultimately show ?thesis by (auto simp: fputc_def outcome_simps)
qed

lemma frame_log:
  assumes "s'\<lparr>con_hw := undefined\<rparr> = s\<lparr>con_hw := undefined\<rparr>"
  shows "log s' = log s" "log_hw s' = log_hw s"
  using arg_cong [OF assms, of log] arg_cong [OF assms, of log_hw] by simp_all

lemma dprint_loop_all:
  fixes s :: "('c, membuf_t) stdio"
  assumes "con_ready w s" and "log s = Some membuf_driver" and "length (membuf (log_hw s)) = MEMBUF_SIZE"
    and "pread (log_hw s) < MEMBUF_SIZE"
  shows "\<exists>s'. dprint_loop (MEMBUF_SIZE - pread (log_hw s)) std_out s = Ok s'
    \<and> con_hw s' = fold (\<lambda>c h. snd (w c h)) (concat (map crlf (drop (pread (log_hw s)) (membuf (log_hw s))))) (con_hw s)
    \<and> log_hw s' = (log_hw s)\<lparr>pread := 0\<rparr>"
  using assms
proof (induction "MEMBUF_SIZE - pread (log_hw s)" arbitrary: s rule: less_induct)
  case less
  let ?p = "pread (log_hw s)" and ?b = "membuf (log_hw s)"
  let ?m = "(log_hw s)\<lparr>pread := if ?p + 1 = MEMBUF_SIZE then 0 else ?p + 1\<rparr>"
  have d: "drop ?p ?b = ?b ! ?p # drop (?p + 1) ?b" using less.prems(3,4) by (simp add: Cons_nth_drop_Suc)
  have "con_ready w (s\<lparr>log_hw := ?m\<rparr>)" using less.prems(1) by (simp add: con_ready_def)
  from fputc_console [OF this, of "?b ! ?p"] obtain r s1 where
    s1: "fputc std_out (?b ! ?p) (s\<lparr>log_hw := ?m\<rparr>) = Ok (r, s1)" "con_ready w s1"
      "con_hw s1 = fold (\<lambda>c h. snd (w c h)) (crlf (?b ! ?p)) (con_hw s)"
      "s1\<lparr>con_hw := undefined\<rparr> = s\<lparr>log_hw := ?m\<rparr>\<lparr>con_hw := undefined\<rparr>" by auto
  note f = frame_log [OF s1(4)]
  obtain k where k: "MEMBUF_SIZE - ?p = Suc k" using less.prems(4) by (cases "MEMBUF_SIZE - ?p") auto
  have step: "dprint_loop (MEMBUF_SIZE - ?p) std_out s = (if ?p + 1 = MEMBUF_SIZE then Ok s1 else dprint_loop k std_out s1)"
    unfolding k using less.prems(2) s1(1) by (auto simp: membuf_driver_def membuf_read_def Let_def)
  show ?case
  proof (cases "?p + 1 = MEMBUF_SIZE")
    case True
    then show ?thesis using step s1(3) f d less.prems(3) by simp
  next
    case False
    then have p1: "pread (log_hw s1) = ?p + 1" "membuf (log_hw s1) = ?b" using f by simp_all
    then have "MEMBUF_SIZE - pread (log_hw s1) < MEMBUF_SIZE - ?p" "pread (log_hw s1) < MEMBUF_SIZE"
      "k = MEMBUF_SIZE - pread (log_hw s1)"
      using less.prems(4) False k by simp_all
    with less.hyps [of s1] s1(2) f less.prems(2,3) p1 step False show ?thesis
      by (auto simp: d s1(3))
  qed
qed

text \<open>C35: printing the log prints the whole buffer: with the membuf logger at its start position and a console
  attached, \<open>syslog_print\<close> returns success after 1024 reads, the console has received every
  character of the buffer in order, with a carriage return after each line feed, and the log is
  unchanged, so that the next dump prints it again.\<close>

theorem syslog_print_complete:
  fixes s :: "('c, membuf_t) stdio"
  assumes "con_ready w s" and "logger_attached s" and "log s = Some membuf_driver"
    and "length (membuf (log_hw s)) = MEMBUF_SIZE" and "pread (log_hw s) = 0"
  shows "\<exists>s'. syslog_print MEMBUF_SIZE s = Ok (success, s') \<and> log_hw s' = log_hw s
    \<and> con_hw s' = fold (\<lambda>c h. snd (w c h)) (concat (map crlf (membuf (log_hw s)))) (con_hw s)"
  using dprint_loop_all [OF assms(1,3,4)] assms(2,5)
  by (auto simp: syslog_print_def logger_dprint_def)

definition demo_stdio :: "(u8 list, membuf_t) stdio" where
  "demo_stdio =
     \<lparr>stddev = \<lambda>i. \<lparr>fs_write = (if i = 3 then F_logger_putc else F_console_putc), fs_read = F_console_getc\<rparr>,
      con = Some \<lparr>con_write = Some (\<lambda>c h. (0, h @ [c])), con_read = None, con_flush = None, con_payload_size = None\<rparr>,
      console_attached = True, con_hw = [], log = Some membuf_driver, logger_attached = True,
      log_hw = \<lparr>membuf = replicate 1024 0, wpointer = 0, pread = 0\<rparr>\<rparr>"

theorem log_keeps_last_witness:
  "\<exists>n s'. fputs std_log [0x61, 0x0a] demo_stdio = Ok (n, s') \<and> membuf (log_hw s') ! 2 = 0x0d"
proof -
  have "log_ready membuf_writeb demo_stdio" by (simp add: log_ready_def demo_stdio_def membuf_driver_def)
  from log_keeps_last [OF this, of "[0x61, 0x0a]"] show ?thesis
    by (auto simp: demo_stdio_def crlf_def)
qed


theorem syslog_print_complete_witness:
  "\<exists>s'. syslog_print MEMBUF_SIZE demo_stdio = Ok (success, s') \<and> log_hw s' = log_hw demo_stdio"
proof -
  have "con_ready (\<lambda>c h. (0, h @ [c])) demo_stdio" by (simp add: con_ready_def demo_stdio_def)
  from syslog_print_complete [OF this] show ?thesis by (auto simp: demo_stdio_def)
qed

text \<open>The flags of the engine: an attached console or logger has a driver, and the functions that use the
  driver then do not fault.\<close>

definition stdio_inv :: "('c, 'l) stdio \<Rightarrow> bool" where
  "stdio_inv s \<longleftrightarrow> (console_attached s \<longrightarrow> con s \<noteq> None) \<and> (logger_attached s \<longrightarrow> log s \<noteq> None)"

lemmas register_defs = stdout_register_def stderr_register_def stdin_register_def stdlog_register_def
  set_fs_read_def set_fs_write_def

lemma stdio_inv_attach:
  assumes "stdio_inv s"
  shows "stdio_inv (snd (console_attach_device r p s))" "stdio_inv (snd (console_release_device s))"
    "stdio_inv (snd (logger_attach_device r q s))" "stdio_inv (snd (logger_release_device s))"
  using assms
  by (auto simp: stdio_inv_def console_attach_device_def console_release_device_def logger_attach_device_def
      logger_release_device_def register_defs Let_def)

lemma stdio_inv_no_fault:
  assumes "stdio_inv s"
  shows "returns (console_putc c s)" "returns (console_getc s)" "returns (console_flush s)"
    "returns (console_get_payload_size s)" "returns (logger_putc c s)"
  using assms
  by (auto simp: stdio_inv_def console_putc_def console_getc_def console_flush_def console_get_payload_size_def
      logger_putc_def split: option.split prod.split)

end
