(* ===== verification/C_Stdio.thy ===== *)
theory C_Stdio
  imports C_String Console
begin

text \<open>
  Numbers and text: character classes (\<open>src/src/lib/libc/ctype.c\<close>), string to number
  (\<open>lib/libc/strton.c\<close>, the integer part) and formatted output (\<open>lib/libc/printf.c\<close> built without
  \<open>USE_FLOAT\<close>).

  A format string is the list of its characters before the terminating NUL. A variadic argument is a
  32-bit slot, a 64-bit value or a string; \<open>long\<close> is 32 bits wide. The central theorem is the
  round trip: what \<open>%d\<close> prints, \<open>atol\<close> reads back.
\<close>

section \<open>Character classes\<close>

definition isWhitespace :: "u8 \<Rightarrow> bool" where
  "isWhitespace c \<longleftrightarrow> c = 0x20 \<or> c = 0x09"

definition isSpace :: "u8 \<Rightarrow> bool" where
  "isSpace c \<longleftrightarrow> isWhitespace c \<or> c = 0x0c \<or> c = 0x0a \<or> c = 0x0d \<or> c = 0x0b"

definition isLowercase :: "u8 \<Rightarrow> bool" where
  "isLowercase c \<longleftrightarrow> c \<ge> 0x61 \<and> c \<le> 0x7a"

definition isUppercase :: "u8 \<Rightarrow> bool" where
  "isUppercase c \<longleftrightarrow> c \<ge> 0x41 \<and> c \<le> 0x5a"

definition isDigit :: "u8 \<Rightarrow> bool" where
  "isDigit c \<longleftrightarrow> c \<ge> 0x30 \<and> c \<le> 0x39"

definition isAlpha :: "u8 \<Rightarrow> bool" where
  "isAlpha c \<longleftrightarrow> isLowercase c \<or> isUppercase c"

definition isAlphaNumeric :: "u8 \<Rightarrow> bool" where
  "isAlphaNumeric c \<longleftrightarrow> isAlpha c \<or> isDigit c"

definition isHexDigit :: "u8 \<Rightarrow> bool" where
  "isHexDigit c \<longleftrightarrow> isDigit c \<or> (c \<ge> 0x61 \<and> c \<le> 0x66) \<or> (c \<ge> 0x41 \<and> c \<le> 0x46)"

definition isGraph :: "u8 \<Rightarrow> bool" where
  "isGraph c \<longleftrightarrow> c > 0x20 \<and> c < 0x7f"

definition isControl :: "u8 \<Rightarrow> bool" where
  "isControl c \<longleftrightarrow> c < 0x20 \<or> c = 0x7f"

definition isPrintable :: "u8 \<Rightarrow> bool" where
  "isPrintable c \<longleftrightarrow> c \<ge> 0x20 \<and> c < 0x7f"

definition isPunct :: "u8 \<Rightarrow> bool" where
  "isPunct c \<longleftrightarrow> isGraph c \<and> \<not> isAlphaNumeric c"

definition isASCII :: "u8 \<Rightarrow> bool" where
  "isASCII c \<longleftrightarrow> c < 0x80"

definition toLowercase :: "u8 \<Rightarrow> u8" where
  "toLowercase c = (if isUppercase c then c + (0x61 - 0x41) else c)"

definition toUppercase :: "u8 \<Rightarrow> u8" where
  "toUppercase c = (if isLowercase c then c - (0x61 - 0x41) else c)"

section \<open>Strings to integers\<close>

definition isSign :: "u8 \<Rightarrow> bool" where
  "isSign c \<longleftrightarrow> c = 0x2d \<or> c = 0x2b"

partial_function (option) trail_whitespace :: "mem \<Rightarrow> ptr \<Rightarrow> ptr option" where
  "trail_whitespace m s = (if isSpace (m s) then trail_whitespace m (s + 1) else Some s)"

definition set_negative_flag :: "mem \<Rightarrow> ptr \<Rightarrow> ptr \<times> bool" where
  "set_negative_flag m s = (if m s \<noteq> 0 \<and> isSign (m s) then (s + 1, m s = 0x2d) else (s, False))"

text \<open>The accumulator is a \<open>long\<close>; a number outside its range overflows it, which C leaves undefined and the model lets wrap.\<close>

partial_function (option) integer_traverse :: "mem \<Rightarrow> ptr \<Rightarrow> u32 \<Rightarrow> (ptr \<times> u32) option" where
  "integer_traverse m s a =
     (if m s \<noteq> 0 \<and> m s \<noteq> 0x2e \<and> \<not> isSpace (m s) \<and> isDigit (m s)
      then integer_traverse m (s + 1) (a * 10 + (ucast (m s) - 0x30))
      else Some (s, a))"

definition atol :: "mem \<Rightarrow> ptr \<Rightarrow> u32 option" where
  "atol m s =
     (case trail_whitespace m s of
        None \<Rightarrow> None
      | Some s1 \<Rightarrow>
          (case set_negative_flag m s1 of (s2, N) \<Rightarrow>
             (case integer_traverse m s2 0 of
                None \<Rightarrow> None
              | Some (_, a) \<Rightarrow> Some (if N \<and> a \<noteq> 0 then - a else a))))"

definition atoi :: "mem \<Rightarrow> ptr \<Rightarrow> u32 option" where
  "atoi m s = atol m s"

section \<open>Formatted output\<close>

text \<open>The first loop of \<open>unumprint\<close> fills \<open>buf\<close>, least significant digit first.\<close>

definition digit_char :: "u32 \<Rightarrow> u8" where
  "digit_char rem = (if rem < 0xa then 0x30 + ucast rem else 0x61 + ucast (rem - 0xa))"

function digit_buf :: "u32 \<Rightarrow> u32 \<Rightarrow> u8 list" where
  "digit_buf unum radix =
     (if radix < 2 then []
      else digit_char (unum mod radix) # (if unum div radix > 0 then digit_buf (unum div radix) radix else []))"
  by pat_completeness auto
termination
proof (relation "measure (\<lambda>(n, r). unat n)", simp)
  fix n r :: u32
  assume "\<not> r < 2" and "0 < n div r"
  then have "unat r \<ge> 2" "n \<noteq> 0" by (auto simp: word_less_nat_alt)
  then show "((n div r, r), n, r) \<in> measure (\<lambda>(n, r). unat n)"
    by (simp add: unat_div unat_gt_0 word_neq_0_conv)
qed

declare digit_buf.simps [simp del]

primrec pad_loop :: "nat \<Rightarrow> nat \<Rightarrow> bool \<Rightarrow> u8 \<Rightarrow> u32 \<Rightarrow> ('c, 'l) stdio \<Rightarrow> (u32 \<times> ('c, 'l) stdio) outcome" where
  "pad_loop 0 fd en padc ret s = Ok (ret, s)"
| "pad_loop (Suc n) fd en padc ret s =
     obind (fputc_en fd en padc s) (\<lambda>(_, s1). pad_loop n fd en padc (ret + 1) s1)"

text \<open>The last loop counts \<open>i\<close> down and so prints \<open>buf\<close> from its end.\<close>

primrec out_loop :: "u8 list \<Rightarrow> nat \<Rightarrow> nat \<Rightarrow> bool \<Rightarrow> u32 \<Rightarrow> ('c, 'l) stdio \<Rightarrow> (u32 \<times> ('c, 'l) stdio) outcome" where
  "out_loop buf 0 fd en ret s = Ok (ret, s)"
| "out_loop buf (Suc i) fd en ret s =
     obind (fputc_en fd en (buf ! i) s) (\<lambda>(_, s1). out_loop buf i fd en (ret + 1) s1)"

definition unumprint ::
  "nat \<Rightarrow> bool \<Rightarrow> u32 \<Rightarrow> u32 \<Rightarrow> u8 \<Rightarrow> int \<Rightarrow> ('c, 'l) stdio \<Rightarrow> (u32 \<times> ('c, 'l) stdio) outcome" where
  "unumprint fd en unum radix padc padn s =
     (if radix = 0 then Fault Div_by_zero
      else if radix = 1 \<and> unum \<noteq> 0 then Hang
      else let buf = (if radix = 1 then [digit_char 0] else digit_buf unum radix); i = length buf
           in require (i \<le> 20) Out_of_bounds
                (obind (if padn > 0 then pad_loop (nat (padn - int i)) fd en padc 0 s else Ok (0, s))
                  (\<lambda>(ret, s1). out_loop buf i fd en ret s1)))"

datatype varg = A32 u32 | A64 u64 | AStr "u8 list"

text \<open>\<open>va_arg\<close>: reading a slot that is missing or of another size is undefined.\<close>

fun arg32 :: "varg list \<Rightarrow> (u32 \<times> varg list) outcome" where
  "arg32 (A32 w # as) = Ok (w, as)"
| "arg32 _ = Fault Out_of_bounds"

fun arg64 :: "varg list \<Rightarrow> (u64 \<times> varg list) outcome" where
  "arg64 (A64 w # as) = Ok (w, as)"
| "arg64 _ = Fault Out_of_bounds"

fun arg_str :: "varg list \<Rightarrow> (u8 list \<times> varg list) outcome" where
  "arg_str (AStr t # as) = Ok (t, as)"
| "arg_str _ = Fault Out_of_bounds"

text \<open>\<open>get_num_va_args\<close> and \<open>get_unum_va_args\<close> with the assignment to a 32-bit variable.\<close>

definition get_num_va_args :: "nat \<Rightarrow> varg list \<Rightarrow> (u32 \<times> varg list) outcome" where
  "get_num_va_args lcount as =
     (if lcount \<ge> 2 then obind (arg64 as) (\<lambda>(w, as1). Ok (ucast w, as1)) else arg32 as)"

text \<open>The state of the scan: text, or a conversion with its count of \<open>l\<close>, its padding and whether the
  digits of the padding are being read.\<close>

datatype mode = M_text | M_conv nat int bool

fun vprintf_loop ::
  "nat \<Rightarrow> bool \<Rightarrow> mode \<Rightarrow> u8 list \<Rightarrow> varg list \<Rightarrow> u8 \<Rightarrow> u32 \<Rightarrow> ('c, 'l) stdio \<Rightarrow> (u32 \<times> ('c, 'l) stdio) outcome" where
  "vprintf_loop fd en M_text [] as padc ret s = Ok (ret, s)"
| "vprintf_loop fd en M_text (c # fmt) as padc ret s =
     (if c = 0x25 then vprintf_loop fd en (M_conv 0 0 False) fmt as padc ret s
      else obind (fputc_en fd en c s) (\<lambda>(_, s1). vprintf_loop fd en M_text fmt as padc (ret + 1) s1))"
| "vprintf_loop fd en (M_conv l padn w) [] as padc ret s = Ok (- 1, s)"
| "vprintf_loop fd en (M_conv l padn w) (c # fmt) as padc ret s =
     (if w \<and> isDigit c
      then vprintf_loop fd en (M_conv l (padn * 10 + uint (c - 0x30)) True) fmt as padc ret s
      else if c = 0x69 \<or> c = 0x64
      then obind (get_num_va_args l as) (\<lambda>(num, as1).
           obind (if num <s 0 then obind (fputc_en fd en 0x2d s) (\<lambda>(_, s1). Ok (- num, padn - 1, s1)) else Ok (num, padn, s))
             (\<lambda>(unum, padn1, s1).
           obind (unumprint fd en unum 10 padc padn1 s1) (\<lambda>(r, s2).
             vprintf_loop fd en M_text fmt as1 padc (ret + r) s2)))
      else if c = 0x63
      then obind (arg32 as) (\<lambda>(ch, as1).
           obind (fputc_en fd en (ucast ch) s) (\<lambda>(r, s1). vprintf_loop fd en M_text fmt as1 padc (ret + r) s1))
      else if c = 0x73
      then obind (arg_str as) (\<lambda>(t, as1).
           obind (fputs_en fd en t s) (\<lambda>(r, s1). vprintf_loop fd en M_text fmt as1 padc (ret + r) s1))
      else if c = 0x70
      then obind (arg32 as) (\<lambda>(unum, as1).
           obind (fputs_en fd en [0x30, 0x78] s) (\<lambda>(r1, s1).
           obind (unumprint fd en unum 16 padc (padn - 2) s1) (\<lambda>(r2, s2).
             vprintf_loop fd en M_text fmt as1 padc (ret + r1 + r2) s2)))
      else if c = 0x78
      then obind (get_num_va_args l as) (\<lambda>(unum, as1).
           obind (unumprint fd en unum 16 padc padn s) (\<lambda>(r, s1). vprintf_loop fd en M_text fmt as1 padc (ret + r) s1))
      else if c = 0x7a
      then vprintf_loop fd en (M_conv l padn False) fmt as padc ret s
      else if c = 0x6c
      then vprintf_loop fd en (M_conv (l + 1) padn False) fmt as padc ret s
      else if c = 0x75
      then obind (get_num_va_args l as) (\<lambda>(unum, as1).
           obind (unumprint fd en unum 10 padc padn s) (\<lambda>(r, s1). vprintf_loop fd en M_text fmt as1 padc (ret + r) s1))
      else if c = 0x30
      then vprintf_loop fd en (M_conv l 0 True) fmt as 0x30 ret s
      else if c = 0x25
      then obind (fputc_en fd en c s) (\<lambda>(r, s1). vprintf_loop fd en M_text fmt as padc (ret + r) s1)
      else Ok (- 1, s))"

definition vprintf ::
  "nat \<Rightarrow> bool \<Rightarrow> u8 list \<Rightarrow> varg list \<Rightarrow> ('c, 'l) stdio \<Rightarrow> (u32 \<times> ('c, 'l) stdio) outcome" where
  "vprintf fd en fmt as s = vprintf_loop fd en M_text fmt as 0 0 s"

definition printf :: "u8 list \<Rightarrow> varg list \<Rightarrow> ('c, 'l) stdio \<Rightarrow> (u32 \<times> ('c, 'l) stdio) outcome" where
  "printf fmt as s = vprintf std_out False fmt as s"

definition eprintf :: "u8 list \<Rightarrow> varg list \<Rightarrow> ('c, 'l) stdio \<Rightarrow> (u32 \<times> ('c, 'l) stdio) outcome" where
  "eprintf fmt as s = vprintf std_err False fmt as s"

definition fprintf :: "nat \<Rightarrow> bool \<Rightarrow> u8 list \<Rightarrow> varg list \<Rightarrow> ('c, 'l) stdio \<Rightarrow> (u32 \<times> ('c, 'l) stdio) outcome" where
  "fprintf fd en fmt as s = vprintf fd en fmt as s"


section \<open>Numerals\<close>

lemma fputs_en_append:
  "fputs_en fd en (xs @ ys) s =
     obind (fputs_en fd en xs s) (\<lambda>(m, s1). obind (fputs_en fd en ys s1) (\<lambda>(n, s2). Ok (m + n, s2)))"
  by (induction xs arbitrary: s) (auto simp: obind_assoc case_prod_unfold add_ac)

lemma pad_loop_fputs:
  "pad_loop n fd en c ret s = obind (fputs_en fd en (replicate n c) s) (\<lambda>(k, s1). Ok (ret + k, s1))"
  by (induction n arbitrary: ret s) (auto simp: obind_assoc case_prod_unfold add_ac)

lemma out_loop_fputs:
  "i \<le> length buf \<Longrightarrow>
    out_loop buf i fd en ret s = obind (fputs_en fd en (rev (take i buf)) s) (\<lambda>(k, s1). Ok (ret + k, s1))"
  by (induction i arbitrary: ret s) (auto simp: take_Suc_conv_app_nth obind_assoc case_prod_unfold add_ac)

lemma digit_buf_length:
  assumes "2 \<le> unat radix" and "unat unum < unat radix ^ Suc k"
  shows "length (digit_buf unum radix) \<le> Suc k"
  using assms(2)
proof (induction k arbitrary: unum)
  case 0
  then have "unum div radix = 0" by (simp add: word_unat_eq_iff unat_div)
  then show ?case by (simp add: digit_buf.simps)
next
  case (Suc k)
  then have "unat (unum div radix) < unat radix ^ Suc k"
    using assms(1) by (simp add: unat_div less_mult_imp_div_less mult.commute)
  then show ?case using Suc.IH by (subst digit_buf.simps) auto
qed

lemma digit_buf_20:
  assumes "radix = 10 \<or> radix = 16"
  shows "length (digit_buf unum radix) \<le> 20"
proof -
  have "unat unum < unat radix ^ Suc 9" using assms unat_lt_32 [of unum] by auto
  moreover have "2 \<le> unat radix" using assms by auto
  ultimately show ?thesis using digit_buf_length [of radix unum 9] by simp
qed

text \<open>\<open>unumprint\<close> prints the padding and the numeral, and the buffer of 20 characters is large enough.\<close>

definition numeral_text :: "u32 \<Rightarrow> u32 \<Rightarrow> u8 \<Rightarrow> int \<Rightarrow> u8 list" where
  "numeral_text unum radix padc padn =
     (let d = digit_buf unum radix in replicate (nat (padn - int (length d))) padc @ rev d)"

lemma unumprint_text:
  assumes "radix = 10 \<or> radix = 16"
  shows "unumprint fd en unum radix padc padn s = fputs_en fd en (numeral_text unum radix padc padn) s"
proof -
  have "radix \<noteq> 0" "radix \<noteq> 1" using assms by auto
  moreover have "padn \<le> 0 \<Longrightarrow> nat (padn - int n) = 0" for n by simp
  ultimately show ?thesis
    using digit_buf_20 [OF assms, of unum]
    by (simp add: unumprint_def numeral_text_def Let_def pad_loop_fputs out_loop_fputs fputs_en_append
        obind_assoc case_prod_unfold)
qed

definition read_digit :: "u8 \<Rightarrow> u32 \<Rightarrow> u32" where
  "read_digit c a = a * 10 + (ucast c - 0x30)"

lemma digit_char_10:
  assumes "r < (10 :: u32)"
  shows "isDigit (digit_char r)" and "ucast (digit_char r) - 0x30 = r"
proof -
  have r: "unat r < 10" using assms by (simp add: word_less_nat_alt)
  have "unat (ucast r :: u8) = unat r" using r by (simp add: unsigned_ucast_eq take_bit_nat_eq_self)
  then have u: "unat (digit_char r) = 48 + unat r" using assms r by (simp add: digit_char_def unat_word_ariths)
  then show "isDigit (digit_char r)" using r by (simp add: isDigit_def word_le_nat_alt)
  have "unat (ucast (digit_char r) :: u32) = 48 + unat r"
    using u r by (simp add: unsigned_ucast_eq take_bit_nat_eq_self)
  then have "ucast (digit_char r) = 0x30 + r" using r by (simp add: word_unat_eq_iff unat_word_ariths)
  then show "ucast (digit_char r) - 0x30 = r" by simp
qed

lemma digit_buf_10: "list_all isDigit (digit_buf x 10) \<and> fold read_digit (rev (digit_buf x 10)) 0 = x"
proof (induction "unat x" arbitrary: x rule: less_induct)
  case less
  have m: "x mod 10 < 10" by (simp add: word_less_nat_alt unat_mod)
  have e: "x div 10 * 10 + x mod 10 = x" by (rule div_mult_mod_eq)
  show ?case
  proof (cases "x div 10 > 0")
    case True
    then have "unat (x div 10) < unat x" by (auto simp: unat_div word_less_nat_alt)
    then show ?thesis
      using less.hyps True digit_char_10 [OF m] e by (subst (1 2) digit_buf.simps) (simp add: read_digit_def)
  next
    case False
    then have "x div 10 = 0" by (simp add: word_gt_0)
    then show ?thesis
      using digit_char_10 [OF m] e by (subst (1 2) digit_buf.simps) (simp add: read_digit_def)
  qed
qed

lemma isDigit_plain: "isDigit c \<Longrightarrow> c \<noteq> 0 \<and> c \<noteq> 0x2e \<and> \<not> isSpace c \<and> \<not> isSign c \<and> c \<noteq> chr_lf"
  by (auto simp: isDigit_def isSpace_def isWhitespace_def isSign_def)

lemma integer_traverse_prefix:
  assumes "cstr m p (ds @ rest)" and "list_all isDigit ds" and "rest = [] \<or> \<not> isDigit (hd rest)"
  shows "integer_traverse m p a = Some (p + of_nat (length ds), fold read_digit ds a)"
  using assms(1,2)
proof (induction ds arbitrary: p a)
  case Nil
  then show ?case using assms(3) by (cases rest) (subst integer_traverse.simps, simp)+
next
  case (Cons d ds)
  then show ?case
    by (subst integer_traverse.simps) (simp add: isDigit_plain read_digit_def [of d] add_ac)
qed

lemma integer_traverse_digits:
  assumes "cstr m p ds" and "list_all isDigit ds"
  shows "integer_traverse m p a = Some (p + of_nat (length ds), fold read_digit ds a)"
  using integer_traverse_prefix [of m p ds "[]"] assms by simp

lemma atol_digits:
  assumes "list_all isDigit ds" and "ds \<noteq> []"
  shows "cstr m p ds \<Longrightarrow> atol m p = Some (fold read_digit ds 0)"
    and "cstr m p (0x2d # ds) \<Longrightarrow> atol m p = Some (- fold read_digit ds 0)"
proof -
  obtain d es where d: "ds = d # es" "isDigit d" using assms by (cases ds) auto
  show "atol m p = Some (fold read_digit ds 0)" if "cstr m p ds"
  proof -
    have "m p = d" using that d(1) by simp
    then have "trail_whitespace m p = Some p" "set_negative_flag m p = (p, False)"
      using isDigit_plain [OF d(2)] by (simp_all add: trail_whitespace.simps set_negative_flag_def)
    then show ?thesis using integer_traverse_digits [OF that assms(1)] by (simp add: atol_def)
  qed
  show "atol m p = Some (- fold read_digit ds 0)" if "cstr m p (0x2d # ds)"
  proof -
    have "m p = 0x2d" "cstr m (p + 1) ds" using that by simp_all
    moreover from this have "trail_whitespace m p = Some p" "set_negative_flag m p = (p + 1, True)"
      by (simp_all add: trail_whitespace.simps set_negative_flag_def isSpace_def isWhitespace_def isSign_def)
    ultimately show ?thesis using integer_traverse_digits [OF _ assms(1)] by (simp add: atol_def)
  qed
qed

section \<open>Printing and reading back\<close>

text \<open>The characters \<open>%d\<close> prints for a number.\<close>

definition decimal :: "u32 \<Rightarrow> u8 list" where
  "decimal x = (if x <s 0 then 0x2d # rev (digit_buf (- x) 10) else rev (digit_buf x 10))"

lemma digit_buf_nonempty: "digit_buf x 10 \<noteq> []"
  by (simp add: digit_buf.simps)

lemma decimal_atol: "cstr m p (decimal x) \<Longrightarrow> atol m p = Some x"
  using digit_buf_10 [of x] digit_buf_10 [of "- x"] digit_buf_nonempty
    atol_digits(1) [of "rev (digit_buf x 10)" m p] atol_digits(2) [of "rev (digit_buf (- x) 10)" m p]
  by (auto simp: decimal_def split: if_splits)

lemma numeral_text_plain: "numeral_text x 10 padc 0 = rev (digit_buf x 10)"
  "numeral_text x 10 padc (- 1) = rev (digit_buf x 10)"
  by (simp_all add: numeral_text_def Let_def)

lemma printf_d:
  "vprintf fd en [0x25, 0x64] [A32 x] s =
     obind (fputs_en fd en (decimal x) s) (\<lambda>(r, s1). Ok (if x <s 0 then r - 1 else r, s1))"
  by (simp add: vprintf_def get_num_va_args_def unumprint_text numeral_text_plain decimal_def isDigit_def
      obind_assoc case_prod_unfold)

lemma crlf_plain: "\<forall>c \<in> set t. c \<noteq> chr_lf \<Longrightarrow> concat (map crlf t) = t"
  by (induction t) (simp_all add: crlf_def)

lemma crlf_decimal: "concat (map crlf (decimal x)) = decimal x"
  using digit_buf_10 [of x] digit_buf_10 [of "- x"] isDigit_plain
  by (intro crlf_plain) (auto simp: decimal_def list_all_iff)

lemma printf_decimal:
  assumes "con_ready w s"
  shows "\<exists>r s'. printf [0x25, 0x64] [A32 x] s = Ok (r, s') \<and> con_hw s' = fold (\<lambda>c h. snd (w c h)) (decimal x) (con_hw s)"
proof -
  obtain s' where s': "puts (ccpdfs_write std_out) (decimal x) s = Ok s'"
    "con_hw s' = fold (\<lambda>c h. snd (w c h)) (decimal x) (con_hw s)"
    using consink.puts_ok [OF assms, of "decimal x"] by blast
  then have "obind (fputs_en std_out False (decimal x) s) (\<lambda>(_, s1). Ok s1) = Ok s'"
    using fputs_puts [of std_out "decimal x" s] by (simp add: crlf_decimal)
  then obtain n where "fputs_en std_out False (decimal x) s = Ok (n, s')" by (auto simp: outcome_simps)
  then show ?thesis using s'(2) by (simp add: printf_def printf_d)
qed

text \<open>Formatted numbers read back: on an attached console, \<open>printf("%d", x)\<close> sends a text \<open>t\<close> to the device
  such that for every memory that holds \<open>t\<close> as a string \<open>atol\<close> returns \<open>x\<close>, for all 32-bit integers but the
  least one, whose digits overflow the signed accumulator.\<close>

theorem printf_atol_roundtrip:
  assumes "con_ready w s" and "x \<noteq> 0x80000000"
  shows "\<exists>r s' t. printf [0x25, 0x64] [A32 x] s = Ok (r, s')
    \<and> con_hw s' = fold (\<lambda>c h. snd (w c h)) t (con_hw s)
    \<and> (\<forall>m p. cstr m p t \<longrightarrow> atol m p = Some x)"
proof -
  show ?thesis using printf_decimal [OF assms(1), of x] decimal_atol by blast
qed

theorem printf_atol_roundtrip_witness:
  "\<exists>r s' t. printf [0x25, 0x64] [A32 (- 42)] demo_stdio = Ok (r, s') \<and> (\<forall>m p. cstr m p t \<longrightarrow> atol m p = Some (- 42))"
proof -
  have "con_ready (\<lambda>c h. (0, h @ [c])) demo_stdio" by (simp add: con_ready_def demo_stdio_def)
  from printf_atol_roundtrip [OF this, of "- 42"] show ?thesis by auto
qed

end
