(* ===== verification/Nmath.thy ===== *)
theory Nmath
  imports CC_Prelude "HOL-Library.Signed_Division"
begin

text \<open>
  The integer functions of \<open>src/src/lib/libnmath/arithmetic/arithmetic.c\<close>. \<open>unsigned long\<close> is a 32-bit
  word; \<open>long\<close> is an integer whose operations are wrapped to 32 bits where they can leave the range.
  \<open>clog2\<close> and \<open>gcd\<close> are compared with their mathematical definitions, \<open>lcm\<close>,
  \<open>multiplicative_inverse\<close> and \<open>isPrime\<close> with what their comments promise.
\<close>

section \<open>The functions\<close>

lemma and_1_odd: "(num :: u32) AND 1 \<noteq> 0 \<longleftrightarrow> odd (unat num)"
  by (simp add: and_one_eq mod_2_eq_odd bit_unsigned_iff flip: bit_0)

lemma unat_half: "unat (drop_bit 1 (num :: u32)) = unat num div 2"
  by (simp add: drop_bit_eq_div unat_div)

lemma clog2_arg:
  fixes num :: u32
  assumes "num > 1" and "num \<noteq> - 1"
  shows "unat (if num AND 1 \<noteq> 0 then drop_bit 1 (num + 1) else drop_bit 1 num) = (unat num + 1) div 2"
proof -
  have "unat num \<noteq> 4294967295" using assms(2) unat_minus_1_32 by (metis word_unat_eq_iff)
  then have "unat (num + 1) = unat num + 1" using unat_lt_32 [of num] by (simp add: unat_word_ariths)
  then show ?thesis by (auto simp: and_1_odd unat_half [unfolded One_nat_def] elim!: evenE oddE)
qed

function clog2 :: "u32 \<Rightarrow> u32" where
  "clog2 num =
     (if num > 1 then 1 + clog2 (if num AND 1 \<noteq> 0 then drop_bit 1 (num + 1) else drop_bit 1 num) else 0)"
  by pat_completeness auto
termination
proof (relation "measure unat", simp)
  fix num :: u32
  assume n: "1 < num"
  then have g: "1 < unat num" by (simp add: word_less_nat_alt)
  show "((if num AND 1 \<noteq> 0 then drop_bit 1 (num + 1) else drop_bit 1 num), num) \<in> measure unat"
  proof (cases "num = - 1")
    case True
    then show ?thesis by (simp add: unat_half)
  next
    case False
    show ?thesis using clog2_arg [OF n False] g by simp
  qed
qed

declare clog2.simps [simp del]

function gcd_c :: "u32 \<Rightarrow> u32 \<Rightarrow> u32" where
  "gcd_c a b = (if b = 0 then a else gcd_c b (a mod b))"
  by pat_completeness auto
termination
  by (relation "measure (\<lambda>(a, b). unat b)") (auto simp: unat_mod word_neq_0_conv unat_gt_0)

declare gcd_c.simps [simp del]


text \<open>\<open>lcm\<close> reads \<open>a[0]\<close>; its loop starts at \<open>i = n\<close> with the condition \<open>i < n\<close>.\<close>

function lcm_loop :: "u32 list \<Rightarrow> nat \<Rightarrow> nat \<Rightarrow> u32 \<Rightarrow> u32" where
  "lcm_loop a n i ret =
     (if i < n then lcm_loop a n (i + 1) ((a ! i * ret) div gcd_c (a ! i) ret) else ret)"
  by pat_completeness auto
termination
  by (relation "measure (\<lambda>(a, n, i, ret). n - i)") auto

declare lcm_loop.simps [simp del]

definition lcm_c :: "u32 list \<Rightarrow> u32" where
  "lcm_c a = lcm_loop a (length a) (length a) (a ! 0)"

text \<open>\<open>long\<close> arithmetic, wrapped to 32 bits.\<close>

definition wrap :: "int \<Rightarrow> int" where
  "wrap x = signed_take_bit 31 x"

definition mod_c :: "int \<Rightarrow> int \<Rightarrow> int outcome" where
  "mod_c a b =
     require (b \<noteq> 0) Div_by_zero (let ret = a smod b in Ok (if ret < 0 then wrap (b + ret) else ret))"

lemma smod_less: "(b :: int) \<noteq> 0 \<Longrightarrow> \<bar>a smod b\<bar> < \<bar>b\<bar>"
  using smod_int_range [of b a] by auto

function mi_loop :: "int \<Rightarrow> int \<Rightarrow> int \<Rightarrow> int \<Rightarrow> int \<times> int" where
  "mi_loop base subject t1 t2 =
     (if subject \<noteq> 0
      then let q = wrap (base sdiv subject); r = base smod subject; t = wrap (t1 - wrap (q * t2))
           in mi_loop subject r t2 t
      else (base, t1))"
  by pat_completeness auto
termination
  by (relation "measure (\<lambda>(base, subject, _). nat \<bar>subject\<bar>)") (use smod_less in auto)

declare mi_loop.simps [simp del]

definition multiplicative_inverse :: "int \<Rightarrow> int \<Rightarrow> int outcome" where
  "multiplicative_inverse base subject = (case mi_loop base subject 0 1 of (b, t1) \<Rightarrow> mod_c t1 b)"

definition abs_c :: "int \<Rightarrow> int" where
  "abs_c x = (if x < 0 then wrap (- x) else x)"

text \<open>The trial divisions by odd numbers; \<open>i * i\<close> may overflow before it exceeds \<open>x\<close>, hence the fuel.\<close>

primrec isPrime_loop :: "nat \<Rightarrow> int \<Rightarrow> int \<Rightarrow> bool outcome" where
  "isPrime_loop 0 x i = Hang"
| "isPrime_loop (Suc fuel) x i =
     (if wrap (i * i) \<le> x then if x smod i = 0 then Ok False else isPrime_loop fuel x (wrap (i + 2)) else Ok True)"

definition isPrime :: "nat \<Rightarrow> int \<Rightarrow> bool outcome" where
  "isPrime fuel x =
     (if x < 2 then Ok False
      else if x \<le> 3 then Ok True
      else if x smod 2 \<noteq> 0 \<or> x smod 3 \<noteq> 0 then Ok False
      else isPrime_loop fuel x 5)"

section \<open>What they compute\<close>

lemma gcd_c_gcd: "unat (gcd_c a b) = gcd (unat a) (unat b)"
  by (induction a b rule: gcd_c.induct) (subst gcd_c.simps, auto simp: unat_mod gcd.commute simp flip: gcd_red_nat)

lemma lcm_c_first: "lcm_c a = a ! 0"
  by (simp add: lcm_c_def lcm_loop.simps)

definition is_clog2 :: "nat \<Rightarrow> nat \<Rightarrow> bool" where
  "is_clog2 n k \<longleftrightarrow> n \<le> 2 ^ k \<and> (k = 0 \<or> 2 ^ (k - 1) < n)"

lemma is_clog2_step:
  assumes "is_clog2 ((n + 1) div 2) k" and "1 < n"
  shows "is_clog2 n (k + 1)"
proof (cases k)
  case 0
  then show ?thesis using assms by (auto simp: is_clog2_def)
next
  case (Suc j)
  then have "2 ^ j < (n + 1) div 2" "(n + 1) div 2 \<le> 2 * 2 ^ j" using assms(1) by (auto simp: is_clog2_def)
  then have "2 * 2 ^ j < n" "n \<le> 2 * (2 * 2 ^ j)" by linarith+
  then show ?thesis using Suc by (simp add: is_clog2_def)
qed

lemma is_clog2_less: "is_clog2 n k \<Longrightarrow> n < 2 ^ m \<Longrightarrow> k \<le> m"
proof (rule ccontr)
  assume "is_clog2 n k" "n < 2 ^ m" "\<not> k \<le> m"
  then have "(2 :: nat) ^ m \<le> 2 ^ (k - 1)" "2 ^ (k - 1) < n"
    by (auto simp: is_clog2_def intro!: power_increasing)
  then show False using \<open>n < 2 ^ m\<close> by linarith
qed

lemma clog2_spec:
  assumes "num \<noteq> 0" and "num \<noteq> - 1"
  shows "is_clog2 (unat num) (unat (clog2 num))"
  using assms
proof (induction num rule: clog2.induct)
  case (1 num)
  show ?case
  proof (cases "num > 1")
    case False
    then have "unat num = 1" using 1(2) by (simp add: word_less_nat_alt not_less word_unat_eq_iff)
    then show ?thesis using False by (simp add: clog2.simps is_clog2_def)
  next
    case True
    let ?m = "if num AND 1 \<noteq> 0 then drop_bit 1 (num + 1) else drop_bit 1 num"
    have m: "unat ?m = (unat num + 1) div 2" by (rule clog2_arg [OF True 1(3)])
    have g: "1 < unat num" using True by (simp add: word_less_nat_alt)
    then have "unat ?m < 2 ^ 31 + 1" "unat ?m \<noteq> 0" using m unat_lt_32 [of num] by auto
    then have "?m \<noteq> 0" "?m \<noteq> - 1" using unat_minus_1_32 by auto
    from 1(1) [OF True this] have h: "is_clog2 (unat ?m) (unat (clog2 ?m))" .
    then have "unat (clog2 ?m) \<le> 32" using \<open>unat ?m < 2 ^ 31 + 1\<close> by (intro is_clog2_less) auto
    then have "unat (1 + clog2 ?m) = unat (clog2 ?m) + 1" by (simp add: unat_word_ariths)
    then show ?thesis
      using is_clog2_step [OF h [unfolded m] g] True by (subst clog2.simps) simp
  qed
qed

lemma is_clog2_Least: "is_clog2 n k \<Longrightarrow> (LEAST k. n \<le> 2 ^ k) = k"
proof (rule Least_equality)
  fix j assume h: "is_clog2 n k" "n \<le> 2 ^ j"
  show "k \<le> j"
  proof (rule ccontr)
    assume "\<not> k \<le> j"
    then have "(2 :: nat) ^ j \<le> 2 ^ (k - 1)" by (intro power_increasing) auto
    moreover have "2 ^ (k - 1) < n" using h(1) \<open>\<not> k \<le> j\<close> by (auto simp: is_clog2_def)
    ultimately show False using h(2) by linarith
  qed
qed (simp add: is_clog2_def)

text \<open>\<open>clog2\<close> is the ceiling of the binary logarithm: for every positive \<open>num\<close> but the greatest, its result
  is the least \<open>k\<close> with \<open>num \<le> 2 ^ k\<close>. For the greatest 32-bit number the increment wraps to 0
  and the result is 1.\<close>

theorem clog2_ceiling:
  assumes "num \<noteq> 0"
  shows "if num = - 1 then clog2 num = 1 else unat (clog2 num) = (LEAST k. unat num \<le> 2 ^ k)"
proof (cases "num = - 1")
  case True
  have "clog2 (- 1) = 1" by (subst clog2.simps) (simp add: clog2.simps [of 0] word_less_nat_alt)
  then show ?thesis using True by simp
next
  case False
  then show ?thesis using is_clog2_Least [OF clog2_spec [OF assms False]] by simp
qed

theorem clog2_ceiling_witness:
  "unat (clog2 9) = (LEAST k. (9 :: nat) \<le> 2 ^ k) \<and> clog2 (- 1) = 1"
  using clog2_ceiling [of 9] clog2_ceiling [of "- 1"] by simp

lemma mi_loop_gcd: "0 \<le> base \<Longrightarrow> 0 \<le> subject \<Longrightarrow> fst (mi_loop base subject t1 t2) = gcd base subject"
proof (induction base subject t1 t2 rule: mi_loop.induct)
  case (1 base subject t1 t2)
  show ?case
  proof (cases "subject = 0")
    case True
    then show ?thesis using 1(2) by (subst mi_loop.simps) simp
  next
    case False
    then have "base smod subject = base mod subject" "0 \<le> base mod subject"
      using 1(2,3) by (simp_all add: smod_int_alt_def sgn_if)
    then show ?thesis
      using 1(1) [OF False refl refl refl] 1(3) False
      by (subst mi_loop.simps) (simp add: Let_def gcd.commute gcd_red_int [symmetric])
  qed
qed

text \<open>The loop overwrites \<open>base\<close>, so that the last reduction is modulo the greatest common divisor: for coprime
  arguments, the only ones that have an inverse, the result is 0.\<close>

lemma multiplicative_inverse_zero:
  assumes "0 \<le> base" and "0 \<le> subject" and "gcd base subject = 1"
  shows "multiplicative_inverse base subject = Ok 0"
proof -
  have "fst (mi_loop base subject 0 1) = 1" using mi_loop_gcd [OF assms(1,2), of 0 1] assms(3) by simp
  then show ?thesis
    by (cases "mi_loop base subject 0 1") (simp add: multiplicative_inverse_def mod_c_def Let_def smod_int_alt_def)
qed

text \<open>The divisibility tests of \<open>isPrime\<close> are negated: every number above 3 that is not a multiple of 6, and
  so every prime above 3, is rejected, while 6 is accepted.\<close>

lemma isPrime_wrong:
  "3 < x \<Longrightarrow> \<not> 6 dvd x \<Longrightarrow> isPrime fuel x = Ok False" "isPrime (Suc fuel) 6 = Ok True"
proof -
  show "isPrime fuel x = Ok False" if "3 < x" "\<not> 6 dvd x"
  proof -
    have "\<not> (2 dvd x \<and> 3 dvd x)" using that(2) by presburger
    then show ?thesis using that(1) by (auto simp: isPrime_def smod_int_alt_def sgn_if dvd_eq_mod_eq_0)
  qed
  show "isPrime (Suc fuel) 6 = Ok True" by (simp add: isPrime_def smod_int_alt_def wrap_def)
qed

end
