(* ===== verification/Mmio.thy ===== *)
theory Mmio
  imports CC_Status
begin

text \<open>
  Memory-mapped registers (\<open>include/mmio.h\<close>). What a device does on an access is not part of the sources, so
  it is a parameter: a record of what a 32-bit load and a 32-bit store do to the state \<open>'h\<close> of the
  hardware. A load may change the hardware too (time passes, a FIFO gives up a byte).

  What a driver relies on is stated by two predicates, used as hypotheses: \<open>stores\<close> says which
  bits of which registers simply keep what is written to them, and \<open>settles\<close> that polling a
  register ends.
\<close>

named_theorems mmio_simps "what register accesses do to the stored bits"

record 'h hw =
  hw_rd :: "ptr \<Rightarrow> 'h \<Rightarrow> u32 \<times> 'h"
  hw_wr :: "ptr \<Rightarrow> u32 \<Rightarrow> 'h \<Rightarrow> 'h"

section \<open>Accesses\<close>

text \<open>\<open>MMIO32(a) |= v\<close>, \<open>MMIO32(a) &= v\<close> and \<open>MMIO32(a) ^= v\<close>.\<close>

definition mmio_update :: "'h hw \<Rightarrow> ptr \<Rightarrow> (u32 \<Rightarrow> u32) \<Rightarrow> 'h \<Rightarrow> 'h" where
  "mmio_update hw a f s = (case hw_rd hw a s of (x, s1) \<Rightarrow> hw_wr hw a (f x) s1)"

definition mmio_or :: "'h hw \<Rightarrow> ptr \<Rightarrow> u32 \<Rightarrow> 'h \<Rightarrow> 'h" where
  "mmio_or hw a v = mmio_update hw a (\<lambda>x. x OR v)"

definition mmio_and :: "'h hw \<Rightarrow> ptr \<Rightarrow> u32 \<Rightarrow> 'h \<Rightarrow> 'h" where
  "mmio_and hw a v = mmio_update hw a (\<lambda>x. x AND v)"

definition mmio_xor :: "'h hw \<Rightarrow> ptr \<Rightarrow> u32 \<Rightarrow> 'h \<Rightarrow> 'h" where
  "mmio_xor hw a v = mmio_update hw a (\<lambda>x. x XOR v)"

text \<open>On a 32-bit machine a 64-bit store is two 32-bit stores, the low word first.\<close>

definition mmio64_wr :: "'h hw \<Rightarrow> ptr \<Rightarrow> u64 \<Rightarrow> 'h \<Rightarrow> 'h" where
  "mmio64_wr hw a v s = hw_wr hw (a + 4) (ucast (drop_bit 32 v)) (hw_wr hw a (ucast v) s)"

text \<open>\<open>while(P(MMIO32(a)));\<close>\<close>

primrec poll_while :: "nat \<Rightarrow> 'h hw \<Rightarrow> ptr \<Rightarrow> (u32 \<Rightarrow> bool) \<Rightarrow> 'h \<Rightarrow> 'h outcome" where
  "poll_while 0 hw a P s = Hang"
| "poll_while (Suc fuel) hw a P s =
     (case hw_rd hw a s of (x, s1) \<Rightarrow> if P x then poll_while fuel hw a P s1 else Ok s1)"

section \<open>Stored bits\<close>

text \<open>The bits \<open>m a\<close> of the register \<open>a\<close> are storage: \<open>val s a\<close> is what they hold. The remaining bits are
  the device's (status bits, ready flags) and may read as anything.\<close>

definition stores :: "'h hw \<Rightarrow> ('h \<Rightarrow> ptr \<Rightarrow> u32) \<Rightarrow> (ptr \<Rightarrow> u32) \<Rightarrow> bool" where
  "stores hw val m \<longleftrightarrow>
     (\<forall>s a. fst (hw_rd hw a s) AND m a = val s a)
     \<and> (\<forall>s a. val (snd (hw_rd hw a s)) = val s)
     \<and> (\<forall>s a v. val (hw_wr hw a v s) = (val s)(a := v AND m a))"

lemma stores_rd [mmio_simps]: "stores hw val m \<Longrightarrow> fst (hw_rd hw a s) AND m a = val s a"
  by (simp add: stores_def)

lemma stores_rd_frame [mmio_simps]: "stores hw val m \<Longrightarrow> val (snd (hw_rd hw a s)) = val s"
  by (simp add: stores_def)

lemma stores_wr [mmio_simps]: "stores hw val m \<Longrightarrow> val (hw_wr hw a v s) = (val s)(a := v AND m a)"
  by (simp add: stores_def)

lemma stores_masked: "stores hw val m \<Longrightarrow> val s a AND m a = val s a"
  using stores_rd [of hw val m a s] by (metis and.assoc and.idem)

lemma stores_bit: "stores hw val m \<Longrightarrow> bit (m a) i \<Longrightarrow> bit (fst (hw_rd hw a s)) i \<longleftrightarrow> bit (val s a) i"
  using stores_rd [of hw val m a s] by (metis bit_and_iff)

lemma stores_bit_imp: "stores hw val m \<Longrightarrow> bit (val s a) i \<Longrightarrow> bit (m a) i"
  using stores_masked [of hw val m s a] by (metis bit_and_iff)

lemma stores_rd_sub:
  assumes "stores hw val m" and "k AND m a = k"
  shows "fst (hw_rd hw a s) AND k = val s a AND k"
  using stores_rd [OF assms(1), of a s] assms(2) by (metis and.assoc and.commute)

lemma stores_or [mmio_simps]:
  assumes "stores hw val m"
  shows "val (mmio_or hw a v s) = (val s)(a := val s a OR (v AND m a))"
  using stores_rd [OF assms, of a s]
  by (simp add: mmio_or_def mmio_update_def case_prod_unfold stores_wr [OF assms] stores_rd_frame [OF assms]
      bit.conj_disj_distrib2)

lemma stores_and [mmio_simps]:
  assumes "stores hw val m"
  shows "val (mmio_and hw a v s) = (val s)(a := val s a AND v)"
proof -
  have "(fst (hw_rd hw a s) AND v) AND m a = (fst (hw_rd hw a s) AND m a) AND v" by (simp add: ac_simps)
  then show ?thesis
    using stores_rd [OF assms, of a s]
    by (simp add: mmio_and_def mmio_update_def case_prod_unfold stores_wr [OF assms] stores_rd_frame [OF assms])
qed

lemma stores_xor [mmio_simps]:
  assumes "stores hw val m"
  shows "val (mmio_xor hw a v s) = (val s)(a := val s a XOR (v AND m a))"
  using stores_rd [OF assms, of a s]
  by (simp add: mmio_xor_def mmio_update_def case_prod_unfold stores_wr [OF assms] stores_rd_frame [OF assms]
      bit.conj_xor_distrib2)

lemma stores_64 [mmio_simps]:
  "stores hw val m \<Longrightarrow>
   val (mmio64_wr hw a v s) =
     (val s)(a := ucast v AND m a, a + 4 := ucast (drop_bit 32 v) AND m (a + 4))"
  by (simp add: mmio64_wr_def stores_wr fun_upd_def)

section \<open>Polling\<close>

definition reads :: "'h hw \<Rightarrow> ptr \<Rightarrow> nat \<Rightarrow> 'h \<Rightarrow> 'h" where
  "reads hw a k s = ((\<lambda>s. snd (hw_rd hw a s)) ^^ k) s"

lemma reads_0 [simp]: "reads hw a 0 s = s"
  by (simp add: reads_def)

lemma reads_Suc [simp]: "reads hw a (Suc k) s = reads hw a k (snd (hw_rd hw a s))"
  by (simp add: reads_def funpow_Suc_right del: funpow.simps)

lemma stores_reads [mmio_simps]: "stores hw val m \<Longrightarrow> val (reads hw a k s) = val s"
  by (induction k arbitrary: s) (simp_all add: stores_rd_frame)

text \<open>From every state in \<open>Q\<close>, one of the next \<open>n\<close> loads of \<open>a\<close> finds a value that does not satisfy \<open>P\<close>.\<close>

definition settles :: "'h hw \<Rightarrow> ('h \<Rightarrow> bool) \<Rightarrow> ptr \<Rightarrow> (u32 \<Rightarrow> bool) \<Rightarrow> nat \<Rightarrow> bool" where
  "settles hw Q a P n \<longleftrightarrow> (\<forall>s. Q s \<longrightarrow> (\<exists>k < n. \<not> P (fst (hw_rd hw a (reads hw a k s)))))"

lemma poll_while_returns:
  assumes "k < fuel" and "\<not> P (fst (hw_rd hw a (reads hw a k s)))"
  shows "\<exists>j \<le> k. poll_while fuel hw a P s = Ok (reads hw a (Suc j) s)
    \<and> \<not> P (fst (hw_rd hw a (reads hw a j s)))"
  using assms
proof (induction fuel arbitrary: k s)
  case (Suc fuel)
  obtain x s1 where x: "hw_rd hw a s = (x, s1)" by force
  show ?case
  proof (cases "P x")
    case True
    then obtain k' where k: "k = Suc k'" using Suc.prems(2) x by (cases k) auto
    with Suc.prems x have "k' < fuel" "\<not> P (fst (hw_rd hw a (reads hw a k' s1)))" by auto
    from Suc.IH [OF this] obtain j where "j \<le> k'" "poll_while fuel hw a P s1 = Ok (reads hw a (Suc j) s1)"
      "\<not> P (fst (hw_rd hw a (reads hw a j s1)))" by blast
    then show ?thesis using True x k by (intro exI [of _ "Suc j"]) simp
  next
    case False
    then show ?thesis using x by (intro exI [of _ 0]) simp
  qed
qed simp

lemma poll_while_hangs: "(\<And>s. P (fst (hw_rd hw a s))) \<Longrightarrow> poll_while fuel hw a P s = Hang"
  by (induction fuel arbitrary: s) (simp_all add: case_prod_unfold)

lemma settles_poll:
  assumes "settles hw Q a P n" and "Q s" and "n \<le> fuel" and "stores hw val m"
  shows "\<exists>s'. poll_while fuel hw a P s = Ok s' \<and> val s' = val s"
proof -
  obtain k where "k < n" "\<not> P (fst (hw_rd hw a (reads hw a k s)))"
    using assms(1,2) by (auto simp: settles_def)
  then show ?thesis
    using poll_while_returns [of k fuel P hw a s] assms(3) stores_reads [OF assms(4)] by fastforce
qed

section \<open>Plain hardware\<close>

text \<open>A device whose registers keep what is written, with the bits \<open>r a\<close> of register \<open>a\<close> always read as one.
  It is used to show that the hypotheses above can be met.\<close>

definition plain_hw :: "(ptr \<Rightarrow> u32) \<Rightarrow> (ptr \<Rightarrow> u32) hw" where
  "plain_hw r = \<lparr>hw_rd = \<lambda>a s. (s a OR r a, s), hw_wr = \<lambda>a v s. s(a := v)\<rparr>"

definition plain_val :: "(ptr \<Rightarrow> u32) \<Rightarrow> (ptr \<Rightarrow> u32) \<Rightarrow> ptr \<Rightarrow> u32" where
  "plain_val r s a = s a AND NOT (r a)"

lemma plain_stores: "stores (plain_hw r) (plain_val r) (\<lambda>a. NOT (r a))"
  by (auto simp: stores_def plain_hw_def plain_val_def fun_eq_iff bit.conj_disj_distrib2)

lemma plain_settles: "(\<And>x. x AND r a = r a \<Longrightarrow> \<not> P x) \<Longrightarrow> settles (plain_hw r) Q a P 1"
  by (auto simp: settles_def plain_hw_def bit.conj_disj_distrib2 intro!: exI [of _ 0])

end
