(* ===== verification/Clint.thy ===== *)
theory Clint
  imports Mmio Resources
begin

text \<open>
  The core-local interruptor of the FE310 (\<open>platform/sifive/common_fe310/hal/clint\<close>): software interrupts,
  the timer-compare register and the 64-bit time counter, which a 32-bit core reads in two halves.
\<close>

abbreviation (input) N_CORES :: u32 where "N_CORES \<equiv> 1"

definition MSIP_OFFSET :: "u32 \<Rightarrow> u32" where
  "MSIP_OFFSET core = 0x00000000 + 0x4 * core"

definition MTCMP_OFFSET :: "u32 \<Rightarrow> u32" where
  "MTCMP_OFFSET core = 0x00004000 + 0x8 * core"

definition MTIME_OFFSET :: u32 where
  "MTIME_OFFSET = 0x0000bff8"

record clint_port_t =
  clint_port_id :: u32
  clint_baddr :: u32
  clint_stride :: u32

record 'h clint =
  clint_port :: "clint_port_t option"
  clint_dev :: 'h

section \<open>Operations\<close>

text \<open>\<open>alloc\<close>: the allocation of the port succeeds.\<close>

definition clint_setup :: "'h hw \<Rightarrow> resources \<Rightarrow> bool \<Rightarrow> 'h clint \<Rightarrow> (status_t \<times> 'h clint) outcome" where
  "clint_setup hw r alloc c =
     obind (visor_fetch r fetch_dp hw_clint 0) (\<lambda>v.
       if vr_status v \<noteq> success then Ok (vr_status v, c)
       else if \<not> alloc then Ok (error_memory_low, c\<lparr>clint_port := None\<rparr>)
       else case vr_p v of
              P_module m \<Rightarrow>
                Ok (success,
                  c\<lparr>clint_port := Some \<lparr>clint_port_id = hw_clint, clint_baddr = mod_baddr m, clint_stride = mod_stride m\<rparr>,
                    clint_dev := mmio64_wr hw (mod_baddr m + MTIME_OFFSET) 0 (clint_dev c)\<rparr>)
            | _ \<Rightarrow> Fault Null_deref)"

text \<open>The port is released; a later access through it is an error of the caller.\<close>

definition clint_exit :: "'h clint \<Rightarrow> status_t \<times> 'h clint" where
  "clint_exit c = (success, c\<lparr>clint_port := None\<rparr>)"

definition with_clint :: "'h clint \<Rightarrow> (ptr \<Rightarrow> 'a outcome) \<Rightarrow> 'a outcome" where
  "with_clint c f = (case clint_port c of None \<Rightarrow> Fault Null_deref | Some p \<Rightarrow> f (clint_baddr p))"

definition clint_send_softirq :: "'h hw \<Rightarrow> u32 \<Rightarrow> 'h clint \<Rightarrow> (status_t \<times> 'h clint) outcome" where
  "clint_send_softirq hw core_id c =
     (if \<not> core_id < N_CORES then Ok (error_system_inval_cpu, c)
      else with_clint c (\<lambda>b. Ok (success, c\<lparr>clint_dev := hw_wr hw (b + MSIP_OFFSET core_id) 1 (clint_dev c)\<rparr>)))"

definition clint_config_tcmp :: "'h hw \<Rightarrow> u32 \<Rightarrow> u64 \<Rightarrow> 'h clint \<Rightarrow> (status_t \<times> 'h clint) outcome" where
  "clint_config_tcmp hw core_id v c =
     (if \<not> core_id < N_CORES then Ok (error_system_inval_cpu, c)
      else with_clint c (\<lambda>b. Ok (success, c\<lparr>clint_dev := mmio64_wr hw (b + MTCMP_OFFSET core_id) v (clint_dev c)\<rparr>)))"

primrec read_time_loop :: "nat \<Rightarrow> 'h hw \<Rightarrow> ptr \<Rightarrow> 'h \<Rightarrow> (u64 \<times> 'h) outcome" where
  "read_time_loop 0 hw b s = Hang"
| "read_time_loop (Suc fuel) hw b s =
     (let (temp, s1) = hw_rd hw (b + MTIME_OFFSET + 4) s;
          (tl, s2) = hw_rd hw (b + MTIME_OFFSET) s1;
          (th, s3) = hw_rd hw (b + MTIME_OFFSET + 4) s2
      in if temp \<noteq> th then read_time_loop fuel hw b s3
         else Ok (push_bit 32 (ucast th) OR ucast tl, s3))"

definition clint_read_time :: "nat \<Rightarrow> 'h hw \<Rightarrow> 'h clint \<Rightarrow> (u64 \<times> 'h clint) outcome" where
  "clint_read_time fuel hw c =
     with_clint c (\<lambda>b. obind (read_time_loop fuel hw b (clint_dev c)) (\<lambda>(t, s). Ok (t, c\<lparr>clint_dev := s\<rparr>)))"

section \<open>Reading the time\<close>

text \<open>The counter behind \<open>mtime\<close>: \<open>cnt\<close> is the number of ticks since reset, of which the two registers show the
  low 64 bits; an access to the device takes at most \<open>d\<close> ticks.\<close>

definition mtime_counts :: "'h hw \<Rightarrow> ptr \<Rightarrow> ('h \<Rightarrow> nat) \<Rightarrow> nat \<Rightarrow> bool" where
  "mtime_counts hw b cnt d \<longleftrightarrow>
     (\<forall>s. fst (hw_rd hw (b + MTIME_OFFSET + 4) s) = of_nat (cnt s div 4294967296))
     \<and> (\<forall>s. fst (hw_rd hw (b + MTIME_OFFSET) s) = of_nat (cnt s))
     \<and> (\<forall>s a. cnt s \<le> cnt (snd (hw_rd hw a s)) \<and> cnt (snd (hw_rd hw a s)) \<le> cnt s + d)
     \<and> (\<forall>s a v. a \<noteq> b + MTIME_OFFSET \<longrightarrow> a \<noteq> b + MTIME_OFFSET + 4 \<longrightarrow>
          cnt s \<le> cnt (hw_wr hw a v s) \<and> cnt (hw_wr hw a v s) \<le> cnt s + d)"

lemma mtime_rd:
  "mtime_counts hw b cnt d \<Longrightarrow> cnt s \<le> cnt (snd (hw_rd hw a s)) \<and> cnt (snd (hw_rd hw a s)) \<le> cnt s + d"
  by (simp add: mtime_counts_def)

lemma mtime_wr:
  "mtime_counts hw b cnt d \<Longrightarrow> a \<noteq> b + MTIME_OFFSET \<Longrightarrow> a \<noteq> b + MTIME_OFFSET + 4 \<Longrightarrow>
   cnt s \<le> cnt (hw_wr hw a v s) \<and> cnt (hw_wr hw a v s) \<le> cnt s + d"
  by (simp add: mtime_counts_def)

lemma join_halves:
  "(push_bit 32 (ucast (of_nat (c div 4294967296) :: u32)) OR ucast (of_nat c :: u32) :: u64) = of_nat c"
proof (rule bit_word_eqI)
  fix i assume "i < LENGTH(64)"
  have d: "c div 4294967296 = drop_bit 32 c" by (simp add: drop_bit_eq_div)
  show "bit (push_bit 32 (ucast (of_nat (c div 4294967296) :: u32)) OR ucast (of_nat c :: u32) :: u64) i = bit (of_nat c :: u64) i"
    using \<open>i < LENGTH(64)\<close> unfolding d
    by (auto simp: bit_simps)
qed

lemma hi_words_eq:
  assumes "a \<le> b" and "b < a + 4294967296"
    and "(of_nat (a div 4294967296) :: u32) = of_nat (b div 4294967296)"
  shows "a div 4294967296 = b div 4294967296"
proof -
  have "a div 4294967296 \<le> b div 4294967296" using assms(1) by (rule div_le_mono)
  moreover have "b div 4294967296 \<le> Suc (a div 4294967296)"
    using div_le_mono [of b "a + 4294967296" 4294967296] assms(2) by simp
  ultimately consider "b div 4294967296 = a div 4294967296" | "b div 4294967296 = Suc (a div 4294967296)"
    by linarith
  then show ?thesis
  proof cases
    case 2
    with assms(3) have "(of_nat (a div 4294967296) :: u32) = of_nat (a div 4294967296) + 1" by simp
    then show ?thesis by simp
  qed simp
qed

text \<open>One pass of the loop, as a function of the counter at its three loads.\<close>

lemma read_time_pass:
  assumes m: "mtime_counts hw b cnt d" and d: "2 * d < 4294967296"
  obtains s1 s2 s3 where
    "cnt s \<le> cnt s1" "cnt s1 \<le> cnt s2" "cnt s2 \<le> cnt s3"
    "cnt s2 \<le> cnt s + 2 * d" "cnt s3 \<le> cnt s2 + d"
    "\<And>fuel. read_time_loop (Suc fuel) hw b s =
      (if cnt s div 4294967296 = cnt s2 div 4294967296 then Ok (of_nat (cnt s1), s3)
       else read_time_loop fuel hw b s3)"
proof -
  obtain x1 s1 where 1: "hw_rd hw (b + MTIME_OFFSET + 4) s = (x1, s1)" by force
  obtain x2 s2 where 2: "hw_rd hw (b + MTIME_OFFSET) s1 = (x2, s2)" by force
  obtain x3 s3 where 3: "hw_rd hw (b + MTIME_OFFSET + 4) s2 = (x3, s3)" by force
  have x: "x1 = of_nat (cnt s div 4294967296)" "x2 = of_nat (cnt s1)" "x3 = of_nat (cnt s2 div 4294967296)"
    using m 1 2 3 unfolding mtime_counts_def by (metis fst_conv)+
  have c: "cnt s \<le> cnt s1" "cnt s1 \<le> cnt s + d" "cnt s1 \<le> cnt s2" "cnt s2 \<le> cnt s1 + d"
    "cnt s2 \<le> cnt s3" "cnt s3 \<le> cnt s2 + d"
    using mtime_rd [OF m] 1 2 3 by (metis snd_conv)+
  have e: "x1 = x3 \<longleftrightarrow> cnt s div 4294967296 = cnt s2 div 4294967296"
    using hi_words_eq [of "cnt s" "cnt s2"] c d by (auto simp: x)
  have j: "push_bit 32 (ucast x3) OR ucast x2 = (of_nat (cnt s1) :: u64)"
    if "cnt s div 4294967296 = cnt s2 div 4294967296"
  proof -
    have "cnt s1 div 4294967296 = cnt s2 div 4294967296"
      using that div_le_mono [OF c(1), of 4294967296] div_le_mono [OF c(3), of 4294967296] by linarith
    then show ?thesis using join_halves [of "cnt s1"] by (simp add: x)
  qed
  show ?thesis
    by (rule that [of s1 s2 s3]) (use c j e in \<open>simp_all add: 1 2 3\<close>)
qed

lemma same_hi_word:
  fixes c c' :: nat
  assumes "c mod 4294967296 + k < 4294967296" and "c \<le> c'" and "c' \<le> c + k"
  shows "c' div 4294967296 = c div 4294967296"
proof (rule div_nat_eqI)
  have "c = c div 4294967296 * 4294967296 + c mod 4294967296" by simp
  then show "4294967296 * (c div 4294967296) \<le> c'" and "c' < 4294967296 * Suc (c div 4294967296)"
    unfolding mult_Suc_right using assms by linarith+
qed

lemma carried_low_word:
  fixes c c' :: nat
  assumes "c \<le> c'" and "c' \<le> c + k" and "k < 4294967296"
    and "c div 4294967296 \<noteq> c' div 4294967296"
  shows "c' mod 4294967296 < k"
proof (rule ccontr)
  assume "\<not> c' mod 4294967296 < k"
  moreover have "c' = c' div 4294967296 * 4294967296 + c' mod 4294967296" by simp
  ultimately have "c' div 4294967296 * 4294967296 \<le> c" using assms(2) by linarith
  then have "c' div 4294967296 \<le> c div 4294967296" by (simp add: less_eq_div_iff_mult_less_eq)
  with div_le_mono [OF assms(1)] assms(4) show False by (meson le_antisym)
qed

lemma read_time_loop_returns:
  assumes m: "mtime_counts hw b cnt d" and d: "5 * d < 4294967296" and "2 \<le> fuel"
  shows "\<exists>c s'. read_time_loop fuel hw b s = Ok (of_nat c, s') \<and> cnt s \<le> c \<and> c \<le> cnt s' \<and> cnt s' \<le> cnt s + 6 * d"
proof -
  have d2: "2 * d < 4294967296" using d by simp
  obtain f where f: "fuel = Suc (Suc f)" using le_Suc_ex [OF assms(3)] by auto
  obtain s1 s2 s3 where 1: "cnt s \<le> cnt s1" "cnt s1 \<le> cnt s2" "cnt s2 \<le> cnt s3"
      "cnt s2 \<le> cnt s + 2 * d" "cnt s3 \<le> cnt s2 + d"
    and r1: "\<And>fuel. read_time_loop (Suc fuel) hw b s =
      (if cnt s div 4294967296 = cnt s2 div 4294967296 then Ok (of_nat (cnt s1), s3) else read_time_loop fuel hw b s3)"
    by (rule read_time_pass [OF m d2, of s]) blast
  obtain t1 t2 t3 where 2: "cnt s3 \<le> cnt t1" "cnt t1 \<le> cnt t2" "cnt t2 \<le> cnt t3"
      "cnt t2 \<le> cnt s3 + 2 * d" "cnt t3 \<le> cnt t2 + d"
    and r2: "\<And>fuel. read_time_loop (Suc fuel) hw b s3 =
      (if cnt s3 div 4294967296 = cnt t2 div 4294967296 then Ok (of_nat (cnt t1), t3) else read_time_loop fuel hw b t3)"
    by (rule read_time_pass [OF m d2, of s3]) blast
  show ?thesis
  proof (cases "cnt s div 4294967296 = cnt s2 div 4294967296")
    case True
    then show ?thesis using 1 by (intro exI [of _ "cnt s1"] exI [of _ s3]) (simp add: f r1 del: read_time_loop.simps)
  next
    case False
    have low: "cnt s2 mod 4294967296 < 2 * d"
      using carried_low_word [of "cnt s" "cnt s2" "2 * d"] 1 d2 False by simp
    have "cnt s3 div 4294967296 = cnt s2 div 4294967296" "cnt t2 div 4294967296 = cnt s2 div 4294967296"
      using 1 2 low d by (auto intro!: same_hi_word [where k = "3 * d"])
    then show ?thesis using False 1 2 by (intro exI [of _ "cnt t1"] exI [of _ t3]) (simp add: f r1 r2 del: read_time_loop.simps)
  qed
qed

lemma clint_read_time_ok:
  assumes "mtime_counts hw (clint_baddr p) cnt d" and "5 * d < 4294967296"
    and "clint_port c = Some p" and "2 \<le> fuel"
  shows "\<exists>t s'. clint_read_time fuel hw c = Ok (of_nat t, c\<lparr>clint_dev := s'\<rparr>)
    \<and> cnt (clint_dev c) \<le> t \<and> t \<le> cnt s' \<and> cnt s' \<le> cnt (clint_dev c) + 6 * d"
proof -
  obtain t s' where "read_time_loop fuel hw (clint_baddr p) (clint_dev c) = Ok (of_nat t, s')"
      "cnt (clint_dev c) \<le> t \<and> t \<le> cnt s' \<and> cnt s' \<le> cnt (clint_dev c) + 6 * d"
    using read_time_loop_returns [OF assms(1,2,4)] by blast
  then show ?thesis
    using assms(3) by (intro exI [of _ t] exI [of _ s']) (simp add: clint_read_time_def with_clint_def)
qed

text \<open>C22: the time is never torn and reading it ends: when an access to the device takes at most \<open>d\<close> ticks
  (\<open>5 * d\<close> below \<open>2 ^ 32\<close>), \<open>clint_read_time\<close> returns after at most two passes of its loop, and the value is
  the low 64 bits of the counter at a moment between the call and the return, also when the low
  word overflows meanwhile.\<close>

theorem clint_read_time_live:
  assumes "mtime_counts hw (clint_baddr p) cnt d" and "5 * d < 4294967296"
    and "clint_port c = Some p" and "2 \<le> fuel"
  shows "\<exists>t s'. clint_read_time fuel hw c = Ok (of_nat t, c\<lparr>clint_dev := s'\<rparr>)
    \<and> cnt (clint_dev c) \<le> t \<and> t \<le> cnt s' \<and> cnt s' \<le> cnt (clint_dev c) + 6 * d"
  by (rule clint_read_time_ok [OF assms])

text \<open>A counter that advances by \<open>d\<close> ticks on every access.\<close>

definition tick_hw :: "ptr \<Rightarrow> nat \<Rightarrow> nat hw" where
  "tick_hw b d = \<lparr>hw_rd = \<lambda>a n. (if a = b + MTIME_OFFSET + 4 then of_nat (n div 4294967296) else of_nat n, n + d),
     hw_wr = \<lambda>a v n. if a = b + MTIME_OFFSET \<or> a = b + MTIME_OFFSET + 4 then unat v else n + d\<rparr>"

lemma tick_hw_counts: "mtime_counts (tick_hw b d) b (\<lambda>n. n) d"
  by (simp add: mtime_counts_def tick_hw_def)

text \<open>At the witness's input the low word overflows between the loads.\<close>

theorem clint_read_time_live_witness:
  "\<exists>t. clint_read_time 2 (tick_hw 0x02000000 7)
         \<lparr>clint_port = Some \<lparr>clint_port_id = hw_clint, clint_baddr = 0x02000000, clint_stride = 0xc000\<rparr>,
          clint_dev = 4294967290\<rparr> = Ok t"
  using clint_read_time_live [OF tick_hw_counts,
      where p = "\<lparr>clint_port_id = hw_clint, clint_baddr = 0x02000000, clint_stride = 0xc000\<rparr>" and d = 7
        and fuel = 2 and c = "\<lparr>clint_port = Some \<lparr>clint_port_id = hw_clint, clint_baddr = 0x02000000, clint_stride = 0xc000\<rparr>,
          clint_dev = 4294967290\<rparr>"]
  by auto

end
