(* ===== verification/Sched_Clock.thy ===== *)
theory Sched_Clock
  imports Clint Interrupts
begin

text \<open>
  The scheduler clock: the engine \<open>driver/schedclk/schedclk.c\<close>, the SiFive driver behind it
  (\<open>driver/schedclk/schedclk_sifive\<close>, on top of the CLINT) and the users in \<open>lib/libc/time.c\<close>.

  The engine keeps one port and one flag per core. The operations of a port work on the state \<open>'s\<close> of the
  driver. The locks of the engine are not modelled: an operation runs to completion on its core.
\<close>

section \<open>The engine\<close>

record 's schedclk_t =
  sc_read_ticks :: "'s \<Rightarrow> (u64 \<times> 's) outcome"
  sc_read_time :: "'s \<Rightarrow> (u64 \<times> 's) outcome"
  sc_set_period :: "u32 \<Rightarrow> 's \<Rightarrow> 's outcome"
  sc_reg_cb :: "handler \<Rightarrow> 's \<Rightarrow> 's"

record 's schedclk_core =
  sc_port :: "u32 \<Rightarrow> 's schedclk_t option"
  schedclk_attached :: "u32 \<Rightarrow> bool"

definition schedclk_attach_device ::
  "u32 \<Rightarrow> status_t \<Rightarrow> 's schedclk_t option \<Rightarrow> 's schedclk_core \<Rightarrow> status_t \<times> 's schedclk_core" where
  "schedclk_attach_device core dev_status ptmr c =
     (let c1 = c\<lparr>sc_port := (sc_port c)(core := ptmr)\<rparr>
      in if ptmr \<noteq> None then (dev_status, c1\<lparr>schedclk_attached := (schedclk_attached c1)(core := True)\<rparr>)
         else (error_device_inval, c1))"

definition schedclk_release_device :: "u32 \<Rightarrow> 's schedclk_core \<Rightarrow> status_t \<times> 's schedclk_core" where
  "schedclk_release_device core c =
     (success, c\<lparr>sc_port := (sc_port c)(core := None), schedclk_attached := (schedclk_attached c)(core := False)\<rparr>)"

definition with_port :: "u32 \<Rightarrow> 's schedclk_core \<Rightarrow> 'a \<Rightarrow> ('s schedclk_t \<Rightarrow> 'a outcome) \<Rightarrow> 'a outcome" where
  "with_port core c dflt f =
     (if schedclk_attached c core
      then case sc_port c core of None \<Rightarrow> Fault Null_deref | Some p \<Rightarrow> f p
      else Ok dflt)"

definition schedclk_link_callback ::
  "u32 \<Rightarrow> 's schedclk_core \<Rightarrow> u32 \<Rightarrow> handler \<Rightarrow> 's \<Rightarrow> (status_t \<times> 's) outcome" where
  "schedclk_link_callback core c p cb s =
     with_port core c (error_driver_init_failed, s)
       (\<lambda>d. obind (sc_set_period d p s) (\<lambda>s1. Ok (success, sc_reg_cb d cb s1)))"

definition get_timestamp :: "u32 \<Rightarrow> 's schedclk_core \<Rightarrow> 's \<Rightarrow> (status_t \<times> u64 \<times> 's) outcome" where
  "get_timestamp core c s =
     with_port core c (error_driver_init_failed, 0, s)
       (\<lambda>d. obind (sc_read_time d s) (\<lambda>(t, s1). Ok (success, t, s1)))"

definition get_timeticks :: "u32 \<Rightarrow> 's schedclk_core \<Rightarrow> 's \<Rightarrow> (status_t \<times> u64 \<times> 's) outcome" where
  "get_timeticks core c s =
     with_port core c (error_driver_init_failed, 0, s)
       (\<lambda>d. obind (sc_read_ticks d s) (\<lambda>(t, s1). Ok (success, t, s1)))"

section \<open>The SiFive driver\<close>

record ('h, 'd) tmr =
  tmr_cb :: handler
  ticks :: u64
  tm :: "module_t option"
  tmr_clint :: "'d clint"
  tmr_sys :: "'h sys"

definition set_csrs :: "(cpu \<Rightarrow> cpu) \<Rightarrow> ('h, 'd) tmr \<Rightarrow> ('h, 'd) tmr" where
  "set_csrs f s = s\<lparr>tmr_sys := (tmr_sys s)\<lparr>csrs := f (csrs (tmr_sys s))\<rparr>\<rparr>"

definition read_time_tmr :: "nat \<Rightarrow> 'd hw \<Rightarrow> ('h, 'd) tmr \<Rightarrow> (u64 \<times> ('h, 'd) tmr) outcome" where
  "read_time_tmr fuel hw s = obind (clint_read_time fuel hw (tmr_clint s)) (\<lambda>(t, c). Ok (t, s\<lparr>tmr_clint := c\<rparr>))"

text \<open>Writing the compare register, with the panic when that fails.\<close>

definition arm :: "'d hw \<Rightarrow> u32 \<Rightarrow> u64 \<Rightarrow> ('h, 'd) tmr \<Rightarrow> ('h, 'd) tmr outcome" where
  "arm hw core v s =
     obind (clint_config_tcmp hw core v (tmr_clint s)) (\<lambda>(ret, c).
       if ret \<noteq> 0 then Fault (Panic ret) else Ok (s\<lparr>tmr_clint := c\<rparr>))"

definition plat_tmr_isr ::
  "nat \<Rightarrow> 'd hw \<Rightarrow> (handler \<Rightarrow> ('h, 'd) tmr \<Rightarrow> ('h, 'd) tmr outcome) \<Rightarrow> u32 \<Rightarrow> ('h, 'd) tmr \<Rightarrow> ('h, 'd) tmr outcome" where
  "plat_tmr_isr fuel hw run core s =
     obind (read_time_tmr fuel hw (set_csrs arch_di_mtime s)) (\<lambda>(t, s1).
     obind (arm hw core (t + ticks s1) s1) (\<lambda>s2.
     let s3 = set_csrs arch_ei_mtime s2
     in if tmr_cb s3 \<noteq> no_handler then run (tmr_cb s3) s3 else Ok s3))"

definition plat_timer_reg_cb :: "handler \<Rightarrow> ('h, 'd) tmr \<Rightarrow> ('h, 'd) tmr" where
  "plat_timer_reg_cb cb s = set_csrs arch_ei_mtime ((set_csrs arch_di_mtime s)\<lparr>tmr_cb := cb\<rparr>)"

definition plat_get_timer_prop :: "resources \<Rightarrow> ('h, 'd) tmr \<Rightarrow> (status_t \<times> ('h, 'd) tmr) outcome" where
  "plat_get_timer_prop r s =
     obind (visor_fetch r fetch_sp sched_timer 0) (\<lambda>v.
       if vr_status v \<noteq> success then Ok (vr_status v, s)
       else case vr_p v of
              P_swdev sp \<Rightarrow>
                obind (visor_fetch r fetch_dp (hwdev_id sp AND 0xff00) (hwdev_id sp AND 0xff)) (\<lambda>v'.
                  if vr_status v' \<noteq> success then Ok (vr_status v', s)
                  else case vr_p v' of
                         P_module m \<Rightarrow> Ok (success, s\<lparr>tm := Some m\<rparr>)
                       | _ \<Rightarrow> Fault Null_deref)
            | _ \<Rightarrow> Fault Null_deref)"

definition plat_get_timer_ticks_msec :: "u64 \<Rightarrow> u64" where
  "plat_get_timer_ticks_msec freq = freq div 1000"

definition plat_timer_set_period ::
  "nat \<Rightarrow> 'd hw \<Rightarrow> u32 \<Rightarrow> u32 \<Rightarrow> ('h, 'd) tmr \<Rightarrow> ('h, 'd) tmr outcome" where
  "plat_timer_set_period fuel hw core p s =
     (case tm s of
        None \<Rightarrow> Fault Null_deref
      | Some m \<Rightarrow>
          let s1 = (set_csrs arch_di_mtime s)\<lparr>ticks := plat_get_timer_ticks_msec (ucast (mod_clk m)) * ucast p\<rparr>
          in obind (read_time_tmr fuel hw s1) (\<lambda>(t, s2).
             obind (arm hw core (ticks s2 + t) s2) (\<lambda>s3. Ok (set_csrs arch_ei_mtime s3))))"

definition plat_read_time :: "nat \<Rightarrow> 'd hw \<Rightarrow> ('h, 'd) tmr \<Rightarrow> (u64 \<times> ('h, 'd) tmr) outcome" where
  "plat_read_time fuel hw s =
     obind (read_time_tmr fuel hw s) (\<lambda>(stamp, s1).
       case tm s1 of
         None \<Rightarrow> Fault Null_deref
       | Some m \<Rightarrow>
           require (mod_clk m \<noteq> 0) Div_by_zero (Ok (stamp * 1000000 div ucast (mod_clk m), s1)))"

definition plat_timer_port :: "nat \<Rightarrow> 'd hw \<Rightarrow> u32 \<Rightarrow> ('h, 'd) tmr schedclk_t" where
  "plat_timer_port fuel hw core =
     \<lparr>sc_read_ticks = read_time_tmr fuel hw, sc_read_time = plat_read_time fuel hw,
      sc_set_period = plat_timer_set_period fuel hw core, sc_reg_cb = plat_timer_reg_cb\<rparr>"

abbreviation (input) plat_tmr_isr_ptr :: handler where "plat_tmr_isr_ptr \<equiv> 5"

definition timer_irq :: "('h, 'd) tmr \<Rightarrow> irqs_t outcome" where
  "timer_irq s =
     (case tm s of
        None \<Rightarrow> Fault Null_deref
      | Some m \<Rightarrow> (case interrupt m of [] \<Rightarrow> Fault Out_of_bounds | q # _ \<Rightarrow> Ok q))"

definition plat_timer_setup ::
  "nat \<Rightarrow> 'd hw \<Rightarrow> u32 \<Rightarrow> resources \<Rightarrow> bool \<Rightarrow> ('h, 'd) tmr schedclk_core \<times> ('h, 'd) tmr
     \<Rightarrow> (status_t \<times> ('h, 'd) tmr schedclk_core \<times> ('h, 'd) tmr) outcome" where
  "plat_timer_setup fuel hw core r alloc = (\<lambda>(c, s).
     let s0 = set_csrs arch_di_mtime s
     in if \<not> alloc then Ok (error_memory_low, c, s0)
        else obind (plat_get_timer_prop r s0) (\<lambda>(ret, s1).
             obind (timer_irq s1) (\<lambda>q.
             obind (link_interrupt core (irq_module q) (irq_id q) plat_tmr_isr_ptr (tmr_sys s1)) (\<lambda>(ret1, sys).
             let ret2 = ret OR ret1;
                 (ret3, c1) = schedclk_attach_device core ret2 (Some (plat_timer_port fuel hw core)) c
             in obind (plat_timer_set_period fuel hw core 1 (s1\<lparr>tmr_sys := sys\<rparr>)) (\<lambda>s2. Ok (ret2 OR ret3, c1, s2))))))"

definition plat_timer_exit ::
  "u32 \<Rightarrow> ('h, 'd) tmr schedclk_core \<times> ('h, 'd) tmr
     \<Rightarrow> (status_t \<times> ('h, 'd) tmr schedclk_core \<times> ('h, 'd) tmr) outcome" where
  "plat_timer_exit core = (\<lambda>(c, s).
     let s1 = (set_csrs arch_di_mtime s)\<lparr>tmr_cb := no_handler, ticks := 0\<rparr>
     in obind (timer_irq s1) (\<lambda>q.
        obind (unlink_interrupt core (irq_module q) (irq_id q) (tmr_sys s1)) (\<lambda>(_, sys).
        case schedclk_release_device core c of (ret, c1) \<Rightarrow> Ok (ret, c1, s1\<lparr>tmr_sys := sys\<rparr>))))"

section \<open>Delays and the time of day\<close>

record time_t =
  t_cs :: u8
  t_s :: u8
  t_m :: u8
  t_h :: u8
  t_dd :: u32

text \<open>What happens while the core sleeps in \<open>arch_wfi\<close> is the parameter \<open>wfi\<close>.\<close>

primrec delay_loop ::
  "nat \<Rightarrow> ('s \<Rightarrow> 's) \<Rightarrow> ('s \<Rightarrow> (status_t \<times> u64 \<times> 's) outcome) \<Rightarrow> u64 \<Rightarrow> 's \<Rightarrow> (status_t \<times> 's) outcome" where
  "delay_loop 0 wfi stamp delay s = Hang"
| "delay_loop (Suc fuel) wfi stamp delay s =
     obind (stamp (wfi s)) (\<lambda>(ret, tstamp, s1).
       if delay \<ge> tstamp then delay_loop fuel wfi stamp delay s1 else Ok (ret, s1))"

definition udelay ::
  "nat \<Rightarrow> ('s \<Rightarrow> 's) \<Rightarrow> u32 \<Rightarrow> 's schedclk_core \<Rightarrow> u16 \<Rightarrow> 's \<Rightarrow> (status_t \<times> 's) outcome" where
  "udelay fuel wfi core c d s =
     (if d > 2000 then Ok (error_func_inval_arg, s)
      else let delay = (if d = 0 then 1 else ucast d)
           in obind (get_timestamp core c s) (\<lambda>(ret, tstamp, s1).
                delay_loop fuel wfi (get_timestamp core c) (delay + tstamp) s1))"

definition mdelay ::
  "nat \<Rightarrow> ('s \<Rightarrow> 's) \<Rightarrow> u32 \<Rightarrow> 's schedclk_core \<Rightarrow> u16 \<Rightarrow> 's \<Rightarrow> (status_t \<times> 's) outcome" where
  "mdelay fuel wfi core c d s =
     (if d > 10000 then Ok (error_func_inval_arg, s)
      else let delay = (if d = 0 then 1000 else ucast d * 1000)
           in obind (get_timestamp core c s) (\<lambda>(ret, tstamp, s1).
                delay_loop fuel wfi (get_timestamp core c) (delay + tstamp) s1))"

definition getTime :: "u32 \<Rightarrow> 's schedclk_core \<Rightarrow> 's \<Rightarrow> (status_t \<times> time_t \<times> 's) outcome" where
  "getTime core c s =
     obind (get_timestamp core c s) (\<lambda>(ret, tstamp, s1).
       if ret \<noteq> success then Ok (ret, \<lparr>t_cs = 0, t_s = 0, t_m = 0, t_h = 0, t_dd = 0\<rparr>, s1)
       else let t0 = tstamp div 10000; t1 = t0 div 100; t2 = t1 div 60; t3 = t2 div 60
            in Ok (ret, \<lparr>t_cs = ucast (t0 mod 100), t_s = ucast (t1 mod 60), t_m = ucast (t2 mod 60),
                         t_h = ucast (t3 mod 24), t_dd = ucast (t3 div 24)\<rparr>, s1))"

section \<open>The time of day is exact\<close>

text \<open>The fields that \<open>getTime\<close> returns are normalised and together are the timestamp in hundredths of a second,
  for every 64-bit timestamp (the day count never overflows its 32 bits).\<close>

theorem getTime_exact:
  assumes "get_timestamp core c s = Ok (success, us, s1)"
  shows "\<exists>t. getTime core c s = Ok (success, t, s1)
    \<and> t_cs t < 100 \<and> t_s t < 60 \<and> t_m t < 60 \<and> t_h t < 24
    \<and> (((unat (t_dd t) * 24 + unat (t_h t)) * 60 + unat (t_m t)) * 60 + unat (t_s t)) * 100 + unat (t_cs t)
        = unat us div 10000"
proof -
  have u: "unat us < 18446744073709551616" using unsigned_less [of us, where 'a = nat] by simp
  let ?t0 = "us div 10000" let ?t1 = "?t0 div 100" let ?t2 = "?t1 div 60" let ?t3 = "?t2 div 60"
  have dd: "unat us div 10000 div 100 div 60 div 60 div 24 < 4294967296"
    using u by (simp add: div_mult2_eq [symmetric] less_mult_imp_div_less)
  then have c: "unat (ucast (?t3 div 24) :: u32) = unat ?t3 div 24"
    by (subst ucast_small_nat) (simp_all add: unat_div)
  have n: "(((x div 100 div 60 div 60 div 24 * 24 + x div 100 div 60 div 60 mod 24) * 60 + x div 100 div 60 mod 60) * 60
      + x div 100 mod 60) * 100 + x mod 100 = x" for x :: nat
    by (simp only: div_mult_mod_eq)
  define t where "t = \<lparr>t_cs = ucast (?t0 mod 100), t_s = ucast (?t1 mod 60), t_m = ucast (?t2 mod 60),
    t_h = ucast (?t3 mod 24), t_dd = ucast (?t3 div 24)\<rparr>"
  have f: "unat (t_cs t) = unat us div 10000 mod 100" "unat (t_s t) = unat us div 10000 div 100 mod 60"
    "unat (t_m t) = unat us div 10000 div 100 div 60 mod 60" "unat (t_h t) = unat us div 10000 div 100 div 60 div 60 mod 24"
    "unat (t_dd t) = unat us div 10000 div 100 div 60 div 60 div 24"
    using c by (simp_all add: t_def ucast_mod_small unat_div)
  have "getTime core c s = Ok (success, t, s1)" using assms by (simp add: getTime_def Let_def t_def)
  moreover have "t_cs t < 100 \<and> t_s t < 60 \<and> t_m t < 60 \<and> t_h t < 24"
    by (simp add: word_less_nat_alt f)
  moreover have "(((unat (t_dd t) * 24 + unat (t_h t)) * 60 + unat (t_m t)) * 60 + unat (t_s t)) * 100 + unat (t_cs t)
      = unat us div 10000"
    unfolding f by (rule n)
  ultimately show ?thesis by blast
qed

section \<open>The periodic timer\<close>

text \<open>What the driver relies on: the CLINT is set up, its counter runs, and the compare register of the core
  keeps what is written to it.\<close>

definition timer_hw ::
  "'d hw \<Rightarrow> ('d \<Rightarrow> nat) \<Rightarrow> nat \<Rightarrow> ('d \<Rightarrow> ptr \<Rightarrow> u32) \<Rightarrow> (ptr \<Rightarrow> u32) \<Rightarrow> ptr \<Rightarrow> bool" where
  "timer_hw hw cnt d val m b \<longleftrightarrow> mtime_counts hw b cnt d \<and> 5 * d < 4294967296 \<and> stores hw val m
     \<and> m (b + MTCMP_OFFSET 0) = - 1 \<and> m (b + MTCMP_OFFSET 0 + 4) = - 1"

definition tcmp_reg :: "('d \<Rightarrow> ptr \<Rightarrow> u32) \<Rightarrow> ptr \<Rightarrow> 'd \<Rightarrow> u64" where
  "tcmp_reg val b s = push_bit 32 (ucast (val s (b + MTCMP_OFFSET 0 + 4))) OR ucast (val s (b + MTCMP_OFFSET 0))"

lemma join_words: "(push_bit 32 (ucast (ucast (drop_bit 32 v) :: u32)) OR ucast (ucast v :: u32) :: u64) = v"
  by (rule bit_word_eqI) (auto simp: bit_simps)

lemma read_time_tmr_ok:
  assumes "timer_hw hw cnt d val m (clint_baddr p)" and "clint_port (tmr_clint s) = Some p" and "2 \<le> fuel"
  shows "\<exists>t h. read_time_tmr fuel hw s = Ok (of_nat t, s\<lparr>tmr_clint := (tmr_clint s)\<lparr>clint_dev := h\<rparr>\<rparr>)
    \<and> cnt (clint_dev (tmr_clint s)) \<le> t \<and> t \<le> cnt h \<and> cnt h \<le> cnt (clint_dev (tmr_clint s)) + 6 * d"
proof -
  obtain t h where "clint_read_time fuel hw (tmr_clint s) = Ok (of_nat t, (tmr_clint s)\<lparr>clint_dev := h\<rparr>)"
    "cnt (clint_dev (tmr_clint s)) \<le> t" "t \<le> cnt h" "cnt h \<le> cnt (clint_dev (tmr_clint s)) + 6 * d"
    using clint_read_time_ok [of hw p cnt d "tmr_clint s" fuel] assms by (auto simp: timer_hw_def)
  then show ?thesis by (intro exI [of _ t] exI [of _ h]) (simp add: read_time_tmr_def)
qed

lemma arm_ok:
  assumes "timer_hw hw cnt d val m (clint_baddr p)" and "clint_port (tmr_clint s) = Some p"
  shows "\<exists>h. arm hw 0 v s = Ok (s\<lparr>tmr_clint := (tmr_clint s)\<lparr>clint_dev := h\<rparr>\<rparr>)
    \<and> tcmp_reg val (clint_baddr p) h = v \<and> cnt (clint_dev (tmr_clint s)) \<le> cnt h"
proof -
  let ?b = "clint_baddr p" and ?s = "clint_dev (tmr_clint s)"
  let ?h1 = "hw_wr hw (?b + MTCMP_OFFSET 0) (ucast v) ?s"
  let ?h = "mmio64_wr hw (?b + MTCMP_OFFSET 0) v ?s"
  have m: "mtime_counts hw ?b cnt d" "stores hw val m" "m (?b + MTCMP_OFFSET 0) = - 1" "m (?b + MTCMP_OFFSET 0 + 4) = - 1"
    using assms(1) by (simp_all add: timer_hw_def)
  have "cnt ?s \<le> cnt ?h1"
    using mtime_wr [OF m(1), of "?b + MTCMP_OFFSET 0" ?s "ucast v"] by (simp add: MTCMP_OFFSET_def MTIME_OFFSET_def)
  also have "cnt ?h1 \<le> cnt ?h"
    using mtime_wr [OF m(1), of "?b + MTCMP_OFFSET 0 + 4" ?h1 "ucast (drop_bit 32 v)"]
    by (simp add: MTCMP_OFFSET_def MTIME_OFFSET_def mmio64_wr_def)
  finally have "cnt ?s \<le> cnt ?h" .
  moreover have "tcmp_reg val ?b ?h = v"
    by (simp add: tcmp_reg_def stores_64 [OF m(2)] m(3,4) join_words)
  ultimately show ?thesis
    using assms(2) by (intro exI [of _ ?h]) (simp add: arm_def clint_config_tcmp_def with_clint_def)
qed

lemma set_csrs_frame [simp]:
  "tmr_cb (set_csrs f s) = tmr_cb s" "ticks (set_csrs f s) = ticks s" "tm (set_csrs f s) = tm s"
  "tmr_clint (set_csrs f s) = tmr_clint s" "csrs (tmr_sys (set_csrs f s)) = f (csrs (tmr_sys s))"
  by (simp_all add: set_csrs_def)

lemma mtime_enabled [simp]: "bit (mie (arch_ei_mtime c)) 7"
  by (simp add: arch_ei_mtime_def csrs_mie_def bit_simps)

text \<open>Every timer interrupt programs the next one: \<open>plat_tmr_isr\<close> reads the time \<open>t\<close>, leaves the compare register
  at \<open>t + ticks\<close> with the timer interrupt enabled, and then runs the registered callback, if there is
  one, exactly once on that state.\<close>

theorem plat_tmr_isr_rearms:
  assumes "timer_hw hw cnt d val m (clint_baddr p)" and "clint_port (tmr_clint s) = Some p" and "2 \<le> fuel"
  shows "\<exists>t s'. plat_tmr_isr fuel hw run 0 s = (if tmr_cb s = no_handler then Ok s' else run (tmr_cb s) s')
    \<and> cnt (clint_dev (tmr_clint s)) \<le> t \<and> t \<le> cnt (clint_dev (tmr_clint s'))
    \<and> tcmp_reg val (clint_baddr p) (clint_dev (tmr_clint s')) = of_nat t + ticks s
    \<and> bit (mie (csrs (tmr_sys s'))) 7
    \<and> tmr_cb s' = tmr_cb s \<and> ticks s' = ticks s \<and> tm s' = tm s \<and> clint_port (tmr_clint s') = Some p"
proof -
  let ?s0 = "set_csrs arch_di_mtime s"
  obtain t h where t: "read_time_tmr fuel hw ?s0 = Ok (of_nat t, ?s0\<lparr>tmr_clint := (tmr_clint s)\<lparr>clint_dev := h\<rparr>\<rparr>)"
    "cnt (clint_dev (tmr_clint s)) \<le> t" "t \<le> cnt h"
    using read_time_tmr_ok [OF assms(1) _ assms(3), of ?s0] assms(2) by auto
  let ?s1 = "?s0\<lparr>tmr_clint := (tmr_clint s)\<lparr>clint_dev := h\<rparr>\<rparr>"
  obtain h' where h': "arm hw 0 (of_nat t + ticks s) ?s1 = Ok (?s1\<lparr>tmr_clint := (tmr_clint s)\<lparr>clint_dev := h'\<rparr>\<rparr>)"
    "tcmp_reg val (clint_baddr p) h' = of_nat t + ticks s" "cnt h \<le> cnt h'"
    using arm_ok [OF assms(1), of ?s1 "of_nat t + ticks s"] assms(2) by auto
  let ?s2 = "set_csrs arch_ei_mtime (?s1\<lparr>tmr_clint := (tmr_clint s)\<lparr>clint_dev := h'\<rparr>\<rparr>)"
  have "plat_tmr_isr fuel hw run 0 s = (if tmr_cb s = no_handler then Ok ?s2 else run (tmr_cb s) ?s2)"
    using t(1) h'(1) by (simp add: plat_tmr_isr_def Let_def)
  then show ?thesis
    using t h' assms(2) by (intro exI [of _ t] exI [of _ ?s2]) simp
qed

text \<open>\<open>plat_timer_set_period\<close> programs the first event \<open>p\<close> times \<open>clk / 1000\<close> ticks ahead.\<close>

lemma plat_timer_set_period_ok:
  fixes period :: u32
  assumes "timer_hw hw cnt d val m (clint_baddr p)" and "clint_port (tmr_clint s) = Some p" and "2 \<le> fuel"
    and "tm s = Some dev_m"
  defines "n \<equiv> ucast (mod_clk dev_m) div 1000 * ucast period"
  shows "\<exists>t s'. plat_timer_set_period fuel hw 0 period s = Ok s' \<and> ticks s' = n
    \<and> cnt (clint_dev (tmr_clint s)) \<le> t \<and> t \<le> cnt (clint_dev (tmr_clint s'))
    \<and> tcmp_reg val (clint_baddr p) (clint_dev (tmr_clint s')) = n + of_nat t
    \<and> bit (mie (csrs (tmr_sys s'))) 7 \<and> tmr_cb s' = tmr_cb s \<and> tm s' = tm s \<and> clint_port (tmr_clint s') = Some p"
proof -
  let ?s0 = "(set_csrs arch_di_mtime s)\<lparr>ticks := n\<rparr>"
  obtain t h where t: "read_time_tmr fuel hw ?s0 = Ok (of_nat t, ?s0\<lparr>tmr_clint := (tmr_clint s)\<lparr>clint_dev := h\<rparr>\<rparr>)"
    "cnt (clint_dev (tmr_clint s)) \<le> t" "t \<le> cnt h"
    using read_time_tmr_ok [OF assms(1) _ assms(3), of ?s0] assms(2) by auto
  let ?s1 = "?s0\<lparr>tmr_clint := (tmr_clint s)\<lparr>clint_dev := h\<rparr>\<rparr>"
  obtain h' where h': "arm hw 0 (n + of_nat t) ?s1 = Ok (?s1\<lparr>tmr_clint := (tmr_clint s)\<lparr>clint_dev := h'\<rparr>\<rparr>)"
    "tcmp_reg val (clint_baddr p) h' = n + of_nat t" "cnt h \<le> cnt h'"
    using arm_ok [OF assms(1), of ?s1 "n + of_nat t"] assms(2) by auto
  let ?s2 = "set_csrs arch_ei_mtime (?s1\<lparr>tmr_clint := (tmr_clint s)\<lparr>clint_dev := h'\<rparr>\<rparr>)"
  have "plat_timer_set_period fuel hw 0 period s = Ok ?s2"
    using t(1) h'(1) assms(4) by (simp add: plat_timer_set_period_def Let_def plat_get_timer_ticks_msec_def n_def)
  then show ?thesis
    using t h' assms(2) by (intro exI [of _ t] exI [of _ ?s2]) simp
qed

text \<open>With the 32768 Hz clock of the FE310 a millisecond is 32.768 ticks, of which the driver counts 32: a period
  that is asked to be \<open>p\<close> milliseconds lasts \<open>p * 125 / 128\<close>.\<close>

lemma fe310_period_short:
  "ucast (32768 :: u32) div 1000 * ucast (p :: u32) = (32 * ucast p :: u64)"
  by simp

section \<open>Delays\<close>

text \<open>The contract of a source of timestamps as the delay loops use it: \<open>now\<close> is the true time in microseconds,
  \<open>good n\<close> says that the next \<open>n\<close> steps stay inside the range of the source. A stamp is taken between
  call and return, and sleeping takes time.\<close>

locale timestamp_source =
  fixes stamp :: "'s \<Rightarrow> (status_t \<times> u64 \<times> 's) outcome" and wfi :: "'s \<Rightarrow> 's"
    and now :: "'s \<Rightarrow> nat" and good :: "nat \<Rightarrow> 's \<Rightarrow> bool"
  assumes stamp_ok: "good (Suc n) s \<Longrightarrow> \<exists>t s'. stamp s = Ok (success, of_nat t, s') \<and> t < 2 ^ 63
      \<and> now s \<le> t \<and> t \<le> now s' \<and> good n s'"
    and wfi_ok: "good (Suc n) s \<Longrightarrow> now s < now (wfi s) \<and> good n (wfi s)"
begin

lemma delay_loop_returns:
  assumes "good (2 * Suc k + r) s" and "D \<le> now s + k" and "D < 2 ^ 64" and "Suc k \<le> fuel"
  shows "\<exists>s' r'. delay_loop fuel wfi stamp (of_nat D) s = Ok (success, s') \<and> D < now s' \<and> r \<le> r' \<and> good r' s'"
  using assms
proof (induction k arbitrary: fuel s)
  case (0 fuel s)
  obtain f where f: "fuel = Suc f" using "0.prems"(4) by (cases fuel) auto
  have w: "now s < now (wfi s)" "good (Suc r) (wfi s)" using wfi_ok [of "Suc r" s] "0.prems"(1) by (simp_all add: numeral_2_eq_2)
  obtain t s' where t: "stamp (wfi s) = Ok (success, of_nat t, s')" "t < 2 ^ 63" "now (wfi s) \<le> t" "t \<le> now s'" "good r s'"
    using stamp_ok [OF w(2)] by auto
  have "\<not> (of_nat t :: u64) \<le> of_nat D" using "0.prems" w t by (simp add: word_le_nat_alt unat_of_nat)
  then show ?case using t w "0.prems"(2) by (auto simp: f)
next
  case (Suc k fuel s)
  obtain f where f: "fuel = Suc f" using Suc.prems(4) by (cases fuel) auto
  have w: "now s < now (wfi s)" "good (Suc (2 * Suc k + r)) (wfi s)"
    using wfi_ok [of "Suc (2 * Suc k + r)" s] Suc.prems(1) by simp_all
  obtain t s' where t: "stamp (wfi s) = Ok (success, of_nat t, s')" "t < 2 ^ 63" "now (wfi s) \<le> t" "t \<le> now s'"
    "good (2 * Suc k + r) s'"
    using stamp_ok [OF w(2)] by auto
  have cmp: "(of_nat t :: u64) \<le> of_nat D \<longleftrightarrow> t \<le> D"
    using Suc.prems(3) t(2) by (simp add: word_le_nat_alt unat_of_nat)
  show ?case
  proof (cases "t \<le> D")
    case True
    then show ?thesis using Suc.IH [OF t(5), of f] Suc.prems(2-4) w t cmp by (simp add: f)
  next
    case False
    then have "delay_loop fuel wfi stamp (of_nat D) s = Ok (success, s')" "D < now s'" using t cmp by (simp_all add: f)
    then show ?thesis using t(5) le_add2 [of r "2 * Suc k"] by blast
  qed
qed

lemma delay_waits:
  assumes "good (Suc (2 * Suc k + r)) s" and "k \<le> 10000000" and "Suc k \<le> fuel"
  shows "\<exists>s' r'. obind (stamp s) (\<lambda>(ret, t, s1). delay_loop fuel wfi stamp (of_nat k + t) s1) = Ok (success, s')
    \<and> now s + k < now s' \<and> r \<le> r' \<and> good r' s'"
proof -
  obtain t s1 where t: "stamp s = Ok (success, of_nat t, s1)" "t < 2 ^ 63" "now s \<le> t" "t \<le> now s1" "good (2 * Suc k + r) s1"
    using stamp_ok [OF assms(1)] by auto
  have "\<exists>s' r'. delay_loop fuel wfi stamp (of_nat (k + t)) s1 = Ok (success, s') \<and> k + t < now s' \<and> r \<le> r' \<and> good r' s'"
    by (rule delay_loop_returns [OF t(5) _ _ assms(3)]) (use t assms(2) in simp_all)
  then show ?thesis using t(1,3) by fastforce
qed

end

text \<open>The platform timer is such a source. While the core sleeps at least one and at most \<open>w\<close> ticks pass, and the
  interrupts that are handled keep the driver set up.\<close>

definition now_us :: "('d \<Rightarrow> nat) \<Rightarrow> ('h, 'd) tmr \<Rightarrow> nat" where
  "now_us cnt s = cnt (clint_dev (tmr_clint s)) * 1000000 div unat (mod_clk (the (tm s)))"

definition sleeps :: "(('h, 'd) tmr \<Rightarrow> ('h, 'd) tmr) \<Rightarrow> ('d \<Rightarrow> nat) \<Rightarrow> nat \<Rightarrow> bool" where
  "sleeps wfi cnt w \<longleftrightarrow>
     (\<forall>s. tm (wfi s) = tm s \<and> clint_port (tmr_clint (wfi s)) = clint_port (tmr_clint s)
        \<and> cnt (clint_dev (tmr_clint s)) < cnt (clint_dev (tmr_clint (wfi s)))
        \<and> cnt (clint_dev (tmr_clint (wfi s))) \<le> cnt (clint_dev (tmr_clint s)) + w)"

definition clock_good ::
  "nat \<Rightarrow> 'd hw \<Rightarrow> ('d \<Rightarrow> nat) \<Rightarrow> nat \<Rightarrow> ('d \<Rightarrow> ptr \<Rightarrow> u32) \<Rightarrow> (ptr \<Rightarrow> u32) \<Rightarrow> ('h, 'd) tmr schedclk_core
     \<Rightarrow> (('h, 'd) tmr \<Rightarrow> ('h, 'd) tmr) \<Rightarrow> nat \<Rightarrow> nat \<Rightarrow> ('h, 'd) tmr \<Rightarrow> bool" where
  "clock_good fuel hw cnt d val m c wfi w n s \<longleftrightarrow>
     schedclk_attached c 0 \<and> sc_port c 0 = Some (plat_timer_port fuel hw 0) \<and> 2 \<le> fuel
     \<and> sleeps wfi cnt w \<and> 6 * d \<le> w
     \<and> (\<exists>p. clint_port (tmr_clint s) = Some p \<and> timer_hw hw cnt d val m (clint_baddr p))
     \<and> (\<exists>k. tm s = Some k \<and> 0 < mod_clk k \<and> mod_clk k \<le> 1000000)
     \<and> (cnt (clint_dev (tmr_clint s)) + n * w) * 1000000 < 2 ^ 63"

lemma tick_progress:
  fixes c c' k :: nat
  assumes "c < c'" and "0 < k" and "k \<le> 1000000"
  shows "c * 1000000 div k < c' * 1000000 div k"
proof -
  have "Suc (c * 1000000 div k) = (c * 1000000 + k) div k" using assms(2) by (simp add: div_add_self2)
  also have "\<dots> \<le> c' * 1000000 div k" using assms(1,3) by (intro div_le_mono) simp
  finally show ?thesis by simp
qed

lemma unat_us_stamp:
  assumes "t * 1000000 < 2 ^ 63" and "0 < k"
  shows "(of_nat t * 1000000 div ucast k :: u64) = of_nat (t * 1000000 div unat (k :: u32))"
proof (rule word_unat_eq_iff [THEN iffD2])
  have "unat (of_nat t * 1000000 :: u64) = t * 1000000"
    using assms(1) unat_of_nat [of "t * 1000000", where 'a = 64] by simp
  moreover have "unat (ucast k :: u64) = unat k"
    using unat_lt_32 [of k] by (intro ucast_small_nat) simp
  moreover have "t * 1000000 div unat k < 2 ^ 64"
    by (rule le_less_trans [OF div_le_dividend]) (use assms(1) in simp)
  ultimately show "unat (of_nat t * 1000000 div ucast k :: u64) = unat (of_nat (t * 1000000 div unat k) :: u64)"
    by (simp add: unat_div unat_of_nat)
qed

interpretation plat_clock: timestamp_source "get_timestamp 0 c" wfi "now_us cnt" "clock_good fuel hw cnt d val m c wfi w"
  for c wfi cnt fuel hw d val m w
proof (unfold_locales, goal_cases)
  case (1 n s)
  then obtain p k where s: "schedclk_attached c 0" "sc_port c 0 = Some (plat_timer_port fuel hw 0)" "2 \<le> fuel" "6 * d \<le> w"
    "clint_port (tmr_clint s) = Some p" "timer_hw hw cnt d val m (clint_baddr p)"
    "tm s = Some k" "0 < mod_clk k" "(cnt (clint_dev (tmr_clint s)) + Suc n * w) * 1000000 < 2 ^ 63"
    by (auto simp: clock_good_def)
  obtain t h where t: "read_time_tmr fuel hw s = Ok (of_nat t, s\<lparr>tmr_clint := (tmr_clint s)\<lparr>clint_dev := h\<rparr>\<rparr>)"
    "cnt (clint_dev (tmr_clint s)) \<le> t" "t \<le> cnt h" "cnt h \<le> cnt (clint_dev (tmr_clint s)) + 6 * d"
    using read_time_tmr_ok [OF s(6,5,3)] by blast
  let ?s = "s\<lparr>tmr_clint := (tmr_clint s)\<lparr>clint_dev := h\<rparr>\<rparr>" and ?t = "t * 1000000 div unat (mod_clk k)"
  have b: "(cnt h + n * w) * 1000000 < 2 ^ 63" using s(4,9) t(4) by (simp add: algebra_simps)
  then have tb: "t * 1000000 < 2 ^ 63" using t(3) by (simp add: algebra_simps)
  have "get_timestamp 0 c s = Ok (success, of_nat ?t, ?s)"
    using s t(1) unat_us_stamp [OF tb s(8)]
    by (simp add: get_timestamp_def with_port_def plat_timer_port_def plat_read_time_def word_gt_0)
  moreover have "?t < 2 ^ 63" using tb div_le_dividend [of "t * 1000000" "unat (mod_clk k)"] by linarith
  moreover have "now_us cnt s \<le> ?t" "?t \<le> now_us cnt ?s"
    using s(7) t(2,3) by (simp_all add: now_us_def div_le_mono)
  moreover have "clock_good fuel hw cnt d val m c wfi w n ?s" using 1 s(7) b by (auto simp: clock_good_def)
  ultimately show ?case by blast
next
  case (2 n s)
  then obtain k where s: "sleeps wfi cnt w" "tm s = Some k" "0 < mod_clk k" "mod_clk k \<le> 1000000"
    "(cnt (clint_dev (tmr_clint s)) + Suc n * w) * 1000000 < 2 ^ 63"
    by (auto simp: clock_good_def)
  then have w: "tm (wfi s) = tm s" "clint_port (tmr_clint (wfi s)) = clint_port (tmr_clint s)"
    "cnt (clint_dev (tmr_clint s)) < cnt (clint_dev (tmr_clint (wfi s)))"
    "cnt (clint_dev (tmr_clint (wfi s))) \<le> cnt (clint_dev (tmr_clint s)) + w"
    by (simp_all add: sleeps_def)
  have "now_us cnt s < now_us cnt (wfi s)"
    using tick_progress [OF w(3), of "unat (mod_clk k)"] s(2-4) w(1)
    by (simp add: now_us_def word_less_nat_alt word_le_nat_alt)
  moreover have "(cnt (clint_dev (tmr_clint (wfi s))) + n * w) * 1000000 < 2 ^ 63"
    using s(5) w(4) by (simp add: algebra_simps)
  then have "clock_good fuel hw cnt d val m c wfi w n (wfi s)" using 2 w(1,2) by (auto simp: clock_good_def)
  ultimately show ?case by blast
qed

text \<open>\<open>good r\<close> after the call: the clock stays in range for the \<open>r\<close> steps that were left over.\<close>

lemma mdelay_returns:
  fixes ms :: u16
  defines "us \<equiv> (if ms = 0 then 1000 else unat ms * 1000)"
  assumes "clock_good f hw cnt d val m c wfi w (Suc (2 * Suc us + r)) s" and "ms \<le> 10000" and "Suc us \<le> fuel"
  shows "\<exists>s' r'. mdelay fuel wfi 0 c ms s = Ok (success, s') \<and> now_us cnt s + us < now_us cnt s'
    \<and> r \<le> r' \<and> clock_good f hw cnt d val m c wfi w r' s'"
proof -
  have ms: "unat ms \<le> 10000" using assms(3) by (simp add: word_le_nat_alt)
  have "(of_nat us :: u64) = (if ms = 0 then 1000 else ucast ms * 1000)"
    by (simp add: us_def of_nat_unat_ucast)
  moreover have "us \<le> 10000000" using ms by (simp add: us_def)
  ultimately show ?thesis
    using plat_clock.delay_waits [OF assms(2) _ assms(4)] assms(3) by (simp add: mdelay_def Let_def not_less)
qed

text \<open>C18: \<open>mdelay\<close> returns, with success, after more than the requested time (one millisecond for an argument of 0)
  has passed, when the platform timer is attached and sleeping takes at least one tick.\<close>

theorem mdelay_waits:
  fixes ms :: u16
  defines "us \<equiv> (if ms = 0 then 1000 else unat ms * 1000)"
  assumes "clock_good f hw cnt d val m c wfi w (Suc (2 * Suc us)) s" and "ms \<le> 10000" and "Suc us \<le> fuel"
  shows "\<exists>s'. mdelay fuel wfi 0 c ms s = Ok (success, s') \<and> now_us cnt s + us < now_us cnt s'"
  using mdelay_returns [of f hw cnt d val m c wfi w ms 0 s fuel] assms(2-4) by (auto simp: us_def)

text \<open>Without an attached timer a delay never ends: \<open>get_timestamp\<close> reports its error and leaves the
  timestamp 0, which the loop takes for a time that has not come yet; neither function looks at the error.\<close>

theorem delays_hang_without_timer:
  assumes "\<not> schedclk_attached c core" and "us \<le> 2000" and "ms \<le> 10000"
  shows "udelay fuel wfi core c us s = Hang \<and> mdelay fuel wfi core c ms s = Hang"
proof -
  have "delay_loop fuel wfi (get_timestamp core c) D s = Hang" for D s
    using assms(1) by (induction fuel arbitrary: s) (simp_all add: get_timestamp_def with_port_def)
  then show ?thesis
    using assms by (simp add: udelay_def mdelay_def get_timestamp_def with_port_def Let_def not_less)
qed

section \<open>A concrete machine\<close>

text \<open>A CLINT at its FE310 address whose counter advances by one on every access, with plain compare registers.\<close>

definition demo_clint_hw :: "(nat \<times> (ptr \<Rightarrow> u32)) hw" where
  "demo_clint_hw =
     \<lparr>hw_rd = \<lambda>a (n, r). (if a = 0x0200bffc then of_nat (n div 4294967296) else if a = 0x0200bff8 then of_nat n else r a, (Suc n, r)),
      hw_wr = \<lambda>a v (n, r). (Suc n, r(a := v))\<rparr>"

definition demo_mask :: "ptr \<Rightarrow> u32" where
  "demo_mask a = (if a = 0x0200bffc \<or> a = 0x0200bff8 then 0 else - 1)"

definition demo_val :: "nat \<times> (ptr \<Rightarrow> u32) \<Rightarrow> ptr \<Rightarrow> u32" where
  "demo_val s a = snd s a AND demo_mask a"

definition demo_clint_port :: clint_port_t where
  "demo_clint_port = \<lparr>clint_port_id = hw_clint, clint_baddr = 0x02000000, clint_stride = 0xc000\<rparr>"

definition demo_tmr :: "(u32, nat \<times> (ptr \<Rightarrow> u32)) tmr" where
  "demo_tmr = \<lparr>tmr_cb = 9, ticks = 32, tm = Some (fe310_modules ! 6),
     tmr_clint = \<lparr>clint_port = Some demo_clint_port, clint_dev = (100, \<lambda>_. 0)\<rparr>, tmr_sys = demo_sys\<rparr>"

definition demo_schedclk :: "(u32, nat \<times> (ptr \<Rightarrow> u32)) tmr schedclk_core" where
  "demo_schedclk = \<lparr>sc_port = \<lambda>_. Some (plat_timer_port 2 demo_clint_hw 0), schedclk_attached = \<lambda>_. True\<rparr>"

definition demo_wfi :: "(u32, nat \<times> (ptr \<Rightarrow> u32)) tmr \<Rightarrow> (u32, nat \<times> (ptr \<Rightarrow> u32)) tmr" where
  "demo_wfi s = s\<lparr>tmr_clint := (tmr_clint s)\<lparr>clint_dev := map_prod (\<lambda>n. n + 40) id (clint_dev (tmr_clint s))\<rparr>\<rparr>"

lemma demo_timer_hw: "timer_hw demo_clint_hw fst 1 demo_val demo_mask (clint_baddr demo_clint_port)"
  by (auto simp: timer_hw_def mtime_counts_def demo_clint_hw_def demo_clint_port_def MTIME_OFFSET_def MTCMP_OFFSET_def
      stores_def demo_val_def demo_mask_def fun_eq_iff split: prod.split)

lemma demo_clock_good:
  "n < 10000000 \<Longrightarrow> clock_good 2 demo_clint_hw fst 1 demo_val demo_mask demo_schedclk demo_wfi 40 n demo_tmr"
  using demo_timer_hw
  by (auto simp: clock_good_def demo_schedclk_def demo_tmr_def sleeps_def demo_wfi_def fe310_modules_def)

theorem getTime_exact_witness:
  "\<exists>t s1. getTime 0 demo_schedclk demo_tmr = Ok (success, t, s1) \<and> t_h t < 24"
proof -
  obtain us s1 where "get_timestamp 0 demo_schedclk demo_tmr = Ok (success, us, s1)"
    using plat_clock.stamp_ok [OF demo_clock_good [of "Suc 0"]] by auto
  from getTime_exact [OF this] show ?thesis by blast
qed

theorem plat_tmr_isr_rearms_witness:
  "\<exists>s'. plat_tmr_isr 2 demo_clint_hw (\<lambda>h s. Ok s) 0 demo_tmr = Ok s' \<and> bit (mie (csrs (tmr_sys s'))) 7"
  using plat_tmr_isr_rearms [OF demo_timer_hw, of demo_tmr 2 "\<lambda>h s. Ok s"] by (auto simp: demo_tmr_def)

theorem mdelay_waits_witness:
  "\<exists>s'. mdelay 5000 demo_wfi 0 demo_schedclk 3 demo_tmr = Ok (success, s') \<and> now_us fst demo_tmr + 3000 < now_us fst s'"
  using mdelay_waits [where ms = 3 and fuel = 5000, OF demo_clock_good] by simp

theorem delays_hang_without_timer_witness:
  "mdelay 100 (\<lambda>s. s) 0 \<lparr>sc_port = \<lambda>_. None, schedclk_attached = \<lambda>_. False\<rparr> 5 () = Hang"
  using delays_hang_without_timer [of "\<lparr>sc_port = \<lambda>_. None, schedclk_attached = \<lambda>_. False\<rparr>" 0 5 5 100
      "\<lambda>s. s" "()"] by simp

end
