(* ===== verification/Prci.thy ===== *)
theory Prci
  imports Clint Nmath
begin

text \<open>
  The power, reset, clock and interrupt block of the FE310 (\<open>platform/sifive/common_fe310/hal/prci\<close>): the two
  oscillators (\<open>hfosc.c\<close>) and the PLL (\<open>pll.c\<close>). The PLL driver searches all divider settings for the output
  nearest to a frequency; \<open>pll_reach\<close> is the specification of that search. The traces of \<open>sysdbg\<close> are left out.
\<close>

definition ICLK :: u32 where "ICLK = 72000000"

abbreviation (input) HFROSCCFG_OFFSET :: u32 where "HFROSCCFG_OFFSET \<equiv> 0x00"
abbreviation (input) HFXOSCCFG_OFFSET :: u32 where "HFXOSCCFG_OFFSET \<equiv> 0x04"
abbreviation (input) PLLCFG_OFFSET :: u32 where "PLLCFG_OFFSET \<equiv> 0x08"
abbreviation (input) PLLOUTDIV_OFFSET :: u32 where "PLLOUTDIV_OFFSET \<equiv> 0x0c"

abbreviation (input) HFROSCDIV_MASK :: u32 where "HFROSCDIV_MASK \<equiv> 63"
abbreviation (input) PLLR_MASK :: u32 where "PLLR_MASK \<equiv> 7"
abbreviation (input) PLLF_MASK :: u32 where "PLLF_MASK \<equiv> 0x3f0"
abbreviation (input) PLLQ_MASK :: u32 where "PLLQ_MASK \<equiv> 0xc00"
abbreviation (input) PLLOUTDIV_MASK :: u32 where "PLLOUTDIV_MASK \<equiv> 63"

abbreviation (input) MAX_PLL_OUT :: u32 where "MAX_PLL_OUT \<equiv> 320000000"
abbreviation (input) MIN_PLL_OUT :: u32 where "MIN_PLL_OUT \<equiv> 375000"
abbreviation (input) MIN_REFR :: u32 where "MIN_REFR \<equiv> 6000000"
abbreviation (input) MAX_REFR :: u32 where "MAX_REFR \<equiv> 12000000"
abbreviation (input) MIN_VCO :: u32 where "MIN_VCO \<equiv> 384000000"
abbreviation (input) MAX_VCO :: u32 where "MAX_VCO \<equiv> 768000000"
abbreviation (input) MIN_PLLO :: u32 where "MIN_PLLO \<equiv> 48000000"
abbreviation (input) MAX_PLLO :: u32 where "MAX_PLLO \<equiv> 384000000"

record sysclk_port_t =
  sp_port_id :: u32
  sp_base_clk :: u32
  sp_baddr :: u32
  sp_stride :: u32
  sp_type :: u32

section \<open>The oscillators\<close>

definition prci_hfxocs_enable :: "nat \<Rightarrow> 'd hw \<Rightarrow> sysclk_port_t \<Rightarrow> 'd \<Rightarrow> (status_t \<times> 'd) outcome" where
  "prci_hfxocs_enable fuel hw port s =
     (let a = sp_baddr port + HFXOSCCFG_OFFSET
      in obind (poll_while fuel hw a (\<lambda>x. x AND push_bit 31 1 = 0) (mmio_or hw a (push_bit 30 1) s)) (\<lambda>s1.
           case hw_rd hw a s1 of (x, s2) \<Rightarrow> Ok (if x AND push_bit 30 1 \<noteq> 0 then success else error_system, s2)))"

definition prci_hfxocs_disable :: "'d hw \<Rightarrow> sysclk_port_t \<Rightarrow> 'd \<Rightarrow> status_t \<times> 'd" where
  "prci_hfxocs_disable hw port s =
     (let a = sp_baddr port + HFXOSCCFG_OFFSET
      in case hw_rd hw a (mmio_and hw a (NOT (push_bit 30 1)) s) of
           (x, s2) \<Rightarrow> (if x AND push_bit 30 1 \<noteq> 0 then error_system else success, s2))"

definition prci_hfosc_enable :: "nat \<Rightarrow> 'd hw \<Rightarrow> sysclk_port_t \<Rightarrow> 'd \<Rightarrow> (status_t \<times> 'd) outcome" where
  "prci_hfosc_enable fuel hw port s =
     (let a = sp_baddr port + HFROSCCFG_OFFSET
      in obind (poll_while fuel hw a (\<lambda>x. x AND push_bit 31 1 = 0) (mmio_or hw a (push_bit 30 1) s)) (\<lambda>s1.
           case hw_rd hw a s1 of (x, s2) \<Rightarrow> Ok (if x AND push_bit 30 1 \<noteq> 0 then success else error_system, s2)))"

definition prci_hfosc_disable :: "'d hw \<Rightarrow> sysclk_port_t \<Rightarrow> 'd \<Rightarrow> status_t \<times> 'd" where
  "prci_hfosc_disable hw port s =
     (let a = sp_baddr port + HFROSCCFG_OFFSET
      in case hw_rd hw a (mmio_and hw a (NOT (push_bit 30 1)) s) of
           (x, s2) \<Rightarrow> (if x AND push_bit 30 1 \<noteq> 0 then error_system else success, s2))"

definition prci_hfosc_set_clk :: "nat \<Rightarrow> 'd hw \<Rightarrow> sysclk_port_t \<Rightarrow> u32 \<Rightarrow> 'd \<Rightarrow> (status_t \<times> 'd) outcome" where
  "prci_hfosc_set_clk fuel hw port clk s =
     require (clk \<noteq> 0) Div_by_zero
       (let divdr = ICLK div clk - 1; a = sp_baddr port + HFROSCCFG_OFFSET
        in case hw_rd hw a s of (x, s1) \<Rightarrow>
             obind (poll_while fuel hw a (\<lambda>x. x AND push_bit 31 1 = 0)
                     (hw_wr hw a ((x AND NOT HFROSCDIV_MASK) OR (divdr AND HFROSCDIV_MASK)) s1)) (\<lambda>s2.
               case hw_rd hw a s2 of
                 (y, s3) \<Rightarrow> Ok (if y AND HFROSCDIV_MASK = divdr then success else error_system, s3)))"

text \<open>Compiled with \<open>OEM\<close> only. The trim is not masked before it is stored.\<close>

abbreviation (input) HFROSCTRIM_MASK :: u32 where "HFROSCTRIM_MASK \<equiv> 0xff0000"

definition prci_hfosc_set_trim :: "nat \<Rightarrow> 'd hw \<Rightarrow> sysclk_port_t \<Rightarrow> u32 \<Rightarrow> 'd \<Rightarrow> (status_t \<times> 'd) outcome" where
  "prci_hfosc_set_trim fuel hw port trim s =
     (let a = sp_baddr port + HFROSCCFG_OFFSET
      in case hw_rd hw a s of (x, s1) \<Rightarrow>
           obind (poll_while fuel hw a (\<lambda>x. x AND push_bit 31 1 = 0)
                   (hw_wr hw a ((x AND NOT HFROSCTRIM_MASK) OR push_bit 16 trim) s1)) (\<lambda>s2.
             case hw_rd hw a s2 of
               (y, s3) \<Rightarrow> Ok (if drop_bit 16 (y AND HFROSCTRIM_MASK) = trim then success else error_system, s3)))"

definition prci_hfosc_get_clk :: "'d hw \<Rightarrow> sysclk_port_t \<Rightarrow> 'd \<Rightarrow> status_t \<times> u32 \<times> 'd" where
  "prci_hfosc_get_clk hw port s =
     (case hw_rd hw (sp_baddr port + HFROSCCFG_OFFSET) s of
        (x, s1) \<Rightarrow> (success, ICLK div ((x AND HFROSCDIV_MASK) + 1), s1))"

section \<open>The PLL\<close>

record pllc_t =
  found :: u8
  pll_r :: u8
  pll_f :: u8
  pll_q :: u8
  diven :: u8
  pll_n :: u8

definition no_config :: pllc_t where
  "no_config = \<lparr>found = 0, pll_r = 0, pll_f = 0, pll_q = 0, diven = 0, pll_n = 0\<rparr>"

text \<open>\<open>abs((int)(a - b))\<close>\<close>

definition udiff :: "u32 \<Rightarrow> u32 \<Rightarrow> u32" where
  "udiff a b = word_of_int (abs_c (sint (a - b)))"

text \<open>The body of the innermost loop.\<close>

definition pll_try :: "u32 \<Rightarrow> u32 \<Rightarrow> nat \<Rightarrow> nat \<Rightarrow> nat \<Rightarrow> nat \<Rightarrow> u32 \<times> pllc_t \<Rightarrow> u32 \<times> pllc_t" where
  "pll_try clk pllout ri fi qi ni = (\<lambda>(nearest, config).
     let n = 2 * (of_nat ni + 1);
         diff_div = udiff clk (pllout div n);
         diff_nodiv = udiff clk pllout;
         (diff, dv) = (if diff_div < diff_nodiv then (diff_div, n) else (diff_nodiv, 1))
     in if diff < nearest
        then (diff, \<lparr>found = 1, pll_r = of_nat ri, pll_f = of_nat fi, pll_q = of_nat qi,
                     diven = (if dv > 1 then 1 else 0), pll_n = of_nat ni\<rparr>)
        else (nearest, config))"

definition pll_qloop :: "u32 \<Rightarrow> u32 \<Rightarrow> nat \<Rightarrow> nat \<Rightarrow> u32 \<times> pllc_t \<Rightarrow> u32 \<times> pllc_t" where
  "pll_qloop clk vco ri fi =
     fold (\<lambda>qi acc.
       let pllout = vco div push_bit qi 1
       in if pllout < MIN_PLLO \<or> pllout > MAX_PLLO then acc
          else fold (pll_try clk pllout ri fi qi) [0 ..< 64] acc) [1 ..< 4]"

definition pll_floop :: "u32 \<Rightarrow> u32 \<Rightarrow> nat \<Rightarrow> u32 \<times> pllc_t \<Rightarrow> u32 \<times> pllc_t" where
  "pll_floop clk refr ri =
     fold (\<lambda>fi acc.
       let vco = refr * (2 * (of_nat fi + 1))
       in if vco < MIN_VCO \<or> vco > MAX_VCO then acc else pll_qloop clk vco ri fi acc) [0 ..< 64]"

definition pll_config_for_nearest_freq :: "u32 \<Rightarrow> u32 \<Rightarrow> pllc_t outcome" where
  "pll_config_for_nearest_freq base clk =
     require (clk \<ge> MIN_PLL_OUT \<and> clk \<le> MAX_PLL_OUT) Assert_failed
       (Ok (snd (fold (\<lambda>ri acc.
          let refr = base div (of_nat ri + 1)
          in if refr < MIN_REFR \<or> refr > MAX_REFR then acc else pll_floop clk refr ri acc) [0 ..< 8]
          (MAX_PLL_OUT, no_config))))"

definition prci_pll_get_clk :: "sysclk_port_t \<Rightarrow> pllc_t \<Rightarrow> status_t \<times> u32 option" where
  "prci_pll_get_clk port config =
     (if found config = 0 then (error_system_clk_caliberation, None)
      else let refr = sp_base_clk port div (ucast (pll_r config) + 1);
               vco = refr * (2 * (ucast (pll_f config) + 1));
               pllout = vco div push_bit (unat (pll_q config)) 1
           in (success, Some (if diven config \<noteq> 0 then pllout div (2 * (ucast (pll_n config) + 1)) else pllout)))"

text \<open>Both waits of \<open>prci_pll_wait_to_lock\<close>: ten ticks of the CLINT, then as long as bit \<open>PLLLOCK\<close> is set.\<close>

primrec pll_settle :: "nat \<Rightarrow> 'd hw \<Rightarrow> u64 \<Rightarrow> 'd clint \<Rightarrow> 'd clint outcome" where
  "pll_settle 0 hw t c = Hang"
| "pll_settle (Suc fuel) hw t c =
     obind (clint_read_time (Suc fuel) hw c) (\<lambda>(u, c1).
       if (ucast (u - t) :: u32) < 10 then pll_settle fuel hw t c1 else Ok c1)"

definition prci_pll_wait_to_lock :: "nat \<Rightarrow> 'd hw \<Rightarrow> sysclk_port_t \<Rightarrow> 'd clint \<Rightarrow> 'd clint outcome" where
  "prci_pll_wait_to_lock fuel hw port c =
     obind (clint_read_time fuel hw c) (\<lambda>(t, c1).
     obind (pll_settle fuel hw t c1) (\<lambda>c2.
     obind (poll_while fuel hw (sp_baddr port + PLLCFG_OFFSET) (\<lambda>x. x AND push_bit 31 1 \<noteq> 0) (clint_dev c2)) (\<lambda>s.
     Ok (c2\<lparr>clint_dev := s\<rparr>))))"

definition prci_pll_write_config :: "'d hw \<Rightarrow> sysclk_port_t \<Rightarrow> pllc_t \<Rightarrow> 'd \<Rightarrow> 'd" where
  "prci_pll_write_config hw port conf s =
     (if found conf = 0 then s
      else let ad = sp_baddr port + PLLOUTDIV_OFFSET; ac = sp_baddr port + PLLCFG_OFFSET;
               s1 = (if diven conf \<noteq> 0
                     then mmio_update hw ad (\<lambda>v. (v OR (ucast (pll_n conf) AND PLLOUTDIV_MASK)) AND NOT (push_bit 8 1)) s
                     else mmio_or hw ad (push_bit 8 1) s)
           in mmio_update hw ac (\<lambda>v. (v AND NOT (PLLR_MASK OR PLLF_MASK OR PLLQ_MASK))
                OR (ucast (pll_r conf) AND PLLR_MASK) OR (push_bit 4 (ucast (pll_f conf)) AND PLLF_MASK)
                OR (push_bit 10 (ucast (pll_q conf)) AND PLLQ_MASK)) s1)"

text \<open>The static array \<open>pllc\<close> holds one configuration per core; here the one of the calling core.\<close>

definition prci_pll_set_clk ::
  "nat \<Rightarrow> 'd hw \<Rightarrow> sysclk_port_t \<Rightarrow> u32 \<Rightarrow> 'd clint \<Rightarrow> (pllc_t \<times> 'd clint) outcome" where
  "prci_pll_set_clk fuel hw port clk c =
     obind (pll_config_for_nearest_freq (sp_base_clk port) clk) (\<lambda>conf.
     obind (prci_pll_wait_to_lock fuel hw port (c\<lparr>clint_dev := prci_pll_write_config hw port conf (clint_dev c)\<rparr>))
       (\<lambda>c1. Ok (conf, c1)))"

definition prci_pll_select_xosc :: "'d hw \<Rightarrow> sysclk_port_t \<Rightarrow> 'd \<Rightarrow> 'd" where
  "prci_pll_select_xosc hw port = mmio_or hw (sp_baddr port + PLLCFG_OFFSET) (push_bit 17 1)"

definition prci_pll_select_rosc :: "'d hw \<Rightarrow> sysclk_port_t \<Rightarrow> 'd \<Rightarrow> 'd" where
  "prci_pll_select_rosc hw port = mmio_and hw (sp_baddr port + PLLCFG_OFFSET) (NOT (push_bit 17 1))"

definition prci_pll_select_pll :: "'d hw \<Rightarrow> sysclk_port_t \<Rightarrow> 'd \<Rightarrow> 'd" where
  "prci_pll_select_pll hw port = mmio_or hw (sp_baddr port + PLLCFG_OFFSET) (push_bit 16 1)"

definition prci_pll_deselect_pll :: "'d hw \<Rightarrow> sysclk_port_t \<Rightarrow> 'd \<Rightarrow> 'd" where
  "prci_pll_deselect_pll hw port = mmio_and hw (sp_baddr port + PLLCFG_OFFSET) (NOT (push_bit 16 1))"

definition prci_pll_bypass :: "'d hw \<Rightarrow> sysclk_port_t \<Rightarrow> 'd \<Rightarrow> 'd" where
  "prci_pll_bypass hw port = mmio_or hw (sp_baddr port + PLLCFG_OFFSET) (push_bit 18 1)"

definition prci_pll_inline :: "'d hw \<Rightarrow> sysclk_port_t \<Rightarrow> 'd \<Rightarrow> 'd" where
  "prci_pll_inline hw port = mmio_and hw (sp_baddr port + PLLCFG_OFFSET) (NOT (push_bit 18 1))"

section \<open>The nearest frequency\<close>

text \<open>The frequencies the PLL can produce from \<open>base\<close> within the limits of its stages, in unbounded arithmetic:
  directly, or through the output divider.\<close>

definition pll_stage :: "nat \<Rightarrow> nat \<Rightarrow> nat \<Rightarrow> nat \<Rightarrow> nat option" where
  "pll_stage base r f q =
     (let refr = base div (r + 1); vco = refr * (2 * (f + 1)); pllout = vco div 2 ^ q
      in if refr \<in> {6000000 .. 12000000} \<and> vco \<in> {384000000 .. 768000000} \<and> pllout \<in> {48000000 .. 384000000}
         then Some pllout else None)"

definition pll_reach :: "nat \<Rightarrow> nat set" where
  "pll_reach base =
     {out. \<exists>r < 8. \<exists>f < 64. \<exists>q \<in> {1, 2, 3}. \<exists>p. pll_stage base r f q = Some p
        \<and> (out = p \<or> (\<exists>n < 64. out = p div (2 * (n + 1))))}"

definition dist :: "nat \<Rightarrow> nat \<Rightarrow> nat" where
  "dist a b = (if a \<le> b then b - a else a - b)"

text \<open>A step of the search over the candidates \<open>S\<close> keeps what it has, or replaces it by a better candidate that is the
  best of \<open>S\<close>. Such steps compose.\<close>

definition picks :: "'c set \<Rightarrow> ('c \<Rightarrow> 'v :: linorder) \<Rightarrow> ('c \<Rightarrow> 'k) \<Rightarrow> ('v \<times> 'k \<Rightarrow> 'v \<times> 'k) \<Rightarrow> bool" where
  "picks S d k F \<longleftrightarrow>
     (\<forall>acc. (F acc = acc \<and> (\<forall>x \<in> S. fst acc \<le> d x))
        \<or> (\<exists>x \<in> S. F acc = (d x, k x) \<and> d x < fst acc \<and> (\<forall>y \<in> S. d x \<le> d y)))"

lemma picks_id: "picks {} d k (\<lambda>acc. acc)"
  by (simp add: picks_def)

lemma picks_single:
  "(\<And>b c. F (b, c) = (if d x < b then (d x, k x) else (b, c))) \<Longrightarrow> picks {x} d k F"
  by (auto simp: picks_def not_less)

lemma picks_comp:
  assumes "picks S d k F" and "picks T d k G"
  shows "picks (S \<union> T) d k (\<lambda>acc. G (F acc))"
  unfolding picks_def
proof
  fix acc
  from assms(1) consider "F acc = acc" "\<forall>x \<in> S. fst acc \<le> d x"
    | x where "x \<in> S" "F acc = (d x, k x)" "d x < fst acc" "\<forall>y \<in> S. d x \<le> d y"
    unfolding picks_def by blast
  then show "G (F acc) = acc \<and> (\<forall>x \<in> S \<union> T. fst acc \<le> d x) \<or>
    (\<exists>x \<in> S \<union> T. G (F acc) = (d x, k x) \<and> d x < fst acc \<and> (\<forall>y \<in> S \<union> T. d x \<le> d y))"
  proof cases
    case 1
    from assms(2) consider "G acc = acc" "\<forall>x \<in> T. fst acc \<le> d x"
      | y where "y \<in> T" "G acc = (d y, k y)" "d y < fst acc" "\<forall>z \<in> T. d y \<le> d z"
      unfolding picks_def by blast
    then show ?thesis
    proof cases
      case a: 1
      then show ?thesis using 1 by auto
    next
      case (2 y)
      then show ?thesis using 1 by (intro disjI2 bexI [of _ y]) (auto intro: less_imp_le order.strict_trans2)
    qed
  next
    case (2 x)
    from assms(2) consider "G (d x, k x) = (d x, k x)" "\<forall>y \<in> T. d x \<le> d y"
      | y where "y \<in> T" "G (d x, k x) = (d y, k y)" "d y < d x" "\<forall>z \<in> T. d y \<le> d z"
      unfolding picks_def by (metis fst_conv)
    then show ?thesis
    proof cases
      case a: 1
      then show ?thesis using 2 by (intro disjI2 bexI [of _ x]) auto
    next
      case (2 y)
      then show ?thesis using \<open>d x < fst acc\<close> \<open>\<forall>y \<in> S. d x \<le> d y\<close> \<open>F acc = (d x, k x)\<close>
        by (intro disjI2 bexI [of _ y]) (auto dest: order.strict_trans less_le_trans intro: less_imp_le)
    qed
  qed
qed

lemma picks_fold:
  "(\<And>x. x \<in> set xs \<Longrightarrow> picks (S x) d k (F x)) \<Longrightarrow> picks (\<Union>x \<in> set xs. S x) d k (fold F xs)"
proof (induction xs)
  case Nil
  then show ?case using picks_id by (simp add: id_def)
next
  case (Cons x xs)
  then show ?case using picks_comp [of "S x" d k "F x" "\<Union>x \<in> set xs. S x" "fold F xs"] by (simp add: comp_def)
qed

lemma picks_guard:
  "(\<not> b \<Longrightarrow> picks S d k F) \<Longrightarrow> picks (if b then {} else S) d k (\<lambda>acc. if b then acc else F acc)"
  by (cases b) (simp_all add: picks_id)

text \<open>The candidates of the search, with the words the code computes.\<close>

definition pll_pllout :: "u32 \<Rightarrow> nat \<Rightarrow> nat \<Rightarrow> nat \<Rightarrow> u32" where
  "pll_pllout base r f q = base div (of_nat r + 1) * (2 * (of_nat f + 1)) div push_bit q 1"

definition cand_diff :: "u32 \<Rightarrow> u32 \<Rightarrow> nat \<times> nat \<times> nat \<times> nat \<Rightarrow> u32" where
  "cand_diff base clk = (\<lambda>(r, f, q, n).
     min (udiff clk (pll_pllout base r f q div (2 * (of_nat n + 1)))) (udiff clk (pll_pllout base r f q)))"

definition cand_conf :: "u32 \<Rightarrow> u32 \<Rightarrow> nat \<times> nat \<times> nat \<times> nat \<Rightarrow> pllc_t" where
  "cand_conf base clk = (\<lambda>(r, f, q, n).
     \<lparr>found = 1, pll_r = of_nat r, pll_f = of_nat f, pll_q = of_nat q,
      diven = (if udiff clk (pll_pllout base r f q div (2 * (of_nat n + 1))) < udiff clk (pll_pllout base r f q) then 1 else 0),
      pll_n = of_nat n\<rparr>)"

lemma unat_divider: "n < 64 \<Longrightarrow> unat (2 * of_nat n + 2 :: u32) = 2 * n + 2"
  by (simp add: unat_word_ariths unat_of_nat_32)

lemma div_gt_1: "n < 64 \<Longrightarrow> (1 :: u32) < 2 * of_nat n + 2"
  by (simp add: word_less_nat_alt unat_divider)

lemma pll_try_picks:
  "ni < 64 \<Longrightarrow> picks {(ri, fi, qi, ni)} (cand_diff base clk) (cand_conf base clk)
     (pll_try clk (pll_pllout base ri fi qi) ri fi qi ni)"
  by (rule picks_single) (auto simp: pll_try_def cand_diff_def cand_conf_def Let_def min_def div_gt_1)


text \<open>The stages of the code and of the specification agree: the limits keep every product below \<open>2 ^ 32\<close>.\<close>

lemma unat_refr: "r < 8 \<Longrightarrow> unat (base div (of_nat r + 1) :: u32) = unat base div (r + 1)"
  by (simp add: unat_div unat_word_ariths unat_of_nat_32)

lemma unat_vco:
  assumes "f < 64" and "unat (refr :: u32) \<le> 12000000"
  shows "unat (refr * (2 * (of_nat f + 1))) = unat refr * (2 * (f + 1))"
proof -
  have "unat refr * (2 * f + 2) \<le> 12000000 * 128" using assms by (intro mult_le_mono) simp_all
  then show ?thesis using unat_divider [OF assms(1)] by (simp add: unat_word_ariths)
qed

lemma unat_push_1: "q < 32 \<Longrightarrow> unat (push_bit q 1 :: u32) = 2 ^ q"
proof -
  assume "q < 32"
  then have "(2 :: nat) ^ q < 2 ^ 32" by (intro power_strict_increasing) simp_all
  then have "(2 :: nat) ^ q < 4294967296" by simp
  moreover have "push_bit q 1 = (of_nat (2 ^ q) :: u32)" by (simp add: push_bit_eq_mult)
  ultimately show "unat (push_bit q 1 :: u32) = 2 ^ q" by (simp only: unat_of_nat_32)
qed

lemma pll_stage_words:
  assumes "r < 8" and "f < 64" and "q < 4"
  shows "(pll_stage (unat base) r f q = Some p) \<longleftrightarrow>
    (let refr = base div (of_nat r + 1) :: u32; vco = refr * (2 * (of_nat f + 1)); pllout = vco div push_bit q 1
     in \<not> (refr < MIN_REFR \<or> refr > MAX_REFR) \<and> \<not> (vco < MIN_VCO \<or> vco > MAX_VCO)
        \<and> \<not> (pllout < MIN_PLLO \<or> pllout > MAX_PLLO) \<and> p = unat pllout)"
proof -
  define R where "R = (base div (of_nat r + 1) :: u32)"
  define V where "V = R * (2 * (of_nat f + 1))"
  define P where "P = V div push_bit q 1"
  have R: "unat base div (r + 1) = unat R" using unat_refr [OF assms(1), of base] by (simp add: R_def)
  have P: "unat P = unat V div 2 ^ q" using assms(3) by (simp only: P_def unat_div unat_push_1)
  have V: "unat R * (2 * (f + 1)) = unat V" if "unat R \<le> 12000000"
    using unat_vco [OF assms(2) that] by (simp only: V_def)
  have "pll_stage (unat base) r f q = Some p \<longleftrightarrow> 6000000 \<le> unat R \<and> unat R \<le> 12000000
      \<and> 384000000 \<le> unat V \<and> unat V \<le> 768000000 \<and> 48000000 \<le> unat P \<and> unat P \<le> 384000000 \<and> p = unat P"
    unfolding pll_stage_def Let_def R using V P by (cases "unat R \<le> 12000000") auto
  also have "\<dots> \<longleftrightarrow> \<not> (R < MIN_REFR \<or> R > MAX_REFR) \<and> \<not> (V < MIN_VCO \<or> V > MAX_VCO)
      \<and> \<not> (P < MIN_PLLO \<or> P > MAX_PLLO) \<and> p = unat P"
    by (simp add: word_less_nat_alt not_less conj_assoc)
  finally show ?thesis by (simp only: Let_def R_def V_def P_def)
qed

definition cands :: "u32 \<Rightarrow> (nat \<times> nat \<times> nat \<times> nat) set" where
  "cands base = {(r, f, q, n). r < 8 \<and> f < 64 \<and> 1 \<le> q \<and> q < 4 \<and> n < 64 \<and> pll_stage (unat base) r f q \<noteq> None}"

lemma pll_qloop_picks:
  "picks (\<Union>qi \<in> set [1 ..< 4]. if pll_pllout base ri fi qi < MIN_PLLO \<or> pll_pllout base ri fi qi > MAX_PLLO then {}
           else (\<Union>ni \<in> set [0 ..< 64]. {(ri, fi, qi, ni)}))
     (cand_diff base clk) (cand_conf base clk) (pll_qloop clk (base div (of_nat ri + 1) * (2 * (of_nat fi + 1))) ri fi)"
  unfolding pll_qloop_def Let_def pll_pllout_def [symmetric]
  by (intro picks_fold picks_guard pll_try_picks) (simp only: set_upt atLeastLessThan_iff)

lemma nested_mem:
  "(r, f, q, n) \<in> (\<Union>x \<in> A. if P x then {} else \<Union>y \<in> B. if Q x y then {} else
      \<Union>z \<in> C. if R x y z then {} else (\<Union>w \<in> D. {(x, y, z, w)}))
   \<longleftrightarrow> r \<in> A \<and> \<not> P r \<and> f \<in> B \<and> \<not> Q r f \<and> q \<in> C \<and> \<not> R r f q \<and> n \<in> D"
  by auto

lemma pll_search_picks:
  "picks (cands base) (cand_diff base clk) (cand_conf base clk)
     (fold (\<lambda>ri acc. let refr = base div (of_nat ri + 1)
        in if refr < MIN_REFR \<or> refr > MAX_REFR then acc else pll_floop clk refr ri acc) [0 ..< 8])"
proof -
  let ?q = "\<lambda>ri fi. \<Union>qi \<in> set [1 ..< 4]. if pll_pllout base ri fi qi < MIN_PLLO \<or> pll_pllout base ri fi qi > MAX_PLLO then {}
           else (\<Union>ni \<in> set [0 ..< 64]. {(ri, fi, qi, ni)})"
  let ?f = "\<lambda>ri. \<Union>fi \<in> set [0 ..< 64].
    if base div (of_nat ri + 1) * (2 * (of_nat fi + 1)) < MIN_VCO \<or> base div (of_nat ri + 1) * (2 * (of_nat fi + 1)) > MAX_VCO
    then {} else ?q ri fi"
  let ?r = "\<Union>ri \<in> set [0 ..< 8]. if base div (of_nat ri + 1) < MIN_REFR \<or> base div (of_nat ri + 1) > MAX_REFR then {} else ?f ri"
  have "?r = cands base"
  proof (rule set_eqI)
    fix x :: "nat \<times> nat \<times> nat \<times> nat"
    obtain r f q n where x: "x = (r, f, q, n)" by (cases x)
    have "x \<in> ?r \<longleftrightarrow> r < 8 \<and> f < 64 \<and> 1 \<le> q \<and> q < 4 \<and> n < 64
        \<and> \<not> (base div (of_nat r + 1) < MIN_REFR \<or> base div (of_nat r + 1) > MAX_REFR)
        \<and> \<not> (base div (of_nat r + 1) * (2 * (of_nat f + 1)) < MIN_VCO \<or> base div (of_nat r + 1) * (2 * (of_nat f + 1)) > MAX_VCO)
        \<and> \<not> (pll_pllout base r f q < MIN_PLLO \<or> pll_pllout base r f q > MAX_PLLO)"
      unfolding x nested_mem set_upt atLeastLessThan_iff by auto
    also have "\<dots> \<longleftrightarrow> x \<in> cands base"
      unfolding x cands_def mem_Collect_eq case_prod_conv
      using pll_stage_words [of r f q base] by (auto simp only: Let_def pll_pllout_def not_None_eq)
    finally show "x \<in> ?r \<longleftrightarrow> x \<in> cands base" .
  qed
  moreover have "picks (?f ri) (cand_diff base clk) (cand_conf base clk) (pll_floop clk (base div (of_nat ri + 1)) ri)" for ri
    unfolding pll_floop_def Let_def by (intro picks_fold picks_guard pll_qloop_picks)
  then have "picks ?r (cand_diff base clk) (cand_conf base clk)
     (fold (\<lambda>ri acc. let refr = base div (of_nat ri + 1)
        in if refr < MIN_REFR \<or> refr > MAX_REFR then acc else pll_floop clk refr ri acc) [0 ..< 8])"
    unfolding Let_def by (intro picks_fold picks_guard)
  ultimately show ?thesis by (simp only:)
qed

lemma signed_small:
  "x < 2147483648 \<Longrightarrow> y < 2147483648 \<Longrightarrow> signed_take_bit 31 (int x - int y) = int x - int y"
  by (rule signed_take_bit_int_eq_self) simp_all

lemma abs_small: "x < 2147483648 \<Longrightarrow> y < 2147483648 \<Longrightarrow> abs_c (int x - int y) = int (dist x y)"
  by (auto simp: abs_c_def dist_def wrap_def signed_take_bit_int_eq_self of_nat_diff)

lemma udiff_dist:
  assumes "unat a < 2147483648" and "unat b < 2147483648"
  shows "unat (udiff a b) = dist (unat a) (unat b)"
proof -
  have w: "a - b = word_of_int (int (unat a) - int (unat b))" by simp
  have s: "sint (a - b) = int (unat a) - int (unat b)"
    unfolding w sint_sbintrunc' using signed_small [OF assms] by simp
  have "udiff a b = of_nat (dist (unat a) (unat b))"
    unfolding udiff_def s abs_small [OF assms] by simp
  moreover have "dist (unat a) (unat b) < 4294967296" using assms by (auto simp: dist_def intro: le_less_trans [OF diff_le_self])
  ultimately show ?thesis by (simp add: unat_of_nat_32)
qed

text \<open>The frequency that a configuration stands for, as \<open>prci_pll_get_clk\<close> computes it.\<close>

definition config_clk :: "u32 \<Rightarrow> pllc_t \<Rightarrow> u32" where
  "config_clk base config =
     (let refr = base div (ucast (pll_r config) + 1);
          vco = refr * (2 * (ucast (pll_f config) + 1));
          pllout = vco div push_bit (unat (pll_q config)) 1
      in if diven config \<noteq> 0 then pllout div (2 * (ucast (pll_n config) + 1)) else pllout)"

lemma prci_pll_get_clk_found:
  "found config \<noteq> 0 \<Longrightarrow> prci_pll_get_clk port config = (success, Some (config_clk (sp_base_clk port) config))"
  by (simp add: prci_pll_get_clk_def config_clk_def Let_def)

lemma ucast_of_nat_8: "n < 256 \<Longrightarrow> (ucast (of_nat n :: u8) :: u32) = of_nat n"
  by (simp add: word_unat_eq_iff unsigned_ucast_eq unat_of_nat take_bit_nat_eq_self)

lemma cand_conf_clk:
  assumes "(r, f, q, n) \<in> cands base"
  shows "config_clk base (cand_conf base clk (r, f, q, n)) =
    (if udiff clk (pll_pllout base r f q div (2 * (of_nat n + 1))) < udiff clk (pll_pllout base r f q)
     then pll_pllout base r f q div (2 * (of_nat n + 1)) else pll_pllout base r f q)"
  using assms
  by (simp add: config_clk_def cand_conf_def cands_def pll_pllout_def Let_def ucast_of_nat_8 unat_of_nat)

lemma cands_stage:
  assumes "(r, f, q, n) \<in> cands base"
  shows "pll_stage (unat base) r f q = Some (unat (pll_pllout base r f q))"
    and "48000000 \<le> unat (pll_pllout base r f q)" and "unat (pll_pllout base r f q) \<le> 384000000"
    and "unat (pll_pllout base r f q div (2 * (of_nat n + 1))) = unat (pll_pllout base r f q) div (2 * (n + 1))"
proof -
  obtain p where p: "pll_stage (unat base) r f q = Some p" "r < 8" "f < 64" "q < 4" "n < 64"
    using assms by (auto simp: cands_def)
  then have "p = unat (pll_pllout base r f q)" using pll_stage_words [of r f q base p] by (simp add: Let_def pll_pllout_def)
  with p show "pll_stage (unat base) r f q = Some (unat (pll_pllout base r f q))"
    and "48000000 \<le> unat (pll_pllout base r f q)" and "unat (pll_pllout base r f q) \<le> 384000000"
    by (auto simp: pll_stage_def Let_def split: if_splits)
  show "unat (pll_pllout base r f q div (2 * (of_nat n + 1))) = unat (pll_pllout base r f q) div (2 * (n + 1))"
    using unat_divider [OF p(5)] by (simp add: unat_div)
qed

text \<open>The distance recorded for a candidate is that of the better of its two frequencies, for which its
  configuration stands.\<close>

lemma cand_diff_min:
  assumes "(r, f, q, n) \<in> cands base" and "unat clk \<le> 320000000"
  defines "p \<equiv> unat (pll_pllout base r f q)"
  shows "unat (cand_diff base clk (r, f, q, n)) = min (dist (unat clk) (p div (2 * (n + 1)))) (dist (unat clk) p)"
    and "dist (unat clk) (unat (config_clk base (cand_conf base clk (r, f, q, n)))) = unat (cand_diff base clk (r, f, q, n))"
    and "unat (config_clk base (cand_conf base clk (r, f, q, n))) \<in> {p, p div (2 * (n + 1))}"
proof -
  let ?P = "pll_pllout base r f q"
  have le: "unat (?P div (2 * (of_nat n + 1))) \<le> 384000000"
    unfolding cands_stage(4) [OF assms(1)] using cands_stage(3) [OF assms(1)] by (rule le_trans [OF div_le_dividend])
  have d1: "unat (udiff clk ?P) = dist (unat clk) p"
    unfolding p_def by (rule udiff_dist) (use cands_stage(3) [OF assms(1)] assms(2) in simp_all)
  have d2: "unat (udiff clk (?P div (2 * (of_nat n + 1)))) = dist (unat clk) (p div (2 * (n + 1)))"
    unfolding p_def cands_stage(4) [OF assms(1), symmetric]
    by (rule udiff_dist) (use le assms(2) in linarith)+
  show m: "unat (cand_diff base clk (r, f, q, n)) = min (dist (unat clk) (p div (2 * (n + 1)))) (dist (unat clk) p)"
    unfolding cand_diff_def case_prod_conv d1 [symmetric] d2 [symmetric] by (simp only: min_def word_le_nat_alt if_distrib [of unat])
  have c: "unat (config_clk base (cand_conf base clk (r, f, q, n))) =
      (if dist (unat clk) (p div (2 * (n + 1))) < dist (unat clk) p then p div (2 * (n + 1)) else p)"
    unfolding cand_conf_clk [OF assms(1)] word_less_nat_alt d1 d2 if_distrib [of unat] cands_stage(4) [OF assms(1)] p_def ..
  show "dist (unat clk) (unat (config_clk base (cand_conf base clk (r, f, q, n)))) = unat (cand_diff base clk (r, f, q, n))"
    unfolding c m by (simp add: min_def)
  show "unat (config_clk base (cand_conf base clk (r, f, q, n))) \<in> {p, p div (2 * (n + 1))}"
    unfolding c by simp
qed

lemma cand_diff_below:
  assumes "(r, f, q, n) \<in> cands base" and "unat clk \<le> 320000000"
  shows "unat (cand_diff base clk (r, f, q, n)) < 320000000"
proof -
  let ?p = "unat (pll_pllout base r f q)"
  have p: "48000000 \<le> ?p" "?p \<le> 384000000" using cands_stage [OF assms(1)] by simp_all
  have "n < 64" using assms(1) by (simp add: cands_def)
  then have "1 \<le> ?p div (2 * (n + 1))" using p(1) by (simp add: less_eq_div_iff_mult_less_eq)
  moreover have "?p div (2 * (n + 1)) \<le> ?p div 2" by (rule div_le_mono2) simp_all
  ultimately show ?thesis
    unfolding cand_diff_min(1) [OF assms] using p assms(2) by (auto simp: dist_def min_less_iff_disj)
qed

lemma cand_clk_reach:
  assumes "(r, f, q, n) \<in> cands base" and "unat clk \<le> 320000000"
  shows "unat (config_clk base (cand_conf base clk (r, f, q, n))) \<in> pll_reach (unat base)"
proof -
  have "r < 8" "f < 64" "n < 64" "1 \<le> q" "q < 4" using assms(1) by (simp_all add: cands_def)
  moreover then have "q \<in> {1, 2, 3}" by auto
  ultimately show ?thesis
    using cand_diff_min(3) [OF assms] cands_stage(1) [OF assms(1)] unfolding pll_reach_def by blast
qed

text \<open>C17: the search of \<open>pll_config_for_nearest_freq\<close> is exhaustive and right: whenever the PLL can produce a frequency from
  \<open>base\<close> at all, the configuration found stands for (and \<open>prci_pll_get_clk\<close> reports) a frequency that
  the stages can produce within their limits, and none of those is nearer to the requested one.\<close>

theorem pll_nearest_optimal:
  assumes "MIN_PLL_OUT \<le> clk" and "clk \<le> MAX_PLL_OUT" and "pll_reach (unat (sp_base_clk port)) \<noteq> {}"
  shows "\<exists>conf v. pll_config_for_nearest_freq (sp_base_clk port) clk = Ok conf
    \<and> prci_pll_get_clk port conf = (success, Some v) \<and> unat v \<in> pll_reach (unat (sp_base_clk port))
    \<and> (\<forall>out \<in> pll_reach (unat (sp_base_clk port)). dist (unat clk) (unat v) \<le> dist (unat clk) out)"
proof -
  let ?b = "sp_base_clk port"
  have clk: "unat clk \<le> 320000000" using assms(2) by (simp add: word_le_nat_alt)
  have reach: "\<exists>x \<in> cands ?b. unat (cand_diff ?b clk x) \<le> dist (unat clk) out" if o: "out \<in> pll_reach (unat ?b)" for out
  proof -
    obtain r f q p where rfq: "r < 8" "f < 64" "q \<in> {1, 2, 3}" "pll_stage (unat ?b) r f q = Some p"
      "out = p \<or> (\<exists>n < 64. out = p div (2 * (n + 1)))"
      using o unfolding pll_reach_def by blast
    moreover obtain n where "n < 64" "out = p \<or> out = p div (2 * (n + 1))"
      using rfq(5) zero_less_numeral by blast
    ultimately have c: "(r, f, q, n) \<in> cands ?b" "pll_stage (unat ?b) r f q = Some p" "out = p \<or> out = p div (2 * (n + 1))"
      by (auto simp: cands_def)
    then have "p = unat (pll_pllout ?b r f q)" using cands_stage(1) [OF c(1)] by simp
    then have "unat (cand_diff ?b clk (r, f, q, n)) \<le> dist (unat clk) out"
      unfolding cand_diff_min(1) [OF c(1) clk] using c(3) by auto
    then show ?thesis using c(1) by blast
  qed
  obtain y where y: "y \<in> cands ?b" using assms(3) reach by blast
  have "cand_diff ?b clk y < MAX_PLL_OUT"
    using cand_diff_below [OF _ clk, of "fst y" "fst (snd y)" "fst (snd (snd y))" "snd (snd (snd y))"] y
    by (simp add: word_less_nat_alt)
  then obtain x where x: "x \<in> cands ?b" "pll_config_for_nearest_freq ?b clk = Ok (cand_conf ?b clk x)"
      "\<forall>z \<in> cands ?b. cand_diff ?b clk x \<le> cand_diff ?b clk z"
    using pll_search_picks [of ?b clk, unfolded picks_def, rule_format, of "(MAX_PLL_OUT, no_config)"] y assms(1,2)
    unfolding pll_config_for_nearest_freq_def by (auto simp: not_le [symmetric] simp del: upt_rec_numeral)
  obtain r f q n where rf: "x = (r, f, q, n)" by (cases x)
  let ?v = "config_clk ?b (cand_conf ?b clk x)"
  have c: "(r, f, q, n) \<in> cands ?b" using x(1) by (simp add: rf)
  have "unat ?v \<in> pll_reach (unat ?b)" unfolding rf by (rule cand_clk_reach [OF c clk])
  moreover have "dist (unat clk) (unat ?v) \<le> dist (unat clk) out" if "out \<in> pll_reach (unat ?b)" for out
    using reach [OF that] x(3) unfolding rf cand_diff_min(2) [OF c clk]
    by (auto simp: word_le_nat_alt intro: le_trans)
  moreover have "found (cand_conf ?b clk x) \<noteq> 0" by (simp add: rf cand_conf_def)
  ultimately show ?thesis using x(2) prci_pll_get_clk_found [of "cand_conf ?b clk x" port] by blast
qed

theorem pll_nearest_optimal_witness:
  "\<exists>conf v. pll_config_for_nearest_freq 16000000 250000000 = Ok conf
    \<and> prci_pll_get_clk \<lparr>sp_port_id = hw_prci, sp_base_clk = 16000000, sp_baddr = 0x10008000, sp_stride = 0x1000, sp_type = 0\<rparr> conf
        = (success, Some v)"
proof -
  have "256000000 \<in> pll_reach 16000000"
  proof -
    have "pll_stage 16000000 1 31 1 = Some 256000000" by (simp add: pll_stage_def Let_def flip: numeral_2_eq_2)
    moreover have "(1 :: nat) < 8" "(31 :: nat) < 64" "1 \<in> {1, 2, 3 :: nat}" by simp_all
    ultimately show ?thesis unfolding pll_reach_def by blast
  qed
  then show ?thesis
    using pll_nearest_optimal [of 250000000
        "\<lparr>sp_port_id = hw_prci, sp_base_clk = 16000000, sp_baddr = 0x10008000, sp_stride = 0x1000, sp_type = 0\<rparr>"]
    by auto
qed

section \<open>The internal oscillator\<close>

text \<open>What the oscillator drivers rely on: the enable bit and the divider of a configuration register are storage, and
  the ready bit comes on within \<open>n\<close> loads once the oscillator is enabled.\<close>

definition osc_hw :: "'d hw \<Rightarrow> ('d \<Rightarrow> ptr \<Rightarrow> u32) \<Rightarrow> (ptr \<Rightarrow> u32) \<Rightarrow> nat \<Rightarrow> ptr \<Rightarrow> bool" where
  "osc_hw hw val m n a \<longleftrightarrow> stores hw val m \<and> 0x4000003f AND m a = 0x4000003f
     \<and> settles hw (\<lambda>s. bit (val s a) 30) a (\<lambda>x. x AND push_bit 31 1 = 0) n"

lemma mask_parts:
  assumes "0x4000003f AND m = (0x4000003f :: u32)"
  shows "63 AND m = 63" and "push_bit 30 1 AND m = push_bit 30 1"
proof -
  have "63 AND m = 63 AND (0x4000003f AND m)" by (simp flip: and.assoc)
  then show "63 AND m = 63" unfolding assms by simp
  have "push_bit 30 1 AND m = push_bit 30 1 AND (0x4000003f AND m)" by (simp flip: and.assoc)
  then show "push_bit 30 1 AND m = push_bit 30 1" unfolding assms by simp
qed

lemma osc_enable_ok:
  assumes "osc_hw hw val m n a" and "n \<le> fuel"
  shows "\<exists>s'. obind (poll_while fuel hw a (\<lambda>x. x AND push_bit 31 1 = 0) (mmio_or hw a (push_bit 30 1) s)) (\<lambda>s1.
           case hw_rd hw a s1 of (x, s2) \<Rightarrow> Ok (if x AND push_bit 30 1 \<noteq> 0 then success else error_system, s2))
      = Ok (success, s')
    \<and> val s' = (val s)(a := val s a OR push_bit 30 1)"
proof -
  have st: "stores hw val m" and m: "push_bit 30 1 AND m a = push_bit 30 1"
    and se: "settles hw (\<lambda>s. bit (val s a) 30) a (\<lambda>x. x AND push_bit 31 1 = 0) n"
    using assms(1) mask_parts [of "m a"] by (simp_all add: osc_hw_def)
  let ?s1 = "mmio_or hw a (push_bit 30 1) s"
  have v1: "val ?s1 = (val s)(a := val s a OR push_bit 30 1)" unfolding stores_or [OF st] m ..
  have "bit (val ?s1 a) 30" unfolding v1 by (simp add: bit_simps)
  from settles_poll [OF se, of ?s1, OF this assms(2) st] obtain s2
    where s2: "poll_while fuel hw a (\<lambda>x. x AND push_bit 31 1 = 0) ?s1 = Ok s2" "val s2 = val ?s1" by blast
  have "fst (hw_rd hw a s2) AND push_bit 30 1 = val s2 a AND push_bit 30 1" by (rule stores_rd_sub [OF st m])
  also have "\<dots> \<noteq> 0" unfolding and_push_bit_nz s2(2) v1 by (simp add: bit_simps)
  finally show ?thesis
    using s2 v1 stores_rd_frame [OF st, of a s2] by (simp add: case_prod_unfold)
qed

lemma divdr_fits: "(k - 1 :: u32) AND 63 = k - 1 \<longleftrightarrow> 1 \<le> k \<and> k \<le> 64"
proof -
  have "(k - 1) AND 63 = k - 1 \<longleftrightarrow> unat (k - 1) mod 64 = unat (k - 1)"
    using take_bit_eq_mask [of 6 "k - 1"] by (simp add: mask_eq_exp_minus_1 word_unat_eq_iff unat_mod take_bit_eq_mod)
  also have "\<dots> \<longleftrightarrow> unat (k - 1) < 64" by (auto simp: mod_eq_self_iff_div_eq_0 div_eq_0_iff)
  also have "\<dots> \<longleftrightarrow> 1 \<le> k \<and> k \<le> 64"
  proof (cases "k = 0")
    case False
    then show ?thesis by (simp add: unat_minus_one word_le_nat_alt unat_gt_0) (auto simp: unat_gt_0 Suc_le_eq word_neq_0_conv)
  qed simp
  finally show ?thesis .
qed

text \<open>A trim that does not fit the field is reported, whatever the hardware does; but its upper bits have reached the enable bit and
  its neighbours by then.\<close>

lemma hfosc_trim_wide:
  assumes "prci_hfosc_set_trim fuel hw port trim s = Ok (ret, s')" and "0xff < trim"
  shows "ret = error_system"
proof -
  have "drop_bit 16 (y AND HFROSCTRIM_MASK) = drop_bit 16 y AND 0xff" for y :: u32 by (simp add: drop_bit_and)
  moreover have "drop_bit 16 y AND 0xff \<le> (0xff :: u32)" for y by (rule word_and_le1)
  ultimately have "drop_bit 16 (y AND HFROSCTRIM_MASK) \<noteq> trim" for y using assms(2) by (metis leD)
  then show ?thesis using assms(1) by (auto simp: prci_hfosc_set_trim_def Let_def outcome_simps case_prod_unfold)
qed

text \<open>\<open>prci_hfosc_set_clk\<close> on the running oscillator, for every frequency but 0: it returns, writes only the divider,
  reports success exactly when the quotient of the oscillator's 72 MHz by the frequency is a divider (1 to 64),
  and \<open>prci_hfosc_get_clk\<close> then reads back the frequency of that divider. When the quotient is no divider the
  call fails, but its low six bits are in the register all the same.\<close>

theorem hfosc_set_get:
  assumes "osc_hw hw val m n (sp_baddr port)" and "bit (val s (sp_baddr port)) 30" and "n \<le> fuel" and "clk \<noteq> 0"
  defines "k \<equiv> ICLK div clk"
  shows "\<exists>s'. prci_hfosc_set_clk fuel hw port clk s = Ok (if 1 \<le> k \<and> k \<le> 64 then success else error_system, s')
    \<and> val s' = (val s)(sp_baddr port := (val s (sp_baddr port) AND NOT 63) OR ((k - 1) AND 63))
    \<and> fst (snd (prci_hfosc_get_clk hw port s')) = ICLK div (((k - 1) AND 63) + 1)"
proof -
  let ?a = "sp_baddr port" and ?d = "k - 1"
  have st: "stores hw val m" and m: "63 AND m ?a = 63"
    and se: "settles hw (\<lambda>s. bit (val s ?a) 30) ?a (\<lambda>x. x AND push_bit 31 1 = 0) n"
    using assms(1) mask_parts [of "m ?a"] by (simp_all add: osc_hw_def)
  obtain x s1 where x: "hw_rd hw ?a s = (x, s1)" by force
  let ?y = "(x AND NOT 63) OR (?d AND 63)" let ?v = "(val s ?a AND NOT 63) OR (?d AND 63)"
  have "?y AND m ?a = ((x AND m ?a) AND NOT 63) OR (?d AND (63 AND m ?a))"
    by (rule bit_word_eqI) (auto simp: bit_simps)
  also have "\<dots> = ?v" using stores_rd [OF st, of ?a s] x by (simp add: m)
  finally have v: "val (hw_wr hw ?a ?y s1) = (val s)(?a := ?v)"
    using stores_rd_frame [OF st, of ?a s] x by (simp add: stores_wr [OF st])
  have "bit ?v 30" using assms(2) by (simp add: bit_simps)
  with v have "bit (val (hw_wr hw ?a ?y s1) ?a) 30" by simp
  from settles_poll [OF se, of "hw_wr hw ?a ?y s1", OF this assms(3) st] obtain s2 where s2:
    "poll_while fuel hw ?a (\<lambda>x. x AND push_bit 31 1 = 0) (hw_wr hw ?a ?y s1) = Ok s2" "val s2 = (val s)(?a := ?v)"
    using v by auto
  have low: "?v AND 63 = ?d AND 63" by (rule bit_word_eqI) (auto simp: bit_simps)
  obtain z s3 where z: "hw_rd hw ?a s2 = (z, s3)" by force
  have z63: "z AND 63 = ?d AND 63" using stores_rd_sub [OF st m, of s2] z s2(2) low by simp
  have s3: "val s3 = (val s)(?a := ?v)" using stores_rd_frame [OF st, of ?a s2] z s2(2) by simp
  have "fst (hw_rd hw ?a s3) AND 63 = ?d AND 63" using stores_rd_sub [OF st m, of s3] s3 low by simp
  then show ?thesis
    using x s2(1) z z63 s3 assms(4) divdr_fits [of k]
    by (simp add: prci_hfosc_set_clk_def prci_hfosc_get_clk_def k_def [symmetric] case_prod_unfold Let_def)
qed

section \<open>Faults of the PLL driver\<close>

text \<open>\<open>prci_pll_write_config\<close> never clears the old output divider: with the divider enabled, the field in the register
  becomes the bitwise union of the old and the new divider, so the PLL divides by the wrong number unless
  the old bits are among the new ones; \<open>prci_pll_get_clk\<close> still reports the frequency of the new divider.\<close>

theorem pll_outdiv_accumulates:
  assumes "stores hw val m" and "m (sp_baddr port + PLLOUTDIV_OFFSET) = 0x13f"
    and "found conf \<noteq> 0" and "diven conf \<noteq> 0" and "pll_n conf < 64"
  defines "a \<equiv> sp_baddr port + PLLOUTDIV_OFFSET"
  shows "val (prci_pll_write_config hw port conf s) a AND 63 = (val s a AND 63) OR ucast (pll_n conf)"
proof -
  let ?n = "ucast (pll_n conf) :: u32"
  have n: "?n AND 63 = ?n"
  proof -
    have "take_bit 6 ?n = ?n"
      using assms(5) by (simp add: word_unat_eq_iff take_bit_eq_mod unat_mod word_less_nat_alt ucast_small_nat)
    then show ?thesis by (simp add: take_bit_eq_mask mask_eq_exp_minus_1)
  qed
  have ne: "sp_baddr port + 8 \<noteq> a" by (simp add: a_def)
  have x: "fst (hw_rd hw a s) AND 63 = val s a AND 63"
    by (rule stores_rd_sub [OF assms(1)]) (simp add: assms(2) a_def)
  have "val (prci_pll_write_config hw port conf s) a
      = ((fst (hw_rd hw a s) OR ?n) AND NOT (push_bit 8 1)) AND 0x13f"
    using assms(1-4) ne
    by (simp add: prci_pll_write_config_def Let_def mmio_update_def case_prod_unfold stores_wr stores_rd_frame n a_def)
  then have "val (prci_pll_write_config hw port conf s) a AND 63
      = (fst (hw_rd hw a s) OR ?n) AND (NOT (push_bit 8 1) AND 0x13f AND 63)"
    by (simp only: and.assoc)
  also have "\<dots> = (fst (hw_rd hw a s) AND 63) OR (?n AND 63)" by (simp add: bit.conj_disj_distrib2)
  finally show ?thesis unfolding x n .
qed

text \<open>\<open>prci_pll_wait_to_lock\<close> waits for the wrong value of the lock bit: when the PLL reports its lock (bit 31 of
  \<open>PLLCFG\<close> reads as one, as it does on a PLL that has settled), the call never returns.\<close>

theorem pll_wait_hangs_when_locked:
  assumes "\<And>s. bit (fst (hw_rd hw (sp_baddr port + PLLCFG_OFFSET) s)) 31"
  shows "\<not> returns (prci_pll_wait_to_lock fuel hw port c)"
  using assms
  by (auto simp: prci_pll_wait_to_lock_def returns_iff obind_eq_Ok poll_while_hangs and_push_bit_nz [of _ 31, simplified])

section \<open>A concrete machine\<close>

definition demo_prci_port :: sysclk_port_t where
  "demo_prci_port = \<lparr>sp_port_id = hw_prci, sp_base_clk = 16000000, sp_baddr = 0x10008000, sp_stride = 0x1000, sp_type = 0\<rparr>"

text \<open>Registers that keep what is written; the ready bits of the oscillators and the lock bit of the PLL are on.\<close>

definition demo_rdy :: "ptr \<Rightarrow> u32" where
  "demo_rdy a = (if a \<in> {0x10008000, 0x10008004, 0x10008008} then 0x80000000 else if a = 0x1000800c then 0xfffffec0 else 0)"

lemma demo_osc_hw:
  "a \<in> {0x10008000, 0x10008004} \<Longrightarrow> osc_hw (plain_hw demo_rdy) (plain_val demo_rdy) (\<lambda>a. NOT (demo_rdy a)) 1 a"
  unfolding osc_hw_def using plain_stores [of demo_rdy]
  by (intro conjI plain_settles) (auto simp: demo_rdy_def)

theorem hfosc_set_get_witness:
  "\<exists>s'. prci_hfosc_set_clk 1 (plain_hw demo_rdy) demo_prci_port 16000000 (\<lambda>_. 0x40000000) = Ok (success, s')
    \<and> fst (snd (prci_hfosc_get_clk (plain_hw demo_rdy) demo_prci_port s')) = 18000000"
  using hfosc_set_get [where port = demo_prci_port and n = 1 and fuel = 1 and clk = 16000000 and s = "\<lambda>_. 0x40000000",
      OF demo_osc_hw]
  by (auto simp: demo_prci_port_def plain_val_def demo_rdy_def ICLK_def bit_simps)

theorem pll_outdiv_accumulates_witness:
  "plain_val demo_rdy (prci_pll_write_config (plain_hw demo_rdy) demo_prci_port
      \<lparr>found = 1, pll_r = 1, pll_f = 31, pll_q = 1, diven = 1, pll_n = 2\<rparr> (\<lambda>_. 5)) 0x1000800c AND 63 = 7"
  using pll_outdiv_accumulates [OF plain_stores, of demo_rdy demo_prci_port
      "\<lparr>found = 1, pll_r = 1, pll_f = 31, pll_q = 1, diven = 1, pll_n = 2\<rparr>" "\<lambda>_. 5"]
  by (simp add: demo_prci_port_def plain_val_def demo_rdy_def)

theorem pll_wait_hangs_when_locked_witness:
  "\<not> returns (prci_pll_wait_to_lock 1000 (plain_hw demo_rdy) demo_prci_port 
      \<lparr>clint_port = Some \<lparr>clint_port_id = hw_clint, clint_baddr = 0x02000000, clint_stride = 0xc000\<rparr>, clint_dev = \<lambda>_. 0\<rparr>)"
  by (rule pll_wait_hangs_when_locked) (simp add: plain_hw_def demo_prci_port_def demo_rdy_def bit_simps)

end
