(* ===== verification/Sys_Clock.thy ===== *)
theory Sys_Clock
  imports Prci Arch_Riscv
begin

text \<open>
  The system clock: the list of callbacks that run around a change of the clock (\<open>driver/sysclk/sysclk.c\<close>) and the
  driver for the PRCI block (\<open>driver/sysclk/sysclk_prci\<close>), which switches between the internal oscillator,
  the crystal and the PLL.

  The callback nodes belong to the drivers that register them; the store maps their addresses to their
  contents. The lock of the list is held while callbacks run, so they cannot change the list.
\<close>

section \<open>The list of callbacks\<close>

type_synonym callback = nat

record cb_node =
  pre_config :: callback
  post_config :: callback
  cb_next :: ptr

record cb_state =
  cb_root :: ptr
  cb_nodes :: "ptr \<Rightarrow> cb_node"

definition next_of :: "cb_state \<Rightarrow> ptr \<Rightarrow> ptr" where
  "next_of c p = cb_next (cb_nodes c p)"

definition set_next :: "ptr \<Rightarrow> ptr \<Rightarrow> cb_state \<Rightarrow> cb_state" where
  "set_next p q c = c\<lparr>cb_nodes := (cb_nodes c)(p := (cb_nodes c p)\<lparr>cb_next := q\<rparr>)\<rparr>"

text \<open>The walk to the last node; \<open>Inl\<close> when \<open>node\<close> is met on the way.\<close>

primrec register_walk :: "nat \<Rightarrow> cb_state \<Rightarrow> ptr \<Rightarrow> ptr \<Rightarrow> (unit + ptr) outcome" where
  "register_walk 0 c node temp = Hang"
| "register_walk (Suc fuel) c node temp =
     (if next_of c temp \<noteq> NULL
      then if next_of c temp = node then Ok (Inl ()) else register_walk fuel c node (next_of c temp)
      else Ok (Inr temp))"

definition sysclk_register_config_clk_callback :: "nat \<Rightarrow> ptr \<Rightarrow> cb_state \<Rightarrow> (status_t \<times> cb_state) outcome" where
  "sysclk_register_config_clk_callback fuel node c =
     (if node = NULL then Fault Null_deref
      else if \<not> (pre_config (cb_nodes c node) \<noteq> 0 \<and> post_config (cb_nodes c node) \<noteq> 0) then Ok (error_func_inval_arg, c)
      else if cb_root c = NULL then Ok (success, c\<lparr>cb_root := node\<rparr>)
      else obind (register_walk fuel c node (cb_root c)) (\<lambda>r.
             case r of Inl _ \<Rightarrow> Ok (error_list_node_exists, c) | Inr temp \<Rightarrow> Ok (success, set_next temp node c)))"

text \<open>The walk to \<open>node\<close>, with the node before it; \<open>None\<close> when the list ends first.\<close>

primrec deregister_walk :: "nat \<Rightarrow> cb_state \<Rightarrow> ptr \<Rightarrow> ptr \<Rightarrow> ptr \<Rightarrow> (ptr \<times> ptr) option outcome" where
  "deregister_walk 0 c node prev temp = Hang"
| "deregister_walk (Suc fuel) c node prev temp =
     (if temp \<noteq> node
      then if next_of c temp = NULL then Ok None else deregister_walk fuel c node temp (next_of c temp)
      else Ok (Some (prev, temp)))"

definition sysclk_deregister_config_clk_callback :: "nat \<Rightarrow> ptr \<Rightarrow> cb_state \<Rightarrow> (status_t \<times> cb_state) outcome" where
  "sysclk_deregister_config_clk_callback fuel node c =
     (if cb_root c = NULL then Ok (error_func_inval_arg, c)
      else if cb_root c = node then Ok (success, c\<lparr>cb_root := next_of c (cb_root c)\<rparr>)
      else obind (deregister_walk fuel c node NULL (cb_root c)) (\<lambda>r.
             case r of None \<Rightarrow> Ok (error_list_node_not_found, c)
                     | Some (prev, temp) \<Rightarrow> Ok (success, set_next prev (next_of c temp) c)))"

text \<open>What a callback does to the rest of the system is the parameter \<open>run\<close>.\<close>

primrec pre_loop ::
  "nat \<Rightarrow> (callback \<Rightarrow> 's \<Rightarrow> status_t \<times> 's) \<Rightarrow> cb_state \<Rightarrow> ptr \<Rightarrow> status_t \<Rightarrow> 's \<Rightarrow> (status_t \<times> 's) outcome" where
  "pre_loop 0 run c temp ret s = Hang"
| "pre_loop (Suc fuel) run c temp ret s =
     (if temp = NULL then Fault Null_deref
      else let (ret1, s1) =
             (if pre_config (cb_nodes c temp) \<noteq> 0
              then case run (pre_config (cb_nodes c temp)) s of (r, s') \<Rightarrow> (ret OR r, s')
              else (ret OR error_func_inval, s))
           in if next_of c temp \<noteq> NULL then pre_loop fuel run c (next_of c temp) ret1 s1 else Ok (ret1, s1))"

definition sysclk_execute_pre_config_clk_callback ::
  "nat \<Rightarrow> (callback \<Rightarrow> 's \<Rightarrow> status_t \<times> 's) \<Rightarrow> cb_state \<Rightarrow> 's \<Rightarrow> (status_t \<times> 's) outcome" where
  "sysclk_execute_pre_config_clk_callback fuel run c s = pre_loop fuel run c (cb_root c) success s"

text \<open>The callback is called before it is compared with NULL, and again after.\<close>

primrec post_loop ::
  "nat \<Rightarrow> (callback \<Rightarrow> 's \<Rightarrow> status_t \<times> 's) \<Rightarrow> cb_state \<Rightarrow> ptr \<Rightarrow> status_t \<Rightarrow> 's \<Rightarrow> (status_t \<times> 's) outcome" where
  "post_loop 0 run c temp ret s = Hang"
| "post_loop (Suc fuel) run c temp ret s =
     (if temp = NULL \<or> post_config (cb_nodes c temp) = 0 then Fault Null_deref
      else let (r1, s1) = run (post_config (cb_nodes c temp)) s;
               (r2, s2) = run (post_config (cb_nodes c temp)) s1;
               ret1 = ret OR r1 OR r2
           in if next_of c temp \<noteq> NULL then post_loop fuel run c (next_of c temp) ret1 s2 else Ok (ret1, s2))"

definition sysclk_execute_post_config_clk_callback ::
  "nat \<Rightarrow> (callback \<Rightarrow> 's \<Rightarrow> status_t \<times> 's) \<Rightarrow> cb_state \<Rightarrow> 's \<Rightarrow> (status_t \<times> 's) outcome" where
  "sysclk_execute_post_config_clk_callback fuel run c s = post_loop fuel run c (cb_root c) success s"

section \<open>The list as a list\<close>

fun chain :: "(ptr \<Rightarrow> ptr) \<Rightarrow> ptr \<Rightarrow> ptr list \<Rightarrow> ptr \<Rightarrow> bool" where
  "chain nx p [] q \<longleftrightarrow> p = q"
| "chain nx p (x # xs) q \<longleftrightarrow> p = x \<and> x \<noteq> NULL \<and> chain nx (nx x) xs q"

definition cb_list :: "cb_state \<Rightarrow> ptr list \<Rightarrow> bool" where
  "cb_list c xs \<longleftrightarrow> chain (next_of c) (cb_root c) xs NULL \<and> distinct xs"

lemma chain_append: "chain nx p (xs @ ys) q \<longleftrightarrow> (\<exists>r. chain nx p xs r \<and> chain nx r ys q)"
  by (induction xs arbitrary: p) auto

lemma chain_upd [simp]: "a \<notin> set xs \<Longrightarrow> chain (nx(a := b)) p xs q \<longleftrightarrow> chain nx p xs q"
  by (induction xs arbitrary: p) auto

lemma next_of_set_next [simp]: "next_of (set_next p q c) = (next_of c)(p := q)"
  by (auto simp: next_of_def set_next_def)

lemma cb_root_set_next [simp]: "cb_root (set_next p q c) = cb_root c"
  by (simp add: set_next_def)

lemma chain_nonnull: "chain nx p xs q \<Longrightarrow> y \<in> set xs \<Longrightarrow> y \<noteq> NULL"
  by (induction xs arbitrary: p) auto

lemma chain_next_in: "chain nx p (xs @ [l]) q \<Longrightarrow> y \<in> set xs \<Longrightarrow> nx y \<in> set (xs @ [l])"
proof (induction xs arbitrary: p)
  case (Cons x xs)
  then show ?case by (cases xs) auto
qed simp

lemma register_walk_last:
  assumes "chain (next_of c) p (xs @ [l]) NULL" and "length xs < fuel" and "node \<notin> set (tl (xs @ [l]))"
  shows "register_walk fuel c node p = Ok (Inr l)"
  using assms
proof (induction xs arbitrary: p fuel)
  case Nil
  then show ?case by (cases fuel) auto
next
  case (Cons x xs)
  then obtain f where f: "fuel = Suc f" by (cases fuel) auto
  let ?n = "hd (xs @ [l])"
  have n: "next_of c x = ?n" "?n \<noteq> NULL" "?n \<noteq> node" "p = x" "chain (next_of c) ?n (xs @ [l]) NULL"
    using Cons.prems by (cases xs; auto)+
  moreover have "node \<notin> set (tl (xs @ [l]))" using Cons.prems(3) by (cases xs) auto
  ultimately show ?case using Cons.IH [of ?n f] Cons.prems(2) by (simp add: f)
qed

lemma register_walk_dup:
  assumes "chain (next_of c) p (x # xs) NULL" and "node \<in> set xs" and "length xs < fuel"
  shows "register_walk fuel c node p = Ok (Inl ())"
  using assms
proof (induction xs arbitrary: p x fuel)
  case (Cons y ys)
  then obtain f where "fuel = Suc f" by (cases fuel) auto
  then show ?case using Cons.IH [of y y f] Cons.prems by auto
qed simp

lemma deregister_walk_found:
  assumes "chain (next_of c) p (xs @ node # ys) NULL" and "node \<notin> set xs" and "length xs < fuel"
  shows "deregister_walk fuel c node q p = Ok (Some (last (q # xs), node))"
  using assms
proof (induction xs arbitrary: p q fuel)
  case Nil
  then show ?case by (cases fuel) auto
next
  case (Cons x xs)
  then obtain f where f: "fuel = Suc f" by (cases fuel) auto
  have n: "next_of c x \<noteq> NULL" using Cons.prems(1) by (cases xs) auto
  then show ?case using Cons.IH [of "next_of c x" f x] Cons.prems by (auto simp: f)
qed

lemma deregister_walk_missing:
  assumes "chain (next_of c) p (x # xs) NULL" and "node \<notin> set (x # xs)" and "length xs < fuel"
  shows "deregister_walk fuel c node q p = Ok None"
  using assms
proof (induction xs arbitrary: p x q fuel)
  case Nil
  then show ?case by (cases fuel) auto
next
  case (Cons y ys)
  then obtain f where "fuel = Suc f" by (cases fuel) auto
  then show ?case using Cons.IH [of y y f x] Cons.prems by auto
qed

definition callbacks_set :: "cb_state \<Rightarrow> ptr \<Rightarrow> bool" where
  "callbacks_set c p \<longleftrightarrow> pre_config (cb_nodes c p) \<noteq> 0 \<and> post_config (cb_nodes c p) \<noteq> 0"

definition fresh_node :: "ptr \<Rightarrow> cb_state \<Rightarrow> bool" where
  "fresh_node p c \<longleftrightarrow> p \<noteq> NULL \<and> callbacks_set c p \<and> next_of c p = NULL"

lemma set_next_callbacks [simp]: "callbacks_set (set_next p q c) = callbacks_set c"
  by (auto simp: callbacks_set_def set_next_def fun_eq_iff)

lemma set_root_simps [simp]:
  "callbacks_set (c\<lparr>cb_root := p\<rparr>) = callbacks_set c" "next_of (c\<lparr>cb_root := p\<rparr>) = next_of c"
  by (auto simp: callbacks_set_def next_of_def fun_eq_iff)

lemma register_fresh:
  assumes "cb_list c xs" and "fresh_node node c" and "node \<notin> set xs" and "length xs < fuel"
  shows "\<exists>c'. sysclk_register_config_clk_callback fuel node c = Ok (success, c') \<and> cb_list c' (xs @ [node])
    \<and> callbacks_set c' = callbacks_set c \<and> (\<forall>m. m \<notin> set xs \<longrightarrow> next_of c' m = next_of c m)"
proof (cases xs rule: rev_cases)
  case Nil
  then show ?thesis
    using assms(1-3)
    by (auto simp: sysclk_register_config_clk_callback_def cb_list_def fresh_node_def callbacks_set_def)
next
  case (snoc ys l)
  have ch: "chain (next_of c) (cb_root c) (ys @ [l]) NULL" "distinct (ys @ [l])"
    using assms(1) snoc by (simp_all add: cb_list_def)
  then have r: "cb_root c \<noteq> NULL" by (cases ys) auto
  have w: "register_walk fuel c node (cb_root c) = Ok (Inr l)"
    using register_walk_last [OF ch(1), of fuel node] assms(3,4) snoc by (cases ys) auto
  have "cb_list (set_next l node c) (xs @ [node])"
    using ch assms(2,3) snoc by (auto simp: cb_list_def chain_append fresh_node_def)
  then show ?thesis
    using assms(2) r w snoc
    by (auto simp: sysclk_register_config_clk_callback_def fresh_node_def callbacks_set_def [of c node])
qed

lemma deregister_member:
  assumes "cb_list c xs" and "length xs < fuel" and "node \<in> set xs"
  shows "\<exists>c'. sysclk_deregister_config_clk_callback fuel node c = Ok (success, c') \<and> cb_list c' (remove1 node xs)
    \<and> callbacks_set c' = callbacks_set c \<and> (\<forall>m. m \<notin> set (remove1 node xs) \<longrightarrow> cb_nodes c' m = cb_nodes c m)"
proof -
  obtain ys zs where s: "xs = ys @ node # zs" "node \<notin> set ys" using assms(3) by (metis split_list_first)
  have ch: "chain (next_of c) (cb_root c) (ys @ node # zs) NULL" "distinct (ys @ node # zs)"
    using assms(1) s by (simp_all add: cb_list_def)
  have n: "node \<noteq> NULL" using chain_nonnull [OF ch(1)] by simp
  show ?thesis
  proof (cases ys rule: rev_cases)
    case Nil
    then show ?thesis
      using ch n s by (simp add: sysclk_deregister_config_clk_callback_def cb_list_def)
  next
    case (snoc ws w)
    have r: "cb_root c \<noteq> NULL" "cb_root c \<noteq> node" using ch s(2) snoc by (cases ws; auto)+
    have "deregister_walk fuel c node NULL (cb_root c) = Ok (Some (w, node))"
      using deregister_walk_found [OF ch(1) s(2), of fuel NULL] assms(2) s(1) snoc by auto
    moreover have "cb_list (set_next w (next_of c node) c) (ys @ zs)"
      using ch snoc by (auto simp: cb_list_def chain_append)
    moreover have "cb_nodes (set_next w q c) m = cb_nodes c m" if "m \<notin> set (remove1 node xs)" for m q
      using that s snoc by (auto simp: set_next_def remove1_append)
    ultimately show ?thesis
      using r s snoc by (auto simp: sysclk_deregister_config_clk_callback_def remove1_append)
  qed
qed

text \<open>C26: a node with both callbacks set, not in the list and with a cleared link is appended by
  \<open>sysclk_register_config_clk_callback\<close>; a node that is in the list after its head is refused; a node without a
  callback is refused. Taking a node out removes exactly that node, and a node that is not there is reported.\<close>

theorem sysclk_callback_list:
  assumes "cb_list c xs" and "length xs < fuel" and "node \<noteq> NULL"
  shows "(fresh_node node c \<and> node \<notin> set xs \<longrightarrow>
      (\<exists>c'. sysclk_register_config_clk_callback fuel node c = Ok (success, c') \<and> cb_list c' (xs @ [node])))
    \<and> (callbacks_set c node \<and> node \<in> set (tl xs) \<longrightarrow>
      sysclk_register_config_clk_callback fuel node c = Ok (error_list_node_exists, c))
    \<and> (\<not> callbacks_set c node \<longrightarrow> sysclk_register_config_clk_callback fuel node c = Ok (error_func_inval_arg, c))
    \<and> (node \<in> set xs \<longrightarrow>
      (\<exists>c'. sysclk_deregister_config_clk_callback fuel node c = Ok (success, c') \<and> cb_list c' (remove1 node xs)))
    \<and> (node \<notin> set xs \<longrightarrow> sysclk_deregister_config_clk_callback fuel node c =
        Ok (if xs = [] then error_func_inval_arg else error_list_node_not_found, c))"
proof (intro conjI impI, elim conjE)
  assume "fresh_node node c" and "node \<notin> set xs"
  then show "\<exists>c'. sysclk_register_config_clk_callback fuel node c = Ok (success, c') \<and> cb_list c' (xs @ [node])"
    using register_fresh [OF assms(1)] assms(2) by blast
next
  assume d: "callbacks_set c node \<and> node \<in> set (tl xs)"
  then obtain x ys where x: "xs = x # ys" by (cases xs) auto
  then show "sysclk_register_config_clk_callback fuel node c = Ok (error_list_node_exists, c)"
    using d assms register_walk_dup [of c "cb_root c" x ys node fuel]
    by (auto simp: sysclk_register_config_clk_callback_def cb_list_def callbacks_set_def)
next
  assume "\<not> callbacks_set c node"
  then show "sysclk_register_config_clk_callback fuel node c = Ok (error_func_inval_arg, c)"
    using assms(3) by (auto simp: sysclk_register_config_clk_callback_def callbacks_set_def)
next
  assume "node \<in> set xs"
  then show "\<exists>c'. sysclk_deregister_config_clk_callback fuel node c = Ok (success, c') \<and> cb_list c' (remove1 node xs)"
    using deregister_member [OF assms(1,2)] by blast
next
  assume n: "node \<notin> set xs"
  show "sysclk_deregister_config_clk_callback fuel node c =
        Ok (if xs = [] then error_func_inval_arg else error_list_node_not_found, c)"
  proof (cases xs)
    case Nil
    then show ?thesis using assms(1) by (simp add: sysclk_deregister_config_clk_callback_def cb_list_def)
  next
    case (Cons x ys)
    then show ?thesis
      using n assms(1,2) deregister_walk_missing [of c "cb_root c" x ys node fuel NULL]
      by (auto simp: sysclk_deregister_config_clk_callback_def cb_list_def)
  qed
qed

section \<open>Running the callbacks\<close>

text \<open>The callbacks \<open>hs\<close> one after the other, with their statuses joined.\<close>

definition run_seq :: "(callback \<Rightarrow> 's \<Rightarrow> status_t \<times> 's) \<Rightarrow> callback list \<Rightarrow> status_t \<times> 's \<Rightarrow> status_t \<times> 's" where
  "run_seq run hs = fold (\<lambda>h (ret, s). case run h s of (r, s') \<Rightarrow> (ret OR r, s')) hs"

lemma run_seq_simps [simp]:
  "run_seq run [] a = a"
  "run_seq run (h # hs) (ret, s) = run_seq run hs (case run h s of (r, s') \<Rightarrow> (ret OR r, s'))"
  by (simp_all add: run_seq_def)

lemma pre_loop_run:
  assumes "chain (next_of c) p (x # xs) NULL" and "\<forall>y \<in> set (x # xs). callbacks_set c y" and "length xs < fuel"
  shows "pre_loop fuel run c p ret s = Ok (run_seq run (map (\<lambda>y. pre_config (cb_nodes c y)) (x # xs)) (ret, s))"
  using assms
proof (induction xs arbitrary: p x fuel ret s)
  case Nil
  then show ?case by (cases fuel) (auto simp: callbacks_set_def split: prod.split)
next
  case (Cons y ys)
  then obtain f where f: "fuel = Suc f" by (cases fuel) auto
  obtain r s' where r: "run (pre_config (cb_nodes c x)) s = (r, s')" by force
  show ?case using Cons.IH [of y y f "ret OR r" s'] Cons.prems by (auto simp: f r callbacks_set_def)
qed

lemma post_loop_run:
  assumes "chain (next_of c) p (x # xs) NULL" and "\<forall>y \<in> set (x # xs). callbacks_set c y" and "length xs < fuel"
  shows "post_loop fuel run c p ret s =
    Ok (run_seq run (concat (map (\<lambda>y. [post_config (cb_nodes c y), post_config (cb_nodes c y)]) (x # xs))) (ret, s))"
  using assms
proof (induction xs arbitrary: p x fuel ret s)
  case Nil
  then show ?case by (cases fuel) (auto simp: callbacks_set_def or.assoc split: prod.split)
next
  case (Cons y ys)
  then obtain f where f: "fuel = Suc f" by (cases fuel) auto
  obtain r s' where r: "run (post_config (cb_nodes c x)) s = (r, s')" by force
  obtain r2 s2 where r2: "run (post_config (cb_nodes c x)) s' = (r2, s2)" by force
  show ?case using Cons.IH [of y y f "ret OR r OR r2" s2] Cons.prems by (auto simp: f r r2 callbacks_set_def or.assoc)
qed

lemma callbacks_run:
  assumes "cb_list c xs" and "xs \<noteq> []" and "\<forall>y \<in> set xs. callbacks_set c y" and "length xs \<le> fuel"
  shows "sysclk_execute_pre_config_clk_callback fuel run c s =
      Ok (run_seq run (map (\<lambda>y. pre_config (cb_nodes c y)) xs) (success, s))
    \<and> sysclk_execute_post_config_clk_callback fuel run c s =
      Ok (run_seq run (concat (map (\<lambda>y. [post_config (cb_nodes c y), post_config (cb_nodes c y)]) xs)) (success, s))"
proof -
  obtain x ys where x: "xs = x # ys" using assms(2) by (cases xs) auto
  have "chain (next_of c) (cb_root c) (x # ys) NULL" using assms(1) by (simp add: cb_list_def x)
  from pre_loop_run [OF this, of fuel run success s] post_loop_run [OF this, of fuel run success s] show ?thesis
    using assms(3,4)
    by (auto simp: x sysclk_execute_pre_config_clk_callback_def sysclk_execute_post_config_clk_callback_def
        simp del: run_seq_simps)
qed

lemma callbacks_return:
  assumes "cb_list c xs" and "xs \<noteq> []" and "\<forall>y \<in> set xs. callbacks_set c y" and "length xs \<le> fuel"
  obtains st e st' e' where "sysclk_execute_pre_config_clk_callback fuel run c s = Ok (st, e)"
    and "sysclk_execute_post_config_clk_callback fuel run c s' = Ok (st', e')"
proof -
  obtain st e where "run_seq run (map (\<lambda>y. pre_config (cb_nodes c y)) xs) (success, s) = (st, e)" by force
  moreover obtain st' e' where
    "run_seq run (concat (map (\<lambda>y. [post_config (cb_nodes c y), post_config (cb_nodes c y)]) xs)) (success, s') = (st', e')"
    by force
  ultimately show ?thesis
    using callbacks_run [OF assms, of run s] callbacks_run [OF assms, of run s'] that by simp
qed

text \<open>The callbacks around a clock change run in the order of registration, their statuses joined: the
  pre-configuration callback of every node once, the post-configuration callback of every node twice.\<close>

theorem sysclk_callbacks_run:
  assumes "cb_list c xs" and "xs \<noteq> []" and "\<forall>y \<in> set xs. callbacks_set c y" and "length xs \<le> fuel"
  shows "sysclk_execute_pre_config_clk_callback fuel run c s =
      Ok (run_seq run (map (\<lambda>y. pre_config (cb_nodes c y)) xs) (success, s))
    \<and> sysclk_execute_post_config_clk_callback fuel run c s =
      Ok (run_seq run (concat (map (\<lambda>y. [post_config (cb_nodes c y), post_config (cb_nodes c y)]) xs)) (success, s))"
  by (rule callbacks_run [OF assms])

section \<open>Faults of the list\<close>

lemma pre_loop_cycle:
  assumes "\<forall>y \<in> S. y \<noteq> NULL \<and> next_of c y \<in> S" and "p \<in> S"
  shows "pre_loop fuel run c p ret s = Hang"
  using assms(2)
proof (induction fuel arbitrary: p ret s)
  case (Suc fuel)
  then have n: "p \<noteq> NULL" "next_of c p \<in> S" "next_of c p \<noteq> NULL" using assms(1) by auto
  then show ?case using Suc.IH [OF n(2)] by (simp add: Let_def split: prod.split)
qed simp

text \<open>A node that was taken out keeps its old link. Registering it again closes a cycle: when the head of a list of at
  least two nodes is taken out and registered again, both calls succeed, and from then on the callbacks before a clock
  change never end.\<close>

theorem sysclk_reregister_cycle:
  assumes "cb_list c (a # b # xs)" and "callbacks_set c a" and "length xs + 2 \<le> fuel"
  shows "\<exists>c1 c2. sysclk_deregister_config_clk_callback fuel a c = Ok (success, c1)
    \<and> sysclk_register_config_clk_callback fuel a c1 = Ok (success, c2)
    \<and> (\<forall>n run. sysclk_execute_pre_config_clk_callback n run c2 s = Hang)"
proof -
  let ?c1 = "c\<lparr>cb_root := b\<rparr>"
  obtain ys l where l: "b # xs = ys @ [l]" by (metis list.distinct(1) rev_exhaust)
  let ?c2 = "set_next l a ?c1"
  have ch: "cb_root c = a" "a \<noteq> NULL" "next_of c a = b" "chain (next_of c) b (b # xs) NULL" "distinct (a # b # xs)"
    using assms(1) by (auto simp: cb_list_def)
  have d: "sysclk_deregister_config_clk_callback fuel a c = Ok (success, ?c1)"
    using ch by (simp add: sysclk_deregister_config_clk_callback_def)
  have "register_walk fuel ?c1 a b = Ok (Inr l)"
    using register_walk_last [of ?c1 b ys l fuel a] ch(4,5) assms(3) l
    by (cases ys) (auto dest: arg_cong [of _ _ length])
  then have r: "sysclk_register_config_clk_callback fuel a ?c1 = Ok (success, ?c2)"
    using ch assms(2) by (auto simp: sysclk_register_config_clk_callback_def callbacks_set_def)
  have closed: "next_of ?c2 y \<in> insert a (set (b # xs)) \<and> y \<noteq> NULL" if y: "y \<in> insert a (set (b # xs))" for y
  proof -
    have nn: "y \<noteq> NULL" using y ch(2) chain_nonnull [OF ch(4)] by auto
    consider "y = l" | "y = a" "y \<noteq> l" | "y \<in> set ys" "y \<noteq> l"
      using y arg_cong [OF l, of set] by auto
    then have "next_of ?c2 y \<in> insert a (set (b # xs))"
    proof cases
      case 3
      then show ?thesis using chain_next_in [OF ch(4) [unfolded l], of y] l by auto
    qed (use ch in auto)
    then show ?thesis using nn by simp
  qed
  have "\<forall>y \<in> insert a (set (b # xs)). y \<noteq> NULL \<and> next_of ?c2 y \<in> insert a (set (b # xs))" using closed by blast
  then have "sysclk_execute_pre_config_clk_callback n run ?c2 s = Hang" for n run
    using pre_loop_cycle [of "insert a (set (b # xs))" ?c2 b n run success s]
    by (simp add: sysclk_execute_pre_config_clk_callback_def)
  then show ?thesis using d r by blast
qed

text \<open>With no callback registered, both functions follow the NULL head of the list.\<close>

theorem sysclk_callbacks_empty_fault:
  assumes "cb_root c = NULL"
  shows "sysclk_execute_pre_config_clk_callback (Suc fuel) run c s = Fault Null_deref
    \<and> sysclk_execute_post_config_clk_callback (Suc fuel) run c s = Fault Null_deref"
  using assms by (simp add: sysclk_execute_pre_config_clk_callback_def sysclk_execute_post_config_clk_callback_def)

section \<open>The PRCI driver\<close>

text \<open>The static data of the driver, the interrupt state of the core, the devices (with the port of the CLINT, which the PLL
  needs), the list of callbacks, and the state \<open>'s\<close> the callbacks work on.\<close>

record ('d, 's) sysclk_state =
  sysclk :: "sysclk_port_t option"
  clk_type :: u32
  sc_pllc :: pllc_t
  sc_cpu :: cpu
  sc_clint :: "'d clint"
  sc_cbs :: cb_state
  sc_env :: 's

abbreviation (input) clk_internal :: u32 where "clk_internal \<equiv> 0"
abbreviation (input) clk_external :: u32 where "clk_external \<equiv> 1"
abbreviation (input) clk_pll :: u32 where "clk_pll \<equiv> 2"

definition on_dev :: "('d \<Rightarrow> 'd) \<Rightarrow> ('d, 's) sysclk_state \<Rightarrow> ('d, 's) sysclk_state" where
  "on_dev f s = s\<lparr>sc_clint := (sc_clint s)\<lparr>clint_dev := f (clint_dev (sc_clint s))\<rparr>\<rparr>"

definition on_dev_st ::
  "('d \<Rightarrow> (status_t \<times> 'd) outcome) \<Rightarrow> ('d, 's) sysclk_state \<Rightarrow> (status_t \<times> ('d, 's) sysclk_state) outcome" where
  "on_dev_st f s = obind (f (clint_dev (sc_clint s))) (\<lambda>(r, d). Ok (r, on_dev (\<lambda>_. d) s))"

text \<open>\<open>port && port->baddr && port->base_clk\<close>\<close>

definition usable :: "sysclk_port_t option \<Rightarrow> bool" where
  "usable p = (case p of None \<Rightarrow> False | Some q \<Rightarrow> sp_baddr q \<noteq> 0 \<and> sp_base_clk q \<noteq> 0)"

text \<open>The bodies between \<open>arch_di_save_state\<close> and \<open>arch_ei_restore_state\<close>.\<close>

definition irq_guarded ::
  "(('d, 's) sysclk_state \<Rightarrow> ('a \<times> ('d, 's) sysclk_state) outcome) \<Rightarrow> ('d, 's) sysclk_state
     \<Rightarrow> ('a \<times> ('d, 's) sysclk_state) outcome" where
  "irq_guarded f s =
     (case arch_di_save_state (sc_cpu s) of (ist, cpu) \<Rightarrow>
        obind (f (s\<lparr>sc_cpu := cpu\<rparr>)) (\<lambda>(a, s1). Ok (a, s1\<lparr>sc_cpu := arch_ei_restore_state ist (sc_cpu s1)\<rparr>)))"

text \<open>What a call of \<open>malloc\<close> or \<open>free\<close> does to the CSRs: the heap's lock disables the interrupts, and its release enables them,
  whether or not they were enabled before.\<close>

definition heap_call :: "('d, 's) sysclk_state \<Rightarrow> ('d, 's) sysclk_state" where
  "heap_call s = (case arch_di_save_state (sc_cpu s) of (ist, c) \<Rightarrow> s\<lparr>sc_cpu := arch_ei_restore_state ist c\<rparr>)"

lemma heap_call_mie [simp]: "mie (sc_cpu (heap_call s)) = mie (sc_cpu s)"
  using restore_after_save(1) by (simp add: heap_call_def case_prod_unfold)

text \<open>\<open>alloc\<close>: the allocation succeeds, with the contents \<open>raw\<close>. On the error paths \<open>ist\<close> is not initialised before it is used to
  restore the interrupt state; \<open>junk\<close> is what it holds.\<close>

definition sysclk_setup ::
  "resources \<Rightarrow> bool \<Rightarrow> sysclk_port_t \<Rightarrow> u32 \<Rightarrow> ('d, 's) sysclk_state \<Rightarrow> (status_t \<times> ('d, 's) sysclk_state) outcome" where
  "sysclk_setup r alloc raw junk s =
     (let s = heap_call s; cleanup_exit = (\<lambda>s. case heap_call s of s1 \<Rightarrow> s1\<lparr>sc_cpu := arch_ei_restore_state junk (sc_cpu s1)\<rparr>)
      in if \<not> alloc then Ok (error_memory_low, s\<lparr>sysclk := None\<rparr>)
      else obind (visor_fetch r fetch_dp hw_clock 0) (\<lambda>v.
        if vr_status v \<noteq> success then Ok (vr_status v, cleanup_exit (s\<lparr>sysclk := Some (raw\<lparr>sp_base_clk := 0\<rparr>)\<rparr>))
        else case vr_p v of
               P_clock clk \<Rightarrow>
                 obind (visor_fetch r fetch_dp hw_prci 0) (\<lambda>w.
                   if vr_status w \<noteq> success then Ok (vr_status w, cleanup_exit (s\<lparr>sysclk := Some (raw\<lparr>sp_base_clk := clk\<rparr>)\<rparr>))
                   else case vr_p w of
                          P_module m \<Rightarrow>
                            irq_guarded (\<lambda>s. Ok (success, s\<lparr>sysclk := Some \<lparr>sp_port_id = mod_id m, sp_base_clk = clk,
                              sp_baddr = mod_baddr m, sp_stride = mod_stride m, sp_type = mod_clk_id m\<rparr>\<rparr>)) s
                        | _ \<Rightarrow> Fault Null_deref)
             | _ \<Rightarrow> Fault Null_deref))"

text \<open>\<open>sysclk_disable\<close> clears the port before it frees it; the pointer stays.\<close>

definition sysclk_disable :: "nat \<Rightarrow> 'd hw \<Rightarrow> ('d, 's) sysclk_state \<Rightarrow> (status_t \<times> ('d, 's) sysclk_state) outcome" where
  "sysclk_disable fuel hw s =
     (case sysclk s of
        None \<Rightarrow> Ok (error_driver_data, s)
      | Some port \<Rightarrow>
          if \<not> usable (Some port) then Ok (error_driver_data, s)
          else irq_guarded (\<lambda>s.
            obind (on_dev_st (prci_hfosc_enable fuel hw port) s) (\<lambda>(r1, s1).
            obind (on_dev_st (prci_hfosc_set_clk fuel hw port 16000000) s1) (\<lambda>(r2, s2).
            Ok (r1 OR r2, heap_call ((on_dev (\<lambda>d. prci_pll_inline hw port (prci_pll_deselect_pll hw port d)) s2)
              \<lparr>sysclk := Some \<lparr>sp_port_id = 0, sp_base_clk = 0, sp_baddr = 0, sp_stride = 0, sp_type = 0\<rparr>\<rparr>))))) s)"

definition sysclk_set_external :: "nat \<Rightarrow> 'd hw \<Rightarrow> sysclk_port_t \<Rightarrow> ('d, 's) sysclk_state \<Rightarrow> (status_t \<times> ('d, 's) sysclk_state) outcome" where
  "sysclk_set_external fuel hw port s =
     obind (on_dev_st (prci_hfosc_enable fuel hw port) s) (\<lambda>(r1, s1).
     obind (on_dev_st (prci_hfxocs_enable fuel hw port) s1) (\<lambda>(r2, s2).
     obind (on_dev_st (\<lambda>d. Ok (prci_hfosc_disable hw port d))
       (on_dev (\<lambda>d. prci_pll_bypass hw port (prci_pll_select_pll hw port (prci_pll_select_xosc hw port d))) s2)) (\<lambda>(r3, s3).
     Ok (r1 OR r2 OR r3, s3))))"

text \<open>\<open>sysclk_reset\<close> takes the same steps as \<open>sysclk_set_external\<close> under the guard.\<close>

definition sysclk_reset :: "nat \<Rightarrow> 'd hw \<Rightarrow> ('d, 's) sysclk_state \<Rightarrow> (status_t \<times> ('d, 's) sysclk_state) outcome" where
  "sysclk_reset fuel hw s =
     (case sysclk s of
        None \<Rightarrow> Ok (error_driver_data, s)
      | Some port \<Rightarrow>
          if \<not> usable (Some port) then Ok (error_driver_data, s)
          else irq_guarded (\<lambda>s. obind (sysclk_set_external fuel hw port s) (\<lambda>(r, s1). Ok (r, s1\<lparr>clk_type := clk_external\<rparr>))) s)"

text \<open>The status joined in the three functions below is only logged.\<close>

definition sysclk_set_internal :: "nat \<Rightarrow> 'd hw \<Rightarrow> sysclk_port_t \<Rightarrow> u32 \<Rightarrow> ('d, 's) sysclk_state \<Rightarrow> (status_t \<times> ('d, 's) sysclk_state) outcome" where
  "sysclk_set_internal fuel hw port clk s =
     obind (on_dev_st (prci_hfxocs_enable fuel hw port) s) (\<lambda>(r1, s1).
     obind (on_dev_st (prci_hfosc_enable fuel hw port) (on_dev (prci_pll_bypass hw port) s1)) (\<lambda>(r2, s2).
     obind (on_dev_st (prci_hfosc_set_clk fuel hw port clk) s2) (\<lambda>(r3, s3).
     obind (on_dev_st (\<lambda>d. Ok (prci_hfxocs_disable hw port d))
       (on_dev (\<lambda>d. prci_pll_inline hw port (prci_pll_deselect_pll hw port (prci_pll_select_rosc hw port d))) s3)) (\<lambda>(r4, s4).
     Ok (r1 OR r2 OR r3 OR r4, s4)))))"

definition sysclk_set_pll :: "nat \<Rightarrow> 'd hw \<Rightarrow> sysclk_port_t \<Rightarrow> u32 \<Rightarrow> ('d, 's) sysclk_state \<Rightarrow> (status_t \<times> ('d, 's) sysclk_state) outcome" where
  "sysclk_set_pll fuel hw port clk s =
     obind (on_dev_st (prci_hfosc_enable fuel hw port) s) (\<lambda>(r1, s1).
     obind (on_dev_st (prci_hfxocs_enable fuel hw port) s1) (\<lambda>(r2, s2).
     let s3 = on_dev (\<lambda>d. prci_pll_select_xosc hw port (prci_pll_bypass hw port d)) s2
     in obind (prci_pll_set_clk fuel hw port clk (sc_clint s3)) (\<lambda>(conf, c).
     obind (on_dev_st (\<lambda>d. Ok (prci_hfosc_disable hw port d))
       (on_dev (\<lambda>d. prci_pll_inline hw port (prci_pll_select_pll hw port d)) (s3\<lparr>sc_pllc := conf, sc_clint := c\<rparr>))) (\<lambda>(r3, s4).
     Ok (r1 OR r2 OR r3, s4)))))"

text \<open>The result of a visor call on the clock: \<open>ret->p\<close> as a number, \<open>ret->size\<close> and \<open>ret->status\<close>.\<close>

record clk_vret =
  cv_p :: u32
  cv_size :: u32
  cv_status :: status_t

definition sysclk_switch :: "nat \<Rightarrow> 'd hw \<Rightarrow> sysclk_port_t \<Rightarrow> u32 \<Rightarrow> u32 \<Rightarrow> ('d, 's) sysclk_state \<Rightarrow> (bool \<times> ('d, 's) sysclk_state) outcome" where
  "sysclk_switch fuel hw port type clk s =
     (if type = clk_internal
      then obind (sysclk_set_internal fuel hw port clk s) (\<lambda>(_, s1). Ok (True, s1\<lparr>clk_type := clk_internal\<rparr>))
      else if type = clk_external
      then obind (sysclk_set_internal fuel hw port clk s) (\<lambda>(_, s1).
           obind (sysclk_set_external fuel hw port s1) (\<lambda>(_, s2). Ok (True, s2\<lparr>clk_type := clk_external\<rparr>)))
      else if type = clk_pll
      then obind (sysclk_set_pll fuel hw port clk s) (\<lambda>(_, s1). Ok (True, s1\<lparr>clk_type := clk_pll\<rparr>))
      else Ok (False, s))"

definition sysclk_configure_clk ::
  "nat \<Rightarrow> 'd hw \<Rightarrow> (callback \<Rightarrow> 's \<Rightarrow> status_t \<times> 's) \<Rightarrow> u32 \<Rightarrow> u32 \<Rightarrow> clk_vret \<Rightarrow> ('d, 's) sysclk_state
     \<Rightarrow> (clk_vret \<times> ('d, 's) sysclk_state) outcome" where
  "sysclk_configure_clk fuel hw run type clk ret s =
     (case sysclk s of
        None \<Rightarrow> Ok (ret\<lparr>cv_status := error_inval_pointer\<rparr>, s)
      | Some port \<Rightarrow>
          if \<not> usable (Some port) then Ok (ret\<lparr>cv_status := error_inval_pointer\<rparr>, s)
          else obind (sysclk_execute_pre_config_clk_callback fuel run (sc_cbs s) (sc_env s)) (\<lambda>(st, e).
               obind (irq_guarded (sysclk_switch fuel hw port type clk) (s\<lparr>sc_env := e\<rparr>)) (\<lambda>(known, s1).
               obind (sysclk_execute_post_config_clk_callback fuel run (sc_cbs s1) (sc_env s1)) (\<lambda>(st', e').
               Ok (\<lparr>cv_p = 0, cv_size = 0, cv_status = (if known then st else error_func_inval_arg) OR st'\<rparr>,
                   s1\<lparr>sc_env := e'\<rparr>)))))"

text \<open>When the PLL was never configured, \<open>getclk\<close> is read uninitialised; \<open>junk\<close> is what it holds.\<close>

definition sysclk_get_freq ::
  "'d hw \<Rightarrow> u32 \<Rightarrow> clk_vret \<Rightarrow> ('d, 's) sysclk_state \<Rightarrow> (clk_vret \<times> ('d, 's) sysclk_state) outcome" where
  "sysclk_get_freq hw junk ret s =
     (case sysclk s of
        None \<Rightarrow> Ok (ret\<lparr>cv_status := error_inval_pointer\<rparr>, s)
      | Some port \<Rightarrow>
          if \<not> usable (Some port) then Ok (ret\<lparr>cv_status := error_inval_pointer\<rparr>, s)
          else irq_guarded (\<lambda>s.
            if clk_type s = clk_internal
            then case prci_hfosc_get_clk hw port (clint_dev (sc_clint s)) of
                   (st, clk, d) \<Rightarrow> Ok (ret\<lparr>cv_p := clk, cv_status := st\<rparr>, on_dev (\<lambda>_. d) s)
            else if clk_type s = clk_external then Ok (ret\<lparr>cv_p := sp_base_clk port, cv_status := success\<rparr>, s)
            else if clk_type s = clk_pll
            then case prci_pll_get_clk port (sc_pllc s) of
                   (st, clk) \<Rightarrow> Ok (ret\<lparr>cv_p := (case clk of Some c \<Rightarrow> c | None \<Rightarrow> junk), cv_status := st\<rparr>, s)
            else Ok (\<lparr>cv_p = 0, cv_size = 0, cv_status = error_func_inval_arg\<rparr>, s)) s)"

text \<open>The calls through the dispatcher, which clears the result first.\<close>

definition no_vret :: clk_vret where
  "no_vret = \<lparr>cv_p = 0, cv_size = 0, cv_status = error_vcall_code_inval\<rparr>"

definition sysclk_set_clk ::
  "nat \<Rightarrow> 'd hw \<Rightarrow> (callback \<Rightarrow> 's \<Rightarrow> status_t \<times> 's) \<Rightarrow> u32 \<Rightarrow> u32 \<Rightarrow> ('d, 's) sysclk_state
     \<Rightarrow> (status_t \<times> ('d, 's) sysclk_state) outcome" where
  "sysclk_set_clk fuel hw run type clk s =
     obind (sysclk_configure_clk fuel hw run type clk no_vret s) (\<lambda>(v, s1). Ok (cv_status v, s1))"

definition sysclk_get_clk :: "'d hw \<Rightarrow> u32 \<Rightarrow> ('d, 's) sysclk_state \<Rightarrow> (status_t \<times> u32 \<times> ('d, 's) sysclk_state) outcome" where
  "sysclk_get_clk hw junk s =
     obind (sysclk_get_freq hw junk no_vret s) (\<lambda>(v, s1).
       Ok (cv_status v, if cv_status v = success then cv_p v else 0, s1))"

section \<open>Switching to the internal oscillator\<close>

text \<open>What the driver relies on: both oscillators as in \<open>osc_hw\<close>, and the selection bits of the PLL are storage.\<close>

definition prci_hw :: "'d hw \<Rightarrow> ('d \<Rightarrow> ptr \<Rightarrow> u32) \<Rightarrow> (ptr \<Rightarrow> u32) \<Rightarrow> nat \<Rightarrow> ptr \<Rightarrow> bool" where
  "prci_hw hw val m n b \<longleftrightarrow> osc_hw hw val m n b \<and> osc_hw hw val m n (b + 4) \<and> 0x70000 AND m (b + 8) = 0x70000"

lemma prci_hw_stores: "prci_hw hw val m n b \<Longrightarrow> stores hw val m"
  by (simp add: prci_hw_def osc_hw_def)

lemma clint_dev_on_dev [simp]: "clint_dev (sc_clint (on_dev f s)) = f (clint_dev (sc_clint s))"
  by (simp add: on_dev_def)

lemma on_dev_frame [simp]:
  "sysclk (on_dev f s) = sysclk s" "clk_type (on_dev f s) = clk_type s" "sc_cbs (on_dev f s) = sc_cbs s"
  "sc_env (on_dev f s) = sc_env s" "sc_pllc (on_dev f s) = sc_pllc s" "on_dev f (on_dev g s) = on_dev (\<lambda>d. f (g d)) s"
  by (simp_all add: on_dev_def)

lemma hfosc_get_val:
  assumes "osc_hw hw val m n (sp_baddr port)"
  shows "\<exists>d'. prci_hfosc_get_clk hw port d = (success, ICLK div ((val d (sp_baddr port) AND 63) + 1), d')"
proof -
  have "fst (hw_rd hw (sp_baddr port) d) AND 63 = val d (sp_baddr port) AND 63"
    using assms mask_parts(1) by (intro stores_rd_sub) (auto simp: osc_hw_def)
  then show ?thesis by (simp add: prci_hfosc_get_clk_def case_prod_unfold)
qed

lemma sysclk_set_internal_ok:
  assumes hw: "prci_hw hw val m n (sp_baddr port)" and "n \<le> fuel" and "clk \<noteq> 0"
    and "1 \<le> ICLK div clk" and "ICLK div clk \<le> 64"
  defines "b \<equiv> sp_baddr port"
  shows "\<exists>r d. sysclk_set_internal fuel hw port clk s = Ok (r, on_dev (\<lambda>_. d) s)
    \<and> val d b AND 63 = ICLK div clk - 1 \<and> bit (val d b) 30
    \<and> \<not> bit (val d (b + 4)) 30 \<and> \<not> bit (val d (b + 8)) 16 \<and> \<not> bit (val d (b + 8)) 18"
proof -
  note st = prci_hw_stores [OF hw]
  have o: "osc_hw hw val m n b" "osc_hw hw val m n (b + 4)" using hw by (simp_all add: prci_hw_def b_def)
  let ?d0 = "clint_dev (sc_clint s)"
  obtain d1 where d1: "prci_hfxocs_enable fuel hw port ?d0 = Ok (success, d1)"
    using osc_enable_ok [OF o(2) assms(2), of ?d0] unfolding prci_hfxocs_enable_def Let_def b_def by blast
  let ?d1 = "prci_pll_bypass hw port d1"
  obtain d2 where d2: "prci_hfosc_enable fuel hw port ?d1 = Ok (success, d2)"
      "val d2 = (val ?d1)(b := val ?d1 b OR push_bit 30 1)"
    using osc_enable_ok [OF o(1) assms(2), of ?d1] unfolding prci_hfosc_enable_def Let_def b_def by auto
  have "bit (val d2 b) 30" unfolding d2(2) by (simp add: bit_simps)
  then obtain d3 where d3: "prci_hfosc_set_clk fuel hw port clk d2 = Ok (success, d3)"
      "val d3 = (val d2)(b := (val d2 b AND NOT 63) OR ((ICLK div clk - 1) AND 63))"
    using hfosc_set_get [OF o(1) [unfolded b_def] _ assms(2,3), of d2] assms(4,5) unfolding b_def by auto
  have low: "(ICLK div clk - 1) AND 63 = ICLK div clk - 1" using divdr_fits assms(4,5) by blast
  let ?d3 = "prci_pll_inline hw port (prci_pll_deselect_pll hw port (prci_pll_select_rosc hw port d3))"
  obtain r4 d4 where d4: "prci_hfxocs_disable hw port ?d3 = (r4, d4)" by force
  have v3: "val ?d3 = (val d3)(b + 8 := ((val d3 (b + 8) AND NOT (push_bit 17 1)) AND NOT (push_bit 16 1)) AND NOT (push_bit 18 1))"
    by (simp only: prci_pll_inline_def prci_pll_deselect_pll_def prci_pll_select_rosc_def stores_and [OF st] b_def fun_upd_same fun_upd_upd)
  have v4: "val d4 = (val ?d3)(b + 4 := val ?d3 (b + 4) AND NOT (push_bit 30 1))"
    using d4 stores_rd_frame [OF st, of "b + 4" "mmio_and hw (b + 4) (NOT (push_bit 30 1)) ?d3"] stores_and [OF st, of "b + 4" _ ?d3]
    by (simp add: prci_hfxocs_disable_def Let_def case_prod_unfold b_def del: fun_upd_apply split: if_splits)
  have vb: "val d4 b = (val d2 b AND NOT 63) OR (ICLK div clk - 1)"
    unfolding v4 v3 d3(2) low by simp
  have "val d4 b AND 63 = ICLK div clk - 1"
    unfolding vb bit.conj_disj_distrib2 low by (simp add: and.assoc)
  moreover have "bit (val d4 b) 30" unfolding vb using \<open>bit (val d2 b) 30\<close> by (simp add: bit_simps)
  moreover have "\<not> bit (val d4 (b + 4)) 30" "\<not> bit (val d4 (b + 8)) 16" "\<not> bit (val d4 (b + 8)) 18"
    unfolding v4 v3 by (simp_all add: bit_simps)
  moreover have "sysclk_set_internal fuel hw port clk s = Ok (r4, on_dev (\<lambda>_. d4) s)"
    using d1 d2(1) d3(1) d4 by (simp add: sysclk_set_internal_def on_dev_st_def)
  ultimately show ?thesis by blast
qed

text \<open>After \<open>sysclk_set_clk(internal, clk)\<close>, for a frequency the oscillator can be divided to (between 1/64 and all of its
  72 MHz), with callbacks registered: the call returns, the core runs from the internal oscillator (neither the
  PLL nor the crystal is in use), and \<open>sysclk_get_clk\<close> reads back the frequency of the divider that was set.\<close>

theorem sysclk_internal_roundtrip:
  assumes "prci_hw hw val m n (sp_baddr port)" and "n \<le> fuel" and "sysclk s = Some port" and "usable (Some port)"
    and "cb_list (sc_cbs s) xs" and "xs \<noteq> []" and "\<forall>y \<in> set xs. callbacks_set (sc_cbs s) y" and "length xs \<le> fuel"
    and "clk \<noteq> 0" and "1 \<le> ICLK div clk" and "ICLK div clk \<le> 64"
  shows "\<exists>st s' s''. sysclk_set_clk fuel hw run clk_internal clk s = Ok (st, s')
    \<and> \<not> bit (val (clint_dev (sc_clint s')) (sp_baddr port + PLLCFG_OFFSET)) 16
    \<and> \<not> bit (val (clint_dev (sc_clint s')) (sp_baddr port + HFXOSCCFG_OFFSET)) 30
    \<and> bit (val (clint_dev (sc_clint s')) (sp_baddr port)) 30
    \<and> sysclk_get_clk hw junk s' = Ok (success, ICLK div (ICLK div clk), s'')"
proof -
  let ?b = "sp_baddr port"
  obtain st1 e1 where pre: "sysclk_execute_pre_config_clk_callback fuel run (sc_cbs s) (sc_env s) = Ok (st1, e1)"
    by (rule callbacks_return [OF assms(5-8), of run "sc_env s" "sc_env s"])
  obtain ist cpu where di: "arch_di_save_state (sc_cpu s) = (ist, cpu)" by force
  let ?s1 = "s\<lparr>sc_env := e1, sc_cpu := cpu\<rparr>"
  obtain r d where d: "sysclk_set_internal fuel hw port clk ?s1 = Ok (r, on_dev (\<lambda>_. d) ?s1)"
    "val d ?b AND 63 = ICLK div clk - 1" "bit (val d ?b) 30"
    "\<not> bit (val d (?b + 4)) 30" "\<not> bit (val d (?b + 8)) 16"
    using sysclk_set_internal_ok [OF assms(1,2,9-11), of ?s1] by blast
  obtain st2 e2 where post: "sysclk_execute_post_config_clk_callback fuel run (sc_cbs s) e1 = Ok (st2, e2)"
    by (rule callbacks_return [OF assms(5-8), of run e1 e1])
  let ?s2 = "(on_dev (\<lambda>_. d) ?s1)\<lparr>clk_type := clk_internal, sc_cpu := arch_ei_restore_state ist cpu, sc_env := e2\<rparr>"
  have set: "sysclk_set_clk fuel hw run clk_internal clk s = Ok (st1 OR st2, ?s2)"
    using assms(3,4) pre post d(1) di
    by (simp add: sysclk_set_clk_def sysclk_configure_clk_def irq_guarded_def sysclk_switch_def) (simp add: on_dev_def)
  have "osc_hw hw val m n ?b" using assms(1) by (simp add: prci_hw_def)
  from hfosc_get_val [OF this, of d] obtain d' where "prci_hfosc_get_clk hw port d = (success, ICLK div (ICLK div clk), d')"
    unfolding d(2) by auto
  then obtain s'' where "sysclk_get_clk hw junk ?s2 = Ok (success, ICLK div (ICLK div clk), s'')"
    using assms(3,4) by (auto simp: sysclk_get_clk_def sysclk_get_freq_def irq_guarded_def on_dev_def no_vret_def case_prod_unfold)
  then show ?thesis using set d(3-5) by (intro exI [of _ "st1 OR st2"] exI [of _ ?s2] exI [of _ s'']) (simp add: on_dev_def)
qed

section \<open>A concrete machine\<close>

definition demo_cbs :: cb_state where
  "demo_cbs = \<lparr>cb_root = 0x100, cb_nodes = \<lambda>p. \<lparr>pre_config = 1, post_config = 2, cb_next = if p = 0x100 then 0x200 else NULL\<rparr>\<rparr>"

lemma demo_cb_list: "cb_list demo_cbs [0x100, 0x200]"
  by (simp add: cb_list_def demo_cbs_def next_of_def)

definition demo_sysclk :: "(ptr \<Rightarrow> u32, nat list) sysclk_state" where
  "demo_sysclk = \<lparr>sysclk = Some demo_prci_port, clk_type = clk_external, sc_pllc = no_config, sc_cpu = \<lparr>mie = 0, mstatus = 0\<rparr>,
     sc_clint = \<lparr>clint_port = None, clint_dev = \<lambda>_. 0\<rparr>, sc_cbs = demo_cbs, sc_env = []\<rparr>"

lemma demo_prci_hw: "prci_hw (plain_hw demo_rdy) (plain_val demo_rdy) (\<lambda>a. NOT (demo_rdy a)) 1 (sp_baddr demo_prci_port)"
  using demo_osc_hw [of "0x10008000"] demo_osc_hw [of "0x10008004"]
  by (simp add: prci_hw_def demo_prci_port_def) (simp add: demo_rdy_def)

theorem sysclk_callback_list_witness:
  "\<exists>c'. sysclk_register_config_clk_callback 3 0x300 demo_cbs = Ok (success, c') \<and> cb_list c' [0x100, 0x200, 0x300]"
  using sysclk_callback_list [OF demo_cb_list, of 3 "0x300"]
  by (simp add: fresh_node_def callbacks_set_def) (simp add: demo_cbs_def next_of_def)

theorem sysclk_callbacks_run_witness:
  "sysclk_execute_post_config_clk_callback 2 (\<lambda>h s. (success, s @ [h])) demo_cbs [] = Ok (success, [2, 2, 2, 2])"
  using sysclk_callbacks_run [OF demo_cb_list, of 2 "\<lambda>h s. (success, s @ [h])" "[]"]
  by (simp add: callbacks_set_def) (simp add: demo_cbs_def)

theorem sysclk_reregister_cycle_witness:
  "\<exists>c1 c2. sysclk_deregister_config_clk_callback 2 0x100 demo_cbs = Ok (success, c1)
    \<and> sysclk_register_config_clk_callback 2 0x100 c1 = Ok (success, c2)
    \<and> sysclk_execute_pre_config_clk_callback 50 (\<lambda>h s. (success, s)) c2 () = Hang"
proof -
  have "callbacks_set demo_cbs 0x100" by (simp add: demo_cbs_def callbacks_set_def)
  from sysclk_reregister_cycle [OF demo_cb_list this, of 2 "()"] show ?thesis by auto
qed

theorem sysclk_callbacks_empty_fault_witness:
  "sysclk_execute_pre_config_clk_callback 5 (\<lambda>h s. (success, s)) (demo_cbs\<lparr>cb_root := NULL\<rparr>) () = Fault Null_deref"
  using sysclk_callbacks_empty_fault [of "demo_cbs\<lparr>cb_root := NULL\<rparr>" 4 "\<lambda>h s. (success, s)" "()"] by simp

theorem sysclk_internal_roundtrip_witness:
  "\<exists>st s' s''. sysclk_set_clk 2 (plain_hw demo_rdy) (\<lambda>h s. (success, s)) clk_internal 16000000 demo_sysclk = Ok (st, s')
    \<and> sysclk_get_clk (plain_hw demo_rdy) 0 s' = Ok (success, 18000000, s'')"
proof -
  have "\<forall>y \<in> set [0x100, 0x200]. callbacks_set (sc_cbs demo_sysclk) y" "cb_list (sc_cbs demo_sysclk) [0x100, 0x200]"
    "sysclk demo_sysclk = Some demo_prci_port" "usable (Some demo_prci_port)"
    using demo_cb_list by (simp_all add: demo_sysclk_def callbacks_set_def demo_prci_port_def usable_def)
      (simp_all add: demo_cbs_def)
  with sysclk_internal_roundtrip [OF demo_prci_hw, of 2 demo_sysclk "[0x100, 0x200]" 16000000 "\<lambda>h s. (success, s)" 0]
  show ?thesis by (auto simp: ICLK_def)
qed

end
