(* ===== verification/Gpio.thy ===== *)
theory Gpio
  imports Mmio Resources
begin

text \<open>
  The GPIO block of the FE310 (\<open>platform/sifive/common_fe310/hal/gpio\<close>): the bookkeeping of pins that are in use and the
  register accesses. The bookkeeping is kept as the code has it, one byte per port.
\<close>

abbreviation (input) INPUTVAL_OFFSET :: u32 where "INPUTVAL_OFFSET \<equiv> 0x00"
abbreviation (input) INPUTEN_OFFSET :: u32 where "INPUTEN_OFFSET \<equiv> 0x04"
abbreviation (input) OUTPUTEN_OFFSET :: u32 where "OUTPUTEN_OFFSET \<equiv> 0x08"
abbreviation (input) OUTPUTVAL_OFFSET :: u32 where "OUTPUTVAL_OFFSET \<equiv> 0x0c"
abbreviation (input) PUE_OFFSET :: u32 where "PUE_OFFSET \<equiv> 0x10"
abbreviation (input) IOFEN_OFFSET :: u32 where "IOFEN_OFFSET \<equiv> 0x38"
abbreviation (input) IOFSEL_OFFSET :: u32 where "IOFSEL_OFFSET \<equiv> 0x3c"

abbreviation (input) gpio_out :: u32 where "gpio_out \<equiv> 1"
abbreviation (input) gpio_in :: u32 where "gpio_in \<equiv> 2"
abbreviation (input) gpio_pull_up :: u32 where "gpio_pull_up \<equiv> 3"

record gpio_port_t =
  g_pbaddr :: u32
  g_port :: u8
  g_pin :: u8

text \<open>\<open>uint8_t port_status[N_PORT]\<close>\<close>

type_synonym port_status = "u8 list"

text \<open>\<open>1 << pin\<close> in an \<open>int\<close>.\<close>

definition pin_bit :: "u8 \<Rightarrow> u32" where
  "pin_bit pin = push_bit (unat pin) 1"

section \<open>Pins in use\<close>

definition pin_taken :: "port_status \<Rightarrow> u8 \<Rightarrow> u8 \<Rightarrow> bool" where
  "pin_taken ps portID pinID \<longleftrightarrow> (ucast (ps ! unat portID) :: u32) AND pin_bit pinID \<noteq> 0"

text \<open>\<open>port_status[portID] |= (1 << pinID)\<close>: the result is cut to a byte when it is stored.\<close>

definition take_pin :: "u8 \<Rightarrow> u8 \<Rightarrow> port_status \<Rightarrow> port_status" where
  "take_pin portID pinID ps = ps[unat portID := ucast ((ucast (ps ! unat portID) :: u32) OR pin_bit pinID)]"

definition gpio_pin_alloc ::
  "resources \<Rightarrow> u8 \<Rightarrow> u8 \<Rightarrow> gpio_port_t \<Rightarrow> port_status \<Rightarrow> (status_t \<times> gpio_port_t \<times> port_status) outcome" where
  "gpio_pin_alloc r portID pinID port ps =
     require (unat portID < length ps) Out_of_bounds
       (if pin_taken ps portID pinID then Ok (error_driver_busy, port, ps)
        else let ps1 = take_pin portID pinID ps; port1 = port\<lparr>g_pin := pinID, g_port := portID\<rparr>
             in obind (visor_fetch r fetch_dp hw_gpio (ucast portID)) (\<lambda>v.
                  if vr_status v \<noteq> success then Ok (vr_status v, port1, ps1)
                  else case vr_p v of
                         P_gpio dp \<Rightarrow> Ok (success, port1\<lparr>g_pbaddr := gpio_baddr dp\<rparr>, ps1)
                       | _ \<Rightarrow> Fault Null_deref))"

definition gpio_pin_free :: "gpio_port_t \<Rightarrow> port_status \<Rightarrow> (status_t \<times> gpio_port_t \<times> port_status) outcome" where
  "gpio_pin_free port ps =
     require (unat (g_port port) < length ps) Out_of_bounds
       (Ok (success, \<lparr>g_pbaddr = 0, g_port = 0, g_pin = 0\<rparr>,
            ps[unat (g_port port) := ucast ((ucast (ps ! unat (g_port port)) :: u32) AND NOT (pin_bit (g_pin port)))]))"

section \<open>Pins\<close>

definition gpio_pin_mode :: "'d hw \<Rightarrow> gpio_port_t \<Rightarrow> u32 \<Rightarrow> 'd \<Rightarrow> status_t \<times> 'd" where
  "gpio_pin_mode hw port mode s =
     (let b = g_pbaddr port; bit = pin_bit (g_pin port);
          s1 = mmio_and hw (b + OUTPUTEN_OFFSET) (NOT bit) s;
          s2 = mmio_and hw (b + INPUTEN_OFFSET) (NOT bit) s1;
          s3 = mmio_and hw (b + PUE_OFFSET) (NOT bit) s2
      in if mode = gpio_out then (success, mmio_or hw (b + OUTPUTEN_OFFSET) bit s3)
         else if mode = gpio_pull_up then (success, mmio_or hw (b + PUE_OFFSET) bit s3)
         else if mode = gpio_in then (success, mmio_or hw (b + INPUTEN_OFFSET) bit s3)
         else (error_func_inval_arg, s3))"

definition gpio_pin_set :: "'d hw \<Rightarrow> gpio_port_t \<Rightarrow> 'd \<Rightarrow> status_t \<times> 'd" where
  "gpio_pin_set hw port s = (success, mmio_or hw (g_pbaddr port + OUTPUTVAL_OFFSET) (pin_bit (g_pin port)) s)"

definition gpio_pin_clear :: "'d hw \<Rightarrow> gpio_port_t \<Rightarrow> 'd \<Rightarrow> status_t \<times> 'd" where
  "gpio_pin_clear hw port s = (success, mmio_and hw (g_pbaddr port + OUTPUTVAL_OFFSET) (NOT (pin_bit (g_pin port))) s)"

definition gpio_pin_toggle :: "'d hw \<Rightarrow> gpio_port_t \<Rightarrow> 'd \<Rightarrow> status_t \<times> 'd" where
  "gpio_pin_toggle hw port s = (success, mmio_xor hw (g_pbaddr port + OUTPUTVAL_OFFSET) (pin_bit (g_pin port)) s)"

definition gpio_pin_read :: "'d hw \<Rightarrow> gpio_port_t \<Rightarrow> 'd \<Rightarrow> bool \<times> 'd" where
  "gpio_pin_read hw port s =
     (case hw_rd hw (g_pbaddr port + INPUTVAL_OFFSET) s of (x, s1) \<Rightarrow> (x AND pin_bit (g_pin port) \<noteq> 0, s1))"

definition gpio_enable_alt_io :: "'d hw \<Rightarrow> gpio_port_t \<Rightarrow> u32 \<Rightarrow> 'd \<Rightarrow> status_t \<times> 'd" where
  "gpio_enable_alt_io hw port alt_io s =
     (success, mmio_or hw (g_pbaddr port + IOFEN_OFFSET) (pin_bit (g_pin port))
                 (mmio_or hw (g_pbaddr port + IOFSEL_OFFSET) (push_bit (unat (g_pin port)) alt_io) s))"

definition gpio_disable_alt_io :: "'d hw \<Rightarrow> gpio_port_t \<Rightarrow> 'd \<Rightarrow> status_t \<times> 'd" where
  "gpio_disable_alt_io hw port s =
     (success, mmio_and hw (g_pbaddr port + IOFSEL_OFFSET) (NOT (pin_bit (g_pin port)))
                 (mmio_and hw (g_pbaddr port + IOFEN_OFFSET) (NOT (pin_bit (g_pin port))) s))"

section \<open>The bookkeeping\<close>

lemma pin_taken_bit: "pin_taken ps p n \<longleftrightarrow> bit (ps ! unat p) (unat n)"
  unfolding pin_taken_def pin_bit_def and_push_bit_nz
  using bit_imp_le_length [of "ps ! unat p" "unat n"] by (auto simp: bit_simps)

lemma take_pin_taken:
  assumes "unat p < length ps"
  shows "pin_taken (take_pin p n ps) q k \<longleftrightarrow> pin_taken ps q k \<or> (q = p \<and> k = n \<and> n < 8)"
  using assms
  by (auto simp: pin_taken_bit take_pin_def nth_list_update pin_bit_def word_unat_eq_iff bit_simps word_less_nat_alt
      dest: bit_imp_le_length)

text \<open>Allocating a pin and allocating it again: the second call is refused exactly for the pins 0 to 7. The record of the
  pins in use has eight bits per port, so that the pins from 8 on, among them all the FE310's tables name
  (16, 17 and 19 to 21), are never seen as taken.\<close>

theorem gpio_alloc_twice:
  assumes "gpio_pin_alloc r p n port ps = Ok (success, port1, ps1)"
  shows "gpio_pin_alloc r p n port' ps1 = Ok (error_driver_busy, port', ps1) \<longleftrightarrow> n < 8"
proof -
  have l: "unat p < length ps" and ps1: "ps1 = take_pin p n ps" and nt: "\<not> pin_taken ps p n"
    and f: "\<exists>v. visor_fetch r fetch_dp hw_gpio (ucast p) = Ok v \<and> vr_status v = success"
    using assms
    by (auto simp: gpio_pin_alloc_def require_eq_Ok obind_eq_Ok Let_def split: if_splits vptr.splits)
  have "pin_taken ps1 p n \<longleftrightarrow> n < 8" using nt by (simp add: ps1 take_pin_taken [OF l])
  moreover have "unat p < length ps1" using l by (simp add: ps1 take_pin_def)
  ultimately show ?thesis
    using f by (auto simp: gpio_pin_alloc_def Let_def split: vptr.splits)
qed

text \<open>\<open>gpio_pin_mode\<close> turns exactly the enable bit of the mode on for the pin and the two others off, and leaves the
  other pins alone.\<close>

theorem gpio_pin_mode_exclusive:
  assumes "stores hw val m" and "\<forall>a \<in> {g_pbaddr port + 4, g_pbaddr port + 8, g_pbaddr port + 16}. m a = - 1" and "g_pin port < 32"
    and "mode \<in> {gpio_out, gpio_in, gpio_pull_up}" and "gpio_pin_mode hw port mode s = (st, s')"
  shows "st = success
    \<and> (bit (val s' (g_pbaddr port + OUTPUTEN_OFFSET)) (unat (g_pin port)) \<longleftrightarrow> mode = gpio_out)
    \<and> (bit (val s' (g_pbaddr port + INPUTEN_OFFSET)) (unat (g_pin port)) \<longleftrightarrow> mode = gpio_in)
    \<and> (bit (val s' (g_pbaddr port + PUE_OFFSET)) (unat (g_pin port)) \<longleftrightarrow> mode = gpio_pull_up)
    \<and> (\<forall>a k. k \<noteq> unat (g_pin port) \<longrightarrow> bit (val s' a) k = bit (val s a) k)"
proof -
  let ?n = "unat (g_pin port)"
  have n: "?n < 32" using assms(3) by (simp add: word_less_nat_alt)
  have m: "m (g_pbaddr port + 4) = - 1" "m (g_pbaddr port + 8) = - 1" "m (g_pbaddr port + 16) = - 1" using assms(2) by auto
  show ?thesis
    using assms(4,5) n m
    by (auto simp: gpio_pin_mode_def Let_def stores_and [OF assms(1)] stores_or [OF assms(1)] pin_bit_def bit_simps
        split: if_splits dest: bit_lt_32)
qed

section \<open>Examples\<close>

definition demo_dp :: resources where
  "demo_dp = \<lparr>dev_prop = Some (fe310_device_prop 16000000), sw_prop = Some fe310_software_prop\<rparr>"

definition demo_pin :: "u8 \<Rightarrow> gpio_port_t" where
  "demo_pin n = \<lparr>g_pbaddr = 0x10012000, g_port = 0, g_pin = n\<rparr>"

theorem gpio_alloc_twice_witness:
  "gpio_pin_alloc demo_dp 0 19 (demo_pin 0) [0] = Ok (success, demo_pin 19, [0])
    \<and> gpio_pin_alloc demo_dp 0 19 (demo_pin 0) [0] \<noteq> Ok (error_driver_busy, demo_pin 0, [0])"
proof -
  have a: "gpio_pin_alloc demo_dp 0 19 (demo_pin 0) [0] = Ok (success, demo_pin 19, [0])"
    by (simp add: gpio_pin_alloc_def pin_taken_def take_pin_def pin_bit_def visor_fetch_def vcall_handler_def resource_vcalls_def
        platform_fetch_dp_def demo_dp_def fe310_device_prop_def ptr_of_def status_of_ptr_def demo_pin_def)
  from gpio_alloc_twice [OF a, of "demo_pin 0"] a show ?thesis by simp
qed

theorem gpio_pin_mode_exclusive_witness:
  "\<exists>s'. gpio_pin_mode (plain_hw (\<lambda>_. 0)) (demo_pin 19) gpio_out (\<lambda>_. - 1) = (success, s')
    \<and> \<not> bit (plain_val (\<lambda>_. 0) s' 0x10012004) 19"
proof -
  obtain st s' where s: "gpio_pin_mode (plain_hw (\<lambda>_. 0)) (demo_pin 19) gpio_out (\<lambda>_. - 1) = (st, s')" by force
  from gpio_pin_mode_exclusive [OF plain_stores _ _ _ s] s show ?thesis by (auto simp: demo_pin_def)
qed

end
