(* ===== verification/Uart.thy ===== *)
theory Uart
  imports Gpio Sys_Clock Interrupts Console
begin

text \<open>
  The UART of the FE310 (\<open>platform/sifive/common_fe310/hal/uart\<close>) and the serial console drivers on top of it
  (\<open>driver/console/con_serial_sifive\<close>): setup with pins, interrupt and baud rate, transmission by polling, and reception
  through an interrupt handler and a ring buffer.
\<close>

abbreviation (input) TXDATA_OFFSET :: u32 where "TXDATA_OFFSET \<equiv> 0x00"
abbreviation (input) RXDATA_OFFSET :: u32 where "RXDATA_OFFSET \<equiv> 0x04"
abbreviation (input) TXCTRL_OFFSET :: u32 where "TXCTRL_OFFSET \<equiv> 0x08"
abbreviation (input) RXCTRL_OFFSET :: u32 where "RXCTRL_OFFSET \<equiv> 0x0c"
abbreviation (input) UARTIE_OFFSET :: u32 where "UARTIE_OFFSET \<equiv> 0x10"
abbreviation (input) UARTIP_OFFSET :: u32 where "UARTIP_OFFSET \<equiv> 0x14"
abbreviation (input) UARTBR_OFFSET :: u32 where "UARTBR_OFFSET \<equiv> 0x18"

abbreviation (input) dir_tx :: u32 where "dir_tx \<equiv> 1"
abbreviation (input) dir_rx :: u32 where "dir_rx \<equiv> 2"
abbreviation (input) dir_trx :: u32 where "dir_trx \<equiv> 3"

record uart_port_t =
  u_port_id :: u32
  u_clk_id :: u32
  u_baud :: u32
  u_baddr :: u32
  u_pmux :: "pinmux_t option"
  u_io :: "gpio_port_t list"
  u_irq :: "irqs_t option"
  u_irq_handler :: handler

text \<open>The parts of the system that the setup of a UART touches; the devices are those of the clock's state.\<close>

record ('h, 'd, 's) board =
  bd_sys :: "'h sys"
  bd_ps :: port_status
  bd_clk :: "('d, 's) sysclk_state"

definition bd_dev :: "('h, 'd, 's) board \<Rightarrow> 'd" where
  "bd_dev s = clint_dev (sc_clint (bd_clk s))"

definition on_bd :: "('d \<Rightarrow> 'd) \<Rightarrow> ('h, 'd, 's) board \<Rightarrow> ('h, 'd, 's) board" where
  "on_bd f s = s\<lparr>bd_clk := on_dev f (bd_clk s)\<rparr>"

section \<open>Properties and registers\<close>

definition uart_get_properties :: "resources \<Rightarrow> u32 \<Rightarrow> uart_port_t \<Rightarrow> (status_t \<times> uart_port_t) outcome" where
  "uart_get_properties r sdev up =
     obind (visor_fetch r fetch_sp sdev 0) (\<lambda>v.
       if vr_status v \<noteq> success then Ok (vr_status v, up)
       else case vr_p v of
              P_swdev sp \<Rightarrow>
                let up1 = up\<lparr>u_pmux := pmux sp\<rparr>
                in obind (visor_fetch r fetch_dp (hwdev_id sp AND 0xff00) (hwdev_id sp AND 0xff)) (\<lambda>w.
                     if vr_status w \<noteq> success then Ok (vr_status w, up1)
                     else case vr_p w of
                            P_module m \<Rightarrow>
                              (case interrupt m of
                                 [] \<Rightarrow> Fault Out_of_bounds
                               | q # _ \<Rightarrow> Ok (success, up1\<lparr>u_port_id := mod_id m, u_clk_id := mod_clk_id m, u_baddr := mod_baddr m,
                                                            u_baud := mod_clk m, u_irq := Some q\<rparr>))
                          | _ \<Rightarrow> Fault Null_deref)
            | _ \<Rightarrow> Fault Null_deref)"

definition uart_buffer_available :: "'d hw \<Rightarrow> uart_port_t \<Rightarrow> 'd \<Rightarrow> bool \<times> 'd" where
  "uart_buffer_available hw up s =
     (case hw_rd hw (u_baddr up + TXDATA_OFFSET) s of (x, s1) \<Rightarrow> (drop_bit 31 x = 0, s1))"

definition uart_tx_wait_till_done :: "nat \<Rightarrow> 'd hw \<Rightarrow> uart_port_t \<Rightarrow> 'd \<Rightarrow> 'd outcome" where
  "uart_tx_wait_till_done fuel hw up = poll_while fuel hw (u_baddr up + TXDATA_OFFSET) (\<lambda>x. x AND push_bit 31 1 \<noteq> 0)"

text \<open>\<open>while(!uart_buffer_available(port));\<close>\<close>

definition wait_available :: "nat \<Rightarrow> 'd hw \<Rightarrow> uart_port_t \<Rightarrow> 'd \<Rightarrow> 'd outcome" where
  "wait_available fuel hw up = poll_while fuel hw (u_baddr up + TXDATA_OFFSET) (\<lambda>x. drop_bit 31 x \<noteq> 0)"

definition uart_tx :: "nat \<Rightarrow> 'd hw \<Rightarrow> uart_port_t \<Rightarrow> u8 \<Rightarrow> 'd \<Rightarrow> (status_t \<times> 'd) outcome" where
  "uart_tx fuel hw up c s =
     obind (wait_available fuel hw up s) (\<lambda>s1. Ok (success, mmio_or hw (u_baddr up + TXDATA_OFFSET) (ucast c) s1))"

definition uart_rx_empty :: "'d hw \<Rightarrow> uart_port_t \<Rightarrow> 'd \<Rightarrow> bool \<times> 'd" where
  "uart_rx_empty hw up s =
     (case hw_rd hw (u_baddr up + RXDATA_OFFSET) s of (x, s1) \<Rightarrow> (x AND push_bit 31 1 \<noteq> 0, s1))"

definition uart_rx :: "'d hw \<Rightarrow> uart_port_t \<Rightarrow> 'd \<Rightarrow> status_t \<times> u8 \<times> 'd" where
  "uart_rx hw up s =
     (case hw_rd hw (u_baddr up + RXDATA_OFFSET) s of (x, s1) \<Rightarrow> (success, ucast (x AND 0xff), s1))"

definition uart_tx_int_en :: "'d hw \<Rightarrow> uart_port_t \<Rightarrow> 'd \<Rightarrow> status_t \<times> 'd" where
  "uart_tx_int_en hw up s = (success, mmio_or hw (u_baddr up + UARTIE_OFFSET) (push_bit 0 1) s)"

definition uart_tx_int_dis :: "'d hw \<Rightarrow> uart_port_t \<Rightarrow> 'd \<Rightarrow> status_t \<times> 'd" where
  "uart_tx_int_dis hw up s = (success, mmio_and hw (u_baddr up + UARTIE_OFFSET) (NOT (push_bit 0 1)) s)"

definition uart_rx_int_en :: "'d hw \<Rightarrow> uart_port_t \<Rightarrow> 'd \<Rightarrow> status_t \<times> 'd" where
  "uart_rx_int_en hw up s = (success, mmio_or hw (u_baddr up + UARTIE_OFFSET) (push_bit 1 1) s)"

definition uart_rx_int_dis :: "'d hw \<Rightarrow> uart_port_t \<Rightarrow> 'd \<Rightarrow> status_t \<times> 'd" where
  "uart_rx_int_dis hw up s = (success, mmio_and hw (u_baddr up + UARTIE_OFFSET) (NOT (push_bit 1 1)) s)"

definition uart_tx_pending :: "'d hw \<Rightarrow> uart_port_t \<Rightarrow> 'd \<Rightarrow> bool \<times> 'd" where
  "uart_tx_pending hw up s =
     (case hw_rd hw (u_baddr up + UARTIP_OFFSET) s of (x, s1) \<Rightarrow> (\<not> x AND push_bit 0 1 \<noteq> 0, s1))"

definition uart_rx_pending :: "'d hw \<Rightarrow> uart_port_t \<Rightarrow> 'd \<Rightarrow> bool \<times> 'd" where
  "uart_rx_pending hw up s =
     (case hw_rd hw (u_baddr up + UARTIP_OFFSET) s of (x, s1) \<Rightarrow> (x AND push_bit 1 1 \<noteq> 0, s1))"

section \<open>Setup and shutdown\<close>

text \<open>\<open>BAUD_DIV(F, X)\<close>\<close>

definition BAUD_DIV :: "u32 \<Rightarrow> u32 \<Rightarrow> u32" where
  "BAUD_DIV f x = f div x - 1"

definition uart_update_baud :: "'d hw \<Rightarrow> u32 \<Rightarrow> uart_port_t \<Rightarrow> ('h, 'd, 's) board \<Rightarrow> ('h, 'd, 's) board outcome" where
  "uart_update_baud hw junk up s =
     obind (sysclk_get_clk hw junk (bd_clk s)) (\<lambda>(_, plat_clk, c).
       require (u_baud up \<noteq> 0) Div_by_zero
         (Ok (on_bd (hw_wr hw (u_baddr up + UARTBR_OFFSET) (BAUD_DIV plat_clk (u_baud up) AND 0xffff)) (s\<lparr>bd_clk := c\<rparr>))))"

text \<open>The loop over the pins; the port has room for two.\<close>

primrec uart_pins_alloc ::
  "nat \<Rightarrow> nat \<Rightarrow> 'd hw \<Rightarrow> resources \<Rightarrow> pinmux_t \<Rightarrow> uart_port_t \<Rightarrow> status_t \<Rightarrow> ('h, 'd, 's) board
     \<Rightarrow> (status_t \<times> uart_port_t \<times> ('h, 'd, 's) board) outcome" where
  "uart_pins_alloc 0 i hw r pm up ret s = Ok (ret, up, s)"
| "uart_pins_alloc (Suc n) i hw r pm up ret s =
     require (i < length (u_io up)) Out_of_bounds
       (obind (gpio_pin_alloc r (pm_port pm) (pm_pins pm ! i) (u_io up ! i) (bd_ps s)) (\<lambda>(r1, io, ps).
        case gpio_enable_alt_io hw io (ucast (pm_function pm)) (bd_dev s) of
          (r2, d) \<Rightarrow> uart_pins_alloc n (Suc i) hw r pm (up\<lparr>u_io := (u_io up)[i := io]\<rparr>) (ret OR r1 OR r2)
                       (on_bd (\<lambda>_. d) (s\<lparr>bd_ps := ps\<rparr>))))"

definition uart_irq_on ::
  "'d hw \<Rightarrow> u32 \<Rightarrow> uart_port_t \<Rightarrow> u32 \<Rightarrow> status_t \<Rightarrow> ('h, 'd, 's) board \<Rightarrow> (status_t \<times> ('h, 'd, 's) board) outcome" where
  "uart_irq_on hw core up dir ret s =
     (case u_irq up of
        None \<Rightarrow> Fault Null_deref
      | Some q \<Rightarrow>
          if irq_id q \<noteq> 0 \<and> u_irq_handler up \<noteq> no_handler
          then obind (link_interrupt core (irq_module q) (irq_id q) (u_irq_handler up) (bd_sys s)) (\<lambda>(r1, sy).
               obind (ic_en_irq (ic_state sy) (irq_id q) (plic sy)) (\<lambda>(r2, p).
               let s1 = s\<lparr>bd_sys := sy\<lparr>plic := p\<rparr>\<rparr>; ret1 = ret OR r1 OR r2
               in if dir = dir_rx then Ok (ret1, on_bd (\<lambda>d. snd (uart_rx_int_en hw up d)) s1)
                  else if dir = dir_trx
                  then Ok (ret1, on_bd (\<lambda>d. snd (uart_rx_int_en hw up (snd (uart_tx_int_en hw up d)))) s1)
                  else Ok (ret1, s1)))
          else Ok (ret, s))"

definition uart_setup ::
  "'d hw \<Rightarrow> u32 \<Rightarrow> u32 \<Rightarrow> resources \<Rightarrow> u32 \<Rightarrow> uart_port_t \<Rightarrow> ('h, 'd, 's) board
     \<Rightarrow> (status_t \<times> uart_port_t \<times> ('h, 'd, 's) board) outcome" where
  "uart_setup hw core junk r dir up s =
     (case u_pmux up of
        None \<Rightarrow> Fault Null_deref
      | Some pm \<Rightarrow>
          obind (uart_pins_alloc (length (pm_pins pm)) 0 hw r pm up success s) (\<lambda>(ret, up1, s1).
          let (txctlr, rxctlr, ret1) =
                (if dir = dir_trx then (1, 1, ret) else if dir = dir_rx then (0, 1, ret)
                 else if dir = dir_tx then (1, 0, ret) else (0, 0, error_func_inval_arg))
          in obind (uart_irq_on hw core up1 dir ret1 s1) (\<lambda>(ret2, s2).
             obind (uart_update_baud hw junk up1
               (on_bd (\<lambda>d. hw_wr hw (u_baddr up1 + RXCTRL_OFFSET) rxctlr (hw_wr hw (u_baddr up1 + TXCTRL_OFFSET) txctlr d)) s2))
               (\<lambda>s3. Ok (ret2, up1, s3)))))"

primrec uart_pins_free ::
  "nat \<Rightarrow> nat \<Rightarrow> 'd hw \<Rightarrow> uart_port_t \<Rightarrow> status_t \<Rightarrow> ('h, 'd, 's) board \<Rightarrow> (status_t \<times> uart_port_t \<times> ('h, 'd, 's) board) outcome" where
  "uart_pins_free 0 i hw up ret s = Ok (ret, up, s)"
| "uart_pins_free (Suc n) i hw up ret s =
     require (i < length (u_io up)) Out_of_bounds
       (case gpio_disable_alt_io hw (u_io up ! i) (bd_dev s) of (r1, d) \<Rightarrow>
        obind (gpio_pin_free (u_io up ! i) (bd_ps s)) (\<lambda>(r2, io, ps).
        uart_pins_free n (Suc i) hw (up\<lparr>u_io := (u_io up)[i := io]\<rparr>) (ret OR r1 OR r2) (on_bd (\<lambda>_. d) (s\<lparr>bd_ps := ps\<rparr>))))"

definition uart_irq_off ::
  "'d hw \<Rightarrow> u32 \<Rightarrow> uart_port_t \<Rightarrow> status_t \<Rightarrow> ('h, 'd, 's) board \<Rightarrow> (status_t \<times> ('h, 'd, 's) board) outcome" where
  "uart_irq_off hw core up ret s =
     (case u_irq up of
        None \<Rightarrow> Fault Null_deref
      | Some q \<Rightarrow>
          if irq_id q \<noteq> 0 \<and> u_irq_handler up \<noteq> no_handler
          then obind (ic_dis_irq (ic_state (bd_sys s)) (irq_id q) (plic (bd_sys s))) (\<lambda>(r1, p).
               let s1 = on_bd (\<lambda>d. snd (uart_rx_int_dis hw up (snd (uart_tx_int_dis hw up d)))) (s\<lparr>bd_sys := (bd_sys s)\<lparr>plic := p\<rparr>\<rparr>)
               in obind (unlink_interrupt core (irq_module q) (irq_id q) (bd_sys s1)) (\<lambda>(r2, sy).
                  Ok (ret OR r1 OR r2, s1\<lparr>bd_sys := sy\<rparr>)))
          else Ok (ret, s))"

definition uart_shutdown ::
  "'d hw \<Rightarrow> u32 \<Rightarrow> uart_port_t \<Rightarrow> ('h, 'd, 's) board \<Rightarrow> (status_t \<times> uart_port_t \<times> ('h, 'd, 's) board) outcome" where
  "uart_shutdown hw core up s =
     (case u_pmux up of
        None \<Rightarrow> Fault Null_deref
      | Some pm \<Rightarrow>
          obind (uart_pins_free (length (pm_pins pm)) 0 hw up success s) (\<lambda>(ret, up1, s1).
          obind (uart_irq_off hw core up1 ret s1) (\<lambda>(ret1, s2).
          Ok (ret1, up1, on_bd (\<lambda>d. hw_wr hw (u_baddr up1 + RXCTRL_OFFSET) 0 (hw_wr hw (u_baddr up1 + TXCTRL_OFFSET) 0 d)) s2))))"

section \<open>The serial consoles\<close>

definition console_serial_write :: "nat \<Rightarrow> 'd hw \<Rightarrow> uart_port_t \<Rightarrow> u8 \<Rightarrow> 'd \<Rightarrow> (status_t \<times> 'd) outcome" where
  "console_serial_write fuel hw up c s = obind (wait_available fuel hw up s) (uart_tx fuel hw up c)"

definition earlycon_serial_write :: "nat \<Rightarrow> 'd hw \<Rightarrow> uart_port_t \<Rightarrow> u8 \<Rightarrow> 'd \<Rightarrow> (status_t \<times> 'd) outcome" where
  "earlycon_serial_write fuel hw up c s =
     obind (uart_tx fuel hw up c s) (\<lambda>(ret, s1). obind (uart_tx_wait_till_done fuel hw up s1) (\<lambda>s2. Ok (ret, s2)))"

text \<open>The input buffer: \<open>rp\<close> is where the interrupt handler stores, \<open>wp\<close> where the reader takes.\<close>

record 'd con_in =
  con_read_wait :: u8
  con_buff :: "u8 list"
  ci_wp :: u8
  ci_rp :: u8
  ci_occ :: u8
  ci_dev :: 'd

definition con_store :: "u8 \<Rightarrow> 'd con_in \<Rightarrow> 'd con_in" where
  "con_store c s = s\<lparr>con_buff := (con_buff s)[unat (ci_rp s) := c], ci_rp := (ci_rp s + 1) mod 32, ci_occ := ci_occ s + 1\<rparr>"

primrec rx_loop :: "nat \<Rightarrow> 'd hw \<Rightarrow> uart_port_t \<Rightarrow> 'd con_in \<Rightarrow> 'd con_in outcome" where
  "rx_loop 0 hw up s = Hang"
| "rx_loop (Suc fuel) hw up s =
     (case uart_rx_pending hw up (ci_dev s) of (p, d) \<Rightarrow>
        if p then (case uart_rx hw up d of (_, c, d1) \<Rightarrow> rx_loop fuel hw up (con_store c (s\<lparr>ci_dev := d1\<rparr>)))
        else Ok (s\<lparr>ci_dev := d\<rparr>))"

definition console_serial_irq_handler :: "nat \<Rightarrow> 'd hw \<Rightarrow> uart_port_t \<Rightarrow> 'd con_in \<Rightarrow> 'd con_in outcome" where
  "console_serial_irq_handler fuel hw up s =
     (case uart_rx_pending hw up (ci_dev s) of (p, d) \<Rightarrow>
        let s1 = s\<lparr>ci_dev := d\<rparr>
        in if p then rx_loop fuel hw up (s1\<lparr>con_read_wait := snd (wait_release_on_irq (con_read_wait s1))\<rparr>) else Ok s1)"

definition con_take :: "'d con_in \<Rightarrow> u8 \<times> 'd con_in" where
  "con_take s = (con_buff s ! unat (ci_wp s), s\<lparr>ci_wp := (ci_wp s + 1) mod 32, ci_occ := ci_occ s - 1\<rparr>)"

text \<open>What happens while the reader sleeps is the parameter \<open>wfi\<close>; it works on the flag and the rest.\<close>

definition console_serial_read ::
  "nat \<Rightarrow> (u8 \<times> 'd con_in \<Rightarrow> u8 \<times> 'd con_in) \<Rightarrow> 'd con_in \<Rightarrow> (status_t \<times> u8 \<times> 'd con_in) outcome" where
  "console_serial_read fuel wfi s =
     obind (if ci_occ s = 0
            then case wait_lock (con_read_wait s) of (r1, w) \<Rightarrow>
                   obind (wait_till_irq fuel wfi (w, s\<lparr>con_read_wait := w\<rparr>)) (\<lambda>(r2, w', s1).
                     Ok (r1 OR r2, s1\<lparr>con_read_wait := w'\<rparr>))
            else Ok (success, s)) (\<lambda>(ret, s1).
       case con_take s1 of (c, s2) \<Rightarrow> Ok (ret, c, s2))"

section \<open>Transmission\<close>

text \<open>What the driver relies on: the transmit register reads as zero but for the full flag, which goes off within \<open>n\<close> loads and
  stays off until a byte is stored; a byte stored while it is off is sent.\<close>

definition tx_hw :: "'d hw \<Rightarrow> ptr \<Rightarrow> ('d \<Rightarrow> u8 list) \<Rightarrow> nat \<Rightarrow> bool" where
  "tx_hw hw b sent n \<longleftrightarrow>
     (\<forall>s. fst (hw_rd hw b s) = 0 \<or> fst (hw_rd hw b s) = push_bit 31 1)
     \<and> (\<forall>s. sent (snd (hw_rd hw b s)) = sent s)
     \<and> (\<forall>s. fst (hw_rd hw b s) = 0 \<longrightarrow> fst (hw_rd hw b (snd (hw_rd hw b s))) = 0)
     \<and> (\<forall>s v. fst (hw_rd hw b s) = 0 \<longrightarrow> sent (hw_wr hw b v s) = sent s @ [ucast v])
     \<and> (\<forall>s. \<exists>k < n. fst (hw_rd hw b (reads hw b k s)) = 0)"

lemma tx_hw_reads: "tx_hw hw b sent n \<Longrightarrow> sent (reads hw b k s) = sent s"
  by (induction k arbitrary: s) (simp_all add: tx_hw_def)

lemma tx_poll:
  assumes "tx_hw hw b sent n" and "n \<le> fuel" and "P (push_bit 31 1)" and "\<not> P 0"
  shows "\<exists>s'. poll_while fuel hw b P s = Ok s' \<and> sent s' = sent s \<and> fst (hw_rd hw b s') = 0"
proof -
  obtain k where "k < n" "fst (hw_rd hw b (reads hw b k s)) = 0" using assms(1) unfolding tx_hw_def by blast
  then obtain j where j: "poll_while fuel hw b P s = Ok (reads hw b (Suc j) s)" "\<not> P (fst (hw_rd hw b (reads hw b j s)))"
    using poll_while_returns [of k fuel P hw b s] assms(2,4) by auto
  have "fst (hw_rd hw b (reads hw b j s)) = 0" using j(2) assms(1,3) by (auto simp: tx_hw_def)
  moreover have "reads hw b (Suc j) s = snd (hw_rd hw b (reads hw b j s))"
    by (simp add: reads_def)
  ultimately have "fst (hw_rd hw b (reads hw b (Suc j) s)) = 0" using assms(1) by (auto simp: tx_hw_def)
  then show ?thesis using j(1) tx_hw_reads [OF assms(1)] by blast
qed

lemma full_flag: "drop_bit 31 (push_bit 31 1 :: u32) \<noteq> 0"
  by simp

lemma uart_tx_sends:
  assumes "tx_hw hw (u_baddr up) sent n" and "n \<le> fuel"
  shows "\<exists>s'. uart_tx fuel hw up c s = Ok (success, s') \<and> sent s' = sent s @ [c]"
proof -
  obtain s1 where s1: "wait_available fuel hw up s = Ok s1" "sent s1 = sent s" "fst (hw_rd hw (u_baddr up) s1) = 0"
    using tx_poll [OF assms, of "\<lambda>x. drop_bit 31 x \<noteq> 0" s] by (auto simp: wait_available_def)
  have "sent (mmio_or hw (u_baddr up) (ucast c) s1) = sent s @ [ucast (ucast c :: u32)]"
    using assms(1) s1(2,3) by (simp add: mmio_or_def mmio_update_def case_prod_unfold tx_hw_def)
  moreover have "ucast (ucast c :: u32) = c" by (rule bit_word_eqI) (simp add: bit_simps)
  ultimately show ?thesis using s1(1) by (simp add: uart_tx_def)
qed

text \<open>One character through either console.\<close>

lemma console_write_sends:
  assumes t: "tx_hw hw (u_baddr up) sent fuel"
  shows "\<exists>s'. console_serial_write fuel hw up c s = Ok (success, s') \<and> sent s' = sent s @ [c]"
proof -
  obtain s1 where s1: "wait_available fuel hw up s = Ok s1" "sent s1 = sent s"
    using tx_poll [OF t, of fuel "\<lambda>x. drop_bit 31 x \<noteq> 0" s] by (auto simp: wait_available_def)
  then show ?thesis using uart_tx_sends [OF t, of fuel c s1] by (auto simp: console_serial_write_def)
qed

lemma earlycon_write_sends:
  assumes t: "tx_hw hw (u_baddr up) sent fuel"
  shows "\<exists>s'. earlycon_serial_write fuel hw up c s = Ok (success, s') \<and> sent s' = sent s @ [c]"
proof -
  obtain s1 where s1: "uart_tx fuel hw up c s = Ok (success, s1)" "sent s1 = sent s @ [c]"
    using uart_tx_sends [OF t, of fuel c s] by auto
  obtain s2 where "uart_tx_wait_till_done fuel hw up s1 = Ok s2" "sent s2 = sent s1"
    using tx_poll [OF t, of fuel "\<lambda>x. x AND push_bit 31 1 \<noteq> 0" s1] by (auto simp: uart_tx_wait_till_done_def)
  then show ?thesis using s1 by (simp add: earlycon_serial_write_def)
qed

interpretation serial: reliable_sink "console_serial_write fuel hw up" "\<lambda>s. tx_hw hw (u_baddr up) sent fuel" sent "\<lambda>c h. h @ [c]" "\<lambda>_. ()"
  for fuel hw up sent
  using console_write_sends [of hw up sent fuel]
  by unfold_locales (blast, metis outcome.inject prod.inject)

interpretation early: reliable_sink "earlycon_serial_write fuel hw up" "\<lambda>s. tx_hw hw (u_baddr up) sent fuel" sent "\<lambda>c h. h @ [c]" "\<lambda>_. ()"
  for fuel hw up sent
  using earlycon_write_sends [of hw up sent fuel]
  by unfold_locales (blast, metis outcome.inject prod.inject)

text \<open>C20: both serial consoles deliver text: writing a string byte by byte returns, every write reports success, and the bytes that
  leave the UART are exactly the string, in order, when the transmit FIFO always has room again within the given number of
  polls.\<close>

theorem serial_write_delivers:
  assumes "tx_hw hw (u_baddr up) sent fuel"
  shows "(\<exists>s'. writes (console_serial_write fuel hw up) cs s = Ok (replicate (length cs) success, s') \<and> sent s' = sent s @ cs)
    \<and> (\<exists>s'. writes (earlycon_serial_write fuel hw up) cs s = Ok (replicate (length cs) success, s') \<and> sent s' = sent s @ cs)"
  using serial.writes_ok [where cs = cs, OF assms, of s] early.writes_ok [where cs = cs, OF assms, of s]
  by (auto simp: fold_snoc)

section \<open>Reception\<close>

text \<open>The contract of a bounded queue of bytes.\<close>

locale byte_queue =
  fixes put :: "u8 \<Rightarrow> 's \<Rightarrow> 's" and take :: "'s \<Rightarrow> u8 \<times> 's" and holds :: "u8 list \<Rightarrow> 's \<Rightarrow> bool" and cap :: nat
  assumes put_holds: "holds q s \<Longrightarrow> length q < cap \<Longrightarrow> holds (q @ [c]) (put c s)"
    and take_holds: "holds (c # q) s \<Longrightarrow> \<exists>s'. take s = (c, s') \<and> holds q s'"
begin

primrec take_n :: "nat \<Rightarrow> 's \<Rightarrow> u8 list \<times> 's" where
  "take_n 0 s = ([], s)"
| "take_n (Suc n) s = (case take s of (c, s1) \<Rightarrow> case take_n n s1 of (cs, s2) \<Rightarrow> (c # cs, s2))"

lemma fold_put: "holds q s \<Longrightarrow> length q + length cs \<le> cap \<Longrightarrow> holds (q @ cs) (fold put cs s)"
proof (induction cs arbitrary: q s)
  case (Cons c cs)
  then show ?case using Cons.IH [of "q @ [c]" "put c s"] put_holds [of q s c] by simp
qed simp

lemma take_n_holds: "holds (cs @ q) s \<Longrightarrow> \<exists>s'. take_n (length cs) s = (cs, s') \<and> holds q s'"
proof (induction cs arbitrary: s)
  case (Cons c cs)
  then obtain s1 where s1: "take s = (c, s1)" "holds (cs @ q) s1" using take_holds [of c "cs @ q" s] by auto
  then show ?case using Cons.IH [OF s1(2)] by auto
qed simp

end

text \<open>\<open>occ\<close> bytes from \<open>wp\<close> on, around the end of the buffer.\<close>

definition con_holds :: "u8 list \<Rightarrow> 'd con_in \<Rightarrow> bool" where
  "con_holds q s \<longleftrightarrow> length (con_buff s) = 32 \<and> length q \<le> 32 \<and> unat (ci_occ s) = length q
     \<and> unat (ci_wp s) < 32 \<and> unat (ci_rp s) = (unat (ci_wp s) + length q) mod 32
     \<and> (\<forall>k < length q. con_buff s ! ((unat (ci_wp s) + k) mod 32) = q ! k)"

lemma unat_inc_mod_32: "unat (x :: u8) < 32 \<Longrightarrow> unat ((x + 1) mod 32) = (unat x + 1) mod 32"
  by (simp add: unat_mod unat_word_ariths)

lemma mod_32_neq:
  fixes a b :: nat
  assumes "a < b" and "b < a + 32"
  shows "a mod 32 \<noteq> b mod 32"
proof
  assume "a mod 32 = b mod 32"
  then have "32 dvd b - a" using assms(1) by (simp add: mod_eq_dvd_iff_nat [of a b, symmetric] eq_commute)
  then show False using assms by (auto dest: dvd_imp_le)
qed

lemma con_holds_store:
  assumes "con_holds q s" and "length q < 32"
  shows "con_holds (q @ [c]) (con_store c s)"
proof -
  let ?w = "unat (ci_wp s)"
  have s: "length (con_buff s) = 32" "unat (ci_occ s) = length q" "?w < 32" "unat (ci_rp s) = (?w + length q) mod 32"
    "\<forall>k < length q. con_buff s ! ((?w + k) mod 32) = q ! k"
    using assms(1) by (simp_all add: con_holds_def)
  have r: "unat (ci_rp s) < 32" by (simp add: s(4))
  have "unat (ci_occ s + 1) = length q + 1" using s(2) assms(2) by (simp add: unat_word_ariths)
  moreover have "unat ((ci_rp s + 1) mod 32) = (?w + length (q @ [c])) mod 32"
    by (simp add: unat_inc_mod_32 [OF r] s(4) mod_simps)
  moreover have "((con_buff s)[unat (ci_rp s) := c]) ! ((?w + k) mod 32) = (q @ [c]) ! k" if "k < length (q @ [c])" for k
  proof (cases "k = length q")
    case True
    then show ?thesis using s(1) r by (simp add: s(4))
  next
    case False
    then have "k < length q" using that by simp
    moreover have "(?w + k) mod 32 \<noteq> (?w + length q) mod 32"
      using \<open>k < length q\<close> assms(2) by (intro mod_32_neq) simp_all
    ultimately show ?thesis using s(5) by (simp add: s(4) nth_append)
  qed
  ultimately show ?thesis using s assms(2) by (simp add: con_holds_def con_store_def)
qed

lemma con_holds_take:
  assumes "con_holds (c # q) s"
  shows "\<exists>s'. con_take s = (c, s') \<and> con_holds q s'"
proof -
  let ?w = "unat (ci_wp s)"
  have s: "length (con_buff s) = 32" "unat (ci_occ s) = Suc (length q)" "?w < 32" "unat (ci_rp s) = (?w + Suc (length q)) mod 32"
    "\<forall>k < Suc (length q). con_buff s ! ((?w + k) mod 32) = (c # q) ! k" "Suc (length q) \<le> 32"
    using assms by (simp_all add: con_holds_def)
  have "con_buff s ! ?w = c" using s(3,5) by (auto dest: spec [of _ 0])
  moreover have "unat (ci_occ s - 1) = length q"
    using s(2) by (metis diff_Suc_1 unat_0 nat.distinct(1) unat_minus_one)
  moreover have "con_buff s ! (((?w + 1) mod 32 + k) mod 32) = q ! k" if "k < length q" for k
    using s(5) [rule_format, of "Suc k"] that by (simp add: mod_simps)
  ultimately show ?thesis
    using s by (simp add: con_take_def con_holds_def unat_inc_mod_32 mod_simps)
qed

interpretation con_queue: byte_queue con_store con_take con_holds 32
  by unfold_locales (auto intro: con_holds_store con_holds_take)

text \<open>The receive FIFO \<open>rx\<close>: the pending bit is on exactly while it is not empty, and a load of the data register takes its
  oldest byte.\<close>

definition rx_hw :: "'d hw \<Rightarrow> ptr \<Rightarrow> ('d \<Rightarrow> u8 list) \<Rightarrow> bool" where
  "rx_hw hw b rx \<longleftrightarrow>
     (\<forall>s. bit (fst (hw_rd hw (b + UARTIP_OFFSET) s)) 1 \<longleftrightarrow> rx s \<noteq> [])
     \<and> (\<forall>s. rx (snd (hw_rd hw (b + UARTIP_OFFSET) s)) = rx s)
     \<and> (\<forall>s c cs. rx s = c # cs \<longrightarrow>
          ucast (fst (hw_rd hw (b + RXDATA_OFFSET) s) AND 0xff) = c \<and> rx (snd (hw_rd hw (b + RXDATA_OFFSET) s)) = cs)"

lemma rx_pending_iff:
  assumes "rx_hw hw (u_baddr up) rx"
  shows "\<exists>d. uart_rx_pending hw up s = (rx s \<noteq> [], d) \<and> rx d = rx s"
  using assms and_push_bit_nz [of "fst (hw_rd hw (u_baddr up + UARTIP_OFFSET) s)" 1]
  by (simp add: uart_rx_pending_def rx_hw_def case_prod_unfold)

lemma con_store_dev [simp]: "con_store c (s\<lparr>ci_dev := d\<rparr>) = (con_store c s)\<lparr>ci_dev := d\<rparr>"
  by (simp add: con_store_def)

lemma fold_con_store_dev [simp]: "fold con_store cs (s\<lparr>ci_dev := d\<rparr>) = (fold con_store cs s)\<lparr>ci_dev := d\<rparr>"
  by (induction cs arbitrary: s) simp_all

lemma con_holds_frame [simp]:
  "con_holds q (s\<lparr>ci_dev := d\<rparr>) = con_holds q s" "con_holds q (s\<lparr>con_read_wait := w\<rparr>) = con_holds q s"
  by (simp_all add: con_holds_def)

lemma fold_con_store_wait [simp]: "con_read_wait (fold con_store cs s) = con_read_wait s"
  by (induction cs arbitrary: s) (simp_all add: con_store_def)

lemma rx_loop_drains:
  assumes "rx_hw hw (u_baddr up) rx" and "length (rx (ci_dev s)) < fuel"
  shows "\<exists>d. rx_loop fuel hw up s = Ok ((fold con_store (rx (ci_dev s)) s)\<lparr>ci_dev := d\<rparr>) \<and> rx d = []"
  using assms(2)
proof (induction fuel arbitrary: s)
  case (Suc fuel)
  obtain d where d: "uart_rx_pending hw up (ci_dev s) = (rx (ci_dev s) \<noteq> [], d)" "rx d = rx (ci_dev s)"
    using rx_pending_iff [OF assms(1)] by blast
  show ?case
  proof (cases "rx (ci_dev s)")
    case Nil
    then show ?thesis using d by (auto intro!: exI [of _ d])
  next
    case (Cons c cs)
    obtain x d1 where x: "hw_rd hw (u_baddr up + RXDATA_OFFSET) d = (x, d1)" by force
    have r: "ucast (x AND 0xff) = c" "rx d1 = cs" using assms(1) d(2) Cons x unfolding rx_hw_def by force+
    let ?s = "con_store c (s\<lparr>ci_dev := d1\<rparr>)"
    have "length (rx (ci_dev ?s)) < fuel" using Suc.prems Cons r(2) by simp
    from Suc.IH [OF this] show ?thesis
      using Cons d r x by (simp add: uart_rx_def)
  qed
qed simp

text \<open>Reading \<open>n\<close> bytes from the console.\<close>

primrec con_reads ::
  "nat \<Rightarrow> nat \<Rightarrow> (u8 \<times> 'd con_in \<Rightarrow> u8 \<times> 'd con_in) \<Rightarrow> 'd con_in \<Rightarrow> (u8 list \<times> 'd con_in) outcome" where
  "con_reads 0 fuel wfi s = Ok ([], s)"
| "con_reads (Suc n) fuel wfi s =
     obind (console_serial_read fuel wfi s) (\<lambda>(_, c, s1). obind (con_reads n fuel wfi s1) (\<lambda>(cs, s2). Ok (c # cs, s2)))"

lemma console_serial_read_holds:
  assumes "con_holds (c # q) s"
  shows "\<exists>s'. console_serial_read fuel wfi s = Ok (success, c, s') \<and> con_holds q s'"
proof -
  have "ci_occ s \<noteq> 0" using assms by (auto simp: con_holds_def)
  then show ?thesis
    using con_queue.take_holds [OF assms] by (auto simp: console_serial_read_def)
qed

lemma con_reads_holds: "con_holds (cs @ q) s \<Longrightarrow> \<exists>s'. con_reads (length cs) fuel wfi s = Ok (cs, s') \<and> con_holds q s'"
proof (induction cs arbitrary: s)
  case (Cons c cs)
  then obtain s1 where s1: "console_serial_read fuel wfi s = Ok (success, c, s1)" "con_holds (cs @ q) s1"
    using console_serial_read_holds [of c "cs @ q" s fuel wfi] Cons.prems by auto
  then show ?case using Cons.IH [OF s1(2)] by auto
qed simp

text \<open>C36: received bytes reach the reader: as long as no more than 32 bytes are unread, the interrupt handler returns, empties the
  receive FIFO, wakes a waiting reader, and the reads that follow return the unread bytes and then the received ones,
  none lost, none twice, in order.\<close>

theorem console_input_in_order:
  assumes "rx_hw hw (u_baddr up) rx" and "con_holds q s" and "length q + length (rx (ci_dev s)) \<le> 32"
    and "length (rx (ci_dev s)) < fuel"
  shows "\<exists>s' s''. console_serial_irq_handler fuel hw up s = Ok s' \<and> rx (ci_dev s') = []
    \<and> (rx (ci_dev s) \<noteq> [] \<longrightarrow> con_read_wait s' = 0)
    \<and> con_reads (length q + length (rx (ci_dev s))) n wfi s' = Ok (q @ rx (ci_dev s), s'')"
proof -
  let ?cs = "rx (ci_dev s)"
  obtain d where d: "uart_rx_pending hw up (ci_dev s) = (?cs \<noteq> [], d)" "rx d = ?cs"
    using rx_pending_iff [OF assms(1)] by blast
  have "\<exists>s'. console_serial_irq_handler fuel hw up s = Ok s' \<and> rx (ci_dev s') = []
      \<and> (?cs \<noteq> [] \<longrightarrow> con_read_wait s' = 0) \<and> con_holds (q @ ?cs) s'"
  proof (cases "?cs = []")
    case True
    then show ?thesis using d assms(2) by (simp add: console_serial_irq_handler_def)
  next
    case False
    let ?s = "s\<lparr>ci_dev := d, con_read_wait := 0\<rparr>"
    obtain d' where "rx_loop fuel hw up ?s = Ok ((fold con_store ?cs ?s)\<lparr>ci_dev := d'\<rparr>)" "rx d' = []"
      using rx_loop_drains [OF assms(1), of ?s fuel] d(2) assms(4) by auto
    moreover have "con_holds (q @ ?cs) (fold con_store ?cs ?s)"
      by (rule con_queue.fold_put) (use assms(2,3) in simp_all)
    ultimately show ?thesis
      using d False by (simp add: console_serial_irq_handler_def wait_release_on_irq_def)
  qed
  then obtain s' where s': "console_serial_irq_handler fuel hw up s = Ok s'" "rx (ci_dev s') = []"
    "?cs \<noteq> [] \<longrightarrow> con_read_wait s' = 0" "con_holds ((q @ ?cs) @ []) s'" by auto
  from con_reads_holds [OF s'(4), of n wfi] s'(1-3) show ?thesis by auto
qed

text \<open>With 32 bytes unread the next one overwrites the oldest, and is read in its place.\<close>

lemma con_overflow:
  assumes "con_holds q s" and "length q = 32"
  shows "fst (con_take (con_store c s)) = c"
proof -
  have "unat (ci_rp s) = unat (ci_wp s)" "unat (ci_wp s) < 32" "length (con_buff s) = 32"
    using assms by (auto simp: con_holds_def)
  then show ?thesis by (simp add: con_take_def con_store_def)
qed

section \<open>The baud rate\<close>

text \<open>\<open>uart_update_baud\<close> programs the divider whose rate is the least that is not below the requested one: with the
  divider \<open>d\<close> (the register plus one) the requested rate is between \<open>clk / (d + 1)\<close>, not reached, and \<open>clk / d\<close>, for
  rates the 16-bit divider can express.\<close>

theorem uart_baud_bounds:
  assumes "sysclk_get_clk hw junk (bd_clk s) = Ok (st, clk, c)" and "stores hw val m"
    and "0xffff AND m (u_baddr up + UARTBR_OFFSET) = 0xffff"
    and "0 < u_baud up" and "u_baud up \<le> clk" and "unat clk < 65537 * unat (u_baud up)"
  shows "\<exists>s'. uart_update_baud hw junk up s = Ok s'
    \<and> (let d = unat (val (bd_dev s') (u_baddr up + UARTBR_OFFSET)) + 1
       in d * unat (u_baud up) \<le> unat clk \<and> unat clk < (d + 1) * unat (u_baud up))"
proof -
  let ?a = "u_baddr up + UARTBR_OFFSET" and ?b = "u_baud up"
  let ?s = "on_bd (hw_wr hw ?a (BAUD_DIV clk ?b AND 0xffff)) (s\<lparr>bd_clk := c\<rparr>)"
  have b: "0 < unat ?b" "unat ?b \<le> unat clk" using assms(4,5) by (simp_all add: word_less_nat_alt word_le_nat_alt)
  have q: "1 \<le> unat clk div unat ?b" "unat clk div unat ?b \<le> 65536"
    using b assms(6) by (simp_all add: less_eq_div_iff_mult_less_eq) (simp add: less_mult_imp_div_less flip: less_Suc_eq_le)
  then have "clk div ?b \<noteq> 0" by (metis le_zero_eq not_one_le_zero unat_0 unat_div)
  then have u: "unat (BAUD_DIV clk ?b) = unat clk div unat ?b - 1" by (simp add: BAUD_DIV_def unat_minus_one unat_div)
  have "BAUD_DIV clk ?b AND 0xffff = take_bit 16 (BAUD_DIV clk ?b)" by (simp add: take_bit_eq_mask mask_eq_exp_minus_1)
  also have "\<dots> = BAUD_DIV clk ?b" using u q by (simp add: word_unat_eq_iff take_bit_eq_mod unat_mod)
  finally have f: "BAUD_DIV clk ?b AND 0xffff = BAUD_DIV clk ?b" .
  have "val (bd_dev ?s) ?a = (BAUD_DIV clk ?b AND 0xffff) AND m ?a"
    using assms(2) by (simp add: on_bd_def bd_dev_def stores_wr)
  also have "\<dots> = BAUD_DIV clk ?b AND (0xffff AND m ?a)" by (rule and.assoc)
  also have "\<dots> = BAUD_DIV clk ?b" unfolding assms(3) by (rule f)
  finally have d: "unat (val (bd_dev ?s) ?a) + 1 = unat clk div unat ?b" using u q(1) by simp
  have "unat clk div unat ?b * unat ?b \<le> unat clk" "unat clk < (unat clk div unat ?b + 1) * unat ?b"
    using b(1) by (simp_all add: dividend_less_div_times)
  moreover have "uart_update_baud hw junk up s = Ok ?s"
    using assms(1,4) by (simp add: uart_update_baud_def word_gt_0)
  ultimately show ?thesis unfolding Let_def using d by metis
qed

section \<open>A concrete machine\<close>

definition demo_uart :: uart_port_t where
  "demo_uart = \<lparr>u_port_id = hw_uart, u_clk_id = 0, u_baud = 115200, u_baddr = 0x10013000, u_pmux = None, u_io = [], u_irq = None,
     u_irq_handler = no_handler\<rparr>"

text \<open>A UART that sends at once (its state is the bytes sent), and one with received bytes (its state is the bytes waiting).\<close>

definition demo_tx_hw :: "u8 list hw" where
  "demo_tx_hw = \<lparr>hw_rd = \<lambda>a s. (0, s), hw_wr = \<lambda>a v s. s @ [ucast v]\<rparr>"

definition demo_rx_hw :: "u8 list hw" where
  "demo_rx_hw = \<lparr>hw_rd = \<lambda>a s. if a = 0x10013014 then (if s = [] then 0 else 2, s)
       else (case s of [] \<Rightarrow> (push_bit 31 1, []) | c # cs \<Rightarrow> (ucast c, cs)), hw_wr = \<lambda>a v s. s\<rparr>"

lemma ucast_low_byte: "ucast ((ucast (c :: u8) :: u32) AND 0xff) = c"
proof -
  have "(ucast c :: u32) AND 0xff = take_bit 8 (ucast c)" by (simp add: take_bit_eq_mask mask_eq_exp_minus_1)
  then show ?thesis by (auto intro!: bit_word_eqI simp: bit_simps)
qed

lemma demo_tx: "tx_hw demo_tx_hw (u_baddr demo_uart) (\<lambda>s. s) 1"
  by (auto simp: tx_hw_def demo_tx_hw_def)

lemma demo_rx: "rx_hw demo_rx_hw (u_baddr demo_uart) (\<lambda>s. s)"
  by (auto simp: rx_hw_def demo_rx_hw_def demo_uart_def ucast_low_byte bit_simps)

theorem serial_write_delivers_witness:
  "writes (console_serial_write 1 demo_tx_hw demo_uart) [72, 105] [] = Ok ([success, success], [72, 105])"
  using serial_write_delivers [OF demo_tx, of "[72, 105]" "[]"] by auto

theorem console_input_in_order_witness:
  "\<exists>s' s''. console_serial_irq_handler 3 demo_rx_hw demo_uart
        \<lparr>con_read_wait = 1, con_buff = replicate 32 0, ci_wp = 31, ci_rp = 31, ci_occ = 0, ci_dev = [72, 105]\<rparr> = Ok s'
    \<and> con_reads 2 0 (\<lambda>s. s) s' = Ok ([72, 105], s'')"
proof -
  have "con_holds [] \<lparr>con_read_wait = 1, con_buff = replicate 32 0, ci_wp = 31, ci_rp = 31, ci_occ = 0, ci_dev = [72, 105]\<rparr>"
    by (simp add: con_holds_def)
  from console_input_in_order [OF demo_rx this, of 3 0 "\<lambda>s. s"] show ?thesis
    by (auto simp del: con_reads.simps simp flip: numeral_2_eq_2)
qed

theorem uart_baud_bounds_witness:
  "\<exists>s'. uart_update_baud (plain_hw demo_rdy) 0 demo_uart \<lparr>bd_sys = demo_sys, bd_ps = [0], bd_clk = demo_sysclk\<rparr> = Ok s'"
proof -
  obtain c where "sysclk_get_clk (plain_hw demo_rdy) 0 demo_sysclk = Ok (success, 16000000, c)"
    by (simp add: sysclk_get_clk_def sysclk_get_freq_def demo_sysclk_def usable_def demo_prci_port_def irq_guarded_def
        arch_di_save_state_def)
  then have "sysclk_get_clk (plain_hw demo_rdy) 0 (bd_clk \<lparr>bd_sys = demo_sys, bd_ps = [0], bd_clk = demo_sysclk\<rparr>) = Ok (success, 16000000, c)"
    by simp
  from uart_baud_bounds [OF this plain_stores, of demo_uart] show ?thesis
    by (auto simp: demo_uart_def demo_rdy_def)
qed

end
