(* ===== verification/Aon.thy ===== *)
theory Aon
  imports Mmio Resources
begin

text \<open>
  The always-on block of the FE310: the power-management unit (\<open>platform/sifive/common_fe310/hal/aon/pmu.c\<close>) and the
  decoding of the cause of a reset (\<open>platform/platform_reset.c\<close>). The registers of the PMU are locked; each store takes
  a write of the secret to the key register first.
\<close>

abbreviation (input) PMUIE_OFFSET :: u32 where "PMUIE_OFFSET \<equiv> 0x140"
abbreviation (input) PMUCAUSE_OFFSET :: u32 where "PMUCAUSE_OFFSET \<equiv> 0x144"
abbreviation (input) PMUSLEEP_OFFSET :: u32 where "PMUSLEEP_OFFSET \<equiv> 0x148"
abbreviation (input) PMUKEY_OFFSET :: u32 where "PMUKEY_OFFSET \<equiv> 0x14c"
abbreviation (input) SIFIVE_PMU_SECRET :: u32 where "SIFIVE_PMU_SECRET \<equiv> 0x51f15e"
abbreviation (input) PMU_PROGRAM_SIZE :: nat where "PMU_PROGRAM_SIZE \<equiv> 8"

definition PMUWAKEUPI_OFFSET :: "nat \<Rightarrow> u32" where
  "PMUWAKEUPI_OFFSET i = 0x100 + 4 * of_nat i"

definition PMUSLEEPI_OFFSET :: "nat \<Rightarrow> u32" where
  "PMUSLEEPI_OFFSET i = 0x120 + 4 * of_nat i"

record aon_port_t =
  aon_baddr :: u32
  aon_stride :: u32

section \<open>The power-management unit\<close>

definition aon_pmu_unlock :: "'d hw \<Rightarrow> aon_port_t \<Rightarrow> 'd \<Rightarrow> 'd" where
  "aon_pmu_unlock hw port = hw_wr hw (aon_baddr port + PMUKEY_OFFSET) SIFIVE_PMU_SECRET"

definition aon_pmucause :: "'d hw \<Rightarrow> aon_port_t option \<Rightarrow> 'd \<Rightarrow> status_t \<times> u32 option \<times> 'd" where
  "aon_pmucause hw port s =
     (case port of
        None \<Rightarrow> (error_func_inval_arg, None, s)
      | Some p \<Rightarrow> (case hw_rd hw (aon_baddr p + PMUCAUSE_OFFSET) s of (x, s1) \<Rightarrow> (success, Some x, s1)))"

text \<open>The two loops, over a function that gives the register of an index. The array is read at the indices up to
  \<open>PMU_PROGRAM_SIZE\<close>.\<close>

definition pmu_write :: "'d hw \<Rightarrow> aon_port_t \<Rightarrow> (nat \<Rightarrow> u32) \<Rightarrow> u16 list \<Rightarrow> nat \<Rightarrow> 'd \<Rightarrow> 'd" where
  "pmu_write hw p off arr i s = hw_wr hw (aon_baddr p + off i) (ucast (arr ! i)) (aon_pmu_unlock hw p s)"

primrec pmu_verify :: "nat \<Rightarrow> 'd hw \<Rightarrow> aon_port_t \<Rightarrow> (nat \<Rightarrow> u32) \<Rightarrow> u16 list \<Rightarrow> nat \<Rightarrow> 'd \<Rightarrow> status_t \<times> 'd" where
  "pmu_verify 0 hw p off arr i s = (success, s)"
| "pmu_verify (Suc n) hw p off arr i s =
     (case hw_rd hw (aon_baddr p + off i) s of (x, s1) \<Rightarrow>
        if x \<noteq> ucast (arr ! i) then (error_system_prog_fail, s1) else pmu_verify n hw p off arr (Suc i) s1)"

definition pmu_program :: "'d hw \<Rightarrow> aon_port_t \<Rightarrow> (nat \<Rightarrow> u32) \<Rightarrow> u16 list \<Rightarrow> 'd \<Rightarrow> (status_t \<times> 'd) outcome" where
  "pmu_program hw p off arr s =
     require (PMU_PROGRAM_SIZE \<le> length arr) Out_of_bounds
       (Ok (pmu_verify PMU_PROGRAM_SIZE hw p off arr 0 (fold (pmu_write hw p off arr) [0 ..< PMU_PROGRAM_SIZE] s)))"

definition aon_pmusleep_program :: "'d hw \<Rightarrow> aon_port_t option \<Rightarrow> u16 list \<Rightarrow> 'd \<Rightarrow> (status_t \<times> 'd) outcome" where
  "aon_pmusleep_program hw port arr s =
     (case port of None \<Rightarrow> Ok (error_func_inval_arg, s) | Some p \<Rightarrow> pmu_program hw p PMUSLEEPI_OFFSET arr s)"

definition aon_pmuwake_program :: "'d hw \<Rightarrow> aon_port_t option \<Rightarrow> u16 list \<Rightarrow> 'd \<Rightarrow> (status_t \<times> 'd) outcome" where
  "aon_pmuwake_program hw port arr s =
     (case port of None \<Rightarrow> Ok (error_func_inval_arg, s) | Some p \<Rightarrow> pmu_program hw p PMUWAKEUPI_OFFSET arr s)"

definition aon_pmu_ie :: "'d hw \<Rightarrow> aon_port_t option \<Rightarrow> u32 \<Rightarrow> 'd \<Rightarrow> status_t \<times> 'd" where
  "aon_pmu_ie hw port index s =
     (case port of
        None \<Rightarrow> (error_func_inval_arg, s)
      | Some p \<Rightarrow> (success, mmio_or hw (aon_baddr p + PMUIE_OFFSET) (push_bit (unat index) 1) (aon_pmu_unlock hw p s)))"

definition aon_pmusleep_trigger :: "'d hw \<Rightarrow> aon_port_t option \<Rightarrow> 'd \<Rightarrow> status_t \<times> 'd" where
  "aon_pmusleep_trigger hw port s =
     (case port of
        None \<Rightarrow> (error_func_inval_arg, s)
      | Some p \<Rightarrow> (success, hw_wr hw (aon_baddr p + PMUSLEEP_OFFSET) 1 (aon_pmu_unlock hw p s)))"

section \<open>The cause of a reset\<close>

datatype reset_t = not_reset | power_on_reset | external_reset | wdog_reset | inval_reset

definition reset_cause :: "u32 \<Rightarrow> reset_t" where
  "reset_cause v =
     (if \<not> v AND 1 \<noteq> 0 then not_reset
      else if v AND push_bit 8 1 \<noteq> 0 then power_on_reset
      else if v AND push_bit 9 1 \<noteq> 0 then external_reset
      else if v AND push_bit 10 1 \<noteq> 0 then wdog_reset
      else inval_reset)"

definition platform_get_reset_syndrome :: "'d hw \<Rightarrow> resources \<Rightarrow> 'd \<Rightarrow> (reset_t \<times> 'd) outcome" where
  "platform_get_reset_syndrome hw r s =
     obind (visor_fetch r fetch_dp hw_aon 0) (\<lambda>v.
       require (vr_status v = success) Assert_failed
         (case vr_p v of
            P_module m \<Rightarrow>
              (case aon_pmucause hw (Some \<lparr>aon_baddr = mod_baddr m, aon_stride = 0\<rparr>) s of
                 (_, Some x, s1) \<Rightarrow> Ok (reset_cause x, s1)
               | (_, None, s1) \<Rightarrow> Fault Null_deref)
          | _ \<Rightarrow> Fault Null_deref))"

text \<open>\<open>wdog_reset_handler\<close> logs the bite and panics, as the last branch does.\<close>

definition platform_reset_handler :: "reset_t \<Rightarrow> unit outcome" where
  "platform_reset_handler rsyn =
     (if rsyn \<in> {not_reset, power_on_reset, external_reset} then Ok () else Fault (Panic error_system))"

section \<open>Programming the PMU\<close>

text \<open>The lock of the PMU: a store to a register of the PMU takes effect exactly when the secret was written to the key
  register just before, and locks the PMU again; loads change nothing.\<close>

definition pmu_hw :: "'d hw \<Rightarrow> ptr \<Rightarrow> ('d \<Rightarrow> ptr \<Rightarrow> u32) \<Rightarrow> ('d \<Rightarrow> bool) \<Rightarrow> bool" where
  "pmu_hw hw b val unlocked \<longleftrightarrow>
     (\<forall>s a. fst (hw_rd hw a s) = val s a \<and> val (snd (hw_rd hw a s)) = val s \<and> unlocked (snd (hw_rd hw a s)) = unlocked s)
     \<and> (\<forall>s v. val (hw_wr hw (b + PMUKEY_OFFSET) v s) = val s
          \<and> unlocked (hw_wr hw (b + PMUKEY_OFFSET) v s) = (v = SIFIVE_PMU_SECRET))
     \<and> (\<forall>s a v. a \<noteq> b + PMUKEY_OFFSET \<longrightarrow>
          val (hw_wr hw a v s) = (if unlocked s then (val s)(a := v) else val s) \<and> \<not> unlocked (hw_wr hw a v s))"

lemma pmu_write_val:
  assumes "pmu_hw hw (aon_baddr p) val unlocked" and "off i \<noteq> PMUKEY_OFFSET"
  shows "val (pmu_write hw p off arr i s) = (val s)(aon_baddr p + off i := ucast (arr ! i))"
  using assms by (simp add: pmu_hw_def pmu_write_def aon_pmu_unlock_def)

lemma pmu_writes_val:
  assumes "pmu_hw hw (aon_baddr p) val unlocked" and "\<forall>i < n. off i \<noteq> PMUKEY_OFFSET" and "inj_on off {..< n}"
  shows "(\<forall>j < n. val (fold (pmu_write hw p off arr) [0 ..< n] s) (aon_baddr p + off j) = ucast (arr ! j))
    \<and> (\<forall>a. (\<forall>i < n. a \<noteq> aon_baddr p + off i) \<longrightarrow> val (fold (pmu_write hw p off arr) [0 ..< n] s) a = val s a)"
  using assms(2,3)
proof (induction n)
  case (Suc n)
  have "inj_on off {..< n}" using Suc.prems(2) by (rule inj_on_subset) auto
  then have IH: "\<forall>j < n. val (fold (pmu_write hw p off arr) [0 ..< n] s) (aon_baddr p + off j) = ucast (arr ! j)"
    "\<forall>a. (\<forall>i < n. a \<noteq> aon_baddr p + off i) \<longrightarrow> val (fold (pmu_write hw p off arr) [0 ..< n] s) a = val s a"
    using Suc by simp_all
  have step: "val (fold (pmu_write hw p off arr) [0 ..< Suc n] s) =
    (val (fold (pmu_write hw p off arr) [0 ..< n] s))(aon_baddr p + off n := ucast (arr ! n))"
    using pmu_write_val [OF assms(1), of off n arr] Suc.prems(1) by simp
  have "off j \<noteq> off n" if "j < n" for j using Suc.prems(2) that by (auto simp: inj_on_def)
  then show ?case unfolding step using IH by (auto simp: less_Suc_eq)
qed simp

lemma pmu_verify_ok:
  assumes "pmu_hw hw (aon_baddr p) val unlocked" and "\<forall>k < n. val s (aon_baddr p + off (i + k)) = ucast (arr ! (i + k))"
  shows "\<exists>s'. pmu_verify n hw p off arr i s = (success, s') \<and> val s' = val s"
  using assms(2)
proof (induction n arbitrary: i s)
  case (Suc n)
  obtain x s1 where x: "hw_rd hw (aon_baddr p + off i) s = (x, s1)" by force
  have "x = val s (aon_baddr p + off i)" and v: "val s1 = val s"
    using assms(1) x unfolding pmu_hw_def by (metis fst_conv snd_conv)+
  then have "x = ucast (arr ! i)" using Suc.prems [rule_format, of 0] by simp
  moreover have "\<forall>k < n. val s1 (aon_baddr p + off (Suc i + k)) = ucast (arr ! (Suc i + k))"
    using Suc.prems v by (metis Suc_less_eq add_Suc add_Suc_right)
  from Suc.IH [OF this] v obtain s' where "pmu_verify n hw p off arr (Suc i) s1 = (success, s')" "val s' = val s" by auto
  ultimately show ?case using x by simp
qed simp

lemma pmu_offsets:
  assumes "off = PMUSLEEPI_OFFSET \<or> off = PMUWAKEUPI_OFFSET"
  shows "\<forall>i < PMU_PROGRAM_SIZE. off i \<noteq> PMUKEY_OFFSET" and "inj_on off {..< PMU_PROGRAM_SIZE}"
proof -
  have u: "unat (PMUSLEEPI_OFFSET i) = 0x120 + 4 * i" "unat (PMUWAKEUPI_OFFSET i) = 0x100 + 4 * i" if "i < 8" for i
    using that by (simp_all add: PMUSLEEPI_OFFSET_def PMUWAKEUPI_OFFSET_def unat_word_ariths unat_of_nat_32)
  show "\<forall>i < PMU_PROGRAM_SIZE. off i \<noteq> PMUKEY_OFFSET"
    using assms u by (auto simp: word_unat_eq_iff)
  show "inj_on off {..< PMU_PROGRAM_SIZE}"
    using assms u by (auto simp: inj_on_def word_unat_eq_iff)
qed

text \<open>Programming the sleep or the wake-up sequence stores the eight instructions in their registers, changes no other
  register, and its verification succeeds: every store is preceded by an unlock, which the hardware demands.\<close>

theorem pmu_program_stores:
  assumes "pmu_hw hw (aon_baddr p) val unlocked" and "PMU_PROGRAM_SIZE \<le> length arr"
  shows "(\<exists>s'. aon_pmusleep_program hw (Some p) arr s = Ok (success, s')
      \<and> (\<forall>i < PMU_PROGRAM_SIZE. val s' (aon_baddr p + PMUSLEEPI_OFFSET i) = ucast (arr ! i))
      \<and> (\<forall>a. (\<forall>i < PMU_PROGRAM_SIZE. a \<noteq> aon_baddr p + PMUSLEEPI_OFFSET i) \<longrightarrow> val s' a = val s a))
    \<and> (\<exists>s'. aon_pmuwake_program hw (Some p) arr s = Ok (success, s')
      \<and> (\<forall>i < PMU_PROGRAM_SIZE. val s' (aon_baddr p + PMUWAKEUPI_OFFSET i) = ucast (arr ! i))
      \<and> (\<forall>a. (\<forall>i < PMU_PROGRAM_SIZE. a \<noteq> aon_baddr p + PMUWAKEUPI_OFFSET i) \<longrightarrow> val s' a = val s a))"
proof -
  have "\<exists>s'. pmu_program hw p off arr s = Ok (success, s')
      \<and> (\<forall>i < PMU_PROGRAM_SIZE. val s' (aon_baddr p + off i) = ucast (arr ! i))
      \<and> (\<forall>a. (\<forall>i < PMU_PROGRAM_SIZE. a \<noteq> aon_baddr p + off i) \<longrightarrow> val s' a = val s a)"
    if o: "off = PMUSLEEPI_OFFSET \<or> off = PMUWAKEUPI_OFFSET" for off
  proof -
    let ?s = "fold (pmu_write hw p off arr) [0 ..< PMU_PROGRAM_SIZE] s"
    note w = pmu_writes_val [OF assms(1) pmu_offsets [OF o], of arr s]
    then obtain s' where "pmu_verify PMU_PROGRAM_SIZE hw p off arr 0 ?s = (success, s')" "val s' = val ?s"
      using pmu_verify_ok [OF assms(1), of PMU_PROGRAM_SIZE ?s off 0 arr] by (auto simp del: pmu_verify.simps upt_rec_numeral)
    then show ?thesis
      using w assms(2) unfolding pmu_program_def by (intro exI [of _ s']) (simp del: pmu_verify.simps upt_rec_numeral)
  qed
  then show ?thesis by (simp add: aon_pmusleep_program_def aon_pmuwake_program_def)
qed

text \<open>A PMU as described, for the witness.\<close>

definition demo_pmu :: "((ptr \<Rightarrow> u32) \<times> bool) hw" where
  "demo_pmu = \<lparr>hw_rd = \<lambda>a s. (fst s a, s),
     hw_wr = \<lambda>a v (r, u). if a = 0x1000014c then (r, v = SIFIVE_PMU_SECRET) else (if u then r(a := v) else r, False)\<rparr>"

theorem pmu_program_stores_witness:
  "\<exists>s'. aon_pmusleep_program demo_pmu (Some \<lparr>aon_baddr = 0x10000000, aon_stride = 0\<rparr>) (replicate 8 7) (\<lambda>_. 0, False) = Ok (success, s')"
proof -
  have "pmu_hw demo_pmu (aon_baddr \<lparr>aon_baddr = 0x10000000, aon_stride = 0\<rparr>) fst snd"
    by (auto simp: pmu_hw_def demo_pmu_def)
  from pmu_program_stores [OF this, of "replicate 8 7" "(\<lambda>_. 0, False)"] show ?thesis by auto
qed

end
