(* ===== verification/Board.thy ===== *)
theory Board
  imports Gpio
begin

text \<open>
  The on-board LED (\<open>driver/onboardled\<close>), the watchdog engine (\<open>driver/watchdog\<close>), and the small services of the C
  library: \<open>rand.c\<close> and \<open>exit.c\<close>.
\<close>

section \<open>The on-board LED\<close>

record 'd led =
  obledPort :: "gpio_port_t list option"
  obled_sp :: "swdev_t option"
  led_ps :: port_status
  led_dev :: 'd

text \<open>\<open>obled_sp->pmux->npins\<close> and the array behind \<open>obledPort\<close>.\<close>

definition led_ports :: "'d led \<Rightarrow> swdev_t \<Rightarrow> gpio_port_t list outcome" where
  "led_ports l sp =
     (case pmux sp of
        None \<Rightarrow> Fault Null_deref
      | Some pm \<Rightarrow> (case obledPort l of
                      None \<Rightarrow> if pm_pins pm = [] then Ok [] else Fault Null_deref
                    | Some ps \<Rightarrow> require (length (pm_pins pm) \<le> length ps) Out_of_bounds (Ok (take (length (pm_pins pm)) ps))))"

definition led_each :: "(gpio_port_t \<Rightarrow> 'd \<Rightarrow> status_t \<times> 'd) \<Rightarrow> 'd led \<Rightarrow> (status_t \<times> 'd led) outcome" where
  "led_each f l =
     (case obled_sp l of
        None \<Rightarrow> Ok (error_driver_init_failed, l)
      | Some sp \<Rightarrow> obind (led_ports l sp) (\<lambda>gps.
          case fold (\<lambda>p (ret, d). case f p d of (r, d1) \<Rightarrow> (ret OR r, d1)) gps (success, led_dev l) of
            (ret, d) \<Rightarrow> Ok (ret, l\<lparr>led_dev := d\<rparr>)))"

definition onboardled_toggle :: "'d hw \<Rightarrow> 'd led \<Rightarrow> (status_t \<times> 'd led) outcome" where
  "onboardled_toggle hw = led_each (gpio_pin_toggle hw)"

definition onboardled_on :: "'d hw \<Rightarrow> 'd led \<Rightarrow> (status_t \<times> 'd led) outcome" where
  "onboardled_on hw = led_each (gpio_pin_set hw)"

definition onboardled_off :: "'d hw \<Rightarrow> 'd led \<Rightarrow> (status_t \<times> 'd led) outcome" where
  "onboardled_off hw = led_each (gpio_pin_clear hw)"

primrec led_alloc ::
  "u8 list \<Rightarrow> 'd hw \<Rightarrow> resources \<Rightarrow> u8 \<Rightarrow> status_t \<Rightarrow> port_status \<Rightarrow> 'd \<Rightarrow> (status_t \<times> gpio_port_t list \<times> port_status \<times> 'd) outcome" where
  "led_alloc [] hw r portID ret ps d = Ok (ret, [], ps, d)"
| "led_alloc (n # ns) hw r portID ret ps d =
     obind (gpio_pin_alloc r portID n \<lparr>g_pbaddr = 0, g_port = 0, g_pin = 0\<rparr> ps) (\<lambda>(r1, port, ps1).
     case gpio_pin_mode hw port gpio_out d of (r2, d1) \<Rightarrow>
     obind (led_alloc ns hw r portID (ret OR r1 OR r2) ps1 d1) (\<lambda>(ret1, gps, ps2, d2). Ok (ret1, port # gps, ps2, d2)))"

text \<open>\<open>alloc\<close>: the allocation succeeds; the fresh ports are taken as cleared.\<close>

definition onboardled_setup :: "'d hw \<Rightarrow> resources \<Rightarrow> bool \<Rightarrow> 'd led \<Rightarrow> (status_t \<times> 'd led) outcome" where
  "onboardled_setup hw r alloc l =
     obind (visor_fetch r fetch_sp onboard_led 0) (\<lambda>v.
       if vr_status v \<noteq> success then Ok (vr_status v, l)
       else case vr_p v of
              P_swdev sp \<Rightarrow>
                (case pmux sp of
                   None \<Rightarrow> Fault Null_deref
                 | Some pm \<Rightarrow>
                     if \<not> alloc then Ok (error_memory_low, l\<lparr>obled_sp := Some sp, obledPort := None\<rparr>)
                     else obind (led_alloc (pm_pins pm) hw r (pm_port pm) (vr_status v) (led_ps l) (led_dev l)) (\<lambda>(ret, gps, ps, d).
                          Ok (ret, \<lparr>obledPort = Some gps, obled_sp = Some sp, led_ps = ps, led_dev = d\<rparr>)))
            | _ \<Rightarrow> Fault Null_deref)"

primrec led_free :: "gpio_port_t list \<Rightarrow> status_t \<Rightarrow> port_status \<Rightarrow> (status_t \<times> port_status) outcome" where
  "led_free [] ret ps = Ok (ret, ps)"
| "led_free (p # qs) ret ps = obind (gpio_pin_free p ps) (\<lambda>(r, _, ps1). led_free qs (ret OR r) ps1)"

definition onboardled_exit :: "'d led \<Rightarrow> (status_t \<times> 'd led) outcome" where
  "onboardled_exit l =
     (case obled_sp l of
        None \<Rightarrow> Ok (error_driver_init_failed, l)
      | Some sp \<Rightarrow> obind (led_ports l sp) (\<lambda>gps.
          obind (led_free gps success (led_ps l)) (\<lambda>(ret, ps). Ok (ret, l\<lparr>obled_sp := None, led_ps := ps\<rparr>))))"

section \<open>The LED lights its own pins only\<close>

definition out_reg :: "gpio_port_t \<Rightarrow> u32" where
  "out_reg p = g_pbaddr p + OUTPUTVAL_OFFSET"

text \<open>The output bits after \<open>gpio_pin_set\<close>, \<open>gpio_pin_clear\<close> or \<open>gpio_pin_toggle\<close> on every port of a list.\<close>

lemma led_fold:
  assumes "\<And>p d. f p d = (success, g p d)"
  shows "fold (\<lambda>p (ret, d). case f p d of (r, d1) \<Rightarrow> (ret OR r, d1)) gps (ret, d) = (ret, fold g gps d)"
  by (induction gps arbitrary: d) (simp_all add: assms)

lemma led_each_ok:
  assumes "\<And>p d. f p d = (success, g p d)" and "obled_sp l = Some sp" and "led_ports l sp = Ok gps"
  shows "led_each f l = Ok (success, l\<lparr>led_dev := fold g gps (led_dev l)\<rparr>)"
  using assms(2,3) by (simp add: led_each_def led_fold [of f g, OF assms(1)])

lemma led_set_val:
  assumes "stores hw val m" and "\<forall>p \<in> set gps. m (out_reg p) = - 1 \<and> g_pin p < 32"
  shows "bit (val (fold (\<lambda>p. mmio_or hw (out_reg p) (pin_bit (g_pin p))) gps d) a) k \<longleftrightarrow>
    bit (val d a) k \<or> (\<exists>p \<in> set gps. a = out_reg p \<and> k = unat (g_pin p))"
  using assms(2)
proof (induction gps arbitrary: d)
  case (Cons p gps)
  then have p: "m (out_reg p) = - 1" "unat (g_pin p) < 32" by (simp_all add: word_less_nat_alt)
  show ?case using Cons p by (auto simp: stores_or [OF assms(1)] pin_bit_def bit_simps dest: bit_lt_32)
qed simp

lemma led_clear_val:
  assumes "stores hw val m"
  shows "bit (val (fold (\<lambda>p. mmio_and hw (out_reg p) (NOT (pin_bit (g_pin p)))) gps d) a) k \<longleftrightarrow>
    bit (val d a) k \<and> \<not> (\<exists>p \<in> set gps. a = out_reg p \<and> k = unat (g_pin p))"
proof (induction gps arbitrary: d)
  case (Cons p gps)
  show ?case using Cons by (auto simp: stores_and [OF assms(1)] pin_bit_def bit_simps dest: bit_lt_32)
qed simp

lemma led_toggle_val:
  assumes "stores hw val m" and "\<forall>p \<in> set gps. m (out_reg p) = - 1 \<and> g_pin p < 32"
    and "distinct (map (\<lambda>p. (out_reg p, unat (g_pin p))) gps)"
  shows "bit (val (fold (\<lambda>p. mmio_xor hw (out_reg p) (pin_bit (g_pin p))) gps d) a) k \<longleftrightarrow>
    bit (val d a) k \<noteq> (\<exists>p \<in> set gps. a = out_reg p \<and> k = unat (g_pin p))"
  using assms(2,3)
proof (induction gps arbitrary: d)
  case (Cons p gps)
  then have p: "m (out_reg p) = - 1" "unat (g_pin p) < 32" by (simp_all add: word_less_nat_alt)
  have "\<not> (\<exists>q \<in> set gps. out_reg p = out_reg q \<and> unat (g_pin p) = unat (g_pin q))"
    using Cons.prems(2) by (auto simp: image_iff)
  then show ?case using Cons p by (auto simp: stores_xor [OF assms(1)] pin_bit_def bit_simps dest: bit_lt_32)
qed simp

text \<open>On a driver that is set up, \<open>onboardled_on\<close> turns the output bits of exactly the LED's pins on and \<open>onboardled_off\<close> turns
  exactly those off; before the setup both report an error and change nothing.\<close>

theorem onboardled_on_off:
  assumes "stores hw val m" and "\<forall>p \<in> set gps. m (out_reg p) = - 1 \<and> g_pin p < 32"
    and "obled_sp l = Some sp" and "pmux sp = Some pm" and "obledPort l = Some gps" and "length (pm_pins pm) = length gps"
  shows "(\<exists>d. onboardled_on hw l = Ok (success, l\<lparr>led_dev := d\<rparr>)
      \<and> (\<forall>a k. bit (val d a) k \<longleftrightarrow> bit (val (led_dev l) a) k \<or> (\<exists>p \<in> set gps. a = out_reg p \<and> k = unat (g_pin p))))
    \<and> (\<exists>d. onboardled_off hw l = Ok (success, l\<lparr>led_dev := d\<rparr>)
      \<and> (\<forall>a k. bit (val d a) k \<longleftrightarrow> bit (val (led_dev l) a) k \<and> \<not> (\<exists>p \<in> set gps. a = out_reg p \<and> k = unat (g_pin p))))
    \<and> onboardled_on hw (l\<lparr>obled_sp := None\<rparr>) = Ok (error_driver_init_failed, l\<lparr>obled_sp := None\<rparr>)"
proof (intro conjI)
  have p: "led_ports l sp = Ok gps" using assms(4-6) by (simp add: led_ports_def)
  have "onboardled_on hw l = Ok (success, l\<lparr>led_dev := fold (\<lambda>p. mmio_or hw (out_reg p) (pin_bit (g_pin p))) gps (led_dev l)\<rparr>)"
    unfolding onboardled_on_def by (rule led_each_ok [OF _ assms(3) p]) (simp add: gpio_pin_set_def out_reg_def)
  then show "\<exists>d. onboardled_on hw l = Ok (success, l\<lparr>led_dev := d\<rparr>)
      \<and> (\<forall>a k. bit (val d a) k \<longleftrightarrow> bit (val (led_dev l) a) k \<or> (\<exists>p \<in> set gps. a = out_reg p \<and> k = unat (g_pin p)))"
    using led_set_val [OF assms(1,2)] by blast
  have "onboardled_off hw l = Ok (success, l\<lparr>led_dev := fold (\<lambda>p. mmio_and hw (out_reg p) (NOT (pin_bit (g_pin p)))) gps (led_dev l)\<rparr>)"
    unfolding onboardled_off_def by (rule led_each_ok [OF _ assms(3) p]) (simp add: gpio_pin_clear_def out_reg_def)
  then show "\<exists>d. onboardled_off hw l = Ok (success, l\<lparr>led_dev := d\<rparr>)
      \<and> (\<forall>a k. bit (val d a) k \<longleftrightarrow> bit (val (led_dev l) a) k \<and> \<not> (\<exists>p \<in> set gps. a = out_reg p \<and> k = unat (g_pin p)))"
    using led_clear_val [OF assms(1)] by blast
  show "onboardled_on hw (l\<lparr>obled_sp := None\<rparr>) = Ok (error_driver_init_failed, l\<lparr>obled_sp := None\<rparr>)"
    by (simp add: onboardled_on_def led_each_def)
qed

text \<open>When the allocation in the setup fails, the descriptor stays set and a later use follows the NULL array.\<close>

lemma onboardled_after_failed_setup:
  assumes "obled_sp l = Some sp" and "pmux sp = Some pm" and "obledPort l = None" and "pm_pins pm \<noteq> []"
  shows "onboardled_on hw l = Fault Null_deref"
  using assms by (simp add: onboardled_on_def led_each_def led_ports_def)

text \<open>The LED of the FE310's tables: pins 19 and 21.\<close>

definition demo_led :: "(ptr \<Rightarrow> u32) led" where
  "demo_led = \<lparr>obledPort = Some [demo_pin 19, demo_pin 21], obled_sp = Some (swdev fe310_software_prop ! 2), led_ps = [0], led_dev = \<lambda>_. 0\<rparr>"

theorem onboardled_on_off_witness:
  "\<exists>d. onboardled_on (plain_hw (\<lambda>_. 0)) demo_led = Ok (success, demo_led\<lparr>led_dev := d\<rparr>) \<and> bit (plain_val (\<lambda>_. 0) d 0x1001200c) 19"
proof -
  have "pmux (swdev fe310_software_prop ! 2) = Some \<lparr>pm_port = 0, pm_function = 0, pm_pins = [19, 21]\<rparr>"
    by (simp add: fe310_software_prop_def)
  from onboardled_on_off [OF plain_stores, of "[demo_pin 19, demo_pin 21]" "\<lambda>_. 0" demo_led, OF _ _ this] show ?thesis
    by (auto simp: demo_led_def demo_pin_def out_reg_def)
qed

section \<open>The watchdog engine\<close>

text \<open>The driver's operations work on the state \<open>'s\<close>; a bark callback is a number.\<close>

record 's wdog_t =
  wd_guard :: "(u32 \<Rightarrow> bool \<Rightarrow> nat \<Rightarrow> 's \<Rightarrow> (status_t \<times> 's) outcome) option"
  wd_hush :: "('s \<Rightarrow> (status_t \<times> 's) outcome) option"

record 's wdog_core =
  wd_port :: "u32 \<Rightarrow> 's wdog_t option"
  wdog_attached :: "u32 \<Rightarrow> bool"

definition wdog_attach_device :: "u32 \<Rightarrow> status_t \<Rightarrow> 's wdog_t option \<Rightarrow> 's wdog_core \<Rightarrow> status_t \<times> 's wdog_core" where
  "wdog_attach_device core dev_status pwdog c =
     (let c1 = c\<lparr>wd_port := (wd_port c)(core := pwdog)\<rparr>
      in if pwdog \<noteq> None then (dev_status, c1\<lparr>wdog_attached := (wdog_attached c1)(core := (dev_status = success))\<rparr>)
         else (error_device_inval, c1))"

definition wdog_release_device :: "u32 \<Rightarrow> 's wdog_core \<Rightarrow> status_t \<times> 's wdog_core" where
  "wdog_release_device core c =
     (success, c\<lparr>wd_port := (wd_port c)(core := None), wdog_attached := (wdog_attached c)(core := False)\<rparr>)"

definition wdog_guard :: "u32 \<Rightarrow> 's wdog_core \<Rightarrow> u32 \<Rightarrow> bool \<Rightarrow> nat \<Rightarrow> 's \<Rightarrow> (status_t \<times> 's) outcome" where
  "wdog_guard core c timeout bite cb s =
     (if wdog_attached c core
      then case wd_port c core of
             None \<Rightarrow> Fault Null_deref
           | Some d \<Rightarrow> (case wd_guard d of Some g \<Rightarrow> g timeout bite cb s | None \<Rightarrow> Ok (error_func_inval, s))
      else Ok (error_func_inval, s))"

definition wdog_hush :: "u32 \<Rightarrow> 's wdog_core \<Rightarrow> 's \<Rightarrow> (status_t \<times> 's) outcome" where
  "wdog_hush core c s =
     (if wdog_attached c core
      then case wd_port c core of
             None \<Rightarrow> Fault Null_deref
           | Some d \<Rightarrow> (case wd_hush d of
                           Some h \<Rightarrow> obind (h s) (\<lambda>(_, s1). Ok (success, s1))
                         | None \<Rightarrow> Ok (error_func_inval, s))
      else Ok (error_func_inval, s))"

definition wdog_reset_handler :: "unit outcome" where
  "wdog_reset_handler = Fault (Panic error_system)"

text \<open>A core's flag is set only while its port is. Attaching NULL clears the port but leaves the flag of an earlier
  attachment on: the invariant, and with it the absence of NULL dereferences, holds as long as a watchdog is released before
  NULL is attached.\<close>

definition wdog_inv :: "'s wdog_core \<Rightarrow> bool" where
  "wdog_inv c \<longleftrightarrow> (\<forall>core. wdog_attached c core \<longrightarrow> wd_port c core \<noteq> None)"

lemma wdog_attach_inv:
  "wdog_inv c \<Longrightarrow> p \<noteq> None \<or> \<not> wdog_attached c core \<Longrightarrow> wdog_inv (snd (wdog_attach_device core st p c))"
  by (auto simp: wdog_inv_def wdog_attach_device_def Let_def)

lemma wdog_release_inv: "wdog_inv c \<Longrightarrow> wdog_inv (snd (wdog_release_device core c))"
  by (auto simp: wdog_inv_def wdog_release_device_def)

text \<open>The engine adds no fault to those of the driver.\<close>

definition wdog_total :: "'s wdog_core \<Rightarrow> bool" where
  "wdog_total c \<longleftrightarrow> (\<forall>core d. wd_port c core = Some d \<longrightarrow>
     (\<forall>g t b cb s. wd_guard d = Some g \<longrightarrow> returns (g t b cb s)) \<and> (\<forall>h s. wd_hush d = Some h \<longrightarrow> returns (h s)))"

lemma wdog_no_fault:
  assumes "wdog_inv c" and t: "wdog_total c"
  shows "returns (wdog_guard core c t b cb s) \<and> returns (wdog_hush core c s)"
proof (cases "wd_port c core")
  case None
  then have "\<not> wdog_attached c core" using assms(1) by (auto simp: wdog_inv_def)
  then show ?thesis by (simp add: wdog_guard_def wdog_hush_def)
next
  case (Some d)
  have "returns (g t b cb s)" if "wd_guard d = Some g" for g using t Some that by (simp add: wdog_total_def)
  moreover have "\<exists>r s1. h s = Ok (r, s1)" if "wd_hush d = Some h" for h
    using t Some that by (auto simp: wdog_total_def returns_iff)
  ultimately show ?thesis
    using Some by (fastforce simp: wdog_guard_def wdog_hush_def split: option.split)
qed

section \<open>Pseudo-random numbers and program exit\<close>

definition srand :: "u32 \<Rightarrow> u32 \<Rightarrow> u32" where
  "srand seed randseed = seed"

definition rand :: "u32 \<Rightarrow> u32 \<times> u32" where
  "rand randseed = (let s = randseed * 0xa5 + 0x2673 in (s, s))"

text \<open>The generator is a permutation of the 32-bit words (its multiplier is odd), so no two seeds ever merge.\<close>

lemma rand_inj: "fst (rand a) = fst (rand b) \<Longrightarrow> a = b"
proof -
  assume "fst (rand a) = fst (rand b)"
  then have e: "a * 0xa5 = b * 0xa5" by (simp add: rand_def Let_def)
  have i: "(0xa5 * 0x72cfe72d :: u32) = 1" by simp
  have "a = (a * 0xa5) * 0x72cfe72d" by (simp only: mult.assoc i mult_1_right)
  also have "\<dots> = (b * 0xa5) * 0x72cfe72d" by (simp only: e)
  also have "\<dots> = b" by (simp only: mult.assoc i mult_1_right)
  finally show "a = b" .
qed

text \<open>\<open>exit\<close> runs the registered function and then sleeps forever.\<close>

definition atexit :: "nat \<Rightarrow> nat \<Rightarrow> int \<times> nat" where
  "atexit func exit_func = (if exit_func \<noteq> 0 then (- 1, exit_func) else (0, func))"

definition exit_c :: "(nat \<Rightarrow> u32 \<Rightarrow> 's \<Rightarrow> 's outcome) \<Rightarrow> nat \<Rightarrow> u32 \<Rightarrow> 's \<Rightarrow> 'a outcome" where
  "exit_c run exit_func status s =
     (if exit_func \<noteq> 0 then obind (run exit_func status s) (\<lambda>_. Hang) else Hang)"

end
