(* ===== verification/Posix_Ipc.thy ===== *)
theory Posix_Ipc
  imports Helios_Sync Posix_Time
begin

text \<open>
  The POSIX layer on top of the supervisor: semaphores (\<open>lib/libposix/src/posix_semaphore.c\<close>), message queues
  (\<open>posix_mqueue.c\<close>), threads (\<open>posix_pthread.c\<close>) and sleeping (\<open>posix_time.c\<close>).

  The supervisor call and the mutexes of \<open>pthread.h\<close> are declared but not defined in the sources; they are the
  parameters of the record \<open>sysapi\<close> and act on the memory and on a state of their own. \<open>sem_kernel\<close>,
  \<open>mq_kernel\<close> and \<open>mq_lock_free\<close> describe a supervisor on which the layer works; the sources document none. An argument that may be NULL is an option, a structure the
  code changes is returned.
\<close>

section \<open>The parameters\<close>

datatype scall =
    SC_sem_init | SC_sem_wait | SC_sem_post | SC_sem_getvalue | SC_sem_destroy
  | SC_mq_open | SC_mq_close | SC_mq_send | SC_mq_receive
  | SC_pthread_create | SC_pthread_exit | SC_pthread_delay_ticks

datatype mutex_name = g_mq_mutex | g_pthread_mutex

record sret_t =
  sr_status :: int
  sr_p :: u32
  sr_size :: u32

record 's world =
  w_mem :: mem
  w_sys :: 's

record 's sysapi =
  super_call :: "scall \<Rightarrow> u32 \<Rightarrow> u32 \<Rightarrow> u32 \<Rightarrow> 's world \<Rightarrow> sret_t \<times> 's world"
  pthread_mutexattr_init :: "mutex_name \<Rightarrow> 's world \<Rightarrow> 's world"
  pthread_mutexattr_destroy :: "mutex_name \<Rightarrow> 's world \<Rightarrow> 's world"
  pthread_mutex_init :: "mutex_name \<Rightarrow> 's world \<Rightarrow> int \<times> 's world"
  pthread_mutex_destroy :: "mutex_name \<Rightarrow> 's world \<Rightarrow> int \<times> 's world"
  pthread_mutex_lock :: "mutex_name \<Rightarrow> 's world \<Rightarrow> int \<times> 's world"
  pthread_mutex_unlock :: "mutex_name \<Rightarrow> 's world \<Rightarrow> int \<times> 's world"

abbreviation (input) SUCCESS :: int where "SUCCESS \<equiv> 0"
abbreviation (input) neg_ENOTSUP :: int where "neg_ENOTSUP \<equiv> 0x0002"
abbreviation (input) neg_EAGAIN :: int where "neg_EAGAIN \<equiv> 0x0202"
abbreviation (input) neg_EBUSY :: int where "neg_EBUSY \<equiv> 0x0203"
abbreviation (input) neg_EBADF :: int where "neg_EBADF \<equiv> 0x0701"
abbreviation (input) neg_ENOENT :: int where "neg_ENOENT \<equiv> 0x0703"

section \<open>Waiting with a bound\<close>

definition os_delay_ticks :: "'s sysapi \<Rightarrow> u32 \<Rightarrow> 's world \<Rightarrow> 's world" where
  "os_delay_ticks k ticks w = snd (super_call k SC_pthread_delay_ticks ticks 0 0 w)"

text \<open>The \<open>do\<close> loop of the timed operations, over \<open>abs_ticks\<close>: one attempt, and after a refusal either the error, when no
  tick is left, or a delay of one tick. The loop ends when \<open>abs_ticks\<close> has become 0; the error is not set then. With
  \<open>O_NONBLOCK\<close> a refusal ends it at once.\<close>

primrec timed_loop :: "nat \<Rightarrow> bool \<Rightarrow> ('w \<Rightarrow> int \<times> 'w) \<Rightarrow> ('w \<Rightarrow> 'w) \<Rightarrow> 'w \<Rightarrow> int \<times> 'w" where
  "timed_loop 0 nonblock attempt delay w =
     (case attempt w of (r, w1) \<Rightarrow> if r = SUCCESS then (SUCCESS, w1) else (neg_ETIMEDOUT, w1))"
| "timed_loop (Suc n) nonblock attempt delay w =
     (case attempt w of (r, w1) \<Rightarrow>
        if r = SUCCESS then (SUCCESS, w1)
        else if nonblock then (neg_ETIMEDOUT, w1)
        else let w2 = delay w1 in if n = 0 then (SUCCESS, w2) else timed_loop n nonblock attempt delay w2)"

text \<open>The ticks of a timeout; \<open>IS_ISR()\<close> is the constant \<open>true\<close>, so that no timeout means 0 ticks.\<close>

definition timeout_ticks :: "timespec option \<Rightarrow> u32 option" where
  "timeout_ticks abstime =
     (case abstime of
        None \<Rightarrow> Some 0
      | Some t \<Rightarrow> (case UTILS_TimespecToTicks (Some t) (Some 0) of (r, ticks) \<Rightarrow> if r = SUCCESS then ticks else None))"

section \<open>Semaphores\<close>

record sem_t =
  sem_id :: u32
  sem_value :: u32

definition s_sem_wait :: "'s sysapi \<Rightarrow> sem_t \<Rightarrow> 's world \<Rightarrow> int \<times> 's world" where
  "s_sem_wait k sem w =
     (if sem_id sem = 0 then (neg_EINVAL, w)
      else case super_call k SC_sem_wait (sem_id sem) 0 0 w of (r, w1) \<Rightarrow> (sr_status r, w1))"

definition sem_destroy :: "'s sysapi \<Rightarrow> sem_t option \<Rightarrow> 's world \<Rightarrow> int \<times> sem_t option \<times> 's world" where
  "sem_destroy k sem w =
     (case sem of
        None \<Rightarrow> (neg_EINVAL, sem, w)
      | Some s \<Rightarrow>
          if sem_id s = 0 then (neg_EINVAL, sem, w)
          else case super_call k SC_sem_destroy (sem_id s) 0 0 w of (r, w1) \<Rightarrow>
                 if sr_status r \<noteq> SUCCESS then (sr_status r, sem, w1) else (SUCCESS, Some (s\<lparr>sem_id := 0\<rparr>), w1))"

text \<open>\<open>sval\<close> is written without a check for NULL.\<close>

definition sem_getvalue ::
  "'s sysapi \<Rightarrow> sem_t option \<Rightarrow> u32 option \<Rightarrow> 's world \<Rightarrow> (int \<times> sem_t option \<times> u32 option \<times> 's world) outcome" where
  "sem_getvalue k sem sval w =
     (case sem of
        None \<Rightarrow> Ok (neg_EINVAL, sem, sval, w)
      | Some s \<Rightarrow>
          (case super_call k SC_sem_getvalue (sem_id s) 0 0 w of (r, w1) \<Rightarrow>
             if sr_status r \<noteq> SUCCESS then Ok (sr_status r, sem, sval, w1)
             else require (sval \<noteq> None) Null_deref (Ok (SUCCESS, Some (s\<lparr>sem_value := sr_p r\<rparr>), Some (sr_p r), w1))))"

definition sem_init :: "'s sysapi \<Rightarrow> sem_t option \<Rightarrow> u32 \<Rightarrow> 's world \<Rightarrow> int \<times> sem_t option \<times> 's world" where
  "sem_init k sem val w =
     (case sem of
        None \<Rightarrow> (neg_EINVAL, sem, w)
      | Some s \<Rightarrow>
          if sem_id s \<noteq> 0 then (neg_EINVAL, sem, w)
          else case super_call k SC_sem_init val 0 0 w of (r, w1) \<Rightarrow>
                 if sr_status r \<noteq> SUCCESS then (sr_status r, sem, w1) else (SUCCESS, Some (s\<lparr>sem_id := sr_size r\<rparr>), w1))"

definition sem_post :: "'s sysapi \<Rightarrow> sem_t option \<Rightarrow> 's world \<Rightarrow> int \<times> 's world" where
  "sem_post k sem w =
     (case sem of
        None \<Rightarrow> (neg_EINVAL, w)
      | Some s \<Rightarrow>
          if sem_id s = 0 then (neg_EINVAL, w)
          else case super_call k SC_sem_post (sem_id s) 0 0 w of (r, w1) \<Rightarrow> (sr_status r, w1))"

definition sem_timedwait :: "'s sysapi \<Rightarrow> sem_t option \<Rightarrow> timespec option \<Rightarrow> 's world \<Rightarrow> int \<times> 's world" where
  "sem_timedwait k sem abstime w =
     (case sem of
        None \<Rightarrow> (neg_EINVAL, w)
      | Some s \<Rightarrow>
          if sem_id s = 0 then (neg_EINVAL, w)
          else case timeout_ticks abstime of
                 None \<Rightarrow> (neg_EINVAL, w)
               | Some ticks \<Rightarrow> timed_loop (unat ticks) False (s_sem_wait k s) (os_delay_ticks k 1) w)"

definition sem_trywait :: "'s sysapi \<Rightarrow> sem_t option \<Rightarrow> 's world \<Rightarrow> int \<times> 's world" where
  "sem_trywait k sem = sem_timedwait k sem None"

definition sem_wait :: "'s sysapi \<Rightarrow> sem_t option \<Rightarrow> 's world \<Rightarrow> int \<times> 's world" where
  "sem_wait k sem = sem_timedwait k sem None"

section \<open>Message queues\<close>

abbreviation (input) O_CREAT :: u32 where "O_CREAT \<equiv> 0x0002"
abbreviation (input) O_NONBLOCK :: u32 where "O_NONBLOCK \<equiv> 0x0400"
abbreviation (input) O_RDONLY :: u32 where "O_RDONLY \<equiv> 0x2000"
abbreviation (input) O_WRONLY :: u32 where "O_WRONLY \<equiv> 0x8000"
abbreviation (input) O_RDWR :: u32 where "O_RDWR \<equiv> 0xA000"
abbreviation (input) posixconfigMQ_NAME_LEN_MAX :: u32 where "posixconfigMQ_NAME_LEN_MAX \<equiv> 16"

record mq_attr_t =
  mq_flags :: u32
  mq_maxmsg :: u32
  mq_msgsize :: u32
  mq_curmsgs :: u32

record mqd_section_t =
  mq_id :: u32
  mq_name :: "u8 list"
  mq_attr :: mq_attr_t
  kernel_buff :: ptr

definition s_find_queue_in_desc_list :: int where
  "s_find_queue_in_desc_list = SUCCESS"

definition s_queue_write ::
  "'s sysapi \<Rightarrow> mqd_section_t \<Rightarrow> ptr \<Rightarrow> size_t \<Rightarrow> u32 \<Rightarrow> 's world \<Rightarrow> int \<times> 's world" where
  "s_queue_write k q buff sz prio w =
     (if mq_flags (mq_attr q) AND O_RDONLY = 0 then (neg_ENOTSUP, w)
      else let w1 = w\<lparr>w_mem := fst (memcpy (w_mem w) (kernel_buff q) buff sz)\<rparr>
           in case super_call k SC_mq_send (mq_id q) sz prio w1 of (r, w2) \<Rightarrow>
                if sr_status r \<noteq> SUCCESS then (neg_EBADF, w2) else (SUCCESS, w2))"

definition s_queue_read :: "'s sysapi \<Rightarrow> mqd_section_t \<Rightarrow> ptr \<Rightarrow> size_t \<Rightarrow> 's world \<Rightarrow> int \<times> 's world" where
  "s_queue_read k q buff sz w =
     (if mq_flags (mq_attr q) AND O_WRONLY = 0 then (neg_ENOTSUP, w)
      else case super_call k SC_mq_receive (mq_id q) sz 0 w of (r, w1) \<Rightarrow>
             if sr_status r \<noteq> SUCCESS then (neg_EBADF, w1)
             else (SUCCESS, w1\<lparr>w_mem := fst (memcpy (w_mem w1) buff (kernel_buff q) sz)\<rparr>))"

definition s_mq_lock_init :: "'s sysapi \<Rightarrow> 's world \<Rightarrow> int \<times> 's world" where
  "s_mq_lock_init k w = pthread_mutex_init k g_mq_mutex (pthread_mutexattr_init k g_mq_mutex w)"

definition s_mq_lock_deinit :: "'s sysapi \<Rightarrow> 's world \<Rightarrow> int \<times> 's world" where
  "s_mq_lock_deinit k w = pthread_mutex_destroy k g_mq_mutex (pthread_mutexattr_destroy k g_mq_mutex w)"

definition s_mq_acquire_lock :: "'s sysapi \<Rightarrow> 's world \<Rightarrow> int \<times> 's world" where
  "s_mq_acquire_lock k = pthread_mutex_lock k g_mq_mutex"

definition s_mq_release_lock :: "'s sysapi \<Rightarrow> 's world \<Rightarrow> int \<times> 's world" where
  "s_mq_release_lock k = pthread_mutex_unlock k g_mq_mutex"

text \<open>\<open>mq_open\<close>: the pointer to the new section is the result of \<open>s_mq_lock_init\<close>, which has to be \<open>SUCCESS\<close>, the number 0,
  to get past the check; the code after the lock stores through that pointer on every path.\<close>

definition mq_open :: "'s sysapi \<Rightarrow> ptr \<Rightarrow> u32 \<Rightarrow> mq_attr_t option \<Rightarrow> 's world \<Rightarrow> (int \<times> 's world) outcome" where
  "mq_open k name oflag attr w =
     (if name = NULL then Ok (neg_EINVAL, w)
      else if \<not> UTILS_strnlen (w_mem w) name posixconfigMQ_NAME_LEN_MAX < posixconfigMQ_NAME_LEN_MAX then Ok (neg_EINVAL, w)
      else if s_find_queue_in_desc_list \<noteq> SUCCESS then Ok (neg_ENOENT, w)
      else if oflag AND O_CREAT = 0 then Ok (neg_ENOENT, w)
      else case s_mq_lock_init k w of (p_mqd_section, w1) \<Rightarrow>
        if p_mqd_section \<noteq> SUCCESS then Ok (p_mqd_section, w1)
        else case s_mq_acquire_lock k w1 of (r, w2) \<Rightarrow>
          if r \<noteq> SUCCESS then Ok (neg_EBUSY, w2) else Fault Null_deref)"

definition mq_close :: "'s sysapi \<Rightarrow> mqd_section_t option \<Rightarrow> 's world \<Rightarrow> int \<times> mqd_section_t option \<times> 's world" where
  "mq_close k mqdes w =
     (case mqdes of
        None \<Rightarrow> (neg_EINVAL, mqdes, w)
      | Some q \<Rightarrow>
          (case s_mq_acquire_lock k w of (r, w1) \<Rightarrow>
             if r \<noteq> SUCCESS then (neg_EBUSY, mqdes, w1)
             else let q1 = (if s_find_queue_in_desc_list = SUCCESS
                            then q\<lparr>mq_attr := \<lparr>mq_flags = 0, mq_maxmsg = 0, mq_msgsize = 0, mq_curmsgs = 0\<rparr>\<rparr> else q);
                      (err, w2) = (if s_find_queue_in_desc_list = SUCCESS
                                   then case super_call k SC_mq_close (mq_id q) 0 0 w1 of (sr, w2) \<Rightarrow>
                                          (if sr_status sr \<noteq> SUCCESS then neg_ENOTSUP else SUCCESS, w2)
                                   else (neg_EBADF, w1))
                  in case s_mq_release_lock k w2 of (r2, w3) \<Rightarrow>
                       if r2 \<noteq> SUCCESS then (neg_EBUSY, Some q1, w3)
                       else case s_mq_lock_deinit k w3 of (_, w4) \<Rightarrow> (err, Some q1, w4)))"

text \<open>\<open>attr\<close> is written without a check for NULL.\<close>

definition mq_getattr :: "mqd_section_t option \<Rightarrow> mq_attr_t option \<Rightarrow> (int \<times> mq_attr_t option) outcome" where
  "mq_getattr mqdes attr =
     (case mqdes of
        None \<Rightarrow> Ok (neg_EINVAL, attr)
      | Some q \<Rightarrow> require (attr \<noteq> None) Null_deref (Ok (SUCCESS, Some (mq_attr q))))"

text \<open>The part the timed operations share: the lock around the loop.\<close>

definition mq_locked :: "'s sysapi \<Rightarrow> mqd_section_t \<Rightarrow> u32 \<Rightarrow> ('s world \<Rightarrow> int \<times> 's world) \<Rightarrow> 's world \<Rightarrow> int \<times> 's world" where
  "mq_locked k q ticks attempt w =
     (case s_mq_acquire_lock k w of (r, w1) \<Rightarrow>
        if r \<noteq> SUCCESS then (neg_EBUSY, w1)
        else case (if s_find_queue_in_desc_list \<noteq> SUCCESS then (neg_EBADF, w1)
                   else timed_loop (unat ticks) (mq_flags (mq_attr q) AND O_NONBLOCK \<noteq> 0) attempt (os_delay_ticks k 1) w1) of
               (err, w2) \<Rightarrow>
                 case s_mq_release_lock k w2 of (r2, w3) \<Rightarrow> if r2 \<noteq> SUCCESS then (neg_EBUSY, w3) else (err, w3))"

definition mq_timedreceive ::
  "'s sysapi \<Rightarrow> mqd_section_t option \<Rightarrow> ptr \<Rightarrow> size_t \<Rightarrow> u32 option \<Rightarrow> timespec option \<Rightarrow> 's world
     \<Rightarrow> (int \<times> u32 option \<times> 's world) outcome" where
  "mq_timedreceive k mqdes msg_ptr msg_len msg_prio abstime w =
     (case mqdes of
        None \<Rightarrow> Ok (neg_EINVAL, msg_prio, w)
      | Some q \<Rightarrow>
          if msg_ptr = NULL \<or> \<not> msg_len > 0 then Ok (neg_EINVAL, msg_prio, w)
          else require (msg_prio \<noteq> None) Null_deref
            (case timeout_ticks abstime of
               None \<Rightarrow> Ok (neg_EINVAL, Some 0, w)
             | Some ticks \<Rightarrow> (case mq_locked k q ticks (s_queue_read k q msg_ptr msg_len) w of (err, w1) \<Rightarrow> Ok (err, Some 0, w1))))"

definition mq_timedsend ::
  "'s sysapi \<Rightarrow> mqd_section_t option \<Rightarrow> ptr \<Rightarrow> size_t \<Rightarrow> u32 \<Rightarrow> timespec option \<Rightarrow> 's world \<Rightarrow> int \<times> 's world" where
  "mq_timedsend k mqdes msg_ptr msg_len msg_prio abstime w =
     (case mqdes of
        None \<Rightarrow> (neg_EINVAL, w)
      | Some q \<Rightarrow>
          if msg_ptr = NULL \<or> \<not> msg_len > 0 then (neg_EINVAL, w)
          else case timeout_ticks abstime of
                 None \<Rightarrow> (neg_EINVAL, w)
               | Some ticks \<Rightarrow> mq_locked k q ticks (s_queue_write k q msg_ptr msg_len msg_prio) w)"

definition mq_receive ::
  "'s sysapi \<Rightarrow> mqd_section_t option \<Rightarrow> ptr \<Rightarrow> size_t \<Rightarrow> u32 option \<Rightarrow> 's world \<Rightarrow> (int \<times> u32 option \<times> 's world) outcome" where
  "mq_receive k mqdes msg_ptr msg_len msg_prio = mq_timedreceive k mqdes msg_ptr msg_len msg_prio None"

definition mq_send :: "'s sysapi \<Rightarrow> mqd_section_t option \<Rightarrow> ptr \<Rightarrow> size_t \<Rightarrow> u32 \<Rightarrow> 's world \<Rightarrow> int \<times> 's world" where
  "mq_send k mqdes msg_ptr msg_len msg_prio = mq_timedsend k mqdes msg_ptr msg_len msg_prio None"

definition mq_unlink :: int where
  "mq_unlink = SUCCESS"

section \<open>Threads\<close>

abbreviation (input) posixconfigPTHREAD_MIN_STACK_SIZE :: u32 where "posixconfigPTHREAD_MIN_STACK_SIZE \<equiv> 128"

record pthread_attr_t =
  detach_state :: u32
  sched_policy :: u32
  sched_priority :: u32
  stacksize :: u32

record pthread_t =
  t_attr :: "pthread_attr_t option"
  t_fn :: ptr
  t_pid :: u32

definition zero_attr :: pthread_attr_t where
  "zero_attr = \<lparr>detach_state = 0, sched_policy = 0, sched_priority = 0, stacksize = 0\<rparr>"

text \<open>The operations on attributes check their pointers for NULL and then read or write one field.\<close>

definition with_attr :: "(pthread_attr_t \<Rightarrow> pthread_attr_t) \<Rightarrow> pthread_attr_t option \<Rightarrow> int \<times> pthread_attr_t option" where
  "with_attr f attr = (case attr of None \<Rightarrow> (neg_EINVAL, attr) | Some a \<Rightarrow> (SUCCESS, Some (f a)))"

definition read_attr :: "(pthread_attr_t \<Rightarrow> u32) \<Rightarrow> pthread_attr_t option \<Rightarrow> u32 option \<Rightarrow> int \<times> u32 option" where
  "read_attr f attr out =
     (case (attr, out) of (Some a, Some _) \<Rightarrow> (SUCCESS, Some (f a)) | _ \<Rightarrow> (neg_EINVAL, out))"

definition pthread_attr_destroy :: "pthread_attr_t option \<Rightarrow> int \<times> pthread_attr_t option" where
  "pthread_attr_destroy = with_attr (\<lambda>_. zero_attr)"

definition pthread_attr_getdetachstate :: "pthread_attr_t option \<Rightarrow> u32 option \<Rightarrow> int \<times> u32 option" where
  "pthread_attr_getdetachstate = read_attr detach_state"

definition pthread_attr_getschedparam :: "pthread_attr_t option \<Rightarrow> u32 option \<Rightarrow> int \<times> u32 option" where
  "pthread_attr_getschedparam = read_attr sched_priority"

definition pthread_attr_getstacksize :: "pthread_attr_t option \<Rightarrow> u32 option \<Rightarrow> int \<times> u32 option" where
  "pthread_attr_getstacksize = read_attr stacksize"

definition pthread_attr_init :: "pthread_attr_t option \<Rightarrow> int \<times> pthread_attr_t option" where
  "pthread_attr_init = with_attr (\<lambda>_. zero_attr\<lparr>stacksize := posixconfigPTHREAD_MIN_STACK_SIZE\<rparr>)"

definition pthread_attr_setdetachstate :: "pthread_attr_t option \<Rightarrow> u32 \<Rightarrow> int \<times> pthread_attr_t option" where
  "pthread_attr_setdetachstate attr v = with_attr (\<lambda>a. a\<lparr>detach_state := v\<rparr>) attr"

definition pthread_attr_setschedparam :: "pthread_attr_t option \<Rightarrow> u32 option \<Rightarrow> int \<times> pthread_attr_t option" where
  "pthread_attr_setschedparam attr param =
     (case (attr, param) of (Some a, Some v) \<Rightarrow> (SUCCESS, Some (a\<lparr>sched_priority := v\<rparr>)) | _ \<Rightarrow> (neg_EINVAL, attr))"

definition pthread_attr_setschedpolicy :: "pthread_attr_t option \<Rightarrow> u32 \<Rightarrow> int \<times> pthread_attr_t option" where
  "pthread_attr_setschedpolicy attr v = with_attr (\<lambda>a. a\<lparr>sched_policy := v\<rparr>) attr"

definition pthread_attr_setstacksize :: "pthread_attr_t option \<Rightarrow> u32 \<Rightarrow> int \<times> pthread_attr_t option" where
  "pthread_attr_setstacksize attr v =
     (case attr of
        None \<Rightarrow> (neg_EINVAL, attr)
      | Some a \<Rightarrow> if v \<ge> posixconfigPTHREAD_MIN_STACK_SIZE then (SUCCESS, Some (a\<lparr>stacksize := v\<rparr>)) else (neg_EINVAL, attr))"

definition s_pthread_acquire_lock :: "'s sysapi \<Rightarrow> 's world \<Rightarrow> int \<times> 's world" where
  "s_pthread_acquire_lock k = pthread_mutex_lock k g_pthread_mutex"

definition s_pthread_release_lock :: "'s sysapi \<Rightarrow> 's world \<Rightarrow> int \<times> 's world" where
  "s_pthread_release_lock k = pthread_mutex_unlock k g_pthread_mutex"

text \<open>\<open>thread->attr = attr\<close> stores the caller's pointer; the field holds the attributes it points to at the time of the call, so a
  change the caller makes to them afterwards does not show in it. \<open>pthread_create\<close> itself reads them only before.\<close>

definition pthread_create ::
  "'s sysapi \<Rightarrow> pthread_t option \<Rightarrow> pthread_attr_t option \<Rightarrow> ptr \<Rightarrow> u32 \<Rightarrow> 's world \<Rightarrow> int \<times> pthread_t option \<times> 's world" where
  "pthread_create k thread attr startroutine arg w =
     (case (thread, attr) of
        (Some t, Some a) \<Rightarrow>
          if \<not> stacksize a \<ge> posixconfigPTHREAD_MIN_STACK_SIZE then (neg_EINVAL, thread, w)
          else let t1 = t\<lparr>t_attr := Some a\<rparr>
               in case s_pthread_acquire_lock k w of (r, w1) \<Rightarrow>
                 if r \<noteq> SUCCESS then (neg_EBUSY, Some t1, w1)
                 else case super_call k SC_pthread_create startroutine arg (stacksize a) w1 of (sr, w2) \<Rightarrow>
                   let (err, t2) = (if sr_status sr \<noteq> SUCCESS then (neg_EAGAIN, t1)
                                    else (SUCCESS, t1\<lparr>t_fn := startroutine, t_pid := sr_size sr\<rparr>))
                   in case s_pthread_release_lock k w2 of (r2, w3) \<Rightarrow>
                        if r2 \<noteq> SUCCESS then (neg_EBUSY, Some t2, w3) else (err, Some t2, w3)
      | _ \<Rightarrow> (neg_EINVAL, thread, w))"

text \<open>The arguments of \<open>pthread_equal\<close> are copies of 12 bytes at \<open>t1\<close> and \<open>t2\<close>.\<close>

definition pthread_equal :: "mem \<Rightarrow> ptr \<Rightarrow> ptr \<Rightarrow> int" where
  "pthread_equal m t1 t2 = memcmp m t1 t2 12"

definition pthread_exit :: "'s sysapi \<Rightarrow> 's world \<Rightarrow> 's world" where
  "pthread_exit k w =
     snd (s_pthread_release_lock k (snd (super_call k SC_pthread_exit 0 0 0 (snd (s_pthread_acquire_lock k w)))))"

section \<open>Sleeping\<close>

definition nanosleep :: "timespec option \<Rightarrow> timespec option \<Rightarrow> int" where
  "nanosleep rqtp rmtp = SUCCESS"

definition sleep :: "u32 \<Rightarrow> u32" where
  "sleep seconds =
     word_of_int (nanosleep (Some \<lparr>tv_sec = uint seconds, tv_nsec = wrap32 (NANOSECONDS_PER_TICK * uint seconds)\<rparr>) None)"

definition usleep :: "u32 \<Rightarrow> int" where
  "usleep usec = SUCCESS"

section \<open>Semaphores count\<close>

text \<open>The supervisor's side of a semaphore: identifiers are fresh and not 0, waiting does not block but is refused at 0.\<close>

definition sem_kernel :: "'s sysapi \<Rightarrow> ('s \<Rightarrow> u32 \<rightharpoonup> nat) \<Rightarrow> bool" where
  "sem_kernel k cnt \<longleftrightarrow>
     (\<forall>v w r w1. super_call k SC_sem_init v 0 0 w = (r, w1) \<longrightarrow>
        (if sr_status r = SUCCESS
         then sr_size r \<noteq> 0 \<and> cnt (w_sys w) (sr_size r) = None \<and> cnt (w_sys w1) = (cnt (w_sys w))(sr_size r \<mapsto> unat v)
         else cnt (w_sys w1) = cnt (w_sys w)))
     \<and> (\<forall>i w r w1 n. super_call k SC_sem_wait i 0 0 w = (r, w1) \<and> cnt (w_sys w) i = Some n \<longrightarrow>
        (if 0 < n then sr_status r = SUCCESS \<and> cnt (w_sys w1) = (cnt (w_sys w))(i \<mapsto> n - 1)
         else sr_status r \<noteq> SUCCESS \<and> cnt (w_sys w1) = cnt (w_sys w)))
     \<and> (\<forall>i w r w1 n. super_call k SC_sem_post i 0 0 w = (r, w1) \<and> cnt (w_sys w) i = Some n \<and> n < 2 ^ 32 - 1 \<longrightarrow>
        sr_status r = SUCCESS \<and> cnt (w_sys w1) = (cnt (w_sys w))(i \<mapsto> n + 1))
     \<and> (\<forall>i w r w1 n. super_call k SC_sem_getvalue i 0 0 w = (r, w1) \<and> cnt (w_sys w) i = Some n \<longrightarrow>
        sr_status r = SUCCESS \<and> sr_p r = of_nat n \<and> cnt (w_sys w1) = cnt (w_sys w))
     \<and> (\<forall>i w r w1 n. super_call k SC_sem_destroy i 0 0 w = (r, w1) \<and> cnt (w_sys w) i = Some n \<longrightarrow>
        sr_status r = SUCCESS \<and> cnt (w_sys w1) = (cnt (w_sys w))(i := None))"

lemma sem_kernelD:
  assumes "sem_kernel k cnt"
  shows "super_call k SC_sem_init v 0 0 w = (r, w1) \<Longrightarrow> sr_status r = SUCCESS \<Longrightarrow>
      sr_size r \<noteq> 0 \<and> cnt (w_sys w) (sr_size r) = None \<and> cnt (w_sys w1) = (cnt (w_sys w))(sr_size r \<mapsto> unat v)"
    and "super_call k SC_sem_wait i 0 0 w = (r, w1) \<Longrightarrow> cnt (w_sys w) i = Some n \<Longrightarrow>
      (if 0 < n then sr_status r = SUCCESS \<and> cnt (w_sys w1) = (cnt (w_sys w))(i \<mapsto> n - 1)
       else sr_status r \<noteq> SUCCESS \<and> cnt (w_sys w1) = cnt (w_sys w))"
    and "super_call k SC_sem_post i 0 0 w = (r, w1) \<Longrightarrow> cnt (w_sys w) i = Some n \<Longrightarrow> n < 2 ^ 32 - 1 \<Longrightarrow>
      sr_status r = SUCCESS \<and> cnt (w_sys w1) = (cnt (w_sys w))(i \<mapsto> n + 1)"
    and "super_call k SC_sem_getvalue i 0 0 w = (r, w1) \<Longrightarrow> cnt (w_sys w) i = Some n \<Longrightarrow>
      sr_status r = SUCCESS \<and> sr_p r = of_nat n \<and> cnt (w_sys w1) = cnt (w_sys w)"
    and "super_call k SC_sem_destroy i 0 0 w = (r, w1) \<Longrightarrow> cnt (w_sys w) i = Some n \<Longrightarrow>
      sr_status r = SUCCESS \<and> cnt (w_sys w1) = (cnt (w_sys w))(i := None)"
proof -
  note K = assms [unfolded sem_kernel_def]
  note K1 = K [THEN conjunct2] note K2 = K1 [THEN conjunct2] note K3 = K2 [THEN conjunct2]
  show "super_call k SC_sem_init v 0 0 w = (r, w1) \<Longrightarrow> sr_status r = SUCCESS \<Longrightarrow>
      sr_size r \<noteq> 0 \<and> cnt (w_sys w) (sr_size r) = None \<and> cnt (w_sys w1) = (cnt (w_sys w))(sr_size r \<mapsto> unat v)"
    using K [THEN conjunct1, rule_format, of v w r w1] by simp
  show "super_call k SC_sem_wait i 0 0 w = (r, w1) \<Longrightarrow> cnt (w_sys w) i = Some n \<Longrightarrow>
      (if 0 < n then sr_status r = SUCCESS \<and> cnt (w_sys w1) = (cnt (w_sys w))(i \<mapsto> n - 1)
       else sr_status r \<noteq> SUCCESS \<and> cnt (w_sys w1) = cnt (w_sys w))"
    by (rule K1 [THEN conjunct1, rule_format]) simp
  show "super_call k SC_sem_post i 0 0 w = (r, w1) \<Longrightarrow> cnt (w_sys w) i = Some n \<Longrightarrow> n < 2 ^ 32 - 1 \<Longrightarrow>
      sr_status r = SUCCESS \<and> cnt (w_sys w1) = (cnt (w_sys w))(i \<mapsto> n + 1)"
    by (rule K2 [THEN conjunct1, rule_format]) simp
  show "super_call k SC_sem_getvalue i 0 0 w = (r, w1) \<Longrightarrow> cnt (w_sys w) i = Some n \<Longrightarrow>
      sr_status r = SUCCESS \<and> sr_p r = of_nat n \<and> cnt (w_sys w1) = cnt (w_sys w)"
    by (rule K3 [THEN conjunct1, rule_format]) simp
  show "super_call k SC_sem_destroy i 0 0 w = (r, w1) \<Longrightarrow> cnt (w_sys w) i = Some n \<Longrightarrow>
      sr_status r = SUCCESS \<and> cnt (w_sys w1) = (cnt (w_sys w))(i := None)"
    by (rule K3 [THEN conjunct2, rule_format]) simp
qed

lemma sem_post_counts:
  assumes "sem_kernel k cnt" and "sem_id s \<noteq> 0" and "cnt (w_sys w) (sem_id s) = Some n" and "n < 2 ^ 32 - 1"
  shows "\<exists>w1. sem_post k (Some s) w = (SUCCESS, w1) \<and> cnt (w_sys w1) = (cnt (w_sys w))(sem_id s \<mapsto> n + 1)"
proof (cases "super_call k SC_sem_post (sem_id s) 0 0 w")
  case (Pair r w1)
  then show ?thesis using sem_kernelD(3) [OF assms(1) Pair assms(3,4)] assms(2) by (simp add: sem_post_def)
qed

lemma sem_trywait_counts:
  assumes "sem_kernel k cnt" and "sem_id s \<noteq> 0" and "cnt (w_sys w) (sem_id s) = Some n"
  shows "\<exists>w1. sem_trywait k (Some s) w = (if 0 < n then SUCCESS else neg_ETIMEDOUT, w1)
    \<and> cnt (w_sys w1) = (if 0 < n then (cnt (w_sys w))(sem_id s \<mapsto> n - 1) else cnt (w_sys w))"
proof (cases "super_call k SC_sem_wait (sem_id s) 0 0 w")
  case (Pair r w1)
  then show ?thesis
    using sem_kernelD(2) [OF assms(1) Pair assms(3)] assms(2)
    by (auto simp: sem_trywait_def sem_timedwait_def timeout_ticks_def s_sem_wait_def split: if_splits)
qed

lemma sem_wait_trywait: "sem_wait k sem = sem_trywait k sem"
  by (simp add: sem_wait_def sem_trywait_def)

definition posix_give :: "'s sysapi \<Rightarrow> sem_t \<Rightarrow> 's world \<Rightarrow> 's world option" where
  "posix_give k s w = (case sem_post k (Some s) w of (r, w1) \<Rightarrow> if r = SUCCESS then Some w1 else None)"

definition posix_take :: "'s sysapi \<Rightarrow> sem_t \<Rightarrow> 's world \<Rightarrow> 's world option" where
  "posix_take k s w = (case sem_trywait k (Some s) w of (r, w1) \<Rightarrow> if r = SUCCESS then Some w1 else None)"

text \<open>A semaphore of the layer keeps the contract that the kernel's own semaphores keep.\<close>

interpretation psem: counting "posix_give k s" "posix_take k s" "\<lambda>w. the (cnt (w_sys w) (sem_id s))"
  "\<lambda>w. sem_kernel k cnt \<and> sem_id s \<noteq> 0 \<and> cnt (w_sys w) (sem_id s) \<noteq> None" "2 ^ 32 - 1"
proof unfold_locales
  fix w :: "'a world" assume "sem_kernel k cnt \<and> sem_id s \<noteq> 0 \<and> cnt (w_sys w) (sem_id s) \<noteq> None"
  then obtain n where k: "sem_kernel k cnt" "sem_id s \<noteq> 0" and n: "cnt (w_sys w) (sem_id s) = Some n" by auto
  show "\<exists>w1. posix_give k s w = Some w1 \<and> (sem_kernel k cnt \<and> sem_id s \<noteq> 0 \<and> cnt (w_sys w1) (sem_id s) \<noteq> None)
      \<and> the (cnt (w_sys w1) (sem_id s)) = Suc (the (cnt (w_sys w) (sem_id s)))"
    if "the (cnt (w_sys w) (sem_id s)) < 2 ^ 32 - 1"
    using sem_post_counts [OF k n] that k n by (auto simp: posix_give_def)
  show "\<exists>w1. posix_take k s w = Some w1 \<and> (sem_kernel k cnt \<and> sem_id s \<noteq> 0 \<and> cnt (w_sys w1) (sem_id s) \<noteq> None)
      \<and> Suc (the (cnt (w_sys w1) (sem_id s))) = the (cnt (w_sys w) (sem_id s))"
    if "0 < the (cnt (w_sys w) (sem_id s))"
    using sem_trywait_counts [OF k n] that k n by (auto simp: posix_take_def)
  show "posix_take k s w = None" if "the (cnt (w_sys w) (sem_id s)) = 0"
    using sem_trywait_counts [OF k n] that n by (auto simp: posix_take_def)
qed

text \<open>The life of a POSIX semaphore on a supervisor that counts: after \<open>sem_init\<close> it holds the initial value and
  cannot be initialised again; \<open>sem_getvalue\<close> reads the value; after any sequence of \<open>sem_post\<close> and \<open>sem_trywait\<close> the
  value plus the successful waits is the initial value plus the posts; \<open>sem_wait\<close> at 0 is refused with a timeout, where
  \<open>semaphore.h\<close> describes a blocking wait; \<open>sem_destroy\<close> releases it and makes the structure usable for a new \<open>sem_init\<close>.\<close>

theorem posix_sem_lifecycle:
  assumes K: "sem_kernel k cnt" and i: "sem_init k (Some s) v w = (SUCCESS, s', w1)"
  shows "\<exists>s1. s' = Some s1 \<and> sem_id s = 0 \<and> sem_id s1 \<noteq> 0 \<and> cnt (w_sys w1) = (cnt (w_sys w))(sem_id s1 \<mapsto> unat v)
    \<and> sem_init k (Some s1) v' w1 = (neg_EINVAL, Some s1, w1)
    \<and> (\<forall>ops n w2. unat v + length (filter ((=) Give) ops) < 2 ^ 32 \<longrightarrow> sem_run (posix_give k s1) (posix_take k s1) ops w1 = (n, w2) \<longrightarrow>
        (\<exists>c. c + n = unat v + length (filter ((=) Give) ops) \<and> cnt (w_sys w2) (sem_id s1) = Some c
         \<and> (\<exists>w3. sem_getvalue k (Some s1) (Some 0) w2 = Ok (SUCCESS, Some (s1\<lparr>sem_value := of_nat c\<rparr>), Some (of_nat c), w3))
         \<and> (c = 0 \<longrightarrow> fst (sem_wait k (Some s1) w2) = neg_ETIMEDOUT)
         \<and> (\<exists>w3. sem_destroy k (Some s1) w2 = (SUCCESS, Some (s1\<lparr>sem_id := 0\<rparr>), w3) \<and> cnt (w_sys w3) = (cnt (w_sys w2))(sem_id s1 := None))))"
proof -
  obtain r where c: "super_call k SC_sem_init v 0 0 w = (r, w1)" and s: "sem_id s = 0" "sr_status r = SUCCESS"
    and s': "s' = Some (s\<lparr>sem_id := sr_size r\<rparr>)"
    using i by (auto simp: sem_init_def split: if_splits prod.splits)
  let ?s = "s\<lparr>sem_id := sr_size r\<rparr>"
  note c1 = sem_kernelD(1) [OF K c s(2)]
  have tail: "\<exists>c. c + n = unat v + length (filter ((=) Give) ops) \<and> cnt (w_sys w2) (sem_id ?s) = Some c
         \<and> (\<exists>w3. sem_getvalue k (Some ?s) (Some 0) w2 = Ok (SUCCESS, Some (?s\<lparr>sem_value := of_nat c\<rparr>), Some (of_nat c), w3))
         \<and> (c = 0 \<longrightarrow> fst (sem_wait k (Some ?s) w2) = neg_ETIMEDOUT)
         \<and> (\<exists>w3. sem_destroy k (Some ?s) w2 = (SUCCESS, Some (?s\<lparr>sem_id := 0\<rparr>), w3) \<and> cnt (w_sys w3) = (cnt (w_sys w2))(sem_id ?s := None))"
    if l: "unat v + length (filter ((=) Give) ops) < 2 ^ 32" and run: "sem_run (posix_give k ?s) (posix_take k ?s) ops w1 = (n, w2)"
    for ops n w2
  proof -
    obtain d where d: "cnt (w_sys w2) (sr_size r) = Some d" "d + n = unat v + length (filter ((=) Give) ops)"
      using psem.run_conserves [of k cnt ?s w1 ops n w2] K c1 l run by auto
    obtain rg wg where g: "super_call k SC_sem_getvalue (sr_size r) 0 0 w2 = (rg, wg)" by fastforce
    obtain rd wd where x: "super_call k SC_sem_destroy (sr_size r) 0 0 w2 = (rd, wd)" by fastforce
    show ?thesis
      using sem_kernelD(4) [OF K g d(1)] sem_kernelD(5) [OF K x d(1)] sem_trywait_counts [OF K, of ?s w2 d] c1 d g x
      by (auto simp: sem_getvalue_def sem_destroy_def sem_wait_trywait)
  qed
  show ?thesis
    by (rule exI [of _ ?s]) (use c1 s s' tail in \<open>auto simp: sem_init_def\<close>)
qed

text \<open>A supervisor that counts: one function from identifiers to counts.\<close>

definition demo_sys :: "(u32 \<rightharpoonup> nat) sysapi" where
  "demo_sys = \<lparr>
     super_call = (\<lambda>c a b d w. case c of
        SC_sem_init \<Rightarrow> (if w_sys w 1 = None then (\<lparr>sr_status = 0, sr_p = 0, sr_size = 1\<rparr>, w\<lparr>w_sys := (w_sys w)(1 \<mapsto> unat a)\<rparr>)
                        else (\<lparr>sr_status = 1, sr_p = 0, sr_size = 0\<rparr>, w))
      | SC_sem_wait \<Rightarrow> (case w_sys w a of Some (Suc n) \<Rightarrow> (\<lparr>sr_status = 0, sr_p = 0, sr_size = 0\<rparr>, w\<lparr>w_sys := (w_sys w)(a \<mapsto> n)\<rparr>)
                        | _ \<Rightarrow> (\<lparr>sr_status = 1, sr_p = 0, sr_size = 0\<rparr>, w))
      | SC_sem_post \<Rightarrow> (\<lparr>sr_status = 0, sr_p = 0, sr_size = 0\<rparr>, w\<lparr>w_sys := (w_sys w)(a \<mapsto> the (w_sys w a) + 1)\<rparr>)
      | SC_sem_getvalue \<Rightarrow> (\<lparr>sr_status = 0, sr_p = of_nat (the (w_sys w a)), sr_size = 0\<rparr>, w)
      | SC_sem_destroy \<Rightarrow> (\<lparr>sr_status = 0, sr_p = 0, sr_size = 0\<rparr>, w\<lparr>w_sys := (w_sys w)(a := None)\<rparr>)
      | _ \<Rightarrow> (\<lparr>sr_status = 0, sr_p = 0, sr_size = 7\<rparr>, w)),
     pthread_mutexattr_init = (\<lambda>_ w. w), pthread_mutexattr_destroy = (\<lambda>_ w. w),
     pthread_mutex_init = (\<lambda>_ w. (0, w)), pthread_mutex_destroy = (\<lambda>_ w. (0, w)),
     pthread_mutex_lock = (\<lambda>_ w. (0, w)), pthread_mutex_unlock = (\<lambda>_ w. (0, w))\<rparr>"

lemma demo_sys_kernel: "sem_kernel demo_sys (\<lambda>s. s)"
  unfolding sem_kernel_def demo_sys_def by (auto split: nat.splits if_splits)

definition demo_world :: "(u32 \<rightharpoonup> nat) world" where
  "demo_world = \<lparr>w_mem = (\<lambda>_. 0), w_sys = Map.empty\<rparr>"

theorem posix_sem_lifecycle_witness:
  "\<exists>s1 w1. sem_init demo_sys (Some \<lparr>sem_id = 0, sem_value = 0\<rparr>) 0 demo_world = (SUCCESS, Some s1, w1)
     \<and> fst (sem_wait demo_sys (Some s1) w1) = neg_ETIMEDOUT"
proof -
  obtain s1 w1 where i: "sem_init demo_sys (Some \<lparr>sem_id = 0, sem_value = 0\<rparr>) 0 demo_world = (SUCCESS, Some s1, w1)"
    by (simp add: sem_init_def demo_sys_def demo_world_def)
  show ?thesis
    using posix_sem_lifecycle [OF demo_sys_kernel i, of 0] i by (auto dest!: spec [of _ "[]"])
qed

section \<open>Waiting with a timeout\<close>

lemma timed_loop_refused:
  assumes "\<And>w. fst (attempt w) \<noteq> SUCCESS"
  shows "timed_loop (Suc n) False attempt delay w = (SUCCESS, ((\<lambda>w. delay (snd (attempt w))) ^^ Suc n) w)"
proof (induction n arbitrary: w)
  case 0
  then show ?case using assms [of w] by (cases "attempt w") (simp add: Let_def)
next
  case (Suc n)
  obtain r w1 where a: "attempt w = (r, w1)" by fastforce
  have "timed_loop (Suc (Suc n)) False attempt delay w = timed_loop (Suc n) False attempt delay (delay w1)"
    using assms [of w] by (simp add: Let_def a)
  then show ?case by (simp add: Suc.IH a funpow_Suc_right del: timed_loop.simps funpow.simps)
qed

text \<open>A timed wait ends, after at most as many attempts as the timeout has ticks, but when it ends with the time used up it
  returns \<open>SUCCESS\<close>, as if the semaphore had been taken: if every attempt is refused, \<open>sem_timedwait\<close> with a timeout of
  one tick or more returns \<open>SUCCESS\<close> after that number of attempts and delays. Only without ticks the error is reported.\<close>

theorem timedwait_hides_timeout:
  assumes "sem_id s \<noteq> 0" and "timeout_ticks abstime = Some ticks" and "\<forall>w. fst (s_sem_wait k s w) \<noteq> SUCCESS"
  shows "sem_timedwait k (Some s) abstime w =
    (if ticks = 0 then (neg_ETIMEDOUT, snd (s_sem_wait k s w))
     else (SUCCESS, ((\<lambda>w. os_delay_ticks k 1 (snd (s_sem_wait k s w))) ^^ unat ticks) w))"
proof (cases "unat ticks")
  case 0
  then have "ticks = 0" by (simp add: unat_eq_0)
  then show ?thesis using assms by (simp add: sem_timedwait_def split: prod.splits) (metis fst_conv)
next
  case (Suc n)
  then have "ticks \<noteq> 0" by auto
  then show ?thesis
    using assms timed_loop_refused [of "s_sem_wait k s" n] by (simp add: sem_timedwait_def Suc del: timed_loop.simps funpow.simps)
qed

text \<open>A supervisor whose semaphores are all taken.\<close>

definition refusing_sys :: "(u32 \<rightharpoonup> nat) sysapi" where
  "refusing_sys = demo_sys\<lparr>super_call := (\<lambda>c a b d w. (\<lparr>sr_status = if c = SC_sem_wait then 1 else 0, sr_p = 0, sr_size = 0\<rparr>, w))\<rparr>"

theorem timedwait_hides_timeout_witness:
  "sem_timedwait refusing_sys (Some \<lparr>sem_id = 5, sem_value = 0\<rparr>) (Some \<lparr>tv_sec = 0, tv_nsec = 3000000\<rparr>) demo_world = (SUCCESS, demo_world)"
proof -
  let ?s = "\<lparr>sem_id = 5, sem_value = 0\<rparr> :: sem_t"
  have t: "timeout_ticks (Some \<lparr>tv_sec = 0, tv_nsec = 3000000\<rparr>) = Some 3"
    by (simp add: timeout_ticks_def UTILS_TimespecToTicks_def UTILS_ValidateTimespec_def wrap32_def wrap64_def signed_take_bit_int_eq_self
        signed_divide_int_def signed_modulo_int_def Let_def)
  have s: "s_sem_wait refusing_sys ?s w = (1, w)" and d: "os_delay_ticks refusing_sys 1 w = w" for w
    by (simp_all add: s_sem_wait_def os_delay_ticks_def refusing_sys_def)
  have "((\<lambda>w. w) ^^ n) x = x" for n and x :: "(u32 \<rightharpoonup> nat) world" by (induction n) simp_all
  then show ?thesis
    using timedwait_hides_timeout [of ?s _ _ refusing_sys demo_world, OF _ t] by (simp add: s d)
qed

section \<open>Threads\<close>

text \<open>Attributes that come from \<open>pthread_attr_init\<close> and the setters.\<close>

inductive made_attr :: "pthread_attr_t \<Rightarrow> bool" where
  init: "pthread_attr_init (Some a0) = (SUCCESS, Some a) \<Longrightarrow> made_attr a"
| detachstate: "made_attr a \<Longrightarrow> pthread_attr_setdetachstate (Some a) v = (r, Some a') \<Longrightarrow> made_attr a'"
| schedparam: "made_attr a \<Longrightarrow> pthread_attr_setschedparam (Some a) pr = (r, Some a') \<Longrightarrow> made_attr a'"
| schedpolicy: "made_attr a \<Longrightarrow> pthread_attr_setschedpolicy (Some a) v = (r, Some a') \<Longrightarrow> made_attr a'"
| set_stacksize: "made_attr a \<Longrightarrow> pthread_attr_setstacksize (Some a) v = (r, Some a') \<Longrightarrow> made_attr a'"

lemmas attr_defs = pthread_attr_init_def pthread_attr_setdetachstate_def pthread_attr_setschedparam_def
  pthread_attr_setschedpolicy_def pthread_attr_setstacksize_def with_attr_def

lemma made_attr_stack: "made_attr a \<Longrightarrow> 128 \<le> stacksize a"
  by (induction rule: made_attr.induct) (auto simp: attr_defs split: if_splits option.splits)

text \<open>C38: attributes made by \<open>pthread_attr_init\<close> and the setters are well formed, with a stack of at least the minimum, whatever
  values the setters are given; so that \<open>pthread_create\<close> does not refuse them: with the lock free it asks the
  supervisor for a thread with that stack, reports its refusal as \<open>EAGAIN\<close>, and otherwise stores the function, the
  attributes and the identifier the supervisor gave.\<close>

theorem pthread_create_well_formed:
  assumes "made_attr a" and "s_pthread_acquire_lock k w = (SUCCESS, wa)"
    and "super_call k SC_pthread_create fn arg (stacksize a) wa = (sr, wb)" and "s_pthread_release_lock k wb = (SUCCESS, wc)"
  shows "128 \<le> stacksize a \<and> pthread_create k (Some t) (Some a) fn arg w =
    (if sr_status sr = SUCCESS then (SUCCESS, Some \<lparr>t_attr = Some a, t_fn = fn, t_pid = sr_size sr\<rparr>, wc)
     else (neg_EAGAIN, Some (t\<lparr>t_attr := Some a\<rparr>), wc))"
  using assms made_attr_stack [OF assms(1)] by (cases t) (simp add: pthread_create_def)

theorem pthread_create_well_formed_witness:
  "\<exists>a. pthread_attr_setstacksize (snd (pthread_attr_init (Some zero_attr))) 512 = (SUCCESS, Some a) \<and> stacksize a = 512
     \<and> pthread_create demo_sys (Some \<lparr>t_attr = None, t_fn = 0, t_pid = 0\<rparr>) (Some a) 0x100 5 demo_world
       = (SUCCESS, Some \<lparr>t_attr = Some a, t_fn = 0x100, t_pid = 7\<rparr>, demo_world)"
proof -
  let ?a = "zero_attr\<lparr>stacksize := 512\<rparr>"
  have i: "made_attr (zero_attr\<lparr>stacksize := 128\<rparr>)"
    by (rule made_attr.init [of zero_attr]) (simp add: pthread_attr_init_def with_attr_def)
  have m: "made_attr ?a"
    by (rule made_attr.set_stacksize [OF i, of 512 SUCCESS]) (simp add: pthread_attr_setstacksize_def zero_attr_def)
  show ?thesis
    by (rule exI [of _ ?a], subst pthread_create_well_formed [OF m, where wa = demo_world and wb = demo_world and wc = demo_world
        and sr = "\<lparr>sr_status = 0, sr_p = 0, sr_size = 7\<rparr>", THEN conjunct2])
      (simp_all add: s_pthread_acquire_lock_def s_pthread_release_lock_def demo_sys_def zero_attr_def attr_defs)
qed

text \<open>\<open>pthread_equal\<close> returns 0 exactly for equal threads, as its comment says; POSIX, which the comment cites, has it the other way round.\<close>

lemma pthread_equal_inverted: "pthread_equal m t1 t2 = 0 \<longleftrightarrow> bytes m t1 12 = bytes m t2 12"
  using memcmp_loop_sign [of 12 m t1 t2] by (simp add: pthread_equal_def memcmp_def)

section \<open>Message queues are queues\<close>

text \<open>The supervisor's side of a queue: messages pass through the buffer \<open>kb i\<close> of the queue \<open>i\<close>. Sending copies the message out
  of the buffer to the end of the queue, receiving copies the first message into the buffer, or is refused when the
  queue is empty. The lock of the layer is free.\<close>

definition mq_kernel :: "'s sysapi \<Rightarrow> (u32 \<Rightarrow> ptr) \<Rightarrow> ('s \<Rightarrow> u32 \<rightharpoonup> u8 list list) \<Rightarrow> bool" where
  "mq_kernel k kb qs \<longleftrightarrow>
     (\<forall>i sz prio w r w1 ms. super_call k SC_mq_send i sz prio w = (r, w1) \<and> qs (w_sys w) i = Some ms \<longrightarrow>
        sr_status r = SUCCESS \<and> w_mem w1 = w_mem w
        \<and> qs (w_sys w1) = (qs (w_sys w))(i \<mapsto> ms @ [bytes (w_mem w) (kb i) (unat sz)]))
     \<and> (\<forall>i sz prio w r w1 m ms. super_call k SC_mq_receive i sz prio w = (r, w1) \<and> qs (w_sys w) i = Some (m # ms) \<and> length m = unat sz \<longrightarrow>
        sr_status r = SUCCESS \<and> bytes (w_mem w1) (kb i) (unat sz) = m \<and> (\<forall>a. \<not> a - kb i < sz \<longrightarrow> w_mem w1 a = w_mem w a)
        \<and> qs (w_sys w1) = (qs (w_sys w))(i \<mapsto> ms))
     \<and> (\<forall>i sz prio w r w1. super_call k SC_mq_receive i sz prio w = (r, w1) \<and> qs (w_sys w) i = Some [] \<longrightarrow>
        sr_status r \<noteq> SUCCESS \<and> w_mem w1 = w_mem w \<and> qs (w_sys w1) = qs (w_sys w))
     \<and> (\<forall>w. \<exists>w1. pthread_mutex_lock k g_mq_mutex w = (SUCCESS, w1) \<and> w_mem w1 = w_mem w \<and> qs (w_sys w1) = qs (w_sys w))
     \<and> (\<forall>w. \<exists>w1. pthread_mutex_unlock k g_mq_mutex w = (SUCCESS, w1) \<and> w_mem w1 = w_mem w \<and> qs (w_sys w1) = qs (w_sys w))"

lemma mq_kernelD:
  assumes "mq_kernel k kb qs"
  shows "super_call k SC_mq_send i sz prio w = (r, w1) \<Longrightarrow> qs (w_sys w) i = Some ms \<Longrightarrow>
      sr_status r = SUCCESS \<and> w_mem w1 = w_mem w \<and> qs (w_sys w1) = (qs (w_sys w))(i \<mapsto> ms @ [bytes (w_mem w) (kb i) (unat sz)])"
    and "super_call k SC_mq_receive i sz prio w = (r, w1) \<Longrightarrow> qs (w_sys w) i = Some (m # ms) \<Longrightarrow> length m = unat sz \<Longrightarrow>
      sr_status r = SUCCESS \<and> bytes (w_mem w1) (kb i) (unat sz) = m \<and> (\<forall>a. \<not> a - kb i < sz \<longrightarrow> w_mem w1 a = w_mem w a)
      \<and> qs (w_sys w1) = (qs (w_sys w))(i \<mapsto> ms)"
    and "super_call k SC_mq_receive i sz prio w = (r, w1) \<Longrightarrow> qs (w_sys w) i = Some [] \<Longrightarrow>
      sr_status r \<noteq> SUCCESS \<and> w_mem w1 = w_mem w \<and> qs (w_sys w1) = qs (w_sys w)"
    and "\<exists>w1. pthread_mutex_lock k g_mq_mutex w = (SUCCESS, w1) \<and> w_mem w1 = w_mem w \<and> qs (w_sys w1) = qs (w_sys w)"
    and "\<exists>w1. pthread_mutex_unlock k g_mq_mutex w = (SUCCESS, w1) \<and> w_mem w1 = w_mem w \<and> qs (w_sys w1) = qs (w_sys w)"
  subgoal using conjunct1 [OF assms [unfolded mq_kernel_def]] by blast
  subgoal using conjunct1 [OF conjunct2 [OF assms [unfolded mq_kernel_def]]] by blast
  subgoal using conjunct1 [OF conjunct2 [OF conjunct2 [OF assms [unfolded mq_kernel_def]]]] by blast
  using assms unfolding mq_kernel_def by blast+

lemma bytes_memcpy:
  assumes "i - j \<ge> sz"
  shows "bytes (fst (memcpy m i j sz)) i (unat sz) = bytes m j (unat sz)"
proof -
  have "unat (word_of_nat x :: u32) < unat sz" if "x < unat sz" for x
    using that unat_lt_32 [of sz] by (simp add: unat_of_nat_32)
  then show ?thesis using memcpy_correct(1) [OF assms, of m] by (simp add: bytes_def word_less_nat_alt)
qed

text \<open>One attempt, with the lock around it and no timeout.\<close>

lemma mq_locked_attempt:
  assumes K: "mq_kernel k kb qs"
    and A: "\<And>w1. w_mem w1 = w_mem w \<Longrightarrow> qs (w_sys w1) = qs (w_sys w) \<Longrightarrow> \<exists>r w2. attempt w1 = (r, w2) \<and> (r = SUCCESS \<longleftrightarrow> ok) \<and> P (w_mem w2) (qs (w_sys w2))"
  shows "\<exists>w2. mq_locked k q 0 attempt w = (if ok then SUCCESS else neg_ETIMEDOUT, w2) \<and> P (w_mem w2) (qs (w_sys w2))"
proof -
  obtain w1 where l: "pthread_mutex_lock k g_mq_mutex w = (SUCCESS, w1)" "w_mem w1 = w_mem w" "qs (w_sys w1) = qs (w_sys w)"
    using mq_kernelD(4) [OF K] by blast
  obtain r w2 where a: "attempt w1 = (r, w2)" "r = SUCCESS \<longleftrightarrow> ok" "P (w_mem w2) (qs (w_sys w2))" using A [OF l(2,3)] by blast
  obtain w3 where u: "pthread_mutex_unlock k g_mq_mutex w2 = (SUCCESS, w3)" "w_mem w3 = w_mem w2" "qs (w_sys w3) = qs (w_sys w2)"
    using mq_kernelD(5) [OF K] by blast
  show ?thesis
    using l a u by (simp add: mq_locked_def s_mq_acquire_lock_def s_mq_release_lock_def s_find_queue_in_desc_list_def)
qed

lemma s_queue_write_sends:
  assumes K: "mq_kernel k kb qs" and "mq_flags (mq_attr d) AND O_RDONLY \<noteq> 0" and kb: "kernel_buff d = kb (mq_id d)"
    and "kb (mq_id d) - p \<ge> len" and q: "qs (w_sys w) (mq_id d) = Some ms"
  shows "\<exists>w1. s_queue_write k d p len prio w = (SUCCESS, w1)
    \<and> qs (w_sys w1) = (qs (w_sys w))(mq_id d \<mapsto> ms @ [bytes (w_mem w) p (unat len)])
    \<and> (\<forall>a. \<not> a - kb (mq_id d) < len \<longrightarrow> w_mem w1 a = w_mem w a)"
proof -
  let ?w = "w\<lparr>w_mem := fst (memcpy (w_mem w) (kernel_buff d) p len)\<rparr>"
  obtain r w1 where c: "super_call k SC_mq_send (mq_id d) len prio ?w = (r, w1)" by fastforce
  have q': "qs (w_sys ?w) (mq_id d) = Some ms" using q by simp
  show ?thesis
    using mq_kernelD(1) [OF K c q'] c assms bytes_memcpy [OF assms(4), of "w_mem w"] memcpy_correct(1) [OF assms(4), of "w_mem w"]
    by (simp add: s_queue_write_def Let_def)
qed

lemma s_queue_read_takes:
  assumes K: "mq_kernel k kb qs" and "mq_flags (mq_attr d) AND O_WRONLY \<noteq> 0" and kb: "kernel_buff d = kb (mq_id d)"
    and p: "p - kb (mq_id d) \<ge> len" and q: "qs (w_sys w) (mq_id d) = Some (m # ms)" and l: "length m = unat len"
  shows "\<exists>w1. s_queue_read k d p len w = (SUCCESS, w1) \<and> qs (w_sys w1) = (qs (w_sys w))(mq_id d \<mapsto> ms)
    \<and> bytes (w_mem w1) p (unat len) = m \<and> (\<forall>a. \<not> a - kb (mq_id d) < len \<longrightarrow> \<not> a - p < len \<longrightarrow> w_mem w1 a = w_mem w a)"
proof -
  obtain r w1 where c: "super_call k SC_mq_receive (mq_id d) len 0 w = (r, w1)" by fastforce
  show ?thesis
    using mq_kernelD(2) [OF K c q l] c assms bytes_memcpy [OF p, of "w_mem w1"] memcpy_correct(1) [OF p, of "w_mem w1"]
    by (simp add: s_queue_read_def)
qed

text \<open>On such a supervisor a descriptor with the flags of \<open>O_RDWR\<close> is a first-in-first-out queue: \<open>mq_send\<close> appends the message and
  changes nothing but the kernel's buffer, \<open>mq_receive\<close> puts the first message into the caller's buffer and takes it out of the
  queue, and from an empty queue it times out. (\<open>mqueue.h\<close> documents the length of the message as the result of \<open>mq_receive\<close>, where
  the code returns 0, and no call of \<open>mq_open\<close> yields a descriptor.)\<close>

theorem mq_fifo:
  assumes K: "mq_kernel k kb qs" and flags: "mq_flags (mq_attr d) AND O_RDONLY \<noteq> 0" "mq_flags (mq_attr d) AND O_WRONLY \<noteq> 0"
    and kb: "kernel_buff d = kb (mq_id d)" and p: "p \<noteq> 0" "0 < len"
    and q: "qs (w_sys w) (mq_id d) = Some ms"
  shows "(kb (mq_id d) - p \<ge> len \<longrightarrow> (\<exists>w1. mq_send k (Some d) p len prio w = (SUCCESS, w1)
      \<and> qs (w_sys w1) = (qs (w_sys w))(mq_id d \<mapsto> ms @ [bytes (w_mem w) p (unat len)])
      \<and> (\<forall>a. \<not> a - kb (mq_id d) < len \<longrightarrow> w_mem w1 a = w_mem w a)))
    \<and> (\<forall>m ms'. p - kb (mq_id d) \<ge> len \<and> ms = m # ms' \<and> length m = unat len \<longrightarrow>
      (\<exists>w1. mq_receive k (Some d) p len (Some x) w = Ok (SUCCESS, Some 0, w1) \<and> qs (w_sys w1) = (qs (w_sys w))(mq_id d \<mapsto> ms')
        \<and> bytes (w_mem w1) p (unat len) = m \<and> (\<forall>a. \<not> a - kb (mq_id d) < len \<longrightarrow> \<not> a - p < len \<longrightarrow> w_mem w1 a = w_mem w a)))
    \<and> (ms = [] \<longrightarrow> (\<exists>w1. mq_receive k (Some d) p len (Some x) w = Ok (neg_ETIMEDOUT, Some 0, w1) \<and> w_mem w1 = w_mem w
        \<and> qs (w_sys w1) = qs (w_sys w)))"
proof (intro conjI impI allI)
  assume l: "kb (mq_id d) - p \<ge> len"
  let ?P = "\<lambda>m qq. qq = (qs (w_sys w))(mq_id d \<mapsto> ms @ [bytes (w_mem w) p (unat len)]) \<and> (\<forall>a. \<not> a - kb (mq_id d) < len \<longrightarrow> m a = w_mem w a)"
  have "\<exists>r w2. s_queue_write k d p len prio w1 = (r, w2) \<and> (r = SUCCESS \<longleftrightarrow> True) \<and> ?P (w_mem w2) (qs (w_sys w2))"
    if "w_mem w1 = w_mem w" "qs (w_sys w1) = qs (w_sys w)" for w1
    using s_queue_write_sends [OF K flags(1) kb l, of w1 ms prio] that q by auto
  from mq_locked_attempt [where P = ?P and q = d and w = w and attempt = "s_queue_write k d p len prio", OF K this] p
  show "\<exists>w1. mq_send k (Some d) p len prio w = (SUCCESS, w1) \<and> ?P (w_mem w1) (qs (w_sys w1))"
    by (simp add: mq_send_def mq_timedsend_def timeout_ticks_def)
next
  fix m ms' assume l: "p - kb (mq_id d) \<ge> len \<and> ms = m # ms' \<and> length m = unat len"
  let ?P = "\<lambda>mm qq. qq = (qs (w_sys w))(mq_id d \<mapsto> ms') \<and> bytes mm p (unat len) = m
    \<and> (\<forall>a. \<not> a - kb (mq_id d) < len \<longrightarrow> \<not> a - p < len \<longrightarrow> mm a = w_mem w a)"
  have "\<exists>r w2. s_queue_read k d p len w1 = (r, w2) \<and> (r = SUCCESS \<longleftrightarrow> True) \<and> ?P (w_mem w2) (qs (w_sys w2))"
    if "w_mem w1 = w_mem w" "qs (w_sys w1) = qs (w_sys w)" for w1
    using s_queue_read_takes [OF K flags(2) kb, of len p w1 m ms'] that q l by auto
  from mq_locked_attempt [where P = ?P and q = d and w = w and attempt = "s_queue_read k d p len", OF K this] p
  show "\<exists>w1. mq_receive k (Some d) p len (Some x) w = Ok (SUCCESS, Some 0, w1) \<and> ?P (w_mem w1) (qs (w_sys w1))"
    by (auto simp: mq_receive_def mq_timedreceive_def timeout_ticks_def)
next
  assume e: "ms = []"
  let ?P = "\<lambda>mm qq. mm = w_mem w \<and> qq = qs (w_sys w)"
  have "\<exists>r w2. s_queue_read k d p len w1 = (r, w2) \<and> (r = SUCCESS \<longleftrightarrow> False) \<and> ?P (w_mem w2) (qs (w_sys w2))"
    if "w_mem w1 = w_mem w" "qs (w_sys w1) = qs (w_sys w)" for w1
    using mq_kernelD(3) [OF K, of "mq_id d" len 0 w1] that q e flags(2)
    by (cases "super_call k SC_mq_receive (mq_id d) len 0 w1") (simp add: s_queue_read_def)
  from mq_locked_attempt [where P = ?P and q = d and w = w and attempt = "s_queue_read k d p len", OF K this] p
  show "\<exists>w1. mq_receive k (Some d) p len (Some x) w = Ok (neg_ETIMEDOUT, Some 0, w1) \<and> ?P (w_mem w1) (qs (w_sys w1))"
    by (auto simp: mq_receive_def mq_timedreceive_def timeout_ticks_def)
qed

text \<open>A supervisor with queues, and a message of two bytes.\<close>

definition demo_mq :: "(u32 \<rightharpoonup> u8 list list) sysapi" where
  "demo_mq = \<lparr>
     super_call = (\<lambda>c i sz prio w. case (c, w_sys w i) of
        (SC_mq_send, Some ms) \<Rightarrow>
          (\<lparr>sr_status = 0, sr_p = 0, sr_size = 0\<rparr>, w\<lparr>w_sys := (w_sys w)(i \<mapsto> ms @ [bytes (w_mem w) 0x8000 (unat sz)])\<rparr>)
      | (SC_mq_receive, Some (m # ms)) \<Rightarrow>
          (\<lparr>sr_status = 0, sr_p = 0, sr_size = 0\<rparr>,
           \<lparr>w_mem = (\<lambda>a. if a - 0x8000 < sz then m ! unat (a - 0x8000) else w_mem w a), w_sys = (w_sys w)(i \<mapsto> ms)\<rparr>)
      | _ \<Rightarrow> (\<lparr>sr_status = 1, sr_p = 0, sr_size = 0\<rparr>, w)),
     pthread_mutexattr_init = (\<lambda>_ w. w), pthread_mutexattr_destroy = (\<lambda>_ w. w),
     pthread_mutex_init = (\<lambda>_ w. (0, w)), pthread_mutex_destroy = (\<lambda>_ w. (0, w)),
     pthread_mutex_lock = (\<lambda>_ w. (0, w)), pthread_mutex_unlock = (\<lambda>_ w. (0, w))\<rparr>"

lemma bytes_placed:
  assumes "length m = unat (sz :: u32)"
  shows "bytes (\<lambda>a. if a - p < sz then m ! unat (a - p) else f a) p (unat sz) = m"
proof (rule nth_equalityI)
  fix i assume "i < length (bytes (\<lambda>a. if a - p < sz then m ! unat (a - p) else f a) p (unat sz))"
  then have i: "i < unat sz" by simp
  then have "unat (word_of_nat i :: u32) = i" using unat_lt_32 [of sz] by (simp add: unat_of_nat_32)
  then show "bytes (\<lambda>a. if a - p < sz then m ! unat (a - p) else f a) p (unat sz) ! i = m ! i"
    using i by (simp add: bytes_def word_less_nat_alt)
qed (simp add: assms)

lemma demo_mq_kernel: "mq_kernel demo_mq (\<lambda>_. 0x8000) (\<lambda>s. s)"
  unfolding mq_kernel_def by (auto simp: demo_mq_def bytes_placed)

definition demo_section :: mqd_section_t where
  "demo_section = \<lparr>mq_id = 1, mq_name = [], mq_attr = \<lparr>mq_flags = O_RDWR, mq_maxmsg = 10, mq_msgsize = 128, mq_curmsgs = 0\<rparr>,
     kernel_buff = 0x8000\<rparr>"

definition demo_mail :: "(u32 \<rightharpoonup> u8 list list) world" where
  "demo_mail = \<lparr>w_mem = (\<lambda>a. if a = 0x100 then 7 else if a = 0x101 then 9 else 0), w_sys = [1 \<mapsto> []]\<rparr>"

theorem mq_fifo_witness:
  "\<exists>w1 w2. mq_send demo_mq (Some demo_section) 0x100 2 0 demo_mail = (SUCCESS, w1)
     \<and> mq_receive demo_mq (Some demo_section) 0x200 2 (Some 3) w1 = Ok (SUCCESS, Some 0, w2)
     \<and> bytes (w_mem w2) 0x200 2 = [7, 9]"
proof -
  have d: "mq_flags (mq_attr demo_section) AND O_RDONLY \<noteq> 0" "mq_flags (mq_attr demo_section) AND O_WRONLY \<noteq> 0"
    "kernel_buff demo_section = 0x8000" "mq_id demo_section = 1"
    by (simp_all add: demo_section_def)
  have b: "bytes (w_mem demo_mail) 0x100 2 = [7, 9]" by (simp add: demo_mail_def eval_nat_numeral)
  obtain w1 where s: "mq_send demo_mq (Some demo_section) 0x100 2 0 demo_mail = (SUCCESS, w1)" and q: "w_sys w1 1 = Some [[7, 9]]"
    using mq_fifo [OF demo_mq_kernel d(1,2), of "0x100" 2 demo_mail "[]" 0 0] b d
    by (auto simp: demo_mail_def)
  show ?thesis
    using mq_fifo [OF demo_mq_kernel d(1,2), of "0x200" 2 w1 "[[7, 9]]" 0 3] q s d by auto
qed

text \<open>The flags are read the wrong way round: a descriptor that was opened for writing only cannot send, and asks the supervisor
  nothing.\<close>

lemma mq_access_inverted:
  assumes "mq_flags (mq_attr d) AND O_RDONLY = 0" and "p \<noteq> 0" and "0 < len"
    and "s_mq_acquire_lock k w = (SUCCESS, w1)" and "s_mq_release_lock k w1 = (SUCCESS, w2)"
  shows "mq_send k (Some d) p len prio w = (neg_ETIMEDOUT, w2)"
  using assms by (simp add: mq_send_def mq_timedsend_def timeout_ticks_def mq_locked_def s_find_queue_in_desc_list_def s_queue_write_def)

text \<open>No call of \<open>mq_open\<close> yields a descriptor: either it returns an error, or it stores through a pointer that is the number 0.\<close>

theorem mq_open_never_opens:
  "(\<exists>e w1. mq_open k name oflag attr w = Ok (e, w1) \<and> e \<noteq> 0) \<or> mq_open k name oflag attr w = Fault Null_deref"
  by (auto simp: mq_open_def split: prod.splits)

end
