(* ===== verification/C_Scanf.thy ===== *)
theory C_Scanf
  imports C_Stdio "HOL-Library.Signed_Division"
begin

text \<open>
  Formatted input, \<open>lib/libc/scanf.c\<close> without the floating-point conversion (which is compiled only with \<open>USE_FLOAT\<close>).

  The characters come from a device through \<open>ccpdfs_read\<close> and are echoed on standard output. The status of a read is not
  looked at; a read that fails leaves the character variable as it was, hence the variable is an argument. What is stored through the pointers among the
  arguments is returned as a list of values in their order. Each input loop takes the same fuel.
\<close>

section \<open>Characters\<close>

abbreviation (input) chr_del :: u8 where "chr_del \<equiv> 0x7f"

abbreviation (input) rubout :: "u8 list" where "rubout \<equiv> [0x08, 0x20, 0x08]"

definition fgetc :: "nat \<Rightarrow> u8 \<Rightarrow> ('c, 'l) stdio \<Rightarrow> (status_t \<times> u8 \<times> ('c, 'l) stdio) outcome" where
  "fgetc fd c s =
     obind (ccpdfs_read fd s) (\<lambda>(r, x, s1). Ok (r, case x of Some c1 \<Rightarrow> c1 | None \<Rightarrow> c, s1))"

definition getch :: "u8 \<Rightarrow> ('c, 'l) stdio \<Rightarrow> (u8 \<times> ('c, 'l) stdio) outcome" where
  "getch junk s = obind (fgetc std_in junk s) (\<lambda>(_, c, s1). Ok (c, s1))"

definition put :: "u8 \<Rightarrow> ('c, 'l) stdio \<Rightarrow> ('c, 'l) stdio outcome" where
  "put c s = obind (fputc std_out c s) (\<lambda>(_, s1). Ok s1)"

definition put_all :: "u8 list \<Rightarrow> ('c, 'l) stdio \<Rightarrow> ('c, 'l) stdio outcome" where
  "put_all cs s = obind (fputs std_out cs s) (\<lambda>(_, s1). Ok s1)"

text \<open>The echo of a character: a carriage return shows as a new line.\<close>

definition echo :: "u8 \<Rightarrow> ('c, 'l) stdio \<Rightarrow> ('c, 'l) stdio outcome" where
  "echo c s = put (if c = chr_cr then chr_lf else c) s"

primrec getchar_loop :: "nat \<Rightarrow> u8 \<Rightarrow> u8 \<Rightarrow> ('c, 'l) stdio \<Rightarrow> (u8 \<times> ('c, 'l) stdio) outcome" where
  "getchar_loop 0 junk c s = Hang"
| "getchar_loop (Suc fuel) junk c s =
     obind (getch junk s) (\<lambda>(temp, s1).
     obind (put temp s1) (\<lambda>s2.
       if temp = chr_cr then obind (put chr_lf s2) (\<lambda>s3. Ok (c, s3))
       else getchar_loop fuel junk temp s2))"

definition getchar :: "nat \<Rightarrow> u8 \<Rightarrow> ('c, 'l) stdio \<Rightarrow> (u8 \<times> ('c, 'l) stdio) outcome" where
  "getchar fuel junk = getchar_loop fuel junk 0x30"

section \<open>The conversions\<close>

primrec skip_space :: "nat \<Rightarrow> nat \<Rightarrow> u8 \<Rightarrow> ('c, 'l) stdio \<Rightarrow> (u8 \<times> ('c, 'l) stdio) outcome" where
  "skip_space 0 fd c s = Hang"
| "skip_space (Suc fuel) fd c s =
     obind (fgetc fd c s) (\<lambda>(_, c1, s1).
     obind (echo c1 s1) (\<lambda>s2. if isSpace c1 then skip_space fuel fd c1 s2 else Ok (c1, s2)))"

text \<open>A key of a number: a digit multiplies \<open>a\<close>, an \<open>int\<close>, by ten and adds to it, which is undefined when the result is not an \<open>int\<close>.\<close>

definition int_key :: "u8 \<Rightarrow> u32 \<Rightarrow> ('c, 'l) stdio \<Rightarrow> (u32 \<times> ('c, 'l) stdio) outcome" where
  "int_key c a s =
     (if isDigit c
      then require (- (2 ^ 31) \<le> sint a * 10 \<and> sint a * 10 + (int (unat c) - 0x30) < 2 ^ 31) Signed_overflow
             (obind (put c s) (\<lambda>s1. Ok (a * 10 + (ucast c - 0x30), s1)))
      else if a \<noteq> 0 \<and> (c = chr_del \<or> c = chr_bs) then obind (put_all rubout s) (\<lambda>s1. Ok (word_of_int (sint a sdiv 10), s1))
      else Ok (a, s))"

primrec int_loop :: "nat \<Rightarrow> nat \<Rightarrow> u32 \<Rightarrow> u8 \<Rightarrow> ('c, 'l) stdio \<Rightarrow> (u32 \<times> u8 \<times> ('c, 'l) stdio) outcome" where
  "int_loop 0 fd a c s = Hang"
| "int_loop (Suc fuel) fd a c s =
     obind (fgetc fd c s) (\<lambda>(_, c1, s1).
     obind (int_key c1 a s1) (\<lambda>(a1, s2). if isSpace c1 then Ok (a1, c1, s2) else int_loop fuel fd a1 c1 s2))"

definition scan_int :: "nat \<Rightarrow> nat \<Rightarrow> u8 \<Rightarrow> ('c, 'l) stdio \<Rightarrow> (u32 \<times> u8 \<times> ('c, 'l) stdio) outcome" where
  "scan_int fuel fd c s =
     obind (skip_space fuel fd c s) (\<lambda>(c1, s1).
     let neg = (c1 = 0x2d); a = (if \<not> neg \<and> isDigit c1 then ucast c1 - 0x30 else 0)
     in obind (int_loop fuel fd a c1 s1) (\<lambda>(a1, c2, s2).
        obind (echo c2 s2) (\<lambda>s3. Ok (if neg then - a1 else a1, c2, s3))))"

text \<open>The string conversion: \<open>buf\<close> is what \<open>s[0]\<close> to \<open>s[i - 1]\<close> hold. After a character is rubbed out, the key itself is
  echoed too.\<close>

primrec str_loop :: "nat \<Rightarrow> nat \<Rightarrow> u8 list \<Rightarrow> u8 \<Rightarrow> ('c, 'l) stdio \<Rightarrow> (u8 list \<times> u8 \<times> ('c, 'l) stdio) outcome" where
  "str_loop 0 fd buf c s = Hang"
| "str_loop (Suc fuel) fd buf c s =
     obind (fgetc fd c s) (\<lambda>(_, c1, s1).
       if isSpace c1 then Ok (buf, c1, s1)
       else if buf \<noteq> [] \<and> (c1 = chr_del \<or> c1 = chr_bs)
       then obind (put_all rubout s1) (\<lambda>s2. obind (put c1 s2) (str_loop fuel fd (butlast buf) c1))
       else obind (put c1 s1) (str_loop fuel fd (buf @ [c1]) c1))"

definition scan_str :: "nat \<Rightarrow> nat \<Rightarrow> u8 \<Rightarrow> ('c, 'l) stdio \<Rightarrow> (u8 list \<times> u8 \<times> ('c, 'l) stdio) outcome" where
  "scan_str fuel fd c s =
     obind (skip_space fuel fd c s) (\<lambda>(c1, s1).
     obind (str_loop fuel fd [c1] c1 s1) (\<lambda>(buf, c2, s2).
     obind (echo c2 s2) (\<lambda>s3. Ok (buf, c2, s3))))"

section \<open>The format\<close>

datatype sval = S_int u32 | S_long u32 | S_int64 u64 | S_char u8 | S_str "u8 list"

text \<open>\<open>conv\<close>: the number of \<open>l\<close> since a percent sign, or \<open>None\<close> outside of a conversion. After a conversion the code goes on with the
  conversion character as plain text, which skips it.\<close>

fun vscanf_loop ::
  "nat \<Rightarrow> nat \<Rightarrow> nat option \<Rightarrow> u8 list \<Rightarrow> u8 \<Rightarrow> u8 \<Rightarrow> u32 \<Rightarrow> sval list \<Rightarrow> ('c, 'l) stdio \<Rightarrow> (u32 \<times> sval list \<times> ('c, 'l) stdio) outcome" where
  "vscanf_loop fuel fd None [] junk c ret vs s = obind (put chr_lf s) (\<lambda>s1. Ok (ret, vs, s1))"
| "vscanf_loop fuel fd None (f # fmt) junk c ret vs s =
     vscanf_loop fuel fd (if f = 0x25 then Some 0 else None) fmt junk c ret vs s"
| "vscanf_loop fuel fd (Some l) [] junk c ret vs s = Ok (- 1, vs, s)"
| "vscanf_loop fuel fd (Some l) (f # fmt) junk c ret vs s =
     (if f = 0x69 \<or> f = 0x64
      then obind (scan_int fuel fd c s) (\<lambda>(a, c1, s1).
           vscanf_loop fuel fd None fmt junk c1 (ret + 1)
             (vs @ [if l \<ge> 2 then S_int64 (word_of_int (sint a)) else if l = 1 then S_long a else S_int a]) s1)
      else if f = 0x6c then vscanf_loop fuel fd (Some (l + 1)) fmt junk c ret vs s
      else if f = 0x63
      then obind (getchar fuel junk s) (\<lambda>(x, s1). vscanf_loop fuel fd None fmt junk c (ret + 1) (vs @ [S_char x]) s1)
      else if f = 0x73
      then obind (scan_str fuel fd c s) (\<lambda>(t, c1, s1). vscanf_loop fuel fd None fmt junk c1 (ret + 1) (vs @ [S_str t]) s1)
      else Ok (- 1, vs, s))"

definition vscanf :: "nat \<Rightarrow> nat \<Rightarrow> u8 list \<Rightarrow> u8 \<Rightarrow> ('c, 'l) stdio \<Rightarrow> (u32 \<times> sval list \<times> ('c, 'l) stdio) outcome" where
  "vscanf fuel fd fmt junk s = vscanf_loop fuel fd None fmt junk junk 0 [] s"

definition scanf :: "nat \<Rightarrow> u8 list \<Rightarrow> u8 \<Rightarrow> ('c, 'l) stdio \<Rightarrow> (u32 \<times> sval list \<times> ('c, 'l) stdio) outcome" where
  "scanf fuel fmt junk s = vscanf fuel std_in fmt junk s"

section \<open>A terminal\<close>

text \<open>A terminal is attached whose keys to come are \<open>keys\<close>: reading takes the first, writing takes none.\<close>

definition tty :: "('c \<Rightarrow> u8 list) \<Rightarrow> (u8 \<Rightarrow> 'c \<Rightarrow> status_t \<times> 'c) \<Rightarrow> ('c \<Rightarrow> status_t \<times> u8 \<times> 'c) \<Rightarrow> u8 list \<Rightarrow> ('c, 'l) stdio \<Rightarrow> bool" where
  "tty inp w rd keys s \<longleftrightarrow>
     (\<forall>c h. inp (snd (w c h)) = inp h)
     \<and> (\<forall>h c cs. inp h = c # cs \<longrightarrow> (\<exists>r h1. rd h = (r, c, h1) \<and> inp h1 = cs))
     \<and> console_attached s \<and> (\<exists>d. con s = Some d \<and> con_write d = Some w \<and> con_read d = Some rd)
     \<and> fs_write (stddev s std_out) = F_console_putc \<and> fs_read (stddev s std_in) = F_console_getc
     \<and> inp (con_hw s) = keys"

lemma tty_fgetc: "tty inp w rd (k # keys) s \<Longrightarrow> \<exists>r s1. fgetc std_in c s = Ok (r, k, s1) \<and> tty inp w rd keys s1"
  by (fastforce simp: tty_def fgetc_def ccpdfs_read_def console_getc_def)

lemma tty_write: "tty inp w rd keys s \<Longrightarrow> \<exists>r s1. ccpdfs_write std_out c s = Ok (r, s1) \<and> tty inp w rd keys s1"
  by (auto simp: tty_def ccpdfs_write_def console_putc_def split: prod.splits) (metis snd_conv)

interpretation ttysink: char_sink "ccpdfs_write std_out" "tty inp w rd keys" "\<lambda>_. ()" "\<lambda>_ _. ()" "\<lambda>_. ()" for inp w rd keys
  by unfold_locales (use tty_write in blast)

lemma tty_put: "tty inp w rd keys s \<Longrightarrow> \<exists>s1. put c s = Ok s1 \<and> tty inp w rd keys s1"
  using ttysink.puts_ok [of inp w rd keys s "crlf c"] fputc_puts [of std_out c s]
  by (simp add: put_def fputc_def)

lemma tty_put_all: "tty inp w rd keys s \<Longrightarrow> \<exists>s1. put_all cs s = Ok s1 \<and> tty inp w rd keys s1"
  using ttysink.puts_ok [of inp w rd keys s "concat (map crlf cs)"] fputs_puts [of std_out cs s]
  by (simp add: put_all_def fputs_def)

lemma tty_echo: "tty inp w rd keys s \<Longrightarrow> \<exists>s1. echo c s = Ok s1 \<and> tty inp w rd keys s1"
  unfolding echo_def by (rule tty_put)

lemma tty_skip_space:
  assumes "tty inp w rd (sp @ k # keys) s" and "list_all isSpace sp" and "\<not> isSpace k" and "length sp < fuel"
  shows "\<exists>s1. skip_space fuel std_in c s = Ok (k, s1) \<and> tty inp w rd keys s1"
  using assms
proof (induction sp arbitrary: fuel c s)
  case Nil
  then obtain f where f: "fuel = Suc f" by (cases fuel) auto
  obtain r s1 where g: "fgetc std_in c s = Ok (r, k, s1)" "tty inp w rd keys s1" using tty_fgetc Nil.prems(1) by fastforce
  obtain s2 where "echo k s1 = Ok s2" "tty inp w rd keys s2" using tty_echo [OF g(2)] by blast
  then show ?case using g Nil.prems(3) by (simp add: f)
next
  case (Cons x sp)
  then obtain f where f: "fuel = Suc f" by (cases fuel) auto
  obtain r s1 where g: "fgetc std_in c s = Ok (r, x, s1)" "tty inp w rd (sp @ k # keys) s1" using tty_fgetc Cons.prems(1) by fastforce
  obtain s2 where e: "echo x s1 = Ok s2" "tty inp w rd (sp @ k # keys) s2" using tty_echo [OF g(2)] by blast
  show ?case using g(1) e(1) Cons.IH [OF e(2), of f x] Cons.prems(2-4) by (simp add: f)
qed

section \<open>Editing while typing\<close>

text \<open>The specification: the digits that are left when each rubout key takes the last one away, and other keys are ignored.\<close>

primrec edit_int :: "u8 list \<Rightarrow> u8 list \<Rightarrow> u8 list" where
  "edit_int [] ds = ds"
| "edit_int (k # ks) ds =
     edit_int ks (if isDigit k then ds @ [k] else if k = chr_del \<or> k = chr_bs then butlast ds else ds)"

text \<open>For strings, a rubout key on the empty string is a character.\<close>

primrec edit_str :: "u8 list \<Rightarrow> u8 list \<Rightarrow> u8 list" where
  "edit_str [] t = t"
| "edit_str (k # ks) t = edit_str ks (if t \<noteq> [] \<and> (k = chr_del \<or> k = chr_bs) then butlast t else t @ [k])"

abbreviation number :: "u8 list \<Rightarrow> u32" where
  "number ds \<equiv> fold read_digit ds 0"

text \<open>The same number without a bound; it fits an \<open>int\<close> when it is below \<open>2 ^ 31\<close>.\<close>

abbreviation dec_value :: "u8 list \<Rightarrow> nat" where
  "dec_value ds \<equiv> fold (\<lambda>d n. n * 10 + (unat d - 48)) ds 0"

definition keys_fit :: "u8 list \<Rightarrow> u8 list \<Rightarrow> bool" where
  "keys_fit ks ds \<longleftrightarrow> (\<forall>n \<le> length ks. dec_value (edit_int (take n ks) ds) < 2 ^ 31)"

lemma keys_fit_simps:
  "keys_fit [] ds \<longleftrightarrow> dec_value ds < 2 ^ 31"
  "keys_fit (k # ks) ds \<longleftrightarrow> dec_value ds < 2 ^ 31 \<and> keys_fit ks (edit_int [k] ds)"
  unfolding keys_fit_def by (auto simp: All_less_Suc2 less_Suc_eq_le [symmetric] simp del: fold_simps)

lemma digit_value:
  assumes "isDigit d"
  shows "unat (ucast d - 0x30 :: u32) = unat d - 48" and "unat d - 48 < 10" and "48 \<le> unat d"
proof -
  have d: "48 \<le> unat d" "unat d \<le> 57" using assms by (simp_all add: isDigit_def word_le_nat_alt)
  then have "unat (ucast d :: u32) = unat d" by (simp add: ucast_small_nat)
  then show "unat (ucast d - 0x30 :: u32) = unat d - 48" using d by (simp add: unat_sub word_le_nat_alt)
  show "unat d - 48 < 10" "48 \<le> unat d" using d by simp_all
qed

lemma number_value: "list_all isDigit ds \<Longrightarrow> dec_value ds < 2 ^ 31 \<Longrightarrow> unat (number ds) = dec_value ds"
proof (induction ds rule: rev_induct)
  case (snoc d ds)
  then have n: "unat (number ds) = dec_value ds" by simp
  have d: "unat (ucast d - 0x30 :: u32) = unat d - 48" using snoc.prems(1) digit_value(1) [of d] by simp
  have "unat (number ds) * 10 + (unat d - 48) < 2 ^ 31" using snoc.prems(2) n by simp
  then have "unat (number ds * 10 + (ucast d - 0x30)) = unat (number ds) * 10 + (unat d - 48)"
    using d by (simp add: unat_word_ariths)
  then show ?case using n by (simp add: read_digit_def [of d])
qed simp

lemma number_signed: "list_all isDigit ds \<Longrightarrow> dec_value ds < 2 ^ 31 \<Longrightarrow> sint (number ds) = int (dec_value ds)"
proof -
  assume ds: "list_all isDigit ds" "dec_value ds < 2 ^ 31"
  define x where "x = number ds"
  have v: "unat x = dec_value ds" using number_value [OF ds] by (simp add: x_def)
  then have "sint x = int (unat x)"
    using ds(2) by (simp add: sint_uint signed_take_bit_int_eq_self uint_nat del: of_nat_unat)
  then show "sint (number ds) = int (dec_value ds)" using v [unfolded x_def] unfolding x_def by (simp only:)
qed

lemma int_sdiv_10: "int n sdiv 10 = int (n div 10)"
  by (cases "n = 0") (simp_all add: signed_divide_int_def zdiv_int)

lemma rubout_digit:
  assumes "list_all isDigit ds" and "dec_value ds < 2 ^ 31"
  shows "word_of_int (sint (number ds) sdiv 10) = number (butlast ds)"
proof (cases ds rule: rev_cases)
  case (snoc es d)
  then have d: "unat d - 48 < 10" "list_all isDigit es" using assms(1) digit_value(2) by simp_all
  have "dec_value es < 2 ^ 31" using assms(2) snoc by simp
  then have es: "dec_value es = unat (number es)" using number_value [OF d(2)] by simp
  have "sint (number ds) sdiv 10 = int (unat (number es))"
    unfolding number_signed [OF assms] int_sdiv_10 es [symmetric] using d(1) by (simp add: snoc)
  then show ?thesis by (simp add: snoc)
qed simp

text \<open>One key of a number.\<close>

lemma tty_int_key:
  assumes "tty inp w rd keys s" and ds: "list_all isDigit ds" "dec_value ds < 2 ^ 31" and "dec_value (edit_int [k] ds) < 2 ^ 31"
  shows "\<exists>s1. int_key k (number ds) s = Ok (number (edit_int [k] ds), s1) \<and> tty inp w rd keys s1 \<and> list_all isDigit (edit_int [k] ds)"
proof -
  have b: "list_all isDigit (butlast ds)" using assms(2) unfolding list_all_iff by (metis in_set_butlastD)
  consider (d) "isDigit k" | (r) "\<not> isDigit k" "k = chr_del \<or> k = chr_bs" "number ds \<noteq> 0"
    | (z) "\<not> isDigit k" "k = chr_del \<or> k = chr_bs" "number ds = 0" | (o) "\<not> isDigit k" "k \<noteq> chr_del \<and> k \<noteq> chr_bs" by auto
  then show ?thesis
  proof cases
    case d
    have "sint (number ds) * 10 + (int (unat k) - 0x30) = int (dec_value (ds @ [k]))" "0 \<le> sint (number ds)"
      using number_signed [OF ds] digit_value(3) [OF d] by (simp_all add: of_nat_diff)
    then have "- (2 ^ 31) \<le> sint (number ds) * 10 \<and> sint (number ds) * 10 + (int (unat k) - 0x30) < 2 ^ 31"
      using assms(4) d by simp
    then show ?thesis using tty_put [OF assms(1), of k] ds d by (auto simp: int_key_def read_digit_def)
  next
    case r
    then show ?thesis using tty_put_all [OF assms(1), of rubout] rubout_digit [OF ds] b by (auto simp: int_key_def)
  next
    case z
    then have "number (butlast ds) = 0" using rubout_digit [OF ds] by simp
    then show ?thesis using z assms(1) b by (auto simp: int_key_def)
  next
    case o
    then show ?thesis using assms(1) ds by (auto simp: int_key_def)
  qed
qed

lemma edit_int_append: "edit_int (xs @ ys) ds = edit_int ys (edit_int xs ds)"
  by (induction xs arbitrary: ds) simp_all

lemma tty_int_loop:
  assumes "tty inp w rd (ks @ z # rest) s" and "list_all (\<lambda>k. \<not> isSpace k) ks" and "isSpace z" and "length ks < fuel"
    and "list_all isDigit ds" and "keys_fit ks ds"
  shows "\<exists>s1. int_loop fuel std_in (number ds) c s = Ok (number (edit_int ks ds), z, s1) \<and> tty inp w rd rest s1"
  using assms
proof (induction ks arbitrary: fuel ds c s)
  case Nil
  then obtain f where f: "fuel = Suc f" by (cases fuel) auto
  obtain r s1 where g: "fgetc std_in c s = Ok (r, z, s1)" "tty inp w rd rest s1" using tty_fgetc Nil.prems(1) by fastforce
  have "\<not> isDigit z" "z \<noteq> chr_del" "z \<noteq> chr_bs" using Nil.prems(3) isDigit_plain [of z] by (auto simp: isSpace_def isWhitespace_def)
  then show ?case using g Nil.prems(3) by (simp add: f int_key_def)
next
  case (Cons k ks)
  then obtain f where f: "fuel = Suc f" by (cases fuel) auto
  obtain r s1 where g: "fgetc std_in c s = Ok (r, k, s1)" "tty inp w rd (ks @ z # rest) s1" using tty_fgetc Cons.prems(1) by fastforce
  have fit: "dec_value ds < 2 ^ 31" "keys_fit ks (edit_int [k] ds)" using Cons.prems(6) by (simp_all only: keys_fit_simps)
  then have "dec_value (edit_int [k] ds) < 2 ^ 31" unfolding keys_fit_def by (metis edit_int.simps(1) le0 take_0)
  from tty_int_key [OF g(2) Cons.prems(5) fit(1) this]
  obtain s2 where i: "int_key k (number ds) s1 = Ok (number (edit_int [k] ds), s2)" "tty inp w rd (ks @ z # rest) s2"
    "list_all isDigit (edit_int [k] ds)" by blast
  from Cons.IH [OF i(2) _ _ _ i(3) fit(2), of f k]
  obtain s3 where "int_loop f std_in (number (edit_int [k] ds)) k s2 = Ok (number (edit_int ks (edit_int [k] ds)), z, s3)" "tty inp w rd rest s3"
    using Cons.prems(2-4) f by auto
  then show ?case
    using g(1) i(1) Cons.prems(2) by (simp add: f del: edit_int.simps) (simp add: edit_int_append [of "[k]" ks, simplified])
qed

lemma tty_str_loop:
  assumes "tty inp w rd (ks @ z # rest) s" and "list_all (\<lambda>k. \<not> isSpace k) ks" and "isSpace z" and "length ks < fuel"
  shows "\<exists>s1. str_loop fuel std_in t c s = Ok (edit_str ks t, z, s1) \<and> tty inp w rd rest s1"
  using assms
proof (induction ks arbitrary: fuel t c s)
  case Nil
  then obtain f where f: "fuel = Suc f" by (cases fuel) auto
  obtain r s1 where "fgetc std_in c s = Ok (r, z, s1)" "tty inp w rd rest s1" using tty_fgetc Nil.prems(1) by fastforce
  then show ?case using Nil.prems(3) by (simp add: f)
next
  case (Cons k ks)
  then obtain f where f: "fuel = Suc f" by (cases fuel) auto
  let ?keys = "ks @ z # rest"
  obtain r s1 where g: "fgetc std_in c s = Ok (r, k, s1)" "tty inp w rd ?keys s1" using tty_fgetc Cons.prems(1) by fastforce
  obtain s2 where p: "put_all rubout s1 = Ok s2" "tty inp w rd ?keys s2" using tty_put_all [OF g(2)] by blast
  obtain s3 where q: "put k s1 = Ok s3" "tty inp w rd ?keys s3" using tty_put [OF g(2)] by blast
  obtain s4 where u: "put k s2 = Ok s4" "tty inp w rd ?keys s4" using tty_put [OF p(2)] by blast
  show ?case
    using g(1) p(1) q(1) u(1) Cons.prems(2-4) Cons.IH [OF q(2), of f "t @ [k]" k] Cons.IH [OF u(2), of f "butlast t" k]
    by (auto simp: f)
qed

lemma scanf_int_keys:
  assumes "tty inp w rd (sp @ k # ks @ z # rest) s" and "list_all isSpace sp" and "list_all (\<lambda>k. \<not> isSpace k) (k # ks)" and "isSpace z"
    and "keys_fit ks (if isDigit k then [k] else [])" and "length sp < fuel" and "length ks < fuel"
  shows "\<exists>s1. scanf fuel [0x25, 0x64] junk s
      = Ok (1, [S_int (let n = number (edit_int ks (if isDigit k then [k] else [])) in if k = 0x2d then - n else n)], s1)
    \<and> tty inp w rd rest s1"
proof -
  obtain s1 where k: "skip_space fuel std_in junk s = Ok (k, s1)" "tty inp w rd (ks @ z # rest) s1"
    using tty_skip_space [OF assms(1,2)] assms(3,6) by auto
  let ?ds = "if isDigit k then [k] else []"
  have m: "isDigit 0x2d = False" by (simp add: isDigit_def)
  have a: "(if k \<noteq> 0x2d \<and> isDigit k then ucast k - 0x30 else 0) = number ?ds" using m by (auto simp: read_digit_def)
  have "list_all isDigit ?ds" by simp
  from tty_int_loop [OF k(2) _ assms(4,7) this assms(5), of k]
  obtain s2 where l: "int_loop fuel std_in (number ?ds) k s1 = Ok (number (edit_int ks ?ds), z, s2)" "tty inp w rd rest s2"
    using assms(3) by auto
  obtain s3 where e: "echo z s2 = Ok s3" "tty inp w rd rest s3" using tty_echo [OF l(2)] by blast
  have "scan_int fuel std_in junk s = Ok (if k = 0x2d then - number (edit_int ks ?ds) else number (edit_int ks ?ds), z, s3)"
    using k(1) l(1) e(1) by (simp add: scan_int_def Let_def a cong: if_cong)
  moreover obtain s4 where "put chr_lf s3 = Ok s4" "tty inp w rd rest s4" using tty_put [OF e(2)] by blast
  ultimately show ?thesis by (simp add: scanf_def vscanf_def Let_def)
qed

text \<open>A number typed at the terminal: \<open>scanf("%d")\<close> returns the number of the digits that are left after every
  rubout key took the last one away, negated after a leading minus, and \<open>scanf("%s")\<close> the characters left; blanks before
  are skipped, other keys than digits do not count in a number, and the input after the closing blank is left in
  place. The digits left at each moment are a number that fits an \<open>int\<close>.\<close>

theorem scanf_edits:
  assumes "tty inp w rd (sp @ k # ks @ z # rest) s" and "list_all isSpace sp" and "list_all (\<lambda>k. \<not> isSpace k) (k # ks)" and "isSpace z"
    and "keys_fit ks (if isDigit k then [k] else [])" and "length sp < fuel" and "length ks < fuel"
  shows "(\<exists>s1. scanf fuel [0x25, 0x64] junk s
      = Ok (1, [S_int (let n = number (edit_int ks (if isDigit k then [k] else [])) in if k = 0x2d then - n else n)], s1) \<and> tty inp w rd rest s1)
    \<and> (\<exists>s1. scanf fuel [0x25, 0x73] junk s = Ok (1, [S_str (edit_str ks [k])], s1) \<and> tty inp w rd rest s1)"
proof
  obtain s1 where k: "skip_space fuel std_in junk s = Ok (k, s1)" "tty inp w rd (ks @ z # rest) s1"
    using tty_skip_space [OF assms(1,2)] assms(3,6) by auto
  obtain s2 where l: "str_loop fuel std_in [k] k s1 = Ok (edit_str ks [k], z, s2)" "tty inp w rd rest s2"
    using tty_str_loop [OF k(2) _ assms(4,7)] assms(3) by auto
  obtain s3 where e: "echo z s2 = Ok s3" "tty inp w rd rest s3" using tty_echo [OF l(2)] by blast
  moreover obtain s4 where "put chr_lf s3 = Ok s4" "tty inp w rd rest s4" using tty_put [OF e(2)] by blast
  ultimately show "\<exists>s1. scanf fuel [0x25, 0x73] junk s = Ok (1, [S_str (edit_str ks [k])], s1) \<and> tty inp w rd rest s1"
    using k(1) l(1) by (simp add: scanf_def vscanf_def scan_str_def)
qed (rule scanf_int_keys [OF assms])

lemma edit_int_digits: "list_all isDigit ks \<Longrightarrow> edit_int ks ds = ds @ ks"
  by (induction ks arbitrary: ds) simp_all

lemma edit_fit: "list_all isDigit ks \<Longrightarrow> dec_value (ds @ ks) < 2 ^ 31 \<Longrightarrow> keys_fit ks ds"
proof (induction ks arbitrary: ds)
  case (Cons k ks)
  have le: "dec_value xs \<le> dec_value (xs @ ys)" for xs ys by (induction ys rule: rev_induct) auto
  have "dec_value ds < 2 ^ 31" using le [of ds "k # ks"] Cons.prems(2) by linarith
  then show ?case using Cons.IH [of "ds @ [k]"] Cons.prems by (simp add: keys_fit_simps del: fold_append)
qed (simp add: keys_fit_simps)

lemma digit_buf_value: "dec_value (rev (digit_buf x 10)) = unat x"
proof (induction "unat x" arbitrary: x rule: less_induct)
  case less
  have m: "x mod 10 < 10" by (simp add: word_less_nat_alt unat_mod)
  have c: "unat (digit_char (x mod 10)) - 48 = unat x mod 10"
    using digit_char_10 [OF m] digit_value(1) [of "digit_char (x mod 10)"] by (simp add: unat_mod)
  show ?case
  proof (cases "x div 10 > 0")
    case True
    then have "unat (x div 10) < unat x" by (auto simp: unat_div word_less_nat_alt)
    then show ?thesis using less.hyps True c by (subst digit_buf.simps) (simp add: unat_div)
  next
    case False
    then have "unat (x div 10) = 0" by (simp add: word_gt_0)
    then have "unat x < 10" by (simp add: unat_div)
    then show ?thesis using False c by (subst digit_buf.simps) simp
  qed
qed

lemma signed_magnitude:
  fixes x :: u32
  shows "\<not> x <s 0 \<Longrightarrow> unat x < 2 ^ 31" and "x <s 0 \<Longrightarrow> x \<noteq> 0x80000000 \<Longrightarrow> unat (- x) < 2 ^ 31"
proof -
  have r: "- 2147483648 \<le> sint x" "sint x < 2147483648" using sint_ge [of x] sint_lt [of x] by simp_all
  have u: "uint x = sint x mod 4294967296" using uint_sint [of x] by (simp add: take_bit_eq_mod)
  assume "\<not> x <s 0"
  then show "unat x < 2 ^ 31" using r u by (simp add: word_sless_alt unat_eq_nat_uint nat_less_iff)
next
  have r: "- 2147483648 \<le> sint x" using sint_ge [of x] by simp
  assume "x <s 0" and "x \<noteq> 0x80000000"
  moreover have "x = 0x80000000" if "sint x = - 2147483648" 
  proof -
    have "x = of_int (sint x)" by simp
    then show ?thesis unfolding that by simp
  qed
  ultimately have n: "sint x < 0" "sint x \<noteq> - 2147483648" by (auto simp: word_sless_alt)
  have "uint (- x) = (- sint x) mod 4294967296"
    using uint_word_of_int [of "- sint x", where 'a = 32] by simp
  then have "uint (- x) = - sint x" using n(1) r by simp
  then show "unat (- x) < 2 ^ 31" using n(2) r by (simp add: unat_eq_nat_uint nat_less_iff)
qed

text \<open>The characters \<open>%d\<close> prints, read back.\<close>

lemma scanf_decimal:
  assumes "tty inp w rd (decimal x @ z # rest) s" and "isSpace z" and "length (decimal x) \<le> fuel" and min: "x \<noteq> 0x80000000"
  shows "\<exists>s1. scanf fuel [0x25, 0x64] junk s = Ok (1, [S_int x], s1) \<and> tty inp w rd rest s1"
proof -
  obtain k ks where d: "decimal x = k # ks" using digit_buf_nonempty by (cases "decimal x") (auto simp: decimal_def split: if_splits)
  have ds: "list_all isDigit (rev (digit_buf y 10))" "number (rev (digit_buf y 10)) = y" for y using digit_buf_10 [of y] by simp_all
  have n: "\<not> isDigit 0x2d" "\<not> isSpace 0x2d" by (simp_all add: isDigit_def isSpace_def isWhitespace_def)
  have ks: "list_all isDigit ks" and k: "if x <s 0 then k = 0x2d \<and> ks = rev (digit_buf (- x) 10) else isDigit k \<and> k # ks = rev (digit_buf x 10)"
    using d ds(1) [of x] ds(1) [of "- x"] by (auto simp: decimal_def split: if_splits)
  have num: "(let m = number (edit_int ks (if isDigit k then [k] else [])) in if k = 0x2d then - m else m) = x"
  proof (cases "x <s 0")
    case True
    then show ?thesis using k n ds(2) [of "- x"] edit_int_digits [OF ks, of "[]"] by simp
  next
    case False
    then have "isDigit k" "number (k # ks) = x" using k ds(2) [of x] by auto
    then show ?thesis using n by (auto simp: edit_int_digits [OF ks])
  qed
  have "dec_value ((if isDigit k then [k] else []) @ ks) < 2 ^ 31"
  proof (cases "x <s 0")
    case True
    then have "unat (- x) < 2 ^ 31" using min by (rule signed_magnitude)
    then show ?thesis using True k n digit_buf_value [of "- x"] by simp
  next
    case False
    then have "unat x < 2 ^ 31" by (rule signed_magnitude)
    moreover have "isDigit k" "k # ks = rev (digit_buf x 10)" using False k by simp_all
    ultimately show ?thesis using digit_buf_value [of x] by (simp del: fold_simps)
  qed
  then have "keys_fit ks (if isDigit k then [k] else [])" by (rule edit_fit [OF ks])
  moreover have "list_all (\<lambda>k. \<not> isSpace k) (k # ks)"
    using k ks n isDigit_plain by (auto simp: list_all_iff isDigit_def split: if_splits)
  ultimately show ?thesis
    using scanf_int_keys [of inp w rd "[]" k ks z rest s fuel junk] assms(1-3) d num by simp
qed

text \<open>C25: on a console whose device records what it is sent, \<open>printf("%d", x)\<close> sends a text which, typed with a blank after it at any
  terminal, \<open>scanf("%d")\<close> reads back as \<open>x\<close>, leaving the input after the blank in place. This holds for every 32-bit
  integer but the least, whose digits overflow the \<open>int\<close> that \<open>scanf\<close> collects them in.\<close>

theorem printf_scanf_roundtrip:
  assumes "con_ready (\<lambda>c h. (st, h @ [c])) s0" and "x \<noteq> 0x80000000"
  shows "\<exists>r s0' t. printf [0x25, 0x64] [A32 x] s0 = Ok (r, s0') \<and> con_hw s0' = con_hw s0 @ t
    \<and> (\<forall>inp w rd z rest s fuel junk. tty inp w rd (t @ z # rest) s \<and> isSpace z \<and> length t \<le> fuel
         \<longrightarrow> (\<exists>s1. scanf fuel [0x25, 0x64] junk s = Ok (1, [S_int x], s1) \<and> tty inp w rd rest s1))"
proof -
  obtain r s0' where "printf [0x25, 0x64] [A32 x] s0 = Ok (r, s0')" "con_hw s0' = con_hw s0 @ decimal x"
    using printf_decimal [OF assms(1), of x] by (auto simp: fold_snoc)
  then show ?thesis using scanf_decimal [OF _ _ _ assms(2)] by blast
qed

definition demo_tty :: "(u8 list, membuf_t) stdio" where
  "demo_tty = demo_stdio\<lparr>con := Some \<lparr>con_write = Some (\<lambda>c h. (0, h)),
      con_read = Some (\<lambda>h. case h of c # cs \<Rightarrow> (0, c, cs) | [] \<Rightarrow> (1, 0, [])), con_flush = None, con_payload_size = None\<rparr>,
    con_hw := [0x20, 0x34, 0x37, 0x7f, 0x32, 0x0d]\<rparr>"

lemma demo_tty_ready:
  "tty (\<lambda>h. h) (\<lambda>c h. (0, h)) (\<lambda>h. case h of c # cs \<Rightarrow> (0, c, cs) | [] \<Rightarrow> (1, 0, [])) keys (demo_tty\<lparr>con_hw := keys\<rparr>)"
  by (simp add: tty_def demo_tty_def demo_stdio_def)

theorem scanf_edits_witness:
  "\<exists>s1. scanf 5 [0x25, 0x64] 0 (demo_tty\<lparr>con_hw := [0x20, 0x34, 0x37, 0x7f, 0x32, 0x0d]\<rparr>) = Ok (1, [S_int 42], s1)"
  using scanf_edits [of _ _ _ "[0x20]" "0x34" "[0x37, 0x7f, 0x32]" "0x0d" "[]", simplified append_Cons append_Nil, OF demo_tty_ready, of 5 0]
  by (auto simp: isSpace_def isWhitespace_def isDigit_def read_digit_def Let_def keys_fit_simps)

theorem printf_scanf_roundtrip_witness:
  "\<exists>r s0' t s1. printf [0x25, 0x64] [A32 (- 7)] demo_stdio = Ok (r, s0') \<and> con_hw s0' = con_hw demo_stdio @ t
    \<and> scanf (length t) [0x25, 0x64] 0 (demo_tty\<lparr>con_hw := t @ [0x20]\<rparr>) = Ok (1, [S_int (- 7)], s1)"
proof -
  have "con_ready (\<lambda>c h. (0, h @ [c])) demo_stdio" by (simp add: con_ready_def demo_stdio_def)
  from printf_scanf_roundtrip [OF this, of "- 7"] obtain r s0' t
    where t: "printf [0x25, 0x64] [A32 (- 7)] demo_stdio = Ok (r, s0')" "con_hw s0' = con_hw demo_stdio @ t"
      "\<forall>inp w rd z rest s fuel junk. tty inp w rd (t @ z # rest) (s :: (u8 list, membuf_t) stdio) \<and> isSpace z \<and> length t \<le> fuel
         \<longrightarrow> (\<exists>s1. scanf fuel [0x25, 0x64] junk s = Ok (1, [S_int (- 7)], s1) \<and> tty inp w rd rest s1)"
    by auto
  have "isSpace 0x20" by (simp add: isSpace_def isWhitespace_def)
  then show ?thesis using t(1,2) t(3) [rule_format, OF conjI [OF demo_tty_ready [of "t @ [0x20]"] conjI], of "length t" 0] by blast
qed

end
