(* ===== verification/Avr_Gpio.thy ===== *)
theory Avr_Gpio
  imports Resources Locks
begin

text \<open>
  The Mega-AVR platform: byte-wide registers, the table of interrupt handlers (\<open>arch/avr/8/common_5x_6/terravisor/interrupt_handler.c\<close>)
  and the GPIO block (\<open>platform/mega_avr/common/hal/gpio\<close>). The AVR is an 8-bit machine with 16-bit pointers and a 16-bit
  \<open>int\<close>; as on the RISC-V platform the hardware is a parameter, here with loads and stores of bytes. The functions of both platforms have the same
  names in C; here those of the AVR carry the prefix \<open>avr\<close>.
\<close>

section \<open>Byte-wide registers\<close>

record 'h hw8 =
  rd8 :: "u16 \<Rightarrow> 'h \<Rightarrow> u8 \<times> 'h"
  wr8 :: "u16 \<Rightarrow> u8 \<Rightarrow> 'h \<Rightarrow> 'h"

text \<open>\<open>MMIO8(a) |= v\<close>, \<open>MMIO8(a) &= v\<close> and \<open>MMIO8(a) ^= v\<close>.\<close>

definition upd8 :: "'h hw8 \<Rightarrow> u16 \<Rightarrow> (u8 \<Rightarrow> u8) \<Rightarrow> 'h \<Rightarrow> 'h" where
  "upd8 hw a f s = (case rd8 hw a s of (x, s1) \<Rightarrow> wr8 hw a (f x) s1)"

abbreviation or8 :: "'h hw8 \<Rightarrow> u16 \<Rightarrow> u8 \<Rightarrow> 'h \<Rightarrow> 'h" where
  "or8 hw a v \<equiv> upd8 hw a (\<lambda>x. x OR v)"

abbreviation and8 :: "'h hw8 \<Rightarrow> u16 \<Rightarrow> u8 \<Rightarrow> 'h \<Rightarrow> 'h" where
  "and8 hw a v \<equiv> upd8 hw a (\<lambda>x. x AND v)"

abbreviation xor8 :: "'h hw8 \<Rightarrow> u16 \<Rightarrow> u8 \<Rightarrow> 'h \<Rightarrow> 'h" where
  "xor8 hw a v \<equiv> upd8 hw a (\<lambda>x. x XOR v)"

text \<open>\<open>1 << n\<close> in an \<open>int\<close>, cut to a byte where it is stored.\<close>

definition bit8 :: "nat \<Rightarrow> u8" where
  "bit8 n = push_bit n 1"

primrec poll8 :: "nat \<Rightarrow> 'h hw8 \<Rightarrow> u16 \<Rightarrow> (u8 \<Rightarrow> bool) \<Rightarrow> 'h \<Rightarrow> 'h outcome" where
  "poll8 0 hw a P s = Hang"
| "poll8 (Suc fuel) hw a P s = (case rd8 hw a s of (x, s1) \<Rightarrow> if P x then poll8 fuel hw a P s1 else Ok s1)"

text \<open>The registers in \<open>R\<close> are storage: they read as what was stored last, and stores to other registers leave them alone.\<close>

definition stores8 :: "'h hw8 \<Rightarrow> ('h \<Rightarrow> u16 \<Rightarrow> u8) \<Rightarrow> u16 set \<Rightarrow> bool" where
  "stores8 hw val R \<longleftrightarrow>
     (\<forall>s a b. b \<in> R \<longrightarrow> val (snd (rd8 hw a s)) b = val s b)
     \<and> (\<forall>s a. a \<in> R \<longrightarrow> fst (rd8 hw a s) = val s a)
     \<and> (\<forall>s a b v. b \<in> R \<longrightarrow> val (wr8 hw a v s) b = (if a = b then v else val s b))"

lemma stores8_wr: "stores8 hw val R \<Longrightarrow> b \<in> R \<Longrightarrow> val (wr8 hw a v s) b = (if a = b then v else val s b)"
  by (simp add: stores8_def)

lemma stores8_rd: "stores8 hw val R \<Longrightarrow> a \<in> R \<Longrightarrow> fst (rd8 hw a s) = val s a"
  by (simp add: stores8_def)

lemma stores8_rd_frame: "stores8 hw val R \<Longrightarrow> b \<in> R \<Longrightarrow> val (snd (rd8 hw a s)) b = val s b"
  by (simp add: stores8_def)

lemma stores8_upd: "stores8 hw val R \<Longrightarrow> b \<in> R \<Longrightarrow> val (upd8 hw a f s) b = (if a = b then f (val s b) else val s b)"
  by (auto simp: upd8_def case_prod_unfold stores8_wr stores8_rd stores8_rd_frame)

lemmas stores8_simps = stores8_wr stores8_rd stores8_rd_frame stores8_upd

text \<open>A memory of bytes.\<close>

definition plain8 :: "(u16 \<Rightarrow> u8) hw8" where
  "plain8 = \<lparr>rd8 = (\<lambda>a s. (s a, s)), wr8 = (\<lambda>a v s. s(a := v))\<rparr>"

lemma plain8_stores: "stores8 plain8 (\<lambda>s. s) R"
  by (simp add: stores8_def plain8_def)

section \<open>Interrupt handlers\<close>

type_synonym avr_handler = nat

abbreviation (input) avr_panic :: avr_handler where "avr_panic \<equiv> 1"
abbreviation (input) N_IRQ :: nat where "N_IRQ \<equiv> 25"

text \<open>\<open>int_handler[N_IRQ]\<close>; the number of an interrupt counts from 1.\<close>

definition avr_register_interrupt_handler :: "u16 \<Rightarrow> avr_handler \<Rightarrow> avr_handler list \<Rightarrow> avr_handler list outcome" where
  "avr_register_interrupt_handler i h t =
     require (i > 0 \<and> unat i \<le> N_IRQ) Assert_failed (require (unat (i - 1) < length t) Out_of_bounds (Ok (t[unat (i - 1) := h])))"

datatype int_module = int_arch | int_local | int_plat

text \<open>\<open>link_interrupt\<close> and \<open>unlink_interrupt\<close> (\<open>driver/interrupt/interrupt.c\<close>) on a platform that has neither a local nor a platform
  interrupt device.\<close>

definition avr_link_interrupt :: "int_module \<Rightarrow> u16 \<Rightarrow> avr_handler \<Rightarrow> avr_handler list \<Rightarrow> (status_t \<times> avr_handler list) outcome" where
  "avr_link_interrupt target i h t =
     (case target of
        int_arch \<Rightarrow> obind (avr_register_interrupt_handler i h t) (\<lambda>t1. Ok (success, t1))
      | _ \<Rightarrow> Ok (error_system_irq_link_fail, t))"

definition avr_unlink_interrupt :: "int_module \<Rightarrow> u16 \<Rightarrow> avr_handler list \<Rightarrow> (status_t \<times> avr_handler list) outcome" where
  "avr_unlink_interrupt target i t =
     (case target of
        int_arch \<Rightarrow> obind (avr_register_interrupt_handler i avr_panic t) (\<lambda>t1. Ok (success, t1))
      | _ \<Rightarrow> Ok (error_system_irq_unlink_fail, t))"

text \<open>\<open>interrupt_handler\<close>: what the handlers do is the parameter \<open>run\<close>; 254 and 255 are the panics. The frame is set while the
  handler runs, which sees it through \<open>in_isr\<close>.\<close>

definition avr_interrupt_handler ::
  "(avr_handler \<Rightarrow> ptr \<times> 's \<Rightarrow> (ptr \<times> 's) outcome) \<Rightarrow> avr_handler list \<Rightarrow> u8 \<Rightarrow> ptr \<Rightarrow> (ptr \<times> 's) \<Rightarrow> (ptr \<times> 's) outcome" where
  "avr_interrupt_handler run t i frame s =
     (if i > 0 \<and> unat i \<le> N_IRQ
      then require (unat (i - 1) < length t) Out_of_bounds
             (require (t ! unat (i - 1) \<noteq> 0) Assert_failed
                (obind (run (t ! unat (i - 1)) (frame, snd s)) (\<lambda>s1. Ok (NULL, snd s1))))
      else if i = 254 \<or> i = 255 then Fault (Panic error_system)
      else Ok (NULL, snd s))"

definition avr_in_isr :: "ptr \<Rightarrow> bool" where
  "avr_in_isr local_frame \<longleftrightarrow> local_frame \<noteq> NULL"

section \<open>GPIO\<close>

abbreviation (input) PIN_OFFSET :: u16 where "PIN_OFFSET \<equiv> 0x00"
abbreviation (input) DDR_OFFSET :: u16 where "DDR_OFFSET \<equiv> 0x01"
abbreviation (input) PORT_OFFSET :: u16 where "PORT_OFFSET \<equiv> 0x02"

record avr_gpio_port =
  ag_pbaddr :: u16
  ag_port :: u8
  ag_pin :: u8

text \<open>The bit of the pin of a port in a byte.\<close>

abbreviation pin8 :: "avr_gpio_port \<Rightarrow> u8" where
  "pin8 p \<equiv> bit8 (unat (ag_pin p))"

definition avr_dp_port :: "resources \<Rightarrow> u8 \<Rightarrow> avr_gpio_port \<Rightarrow> (status_t \<times> avr_gpio_port) outcome" where
  "avr_dp_port r portID p =
     obind (visor_fetch r fetch_dp hw_gpio (ucast portID)) (\<lambda>v.
       if vr_status v \<noteq> success then Ok (vr_status v, p)
       else case vr_p v of
              P_gpio dp \<Rightarrow> Ok (success, p\<lparr>ag_pbaddr := ucast (gpio_baddr dp)\<rparr>)
            | _ \<Rightarrow> Fault Null_deref)"

definition avr_gpio_pin_alloc ::
  "resources \<Rightarrow> avr_gpio_port option \<Rightarrow> u8 \<Rightarrow> u8 \<Rightarrow> u8 list \<Rightarrow> (status_t \<times> avr_gpio_port option \<times> u8 list) outcome" where
  "avr_gpio_pin_alloc r port portID pinID ps =
     (case port of
        None \<Rightarrow> Ok (error_inval_pointer, None, ps)
      | Some p \<Rightarrow>
          require (unat portID < length ps) Out_of_bounds
            (if ps ! unat portID AND bit8 (unat pinID) \<noteq> 0 then Ok (error_driver_busy, port, ps)
             else let ps1 = ps[unat portID := ps ! unat portID OR bit8 (unat pinID)]
                  in obind (avr_dp_port r portID (p\<lparr>ag_pin := pinID, ag_port := portID\<rparr>)) (\<lambda>(st, p1). Ok (st, Some p1, ps1))))"

definition avr_gpio_pin_mode :: "'d hw8 \<Rightarrow> avr_gpio_port option \<Rightarrow> u16 \<Rightarrow> 'd \<Rightarrow> status_t \<times> 'd" where
  "avr_gpio_pin_mode hw port mode s =
     (case port of
        None \<Rightarrow> (error_inval_pointer, s)
      | Some p \<Rightarrow>
          let b = ag_pbaddr p; input = and8 hw (b + DDR_OFFSET) (NOT (pin8 p))
          in if mode = 1 then (success, or8 hw (b + DDR_OFFSET) (pin8 p) s)
             else if mode = 3 then (success, input (or8 hw (b + PORT_OFFSET) (pin8 p) s))
             else if mode = 2 then (success, input s)
             else (error_func_inval_arg, s))"

definition avr_gpio_pin_free :: "avr_gpio_port option \<Rightarrow> u8 list \<Rightarrow> (status_t \<times> avr_gpio_port option \<times> u8 list) outcome" where
  "avr_gpio_pin_free port ps =
     (case port of
        None \<Rightarrow> Ok (error_inval_pointer, None, ps)
      | Some p \<Rightarrow>
          require (unat (ag_port p) < length ps) Out_of_bounds
            (Ok (success, Some \<lparr>ag_pbaddr = 0, ag_port = 0, ag_pin = 0\<rparr>,
                 ps[unat (ag_port p) := ps ! unat (ag_port p) AND NOT (pin8 p)])))"

definition avr_gpio_pin_set :: "'d hw8 \<Rightarrow> avr_gpio_port option \<Rightarrow> 'd \<Rightarrow> status_t \<times> 'd" where
  "avr_gpio_pin_set hw port s =
     (case port of None \<Rightarrow> (error_inval_pointer, s) | Some p \<Rightarrow> (success, or8 hw (ag_pbaddr p + PORT_OFFSET) (pin8 p) s))"

definition avr_gpio_pin_clear :: "'d hw8 \<Rightarrow> avr_gpio_port option \<Rightarrow> 'd \<Rightarrow> status_t \<times> 'd" where
  "avr_gpio_pin_clear hw port s =
     (case port of None \<Rightarrow> (error_inval_pointer, s) | Some p \<Rightarrow> (success, and8 hw (ag_pbaddr p + PORT_OFFSET) (NOT (pin8 p)) s))"

definition avr_gpio_pin_toggle :: "'d hw8 \<Rightarrow> avr_gpio_port option \<Rightarrow> 'd \<Rightarrow> status_t \<times> 'd" where
  "avr_gpio_pin_toggle hw port s =
     (case port of None \<Rightarrow> (error_inval_pointer, s) | Some p \<Rightarrow> (success, xor8 hw (ag_pbaddr p + PORT_OFFSET) (pin8 p) s))"

definition avr_gpio_pin_read :: "'d hw8 \<Rightarrow> avr_gpio_port option \<Rightarrow> 'd \<Rightarrow> (bool \<times> 'd) outcome" where
  "avr_gpio_pin_read hw port s =
     (case port of
        None \<Rightarrow> Fault Assert_failed
      | Some p \<Rightarrow> (case rd8 hw (ag_pbaddr p + PIN_OFFSET) s of (x, s1) \<Rightarrow> Ok (x AND pin8 p \<noteq> 0, s1)))"

text \<open>\<open>(uint8_t)((uint16_t)(1 << BIT) - 1)\<close> with \<open>BIT\<close> 8.\<close>

abbreviation (input) all_pins :: u8 where "all_pins \<equiv> 0xff"

definition avr_gpio_port_alloc ::
  "resources \<Rightarrow> avr_gpio_port option \<Rightarrow> u8 \<Rightarrow> u8 list \<Rightarrow> (status_t \<times> avr_gpio_port option \<times> u8 list) outcome" where
  "avr_gpio_port_alloc r port portID ps =
     (case port of
        None \<Rightarrow> Ok (error_inval_pointer, None, ps)
      | Some p \<Rightarrow>
          require (unat portID < length ps) Out_of_bounds
            (if ps ! unat portID \<noteq> 0 then Ok (error_driver_busy, port, ps)
             else obind (avr_dp_port r portID (p\<lparr>ag_pin := all_pins, ag_port := portID\<rparr>)) (\<lambda>(st, p1).
                    Ok (st, Some p1, ps[unat portID := all_pins]))))"

definition avr_gpio_port_mode :: "'d hw8 \<Rightarrow> avr_gpio_port option \<Rightarrow> u16 \<Rightarrow> 'd \<Rightarrow> status_t \<times> 'd" where
  "avr_gpio_port_mode hw port mode s =
     (case port of
        None \<Rightarrow> (error_inval_pointer, s)
      | Some p \<Rightarrow>
          let b = ag_pbaddr p; value = ag_pin p; input = and8 hw (b + DDR_OFFSET) (NOT value)
          in if mode = 1 then (success, wr8 hw (b + DDR_OFFSET) value s)
             else if mode = 3 then (success, input (wr8 hw (b + PORT_OFFSET) value s))
             else if mode = 2 then (success, input s)
             else (error_func_inval_arg, s))"

definition avr_gpio_port_free :: "avr_gpio_port option \<Rightarrow> u8 list \<Rightarrow> (status_t \<times> avr_gpio_port option \<times> u8 list) outcome" where
  "avr_gpio_port_free port ps =
     (case port of
        None \<Rightarrow> Ok (error_inval_pointer, None, ps)
      | Some p \<Rightarrow>
          require (unat (ag_port p) < length ps) Out_of_bounds
            (Ok (success, Some \<lparr>ag_pbaddr = 0, ag_port = 0, ag_pin = 0\<rparr>, ps[unat (ag_port p) := 0])))"

definition avr_gpio_port_write :: "'d hw8 \<Rightarrow> avr_gpio_port option \<Rightarrow> u64 \<Rightarrow> 'd \<Rightarrow> status_t \<times> 'd" where
  "avr_gpio_port_write hw port v s =
     (case port of None \<Rightarrow> (error_inval_pointer, s) | Some p \<Rightarrow> (success, wr8 hw (ag_pbaddr p + PORT_OFFSET) (ucast (v AND 0xff)) s))"

definition avr_gpio_port_read :: "'d hw8 \<Rightarrow> avr_gpio_port option \<Rightarrow> 'd \<Rightarrow> status_t \<times> u64 option \<times> 'd" where
  "avr_gpio_port_read hw port s =
     (case port of
        None \<Rightarrow> (error_inval_pointer, None, s)
      | Some p \<Rightarrow> (case rd8 hw (ag_pbaddr p + PIN_OFFSET) s of (x, s1) \<Rightarrow> (success, Some (ucast x), s1)))"

section \<open>Exclusive use\<close>

text \<open>What clients hold: pins and whole ports, with the bits they occupy.\<close>

datatype handle = Pin avr_gpio_port | Port avr_gpio_port

primrec h_port :: "handle \<Rightarrow> u8" where
  "h_port (Pin p) = ag_port p"
| "h_port (Port p) = ag_port p"

primrec h_bits :: "handle \<Rightarrow> u8" where
  "h_bits (Pin p) = pin8 p"
| "h_bits (Port p) = all_pins"

type_synonym gpio_world = "handle list \<times> u8 list"

text \<open>Clients allocate and free in any order; each frees what it holds. A failed allocation gives no handle.\<close>

inductive gpio_step :: "resources \<Rightarrow> gpio_world \<Rightarrow> gpio_world \<Rightarrow> bool" for r where
  pin_alloc: "avr_gpio_pin_alloc r (Some p0) portID pinID ps = Ok (st, Some p, ps1) \<Longrightarrow>
    gpio_step r (hs, ps) (if st = success then Pin p # hs else hs, ps1)"
| port_alloc: "avr_gpio_port_alloc r (Some p0) portID ps = Ok (st, Some p, ps1) \<Longrightarrow>
    gpio_step r (hs, ps) (if st = success then Port p # hs else hs, ps1)"
| pin_free: "avr_gpio_pin_free (Some p) ps = Ok (st, p1, ps1) \<Longrightarrow>
    gpio_step r (hs1 @ Pin p # hs2, ps) (hs1 @ hs2, ps1)"
| port_free: "avr_gpio_port_free (Some p) ps = Ok (st, p1, ps1) \<Longrightarrow>
    gpio_step r (hs1 @ Port p # hs2, ps) (hs1 @ hs2, ps1)"

definition apart :: "handle \<Rightarrow> handle \<Rightarrow> bool" where
  "apart g h \<longleftrightarrow> h_port g = h_port h \<longrightarrow> h_bits g AND h_bits h = 0"

definition gpio_inv :: "gpio_world \<Rightarrow> bool" where
  "gpio_inv w \<longleftrightarrow> sorted_wrt apart (fst w)
     \<and> (\<forall>h \<in> set (fst w). unat (h_port h) < length (snd w) \<and> h_bits h AND snd w ! unat (h_port h) = h_bits h)"

lemma and_sub_or: "(m :: u8) AND x = m \<Longrightarrow> m AND (x OR b) = m"
  by (simp add: bit_eq_iff bit_simps) blast

lemma and_sub_minus: "(m :: u8) AND x = m \<Longrightarrow> m AND b = 0 \<Longrightarrow> m AND (x AND NOT b) = m"
  by (simp add: bit_eq_iff bit_simps) blast

lemma and_disjoint_sub: "(m :: u8) AND x = m \<Longrightarrow> b AND x = 0 \<Longrightarrow> b AND m = 0"
  by (simp add: bit_eq_iff bit_simps) blast

lemma gpio_inv_grow:
  assumes "gpio_inv (hs, ps)" and "unat q < length ps"
  shows "gpio_inv (hs, ps[unat q := ps ! unat q OR b])"
  using assms by (auto simp: gpio_inv_def nth_list_update and_sub_or)

lemma gpio_inv_add:
  assumes "gpio_inv (hs, ps)" and "unat (h_port h) < length ps" and "h_bits h AND ps ! unat (h_port h) = 0"
  shows "gpio_inv (h # hs, ps[unat (h_port h) := ps ! unat (h_port h) OR h_bits h])"
proof -
  have "apart h g" if "g \<in> set hs" for g
    using assms that and_disjoint_sub [of "h_bits g" "ps ! unat (h_port g)" "h_bits h"] by (auto simp: apart_def gpio_inv_def)
  moreover have "h_bits h AND (ps ! unat (h_port h) OR h_bits h) = h_bits h" by (simp add: bit_eq_iff bit_simps)
  ultimately show ?thesis
    using gpio_inv_grow [OF assms(1,2), of "h_bits h"] assms(2) by (auto simp: gpio_inv_def)
qed

lemma gpio_inv_drop:
  assumes "gpio_inv (hs1 @ h # hs2, ps)"
  shows "gpio_inv (hs1 @ hs2, ps[unat (h_port h) := ps ! unat (h_port h) AND NOT (h_bits h)])"
proof -
  have a: "h_bits g AND h_bits h = 0" if "g \<in> set (hs1 @ hs2)" "h_port g = h_port h" for g
    using assms that by (auto simp: gpio_inv_def sorted_wrt_append apart_def and.commute)
  have "h_bits g AND (ps[unat (h_port h) := ps ! unat (h_port h) AND NOT (h_bits h)]) ! unat (h_port g) = h_bits g"
    if "g \<in> set (hs1 @ hs2)" for g
  proof (cases "h_port g = h_port h")
    case True
    moreover have "unat (h_port h) < length ps" "h_bits g AND ps ! unat (h_port g) = h_bits g"
      using assms that by (auto simp: gpio_inv_def)
    ultimately show ?thesis using and_sub_minus [of "h_bits g" "ps ! unat (h_port g)" "h_bits h"] a [OF that] by simp
  next
    case False
    then have "unat (h_port h) \<noteq> unat (h_port g)" by (auto simp: word_unat_eq_iff)
    then show ?thesis using assms that by (auto simp: gpio_inv_def)
  qed
  then show ?thesis using assms by (auto simp: gpio_inv_def sorted_wrt_append)
qed

lemma avr_dp_port_keeps: "avr_dp_port r q p = Ok (st, p1) \<Longrightarrow> ag_port p1 = ag_port p \<and> ag_pin p1 = ag_pin p"
  by (auto simp: avr_dp_port_def outcome_simps split: if_splits vptr.splits)

lemma gpio_inv_step:
  assumes "gpio_inv w" and "gpio_step r w w'"
  shows "gpio_inv w'"
  using assms(2,1)
proof cases
  case (pin_alloc p0 portID pinID ps st p ps1 hs)
  then consider "ps1 = ps" "st = error_driver_busy"
    | "unat portID < length ps" "ps ! unat portID AND bit8 (unat pinID) = 0" "ps1 = ps[unat portID := ps ! unat portID OR bit8 (unat pinID)]"
      "ag_port p = portID" "ag_pin p = pinID"
    by (auto simp: avr_gpio_pin_alloc_def outcome_simps Let_def split: if_splits dest!: avr_dp_port_keeps)
  then show ?thesis
  proof cases
    case 1
    then show ?thesis using pin_alloc assms(1) by simp
  next
    case 2
    then show ?thesis
      using pin_alloc(1,2) assms(1) gpio_inv_add [of hs ps "Pin p"] gpio_inv_grow [of hs ps portID "bit8 (unat pinID)"]
      by (auto simp: and.commute)
  qed
next
  case (port_alloc p0 portID ps st p ps1 hs)
  then consider "ps1 = ps" "st = error_driver_busy"
    | "unat portID < length ps" "ps ! unat portID = 0" "ps1 = ps[unat portID := all_pins]" "ag_port p = portID"
    by (auto simp: avr_gpio_port_alloc_def outcome_simps split: if_splits dest!: avr_dp_port_keeps)
  then show ?thesis
  proof cases
    case 1
    then show ?thesis using port_alloc assms(1) by simp
  next
    case 2
    then show ?thesis
      using port_alloc(1,2) assms(1) gpio_inv_add [of hs ps "Port p"] gpio_inv_grow [of hs ps portID all_pins] by auto
  qed
next
  case (pin_free p ps st p1 ps1 hs1 hs2)
  then show ?thesis
    using gpio_inv_drop [of hs1 "Pin p" hs2 ps] assms(1) by (auto simp: avr_gpio_pin_free_def outcome_simps)
next
  case (port_free p ps st p1 ps1 hs1 hs2)
  have z: "NOT all_pins = 0" by (simp add: not_eq_complement)
  have "ps ! unat (ag_port p) AND NOT all_pins = 0" unfolding z by simp
  then show ?thesis
    using port_free gpio_inv_drop [of hs1 "Port p" hs2 ps] assms(1) by (auto simp: avr_gpio_port_free_def outcome_simps)
qed

interpretation gpio_clients: transition_system "\<lambda>w. w = ([], replicate n 0)" "gpio_step r" gpio_inv for n r
  by unfold_locales (simp add: gpio_inv_def, rule gpio_inv_step)

text \<open>C23: the bookkeeping of the AVR's pins gives exclusive use: however clients allocate and free pins and whole ports, failed
  lookups included, two handles that are out at the same time never share a pin of the same port.\<close>

theorem avr_gpio_exclusive:
  assumes "(gpio_step r)\<^sup>*\<^sup>* ([], replicate n 0) (hs, ps)" and "i < length hs" and "j < length hs" and "i \<noteq> j"
    and "h_port (hs ! i) = h_port (hs ! j)"
  shows "h_bits (hs ! i) AND h_bits (hs ! j) = 0"
proof -
  have "sorted_wrt apart hs" using gpio_clients.reach_inv [OF refl assms(1)] by (simp add: gpio_inv_def)
  then have "apart (hs ! min i j) (hs ! max i j)" using assms(2-4) sorted_wrt_nth_less [of apart hs "min i j" "max i j"] by auto
  then show ?thesis using assms(5) by (cases i j rule: linorder_cases) (auto simp: apart_def and.commute)
qed

section \<open>The ATmega328P\<close>

text \<open>The GPIO ports B, C and D, with the numbers 1 to 3; \<open>port_status\<close> has \<open>N_PORT\<close>, that is 3, entries.\<close>

abbreviation (input) PORTB :: u8 where "PORTB \<equiv> 1"
abbreviation (input) PORTC :: u8 where "PORTC \<equiv> 2"
abbreviation (input) PORTD :: u8 where "PORTD \<equiv> 3"

abbreviation arch_irq :: "u32 \<Rightarrow> irqs_t" where
  "arch_irq n \<equiv> \<lparr>irq_module = Resources.int_arch, irq_id = n, irq_trigger = int_level\<rparr>"

definition atmega328p_modules :: "u32 \<Rightarrow> module_t list" where
  "atmega328p_modules fclk =
     [\<lparr>mod_id = hw_uart OR 0, mod_baddr = 0xc0, mod_stride = 6, mod_clk = 115200, mod_clk_id = 1, interrupt = [arch_irq 18, arch_irq 20]\<rparr>,
      \<lparr>mod_id = 0x6000 OR 0, mod_baddr = 0x60, mod_stride = 1, mod_clk = 7, mod_clk_id = 0, interrupt = [arch_irq 6, no_irq]\<rparr>,
      \<lparr>mod_id = hw_timer OR 0x00, mod_baddr = 0x44, mod_stride = 5, mod_clk = fclk, mod_clk_id = 5, interrupt = [arch_irq 14, arch_irq 15]\<rparr>,
      \<lparr>mod_id = hw_timer OR 0x10, mod_baddr = 0x80, mod_stride = 12, mod_clk = fclk, mod_clk_id = 3, interrupt = [arch_irq 11, arch_irq 12]\<rparr>,
      \<lparr>mod_id = hw_timer OR 0x20, mod_baddr = 0xb0, mod_stride = 5, mod_clk = fclk, mod_clk_id = 6, interrupt = [arch_irq 7, arch_irq 8]\<rparr>,
      \<lparr>mod_id = 0xb000 OR 0x00, mod_baddr = 0x78, mod_stride = 8, mod_clk = 0, mod_clk_id = 0, interrupt = [arch_irq 21, arch_irq 23]\<rparr>]"

text \<open>\<open>FCLK\<close> is a build parameter, 16 MHz by default.\<close>

definition atmega328p_device_prop :: "u32 \<Rightarrow> dp_t" where
  "atmega328p_device_prop fclk =
     \<lparr>base_clock = fclk,
      ports = [\<lparr>gpio_id = hw_gpio OR ucast PORTB, gpio_baddr = 0x23, gpio_stride = 3\<rparr>,
               \<lparr>gpio_id = hw_gpio OR ucast PORTC, gpio_baddr = 0x26, gpio_stride = 3\<rparr>,
               \<lparr>gpio_id = hw_gpio OR ucast PORTD, gpio_baddr = 0x29, gpio_stride = 3\<rparr>],
      modules = atmega328p_modules fclk\<rparr>"

definition atmega328p_software_prop :: sp_t where
  "atmega328p_software_prop =
     \<lparr>terravisor = \<lparr>devids = [console_uart, sched_timer, onboard_led OR 0]\<rparr>,
      swdev =
        [\<lparr>swdev_id = console_uart, hwdev_id = hw_uart OR 0, pmux = None\<rparr>,
         \<lparr>swdev_id = sched_timer, hwdev_id = hw_timer OR 0, pmux = None\<rparr>,
         \<lparr>swdev_id = onboard_led OR 0, hwdev_id = 0, pmux = Some \<lparr>pm_port = 1, pm_function = 0, pm_pins = [5]\<rparr>\<rparr>]\<rparr>"

definition atmega328p :: resources where
  "atmega328p = \<lparr>dev_prop = Some (atmega328p_device_prop 16000000), sw_prop = Some atmega328p_software_prop\<rparr>"

lemmas avr_eval = avr_gpio_pin_alloc_def avr_dp_port_def visor_fetch_def vcall_handler_def resource_vcalls_def platform_fetch_dp_def
  ptr_of_def status_of_ptr_def atmega328p_def atmega328p_device_prop_def bit8_def

text \<open>The highest port is out of the bounds of the record of pins.\<close>

lemma avr_portd_out_of_bounds:
  "avr_gpio_pin_alloc atmega328p (Some p) PORTD n (replicate 3 0) = Fault Out_of_bounds"
  by (simp add: avr_gpio_pin_alloc_def)

theorem avr_gpio_exclusive_witness:
  "\<exists>hs ps. (gpio_step atmega328p)\<^sup>*\<^sup>* ([], replicate 3 0) (hs, ps) \<and> length hs = 2 \<and> h_port (hs ! 0) = h_port (hs ! 1)
     \<and> h_bits (hs ! 0) AND h_bits (hs ! 1) = 0"
proof -
  let ?z = "\<lparr>ag_pbaddr = 0, ag_port = 0, ag_pin = 0\<rparr>"
  let ?p = "\<lparr>ag_pbaddr = 0x23, ag_port = 1, ag_pin = 4\<rparr>" and ?q = "\<lparr>ag_pbaddr = 0x23, ag_port = 1, ag_pin = 6\<rparr>"
  have z: "replicate 3 0 = [0, 0, 0 :: u8]" by (simp add: numeral_3_eq_3)
  have "avr_gpio_pin_alloc atmega328p (Some ?z) PORTB 4 (replicate 3 0) = Ok (success, Some ?p, [0, 0x10, 0])"
    unfolding z by (simp add: avr_eval)
  from gpio_step.pin_alloc [OF this, of "[]"] have 1: "gpio_step atmega328p ([], replicate 3 0) ([Pin ?p], [0, 0x10, 0])" by simp
  have "avr_gpio_pin_alloc atmega328p (Some ?z) PORTB 6 [0, 0x10, 0] = Ok (success, Some ?q, [0, 0x50, 0])"
    by (simp add: avr_eval)
  from gpio_step.pin_alloc [OF this, of "[Pin ?p]"] have 2: "gpio_step atmega328p ([Pin ?p], [0, 0x10, 0]) ([Pin ?q, Pin ?p], [0, 0x50, 0])"
    by simp
  have r: "(gpio_step atmega328p)\<^sup>*\<^sup>* ([], replicate 3 0) ([Pin ?q, Pin ?p], [0, 0x50, 0])"
    using 1 2 by (meson converse_rtranclp_into_rtranclp r_into_rtranclp)
  show ?thesis using avr_gpio_exclusive [OF r, of 0 1] r by force
qed

end
