(* ===== verification/Avr_Timer.thy ===== *)
theory Avr_Timer
  imports Avr_Gpio
begin

text \<open>
  The converter, timers, PWM and watchdog of the Mega-AVR platform (\<open>platform/mega_avr/common/hal\<close>: \<open>adc\<close>, \<open>timer\<close>, \<open>pwm\<close>, \<open>wdt\<close>, and
  \<open>platform/platform_wdt.c\<close> without the driver's setup), and the clock gates of the ATmega328P (\<open>platform_clk.c\<close>). The state is the
  pair of the interrupt table and the hardware.
\<close>

type_synonym 'd irq_dev = "avr_handler list \<times> 'd"

section \<open>Clock gates\<close>

abbreviation (input) PRR :: u16 where "PRR \<equiv> 0x64"

definition platform_clk_reset :: "'d hw8 \<Rightarrow> 'd \<Rightarrow> status_t \<times> 'd" where
  "platform_clk_reset hw s = (success, wr8 hw PRR 0xff s)"

definition platform_clk_en :: "'d hw8 \<Rightarrow> u16 \<Rightarrow> 'd \<Rightarrow> status_t \<times> 'd" where
  "platform_clk_en hw i s = (if i \<ge> 8 then (error_func_inval_arg, s) else (success, and8 hw PRR (NOT (bit8 (unat i))) s))"

definition platform_clk_dis :: "'d hw8 \<Rightarrow> u16 \<Rightarrow> 'd \<Rightarrow> status_t \<times> 'd" where
  "platform_clk_dis hw i s = (if i \<ge> 8 then (error_func_inval_arg, s) else (success, or8 hw PRR (bit8 (unat i)) s))"

lemma platform_clk_frame:
  assumes "stores8 hw val R" and "b \<in> R" and "b \<noteq> PRR"
  shows "val (snd (platform_clk_en hw i s)) b = val s b" and "val (snd (platform_clk_dis hw i s)) b = val s b"
  using assms(3) by (auto simp: platform_clk_en_def platform_clk_dis_def stores8_simps [OF assms(1,2)])

section \<open>Analog-digital converter\<close>

abbreviation (input) ADCL_OFFSET :: u16 where "ADCL_OFFSET \<equiv> 0x00"
abbreviation (input) ADCH_OFFSET :: u16 where "ADCH_OFFSET \<equiv> 0x01"
abbreviation (input) ADCSRA_OFFSET :: u16 where "ADCSRA_OFFSET \<equiv> 0x02"
abbreviation (input) ADCSRB_OFFSET :: u16 where "ADCSRB_OFFSET \<equiv> 0x03"
abbreviation (input) ADMUX_OFFSET :: u16 where "ADMUX_OFFSET \<equiv> 0x04"
abbreviation (input) N_ADC_PINS :: u8 where "N_ADC_PINS \<equiv> 8"

record adc_port_t =
  adc_clk_id :: u16
  adc_fdiv :: u16
  adc_baddr :: u16
  adc_irq :: u16
  adc_handler :: avr_handler

definition adc_enable :: "'d hw8 \<Rightarrow> adc_port_t \<Rightarrow> 'd \<Rightarrow> 'd" where
  "adc_enable hw p = or8 hw (adc_baddr p + ADCSRA_OFFSET) (bit8 7)"

definition adc_disable :: "'d hw8 \<Rightarrow> adc_port_t \<Rightarrow> 'd \<Rightarrow> 'd" where
  "adc_disable hw p = and8 hw (adc_baddr p + ADCSRA_OFFSET) (NOT (bit8 7))"

definition adc_pscale :: "u16 \<Rightarrow> u8 option" where
  "adc_pscale fdiv =
     (if fdiv = 2 then Some 1 else if fdiv = 4 then Some 2 else if fdiv = 8 then Some 3 else if fdiv = 16 then Some 4
      else if fdiv = 32 then Some 5 else if fdiv = 64 then Some 6 else if fdiv = 128 then Some 7 else None)"

definition adc_set_prescaler :: "'d hw8 \<Rightarrow> adc_port_t \<Rightarrow> 'd \<Rightarrow> status_t \<times> 'd" where
  "adc_set_prescaler hw p s =
     (let v = adc_pscale (adc_fdiv p)
      in (if v = None then error_func_inval_arg else success,
          or8 hw (adc_baddr p + ADCSRA_OFFSET) ((case v of Some x \<Rightarrow> x | None \<Rightarrow> 0) AND 0x7) s))"

definition adc_start_conv :: "'d hw8 \<Rightarrow> adc_port_t \<Rightarrow> 'd \<Rightarrow> 'd" where
  "adc_start_conv hw p = or8 hw (adc_baddr p + ADCSRA_OFFSET) (bit8 6)"

definition adc_config_trigger :: "'d hw8 \<Rightarrow> adc_port_t \<Rightarrow> u16 \<Rightarrow> 'd \<Rightarrow> status_t \<times> 'd" where
  "adc_config_trigger hw p trigger s =
     (let trig_value = (ucast trigger :: u8);
          s1 = or8 hw (adc_baddr p + ADCSRB_OFFSET) (trig_value AND 0x07) s
      in (if trig_value > 7 then error_func_inval_arg else success,
          if trigger > 0 then or8 hw (adc_baddr p + ADCSRA_OFFSET) (bit8 5) s1 else s1))"

definition adc_config_resolution :: "'d hw8 \<Rightarrow> adc_port_t \<Rightarrow> u8 \<Rightarrow> 'd \<Rightarrow> status_t \<times> 'd" where
  "adc_config_resolution hw p resolution s =
     (if resolution = 8 then (success, wr8 hw (adc_baddr p + ADMUX_OFFSET) (bit8 5) s)
      else if resolution \<noteq> 10 then (error_func_inval_arg, s) else (success, s))"

definition adc_config_vref :: "'d hw8 \<Rightarrow> adc_port_t \<Rightarrow> u16 \<Rightarrow> 'd \<Rightarrow> status_t \<times> 'd" where
  "adc_config_vref hw p vref s =
     (let set = (\<lambda>value. or8 hw (adc_baddr p + ADMUX_OFFSET) (push_bit 6 value) s)
      in if vref = 0 then (success, set 0) else if vref = 1 then (success, set 1) else if vref = 2 then (success, set 3)
         else (error_func_inval_arg, s))"

definition adc_int_en :: "'d hw8 \<Rightarrow> adc_port_t option \<Rightarrow> 'd \<Rightarrow> status_t \<times> 'd" where
  "adc_int_en hw port s =
     (case port of None \<Rightarrow> (error_inval_pointer, s) | Some p \<Rightarrow> (success, or8 hw (adc_baddr p + ADCSRA_OFFSET) (bit8 3) s))"

definition adc_int_dis :: "'d hw8 \<Rightarrow> adc_port_t option \<Rightarrow> 'd \<Rightarrow> status_t \<times> 'd" where
  "adc_int_dis hw port s =
     (case port of None \<Rightarrow> (error_inval_pointer, s) | Some p \<Rightarrow> (success, and8 hw (adc_baddr p + ADCSRA_OFFSET) (NOT (bit8 3)) s))"

definition adc_setup :: "'d hw8 \<Rightarrow> adc_port_t option \<Rightarrow> 'd irq_dev \<Rightarrow> (status_t \<times> 'd irq_dev) outcome" where
  "adc_setup hw port s =
     (case port of
        None \<Rightarrow> Ok (error_inval_pointer, s)
      | Some p \<Rightarrow>
          (case platform_clk_en hw (adc_clk_id p) (snd s) of (r0, d0) \<Rightarrow>
           case adc_set_prescaler hw p (adc_enable hw p d0) of (r1, d) \<Rightarrow>
             if adc_handler p \<noteq> 0
             then obind (avr_link_interrupt int_arch (adc_irq p) (adc_handler p) (fst s)) (\<lambda>(r2, t).
                  case adc_int_en hw port d of (r3, d1) \<Rightarrow> Ok (r0 OR r1 OR r2 OR r3, t, d1))
             else Ok (r0 OR r1, fst s, d)))"

definition adc_shutdown :: "'d hw8 \<Rightarrow> adc_port_t option \<Rightarrow> 'd \<Rightarrow> status_t \<times> 'd" where
  "adc_shutdown hw port s =
     (case port of
        None \<Rightarrow> (error_inval_pointer, s)
      | Some p \<Rightarrow>
          (case adc_int_dis hw port s of (r1, s1) \<Rightarrow>
           case platform_clk_dis hw (adc_clk_id p) (adc_disable hw p s1) of (r2, s2) \<Rightarrow> (r1 OR r2, s2)))"

definition adc_busy :: "'d hw8 \<Rightarrow> adc_port_t option \<Rightarrow> 'd \<Rightarrow> (bool \<times> 'd) outcome" where
  "adc_busy hw port s =
     (case port of
        None \<Rightarrow> Fault Assert_failed
      | Some p \<Rightarrow> (case rd8 hw (adc_baddr p + ADCSRA_OFFSET) s of (x, s1) \<Rightarrow> Ok (x AND bit8 6 \<noteq> 0, s1)))"

definition adc_config_pin :: "'d hw8 \<Rightarrow> adc_port_t option \<Rightarrow> u8 \<Rightarrow> u16 \<Rightarrow> u8 \<Rightarrow> u16 \<Rightarrow> 'd \<Rightarrow> status_t \<times> 'd" where
  "adc_config_pin hw port pin trigger resolution vref s =
     (case port of
        None \<Rightarrow> (error_inval_pointer, s)
      | Some p \<Rightarrow>
          if pin > N_ADC_PINS then (error_func_inval_arg, s)
          else case adc_config_vref hw p vref s of (r1, s1) \<Rightarrow>
               case adc_config_resolution hw p resolution s1 of (r2, s2) \<Rightarrow>
               case adc_config_trigger hw p trigger s2 of (r3, s3) \<Rightarrow>
                 (r1 OR r2 OR r3, adc_start_conv hw p (or8 hw (adc_baddr p + ADMUX_OFFSET) pin s3)))"

text \<open>\<open>adc_read\<close>; the second argument says whether the pointer for the value is not NULL.\<close>

definition adc_read :: "'d hw8 \<Rightarrow> adc_port_t option \<Rightarrow> bool \<Rightarrow> 'd \<Rightarrow> status_t \<times> u16 option \<times> 'd" where
  "adc_read hw port out s =
     (case port of
        None \<Rightarrow> (error_inval_pointer, None, s)
      | Some p \<Rightarrow>
          if \<not> out then (error_inval_pointer, None, s)
          else case rd8 hw (adc_baddr p + ADMUX_OFFSET) s of (m, s1) \<Rightarrow>
               case (if m AND bit8 5 \<noteq> 0
                     then case rd8 hw (adc_baddr p + ADCH_OFFSET) s1 of (h, s2) \<Rightarrow> (ucast h, s2)
                     else case rd8 hw (adc_baddr p + ADCL_OFFSET) s1 of (l, s2) \<Rightarrow>
                          case rd8 hw (adc_baddr p + ADCH_OFFSET) s2 of (h, s3) \<Rightarrow> (ucast l OR push_bit 8 (ucast h), s3)) of
                 (v, s4) \<Rightarrow> (success, Some v, and8 hw (adc_baddr p + ADMUX_OFFSET) (NOT (push_bit 6 3 OR bit8 5)) s4))"

section \<open>Timers\<close>

record timer_port_t =
  tm_port_id :: u16
  tm_clk_id :: u16
  tm_baddr :: u16
  tm_value :: u16
  tm_irq :: u16
  tm_handler :: avr_handler

abbreviation (input) TCCRA_OFFSET :: u16 where "TCCRA_OFFSET \<equiv> 0x00"
abbreviation (input) TCCRB_OFFSET :: u16 where "TCCRB_OFFSET \<equiv> 0x01"
abbreviation (input) TCNT_8B_OFFSET :: u16 where "TCNT_8B_OFFSET \<equiv> 0x02"
abbreviation (input) OCRA_8B_OFFSET :: u16 where "OCRA_8B_OFFSET \<equiv> 0x03"
abbreviation (input) OCRB_8B_OFFSET :: u16 where "OCRB_8B_OFFSET \<equiv> 0x04"
abbreviation (input) TCNTL_16B_OFFSET :: u16 where "TCNTL_16B_OFFSET \<equiv> 0x04"
abbreviation (input) TCNTH_16B_OFFSET :: u16 where "TCNTH_16B_OFFSET \<equiv> 0x05"
abbreviation (input) OCRAL_16B_OFFSET :: u16 where "OCRAL_16B_OFFSET \<equiv> 0x08"
abbreviation (input) OCRAH_16B_OFFSET :: u16 where "OCRAH_16B_OFFSET \<equiv> 0x09"
abbreviation (input) OCRBL_16B_OFFSET :: u16 where "OCRBL_16B_OFFSET \<equiv> 0x0a"
abbreviation (input) OCRBH_16B_OFFSET :: u16 where "OCRBH_16B_OFFSET \<equiv> 0x0b"
abbreviation (input) TIMSK_BASE :: u16 where "TIMSK_BASE \<equiv> 0x6e"

text \<open>The unit and the timer in a port's number.\<close>

abbreviation tm_unit :: "timer_port_t \<Rightarrow> u8" where
  "tm_unit p \<equiv> ucast (tm_port_id p AND 0xf)"

definition tm_timsk :: "timer_port_t \<Rightarrow> u16" where
  "tm_timsk p = TIMSK_BASE + drop_bit 4 (tm_port_id p AND 0xf0)"

definition timer8_config_mode :: "'d hw8 \<Rightarrow> timer_port_t \<Rightarrow> u16 \<Rightarrow> 'd \<Rightarrow> 'd" where
  "timer8_config_mode hw p mode s =
     (case rd8 hw (tm_baddr p + TCCRA_OFFSET) s of (reg1, s1) \<Rightarrow>
      case rd8 hw (tm_baddr p + TCCRB_OFFSET) s1 of (reg2, s2) \<Rightarrow>
        let (reg1', reg2') = (if mode \<le> 7 then (reg1 OR ucast (mode AND 0x3), reg2 OR ucast (push_bit 1 (mode AND 0x4))) else (reg1, reg2))
        in wr8 hw (tm_baddr p + TCCRB_OFFSET) reg2' (wr8 hw (tm_baddr p + TCCRA_OFFSET) reg1' s2))"

definition timer8_config_ps :: "'d hw8 \<Rightarrow> timer_port_t \<Rightarrow> u16 \<Rightarrow> 'd \<Rightarrow> 'd" where
  "timer8_config_ps hw p ps s =
     wr8 hw (tm_baddr p + TCNT_8B_OFFSET) 0
       (upd8 hw (tm_baddr p + TCCRB_OFFSET) (\<lambda>reg. if ps \<le> 7 then reg OR ucast ps else reg) s)"

text \<open>\<open>(3 - id) << 1\<close> is negative for a unit above 3, where the shift is undefined; the units are 0 and 1.\<close>

definition op_mode_reg :: "u8 \<Rightarrow> bool \<Rightarrow> bool \<Rightarrow> u8 \<Rightarrow> u8" where
  "op_mode_reg unit en invert reg =
     (let n = 2 * (3 - unat unit)
      in if en then reg OR push_bit n (if invert then 3 else 2) else reg AND NOT (push_bit n 3))"

definition timer8_config_op_mode :: "'d hw8 \<Rightarrow> timer_port_t \<Rightarrow> bool \<Rightarrow> bool \<Rightarrow> 'd \<Rightarrow> 'd" where
  "timer8_config_op_mode hw p en invert = upd8 hw (tm_baddr p + TCCRA_OFFSET) (op_mode_reg (tm_unit p) en invert)"

definition timer8_set :: "'d hw8 \<Rightarrow> timer_port_t \<Rightarrow> u8 \<Rightarrow> 'd \<Rightarrow> 'd" where
  "timer8_set hw p v s =
     (if tm_unit p = 0 then wr8 hw (tm_baddr p + OCRA_8B_OFFSET) v s
      else if tm_unit p = 1 then wr8 hw (tm_baddr p + OCRB_8B_OFFSET) v s else s)"

definition timer8_irq_en :: "'d hw8 \<Rightarrow> timer_port_t \<Rightarrow> 'd \<Rightarrow> 'd" where
  "timer8_irq_en hw p = or8 hw (tm_timsk p) (bit8 (unat (tm_unit p) + 1))"

definition timer8_irq_dis :: "'d hw8 \<Rightarrow> timer_port_t \<Rightarrow> 'd \<Rightarrow> 'd" where
  "timer8_irq_dis hw p = and8 hw (tm_timsk p) (NOT (bit8 (unat (tm_unit p) + 1)))"

definition timer8_read :: "'d hw8 \<Rightarrow> timer_port_t \<Rightarrow> 'd \<Rightarrow> u8 \<times> 'd" where
  "timer8_read hw p = rd8 hw (tm_baddr p + TCNT_8B_OFFSET)"

definition timer16_config_mode :: "'d hw8 \<Rightarrow> timer_port_t \<Rightarrow> u16 \<Rightarrow> 'd \<Rightarrow> 'd" where
  "timer16_config_mode hw p mode s =
     (case rd8 hw (tm_baddr p + TCCRA_OFFSET) s of (reg1, s1) \<Rightarrow>
      case rd8 hw (tm_baddr p + TCCRB_OFFSET) s1 of (reg2, s2) \<Rightarrow>
        let (reg1', reg2') = (if mode \<le> 15 then (reg1 OR ucast (mode AND 0x3), reg2 OR ucast (push_bit 1 (mode AND 0xc))) else (reg1, reg2))
        in wr8 hw (tm_baddr p + TCCRB_OFFSET) reg2' (wr8 hw (tm_baddr p + TCCRA_OFFSET) reg1' s2))"

definition timer16_config_ps :: "'d hw8 \<Rightarrow> timer_port_t \<Rightarrow> u16 \<Rightarrow> 'd \<Rightarrow> 'd" where
  "timer16_config_ps hw p ps = upd8 hw (tm_baddr p + TCCRB_OFFSET) (\<lambda>reg. if ps \<le> 7 then reg OR ucast ps else reg)"

text \<open>Accesses to 16-bit registers: the compiler loads the low byte first and stores the high byte first, the order the
  hardware's latch wants.\<close>

definition wr16 :: "'d hw8 \<Rightarrow> u16 \<Rightarrow> u16 \<Rightarrow> 'd \<Rightarrow> 'd" where
  "wr16 hw a v s = wr8 hw a (ucast v) (wr8 hw (a + 1) (ucast (drop_bit 8 v)) s)"

definition rd16 :: "'d hw8 \<Rightarrow> u16 \<Rightarrow> 'd \<Rightarrow> u16 \<times> 'd" where
  "rd16 hw a s = (case rd8 hw a s of (l, s1) \<Rightarrow> case rd8 hw (a + 1) s1 of (h, s2) \<Rightarrow> (ucast l OR push_bit 8 (ucast h), s2))"

definition timer16_config_op_mode :: "'d hw8 \<Rightarrow> timer_port_t \<Rightarrow> bool \<Rightarrow> bool \<Rightarrow> 'd \<Rightarrow> 'd" where
  "timer16_config_op_mode hw p en invert s =
     wr16 hw (tm_baddr p + TCNTL_16B_OFFSET) 0 (upd8 hw (tm_baddr p + TCCRA_OFFSET) (op_mode_reg (tm_unit p) en invert) s)"

definition timer16_set :: "'d hw8 \<Rightarrow> timer_port_t \<Rightarrow> u16 \<Rightarrow> 'd \<Rightarrow> 'd" where
  "timer16_set hw p v s =
     (let hi = ucast (drop_bit 8 (v AND 0xff00)); lo = ucast (v AND 0xff)
      in if tm_unit p = 0 then wr8 hw (tm_baddr p + OCRAL_16B_OFFSET) lo (wr8 hw (tm_baddr p + OCRAH_16B_OFFSET) hi s)
         else if tm_unit p = 1 then wr8 hw (tm_baddr p + OCRBL_16B_OFFSET) lo (wr8 hw (tm_baddr p + OCRBH_16B_OFFSET) hi s)
         else s)"

definition timer16_irq_en :: "'d hw8 \<Rightarrow> timer_port_t \<Rightarrow> 'd \<Rightarrow> 'd" where
  "timer16_irq_en hw p = or8 hw (tm_timsk p) (bit8 (unat (tm_unit p) + 1))"

definition timer16_irq_dis :: "'d hw8 \<Rightarrow> timer_port_t \<Rightarrow> 'd \<Rightarrow> 'd" where
  "timer16_irq_dis hw p = and8 hw (tm_timsk p) (NOT (bit8 (unat (tm_unit p) + 1)))"

definition timer16_read :: "'d hw8 \<Rightarrow> timer_port_t \<Rightarrow> 'd \<Rightarrow> u16 \<times> 'd" where
  "timer16_read hw p = rd16 hw (tm_baddr p + TCNTL_16B_OFFSET)"

text \<open>Timers 0 and 2 have 8 bits.\<close>

definition is_timer8 :: "timer_port_t \<Rightarrow> bool" where
  "is_timer8 p \<longleftrightarrow> tm_port_id p AND 0xf0 = 0 \<or> tm_port_id p AND 0xf0 = 0x20"

definition timer_setup :: "'d hw8 \<Rightarrow> timer_port_t option \<Rightarrow> u16 \<Rightarrow> u16 \<Rightarrow> 'd irq_dev \<Rightarrow> (status_t \<times> 'd irq_dev) outcome" where
  "timer_setup hw port mode ps s =
     (case port of
        None \<Rightarrow> Ok (error_inval_pointer, s)
      | Some p \<Rightarrow>
          (case platform_clk_en hw (tm_clk_id p) (snd s) of (r0, d0) \<Rightarrow>
             if is_timer8 p
             then obind (if tm_handler p \<noteq> 0
                         then let d = timer8_set hw p (ucast (tm_value p)) d0
                              in obind (avr_link_interrupt int_arch (tm_irq p) (tm_handler p) (fst s)) (\<lambda>(r, t). Ok (r0 OR r, t, timer8_irq_en hw p d))
                         else Ok (r0, fst s, d0)) (\<lambda>(ret, t, d).
                    Ok (ret, t, timer8_config_ps hw p ps (timer8_config_mode hw p mode d)))
             else obind (if tm_handler p \<noteq> 0
                         then let d = timer16_set hw p (tm_value p) d0
                              in obind (avr_link_interrupt int_arch (tm_irq p) (tm_handler p) (fst s)) (\<lambda>(r, t). Ok (r0 OR r, t, timer16_irq_en hw p d))
                         else Ok (r0, fst s, d0)) (\<lambda>(ret, t, d).
                    Ok (ret, t, timer16_config_ps hw p ps (timer16_config_mode hw p mode d)))))"

definition timer_shutdown :: "'d hw8 \<Rightarrow> timer_port_t option \<Rightarrow> 'd irq_dev \<Rightarrow> (status_t \<times> 'd irq_dev) outcome" where
  "timer_shutdown hw port s =
     (case port of
        None \<Rightarrow> Ok (error_inval_pointer, s)
      | Some p \<Rightarrow>
          let d = (if is_timer8 p then timer8_irq_dis hw p (timer8_config_ps hw p 0 (timer8_config_mode hw p 0 (snd s)))
                   else timer16_irq_dis hw p (timer16_config_ps hw p 0 (timer16_config_mode hw p 0 (snd s))))
          in obind (avr_unlink_interrupt int_arch (tm_irq p) (fst s)) (\<lambda>(r, t).
             case platform_clk_dis hw (tm_clk_id p) d of (r1, d1) \<Rightarrow> Ok (r OR r1, t, d1)))"

definition timer_read :: "'d hw8 \<Rightarrow> timer_port_t option \<Rightarrow> 'd \<Rightarrow> status_t \<times> u16 option \<times> 'd" where
  "timer_read hw port s =
     (case port of
        None \<Rightarrow> (error_inval_pointer, None, s)
      | Some p \<Rightarrow> if is_timer8 p then (case timer8_read hw p s of (v, s1) \<Rightarrow> (success, Some (ucast v), s1))
                  else (case timer16_read hw p s of (v, s1) \<Rightarrow> (success, Some v, s1)))"

definition timer_pwm_set :: "'d hw8 \<Rightarrow> timer_port_t option \<Rightarrow> bool \<Rightarrow> u16 \<Rightarrow> 'd \<Rightarrow> status_t \<times> 'd" where
  "timer_pwm_set hw port invert v s =
     (case port of
        None \<Rightarrow> (error_inval_pointer, s)
      | Some p \<Rightarrow> if is_timer8 p then (success, timer8_set hw p (ucast v) (timer8_config_op_mode hw p True invert s))
                  else (success, timer16_set hw p v (timer16_config_op_mode hw p True invert s)))"

section \<open>Pulse-width modulation\<close>

record pwm_port_t =
  pw_port_id :: u16
  pw_clk_id :: u16
  pw_baddr :: u16
  pw_prescale :: u16
  pw_irq :: "irqs_t option"
  pw_handler :: avr_handler
  pw_pmux :: "pinmux_t option"

text \<open>\<open>pwm_to_timer\<close> leaves \<open>value\<close> of the fresh timer port as it is in the allocated memory (\<open>junk\<close>).\<close>

definition pwm_to_timer :: "u16 \<Rightarrow> pwm_port_t \<Rightarrow> timer_port_t outcome" where
  "pwm_to_timer junk p =
     (case pw_irq p of
        None \<Rightarrow> Fault Null_deref
      | Some q \<Rightarrow> Ok \<lparr>tm_port_id = pw_port_id p, tm_clk_id = pw_clk_id p, tm_baddr = pw_baddr p, tm_value = junk,
                       tm_irq = ucast (irq_id q), tm_handler = pw_handler p\<rparr>)"

definition pwm_get_properties :: "resources \<Rightarrow> u32 \<Rightarrow> pwm_port_t \<Rightarrow> (status_t \<times> pwm_port_t) outcome" where
  "pwm_get_properties r sdev pw =
     obind (visor_fetch r fetch_sp sdev 0) (\<lambda>v.
       if vr_status v \<noteq> success then Ok (vr_status v, pw)
       else case vr_p v of
              P_swdev sp \<Rightarrow>
                let pw1 = pw\<lparr>pw_pmux := pmux sp\<rparr>
                in obind (visor_fetch r fetch_dp (hwdev_id sp AND 0xff00) (hwdev_id sp AND 0xf0)) (\<lambda>w.
                     if vr_status w \<noteq> success then Ok (vr_status w, pw1)
                     else case vr_p w of
                            P_module m \<Rightarrow>
                              (case interrupt m of
                                 [] \<Rightarrow> Fault Out_of_bounds
                               | q # _ \<Rightarrow> Ok (success, pw1\<lparr>pw_port_id := ucast (mod_id m), pw_clk_id := ucast (mod_clk_id m),
                                                            pw_baddr := ucast (mod_baddr m), pw_irq := Some q\<rparr>))
                          | _ \<Rightarrow> Fault Null_deref)
            | _ \<Rightarrow> Fault Null_deref)"

text \<open>\<open>alloc\<close>: \<open>malloc\<close> gives memory for the timer port, which is freed again before the return.\<close>

definition pwm_setup :: "'d hw8 \<Rightarrow> bool \<Rightarrow> u16 \<Rightarrow> pwm_port_t \<Rightarrow> u16 \<Rightarrow> 'd irq_dev \<Rightarrow> (status_t \<times> 'd irq_dev) outcome" where
  "pwm_setup hw alloc junk pw mode s =
     (if \<not> alloc then Ok (error_memory_low, s)
      else obind (pwm_to_timer junk pw) (\<lambda>tp. timer_setup hw (Some tp) mode (pw_prescale pw) s))"

definition pwm_set :: "'d hw8 \<Rightarrow> bool \<Rightarrow> u16 \<Rightarrow> pwm_port_t \<Rightarrow> u16 \<Rightarrow> bool \<Rightarrow> 'd \<Rightarrow> (status_t \<times> 'd) outcome" where
  "pwm_set hw alloc junk pw v invert s =
     (if \<not> alloc then Ok (error_memory_low, s)
      else obind (pwm_to_timer junk pw) (\<lambda>tp. Ok (timer_pwm_set hw (Some tp) invert v s)))"

section \<open>Watchdog\<close>

abbreviation (input) MCUSR :: u16 where "MCUSR \<equiv> 0x54"
abbreviation (input) SREG_IO :: u16 where "SREG_IO \<equiv> 0x5f"
abbreviation (input) WDTCSR :: u16 where "WDTCSR \<equiv> 0x60"

record wdt_port_t =
  wd_irq :: u16
  wd_timeout :: u16
  wd_handler :: avr_handler

text \<open>\<open>cli\<close> and \<open>sei\<close> change the flag in the status register, which is read as a byte.\<close>

definition avr_di_save_state :: "'d hw8 \<Rightarrow> 'd \<Rightarrow> u8 \<times> 'd" where
  "avr_di_save_state hw s = (case rd8 hw SREG_IO s of (x, s1) \<Rightarrow> (x AND bit8 7, and8 hw SREG_IO (NOT (bit8 7)) s1))"

definition avr_ei_restore_state :: "'d hw8 \<Rightarrow> u8 \<Rightarrow> 'd \<Rightarrow> 'd" where
  "avr_ei_restore_state hw istate = or8 hw SREG_IO istate"

text \<open>\<open>write_wdtcsr\<close> (assembly): the value of the unlocking store is made from the address of the register, \<open>0x60 | 0x18\<close>.\<close>

definition write_wdtcsr :: "'d hw8 \<Rightarrow> u8 \<Rightarrow> 'd \<Rightarrow> 'd" where
  "write_wdtcsr hw v s = wr8 hw WDTCSR v (wr8 hw WDTCSR 0x78 s)"

text \<open>The sequence all operations share, with interrupts off; \<open>wdr\<close> is what the instruction of that name does.\<close>

definition wdt_write :: "'d hw8 \<Rightarrow> ('d \<Rightarrow> 'd) \<Rightarrow> ('d \<Rightarrow> 'd) \<Rightarrow> u8 \<Rightarrow> 'd \<Rightarrow> 'd" where
  "wdt_write hw wdr extra v s =
     (case avr_di_save_state hw s of (istate, s1) \<Rightarrow> avr_ei_restore_state hw istate (write_wdtcsr hw v (extra (wdr s1))))"

definition get_timeout :: "u16 \<Rightarrow> u8" where
  "get_timeout timeout =
     (let temp = (ucast (timeout AND 0xf) :: u8) in (temp AND 0x7) OR push_bit 5 (drop_bit 3 temp))"

definition wdt_setup :: "'d hw8 \<Rightarrow> ('d \<Rightarrow> 'd) \<Rightarrow> wdt_port_t option \<Rightarrow> 'd irq_dev \<Rightarrow> (status_t \<times> 'd irq_dev) outcome" where
  "wdt_setup hw wdr port s =
     (case port of
        None \<Rightarrow> Ok (error_inval_pointer, s)
      | Some p \<Rightarrow>
          if wd_handler p = 0 then Ok (error_func_inval_arg, s)
          else obind (avr_link_interrupt int_arch (wd_irq p) (wd_handler p) (fst s)) (\<lambda>(ret, t).
               case rd8 hw WDTCSR (wdt_write hw wdr (\<lambda>d. d) 0 (snd s)) of (x, d) \<Rightarrow>
                 Ok (if x \<noteq> 0 then ret OR error_driver_init_failed else ret, t, d)))"

definition wdt_shutdown :: "'d hw8 \<Rightarrow> ('d \<Rightarrow> 'd) \<Rightarrow> wdt_port_t option \<Rightarrow> 'd irq_dev \<Rightarrow> (status_t \<times> 'd irq_dev) outcome" where
  "wdt_shutdown hw wdr port s =
     (case port of
        None \<Rightarrow> Ok (error_inval_pointer, s)
      | Some p \<Rightarrow>
          obind (avr_unlink_interrupt int_arch (wd_irq p) (fst s)) (\<lambda>(_, t).
          case rd8 hw WDTCSR (wdt_write hw wdr (and8 hw MCUSR (NOT (bit8 3))) 0 (snd s)) of (x, d) \<Rightarrow>
            Ok (if x \<noteq> 0 then error_driver_data else success, t, d)))"

definition wdt_set_timeout :: "'d hw8 \<Rightarrow> ('d \<Rightarrow> 'd) \<Rightarrow> wdt_port_t option \<Rightarrow> 'd \<Rightarrow> status_t \<times> 'd" where
  "wdt_set_timeout hw wdr port s =
     (case port of
        None \<Rightarrow> (error_inval_pointer, s)
      | Some p \<Rightarrow>
          if \<not> wd_timeout p \<le> 9 then (error_driver_data, s)
          else let t0 = get_timeout (wd_timeout p); timeout = (if t0 \<noteq> 0 then t0 OR bit8 6 else t0)
               in case rd8 hw WDTCSR (wdt_write hw wdr (\<lambda>d. d) timeout s) of (x, s1) \<Rightarrow>
                    (if x \<noteq> timeout then error_driver_init_failed else success, s1))"

text \<open>\<open>wdt_sre\<close> and \<open>wdt_srd\<close>.\<close>

definition wdt_reset_enable :: "'d hw8 \<Rightarrow> ('d \<Rightarrow> 'd) \<Rightarrow> (u8 \<Rightarrow> u8) \<Rightarrow> 'd \<Rightarrow> status_t \<times> 'd" where
  "wdt_reset_enable hw wdr f s =
     (case rd8 hw WDTCSR s of (v0, s0) \<Rightarrow>
      case rd8 hw WDTCSR (wdt_write hw wdr (\<lambda>d. d) (f v0) s0) of (x, s1) \<Rightarrow>
        (if x \<noteq> f v0 then error_driver_init_failed else success, s1))"

definition wdt_sre :: "'d hw8 \<Rightarrow> ('d \<Rightarrow> 'd) \<Rightarrow> 'd \<Rightarrow> status_t \<times> 'd" where
  "wdt_sre hw wdr = wdt_reset_enable hw wdr (\<lambda>v. v OR bit8 3)"

definition wdt_srd :: "'d hw8 \<Rightarrow> ('d \<Rightarrow> 'd) \<Rightarrow> 'd \<Rightarrow> status_t \<times> 'd" where
  "wdt_srd hw wdr = wdt_reset_enable hw wdr (\<lambda>v. v AND NOT (bit8 3))"

definition wdt_hush :: "('d \<Rightarrow> 'd) \<Rightarrow> 'd \<Rightarrow> 'd" where
  "wdt_hush wdr = wdr"

text \<open>The platform's watchdog driver: its port and its callback.\<close>

record plat_wdt =
  pl_port :: "wdt_port_t option"
  callback_on_bark :: avr_handler

definition platform_wdt_setup ::
  "'d hw8 \<Rightarrow> ('d \<Rightarrow> 'd) \<Rightarrow> resources \<Rightarrow> bool \<Rightarrow> avr_handler \<Rightarrow> plat_wdt \<Rightarrow> 'd irq_dev \<Rightarrow> (status_t \<times> plat_wdt \<times> 'd irq_dev) outcome" where
  "platform_wdt_setup hw wdr r alloc handler w s =
     obind (visor_fetch r fetch_dp 0x6000 0) (\<lambda>v.
       if vr_status v \<noteq> success then Ok (vr_status v, w, s)
       else case vr_p v of
              P_module m \<Rightarrow>
                if \<not> alloc then Ok (error_memory_low, w\<lparr>pl_port := None\<rparr>, s)
                else (case interrupt m of
                        [] \<Rightarrow> Fault Out_of_bounds
                      | q # _ \<Rightarrow>
                          let p = \<lparr>wd_irq = ucast (irq_id q), wd_timeout = ucast (mod_clk m), wd_handler = handler\<rparr>
                          in obind (wdt_setup hw wdr (Some p) s) (\<lambda>(ret, s1). Ok (ret, w\<lparr>pl_port := Some p\<rparr>, s1)))
            | _ \<Rightarrow> Fault Null_deref)"

definition platform_wdt_guard ::
  "'d hw8 \<Rightarrow> ('d \<Rightarrow> 'd) \<Rightarrow> u16 \<Rightarrow> bool \<Rightarrow> avr_handler \<Rightarrow> plat_wdt \<Rightarrow> 'd \<Rightarrow> (status_t \<times> plat_wdt \<times> 'd) outcome" where
  "platform_wdt_guard hw wdr timeout bite cb w s =
     (case pl_port w of
        None \<Rightarrow> Fault Null_deref
      | Some p0 \<Rightarrow>
          let p = p0\<lparr>wd_timeout := timeout\<rparr>; w1 = w\<lparr>pl_port := Some p, callback_on_bark := cb\<rparr>
          in case wdt_set_timeout hw wdr (Some p) s of (r1, s1) \<Rightarrow>
             case (if bite then wdt_sre hw wdr s1 else wdt_srd hw wdr s1) of (r2, s2) \<Rightarrow> Ok (r1 OR r2, w1, s2))"

definition platform_wdt_hush :: "'d hw8 \<Rightarrow> ('d \<Rightarrow> 'd) \<Rightarrow> plat_wdt \<Rightarrow> 'd \<Rightarrow> (status_t \<times> plat_wdt \<times> 'd) outcome" where
  "platform_wdt_hush hw wdr w s =
     (case pl_port w of
        None \<Rightarrow> Fault Null_deref
      | Some p0 \<Rightarrow>
          let p = p0\<lparr>wd_timeout := 0\<rparr>
          in case wdt_set_timeout hw wdr (Some p) (wdt_hush wdr s) of (r1, s1) \<Rightarrow>
             case wdt_srd hw wdr s1 of (r2, s2) \<Rightarrow> Ok (r1 OR r2, w\<lparr>pl_port := Some p\<rparr>, s2))"

definition platform_wdt_reset :: "'d hw8 \<Rightarrow> 'd \<Rightarrow> status_t \<times> 'd" where
  "platform_wdt_reset hw s =
     (case rd8 hw WDTCSR (write_wdtcsr hw 0 s) of (x, s1) \<Rightarrow> (if x = 0 then success else error_driver_data, s1))"

section \<open>The watchdog is programmed as asked\<close>

lemma upto_9: "(t :: u16) \<le> 9 \<Longrightarrow> t \<in> {0, 1, 2, 3, 4, 5, 6, 7, 8, 9}"
proof -
  assume "t \<le> 9"
  then have "unat t \<in> {..9}" by (simp add: word_le_nat_alt)
  then have "unat t \<in> {0, 1, 2, 3, 4, 5, 6, 7, 8, 9}" by auto
  then show ?thesis by (auto simp: word_unat_eq_iff)
qed

text \<open>The three low bits and the fourth one, which is apart from them, hold the timeout.\<close>

lemma get_timeout_decodes:
  assumes "t \<le> 9"
  shows "unat (get_timeout t AND 7) + (if bit (get_timeout t) 5 then 8 else 0) = unat t"
    and "get_timeout t AND bit8 3 = 0" and "get_timeout t AND bit8 6 = 0" and "get_timeout t = 0 \<longleftrightarrow> t = 0"
  using upto_9 [OF assms] by (auto simp: get_timeout_def bit8_def Let_def)

lemma wdt_write_val:
  assumes "stores8 hw val {WDTCSR, SREG_IO}" and "\<forall>s. \<forall>a \<in> {WDTCSR, SREG_IO}. val (wdr s) a = val s a \<and> val (extra s) a = val s a"
  shows "val (wdt_write hw wdr extra v s) WDTCSR = v" and "val (wdt_write hw wdr extra v s) SREG_IO = val s SREG_IO"
proof -
  have "(x :: u8) AND NOT (bit8 7) OR x AND bit8 7 = x" for x by (simp add: bit_eq_iff bit_simps) blast
  then show "val (wdt_write hw wdr extra v s) WDTCSR = v" "val (wdt_write hw wdr extra v s) SREG_IO = val s SREG_IO"
    using assms(2)
    by (simp_all add: wdt_write_def avr_di_save_state_def avr_ei_restore_state_def write_wdtcsr_def case_prod_unfold stores8_simps [OF assms(1)])
qed

lemma wdt_reset_enable_val:
  assumes "stores8 hw val {WDTCSR, SREG_IO}" and "\<forall>s. \<forall>a \<in> {WDTCSR, SREG_IO}. val (wdr s) a = val s a"
    and "wdt_reset_enable hw wdr f s = (r, s1)"
  shows "r = success \<and> val s1 WDTCSR = f (val s WDTCSR) \<and> val s1 SREG_IO = val s SREG_IO"
  using assms(3) wdt_write_val [OF assms(1), of wdr "\<lambda>d. d"] assms(2)
  by (auto simp: wdt_reset_enable_def case_prod_unfold stores8_simps [OF assms(1)])

text \<open>\<open>platform_wdt_guard\<close> with a timeout of 0 to 9 succeeds and leaves a control register from which the timeout can be read
  back, with the interrupt enabled exactly for a timeout other than 0 and the reset exactly as asked, and the
  interrupt flag of the processor as it was; \<open>platform_wdt_hush\<close> then switches everything off.\<close>

theorem wdt_guard_programs:
  assumes S: "stores8 hw val {WDTCSR, SREG_IO}" and W: "\<forall>s. \<forall>a \<in> {WDTCSR, SREG_IO}. val (wdr s) a = val s a"
    and t: "t \<le> 9" and p: "pl_port w \<noteq> None"
  shows "\<exists>w1 s1. platform_wdt_guard hw wdr t bite cb w s = Ok (success, w1, s1) \<and> callback_on_bark w1 = cb
    \<and> unat (val s1 WDTCSR AND 7) + (if bit (val s1 WDTCSR) 5 then 8 else 0) = unat t
    \<and> (val s1 WDTCSR AND bit8 6 \<noteq> 0 \<longleftrightarrow> t \<noteq> 0) \<and> (val s1 WDTCSR AND bit8 3 \<noteq> 0 \<longleftrightarrow> bite) \<and> val s1 SREG_IO = val s SREG_IO
    \<and> (\<exists>w2 s2. platform_wdt_hush hw wdr w1 s1 = Ok (success, w2, s2) \<and> val s2 WDTCSR = 0 \<and> val s2 SREG_IO = val s SREG_IO)"
proof -
  obtain p0 where p0: "pl_port w = Some p0" using p by auto
  have set: "fst (wdt_set_timeout hw wdr (Some q) d) = success
      \<and> val (snd (wdt_set_timeout hw wdr (Some q) d)) WDTCSR = (if wd_timeout q = 0 then 0 else get_timeout (wd_timeout q) OR bit8 6)
      \<and> val (snd (wdt_set_timeout hw wdr (Some q) d)) SREG_IO = val d SREG_IO" if "wd_timeout q \<le> 9" for q d
    using that wdt_write_val [OF S, of wdr "\<lambda>d. d"] W get_timeout_decodes(4) [OF that]
    by (auto simp: wdt_set_timeout_def Let_def case_prod_unfold stores8_simps [OF S])
  let ?p = "p0\<lparr>wd_timeout := t\<rparr>" and ?f = "\<lambda>v. if bite then v OR bit8 3 else v AND NOT (bit8 3)"
  obtain s1 where s1: "wdt_set_timeout hw wdr (Some ?p) s = (success, s1)" "val s1 SREG_IO = val s SREG_IO"
    "val s1 WDTCSR = (if t = 0 then 0 else get_timeout t OR bit8 6)"
    using set [of ?p s] t by (cases "wdt_set_timeout hw wdr (Some ?p) s") auto
  obtain s2 where s2: "(if bite then wdt_sre hw wdr s1 else wdt_srd hw wdr s1) = (success, s2)" "val s2 WDTCSR = ?f (val s1 WDTCSR)" "val s2 SREG_IO = val s SREG_IO"
    using wdt_reset_enable_val [OF S W, of "\<lambda>v. v OR bit8 3" s1] wdt_reset_enable_val [OF S W, of "\<lambda>v. v AND NOT (bit8 3)" s1] s1(2)
    by (cases "if bite then wdt_sre hw wdr s1 else wdt_srd hw wdr s1") (auto simp: wdt_sre_def wdt_srd_def split: if_splits)
  let ?w1 = "w\<lparr>pl_port := Some ?p, callback_on_bark := cb\<rparr>" and ?q = "?p\<lparr>wd_timeout := 0\<rparr>"
  have g: "platform_wdt_guard hw wdr t bite cb w s = Ok (success, ?w1, s2)"
    using s1(1) s2(1) by (simp add: platform_wdt_guard_def p0)
  obtain s3 where s3: "wdt_set_timeout hw wdr (Some ?q) (wdr s2) = (success, s3)" "val s3 SREG_IO = val s SREG_IO" "val s3 WDTCSR = 0"
    using set [of ?q "wdr s2"] s2(3) W by (cases "wdt_set_timeout hw wdr (Some ?q) (wdr s2)") auto
  obtain s4 where s4: "wdt_srd hw wdr s3 = (success, s4)" "val s4 WDTCSR = 0" "val s4 SREG_IO = val s SREG_IO"
    using wdt_reset_enable_val [OF S W, of "\<lambda>v. v AND NOT (bit8 3)" s3] s3(2,3) by (cases "wdt_srd hw wdr s3") (auto simp: wdt_srd_def)
  have h: "platform_wdt_hush hw wdr ?w1 s2 = Ok (success, ?w1\<lparr>pl_port := Some ?q\<rparr>, s4)"
    using s3(1) s4(1) by (simp add: platform_wdt_hush_def wdt_hush_def)
  have v: "unat (val s2 WDTCSR AND 7) + (if bit (val s2 WDTCSR) 5 then 8 else 0) = unat t \<and> (val s2 WDTCSR AND bit8 6 \<noteq> 0 \<longleftrightarrow> t \<noteq> 0)
      \<and> (val s2 WDTCSR AND bit8 3 \<noteq> 0 \<longleftrightarrow> bite)"
    using upto_9 [OF t] s1(3) s2(2) by (auto simp: get_timeout_def bit8_def Let_def split: if_splits)
  show ?thesis using g h v s2(3) s4(2,3) by auto
qed

theorem wdt_guard_programs_witness:
  "\<exists>w1 s1. platform_wdt_guard plain8 (\<lambda>s. s) 9 True 5 \<lparr>pl_port = Some \<lparr>wd_irq = 6, wd_timeout = 0, wd_handler = 4\<rparr>, callback_on_bark = 0\<rparr> (\<lambda>_. 0)
      = Ok (success, w1, s1) \<and> s1 WDTCSR AND bit8 6 \<noteq> 0 \<and> s1 WDTCSR AND bit8 3 \<noteq> 0"
  using wdt_guard_programs [OF plain8_stores, of "\<lambda>s. s" 9 "\<lparr>pl_port = Some \<lparr>wd_irq = 6, wd_timeout = 0, wd_handler = 4\<rparr>, callback_on_bark = 0\<rparr>" True 5 "\<lambda>_. 0"]
  by auto

section \<open>Timers\<close>

text \<open>What the steps of setup and shutdown do to the two control registers.\<close>

lemma timer_config_val:
  assumes S: "stores8 hw val R" and R: "tm_baddr p \<in> R" "tm_baddr p + 1 \<in> R" and a: "a = tm_baddr p \<or> a = tm_baddr p + 1"
  shows "m \<le> 7 \<Longrightarrow> val (timer8_config_mode hw p m s) a = val s a OR ucast (if a = tm_baddr p then m AND 3 else push_bit 1 (m AND 4))"
    and "m \<le> 15 \<Longrightarrow> val (timer16_config_mode hw p m s) a = val s a OR ucast (if a = tm_baddr p then m AND 3 else push_bit 1 (m AND 0xc))"
    and "ps \<le> 7 \<Longrightarrow> val (timer8_config_ps hw p ps s) a = (if a = tm_baddr p then val s a else val s a OR ucast ps)"
    and "ps \<le> 7 \<Longrightarrow> val (timer16_config_ps hw p ps s) a = (if a = tm_baddr p then val s a else val s a OR ucast ps)"
    and "val (timer8_set hw p v8 s) a = val s a" and "val (timer16_set hw p v s) a = val s a"
  using R a
  by (auto simp: timer8_config_mode_def timer16_config_mode_def timer8_config_ps_def timer16_config_ps_def timer8_set_def timer16_set_def
      case_prod_unfold Let_def stores8_simps [OF S])

lemma timer_irq_val:
  assumes "stores8 hw val R" and "a \<in> R" and "a \<noteq> tm_timsk p"
  shows "val (timer8_irq_en hw p s) a = val s a" "val (timer16_irq_en hw p s) a = val s a"
    "val (timer8_irq_dis hw p s) a = val s a" "val (timer16_irq_dis hw p s) a = val s a"
  using assms(2,3) by (auto simp: timer8_irq_en_def timer16_irq_en_def timer8_irq_dis_def timer16_irq_dis_def stores8_upd [OF assms(1)])

text \<open>The control registers of a timer are storage, apart from the mask register and the clock gates.\<close>

definition timer_regs :: "'d hw8 \<Rightarrow> ('d \<Rightarrow> u16 \<Rightarrow> u8) \<Rightarrow> timer_port_t \<Rightarrow> bool" where
  "timer_regs hw val p \<longleftrightarrow> stores8 hw val {tm_baddr p, tm_baddr p + 1} \<and> {tm_timsk p, PRR} \<inter> {tm_baddr p, tm_baddr p + 1} = {}"

lemma timer_shutdown_val:
  assumes "timer_regs hw val p" and "timer_shutdown hw (Some p) s = Ok (r, s1)" and a: "a = tm_baddr p \<or> a = tm_baddr p + 1"
  shows "val (snd s1) a = val (snd s) a"
proof -
  have S: "stores8 hw val {tm_baddr p, tm_baddr p + 1}" using assms(1) by (simp add: timer_regs_def)
  have n: "a \<in> {tm_baddr p, tm_baddr p + 1}" "a \<noteq> tm_timsk p" "a \<noteq> PRR" using assms(1) a by (auto simp: timer_regs_def)
  have z: "val (timer8_config_mode hw p 0 d) a = val d a" "val (timer16_config_mode hw p 0 d) a = val d a"
    "val (timer8_config_ps hw p 0 d) a = val d a" "val (timer16_config_ps hw p 0 d) a = val d a" for d
    by (simp_all add: timer_config_val [OF S _ _ a])
  note val = z timer_irq_val [OF S n(1,2)] platform_clk_frame [OF S n(1,3)]
  show ?thesis using assms(2) by (auto simp: timer_shutdown_def Let_def outcome_simps case_prod_unfold val)
qed

lemma timer_setup_val:
  assumes "timer_regs hw val p" and "timer_setup hw (Some p) m ps s = Ok (r, s1)" and a: "a = tm_baddr p \<or> a = tm_baddr p + 1"
    and "m \<le> 7" and "ps \<le> 7"
  shows "val (snd s1) a = val (snd s) a OR (if a = tm_baddr p then ucast (m AND 3) else ucast (push_bit 1 (m AND 4)) OR ucast ps)"
proof -
  have S: "stores8 hw val {tm_baddr p, tm_baddr p + 1}" using assms(1) by (simp add: timer_regs_def)
  have n: "a \<in> {tm_baddr p, tm_baddr p + 1}" "a \<noteq> tm_timsk p" "a \<noteq> PRR" using assms(1) a by (auto simp: timer_regs_def)
  have m: "m \<le> 15" using \<open>m \<le> 7\<close> by (rule order_trans) simp
  have "m \<le> 9" using \<open>m \<le> 7\<close> by (rule order_trans) simp
  then have m4: "m AND 0xc = m AND 4" using upto_9 [of m] \<open>m \<le> 7\<close> by auto
  define x y :: u8 where "x = (if a = tm_baddr p then ucast (m AND 3) else ucast (push_bit 1 (m AND 4)))"
    and "y = (if a = tm_baddr p then 0 else ucast ps)"
  have z: "val (timer8_config_mode hw p m d) a = val d a OR x" "val (timer16_config_mode hw p m d) a = val d a OR x"
    "val (timer8_config_ps hw p ps d) a = val d a OR y" "val (timer16_config_ps hw p ps d) a = val d a OR y"
    "val (timer8_set hw p v8 d) a = val d a" "val (timer16_set hw p v d) a = val d a" for d v8 v
    using assms(4,5) m by (simp_all add: timer_config_val [OF S _ _ a] x_def y_def m4)
  note val = z timer_irq_val [OF S n(1,2)] platform_clk_frame [OF S n(1,3)]
  have "val (snd s1) a = val (snd s) a OR (x OR y)"
    using assms(2) by (auto simp: timer_setup_def Let_def outcome_simps case_prod_unfold val or.assoc split: if_splits)
  then show ?thesis by (simp add: x_def y_def)
qed

text \<open>\<open>timer_shutdown\<close> means to clear mode and prescaler but only adds zero bits to the control registers, which stay as they are;
  and \<open>timer_setup\<close> only adds bits: a timer that is shut down and set up again runs with the bits of both modes and both prescalers.\<close>

theorem timer_restart_accumulates:
  assumes "timer_regs hw val p" and "timer_shutdown hw (Some p) s = Ok (r, s1)" and "timer_setup hw (Some p) m ps s1 = Ok (q, s2)"
    and "m \<le> 7" and "ps \<le> 7"
  shows "val (snd s1) (tm_baddr p) = val (snd s) (tm_baddr p) \<and> val (snd s1) (tm_baddr p + 1) = val (snd s) (tm_baddr p + 1)
    \<and> val (snd s2) (tm_baddr p) = val (snd s) (tm_baddr p) OR ucast (m AND 3)
    \<and> val (snd s2) (tm_baddr p + 1) = val (snd s) (tm_baddr p + 1) OR (ucast (push_bit 1 (m AND 4)) OR ucast ps)"
  using timer_shutdown_val [OF assms(1,2)] timer_setup_val [OF assms(1,3) _ assms(4,5)] by simp

theorem timer_restart_accumulates_witness:
  "\<exists>s1 s2. let p = \<lparr>tm_port_id = 0x7010, tm_clk_id = 3, tm_baddr = 0x80, tm_value = 0, tm_irq = 11, tm_handler = 0\<rparr>
     in timer_shutdown plain8 (Some p) (replicate 25 1, (\<lambda>_. 0)(0x81 := 5)) = Ok (success, s1)
        \<and> timer_setup plain8 (Some p) 0 2 s1 = Ok (success, s2) \<and> snd s1 0x81 = 5 \<and> snd s2 0x81 = 7"
proof -
  let ?p = "\<lparr>tm_port_id = 0x7010, tm_clk_id = 3, tm_baddr = 0x80, tm_value = 0, tm_irq = 11, tm_handler = 0\<rparr>"
  let ?s = "(replicate 25 1 :: nat list, (\<lambda>_ :: u16. 0 :: u8)(0x81 := 5))"
  have i: "unat ((11 :: u16) - 1) < length (fst ?s)" by simp
  then obtain s1 where s1: "timer_shutdown plain8 (Some ?p) ?s = Ok (success, s1)"
    by (simp add: timer_shutdown_def avr_unlink_interrupt_def avr_register_interrupt_handler_def Let_def platform_clk_dis_def)
  obtain s2 where s2: "timer_setup plain8 (Some ?p) 0 2 s1 = Ok (success, s2)"
    by (simp add: timer_setup_def platform_clk_en_def Let_def is_timer8_def)
  have "timer_regs plain8 (\<lambda>s. s) ?p" by (simp add: timer_regs_def plain8_stores tm_timsk_def)
  from timer_restart_accumulates [OF this s1 s2] have "snd s1 0x81 = 5 \<and> snd s2 0x81 = 7" by simp
  then show ?thesis unfolding Let_def using s1 s2 by blast
qed

text \<open>The compare value is stored whole, high byte first, in the registers of the unit, and the control registers are left alone.\<close>

lemma timer16_set_value:
  assumes S: "stores8 hw val R" and "tm_unit p \<in> {0, 1}" and R: "{tm_baddr p + 8 + 2 * ucast (tm_unit p), tm_baddr p + 9 + 2 * ucast (tm_unit p)} \<subseteq> R"
  shows "push_bit 8 (ucast (val (timer16_set hw p v s) (tm_baddr p + 9 + 2 * ucast (tm_unit p))))
    OR ucast (val (timer16_set hw p v s) (tm_baddr p + 8 + 2 * ucast (tm_unit p))) = v"
proof -
  have m: "(0xff :: u16) = mask 8" "(0xff00 :: u16) = push_bit 8 (mask 8)" by (simp_all add: mask_eq_exp_minus_1)
  have e: "push_bit 8 (ucast (ucast (drop_bit 8 (v AND 0xff00)) :: u8)) OR ucast (ucast (v AND 0xff) :: u8) = v"
    unfolding m by (rule bit_word_eqI) (auto simp: bit_simps)
  have n: "tm_baddr p + 9 \<noteq> tm_baddr p + 8" "tm_baddr p + 11 \<noteq> tm_baddr p + 10" by simp_all
  show ?thesis
    using assms(2) R e n
    by (auto simp: timer16_set_def Let_def stores8_simps [OF S] add.assoc)
qed

section \<open>The converter\<close>

text \<open>The multiplexer of the converter after \<open>adc_config_pin\<close>: the channel is added to the bits of the channels selected before,
  which nothing clears; and with a resolution of 8 bits the whole register is overwritten after the reference voltage was
  set, so that the reference is always the external one.\<close>

theorem adc_config_pin_mux:
  assumes S: "stores8 hw val R" and R: "adc_baddr p + 4 \<in> R" and pin: "pin \<le> 8"
    and v: "vref \<in> {0, 1, 2}" and res: "resolution \<in> {8, 10}" and tr: "trigger \<le> 7"
  shows "fst (adc_config_pin hw (Some p) pin trigger resolution vref s) = success
    \<and> val (snd (adc_config_pin hw (Some p) pin trigger resolution vref s)) (adc_baddr p + 4)
      = (if resolution = 8 then bit8 5 else val s (adc_baddr p + 4) OR push_bit 6 (if vref = 2 then 3 else ucast vref)) OR pin"
proof -
  have t: "(ucast trigger :: u8) \<le> 7"
  proof -
    have "unat trigger \<le> 7" using tr by (simp add: word_le_nat_alt)
    then have "unat (ucast trigger :: u8) \<le> 7" by (simp add: ucast_small_nat)
    then show ?thesis by (simp add: word_le_nat_alt)
  qed
  show ?thesis
    using R pin v res t
    by (auto simp: adc_config_pin_def adc_config_vref_def adc_config_resolution_def adc_config_trigger_def adc_start_conv_def Let_def
        case_prod_unfold stores8_simps [OF S] not_less)
qed

theorem adc_config_pin_mux_witness:
  "snd (adc_config_pin plain8 (Some \<lparr>adc_clk_id = 0, adc_fdiv = 128, adc_baddr = 0x78, adc_irq = 21, adc_handler = 0\<rparr>) 2 0 10 1 ((\<lambda>_. 0)(0x7c := 1))) 0x7c
     = 0x43"
  using adc_config_pin_mux [OF plain8_stores [of UNIV], of "\<lparr>adc_clk_id = 0, adc_fdiv = 128, adc_baddr = 0x78, adc_irq = 21, adc_handler = 0\<rparr>" 2 1 10 0
      "(\<lambda>_. 0)(0x7c := 1)"]
  by simp

end
