(* ===== verification/Avr_Serial.thy ===== *)
theory Avr_Serial
  imports Avr_Timer Interrupts Console
begin

text \<open>
  The UART and the SPI of the Mega-AVR platform (\<open>platform/mega_avr/common/hal/uart\<close>, \<open>hal/spi\<close>) and its serial consoles
  (\<open>driver/console/con_serial_mega_avr\<close>): writing by polling (early console) or by interrupt, reading by interrupt into a
  single place.
\<close>

section \<open>UART\<close>

abbreviation (input) UCSRA_OFFSET :: u16 where "UCSRA_OFFSET \<equiv> 0"
abbreviation (input) UCSRB_OFFSET :: u16 where "UCSRB_OFFSET \<equiv> 1"
abbreviation (input) UCSRC_OFFSET :: u16 where "UCSRC_OFFSET \<equiv> 2"
abbreviation (input) UBRRL_OFFSET :: u16 where "UBRRL_OFFSET \<equiv> 4"
abbreviation (input) UBRRH_OFFSET :: u16 where "UBRRH_OFFSET \<equiv> 5"
abbreviation (input) UDR_OFFSET :: u16 where "UDR_OFFSET \<equiv> 6"

record avr_uart_port =
  au_clk_id :: u16
  au_baud :: u32
  au_baddr :: u16
  au_tx_irq :: "irqs_t option"
  au_tx_handler :: avr_handler
  au_rx_irq :: "irqs_t option"
  au_rx_handler :: avr_handler

text \<open>\<open>BAUD_RATE_VALUE(clk, X)\<close>\<close>

definition BAUD_RATE_VALUE :: "u32 \<Rightarrow> u32 \<Rightarrow> u16" where
  "BAUD_RATE_VALUE clk x = ucast ((clk + push_bit 3 x) div push_bit 4 x - 1)"

text \<open>The module of an interrupt as a number; what is neither 1 nor 2 ends in the error of \<open>link_interrupt\<close> as 3 does.\<close>

definition to_module :: "u32 \<Rightarrow> int_module" where
  "to_module m = (if m = 1 then int_arch else if m = 2 then int_local else int_plat)"

definition avr_uart_tx_int_en :: "'d hw8 \<Rightarrow> avr_uart_port option \<Rightarrow> 'd \<Rightarrow> status_t \<times> 'd" where
  "avr_uart_tx_int_en hw up s =
     (case up of None \<Rightarrow> (error_inval_pointer, s) | Some p \<Rightarrow> (success, or8 hw (au_baddr p + UCSRB_OFFSET) (bit8 6) s))"

definition avr_uart_tx_int_dis :: "'d hw8 \<Rightarrow> avr_uart_port option \<Rightarrow> 'd \<Rightarrow> status_t \<times> 'd" where
  "avr_uart_tx_int_dis hw up s =
     (case up of None \<Rightarrow> (error_inval_pointer, s) | Some p \<Rightarrow> (success, and8 hw (au_baddr p + UCSRB_OFFSET) (NOT (bit8 6)) s))"

definition avr_uart_rx_int_en :: "'d hw8 \<Rightarrow> avr_uart_port option \<Rightarrow> 'd \<Rightarrow> status_t \<times> 'd" where
  "avr_uart_rx_int_en hw up s =
     (case up of None \<Rightarrow> (error_inval_pointer, s) | Some p \<Rightarrow> (success, or8 hw (au_baddr p + UCSRB_OFFSET) (bit8 7) s))"

definition avr_uart_rx_int_dis :: "'d hw8 \<Rightarrow> avr_uart_port option \<Rightarrow> 'd \<Rightarrow> status_t \<times> 'd" where
  "avr_uart_rx_int_dis hw up s =
     (case up of None \<Rightarrow> (error_inval_pointer, s) | Some p \<Rightarrow> (success, and8 hw (au_baddr p + UCSRB_OFFSET) (NOT (bit8 7)) s))"

text \<open>Linking one of the two interrupts, if the port has it, and enabling it; the statuses are dropped.\<close>

definition avr_uart_link ::
  "('d \<Rightarrow> status_t \<times> 'd) \<Rightarrow> irqs_t option \<Rightarrow> avr_handler \<Rightarrow> 'd irq_dev \<Rightarrow> 'd irq_dev outcome" where
  "avr_uart_link int_en irq h s =
     (case irq of
        None \<Rightarrow> Ok s
      | Some q \<Rightarrow> obind (avr_link_interrupt (to_module (irq_module q)) (ucast (irq_id q)) h (fst s)) (\<lambda>(_, t). Ok (t, snd (int_en (snd s)))))"

definition avr_uart_setup ::
  "'d hw8 \<Rightarrow> resources \<Rightarrow> avr_uart_port option \<Rightarrow> u16 \<Rightarrow> u16 \<Rightarrow> 'd irq_dev \<Rightarrow> (status_t \<times> 'd irq_dev) outcome" where
  "avr_uart_setup hw r up dir par s =
     (case up of
        None \<Rightarrow> Ok (error_inval_pointer, s)
      | Some p \<Rightarrow>
          let b = au_baddr p;
              s0 = (fst s, snd (platform_clk_en hw (au_clk_id p) (wr8 hw (b + UCSRA_OFFSET) 0 (snd s))));
              tx_on = avr_uart_link (avr_uart_tx_int_en hw up) (au_tx_irq p) (au_tx_handler p);
              rx_on = avr_uart_link (avr_uart_rx_int_en hw up) (au_rx_irq p) (au_rx_handler p)
          in obind (visor_fetch r fetch_dp hw_clock 0) (\<lambda>v.
             if vr_status v \<noteq> success then Ok (vr_status v, s0)
             else case vr_p v of
                    P_clock clk \<Rightarrow>
                      if dir \<noteq> 1 \<and> dir \<noteq> 2 \<and> dir \<noteq> 3 then Ok (error_func_inval_arg, s0)
                      else obind (if dir = 3 then obind (tx_on s0) rx_on else if dir = 2 then rx_on s0 else tx_on s0) (\<lambda>s1.
                           let en = (if dir = 3 then bit8 3 OR bit8 4 else if dir = 2 then bit8 4 else bit8 3);
                               d = or8 hw (b + UCSRB_OFFSET) en (snd s1)
                           in require (push_bit 4 (au_baud p) \<noteq> 0) Div_by_zero
                                (let v = BAUD_RATE_VALUE clk (au_baud p);
                                     d1 = wr8 hw (b + UBRRL_OFFSET) (ucast (v AND 0xff)) (wr8 hw (b + UBRRH_OFFSET) (ucast (drop_bit 8 v)) d)
                                 in Ok (success, fst s1, wr8 hw (b + UCSRC_OFFSET) (ucast (push_bit 4 par) OR push_bit 1 3) d1)))
                  | _ \<Rightarrow> Fault Null_deref))"

definition avr_uart_unlink ::
  "('d \<Rightarrow> status_t \<times> 'd) \<Rightarrow> irqs_t option \<Rightarrow> status_t \<times> 'd irq_dev \<Rightarrow> (status_t \<times> 'd irq_dev) outcome" where
  "avr_uart_unlink int_dis irq = (\<lambda>(ret, s).
     case irq of
       None \<Rightarrow> Ok (ret, s)
     | Some q \<Rightarrow>
         (case int_dis (snd s) of (r1, d) \<Rightarrow>
          obind (avr_unlink_interrupt (to_module (irq_module q)) (ucast (irq_id q)) (fst s)) (\<lambda>(r2, t). Ok (ret OR r1 OR r2, t, d))))"

definition avr_uart_shutdown :: "'d hw8 \<Rightarrow> avr_uart_port option \<Rightarrow> 'd irq_dev \<Rightarrow> (status_t \<times> 'd irq_dev) outcome" where
  "avr_uart_shutdown hw up s =
     (case up of
        None \<Rightarrow> Ok (error_inval_pointer, s)
      | Some p \<Rightarrow>
          obind (avr_uart_unlink (avr_uart_tx_int_dis hw up) (au_tx_irq p) (success, s)) (\<lambda>rs.
          obind (avr_uart_unlink (avr_uart_rx_int_dis hw up) (au_rx_irq p) rs) (\<lambda>(ret, s1).
          case platform_clk_dis hw (au_clk_id p) (snd s1) of (r, d) \<Rightarrow> Ok (ret OR r, fst s1, d))))"

definition avr_uart_buffer_available :: "'d hw8 \<Rightarrow> avr_uart_port option \<Rightarrow> 'd \<Rightarrow> (bool \<times> 'd) outcome" where
  "avr_uart_buffer_available hw up s =
     (case up of
        None \<Rightarrow> Fault Assert_failed
      | Some p \<Rightarrow> (case rd8 hw (au_baddr p + UCSRA_OFFSET) s of (x, s1) \<Rightarrow> Ok (drop_bit 5 x AND 1 \<noteq> 0, s1)))"

definition avr_uart_tx_wait_till_done :: "nat \<Rightarrow> 'd hw8 \<Rightarrow> avr_uart_port option \<Rightarrow> 'd \<Rightarrow> 'd outcome" where
  "avr_uart_tx_wait_till_done fuel hw up s =
     (case up of
        None \<Rightarrow> Fault Assert_failed
      | Some p \<Rightarrow> obind (poll8 fuel hw (au_baddr p + UCSRA_OFFSET) (\<lambda>x. x AND bit8 6 = 0) s)
                     (\<lambda>s1. Ok (or8 hw (au_baddr p + UCSRA_OFFSET) (bit8 6) s1)))"

definition avr_uart_rx_done :: "'d hw8 \<Rightarrow> avr_uart_port option \<Rightarrow> 'd \<Rightarrow> (bool \<times> 'd) outcome" where
  "avr_uart_rx_done hw up s =
     (case up of
        None \<Rightarrow> Fault Assert_failed
      | Some p \<Rightarrow> (case rd8 hw (au_baddr p + UCSRA_OFFSET) s of (x, s1) \<Rightarrow> Ok (drop_bit 7 x AND 1 \<noteq> 0, s1)))"

definition avr_uart_frame_error :: "'d hw8 \<Rightarrow> avr_uart_port option \<Rightarrow> 'd \<Rightarrow> (bool \<times> 'd) outcome" where
  "avr_uart_frame_error hw up s =
     (case up of
        None \<Rightarrow> Fault Assert_failed
      | Some p \<Rightarrow>
          (case rd8 hw (au_baddr p + UCSRC_OFFSET) s of (c, s1) \<Rightarrow>
             if c AND bit8 4 \<noteq> 0
             then (case rd8 hw (au_baddr p + UCSRA_OFFSET) s1 of (a, s2) \<Rightarrow> Ok (a AND bit8 4 \<noteq> 0, s2))
             else Ok (False, s1)))"

definition avr_uart_tx :: "nat \<Rightarrow> 'd hw8 \<Rightarrow> avr_uart_port option \<Rightarrow> u8 \<Rightarrow> 'd \<Rightarrow> (status_t \<times> 'd) outcome" where
  "avr_uart_tx fuel hw up c s =
     (case up of
        None \<Rightarrow> Ok (error_inval_pointer, s)
      | Some p \<Rightarrow> obind (poll8 fuel hw (au_baddr p + UCSRA_OFFSET) (\<lambda>x. drop_bit 5 x AND 1 = 0) s)
                     (\<lambda>s1. Ok (success, wr8 hw (au_baddr p + UDR_OFFSET) c s1)))"

text \<open>The second component is what is stored through the pointer, if anything.\<close>

definition avr_uart_rx :: "'d hw8 \<Rightarrow> avr_uart_port option \<Rightarrow> 'd \<Rightarrow> (status_t \<times> u8 option \<times> 'd) outcome" where
  "avr_uart_rx hw up s =
     (case up of
        None \<Rightarrow> Ok (error_inval_pointer, None, s)
      | Some p \<Rightarrow>
          obind (avr_uart_frame_error hw up s) (\<lambda>(e, s1).
            if e then Ok (error_driver_data, None, s1)
            else case rd8 hw (au_baddr p + UDR_OFFSET) s1 of (x, s2) \<Rightarrow> Ok (success, Some x, s2)))"

section \<open>The serial consoles\<close>

text \<open>Looking up the device of the console: its entry among the software devices names the UART.\<close>

definition fetch_console_uart :: "resources \<Rightarrow> (status_t + module_t) outcome" where
  "fetch_console_uart r =
     obind (visor_fetch r fetch_sp console_uart 0) (\<lambda>v.
       if vr_status v \<noteq> success then Ok (Inl (vr_status v))
       else case vr_p v of
              P_swdev sp \<Rightarrow>
                obind (visor_fetch r fetch_dp (hwdev_id sp AND 0xff00) (hwdev_id sp AND 0xff)) (\<lambda>w.
                  if vr_status w \<noteq> success then Ok (Inl (vr_status w))
                  else case vr_p w of P_module m \<Rightarrow> Ok (Inr m) | _ \<Rightarrow> Fault Null_deref)
            | _ \<Rightarrow> Fault Null_deref)"

text \<open>\<open>cur\<close> is the value of the static pointer, whose new value is returned; \<open>fresh\<close> is what \<open>malloc\<close> returns: a port
  with arbitrary contents, or nothing. The early console leaves the interrupts of the port as they are there.\<close>

definition avr_console_serial_setup ::
  "'d hw8 \<Rightarrow> resources \<Rightarrow> avr_uart_port option \<Rightarrow> avr_uart_port option \<Rightarrow> avr_handler \<Rightarrow> avr_handler \<Rightarrow> 'd irq_dev
     \<Rightarrow> (status_t \<times> avr_uart_port option \<times> 'd irq_dev) outcome" where
  "avr_console_serial_setup hw r cur fresh write_irq read_irq s =
     obind (fetch_console_uart r) (\<lambda>e.
       case e of
         Inl st \<Rightarrow> Ok (st, cur, s)
       | Inr m \<Rightarrow>
           (case fresh of
              None \<Rightarrow> Ok (error_memory_low, None, s)
            | Some p0 \<Rightarrow>
                require (length (interrupt m) > 1) Out_of_bounds
                  (let p = p0\<lparr>au_clk_id := ucast (mod_clk_id m), au_baddr := ucast (mod_baddr m), au_baud := mod_clk m,
                              au_tx_irq := Some (interrupt m ! 1), au_tx_handler := write_irq,
                              au_rx_irq := Some (interrupt m ! 0), au_rx_handler := read_irq\<rparr>
                   in obind (avr_uart_setup hw r (Some p) 3 0 s) (\<lambda>(ret, s1). Ok (ret, Some p, s1)))))"

definition avr_earlycon_serial_setup ::
  "'d hw8 \<Rightarrow> resources \<Rightarrow> avr_uart_port option \<Rightarrow> avr_uart_port option \<Rightarrow> 'd irq_dev
     \<Rightarrow> (status_t \<times> avr_uart_port option \<times> 'd irq_dev) outcome" where
  "avr_earlycon_serial_setup hw r cur fresh s =
     obind (fetch_console_uart r) (\<lambda>e.
       case e of
         Inl st \<Rightarrow> Ok (st, cur, s)
       | Inr m \<Rightarrow>
           (case fresh of
              None \<Rightarrow> Ok (error_memory_low, None, s)
            | Some p0 \<Rightarrow>
                let p = p0\<lparr>au_clk_id := ucast (mod_clk_id m), au_baddr := ucast (mod_baddr m), au_baud := mod_clk m\<rparr>
                in obind (avr_uart_setup hw r (Some p) 1 0 s) (\<lambda>(ret, s1). Ok (ret, Some p, s1))))"

definition avr_earlycon_serial_write :: "nat \<Rightarrow> 'd hw8 \<Rightarrow> avr_uart_port option \<Rightarrow> u8 \<Rightarrow> 'd \<Rightarrow> (status_t \<times> 'd) outcome" where
  "avr_earlycon_serial_write fuel hw up c s =
     obind (avr_uart_tx fuel hw up c s) (\<lambda>(ret, s1). obind (avr_uart_tx_wait_till_done fuel hw up s1) (\<lambda>s2. Ok (ret, s2)))"

text \<open>The driver's variables. What happens while the processor sleeps is the parameter \<open>wfi\<close> on all of them.\<close>

record 'd avr_con =
  con_write_wait :: u8
  con_read_wait :: u8
  con_char :: u8
  ac_dev :: 'd

definition wait_on :: "nat \<Rightarrow> ('d avr_con \<Rightarrow> 'd avr_con) \<Rightarrow> ('d avr_con \<Rightarrow> u8) \<Rightarrow> 'd avr_con \<Rightarrow> (status_t \<times> 'd avr_con) outcome" where
  "wait_on fuel wfi lock s =
     obind (wait_till_irq fuel (\<lambda>(_, x). (lock (wfi x), wfi x)) (lock s, s)) (\<lambda>(r, _, s1). Ok (r, s1))"

definition avr_write_irq_handler :: "'d avr_con \<Rightarrow> 'd avr_con" where
  "avr_write_irq_handler s = s\<lparr>con_write_wait := snd (wait_release_on_irq (con_write_wait s))\<rparr>"

definition avr_console_serial_write ::
  "nat \<Rightarrow> ('d avr_con \<Rightarrow> 'd avr_con) \<Rightarrow> 'd hw8 \<Rightarrow> avr_uart_port option \<Rightarrow> u8 \<Rightarrow> 'd avr_con \<Rightarrow> (status_t \<times> 'd avr_con) outcome" where
  "avr_console_serial_write fuel wfi hw up c s =
     (case wait_lock (con_write_wait s) of (r1, w) \<Rightarrow>
      obind (avr_uart_tx fuel hw up c (ac_dev s)) (\<lambda>(r2, d).
      obind (wait_on fuel wfi con_write_wait (s\<lparr>con_write_wait := w, ac_dev := d\<rparr>)) (\<lambda>(r3, s1). Ok (r1 OR r2 OR r3, s1))))"

definition avr_read_irq_handler :: "'d hw8 \<Rightarrow> avr_uart_port option \<Rightarrow> 'd avr_con \<Rightarrow> 'd avr_con outcome" where
  "avr_read_irq_handler hw up s =
     (let s1 = s\<lparr>con_read_wait := snd (wait_release_on_irq (con_read_wait s))\<rparr>
      in obind (avr_uart_rx hw up (ac_dev s1)) (\<lambda>(_, x, d).
           Ok (s1\<lparr>ac_dev := d, con_char := (case x of None \<Rightarrow> con_char s1 | Some c \<Rightarrow> c)\<rparr>)))"

definition avr_console_serial_read ::
  "nat \<Rightarrow> ('d avr_con \<Rightarrow> 'd avr_con) \<Rightarrow> 'd avr_con \<Rightarrow> (status_t \<times> u8 \<times> 'd avr_con) outcome" where
  "avr_console_serial_read fuel wfi s =
     (case wait_lock (con_read_wait s) of (r1, w) \<Rightarrow>
      obind (wait_on fuel wfi con_read_wait (s\<lparr>con_read_wait := w\<rparr>)) (\<lambda>(r2, s1). Ok (r1 OR r2, con_char s1, s1)))"

section \<open>SPI\<close>

abbreviation (input) SPCR_OFFSET :: u16 where "SPCR_OFFSET \<equiv> 0"
abbreviation (input) SPSR_OFFSET :: u16 where "SPSR_OFFSET \<equiv> 1"
abbreviation (input) SPDR_OFFSET :: u16 where "SPDR_OFFSET \<equiv> 2"

record spi_port_t =
  spi_clk_id :: u16
  spi_fdiv :: u16
  spi_baddr :: u16
  spi_com_port :: u16
  spi_com_pins :: "u8 list"

definition spi_fdiv_bits :: "u16 \<Rightarrow> status_t \<times> u8" where
  "spi_fdiv_bits n =
     (if n = 4 then (success, 0) else if n = 16 then (success, 1) else if n = 64 then (success, 2)
      else if n = 128 then (success, 3) else (error_func_inval_arg, 0))"

text \<open>Allocating the four pins, then setting their modes; the ports are local variables with the contents \<open>fresh\<close>.\<close>

primrec spi_alloc_pins ::
  "resources \<Rightarrow> u8 \<Rightarrow> (u8 \<times> avr_gpio_port) list \<Rightarrow> status_t \<times> u8 list \<Rightarrow> (status_t \<times> avr_gpio_port option list \<times> u8 list) outcome" where
  "spi_alloc_pins r com [] = (\<lambda>(ret, ps). Ok (ret, [], ps))"
| "spi_alloc_pins r com (x # xs) = (\<lambda>(ret, ps).
     obind (avr_gpio_pin_alloc r (Some (snd x)) com (fst x) ps) (\<lambda>(st, p, ps1).
     obind (spi_alloc_pins r com xs (ret OR st, ps1)) (\<lambda>(ret1, rest, ps2). Ok (ret1, p # rest, ps2))))"

primrec spi_pin_modes :: "'d hw8 \<Rightarrow> (avr_gpio_port option \<times> u16) list \<Rightarrow> status_t \<times> 'd \<Rightarrow> status_t \<times> 'd" where
  "spi_pin_modes hw [] = (\<lambda>rs. rs)"
| "spi_pin_modes hw (x # xs) = (\<lambda>(ret, d). case avr_gpio_pin_mode hw (fst x) (snd x) d of (st, d1) \<Rightarrow> spi_pin_modes hw xs (ret OR st, d1))"

definition spi_setup ::
  "u8 \<Rightarrow> u16 list \<Rightarrow> 'd hw8 \<Rightarrow> resources \<Rightarrow> avr_gpio_port list \<Rightarrow> spi_port_t option \<Rightarrow> bool \<Rightarrow> bool \<Rightarrow> bool \<Rightarrow> u8 list \<times> 'd
     \<Rightarrow> (status_t \<times> u8 list \<times> 'd) outcome" where
  "spi_setup role modes hw r fresh sp df_format cpol cpha s =
     (case sp of
        None \<Rightarrow> Ok (error_inval_pointer, s)
      | Some p \<Rightarrow>
          let d = snd (platform_clk_en hw (spi_clk_id p) (snd s));
              (ret, sel) = spi_fdiv_bits (spi_fdiv p);
              spcr = role OR sel OR (if df_format then bit8 5 else 0) OR (if cpol then bit8 3 else 0) OR (if cpha then bit8 2 else 0)
          in obind (spi_alloc_pins r (ucast (spi_com_port p)) (zip (spi_com_pins p) fresh) (ret, fst s)) (\<lambda>(ret1, gs, ps).
             case spi_pin_modes hw (zip gs modes) (ret1, d) of (ret2, d1) \<Rightarrow>
               Ok (ret2, ps, wr8 hw (spi_baddr p OR SPCR_OFFSET) spcr d1)))"

definition spi_master_setup ::
  "'d hw8 \<Rightarrow> resources \<Rightarrow> avr_gpio_port list \<Rightarrow> spi_port_t option \<Rightarrow> bool \<Rightarrow> bool \<Rightarrow> bool \<Rightarrow> u8 list \<times> 'd \<Rightarrow> (status_t \<times> u8 list \<times> 'd) outcome" where
  "spi_master_setup = spi_setup (bit8 6 OR bit8 4) [1, 2, 1, 1]"

definition spi_slave_setup ::
  "'d hw8 \<Rightarrow> resources \<Rightarrow> avr_gpio_port list \<Rightarrow> spi_port_t option \<Rightarrow> bool \<Rightarrow> bool \<Rightarrow> bool \<Rightarrow> u8 list \<times> 'd \<Rightarrow> (status_t \<times> u8 list \<times> 'd) outcome" where
  "spi_slave_setup = spi_setup (bit8 6) [2, 1, 2, 2]"

definition spi_flag :: "nat \<Rightarrow> 'd hw8 \<Rightarrow> spi_port_t option \<Rightarrow> 'd \<Rightarrow> (bool \<times> 'd) outcome" where
  "spi_flag n hw sp s =
     (case sp of
        None \<Rightarrow> Fault Assert_failed
      | Some p \<Rightarrow> (case rd8 hw (spi_baddr p + SPSR_OFFSET) s of (x, s1) \<Rightarrow> Ok (x AND bit8 n \<noteq> 0, s1)))"

definition spi_wcol_error :: "'d hw8 \<Rightarrow> spi_port_t option \<Rightarrow> 'd \<Rightarrow> (bool \<times> 'd) outcome" where
  "spi_wcol_error = spi_flag 6"

definition spi_trx_done :: "'d hw8 \<Rightarrow> spi_port_t option \<Rightarrow> 'd \<Rightarrow> (bool \<times> 'd) outcome" where
  "spi_trx_done = spi_flag 7"

definition spi_int_en :: "'d hw8 \<Rightarrow> spi_port_t option \<Rightarrow> 'd \<Rightarrow> status_t \<times> 'd" where
  "spi_int_en hw sp s =
     (case sp of None \<Rightarrow> (error_inval_pointer, s) | Some p \<Rightarrow> (success, or8 hw (spi_baddr p + SPCR_OFFSET) (bit8 7) s))"

definition spi_int_dis :: "'d hw8 \<Rightarrow> spi_port_t option \<Rightarrow> 'd \<Rightarrow> status_t \<times> 'd" where
  "spi_int_dis hw sp s =
     (case sp of None \<Rightarrow> (error_inval_pointer, s) | Some p \<Rightarrow> (success, and8 hw (spi_baddr p + SPCR_OFFSET) (NOT (bit8 7)) s))"

definition spi_tx :: "'d hw8 \<Rightarrow> spi_port_t option \<Rightarrow> u8 \<Rightarrow> 'd \<Rightarrow> status_t \<times> 'd" where
  "spi_tx hw sp c s =
     (case sp of None \<Rightarrow> (error_inval_pointer, s) | Some p \<Rightarrow> (success, wr8 hw (spi_baddr p + SPDR_OFFSET) c s))"

text \<open>The flag says whether the pointer for the data is not NULL.\<close>

definition spi_rx :: "'d hw8 \<Rightarrow> spi_port_t option \<Rightarrow> bool \<Rightarrow> 'd \<Rightarrow> status_t \<times> u8 option \<times> 'd" where
  "spi_rx hw sp nn s =
     (case sp of
        None \<Rightarrow> (error_inval_pointer, None, s)
      | Some p \<Rightarrow> if \<not> nn then (error_inval_pointer, None, s)
                  else (case rd8 hw (spi_baddr p + SPDR_OFFSET) s of (x, s1) \<Rightarrow> (success, Some x, s1)))"

section \<open>Polling\<close>

definition reads8 :: "'d hw8 \<Rightarrow> u16 \<Rightarrow> nat \<Rightarrow> 'd \<Rightarrow> 'd" where
  "reads8 hw a k s = ((\<lambda>s. snd (rd8 hw a s)) ^^ k) s"

lemma reads8_0 [simp]: "reads8 hw a 0 s = s"
  by (simp add: reads8_def)

lemma reads8_Suc: "reads8 hw a (Suc k) s = reads8 hw a k (snd (rd8 hw a s))"
  by (simp add: reads8_def funpow_Suc_right del: funpow.simps)

text \<open>A poll that finds a value to stop at within its fuel returns after the load of such a value.\<close>

lemma poll8_returns:
  assumes "k < fuel" and "\<not> P (fst (rd8 hw a (reads8 hw a k s)))"
  shows "\<exists>j \<le> k. poll8 fuel hw a P s = Ok (snd (rd8 hw a (reads8 hw a j s))) \<and> \<not> P (fst (rd8 hw a (reads8 hw a j s)))"
  using assms
proof (induction fuel arbitrary: k s)
  case (Suc fuel)
  show ?case
  proof (cases "P (fst (rd8 hw a s))")
    case True
    then obtain k' where k: "k = Suc k'" using Suc.prems(2) by (cases k) auto
    obtain j where j: "j \<le> k'" "poll8 fuel hw a P (snd (rd8 hw a s)) = Ok (snd (rd8 hw a (reads8 hw a (Suc j) s)))"
        "\<not> P (fst (rd8 hw a (reads8 hw a (Suc j) s)))"
      using Suc.IH [of k' "snd (rd8 hw a s)"] Suc.prems by (auto simp: k reads8_Suc)
    then show ?thesis using True by (intro exI [of _ "Suc j"]) (simp add: k case_prod_unfold)
  next
    case False
    then show ?thesis by (intro exI [of _ 0]) (simp add: case_prod_unfold)
  qed
qed simp

section \<open>Output\<close>

text \<open>What the driver relies on of the transmitter at \<open>b\<close>, where \<open>sent\<close> is what has left it: loads and stores of the status register
  send nothing; the empty flag comes up within \<open>n\<close> loads; a byte stored when it was up is sent, and the complete flag comes
  up within \<open>n\<close> loads after that.\<close>

definition tx8_hw :: "'d hw8 \<Rightarrow> u16 \<Rightarrow> ('d \<Rightarrow> u8 list) \<Rightarrow> nat \<Rightarrow> bool" where
  "tx8_hw hw b sent n \<longleftrightarrow>
     (\<forall>s. sent (snd (rd8 hw b s)) = sent s) \<and> (\<forall>s v. sent (wr8 hw b v s) = sent s)
     \<and> (\<forall>s. \<exists>k < n. bit (fst (rd8 hw b (reads8 hw b k s))) 5)
     \<and> (\<forall>s v. bit (fst (rd8 hw b s)) 5 \<longrightarrow> sent (wr8 hw (b + 6) v (snd (rd8 hw b s))) = sent s @ [v])
     \<and> (\<forall>s v. \<exists>k < n. bit (fst (rd8 hw b (reads8 hw b k (wr8 hw (b + 6) v s)))) 6)"

lemma tx8_hw_reads: "tx8_hw hw b sent n \<Longrightarrow> sent (reads8 hw b k s) = sent s"
  by (induction k arbitrary: s) (simp_all add: tx8_hw_def reads8_Suc)

lemma flag_bit: "(x AND bit8 n = 0) \<longleftrightarrow> \<not> bit x n"
  by (simp add: bit8_def bit_iff_and_push_bit_not_eq_0)

lemma flag_shift: "(drop_bit 5 (x :: u8) AND 1 = 0) \<longleftrightarrow> \<not> bit x 5"
  by (simp add: and_one_eq even_iff_mod_2_eq_zero [symmetric] even_drop_bit_iff_not_bit)

lemma avr_uart_tx_sends:
  assumes "tx8_hw hw (au_baddr p) sent n" and "n \<le> fuel"
  shows "\<exists>s'. avr_uart_tx fuel hw (Some p) c s = Ok (success, wr8 hw (au_baddr p + UDR_OFFSET) c s')
    \<and> sent (wr8 hw (au_baddr p + UDR_OFFSET) c s') = sent s @ [c]"
proof -
  obtain k where "k < n" "bit (fst (rd8 hw (au_baddr p) (reads8 hw (au_baddr p) k s))) 5" using assms(1) unfolding tx8_hw_def by blast
  then obtain j where j: "poll8 fuel hw (au_baddr p) (\<lambda>x. drop_bit 5 x AND 1 = 0) s = Ok (snd (rd8 hw (au_baddr p) (reads8 hw (au_baddr p) j s)))"
      "bit (fst (rd8 hw (au_baddr p) (reads8 hw (au_baddr p) j s))) 5"
    using poll8_returns [of k fuel "\<lambda>x. drop_bit 5 x AND 1 = 0" hw "au_baddr p" s] assms(2) by (auto simp: flag_shift)
  then show ?thesis
    using assms(1) tx8_hw_reads [OF assms(1), of j s] by (auto simp: avr_uart_tx_def tx8_hw_def)
qed

interpretation avr_early: char_sink "avr_earlycon_serial_write fuel hw (Some p)" "\<lambda>s. tx8_hw hw (au_baddr p) sent fuel" sent
  "\<lambda>c h. h @ [c]" "\<lambda>_. ()" for fuel hw p sent
proof (unfold_locales, goal_cases)
  case (1 s c)
  let ?b = "au_baddr p"
  obtain s1 where s1: "avr_uart_tx fuel hw (Some p) c s = Ok (success, wr8 hw (?b + 6) c s1)" "sent (wr8 hw (?b + 6) c s1) = sent s @ [c]"
    using avr_uart_tx_sends [OF 1, of fuel c s] by auto
  let ?s = "wr8 hw (?b + 6) c s1"
  obtain k where "k < fuel" "bit (fst (rd8 hw ?b (reads8 hw ?b k ?s))) 6" using 1 unfolding tx8_hw_def by blast
  then obtain j where j: "poll8 fuel hw ?b (\<lambda>x. x AND bit8 6 = 0) ?s = Ok (snd (rd8 hw ?b (reads8 hw ?b j ?s)))"
    using poll8_returns [of k fuel "\<lambda>x. x AND bit8 6 = 0" hw ?b ?s] by (auto simp: flag_bit)
  have "sent (or8 hw ?b (bit8 6) (snd (rd8 hw ?b (reads8 hw ?b j ?s)))) = sent ?s"
    using 1 tx8_hw_reads [OF 1, of j ?s] by (simp add: upd8_def case_prod_unfold tx8_hw_def)
  then show ?case using s1 j 1 by (simp add: avr_earlycon_serial_write_def avr_uart_tx_wait_till_done_def)
qed

text \<open>The early console of the AVR delivers text: writing a string byte by byte returns, and the bytes that leave the transmitter are
  the string, in order, when the flags of the transmitter come up within the given number of polls.\<close>

theorem avr_earlycon_delivers:
  assumes "tx8_hw hw (au_baddr p) sent fuel"
  shows "\<exists>s'. puts (avr_earlycon_serial_write fuel hw (Some p)) cs s = Ok s' \<and> sent s' = sent s @ cs"
  using avr_early.puts_ok [where cs = cs, OF assms, of s] by (auto simp: fold_snoc)

text \<open>A transmitter that is always ready and remembers what was stored to its data register.\<close>

definition ready_tx :: "u16 \<Rightarrow> u8 list hw8" where
  "ready_tx b = \<lparr>rd8 = (\<lambda>a s. (0x60, s)), wr8 = (\<lambda>a v s. if a = b + 6 then s @ [v] else s)\<rparr>"

lemma ready_tx_hw: "tx8_hw (ready_tx b) b (\<lambda>s. s) 1"
  by (simp add: tx8_hw_def ready_tx_def bit_word_iff_drop_bit_and)

theorem avr_earlycon_delivers_witness:
  "\<exists>s'. puts (avr_earlycon_serial_write 1 (ready_tx 0xc0)
       (Some \<lparr>au_clk_id = 1, au_baud = 115200, au_baddr = 0xc0, au_tx_irq = None, au_tx_handler = 0, au_rx_irq = None, au_rx_handler = 0\<rparr>))
     [0x6f, 0x6b] [] = Ok s' \<and> s' = [0x6f, 0x6b]"
  using avr_earlycon_delivers [where hw = "ready_tx 0xc0" and sent = "\<lambda>s. s" and fuel = 1 and s = "[]" and cs = "[0x6f, 0x6b]"
      and p = "\<lparr>au_clk_id = 1, au_baud = 115200, au_baddr = 0xc0, au_tx_irq = None, au_tx_handler = 0, au_rx_irq = None, au_rx_handler = 0\<rparr>"]
    ready_tx_hw
  by simp

section \<open>Input\<close>

text \<open>Waiting on a flag: when the handler that clears it runs within \<open>fuel\<close> sleeps, the wait ends with the state after that sleep.\<close>

lemma wait_on_returns:
  assumes "n < fuel" and "\<forall>i < n. lock ((wfi ^^ Suc i) s) = 1" and "lock ((wfi ^^ Suc n) s) \<noteq> 1"
  shows "wait_on fuel wfi lock s = Ok (success, (wfi ^^ Suc n) s)"
proof -
  have "wait_till_irq fuel (\<lambda>(_, x). (lock (wfi x), wfi x)) (w, s) = Ok (success, lock ((wfi ^^ Suc n) s), (wfi ^^ Suc n) s)" for w
    using assms
  proof (induction fuel arbitrary: n s w)
    case (Suc fuel)
    show ?case
    proof (cases n)
      case 0
      then show ?thesis using Suc.prems by simp
    next
      case (Suc m)
      have "lock (wfi s) = 1" using Suc.prems(2) Suc by (auto dest: spec [of _ 0])
      moreover have "\<forall>i < m. lock ((wfi ^^ Suc i) (wfi s)) = 1" "lock ((wfi ^^ Suc m) (wfi s)) \<noteq> 1" "m < fuel"
        using Suc.prems Suc by (auto simp: funpow_swap1)
      ultimately show ?thesis using Suc.IH [of m "wfi s" 1] by (simp add: Suc funpow_swap1)
    qed
  qed simp
  then show ?thesis by (simp add: wait_on_def)
qed

text \<open>A read sleeps until the receive interrupt, however many other interrupts come before it (\<open>other\<close>, which leave the flag alone),
  and returns the byte that the handler took from the data register then; the byte that was in \<open>con_char\<close> before is not
  returned.\<close>

lemma avr_console_read_next:
  assumes "n < fuel" and "\<forall>x. con_read_wait (other x) = con_read_wait x"
    and s0: "s0 = s\<lparr>con_read_wait := 1\<rparr>" and "\<forall>i < n. wfi ((other ^^ i) s0) = other ((other ^^ i) s0)"
    and h: "avr_read_irq_handler hw up ((other ^^ n) s0) = Ok s1" and "wfi ((other ^^ n) s0) = s1"
  shows "avr_console_serial_read fuel wfi s = Ok (success, con_char s1, s1)"
proof -
  have w: "(wfi ^^ i) s0 = (other ^^ i) s0" if "i \<le> n" for i
    using that assms(4) by (induction i) auto
  have l: "con_read_wait ((other ^^ i) s0) = 1" for i using assms(2) s0 by (induction i) auto
  have "(wfi ^^ Suc n) s0 = s1" using assms(6) w [of n] by simp
  moreover have "con_read_wait s1 = 0"
    using h by (auto simp: avr_read_irq_handler_def Let_def outcome_simps wait_release_on_irq_def)
  moreover have "\<forall>i < n. con_read_wait ((wfi ^^ Suc i) s0) = 1" using w l by (metis Suc_leI)
  ultimately have "wait_on fuel wfi con_read_wait s0 = Ok (success, s1)"
    using wait_on_returns [OF assms(1), of con_read_wait wfi s0] by simp
  then show ?thesis by (simp add: avr_console_serial_read_def wait_lock_def s0)
qed

section \<open>The baud rate\<close>

text \<open>The divisor is rounded to the nearest: the rate it gives, \<open>clk / (16 (v + 1))\<close>, misses the clock by at most half a step.\<close>

lemma BAUD_RATE_VALUE_nearest:
  assumes "0 < unat x" and "8 * unat x \<le> unat clk" and "unat clk + 8 * unat x < 2 ^ 32" and "16 * unat x < 2 ^ 32"
    and "unat clk div (16 * unat x) < 65536"
  shows "\<bar>int (16 * unat x * (unat (BAUD_RATE_VALUE clk x) + 1)) - int (unat clk)\<bar> \<le> int (8 * unat x)"
proof -
  let ?q = "(unat clk + 8 * unat x) div (16 * unat x)"
  have sh: "unat (push_bit 3 x) = 8 * unat x" "unat (push_bit 4 x) = 16 * unat x"
    using assms(3,4) by (simp_all add: push_bit_eq_mult unat_word_ariths)
  have q: "unat ((clk + push_bit 3 x) div push_bit 4 x) = ?q"
    using assms(3) sh by (simp add: unat_div unat_word_ariths)
  have q1: "1 \<le> ?q" using assms(1,2) by (simp add: Suc_le_eq div_greater_zero_iff)
  have "unat clk + 8 * unat x < 16 * unat x * (unat clk div (16 * unat x)) + 16 * unat x + 16 * unat x"
    using mod_less_divisor [of "16 * unat x" "unat clk"] mult_div_mod_eq [of "16 * unat x" "unat clk"] assms(1) by linarith
  then have "?q < unat clk div (16 * unat x) + 2"
    using assms(1) by (simp add: less_mult_imp_div_less algebra_simps)
  then have "?q - 1 < 65536" using assms(5) by linarith
  moreover have "(clk + push_bit 3 x) div push_bit 4 x \<noteq> 0" using q q1 by (metis not_one_le_zero unat_0)
  ultimately have v: "unat (BAUD_RATE_VALUE clk x) = ?q - 1"
    using q unat_minus_one [of "(clk + push_bit 3 x) div push_bit 4 x"] by (simp add: BAUD_RATE_VALUE_def ucast_small_nat)
  have "16 * unat x * ?q \<le> unat clk + 8 * unat x" "unat clk + 8 * unat x < 16 * unat x * ?q + 16 * unat x"
    using mult_div_mod_eq [of "16 * unat x" "unat clk + 8 * unat x"] mod_less_divisor [of "16 * unat x" "unat clk + 8 * unat x"] assms(1)
    by linarith+
  moreover have "unat (BAUD_RATE_VALUE clk x) + 1 = ?q" using v q1 by simp
  ultimately show ?thesis by (simp only: \<open>unat (BAUD_RATE_VALUE clk x) + 1 = ?q\<close>)
qed

end
