(* ===== verification/Avr_Clock.thy ===== *)
theory Avr_Clock
  imports Avr_Timer Sched_Clock
begin

text \<open>
  The scheduler clock of the Mega-AVR platform (\<open>driver/schedclk/schedclk_mega_avr\<close>) behind the engine of \<open>Sched_Clock\<close>, and the
  cause of a reset (\<open>platform/platform_reset.c\<close>). Time is counted in timer interrupts. \<open>unsigned int\<close> and \<open>size_t\<close> have 16 bits.
\<close>

section \<open>The driver\<close>

abbreviation (input) PS :: u16 where "PS \<equiv> 4"
abbreviation (input) PSVALUE :: u64 where "PSVALUE \<equiv> 256"

text \<open>The allocated objects, named where they are freed.\<close>

datatype tmr_obj = Tport | Timer_port

record 'd avr_tmr =
  at_cb :: handler
  at_tport :: "timer_port_t option"
  at_ticks :: u64
  at_cntr :: u64
  at_tm :: "module_t option"
  at_irq :: "'d irq_dev"
  at_freed :: "tmr_obj list"

text \<open>The handler's call of the callback: what a callback does is the parameter \<open>run\<close>.\<close>

definition avr_tmr_isr :: "(handler \<Rightarrow> 'd avr_tmr \<Rightarrow> 'd avr_tmr outcome) \<Rightarrow> 'd avr_tmr \<Rightarrow> 'd avr_tmr outcome" where
  "avr_tmr_isr run s =
     (let s1 = s\<lparr>at_cntr := at_cntr s + at_ticks s\<rparr>
      in if at_cb s1 \<noteq> no_handler then run (at_cb s1) s1 else Ok s1)"

definition avr_timer_reg_cb :: "handler \<Rightarrow> 'd avr_tmr \<Rightarrow> 'd avr_tmr" where
  "avr_timer_reg_cb cb s = s\<lparr>at_cb := cb\<rparr>"

definition avr_get_timer_prop :: "resources \<Rightarrow> 'd avr_tmr \<Rightarrow> (status_t \<times> 'd avr_tmr) outcome" where
  "avr_get_timer_prop r s =
     obind (visor_fetch r fetch_sp sched_timer 0) (\<lambda>v.
       if vr_status v \<noteq> success then Ok (vr_status v, s)
       else case vr_p v of
              P_swdev sp \<Rightarrow>
                obind (visor_fetch r fetch_dp (hwdev_id sp AND 0xff00) (hwdev_id sp AND 0xff)) (\<lambda>w.
                  if vr_status w \<noteq> success then Ok (vr_status w, s)
                  else case vr_p w of P_module m \<Rightarrow> Ok (success, s\<lparr>at_tm := Some m\<rparr>) | _ \<Rightarrow> Fault Null_deref)
            | _ \<Rightarrow> Fault Null_deref)"

definition avr_timer_ticks_msec :: "u64 \<Rightarrow> u64" where
  "avr_timer_ticks_msec freq = freq div (2 * PSVALUE) div 1000"

definition avr_timer_set_period :: "'d hw8 \<Rightarrow> u16 \<Rightarrow> 'd avr_tmr \<Rightarrow> 'd avr_tmr outcome" where
  "avr_timer_set_period hw p s =
     (case (at_tm s, at_tport s) of
        (Some m, Some tp) \<Rightarrow>
          let n = avr_timer_ticks_msec (ucast (mod_clk m)) * ucast p - 1;
              tp1 = tp\<lparr>tm_value := ucast n\<rparr>
          in obind (timer_setup hw (Some tp1) 2 PS (at_irq s)) (\<lambda>(_, i). Ok (s\<lparr>at_ticks := n, at_tport := Some tp1, at_irq := i\<rparr>))
      | _ \<Rightarrow> Fault Null_deref)"

definition avr_read_ticks :: "'d avr_tmr \<Rightarrow> (u64 \<times> 'd avr_tmr) outcome" where
  "avr_read_ticks s = Ok (at_cntr s, s)"

definition avr_read_time :: "'d avr_tmr \<Rightarrow> (u64 \<times> 'd avr_tmr) outcome" where
  "avr_read_time s =
     (case at_tport s of
        None \<Rightarrow> Fault Null_deref
      | Some tp \<Rightarrow>
          let d = push_bit 1 (tm_value tp + 1)
          in require (d \<noteq> 0) Div_by_zero (Ok (push_bit 10 (at_cntr s) div ucast d, s)))"

definition avr_timer_port :: "'d hw8 \<Rightarrow> 'd avr_tmr schedclk_t" where
  "avr_timer_port hw =
     \<lparr>sc_read_ticks = avr_read_ticks, sc_read_time = avr_read_time, sc_set_period = (\<lambda>p. avr_timer_set_period hw (ucast p)),
      sc_reg_cb = avr_timer_reg_cb\<rparr>"

definition avr_timer_exit ::
  "'d hw8 \<Rightarrow> u32 \<Rightarrow> 'd avr_tmr schedclk_core \<times> 'd avr_tmr \<Rightarrow> (status_t \<times> 'd avr_tmr schedclk_core \<times> 'd avr_tmr) outcome" where
  "avr_timer_exit hw core = (\<lambda>(c, s).
     obind (timer_shutdown hw (at_tport s) (at_irq s)) (\<lambda>(r1, i).
       let s1 = s\<lparr>at_irq := i, at_ticks := 0, at_cb := no_handler\<rparr>
       in case at_tport s1 of
            None \<Rightarrow> Fault Null_deref
          | Some tp \<Rightarrow>
              let s2 = s1\<lparr>at_tport := Some \<lparr>tm_port_id = 0, tm_clk_id = 0, tm_baddr = 0, tm_value = 0, tm_irq = 0, tm_handler = 0\<rparr>\<rparr>
              in case schedclk_release_device core c of (r2, c1) \<Rightarrow>
                   Ok (r1 OR r2, c1, s2\<lparr>at_freed := at_freed s2 @ [Tport, Timer_port]\<rparr>)))"

abbreviation (input) avr_tmr_isr_ptr :: avr_handler where "avr_tmr_isr_ptr \<equiv> 5"

text \<open>\<open>fresh\<close>: what \<open>malloc\<close> returns for the timer port, with arbitrary contents; \<open>alloc\<close>: whether it returns memory for the driver.\<close>

definition avr_timer_setup ::
  "'d hw8 \<Rightarrow> u32 \<Rightarrow> resources \<Rightarrow> timer_port_t option \<Rightarrow> bool \<Rightarrow> 'd avr_tmr schedclk_core \<times> 'd avr_tmr
     \<Rightarrow> (status_t \<times> 'd avr_tmr schedclk_core \<times> 'd avr_tmr) outcome" where
  "avr_timer_setup hw core r fresh alloc = (\<lambda>(c, s).
     obind (avr_get_timer_prop r s) (\<lambda>(ret, s0).
       case fresh of
         None \<Rightarrow> Ok (error_memory_low, c, s0\<lparr>at_tport := None\<rparr>)
       | Some tp0 \<Rightarrow>
           let s1 = s0\<lparr>at_tport := Some tp0\<rparr>;
               free_again = (\<lambda>ret (c :: 'd avr_tmr schedclk_core, s :: 'd avr_tmr).
                  Ok (ret, c, if at_tport s \<noteq> None then s\<lparr>at_freed := at_freed s @ [Tport]\<rparr> else s))
           in if \<not> alloc then Ok (error_memory_low, c, s1)
              else case at_tm s1 of
                     None \<Rightarrow> Fault Null_deref
                   | Some m \<Rightarrow>
                       if mod_clk m = 0 then free_again error_system_clk_caliberation (c, s1)
                       else case interrupt m of
                              [] \<Rightarrow> Fault Out_of_bounds
                            | q # _ \<Rightarrow>
                                let tp = tp0\<lparr>tm_port_id := ucast (mod_id m), tm_clk_id := ucast (mod_clk_id m), tm_baddr := ucast (mod_baddr m),
                                             tm_irq := ucast (irq_id q), tm_handler := avr_tmr_isr_ptr\<rparr>
                                in obind (timer_setup hw (Some tp) 2 PS (at_irq s1)) (\<lambda>(r1, i).
                                   let s2 = s1\<lparr>at_tport := Some tp, at_irq := i\<rparr>; ret1 = ret OR r1
                                   in if ret1 \<noteq> success
                                      then obind (avr_timer_exit hw core (c, s2)) (\<lambda>(_, cs). free_again ret1 cs)
                                      else obind (avr_timer_set_period hw 1 s2) (\<lambda>s3.
                                           case schedclk_attach_device core ret1 (Some (avr_timer_port hw)) c of (r2, c1) \<Rightarrow>
                                             if r2 = success then Ok (r2, c1, s3)
                                             else obind (avr_timer_exit hw core (c1, s3)) (\<lambda>(_, cs). free_again r2 cs)))))"

section \<open>The cause of a reset\<close>

datatype avr_reset_t = avr_not_reset | avr_power_on_reset | avr_external_reset | avr_brownout_reset | avr_wdog_reset | avr_inval_reset

definition avr_get_reset_syndrome :: "u8 \<Rightarrow> avr_reset_t" where
  "avr_get_reset_syndrome v =
     (if v = 0 then avr_not_reset
      else if v AND 1 \<noteq> 0 then avr_power_on_reset
      else if v AND 2 \<noteq> 0 then avr_external_reset
      else if v AND 4 \<noteq> 0 then avr_brownout_reset
      else if v AND 8 \<noteq> 0 then avr_wdog_reset
      else avr_inval_reset)"

text \<open>The handlers for a brown-out and for the watchdog panic, as the last branch does.\<close>

definition avr_reset_handler :: "avr_reset_t \<Rightarrow> unit outcome" where
  "avr_reset_handler rsyn =
     (if rsyn \<in> {avr_not_reset, avr_power_on_reset, avr_external_reset} then Ok () else Fault (Panic error_system))"

text \<open>\<open>reset_syndrome = MMIO8(MCUSR) & 0x1f; MMIO8(MCUSR) = 0\<close> in \<open>platform_early_setup\<close>.\<close>

definition avr_capture_reset :: "'d hw8 \<Rightarrow> 'd \<Rightarrow> u8 \<times> 'd" where
  "avr_capture_reset hw s = (case rd8 hw MCUSR s of (x, s1) \<Rightarrow> (x AND 0x1f, wr8 hw MCUSR 0 s1))"

section \<open>Time\<close>

text \<open>\<open>k\<close> timer interrupts with no callback.\<close>

primrec isrs :: "nat \<Rightarrow> 'd avr_tmr \<Rightarrow> 'd avr_tmr outcome" where
  "isrs 0 s = Ok s"
| "isrs (Suc k) s = obind (avr_tmr_isr (\<lambda>_. Ok) s) (isrs k)"

lemma isrs_count: "isrs k s = Ok (s\<lparr>at_cntr := at_cntr s + of_nat k * at_ticks s\<rparr>)"
  by (induction k arbitrary: s) (simp_all add: avr_tmr_isr_def Let_def algebra_simps)

text \<open>The number of timer ticks in a period.\<close>

definition period_ticks :: "module_t \<Rightarrow> u16 \<Rightarrow> nat" where
  "period_ticks m p = unat (mod_clk m) div 512 div 1000 * unat p"

lemma ticks_msec_unat: "unat (avr_timer_ticks_msec (ucast (x :: u32))) = unat x div 512 div 1000"
  by (simp add: avr_timer_ticks_msec_def unat_div unat_ucast_up)

lemma period_ticks_bound: "period_ticks m p < 2 ^ 48"
proof -
  have "unat (mod_clk m) div 512 div 1000 \<le> unat (mod_clk m)" by (simp add: div_le_dividend le_trans)
  then have "unat (mod_clk m) div 512 div 1000 < 2 ^ 32" using unsigned_less [of "mod_clk m", where 'a = nat] by simp
  then have "period_ticks m p < 2 ^ 32 * 2 ^ 16"
    unfolding period_ticks_def using unsigned_less [of p, where 'a = nat] by (intro mult_strict_mono) simp_all
  then show ?thesis by simp
qed

lemma set_period_ticks:
  assumes "avr_timer_set_period hw p s = Ok s1" and "at_tm s = Some m" and "0 < period_ticks m p"
  shows "unat (at_ticks s1) = period_ticks m p - 1" and "at_cntr s1 = at_cntr s"
    and "\<exists>tp. at_tport s1 = Some tp \<and> tm_value tp = ucast (at_ticks s1)"
proof -
  let ?w = "avr_timer_ticks_msec (ucast (mod_clk m)) * ucast p"
  have w: "unat ?w = period_ticks m p"
    using period_ticks_bound [of m p] by (simp add: unat_word_ariths ticks_msec_unat period_ticks_def unat_ucast_up)
  then have "?w \<noteq> 0" using assms(3) by auto
  then have "unat (?w - 1) = period_ticks m p - 1" using w unat_minus_one [of ?w] by simp
  then show "unat (at_ticks s1) = period_ticks m p - 1" and "at_cntr s1 = at_cntr s"
    and "\<exists>tp. at_tport s1 = Some tp \<and> tm_value tp = ucast (at_ticks s1)"
    using assms(1,2) by (auto simp: avr_timer_set_period_def Let_def outcome_simps split: option.splits)
qed

text \<open>The time that the AVR's scheduler clock reports after \<open>k\<close> timer interrupts of a period of \<open>p\<close> milliseconds: about 512 for each
  interrupt, and never more, whatever the period is (in microseconds it ought to be \<open>1000 * p\<close> for each).\<close>

theorem avr_time_per_interrupt:
  assumes set: "avr_timer_set_period hw p s = Ok s1" and m: "at_tm s = Some m" and z: "at_cntr s = 0"
    and n: "n = period_ticks m p" "0 < n" "n < 2 ^ 15" and k: "1024 * k * n < 2 ^ 64"
  shows "\<exists>s2 t. isrs k s1 = Ok s2 \<and> avr_read_time s2 = Ok (of_nat t, s2) \<and> t = 512 * k * (n - 1) div n \<and> t \<le> 512 * k"
proof -
  note st = set_period_ticks [OF set m]
  obtain tp where tp: "at_tport s1 = Some tp" "tm_value tp = ucast (at_ticks s1)" using st(3) n by auto
  have u: "unat (at_ticks s1) = n - 1" using st(1) n(1,2) by simp
  have "of_nat (unat (at_ticks s1)) = at_ticks s1" by simp
  then have ticks: "at_ticks s1 = of_nat (n - 1)" unfolding u by simp
  have v: "unat (tm_value tp) = n - 1" using st(1) n tp(2) by (simp add: ucast_small_nat)
  have d: "unat (push_bit 1 (tm_value tp + 1)) = 2 * n"
    using v n(2,3) by (simp add: push_bit_eq_mult unat_word_ariths)
  let ?s2 = "s1\<lparr>at_cntr := at_cntr s1 + of_nat k * at_ticks s1\<rparr>" and ?c = "k * (n - 1)"
  have cn: "at_cntr ?s2 = of_nat ?c" using st(2) n z by (simp add: ticks)
  have lt: "1024 * ?c < 2 ^ 64" using k by (rule le_less_trans [rotated]) simp
  have c: "unat (push_bit 10 (at_cntr ?s2)) = 1024 * ?c"
  proof -
    have "push_bit 10 (of_nat ?c :: u64) = of_nat (1024 * ?c)" by (simp add: push_bit_eq_mult)
    then show ?thesis unfolding cn using lt by (simp add: unat_of_nat del: of_nat_mult)
  qed
  have "avr_read_time ?s2 = Ok (of_nat (1024 * ?c div (2 * n)), ?s2)"
  proof -
    have "push_bit 1 (tm_value tp + 1) \<noteq> 0" using d n(2) by auto
    moreover have "push_bit 10 (at_cntr ?s2) div ucast (push_bit 1 (tm_value tp + 1)) = (of_nat (1024 * ?c div (2 * n)) :: u64)"
    proof (rule word_unat_eq_iff [THEN iffD2])
      have "1024 * ?c div (2 * n) < 2 ^ 64" using lt by (rule le_less_trans [OF div_le_dividend])
      then show "unat (push_bit 10 (at_cntr ?s2) div ucast (push_bit 1 (tm_value tp + 1))) = unat (of_nat (1024 * ?c div (2 * n)) :: u64)"
        using c d by (simp add: unat_div unat_of_nat unat_ucast_up)
    qed
    ultimately show ?thesis using tp(1) by (simp add: avr_read_time_def Let_def)
  qed
  moreover have "1024 * ?c div (2 * n) = 512 * k * (n - 1) div n"
    using div_mult_mult1 [of 2 "512 * ?c" n] by (simp add: mult.assoc)
  moreover have "512 * k * (n - 1) div n \<le> 512 * k" using n(2) by (metis div_le_mono div_mult_self_is_m diff_le_self mult_le_mono2)
  ultimately show ?thesis using isrs_count [of k s1] by auto
qed

theorem avr_time_per_interrupt_witness:
  "\<exists>s1 s2. avr_timer_set_period plain8 2
       \<lparr>at_cb = no_handler, at_tport = Some \<lparr>tm_port_id = 0x7000, tm_clk_id = 5, tm_baddr = 0x44, tm_value = 0, tm_irq = 14, tm_handler = 0\<rparr>,
        at_ticks = 0, at_cntr = 0, at_tm = Some (atmega328p_modules 16000000 ! 2), at_irq = ([], \<lambda>_. 0), at_freed = []\<rparr> = Ok s1
     \<and> isrs 100 s1 = Ok s2 \<and> avr_read_time s2 = Ok (50374, s2)"
proof -
  let ?s = "\<lparr>at_cb = no_handler, at_tport = Some \<lparr>tm_port_id = 0x7000, tm_clk_id = 5, tm_baddr = 0x44, tm_value = 0, tm_irq = 14, tm_handler = 0\<rparr>,
    at_ticks = 0, at_cntr = 0, at_tm = Some (atmega328p_modules 16000000 ! 2), at_irq = ([], \<lambda>_ :: u16. 0 :: u8), at_freed = []\<rparr>"
  obtain s1 where s1: "avr_timer_set_period plain8 2 ?s = Ok s1"
    by (simp add: avr_timer_set_period_def Let_def timer_setup_def is_timer8_def platform_clk_en_def atmega328p_modules_def)
  have n: "period_ticks (atmega328p_modules 16000000 ! 2) 2 = 62"
    by (simp add: period_ticks_def atmega328p_modules_def)
  show ?thesis using avr_time_per_interrupt [OF s1, of "atmega328p_modules 16000000 ! 2" 62 100] s1 n by auto
qed

section \<open>The compare register\<close>

text \<open>On an 8-bit timer the compare register keeps the low byte of the ticks: it holds the period exactly when this has at most 256
  ticks.\<close>

lemma avr_period_compare:
  assumes set: "avr_timer_set_period hw p s = Ok s1" and m: "at_tm s = Some m" and n: "n = period_ticks m p" "0 < n"
    and tp: "at_tport s = Some tp" "is_timer8 tp" "tm_unit tp = 0" "tm_handler tp \<noteq> 0"
    and S: "stores8 hw val {tm_baddr tp + 3}" "tm_timsk tp \<noteq> tm_baddr tp + 3"
  shows "unat (val (snd (at_irq s1)) (tm_baddr tp + 3)) = (n - 1) mod 256"
proof -
  have t1: "unat (at_ticks s1) = n - 1" using set_period_ticks(1) [OF set m] n by simp
  have e: "val (snd (at_irq s1)) (tm_baddr tp + 3) = ucast (ucast (at_ticks s1) :: u16)"
    using set m tp S(2)
    by (auto simp: avr_timer_set_period_def Let_def outcome_simps timer_setup_def is_timer8_def case_prod_unfold timer8_config_ps_def
        timer8_config_mode_def timer8_set_def timer8_irq_en_def stores8_simps [OF S(1)] tm_timsk_def split: if_splits)
  have "(ucast (ucast (at_ticks s1) :: u16) :: u8) = ucast (at_ticks s1)" by (rule bit_word_eqI) (simp add: bit_simps)
  then have "unat (ucast (ucast (at_ticks s1) :: u16) :: u8) = unat (at_ticks s1) mod 256"
    by (simp add: unsigned_ucast_eq take_bit_eq_mod)
  then show ?thesis unfolding e t1 .
qed

text \<open>With the 16 MHz of the ATmega328P and the timer of its scheduler clock, this is so up to a period of 8.\<close>

lemma atmega328p_period_fits:
  "(period_ticks (atmega328p_modules 16000000 ! 2) p - 1) mod 256 = period_ticks (atmega328p_modules 16000000 ! 2) p - 1 \<longleftrightarrow> p \<le> 8"
proof -
  have e: "period_ticks (atmega328p_modules 16000000 ! 2) p = 31 * unat p" by (simp add: period_ticks_def atmega328p_modules_def)
  have "((31 * unat p - 1) mod 256 = 31 * unat p - 1) \<longleftrightarrow> 31 * unat p - 1 < 256" by (metis mod_less mod_less_divisor zero_less_numeral)
  also have "\<dots> \<longleftrightarrow> unat p \<le> 8" by linarith
  finally show ?thesis by (simp add: e word_le_nat_alt)
qed

section \<open>Failing setup\<close>

text \<open>When the setup of the timer reports an error, the timer port is freed twice.\<close>

lemma avr_timer_setup_double_free:
  assumes "timer_setup hw (Some tp) 2 PS (at_irq s0) = Ok (r1, i)" and "r1 \<noteq> 0"
    and "avr_get_timer_prop r s = Ok (success, s0)" and "at_tm s0 = Some m" and "mod_clk m \<noteq> 0" and "interrupt m = q # qs"
    and "tp = tp0\<lparr>tm_port_id := ucast (mod_id m), tm_clk_id := ucast (mod_clk_id m), tm_baddr := ucast (mod_baddr m),
                   tm_irq := ucast (irq_id q), tm_handler := avr_tmr_isr_ptr\<rparr>"
    and "timer_shutdown hw (Some tp) i = Ok (r2, j)"
  shows "\<exists>c1 s1. avr_timer_setup hw core r (Some tp0) True (c, s) = Ok (r1, c1, s1) \<and> at_freed s1 = at_freed s0 @ [Tport, Timer_port, Tport]"
  using assms by (simp add: avr_timer_setup_def avr_timer_exit_def Let_def case_prod_unfold)

end
