(* ===== verification/Con_Drivers.thy ===== *)
theory Con_Drivers
  imports Uart
begin

text \<open>
  The setup and exit of the two serial console drivers of the FE310 (\<open>driver/console/con_serial_sifive\<close>): the early console of the
  boot phase and the console that takes over from it, both on the same UART. Each allocates a port, a driver structure and a
  node for the list of clock callbacks, sets the UART up and attaches itself to the console engine.

  The contents of fresh memory and the success of \<open>malloc\<close> are parameters; the order of frees is recorded. The driver
  structures (their function pointers) are the parameters \<open>cdev\<close> and \<open>edev\<close>.
\<close>

section \<open>State\<close>

datatype con_obj = Console_port | Console_driver | Console_handle | Earlycon_driver | Earlycon_handle

record ('h, 'd, 's, 'c, 'l) con_sys =
  cs_board :: "('h, 'd, 's) board"
  cs_io :: "('c, 'l) stdio"
  console_port :: "uart_port_t option"
  console_handle :: ptr
  earlycon_port :: "uart_port_t option"
  earlycon_handle :: ptr
  earlycon_exec :: bool
  cs_freed :: "con_obj list"

text \<open>What the three calls of \<open>malloc\<close> in a setup return.\<close>

record con_alloc =
  al_port :: "uart_port_t option"
  al_driver :: bool
  al_handle :: ptr

abbreviation (input) pre_clk_config_fn :: callback where "pre_clk_config_fn \<equiv> 1"
abbreviation (input) post_clk_config_fn :: callback where "post_clk_config_fn \<equiv> 2"
abbreviation (input) early_pre_clk_config_fn :: callback where "early_pre_clk_config_fn \<equiv> 3"
abbreviation (input) early_post_clk_config_fn :: callback where "early_post_clk_config_fn \<equiv> 4"
abbreviation (input) console_serial_irq_handler_ptr :: handler where "console_serial_irq_handler_ptr \<equiv> 7"

definition cs_cbs :: "('h, 'd, 's, 'c, 'l) con_sys \<Rightarrow> cb_state" where
  "cs_cbs s = sc_cbs (bd_clk (cs_board s))"

definition set_cbs :: "cb_state \<Rightarrow> ('h, 'd, 's, 'c, 'l) con_sys \<Rightarrow> ('h, 'd, 's, 'c, 'l) con_sys" where
  "set_cbs c s = s\<lparr>cs_board := (cs_board s)\<lparr>bd_clk := (bd_clk (cs_board s))\<lparr>sc_cbs := c\<rparr>\<rparr>\<rparr>"

definition freed :: "con_obj list \<Rightarrow> ('h, 'd, 's, 'c, 'l) con_sys \<Rightarrow> ('h, 'd, 's, 'c, 'l) con_sys" where
  "freed xs s = s\<lparr>cs_freed := cs_freed s @ xs\<rparr>"

text \<open>\<open>handle->pre_config = ...; handle->post_config = ...\<close>; the link of the node is left as it is.\<close>

definition fill_node :: "ptr \<Rightarrow> callback \<Rightarrow> callback \<Rightarrow> ('h, 'd, 's, 'c, 'l) con_sys \<Rightarrow> ('h, 'd, 's, 'c, 'l) con_sys" where
  "fill_node h a b s =
     (let c = cs_cbs s
      in set_cbs (c\<lparr>cb_nodes := (cb_nodes c)(h := (cb_nodes c h)\<lparr>pre_config := a, post_config := b\<rparr>)\<rparr>) s)"

section \<open>The parts of setup and exit\<close>

text \<open>\<open>if(handle) ret |= sysclk_deregister_config_clk_callback(handle);\<close>\<close>

definition drop_handle ::
  "nat \<Rightarrow> ptr \<Rightarrow> status_t \<times> ('h, 'd, 's, 'c, 'l) con_sys \<Rightarrow> (status_t \<times> ('h, 'd, 's, 'c, 'l) con_sys) outcome" where
  "drop_handle fuel h = (\<lambda>(ret, s).
     if h \<noteq> NULL
     then obind (sysclk_deregister_config_clk_callback fuel h (cs_cbs s)) (\<lambda>(r, c). Ok (ret OR r, set_cbs c s))
     else Ok (ret, s))"

text \<open>\<open>if(port) ret |= uart_shutdown(port);\<close> the result is the port after it.\<close>

definition drop_port ::
  "'d hw \<Rightarrow> u32 \<Rightarrow> uart_port_t option \<Rightarrow> status_t \<times> ('h, 'd, 's, 'c, 'l) con_sys
     \<Rightarrow> (status_t \<times> uart_port_t option \<times> ('h, 'd, 's, 'c, 'l) con_sys) outcome" where
  "drop_port hw core upo = (\<lambda>(ret, s).
     case upo of
       None \<Rightarrow> Ok (ret, None, s)
     | Some up \<Rightarrow> obind (uart_shutdown hw core up (cs_board s)) (\<lambda>(r, up1, b). Ok (ret OR r, Some up1, s\<lparr>cs_board := b\<rparr>)))"

text \<open>The end of both setups: registering the callbacks and attaching the driver.\<close>

definition attach_console ::
  "nat \<Rightarrow> ptr \<Rightarrow> 'c console_t \<Rightarrow> ('h, 'd, 's, 'c, 'l) con_sys \<Rightarrow> (status_t \<times> ('h, 'd, 's, 'c, 'l) con_sys) outcome" where
  "attach_console fuel h device s =
     obind (sysclk_register_config_clk_callback fuel h (cs_cbs s)) (\<lambda>(ret, c).
       let s1 = set_cbs c s
       in if ret \<noteq> 0 \<and> ret \<noteq> error_list_node_exists then Ok (ret, s1)
          else case console_attach_device ret (Some device) (cs_io s1) of (r, io) \<Rightarrow> Ok (r, s1\<lparr>cs_io := io\<rparr>))"

section \<open>The early console\<close>

definition earlycon_serial_setup ::
  "'d hw \<Rightarrow> u32 \<Rightarrow> u32 \<Rightarrow> resources \<Rightarrow> ('h, 'd, 's, 'c, 'l) con_sys \<Rightarrow> (status_t \<times> ('h, 'd, 's, 'c, 'l) con_sys) outcome" where
  "earlycon_serial_setup hw core junk r s =
     (case earlycon_port s of
        None \<Rightarrow> Fault Null_deref
      | Some up \<Rightarrow>
          obind (uart_get_properties r console_uart up) (\<lambda>(_, up1).
          obind (uart_setup hw core junk r dir_tx up1 (cs_board s)) (\<lambda>(ret, up2, b).
          Ok (ret, s\<lparr>earlycon_port := Some up2, cs_board := b\<rparr>))))"

definition earlycon_serial_driver_exit ::
  "nat \<Rightarrow> 'd hw \<Rightarrow> u32 \<Rightarrow> ('h, 'd, 's, 'c, 'l) con_sys \<Rightarrow> (status_t \<times> ('h, 'd, 's, 'c, 'l) con_sys) outcome" where
  "earlycon_serial_driver_exit fuel hw core s =
     (case console_release_device (cs_io s) of (r1, io) \<Rightarrow>
      obind (drop_handle fuel (earlycon_handle s) (r1, s\<lparr>cs_io := io\<rparr>)) (\<lambda>rs.
      obind (drop_port hw core (earlycon_port s) rs) (\<lambda>(ret, up, s1).
      Ok (ret, freed [Earlycon_driver, Earlycon_handle] (s1\<lparr>earlycon_port := up\<rparr>)))))"

definition earlycon_serial_driver_setup ::
  "nat \<Rightarrow> 'd hw \<Rightarrow> u32 \<Rightarrow> u32 \<Rightarrow> resources \<Rightarrow> 'c console_t \<Rightarrow> con_alloc \<Rightarrow> ('h, 'd, 's, 'c, 'l) con_sys
     \<Rightarrow> (status_t \<times> ('h, 'd, 's, 'c, 'l) con_sys) outcome" where
  "earlycon_serial_driver_setup fuel hw core junk r edev al s =
     (let s1 = s\<lparr>earlycon_port := al_port al\<rparr>;
          cleanup = (\<lambda>ret s. obind (earlycon_serial_driver_exit fuel hw core s) (\<lambda>(_, s'). Ok (ret, s')))
      in if al_port al = None then cleanup error_memory_low s1
         else if \<not> al_driver al then cleanup error_memory_low s1
         else let s2 = s1\<lparr>earlycon_handle := al_handle al\<rparr>
              in if al_handle al = NULL then cleanup error_memory_low s2
                 else let s3 = fill_node (al_handle al) early_pre_clk_config_fn early_post_clk_config_fn s2
                      in obind (earlycon_serial_setup hw core junk r s3) (\<lambda>(ret, s4).
                           if ret \<noteq> 0 then cleanup ret s4
                           else obind (attach_console fuel (al_handle al) edev s4) (\<lambda>(ret1, s5).
                                if ret1 \<noteq> 0 then cleanup ret1 s5 else Ok (ret1, s5))))"

text \<open>\<open>driver_setup("earlycon")\<close> and \<open>driver_exit("earlycon")\<close>: the entry of the driver table runs the function at most once.\<close>

definition earlycon_on ::
  "nat \<Rightarrow> 'd hw \<Rightarrow> u32 \<Rightarrow> u32 \<Rightarrow> resources \<Rightarrow> 'c console_t \<Rightarrow> con_alloc \<Rightarrow> ('h, 'd, 's, 'c, 'l) con_sys
     \<Rightarrow> (status_t \<times> ('h, 'd, 's, 'c, 'l) con_sys) outcome" where
  "earlycon_on fuel hw core junk r edev al s =
     (if earlycon_exec s then Ok (error_driver_init_done, s)
      else earlycon_serial_driver_setup fuel hw core junk r edev al (s\<lparr>earlycon_exec := True\<rparr>))"

definition earlycon_off ::
  "nat \<Rightarrow> 'd hw \<Rightarrow> u32 \<Rightarrow> ('h, 'd, 's, 'c, 'l) con_sys \<Rightarrow> (status_t \<times> ('h, 'd, 's, 'c, 'l) con_sys) outcome" where
  "earlycon_off fuel hw core s =
     (if \<not> earlycon_exec s then Ok (error_driver, s)
      else earlycon_serial_driver_exit fuel hw core (s\<lparr>earlycon_exec := False\<rparr>))"

section \<open>The console\<close>

definition console_serial_setup ::
  "'d hw \<Rightarrow> u32 \<Rightarrow> u32 \<Rightarrow> resources \<Rightarrow> ('h, 'd, 's, 'c, 'l) con_sys \<Rightarrow> (status_t \<times> ('h, 'd, 's, 'c, 'l) con_sys) outcome" where
  "console_serial_setup hw core junk r s =
     (case console_port s of
        None \<Rightarrow> Fault Null_deref
      | Some up \<Rightarrow>
          obind (uart_get_properties r console_uart up) (\<lambda>(ret, up1).
            if ret \<noteq> 0 then Ok (ret, s\<lparr>console_port := Some up1\<rparr>)
            else obind (uart_setup hw core junk r dir_trx (up1\<lparr>u_irq_handler := console_serial_irq_handler_ptr\<rparr>) (cs_board s)) (\<lambda>(ret1, up2, b).
                 Ok (ret1, s\<lparr>console_port := Some up2, cs_board := b\<rparr>))))"

text \<open>\<open>ea\<close>: what \<open>malloc\<close> returns when the early console is set up again.\<close>

definition console_serial_driver_exit ::
  "nat \<Rightarrow> 'd hw \<Rightarrow> u32 \<Rightarrow> u32 \<Rightarrow> resources \<Rightarrow> 'c console_t \<Rightarrow> con_alloc \<Rightarrow> ('h, 'd, 's, 'c, 'l) con_sys
     \<Rightarrow> (status_t \<times> ('h, 'd, 's, 'c, 'l) con_sys) outcome" where
  "console_serial_driver_exit fuel hw core junk r edev ea s =
     (case console_release_device (cs_io s) of (r1, io) \<Rightarrow>
      obind (drop_handle fuel (console_handle s) (r1, s\<lparr>cs_io := io\<rparr>)) (\<lambda>rs.
      obind (drop_port hw core (console_port s) rs) (\<lambda>(ret, up, s1).
      obind (earlycon_on fuel hw core junk r edev ea
               (freed [Console_port, Console_driver, Console_handle] (s1\<lparr>console_port := up\<rparr>))) (\<lambda>(r2, s2).
      Ok (ret OR r2, s2)))))"

definition console_serial_driver_setup ::
  "nat \<Rightarrow> 'd hw \<Rightarrow> u32 \<Rightarrow> u32 \<Rightarrow> resources \<Rightarrow> 'c console_t \<Rightarrow> 'c console_t \<Rightarrow> con_alloc \<Rightarrow> con_alloc \<Rightarrow> ('h, 'd, 's, 'c, 'l) con_sys
     \<Rightarrow> (status_t \<times> ('h, 'd, 's, 'c, 'l) con_sys) outcome" where
  "console_serial_driver_setup fuel hw core junk r cdev edev al ea s =
     obind (earlycon_off fuel hw core s) (\<lambda>(_, s0).
     let s1 = s0\<lparr>console_port := al_port al\<rparr>;
         cleanup = (\<lambda>ret s. obind (console_serial_driver_exit fuel hw core junk r edev ea s) (\<lambda>(_, s'). Ok (ret, s')))
     in if al_port al = None then cleanup error_memory_low s1
        else if \<not> al_driver al then cleanup error_memory_low s1
        else let s2 = s1\<lparr>console_handle := al_handle al\<rparr>
             in if al_handle al = NULL then cleanup error_memory_low s2
                else let s3 = fill_node (al_handle al) pre_clk_config_fn post_clk_config_fn s2
                     in obind (console_serial_setup hw core junk r s3) (\<lambda>(ret, s4).
                          if ret \<noteq> 0 then cleanup ret s4
                          else obind (attach_console fuel (al_handle al) cdev s4) (\<lambda>(ret1, s5).
                               if ret1 \<noteq> 0 then cleanup ret1 s5 else Ok (ret1, s5))))"

text \<open>The callbacks around a change of the clock.\<close>

definition console_serial_pre_clk_config :: "('h, 'd, 's, 'c, 'l) con_sys \<Rightarrow> status_t" where
  "console_serial_pre_clk_config s = success"

definition console_serial_post_clk_config ::
  "'d hw \<Rightarrow> u32 \<Rightarrow> ('h, 'd, 's, 'c, 'l) con_sys \<Rightarrow> (status_t \<times> ('h, 'd, 's, 'c, 'l) con_sys) outcome" where
  "console_serial_post_clk_config hw junk s =
     (case console_port s of
        None \<Rightarrow> Fault Null_deref
      | Some up \<Rightarrow> obind (uart_update_baud hw junk up (cs_board s)) (\<lambda>b. Ok (success, s\<lparr>cs_board := b\<rparr>)))"

definition earlycon_serial_post_clk_config ::
  "'d hw \<Rightarrow> u32 \<Rightarrow> ('h, 'd, 's, 'c, 'l) con_sys \<Rightarrow> (status_t \<times> ('h, 'd, 's, 'c, 'l) con_sys) outcome" where
  "earlycon_serial_post_clk_config hw junk s =
     (case earlycon_port s of
        None \<Rightarrow> Fault Null_deref
      | Some up \<Rightarrow> obind (uart_update_baud hw junk up (cs_board s)) (\<lambda>b. Ok (success, s\<lparr>cs_board := b\<rparr>)))"

section \<open>What the UART leaves alone\<close>

text \<open>Setting a UART up and shutting it down changes pins, interrupts, registers, but never the list of clock callbacks.\<close>

abbreviation bd_cbs :: "('h, 'd, 's) board \<Rightarrow> cb_state" where
  "bd_cbs b \<equiv> sc_cbs (bd_clk b)"

lemma on_bd_cbs [simp]: "bd_cbs (on_bd f b) = bd_cbs b"
  by (simp add: on_bd_def)

lemma sysclk_get_clk_cbs: "sysclk_get_clk hw junk c = Ok (r, v, c') \<Longrightarrow> sc_cbs c' = sc_cbs c"
  by (auto simp: sysclk_get_clk_def sysclk_get_freq_def irq_guarded_def outcome_simps Let_def split: option.splits if_splits prod.splits)

lemma uart_update_baud_cbs: "uart_update_baud hw junk up b = Ok b' \<Longrightarrow> bd_cbs b' = bd_cbs b"
  by (auto simp: uart_update_baud_def outcome_simps dest: sysclk_get_clk_cbs)

lemma uart_pins_alloc_cbs: "uart_pins_alloc n i hw r pm up ret b = Ok (ret', up', b') \<Longrightarrow> bd_cbs b' = bd_cbs b"
proof (induction n arbitrary: i up ret b)
  case (Suc n)
  then show ?case by (auto simp: outcome_simps case_prod_unfold dest!: Suc.IH)
qed simp

lemma uart_pins_free_cbs: "uart_pins_free n i hw up ret b = Ok (ret', up', b') \<Longrightarrow> bd_cbs b' = bd_cbs b"
proof (induction n arbitrary: i up ret b)
  case (Suc n)
  then show ?case by (auto simp: outcome_simps case_prod_unfold dest!: Suc.IH)
qed simp

lemma uart_irq_cbs:
  "uart_irq_on hw core up dir ret b = Ok (ret', b') \<Longrightarrow> bd_cbs b' = bd_cbs b"
  "uart_irq_off hw core up ret b = Ok (ret', b') \<Longrightarrow> bd_cbs b' = bd_cbs b"
  by (auto simp: uart_irq_on_def uart_irq_off_def outcome_simps Let_def split: option.splits if_splits)

lemma uart_setup_cbs: "uart_setup hw core junk r dir up b = Ok (ret, up', b') \<Longrightarrow> bd_cbs b' = bd_cbs b"
  by (auto simp: uart_setup_def outcome_simps Let_def case_prod_unfold split: option.splits
      dest!: uart_pins_alloc_cbs uart_irq_cbs(1) uart_update_baud_cbs)

lemma uart_shutdown_cbs: "uart_shutdown hw core up b = Ok (ret, up', b') \<Longrightarrow> bd_cbs b' = bd_cbs b"
  by (auto simp: uart_shutdown_def outcome_simps split: option.splits dest!: uart_pins_free_cbs uart_irq_cbs(2))

section \<open>Taking over\<close>

lemma cs_cbs_set [simp]: "cs_cbs (set_cbs c s) = c"
  by (simp add: cs_cbs_def set_cbs_def)

lemma set_cbs_frame [simp]:
  "cs_io (set_cbs c s) = cs_io s" "console_port (set_cbs c s) = console_port s" "console_handle (set_cbs c s) = console_handle s"
  "earlycon_port (set_cbs c s) = earlycon_port s" "earlycon_handle (set_cbs c s) = earlycon_handle s"
  "earlycon_exec (set_cbs c s) = earlycon_exec s"
  by (simp_all add: set_cbs_def)

lemma freed_frame [simp]:
  "cs_io (freed xs s) = cs_io s" "console_port (freed xs s) = console_port s" "console_handle (freed xs s) = console_handle s"
  "earlycon_handle (freed xs s) = earlycon_handle s" "earlycon_exec (freed xs s) = earlycon_exec s" "cs_cbs (freed xs s) = cs_cbs s"
  by (simp_all add: freed_def cs_cbs_def)

text \<open>The list after a step, and what the step keeps of nodes outside of it.\<close>

definition cb_moves :: "cb_state \<Rightarrow> cb_state \<Rightarrow> ptr list \<Rightarrow> bool" where
  "cb_moves c c' ys \<longleftrightarrow> cb_list c' ys \<and> (\<forall>m. m \<notin> set ys \<longrightarrow> cb_nodes c' m = cb_nodes c m)"

lemma earlycon_exit_list:
  assumes "earlycon_serial_driver_exit fuel hw core s = Ok (ret, s')" and "cb_list (cs_cbs s) xs" and "earlycon_handle s \<in> set xs"
    and "length xs < fuel"
  shows "cb_moves (cs_cbs s) (cs_cbs s') (remove1 (earlycon_handle s) xs) \<and> earlycon_exec s' = earlycon_exec s"
proof -
  have n: "earlycon_handle s \<noteq> NULL" using chain_nonnull [of _ _ xs] assms(2,3) by (auto simp: cb_list_def)
  obtain c' where c': "sysclk_deregister_config_clk_callback fuel (earlycon_handle s) (cs_cbs s) = Ok (success, c')"
    "cb_moves (cs_cbs s) c' (remove1 (earlycon_handle s) xs)"
    using deregister_member [OF assms(2,4,3)] by (auto simp: cb_moves_def)
  have e: "cs_cbs (s\<lparr>cs_io := io\<rparr>) = cs_cbs s" for io by (simp add: cs_cbs_def)
  show ?thesis
    using assms(1) n c'
    by (auto simp: earlycon_serial_driver_exit_def drop_handle_def drop_port_def e outcome_simps case_prod_unfold
        cs_cbs_def set_cbs_def freed_def split: option.splits dest!: uart_shutdown_cbs)
qed

lemma attach_console_done:
  assumes "attach_console fuel h device s = Ok (0, s')" and "cb_list (cs_cbs s) xs" and "fresh_node h (cs_cbs s)" and "h \<notin> set xs"
    and "length xs < fuel"
  shows "cb_list (cs_cbs s') (xs @ [h]) \<and> con (cs_io s') = Some device \<and> console_attached (cs_io s') \<and> earlycon_exec s' = earlycon_exec s"
proof -
  obtain c' where c': "sysclk_register_config_clk_callback fuel h (cs_cbs s) = Ok (success, c')" "cb_list c' (xs @ [h])"
    using register_fresh [OF assms(2-5)] by blast
  have e: "cs_cbs (set_cbs c' s\<lparr>cs_io := io\<rparr>) = c'" for io by (simp add: cs_cbs_def set_cbs_def)
  show ?thesis
    using assms(1) c'
    by (auto simp: attach_console_def console_attach_device_def register_defs set_fs_read_def set_fs_write_def Let_def e)
qed

lemma console_serial_setup_cbs:
  "console_serial_setup hw core junk r s = Ok (ret, s') \<Longrightarrow> cs_cbs s' = cs_cbs s \<and> earlycon_exec s' = earlycon_exec s"
  by (auto simp: console_serial_setup_def outcome_simps cs_cbs_def split: option.splits if_splits dest!: uart_setup_cbs)

text \<open>Starting the early console: its entry in the driver table is marked from then on, also when its setup fails; its device is
  attached when it succeeds, and none is when it fails.\<close>

lemma earlycon_exit_frame:
  "earlycon_serial_driver_exit fuel hw core s = Ok (ret, s') \<Longrightarrow>
    earlycon_exec s' = earlycon_exec s \<and> con (cs_io s') = None \<and> \<not> console_attached (cs_io s')"
  by (auto simp: earlycon_serial_driver_exit_def console_release_device_def drop_handle_def drop_port_def outcome_simps case_prod_unfold
      split: option.splits if_splits)

lemma earlycon_on_result:
  assumes "earlycon_on fuel hw core junk r edev ea s = Ok (ret, s')" and "\<not> earlycon_exec s"
  shows "earlycon_exec s' \<and> (if ret = success then con (cs_io s') = Some edev \<and> console_attached (cs_io s')
    else con (cs_io s') = None \<and> \<not> console_attached (cs_io s'))"
proof -
  have st: "earlycon_serial_setup hw core junk r x = Ok (q, y) \<Longrightarrow> earlycon_exec y = earlycon_exec x" for x q y
    by (auto simp: earlycon_serial_setup_def outcome_simps split: option.splits)
  have at: "earlycon_exec y = earlycon_exec x \<and> (q = 0 \<longrightarrow> con (cs_io y) = Some edev \<and> console_attached (cs_io y))"
    if a: "attach_console fuel h edev x = Ok (q, y)" for h x q y
  proof -
    obtain v c where v: "sysclk_register_config_clk_callback fuel h (cs_cbs x) = Ok (v, c)"
      using a by (auto simp: attach_console_def outcome_simps)
    show ?thesis
      using a by (cases "v = 0") (auto simp: attach_console_def v console_attach_device_def register_defs set_fs_read_def set_fs_write_def
          Let_def split: if_splits)
  qed
  show ?thesis
    using assms
    by (auto simp: earlycon_on_def earlycon_serial_driver_setup_def Let_def outcome_simps fill_node_def split: if_splits
        dest!: earlycon_exit_frame st at)
qed

lemma console_exit_restarts:
  assumes "console_serial_driver_exit fuel hw core junk r edev ea s = Ok (ret, s')"
  shows "\<exists>t q. earlycon_on fuel hw core junk r edev ea t = Ok (q, s') \<and> earlycon_exec t = earlycon_exec s"
  using assms
  by (auto simp: console_serial_driver_exit_def drop_handle_def drop_port_def outcome_simps case_prod_unfold split: option.splits if_splits)
    (rule exI, rule conjI, rule exI, assumption, simp)+

text \<open>A setup of the console that fails ends with its exit function, from a state in which the early console is off.\<close>

lemma console_setup_fails:
  assumes "console_serial_driver_setup fuel hw core junk r cdev edev al ea s = Ok (ret, s')" and "ret \<noteq> success" and "earlycon_exec s"
  shows "\<exists>t q. console_serial_driver_exit fuel hw core junk r edev ea t = Ok (q, s') \<and> \<not> earlycon_exec t"
proof -
  have off: "earlycon_off fuel hw core s = Ok (q, y) \<Longrightarrow> \<not> earlycon_exec y" for q y
    using assms(3) by (auto simp: earlycon_off_def dest!: earlycon_exit_frame)
  have st: "console_serial_setup hw core junk r x = Ok (q, y) \<Longrightarrow> earlycon_exec y = earlycon_exec x" for x q y
    using console_serial_setup_cbs by blast
  have at: "attach_console fuel h cdev x = Ok (q, y) \<Longrightarrow> earlycon_exec y = earlycon_exec x" for h x q y
    by (auto simp: attach_console_def outcome_simps Let_def case_prod_unfold split: if_splits)
  show ?thesis
    using assms(1,2)
    by (auto simp: console_serial_driver_setup_def Let_def outcome_simps fill_node_def split: if_splits dest!: off st at)
qed

text \<open>C39: the console takes over from the early console or gives way to it again. When its setup succeeds, its device is attached to the
  console engine, the early console is switched off, and in the list of clock callbacks the node of the early console is
  replaced by that of the console at the end. When it fails for whatever reason, the early console's setup is run once more
  from the state left behind; its device is attached if that succeeds and none is if it fails, its entry of the driver
  table being marked as started in both cases. Assumed: the early console runs and its node is in the list; the node that
  \<open>malloc\<close> returns for the console is none of the others in the list (it may be the early console's, just freed), and its
  link, which neither \<open>malloc\<close> nor the driver initialises, happens to be NULL.\<close>

theorem console_handover:
  assumes ret: "console_serial_driver_setup fuel hw core junk r cdev edev al ea s = Ok (ret, s')" and on: "earlycon_exec s"
    and list: "cb_list (cs_cbs s) xs" "earlycon_handle s \<in> set xs" "length xs < fuel"
    and h: "al_handle al \<notin> set (remove1 (earlycon_handle s) xs)" "next_of (cs_cbs s) (al_handle al) = NULL"
  shows "if ret = success
    then con (cs_io s') = Some cdev \<and> console_attached (cs_io s') \<and> \<not> earlycon_exec s'
         \<and> cb_list (cs_cbs s') (remove1 (earlycon_handle s) xs @ [al_handle al])
    else \<exists>t q. earlycon_on fuel hw core junk r edev ea t = Ok (q, s') \<and> \<not> earlycon_exec t \<and> earlycon_exec s'
         \<and> (if q = success then con (cs_io s') = Some edev \<and> console_attached (cs_io s')
            else con (cs_io s') = None \<and> \<not> console_attached (cs_io s'))"
proof (cases "ret = success")
  case False
  then obtain t q where t: "earlycon_on fuel hw core junk r edev ea t = Ok (q, s')" "\<not> earlycon_exec t"
    using console_setup_fails [OF ret _ on] console_exit_restarts by metis
  then show ?thesis unfolding if_not_P [OF False] using earlycon_on_result [OF t] by blast
next
  case True
  let ?e = "s\<lparr>earlycon_exec := False\<rparr>" and ?h = "al_handle al" and ?ys = "remove1 (earlycon_handle s) xs"
  obtain q s0 where s0: "earlycon_serial_driver_exit fuel hw core ?e = Ok (q, s0)"
    and h0: "?h \<noteq> NULL"
    and st: "\<exists>s4. console_serial_setup hw core junk r (fill_node ?h pre_clk_config_fn post_clk_config_fn
        (s0\<lparr>console_port := al_port al, console_handle := ?h\<rparr>)) = Ok (0, s4) \<and> attach_console fuel ?h cdev s4 = Ok (0, s')"
    using ret True on
    by (auto simp: console_serial_driver_setup_def earlycon_off_def Let_def outcome_simps split: if_splits)
  have e: "cs_cbs ?e = cs_cbs s" by (simp add: cs_cbs_def)
  have m: "cb_moves (cs_cbs s) (cs_cbs s0) ?ys" "\<not> earlycon_exec s0"
    using earlycon_exit_list [OF s0, of xs] list by (auto simp: e)
  let ?f = "fill_node ?h pre_clk_config_fn post_clk_config_fn (s0\<lparr>console_port := al_port al, console_handle := ?h\<rparr>)"
  obtain s4 where s4: "console_serial_setup hw core junk r ?f = Ok (0, s4)" "attach_console fuel ?h cdev s4 = Ok (0, s')"
    using st by blast
  have k: "cs_cbs s4 = cs_cbs ?f" "\<not> earlycon_exec s4"
    using console_serial_setup_cbs [OF s4(1)] m(2) by (auto simp: fill_node_def Let_def)
  have f: "cs_cbs ?f = (cs_cbs s0)\<lparr>cb_nodes := (cb_nodes (cs_cbs s0))(?h := (cb_nodes (cs_cbs s0) ?h)\<lparr>pre_config := 1, post_config := 2\<rparr>)\<rparr>"
    by (simp add: fill_node_def Let_def) (simp add: cs_cbs_def)
  have nx: "next_of (cs_cbs ?f) = next_of (cs_cbs s0)" unfolding f by (auto simp: next_of_def fun_eq_iff)
  have rt: "cb_root (cs_cbs ?f) = cb_root (cs_cbs s0)" unfolding f by simp
  have "cb_list (cs_cbs ?f) ?ys" using m(1) by (simp only: cb_moves_def cb_list_def nx rt)
  moreover have "fresh_node ?h (cs_cbs ?f)"
    using h0 h m(1) unfolding fresh_node_def nx unfolding f by (auto simp: callbacks_set_def next_of_def cb_moves_def)
  moreover note h(1)
  moreover have "length ?ys < fuel" using list(2,3) by (simp add: length_remove1)
  ultimately show ?thesis using attach_console_done [OF s4(2), of ?ys] k True by simp
qed

section \<open>A concrete take-over\<close>

text \<open>A UART without pins and interrupt in the tables, on a memory of registers, with the early console running.\<close>

definition demo_con_res :: resources where
  "demo_con_res = \<lparr>dev_prop = Some \<lparr>base_clock = 16000000, ports = [],
       modules = [\<lparr>mod_id = hw_uart, mod_baddr = 0x10013000, mod_stride = 0x20, mod_clk = 115200, mod_clk_id = 0, interrupt = [no_irq]\<rparr>]\<rparr>,
     sw_prop = Some \<lparr>terravisor = \<lparr>devids = [console_uart]\<rparr>,
       swdev = [\<lparr>swdev_id = console_uart, hwdev_id = hw_uart, pmux = Some \<lparr>pm_port = 0, pm_function = 0, pm_pins = []\<rparr>\<rparr>]\<rparr>\<rparr>"

definition demo_console :: "unit console_t" where
  "demo_console = \<lparr>con_write = Some (\<lambda>_ u. (success, u)), con_read = None, con_flush = None, con_payload_size = None\<rparr>"

definition demo_port :: uart_port_t where
  "demo_port = demo_uart\<lparr>u_pmux := Some \<lparr>pm_port = 0, pm_function = 0, pm_pins = []\<rparr>, u_irq := Some no_irq\<rparr>"

definition demo_con where
  "demo_con = \<lparr>cs_board = \<lparr>bd_sys = demo_sys, bd_ps = [0], bd_clk = demo_sysclk\<rparr>,
     cs_io = \<lparr>stddev = \<lambda>_. \<lparr>fs_write = F_null, fs_read = F_null\<rparr>, con = Some demo_console, console_attached = True, con_hw = (),
              log = None, logger_attached = False, log_hw = ()\<rparr>,
     console_port = None, console_handle = NULL,
     earlycon_port = Some demo_port,
     earlycon_handle = 0x200, earlycon_exec = True, cs_freed = []\<rparr>"

definition demo_alloc :: con_alloc where
  "demo_alloc = \<lparr>al_port = Some demo_uart, al_driver = True, al_handle = 0x300\<rparr>"

lemmas fetch_eval = visor_fetch_def vcall_handler_def resource_vcalls_def platform_fetch_sp_def platform_fetch_dp_def ptr_of_def
  status_of_ptr_def sp_terravisor_dev_info_def

lemma demo_properties: "uart_get_properties demo_con_res console_uart demo_uart = Ok (success, demo_port)"
  by (simp add: uart_get_properties_def fetch_eval demo_con_res_def demo_port_def demo_uart_def no_irq_def)

lemma bare_uart_shutdown:
  "uart_shutdown hw core demo_port b
    = Ok (success, demo_port, on_bd (\<lambda>d. hw_wr hw (u_baddr demo_port + RXCTRL_OFFSET) 0 (hw_wr hw (u_baddr demo_port + TXCTRL_OFFSET) 0 d)) b)"
  by (simp add: uart_shutdown_def uart_irq_off_def demo_port_def no_irq_def)

lemma external_clk:
  "sysclk c = Some demo_prci_port \<Longrightarrow> clk_type c = clk_external \<Longrightarrow> \<exists>c'. sysclk_get_clk hw junk c = Ok (success, sp_base_clk demo_prci_port, c')"
  by (simp add: sysclk_get_clk_def sysclk_get_freq_def usable_def demo_prci_port_def irq_guarded_def case_prod_unfold no_vret_def)

lemma bare_uart_setup:
  assumes "sysclk (bd_clk b) = Some demo_prci_port" and "clk_type (bd_clk b) = clk_external"
    and "dir = dir_tx \<or> dir = dir_trx"
  shows "\<exists>b'. uart_setup hw core junk r dir (demo_port\<lparr>u_irq_handler := h\<rparr>) b
    = Ok (success, demo_port\<lparr>u_irq_handler := h\<rparr>, b')"
proof -
  have "\<forall>f. \<exists>c'. sysclk_get_clk hw junk (bd_clk (on_bd f b)) = Ok (success, sp_base_clk demo_prci_port, c')"
    by (intro allI external_clk) (simp_all add: on_bd_def assms(1,2))
  then obtain c' where "sysclk_get_clk hw junk (bd_clk (on_bd f b)) = Ok (success, sp_base_clk demo_prci_port, c' f)" for f
    by (auto dest!: choice)
  then show ?thesis
    using assms(3) by (auto simp: uart_setup_def uart_irq_on_def demo_port_def no_irq_def uart_update_baud_def demo_uart_def Let_def)
qed

theorem console_handover_witness:
  "\<exists>s'. console_serial_driver_setup 5 (plain_hw demo_rdy) 0 0 demo_con_res demo_console demo_console demo_alloc demo_alloc demo_con
      = Ok (success, s') \<and> console_attached (cs_io s') \<and> \<not> earlycon_exec s' \<and> cb_list (cs_cbs s') [0x100, 0x300]"
proof -
  let ?hw = "plain_hw demo_rdy"
  have d: "sysclk_deregister_config_clk_callback 5 0x200 demo_cbs = Ok (success, set_next 0x100 NULL demo_cbs)"
  proof -
    have "deregister_walk 5 demo_cbs 0x200 NULL 0x100 = Ok (Some (0x100, 0x200))"
      using deregister_walk_found [of demo_cbs "0x100" "[0x100]" "0x200" "[]" 5 NULL] demo_cb_list by (simp add: cb_list_def demo_cbs_def)
    then show ?thesis by (simp add: sysclk_deregister_config_clk_callback_def) (simp add: demo_cbs_def next_of_def)
  qed
  have cl: "cb_list (set_next 0x100 NULL demo_cbs) [0x100]" by (simp add: cb_list_def demo_cbs_def set_next_def next_of_def)
  obtain s0 where s0: "earlycon_off 5 ?hw 0 demo_con = Ok (success, s0)" "sysclk (bd_clk (cs_board s0)) = Some demo_prci_port"
    "clk_type (bd_clk (cs_board s0)) = clk_external" "cs_cbs s0 = set_next 0x100 NULL demo_cbs"
    by (simp add: earlycon_off_def earlycon_serial_driver_exit_def console_release_device_def drop_handle_def drop_port_def demo_con_def
        bare_uart_shutdown cs_cbs_def set_cbs_def demo_sysclk_def d freed_def on_bd_def)
  let ?s3 = "fill_node 0x300 pre_clk_config_fn post_clk_config_fn (s0\<lparr>console_port := Some demo_uart, console_handle := 0x300\<rparr>)"
  have b: "sysclk (bd_clk (cs_board ?s3)) = Some demo_prci_port" "clk_type (bd_clk (cs_board ?s3)) = clk_external"
    "console_port ?s3 = Some demo_uart"
    using s0(2,3) by (simp_all add: fill_node_def set_cbs_def Let_def)
  obtain s4 where s4: "console_serial_setup ?hw 0 0 demo_con_res ?s3 = Ok (success, s4)"
    using bare_uart_setup [OF b(1,2), of dir_trx ?hw 0 0 demo_con_res console_serial_irq_handler_ptr] b(3)
    by (auto simp: console_serial_setup_def demo_properties)
  have c4: "cs_cbs s4 = (set_next 0x100 NULL demo_cbs)\<lparr>cb_nodes := (cb_nodes (set_next 0x100 NULL demo_cbs))(0x300 :=
      (cb_nodes (set_next 0x100 NULL demo_cbs) 0x300)\<lparr>pre_config := 1, post_config := 2\<rparr>)\<rparr>"
    using console_serial_setup_cbs [OF s4] s0(4) by (simp add: fill_node_def Let_def cs_cbs_def set_cbs_def)
  have "cb_list (cs_cbs s4) [0x100]" "fresh_node 0x300 (cs_cbs s4)"
    unfolding c4 by (simp_all add: cb_list_def fresh_node_def callbacks_set_def demo_cbs_def set_next_def next_of_def)
  then obtain c5 where c5: "sysclk_register_config_clk_callback 5 0x300 (cs_cbs s4) = Ok (success, c5)"
    using register_fresh [of "cs_cbs s4" "[0x100]" "0x300" 5] by auto
  have "\<exists>s'. attach_console 5 0x300 demo_console s4 = Ok (success, s')"
    by (simp add: attach_console_def c5 console_attach_device_def register_defs Let_def)
  then have "\<exists>s'. console_serial_driver_setup 5 ?hw 0 0 demo_con_res demo_console demo_console demo_alloc demo_alloc demo_con = Ok (success, s')"
    using s0(1) s4 by (auto simp: console_serial_driver_setup_def demo_alloc_def)
  then obtain s' where s': "console_serial_driver_setup 5 (plain_hw demo_rdy) 0 0 demo_con_res demo_console demo_console demo_alloc demo_alloc
      demo_con = Ok (success, s')" by blast
  have l: "cb_list (cs_cbs demo_con) [0x100, 0x200]" using demo_cb_list by (simp add: cs_cbs_def demo_con_def demo_sysclk_def)
  have "next_of (cs_cbs demo_con) 0x300 = NULL" by (simp add: cs_cbs_def demo_con_def demo_sysclk_def demo_cbs_def next_of_def)
  then show ?thesis
    using console_handover [OF s' _ l] s' by (simp add: demo_con_def demo_alloc_def)
qed

end
