(* ===== verification/Boot.thy ===== *)
theory Boot
  imports Con_Drivers C_Malloc Aon Board C_Stdio Sched_Clock Locks
begin

text \<open>
  The system log (\<open>lib/libsyslog/syslog.c\<close>) and the start of the system on the FE310 (\<open>visor/services/bootstrap/bootstrap.c\<close>,
  \<open>arch/riscv/32/i/terravisor/{init,arch}.c\<close>, \<open>platform/sifive/common_fe310\<close>), composed of the operations of the
  heap, the tables, the logger, the clock, the early console and the always-on block.

  \<^item> The byte memory holds the sections the boot code copies and clears, and the seed \<open>randseed\<close>, a variable of
    \<open>.data\<close>. The other static variables are the states of their components; the two lock words the early phase needs, which
    lie in \<open>.bss\<close>, take the values the memory holds for them once \<open>.bss\<close> has been cleared.
  \<^item> The core's CSRs are one state that each component works on in turn.
  \<^item> \<open>boot_env\<close> collects the build's options, the linker's symbols, the tables, and what \<open>malloc\<close> and uninitialised memory hold.
  \<^item> \<open>riscv_update_vector\<close> and the thread pointer (assembly) and the optional print of the memory layout are left out.
\<close>

section \<open>The system log\<close>

text \<open>\<open>logsign[t]\<close> for the five log types.\<close>

definition logsign :: "u32 \<Rightarrow> u8 outcome" where
  "logsign t = require (t < 5) Out_of_bounds (Ok ([0x2f, 0x69, 0x21, 0x78, 0x24] ! unat t))"

text \<open>The format \<open>"[%08llu] < %c > "\<close>.\<close>

definition log_prefix_fmt :: "u8 list" where
  "log_prefix_fmt = [0x5b, 0x25, 0x30, 0x38, 0x6c, 0x6c, 0x75, 0x5d, 0x20, 0x3c, 0x20, 0x25, 0x63, 0x20, 0x3e, 0x20]"

definition syslog_msg ::
  "u32 \<Rightarrow> 's schedclk_core \<Rightarrow> bool \<Rightarrow> u32 \<Rightarrow> u8 list \<Rightarrow> varg list \<Rightarrow> ('c, 'l) stdio \<times> 's \<Rightarrow> (u32 \<times> ('c, 'l) stdio \<times> 's) outcome" where
  "syslog_msg core sc flag_enable_stdout t fmt as = (\<lambda>(io, s).
     obind (get_timestamp core sc s) (\<lambda>(_, time, s1).
     obind (logsign t) (\<lambda>sg.
     obind (fprintf std_log flag_enable_stdout log_prefix_fmt [A64 (time div 1000), A32 (ucast sg)] io) (\<lambda>(ret, io1).
     obind (vprintf std_log flag_enable_stdout fmt as io1) (\<lambda>(n, io2).
     Ok (ret + n, io2, s1))))))"

text \<open>The line in front of a message: the timestamp in milliseconds, of which the low 32 bits are printed, with eight digits at
  least, and the sign of the log type.\<close>

lemma log_prefix_text:
  "obind (fprintf fd en log_prefix_fmt [A64 t, A32 (ucast sg)] io) (\<lambda>(_, s). Ok s) =
   obind (fputs_en fd en ([0x5b] @ numeral_text (ucast t) 10 0x30 8 @ [0x5d, 0x20, 0x3c, 0x20, sg, 0x20, 0x3e, 0x20]) io) (\<lambda>(_, s). Ok s)"
proof -
  have "ucast (ucast sg :: u32) = sg" by (rule bit_word_eqI) (simp add: bit_simps)
  then show ?thesis
    by (simp add: fprintf_def vprintf_def log_prefix_fmt_def isDigit_def get_num_va_args_def unumprint_text fputs_en_append
        obind_assoc case_prod_unfold)
qed

section \<open>Visor calls as exceptions\<close>

text \<open>The argument registers of a context frame. A pointer in the result is the word \<open>enc\<close> gives it; \<open>vres\<close> is what the local holds
  before the call.\<close>

record vframe =
  f_a0 :: u32
  f_a1 :: u32
  f_a2 :: u32
  f_a3 :: u32

definition arch_vcall_handler ::
  "(vptr \<Rightarrow> u32) \<Rightarrow> 's vcall_t list \<Rightarrow> vret_t \<Rightarrow> vframe \<Rightarrow> 's \<Rightarrow> (vframe \<times> 's) outcome" where
  "arch_vcall_handler enc tbl vres frame s =
     obind (vcall_handler tbl (f_a0 frame) (f_a1 frame) (f_a2 frame) (f_a3 frame) vres s) (\<lambda>(v, s1).
     Ok (frame\<lparr>f_a0 := enc (vr_p v), f_a1 := vr_size v, f_a2 := vr_status v\<rparr>, s1))"

text \<open>A call the platform does not know comes back with its code in the third register and changes nothing else.\<close>

lemma unknown_vcall:
  assumes "\<forall>v\<in>set tbl. vc_id v \<noteq> f_a0 frame"
  shows "arch_vcall_handler enc tbl vres frame s = Ok (frame\<lparr>f_a0 := enc P_null, f_a1 := 0, f_a2 := error_vcall_code_inval\<rparr>, s)"
proof -
  have "get_callback_from_table tbl (f_a0 frame) = None" using assms by (induction tbl) auto
  then show ?thesis by (simp add: arch_vcall_handler_def vcall_handler_def)
qed

section \<open>State of the boot\<close>

record ('d, 'c) boot_env =
  USE_PRNG :: bool
  PRCI_CLK :: bool
  NOLOGS :: bool
  BOOTMSGS :: bool
  BOOTLOADER :: bool
  VERSION :: u32
  l_data_start :: u32
  l_data_vstart :: u32
  l_data_size :: u32
  l_itim_start :: u32
  l_itim_vstart :: u32
  l_itim_size :: u32
  l_bss_start :: u32
  l_bss_size :: u32
  randseed_at :: u32
  mlock_at :: u32
  syslog_lock_at :: u32
  be_dp :: dp_t
  be_sp :: sp_t
  be_fuel :: nat
  be_hw :: "'d hw"
  be_core :: u32
  be_junk :: u32
  be_edev :: "'c console_t"
  be_ea :: con_alloc
  be_clk_alloc :: bool
  be_clk_raw :: sysclk_port_t

record ('h, 'd, 's, 'c) boot =
  bt_mem :: mem
  bt_heap :: heap
  bt_res :: resources
  bt_cpu :: cpu
  bt_syslog_lock :: bool
  bt_flag_stdout :: bool
  bt_mslog_exec :: bool
  bt_sysclk_exec :: bool
  bt_con :: "('h, 'd, 's, 'c, membuf_t) con_sys"

abbreviation (input) arch_vcall_handler_ptr :: handler where "arch_vcall_handler_ptr \<equiv> 9"

text \<open>The operations of a component on the shared CSRs.\<close>

definition on_heap :: "(heap \<Rightarrow> ('a \<times> heap) outcome) \<Rightarrow> ('h, 'd, 's, 'c) boot \<Rightarrow> ('a \<times> ('h, 'd, 's, 'c) boot) outcome" where
  "on_heap f b = obind (f ((bt_heap b)\<lparr>hcpu := bt_cpu b\<rparr>)) (\<lambda>(a, h). Ok (a, b\<lparr>bt_heap := h, bt_cpu := hcpu h\<rparr>))"

definition con_cpu :: "('h, 'd, 's, 'c, 'l) con_sys \<Rightarrow> cpu" where
  "con_cpu s = sc_cpu (bd_clk (cs_board s))"

definition put_cpu :: "cpu \<Rightarrow> ('h, 'd, 's, 'c, 'l) con_sys \<Rightarrow> ('h, 'd, 's, 'c, 'l) con_sys" where
  "put_cpu c s =
     (let bd = cs_board s
      in s\<lparr>cs_board := bd\<lparr>bd_sys := (bd_sys bd)\<lparr>csrs := c\<rparr>, bd_clk := (bd_clk bd)\<lparr>sc_cpu := c\<rparr>\<rparr>\<rparr>)"

definition on_con ::
  "(('h, 'd, 's, 'c, membuf_t) con_sys \<Rightarrow> ('a \<times> ('h, 'd, 's, 'c, membuf_t) con_sys) outcome) \<Rightarrow> ('h, 'd, 's, 'c) boot
     \<Rightarrow> ('a \<times> ('h, 'd, 's, 'c) boot) outcome" where
  "on_con f b = obind (f (put_cpu (bt_cpu b) (bt_con b))) (\<lambda>(a, s). Ok (a, b\<lparr>bt_con := s, bt_cpu := con_cpu s\<rparr>))"

definition on_clk ::
  "(('d, 's) sysclk_state \<Rightarrow> ('a \<times> ('d, 's) sysclk_state) outcome) \<Rightarrow> ('h, 'd, 's, 'c, 'l) con_sys
     \<Rightarrow> ('a \<times> ('h, 'd, 's, 'c, 'l) con_sys) outcome" where
  "on_clk f s = obind (f (bd_clk (cs_board s))) (\<lambda>(a, k). Ok (a, s\<lparr>cs_board := (cs_board s)\<lparr>bd_clk := k\<rparr>\<rparr>))"

definition on_io ::
  "(('c, 'l) stdio \<Rightarrow> ('a \<times> ('c, 'l) stdio) outcome) \<Rightarrow> ('h, 'd, 's, 'c, 'l) con_sys
     \<Rightarrow> ('a \<times> ('h, 'd, 's, 'c, 'l) con_sys) outcome" where
  "on_io f s = obind (f (cs_io s)) (\<lambda>(a, io). Ok (a, s\<lparr>cs_io := io\<rparr>))"

section \<open>Memory and the seed\<close>

definition ld32 :: "mem \<Rightarrow> ptr \<Rightarrow> u32" where
  "ld32 m p = ucast (m p) OR push_bit 8 (ucast (m (p + 1))) OR push_bit 16 (ucast (m (p + 2))) OR push_bit 24 (ucast (m (p + 3)))"

definition st32 :: "ptr \<Rightarrow> u32 \<Rightarrow> mem \<Rightarrow> mem" where
  "st32 p v m = m(p := ucast v, p + 1 := ucast (drop_bit 8 v), p + 2 := ucast (drop_bit 16 v), p + 3 := ucast (drop_bit 24 v))"

text \<open>\<open>rand\<close> and \<open>srand\<close> on the variable in memory.\<close>

definition boot_rand :: "('d, 'c) boot_env \<Rightarrow> mem \<Rightarrow> u32 \<times> mem" where
  "boot_rand e m = (case rand (ld32 m (randseed_at e)) of (v, s) \<Rightarrow> (v, st32 (randseed_at e) s m))"

definition boot_srand :: "('d, 'c) boot_env \<Rightarrow> u32 \<Rightarrow> mem \<Rightarrow> mem" where
  "boot_srand e v m = st32 (randseed_at e) (srand v (ld32 m (randseed_at e))) m"

definition arch_rseed_capture :: "('d, 'c) boot_env \<Rightarrow> mem \<Rightarrow> mem" where
  "arch_rseed_capture e m = boot_srand e (ld32 m (l_bss_start e)) m"

definition platform_bss_clear :: "('d, 'c) boot_env \<Rightarrow> mem \<Rightarrow> status_t \<times> mem" where
  "platform_bss_clear e m = (success, fst (memset m (l_bss_start e) 0 (l_bss_size e)))"

definition platform_copy_itim :: "('d, 'c) boot_env \<Rightarrow> mem \<Rightarrow> status_t \<times> mem" where
  "platform_copy_itim e m = (success, fst (memcpy m (l_itim_vstart e) (l_itim_start e) (l_itim_size e)))"

definition platform_copy_data :: "('d, 'c) boot_env \<Rightarrow> mem \<Rightarrow> status_t \<times> mem" where
  "platform_copy_data e m = (success, fst (memcpy m (l_data_vstart e) (l_data_start e) (l_data_size e)))"

text \<open>The lock words of the heap and of the log, read from memory.\<close>

definition load_locks :: "('d, 'c) boot_env \<Rightarrow> mem \<Rightarrow> ('h, 'd, 's, 'c) boot \<Rightarrow> ('h, 'd, 's, 'c) boot" where
  "load_locks e m b =
     b\<lparr>bt_mem := m, bt_heap := (bt_heap b)\<lparr>mlock := (ld32 m (mlock_at e) \<noteq> 0)\<rparr>, bt_syslog_lock := (ld32 m (syslog_lock_at e) \<noteq> 0)\<rparr>"

section \<open>The log's switch and the drivers set up at boot\<close>

definition set_log_stdout :: "bool \<Rightarrow> ('d, 'c) boot_env \<Rightarrow> ('h, 'd, 's, 'c) boot \<Rightarrow> ('h, 'd, 's, 'c) boot outcome" where
  "set_log_stdout v e b =
     (if NOLOGS e then Ok b else if bt_syslog_lock b then Hang else Ok (b\<lparr>bt_syslog_lock := False, bt_flag_stdout := v\<rparr>))"

definition syslog_stdout_enable :: "('d, 'c) boot_env \<Rightarrow> ('h, 'd, 's, 'c) boot \<Rightarrow> ('h, 'd, 's, 'c) boot outcome" where
  "syslog_stdout_enable = set_log_stdout True"

definition syslog_stdout_disable :: "('d, 'c) boot_env \<Rightarrow> ('h, 'd, 's, 'c) boot \<Rightarrow> ('h, 'd, 's, 'c) boot outcome" where
  "syslog_stdout_disable = set_log_stdout False"

text \<open>\<open>driver_setup("mslog")\<close>, \<open>driver_setup("sysclk_prci")\<close> and \<open>driver_setup("earlycon")\<close>: an entry of the driver table runs its
  function at most once.\<close>

definition mslog_on :: "('h, 'd, 's, 'c) boot \<Rightarrow> status_t \<times> ('h, 'd, 's, 'c) boot" where
  "mslog_on b =
     (if bt_mslog_exec b then (error_driver_init_done, b)
      else case membuf_driver_setup (cs_io (bt_con b)) of
             (r, io) \<Rightarrow> (r, b\<lparr>bt_mslog_exec := True, bt_con := (bt_con b)\<lparr>cs_io := io\<rparr>\<rparr>))"

definition sysclk_on :: "('d, 'c) boot_env \<Rightarrow> ('h, 'd, 's, 'c) boot \<Rightarrow> (status_t \<times> ('h, 'd, 's, 'c) boot) outcome" where
  "sysclk_on e b =
     (if bt_sysclk_exec b then Ok (error_driver_init_done, b)
      else on_con (on_clk (sysclk_setup (bt_res b) (be_clk_alloc e) (be_clk_raw e) (be_junk e))) (b\<lparr>bt_sysclk_exec := True\<rparr>))"

section \<open>The phases of the boot\<close>

definition arch_early_setup :: "cpu \<Rightarrow> cpu" where
  "arch_early_setup c = arch_di_msoftirq (arch_di_mtime (arch_di_mei (arch_di c)))"

definition arch_setup :: "('d, 'c) boot_env \<Rightarrow> ('h, 'd, 's, 'c) boot \<Rightarrow> ('h, 'd, 's, 'c) boot outcome" where
  "arch_setup e b =
     (let s = bt_con b; bd = cs_board s
      in obind (link_interrupt (be_core e) int_arch 11 arch_vcall_handler_ptr (bd_sys bd)) (\<lambda>(_, sy).
           Ok (b\<lparr>bt_con := s\<lparr>cs_board := bd\<lparr>bd_sys := sy\<rparr>\<rparr>\<rparr>)))"

text \<open>The second entry of the architecture, for a secondary core, links the same handler.\<close>

definition arch_setup2 :: "('d, 'c) boot_env \<Rightarrow> ('h, 'd, 's, 'c) boot \<Rightarrow> ('h, 'd, 's, 'c) boot outcome" where
  "arch_setup2 e b =
     (let s = bt_con b; bd = cs_board s
      in obind (link_interrupt (be_core e) int_arch 11 arch_vcall_handler_ptr (bd_sys bd)) (\<lambda>(_, sy).
           Ok (b\<lparr>bt_con := s\<lparr>cs_board := bd\<lparr>bd_sys := sy\<rparr>\<rparr>\<rparr>)))"

definition platform_early_setup :: "('d, 'c) boot_env \<Rightarrow> ('h, 'd, 's, 'c) boot \<Rightarrow> ('h, 'd, 's, 'c) boot outcome" where
  "platform_early_setup e b =
     (let (temp_randomnumber, m0) = (if USE_PRNG e then boot_rand e (bt_mem b) else (0, bt_mem b));
          (r1, m1) = platform_copy_data e m0;
          (r2, m2) = platform_copy_itim e m1;
          (r3, m3) = platform_bss_clear e m2
      in obind (on_heap platform_init_heap (load_locks e m3 b)) (\<lambda>(r4, b1).
         let (r5, res) = platform_resources_setup (be_dp e) (be_sp e) (bt_res b1);
             m4 = (if USE_PRNG e then boot_srand e temp_randomnumber (bt_mem b1) else bt_mem b1)
         in obind (syslog_stdout_disable e (b1\<lparr>bt_res := res, bt_mem := m4\<rparr>)) (\<lambda>b2.
            let (_, b3) = mslog_on b2
            in if r1 OR r2 OR r3 OR r4 OR r5 \<noteq> success then exit_c (\<lambda>_ _. Ok) 0 1 b3 else Ok b3)))"

text \<open>The texts of the banner: \<open>"%sVersion %u.%u.%u\n"\<close> and \<open>"%s v%u.%u.%u\n"\<close> with the version's three fields; the
  artwork is a parameter.\<close>

definition insignia_fmt :: "bool \<Rightarrow> u8 list" where
  "insignia_fmt lite =
     (if lite then [0x25, 0x73, 0x20, 0x76] else [0x25, 0x73, 0x56, 0x65, 0x72, 0x73, 0x69, 0x6f, 0x6e, 0x20])
       @ [0x25, 0x75, 0x2e, 0x25, 0x75, 0x2e, 0x25, 0x75, 0x0a]"

definition cyancore_insignia :: "(bool \<Rightarrow> u8 list) \<Rightarrow> bool \<Rightarrow> u32 \<Rightarrow> ('c, 'l) stdio \<Rightarrow> (u32 \<times> ('c, 'l) stdio) outcome" where
  "cyancore_insignia art lite v =
     printf (insignia_fmt lite) [AStr (art lite), A32 (drop_bit 24 v), A32 (drop_bit 8 v AND 0xffff), A32 (v AND 0xff)]"

definition bootmsgs_enable :: "('d, 'c) boot_env \<Rightarrow> ('h, 'd, 's, 'c) boot \<Rightarrow> ('h, 'd, 's, 'c) boot outcome" where
  "bootmsgs_enable e b =
     (if BOOTMSGS e then obind (on_con (on_io (syslog_print (be_fuel e))) b) (\<lambda>(_, b1). syslog_stdout_enable e b1) else Ok b)"

definition boot_clock :: "('d, 'c) boot_env \<Rightarrow> ('h, 'd, 's, 'c) boot \<Rightarrow> ('h, 'd, 's, 'c) boot outcome" where
  "boot_clock e b =
     (if PRCI_CLK e
      then obind (sysclk_on e b) (\<lambda>(_, b1).
           obind (on_con (on_clk (sysclk_reset (be_fuel e) (be_hw e))) b1) (\<lambda>(ret, b2).
           if ret \<noteq> success then exit_c (\<lambda>_ _. Ok) 0 1 b2 else Ok b2))
      else Ok b)"

definition platform_setup :: "(bool \<Rightarrow> u8 list) \<Rightarrow> ('d, 'c) boot_env \<Rightarrow> ('h, 'd, 's, 'c) boot \<Rightarrow> ('h, 'd, 's, 'c) boot outcome" where
  "platform_setup art e b =
     obind (boot_clock e b) (\<lambda>b3.
     obind (on_con (earlycon_on (be_fuel e) (be_hw e) (be_core e) (be_junk e) (bt_res b3) (be_edev e) (be_ea e)) b3) (\<lambda>(_, b4).
     obind (bootmsgs_enable e b4) (\<lambda>b5.
     obind (on_con (on_io (cyancore_insignia art (BOOTLOADER e) (VERSION e))) b5) (\<lambda>(_, b6).
     Ok b6))))"

definition platform_cpu_setup :: "cpu \<Rightarrow> cpu" where
  "platform_cpu_setup = arch_ei"

definition boot_reset_check :: "('d, 'c) boot_env \<Rightarrow> ('h, 'd, 's, 'c) boot \<Rightarrow> ('h, 'd, 's, 'c) boot outcome" where
  "boot_reset_check e b =
     obind (platform_get_reset_syndrome (be_hw e) (bt_res b) (bd_dev (cs_board (bt_con b)))) (\<lambda>(resetSyndrome, d).
     obind (platform_reset_handler resetSyndrome) (\<lambda>_.
     Ok (b\<lparr>bt_con := (bt_con b)\<lparr>cs_board := on_bd (\<lambda>_. d) (cs_board (bt_con b))\<rparr>\<rparr>)))"

definition bootstrap :: "(bool \<Rightarrow> u8 list) \<Rightarrow> ('d, 'c) boot_env \<Rightarrow> ('h, 'd, 's, 'c) boot \<Rightarrow> (status_t \<times> ('h, 'd, 's, 'c) boot) outcome" where
  "bootstrap art e b =
     obind (platform_early_setup e (b\<lparr>bt_cpu := arch_early_setup (bt_cpu b)\<rparr>)) (\<lambda>b1.
     obind (arch_setup e b1) (\<lambda>b2.
     obind (platform_setup art e b2) (\<lambda>b3.
     obind (boot_reset_check e b3) (\<lambda>b4.
     Ok (success, b4\<lparr>bt_cpu := platform_cpu_setup (bt_cpu b4)\<rparr>)))))"

text \<open>A secondary core.\<close>

definition bootstrap_secondary :: "('d, 'c) boot_env \<Rightarrow> ('h, 'd, 's, 'c) boot \<Rightarrow> (status_t \<times> ('h, 'd, 's, 'c) boot) outcome" where
  "bootstrap_secondary e b =
     obind (arch_setup2 e (b\<lparr>bt_cpu := arch_early_setup (bt_cpu b)\<rparr>)) (\<lambda>b1.
     Ok (success, b1\<lparr>bt_cpu := platform_cpu_setup (bt_cpu b1)\<rparr>))"

section \<open>Entry points\<close>

text \<open>\<open>plug\<close> and \<open>play\<close> are the application's functions; the loop of the engine does not end, so its first \<open>n\<close> rounds are
  what can be observed.\<close>

primrec play_rounds :: "nat \<Rightarrow> ('w \<Rightarrow> 'w outcome) \<Rightarrow> 'w \<Rightarrow> 'w outcome" where
  "play_rounds 0 play w = Ok w"
| "play_rounds (Suc n) play w = obind (play w) (play_rounds n play)"

definition engine :: "nat \<Rightarrow> ('w \<Rightarrow> 'w outcome) \<Rightarrow> ('w \<Rightarrow> 'w outcome) \<Rightarrow> 'w \<Rightarrow> 'w outcome" where
  "engine n plug play w = obind (plug w) (play_rounds n play)"

text \<open>\<open>boot_key\<close> of the multi-core build: the secondary cores wait on it until the boot core releases it.\<close>

abbreviation (input) LOCK_INITAL_VALUE :: u32 where "LOCK_INITAL_VALUE \<equiv> 1"

definition arch_early_signal_boot_start :: "u32 \<Rightarrow> u32" where
  "arch_early_signal_boot_start boot_key = LOCK_INITAL_VALUE"

definition arch_signal_boot_done :: "u32 \<Rightarrow> u32" where
  "arch_signal_boot_done boot_key = spinlock_release_a boot_key"

text \<open>\<open>arch_wait_till_boot_done\<close> acquires and releases the lock; it spins while another core holds it.\<close>

definition arch_wait_till_boot_done :: "u32 \<Rightarrow> u32 outcome" where
  "arch_wait_till_boot_done boot_key = (if boot_key \<noteq> 0 then Hang else Ok (spinlock_release_a 1))"

section \<open>The early phase\<close>

text \<open>\<open>within p n a\<close>: the address lies in the section of \<open>n\<close> bytes at \<open>p\<close>.\<close>

definition within :: "ptr \<Rightarrow> u32 \<Rightarrow> ptr \<Rightarrow> bool" where
  "within p n a \<longleftrightarrow> a - p < n"

definition apart :: "ptr \<Rightarrow> u32 \<Rightarrow> ptr \<Rightarrow> u32 \<Rightarrow> bool" where
  "apart p n q k \<longleftrightarrow> (\<forall>a. within p n a \<longrightarrow> \<not> within q k a)"

text \<open>What the linker script arranges: the three sections in RAM do not overlap, the images in flash lie apart from them, no
  copy overlaps its source, the seed is a variable of \<open>.data\<close>, and the two lock words are variables of \<open>.bss\<close>.\<close>

definition boot_layout :: "('d, 'c) boot_env \<Rightarrow> bool" where
  "boot_layout e \<longleftrightarrow>
     l_data_size e \<le> l_data_vstart e - l_data_start e \<and> l_itim_size e \<le> l_itim_vstart e - l_itim_start e
     \<and> apart (l_data_vstart e) (l_data_size e) (l_itim_vstart e) (l_itim_size e)
     \<and> apart (l_data_vstart e) (l_data_size e) (l_bss_start e) (l_bss_size e)
     \<and> apart (l_itim_vstart e) (l_itim_size e) (l_bss_start e) (l_bss_size e)
     \<and> apart (l_data_start e) (l_data_size e) (l_data_vstart e) (l_data_size e)
     \<and> apart (l_itim_start e) (l_itim_size e) (l_data_vstart e) (l_data_size e)
     \<and> (\<forall>a. within (randseed_at e) 4 a \<longrightarrow> within (l_data_vstart e) (l_data_size e) a)
     \<and> (\<forall>a. within (mlock_at e) 4 a \<or> within (syslog_lock_at e) 4 a \<longrightarrow> within (l_bss_start e) (l_bss_size e) a)"

text \<open>What is assumed at the entry: there is a heap region, and the logger's entry of the driver table has not been run.\<close>

definition boot_ready :: "('h, 'd, 's, 'c) boot \<Rightarrow> bool" where
  "boot_ready b \<longleftrightarrow>
     heap_start (bt_heap b) \<noteq> 0 \<and> unat (heap_start (bt_heap b)) + 12 \<le> unat (heap_end (bt_heap b))
     \<and> \<not> bt_mslog_exec b"

lemma within_offset: "k < n \<Longrightarrow> within p n (p + k)"
  by (simp add: within_def)

lemma within_image: "within p n a \<Longrightarrow> within q n (q + (a - p))"
  by (simp add: within_def)

lemma ld32_st32: "ld32 (st32 p v m) p = v"
proof (rule bit_word_eqI)
  fix n assume "n < LENGTH(32)"
  then consider "n < 8" | "8 \<le> n" "n < 16" | "16 \<le> n" "n < 24" | "24 \<le> n" "n < 32" by fastforce
  then show "bit (ld32 (st32 p v m) p) n = bit v n"
    by cases (auto simp: ld32_def st32_def bit_simps)
qed

lemma st32_at: "\<not> within p 4 a \<Longrightarrow> st32 p v m a = m a"
  by (auto simp: st32_def within_def)

text \<open>The sections after the three copies, for any contents of memory before.\<close>

definition load_sections :: "('d, 'c) boot_env \<Rightarrow> mem \<Rightarrow> mem" where
  "load_sections e m = snd (platform_bss_clear e (snd (platform_copy_itim e (snd (platform_copy_data e m)))))"

lemma load_sections_at:
  assumes "boot_layout e"
  shows "within (l_bss_start e) (l_bss_size e) a \<Longrightarrow> load_sections e m a = 0"
    and "within (l_data_vstart e) (l_data_size e) a \<Longrightarrow> load_sections e m a = m (l_data_start e + (a - l_data_vstart e))"
    and "within (l_itim_vstart e) (l_itim_size e) a \<Longrightarrow> load_sections e m a = m (l_itim_start e + (a - l_itim_vstart e))"
proof -
  note lay = assms [unfolded boot_layout_def]
  note at = load_sections_def platform_bss_clear_def platform_copy_itim_def platform_copy_data_def memset_correct
    memcpy_correct(1) [OF conjunct1 [OF lay]] memcpy_correct(1) [OF conjunct1 [OF conjunct2 [OF lay]]]
  show "within (l_bss_start e) (l_bss_size e) a \<Longrightarrow> load_sections e m a = 0"
    by (simp add: at within_def)
  show "within (l_data_vstart e) (l_data_size e) a \<Longrightarrow> load_sections e m a = m (l_data_start e + (a - l_data_vstart e))"
    using lay by (auto simp: at apart_def within_def)
  assume a: "within (l_itim_vstart e) (l_itim_size e) a"
  then have "\<not> within (l_data_vstart e) (l_data_size e) (l_itim_start e + (a - l_itim_vstart e))"
    "\<not> within (l_bss_start e) (l_bss_size e) a"
    using lay within_image [OF a] by (auto simp: apart_def)
  then show "load_sections e m a = m (l_itim_start e + (a - l_itim_vstart e))"
    using a by (simp add: at within_def)
qed

lemma locks_cleared:
  assumes "boot_layout e"
  shows "ld32 (load_sections e m) (mlock_at e) = 0" "ld32 (load_sections e m) (syslog_lock_at e) = 0"
proof -
  have "within p 4 p \<and> within p 4 (p + 1) \<and> within p 4 (p + 2) \<and> within p 4 (p + 3)" for p by (simp add: within_def)
  then show "ld32 (load_sections e m) (mlock_at e) = 0" "ld32 (load_sections e m) (syslog_lock_at e) = 0"
    using assms load_sections_at(1) [OF assms, of _ m] by (simp_all add: ld32_def boot_layout_def)
qed

text \<open>The early phase in closed form.\<close>

lemma platform_early_setup_eq:
  assumes lay: "boot_layout e" and "boot_ready b"
  shows "\<exists>h'. platform_early_setup e b = Ok (snd (mslog_on (b\<lparr>
      bt_mem := (let x = boot_rand e (bt_mem b)
                 in if USE_PRNG e then boot_srand e (fst x) (load_sections e (snd x)) else load_sections e (bt_mem b)),
      bt_heap := h', bt_syslog_lock := False, bt_cpu := hcpu h',
      bt_res := \<lparr>dev_prop = Some (be_dp e), sw_prop = Some (be_sp e)\<rparr>,
      bt_flag_stdout := (NOLOGS e \<and> bt_flag_stdout b)\<rparr>)))
    \<and> heap_wf h' [(unat (heap_end (bt_heap b)) - unat (heap_start (bt_heap b)) - 12, True)]
    \<and> mie (hcpu h') = mie (bt_cpu b) \<and> irqs_on (hcpu h')"
proof -
  let ?h = "(bt_heap b)\<lparr>mlock := False, hcpu := bt_cpu b\<rparr>"
  obtain h' where h': "platform_init_heap ?h = Ok (success, h')"
    "heap_wf h' [(unat (heap_end (bt_heap b)) - unat (heap_start (bt_heap b)) - 12, True)]"
    "mie (hcpu h') = mie (bt_cpu b)" "irqs_on (hcpu h')"
    using init_heap_result [of ?h] assms(2) by (auto simp: boot_ready_def)
  have z: "load_locks e (load_sections e m) b = b\<lparr>bt_mem := load_sections e m, bt_heap := (bt_heap b)\<lparr>mlock := False\<rparr>, bt_syslog_lock := False\<rparr>"
    for m by (simp add: load_locks_def locks_cleared [OF lay])
  have r: "r\<lparr>dev_prop := x, sw_prop := y\<rparr> = \<lparr>dev_prop = x, sw_prop = y\<rparr>" for r :: resources and x y by (cases r) simp
  have "platform_early_setup e b = Ok (snd (mslog_on (b\<lparr>
      bt_mem := (let x = boot_rand e (bt_mem b)
                 in if USE_PRNG e then boot_srand e (fst x) (load_sections e (snd x)) else load_sections e (bt_mem b)),
      bt_heap := h', bt_syslog_lock := False, bt_cpu := hcpu h',
      bt_res := \<lparr>dev_prop = Some (be_dp e), sw_prop = Some (be_sp e)\<rparr>,
      bt_flag_stdout := (NOLOGS e \<and> bt_flag_stdout b)\<rparr>)))"
    using h'(1) assms(2) z
    by (cases b) (simp add: r platform_early_setup_def on_heap_def Let_def case_prod_unfold platform_copy_data_def platform_copy_itim_def
        platform_bss_clear_def load_sections_def platform_resources_setup_def dp_init_def sp_init_def syslog_stdout_disable_def
        set_log_stdout_def boot_ready_def)
  then show ?thesis using h' by blast
qed

text \<open>C14: the early phase of the boot returns, whatever the memory holds, the words of the heap's and the log's locks included, which lie
  in \<open>.bss\<close> and are free once it is cleared, and leaves the system ready for the drivers: \<open>.bss\<close> is
  zero, \<open>.data\<close> and the fast code are copies of their images (the seed apart, which is carried over the copy and is the next
  number after the captured seed), the heap is one free block, the resource tables are the board's, the memory logger is
  attached, and the interrupt sources are as \<open>arch_early_setup\<close> left them.\<close>

theorem platform_early_setup_correct:
  assumes lay: "boot_layout e" and ready: "boot_ready b"
  shows "\<exists>b'. platform_early_setup e b = Ok b'
    \<and> (\<forall>a. within (l_bss_start e) (l_bss_size e) a \<longrightarrow> bt_mem b' a = 0)
    \<and> (\<forall>a. within (l_data_vstart e) (l_data_size e) a \<and> \<not> within (randseed_at e) 4 a
          \<longrightarrow> bt_mem b' a = bt_mem b (l_data_start e + (a - l_data_vstart e)))
    \<and> (\<forall>a. within (l_itim_vstart e) (l_itim_size e) a \<longrightarrow> bt_mem b' a = bt_mem b (l_itim_start e + (a - l_itim_vstart e)))
    \<and> (USE_PRNG e \<longrightarrow> ld32 (bt_mem b') (randseed_at e) = fst (rand (ld32 (bt_mem b) (randseed_at e))))
    \<and> heap_wf (bt_heap b') [(unat (heap_end (bt_heap b)) - unat (heap_start (bt_heap b)) - 12, True)]
    \<and> bt_res b' = \<lparr>dev_prop = Some (be_dp e), sw_prop = Some (be_sp e)\<rparr>
    \<and> log (cs_io (bt_con b')) = Some membuf_driver \<and> logger_attached (cs_io (bt_con b'))
    \<and> mie (bt_cpu b') = mie (bt_cpu b)"
proof -
  obtain h' where h': "platform_early_setup e b = Ok (snd (mslog_on (b\<lparr>
      bt_mem := (let x = boot_rand e (bt_mem b)
                 in if USE_PRNG e then boot_srand e (fst x) (load_sections e (snd x)) else load_sections e (bt_mem b)),
      bt_heap := h', bt_syslog_lock := False, bt_cpu := hcpu h',
      bt_res := \<lparr>dev_prop = Some (be_dp e), sw_prop = Some (be_sp e)\<rparr>,
      bt_flag_stdout := (NOLOGS e \<and> bt_flag_stdout b)\<rparr>)))"
    "heap_wf h' [(unat (heap_end (bt_heap b)) - unat (heap_start (bt_heap b)) - 12, True)]" "mie (hcpu h') = mie (bt_cpu b)"
    using platform_early_setup_eq [OF lay ready] by blast
  define m where "m = (let x = boot_rand e (bt_mem b) in if USE_PRNG e then boot_srand e (fst x) (load_sections e (snd x)) else load_sections e (bt_mem b))"
  note l = lay [unfolded boot_layout_def]
  have seed: "st32 (randseed_at e) v (bt_mem b) (q + (a - p)) = bt_mem b (q + (a - p))"
    if "within p n a" "apart q n (l_data_vstart e) (l_data_size e)" for v p q n a
    using that within_image [OF that(1), of q] l by (intro st32_at) (auto simp: apart_def)
  have keep: "m a = load_sections e (if USE_PRNG e then snd (boot_rand e (bt_mem b)) else bt_mem b) a"
    if "\<not> within (randseed_at e) 4 a" for a
    using that by (simp add: m_def Let_def boot_srand_def st32_at)
  have "m a = 0" if "within (l_bss_start e) (l_bss_size e) a" for a
  proof -
    have "\<not> within (randseed_at e) 4 a" using that l by (auto simp: apart_def)
    then show ?thesis using that keep load_sections_at(1) [OF lay] by metis
  qed
  moreover have "m a = bt_mem b (l_data_start e + (a - l_data_vstart e))"
    if "within (l_data_vstart e) (l_data_size e) a" "\<not> within (randseed_at e) 4 a" for a
    using seed [OF that(1), of "l_data_start e"] l
    unfolding keep [OF that(2)] load_sections_at(2) [OF lay that(1)] by (simp add: boot_rand_def case_prod_unfold)
  moreover have "m a = bt_mem b (l_itim_start e + (a - l_itim_vstart e))" if "within (l_itim_vstart e) (l_itim_size e) a" for a
  proof -
    have "\<not> within (randseed_at e) 4 a" using that l by (auto simp: apart_def)
    from keep [OF this] show ?thesis
      using seed [OF that, of "l_itim_start e"] l
      unfolding load_sections_at(3) [OF lay that] by (simp add: boot_rand_def case_prod_unfold)
  qed
  moreover have "USE_PRNG e \<Longrightarrow> ld32 m (randseed_at e) = fst (rand (ld32 (bt_mem b) (randseed_at e)))"
    by (simp add: m_def boot_srand_def srand_def boot_rand_def ld32_st32 case_prod_unfold)
  moreover have "\<not> bt_mslog_exec b" using ready by (simp add: boot_ready_def)
  ultimately show ?thesis
    using h' [folded m_def]
    by (simp add: mslog_on_def membuf_driver_setup_def membuf_setup_def logger_attach_device_def Let_def case_prod_unfold
        register_defs set_fs_write_def)
qed

section \<open>What the drivers leave alone during the boot\<close>

text \<open>The exceptions' handlers and the interrupt sources enabled in \<open>mie\<close>.\<close>

definition bd_keeps :: "('h, 'd, 's) board \<Rightarrow> ('h, 'd, 's) board \<Rightarrow> bool" where
  "bd_keeps b b' \<longleftrightarrow> exhandler (bd_sys b') = exhandler (bd_sys b) \<and> mie (sc_cpu (bd_clk b')) = mie (sc_cpu (bd_clk b))"

definition port_ok :: "uart_port_t \<Rightarrow> bool" where
  "port_ok up \<longleftrightarrow> (\<forall>q. u_irq up = Some q \<longrightarrow> irq_module q \<noteq> int_arch)"

text \<open>No module of the board's table is wired to an exception.\<close>

definition tables_ok :: "dp_t \<Rightarrow> bool" where
  "tables_ok dp \<longleftrightarrow> (\<forall>m\<in>set (modules dp). \<forall>q\<in>set (interrupt m). irq_module q \<noteq> int_arch)"

lemma vptr_case_Ok [outcome_simps]:
  "(case v of P_module m \<Rightarrow> f m | _ \<Rightarrow> Fault e) = Ok x \<longleftrightarrow> (\<exists>m. v = P_module m \<and> f m = Ok x)"
  "(case v of P_swdev d \<Rightarrow> g d | _ \<Rightarrow> Fault e) = Ok x \<longleftrightarrow> (\<exists>d. v = P_swdev d \<and> g d = Ok x)"
  "(case v of P_clock c \<Rightarrow> h c | _ \<Rightarrow> Fault e) = Ok x \<longleftrightarrow> (\<exists>c. v = P_clock c \<and> h c = Ok x)"
  by (cases v; simp)+

lemma list_case_Ok [outcome_simps]:
  "(case xs of [] \<Rightarrow> Fault e | q # qs \<Rightarrow> f q qs) = Ok x \<longleftrightarrow> (\<exists>q qs. xs = q # qs \<and> f q qs = Ok x)"
  by (cases xs) auto

lemma irq_guarded_mie:
  assumes "irq_guarded f s = Ok (a, s')" and "\<And>t a u. f t = Ok (a, u) \<Longrightarrow> sc_cpu u = sc_cpu t"
  shows "mie (sc_cpu s') = mie (sc_cpu s)"
proof -
  obtain ist c where d: "arch_di_save_state (sc_cpu s) = (ist, c)" by fastforce
  show ?thesis using assms(1) restore_after_save(1) [OF d] by (auto simp: irq_guarded_def d outcome_simps dest!: assms(2))
qed

lemma on_dev_st_cpu: "on_dev_st f s = Ok (a, s') \<Longrightarrow> sc_cpu s' = sc_cpu s"
  by (auto simp: on_dev_st_def on_dev_def outcome_simps)

lemma on_dev_cpu [simp]: "sc_cpu (on_dev f s) = sc_cpu s"
  by (simp add: on_dev_def)

lemma sysclk_reset_mie: "sysclk_reset fuel hw s = Ok (ret, s') \<Longrightarrow> mie (sc_cpu s') = mie (sc_cpu s)"
  by (auto simp: sysclk_reset_def sysclk_set_external_def outcome_simps split: option.splits if_splits
      elim!: irq_guarded_mie dest!: on_dev_st_cpu)

lemma sysclk_setup_mie:
  "sysclk_setup r alloc raw junk s = Ok (ret, s') \<Longrightarrow> mie (sc_cpu s') \<in> {mie (sc_cpu s), mie (sc_cpu s) OR junk}"
  by (auto simp: sysclk_setup_def outcome_simps arch_ei_restore_state_def arch_ei_def csrs_mie_def heap_call_mie [of "s\<lparr>sysclk := x\<rparr>" for x]
      Let_def split: if_splits dest!: irq_guarded_mie)

lemma sysclk_get_clk_mie: "sysclk_get_clk hw junk c = Ok (r, v, c') \<Longrightarrow> mie (sc_cpu c') = mie (sc_cpu c)"
  by (auto simp: sysclk_get_clk_def sysclk_get_freq_def outcome_simps split: option.splits if_splits prod.splits
      elim!: irq_guarded_mie)

lemma on_bd_keeps [simp]: "bd_keeps b (on_bd f b') = bd_keeps b b'" "bd_keeps (on_bd f b) b' = bd_keeps b b'"
  by (simp_all add: bd_keeps_def on_bd_def)

lemma uart_update_baud_keeps: "uart_update_baud hw junk up b = Ok b' \<Longrightarrow> bd_keeps b b'"
  by (auto simp: uart_update_baud_def outcome_simps bd_keeps_def on_bd_def dest: sysclk_get_clk_mie)

lemma uart_pins_alloc_keeps:
  "uart_pins_alloc n i hw r pm up ret b = Ok (ret', up', b') \<Longrightarrow> bd_keeps b b' \<and> u_irq up' = u_irq up"
proof (induction n arbitrary: i up ret b)
  case (Suc n)
  then show ?case by (auto simp: outcome_simps case_prod_unfold bd_keeps_def on_bd_def dest!: Suc.IH)
qed (simp add: bd_keeps_def)

lemma uart_pins_free_keeps:
  "uart_pins_free n i hw up ret b = Ok (ret', up', b') \<Longrightarrow> bd_keeps b b' \<and> u_irq up' = u_irq up"
proof (induction n arbitrary: i up ret b)
  case (Suc n)
  then show ?case by (auto simp: outcome_simps case_prod_unfold bd_keeps_def on_bd_def dest!: Suc.IH)
qed (simp add: bd_keeps_def)

lemma link_keeps_exhandler:
  "t \<noteq> int_arch \<Longrightarrow> link_interrupt core t i h s = Ok (r, s') \<Longrightarrow> exhandler s' = exhandler s"
  "t \<noteq> int_arch \<Longrightarrow> unlink_interrupt core t i s = Ok (r, s') \<Longrightarrow> exhandler s' = exhandler s"
  by (auto simp: link_interrupt_def unlink_interrupt_def local_register_interrupt_handler_def outcome_simps split: if_splits)

lemma uart_irq_keeps:
  "port_ok up \<Longrightarrow> uart_irq_on hw core up dir ret b = Ok (ret', b') \<Longrightarrow> bd_keeps b b'"
  "port_ok up \<Longrightarrow> uart_irq_off hw core up ret b = Ok (ret', b') \<Longrightarrow> bd_keeps b b'"
  by (auto simp: uart_irq_on_def uart_irq_off_def outcome_simps Let_def port_ok_def bd_keeps_def on_bd_def
      split: option.splits if_splits dest: link_keeps_exhandler)

lemma bd_keeps_trans [trans]: "bd_keeps a b \<Longrightarrow> bd_keeps b c \<Longrightarrow> bd_keeps a c"
  by (simp add: bd_keeps_def)

lemma uart_setup_keeps:
  assumes ok: "port_ok up" and "uart_setup hw core junk r dir up b = Ok (ret, up', b')"
  shows "bd_keeps b b' \<and> port_ok up'"
proof -
  obtain pm ret1 r1 b1 r2 b2 f where al: "uart_pins_alloc (length (pm_pins pm)) 0 hw r pm up success b = Ok (ret1, up', b1)"
    and irq: "uart_irq_on hw core up' dir r1 b1 = Ok (r2, b2)" and br: "uart_update_baud hw junk up' (on_bd f b2) = Ok b'"
    using assms(2) by (auto simp: uart_setup_def outcome_simps Let_def case_prod_unfold split: option.splits)
  have "port_ok up'" using uart_pins_alloc_keeps [OF al] ok by (simp add: port_ok_def)
  moreover have "bd_keeps b b'"
    using uart_pins_alloc_keeps [OF al] uart_irq_keeps(1) [OF \<open>port_ok up'\<close> irq] uart_update_baud_keeps [OF br]
    by (auto intro: bd_keeps_trans)
  ultimately show ?thesis by simp
qed

lemma uart_shutdown_keeps:
  assumes ok: "port_ok up" and "uart_shutdown hw core up b = Ok (ret, up', b')"
  shows "bd_keeps b b' \<and> port_ok up'"
proof -
  obtain pm where pm: "u_pmux up = Some pm" using assms(2) by (auto simp: uart_shutdown_def split: option.splits)
  then obtain ret1 b1 b2 f where fr: "uart_pins_free (length (pm_pins pm)) 0 hw up success b = Ok (ret1, up', b1)"
    and irq: "uart_irq_off hw core up' ret1 b1 = Ok (ret, b2)" and b': "b' = on_bd f b2"
    using assms(2) by (auto simp: uart_shutdown_def outcome_simps)
  have "port_ok up'" using uart_pins_free_keeps [OF fr] ok by (simp add: port_ok_def)
  then show ?thesis
    using uart_pins_free_keeps [OF fr] uart_irq_keeps(2) [OF _ irq] by (auto simp: b' intro: bd_keeps_trans)
qed

lemma dp_get_module_info_member: "dp_get_module_info ms i = Some m \<Longrightarrow> m \<in> set ms"
  by (induction ms) (auto split: if_splits)

lemma visor_fetch_in_table:
  assumes "visor_fetch r fetch_dp a b = Ok v" and "vr_p v = P_module m" and "dev_prop r = Some dp"
  shows "m \<in> set (modules dp)"
  using assms
  by (auto simp: visor_fetch_def vcall_handler_def resource_vcalls_def platform_fetch_dp_def outcome_simps Let_def ptr_of_def
      split: if_splits option.splits dest: dp_get_module_info_member)

lemma uart_properties_ok:
  assumes "uart_get_properties r sdev up = Ok (ret, up')" and "dev_prop r = Some dp" and "tables_ok dp" and "port_ok up"
  shows "port_ok up'"
proof -
  have "irq_module q \<noteq> int_arch" if "visor_fetch r fetch_dp a b = Ok v" "vr_p v = P_module m" "interrupt m = q # qs" for a b v m q qs
    using visor_fetch_in_table [OF that(1,2) assms(2)] assms(3) that(3) by (auto simp: tables_ok_def)
  then show ?thesis
    using assms(1,4)
    by (auto simp: uart_get_properties_def outcome_simps Let_def port_ok_def split: if_splits)
qed

lemma fill_node_frame [simp]:
  "exhandler (bd_sys (cs_board (fill_node h a b s))) = exhandler (bd_sys (cs_board s))" "con_cpu (fill_node h a b s) = con_cpu s"
  "earlycon_port (fill_node h a b s) = earlycon_port s"
  by (simp_all add: fill_node_def set_cbs_def con_cpu_def Let_def)

text \<open>A step of the early console's setup, also when it fails and is cleaned up.\<close>

definition early_ok :: "('h, 'd, 's, 'c, 'l) con_sys \<Rightarrow> bool" where
  "early_ok s \<longleftrightarrow> (\<forall>up. earlycon_port s = Some up \<longrightarrow> port_ok up)"

definition early_step :: "('h, 'd, 's, 'c, 'l) con_sys \<Rightarrow> ('h, 'd, 's, 'c, 'l) con_sys \<Rightarrow> bool" where
  "early_step s s' \<longleftrightarrow> (early_ok s \<longrightarrow> early_ok s' \<and> bd_keeps (cs_board s) (cs_board s')
     \<and> log (cs_io s') = log (cs_io s) \<and> logger_attached (cs_io s') = logger_attached (cs_io s))"

lemma early_step_trans: "early_step s t \<Longrightarrow> early_step t u \<Longrightarrow> early_step s u"
  by (auto simp: early_step_def intro: bd_keeps_trans)

lemma fill_node_step: "early_step s (fill_node h a b s)"
  by (simp add: early_step_def early_ok_def fill_node_def set_cbs_def Let_def bd_keeps_def)

lemma earlycon_exit_step: "earlycon_serial_driver_exit fuel hw core s = Ok (ret, s') \<Longrightarrow> early_step s s'"
  by (auto simp: earlycon_serial_driver_exit_def drop_handle_def drop_port_def outcome_simps case_prod_unfold set_cbs_def
      freed_def early_ok_def early_step_def console_release_device_def bd_keeps_def
      split: option.splits if_splits dest!: uart_shutdown_keeps [rotated])

lemma earlycon_setup_step:
  assumes "earlycon_serial_setup hw core junk r s = Ok (ret, s')" and "dev_prop r = Some dp" and "tables_ok dp"
  shows "early_step s s'"
proof -
  obtain up r1 up1 up2 b where up: "earlycon_port s = Some up" and pr: "uart_get_properties r console_uart up = Ok (r1, up1)"
    and su: "uart_setup hw core junk r dir_tx up1 (cs_board s) = Ok (ret, up2, b)"
    and s': "s' = s\<lparr>earlycon_port := Some up2, cs_board := b\<rparr>"
    using assms(1) by (auto simp: earlycon_serial_setup_def outcome_simps split: option.splits)
  show ?thesis
    using uart_properties_ok [OF pr assms(2,3)] uart_setup_keeps [OF _ su] up by (simp add: s' early_ok_def early_step_def)
qed

lemma attach_console_step: "attach_console fuel h device s = Ok (ret, s') \<Longrightarrow> early_step s s'"
  by (auto simp: attach_console_def outcome_simps Let_def case_prod_unfold set_cbs_def bd_keeps_def console_attach_device_def
      early_step_def early_ok_def register_defs set_fs_read_def set_fs_write_def split: if_splits)

lemma earlycon_on_keeps:
  assumes "earlycon_on fuel hw core junk r edev al s = Ok (ret, s')" and ok: "\<forall>up. al_port al = Some up \<longrightarrow> port_ok up"
    and r: "dev_prop r = Some dp" "tables_ok dp"
  shows "bd_keeps (cs_board s) (cs_board s') \<and> log (cs_io s') = log (cs_io s) \<and> logger_attached (cs_io s') = logger_attached (cs_io s)"
proof (cases "earlycon_exec s")
  case True
  then show ?thesis using assms(1) by (simp add: earlycon_on_def bd_keeps_def)
next
  case False
  define s1 where "s1 = s\<lparr>earlycon_exec := True, earlycon_port := al_port al\<rparr>"
  let ?s2 = "s1\<lparr>earlycon_handle := al_handle al\<rparr>"
  let ?s3 = "fill_node (al_handle al) early_pre_clk_config_fn early_post_clk_config_fn ?s2"
  have i: "early_step s1 ?s2" by (simp add: early_step_def early_ok_def bd_keeps_def)
  have f: "early_step s1 ?s3" using early_step_trans [OF i fill_node_step] .
  have "early_step s1 s'"
    using assms(1) False i
    by (auto simp: earlycon_on_def earlycon_serial_driver_setup_def Let_def outcome_simps s1_def [symmetric]
        split: if_splits dest!: earlycon_exit_step earlycon_setup_step [OF _ r] attach_console_step
        intro: early_step_trans f early_step_trans [OF f])
  moreover have "early_ok s1" using ok by (simp add: early_ok_def s1_def)
  ultimately show ?thesis by (simp add: early_step_def s1_def bd_keeps_def)
qed

section \<open>The whole boot\<close>

text \<open>The interrupt sources (software, timer, external) enabled in \<open>mie\<close> are among those of the mask.\<close>

definition sources_in :: "u32 \<Rightarrow> cpu \<Rightarrow> bool" where
  "sources_in msk c \<longleftrightarrow> (\<forall>n\<in>{3, 7, 11}. bit (mie c) n \<longrightarrow> bit msk n)"

lemma sources_in_early [simp]: "sources_in msk (arch_early_setup c)"
  by (simp add: sources_in_def arch_early_setup_def arch_di_msoftirq_def arch_di_mtime_def arch_di_mei_def arch_di_def
      csrc_mie_def bit_simps)

lemma sources_in_cong: "mie c' = mie c \<Longrightarrow> sources_in msk c' = sources_in msk c"
  by (simp add: sources_in_def)

definition boot_inv :: "('d, 'c) boot_env \<Rightarrow> u32 \<Rightarrow> ('h, 'd, 's, 'c) boot \<Rightarrow> bool" where
  "boot_inv e msk b \<longleftrightarrow> bt_res b = \<lparr>dev_prop = Some (be_dp e), sw_prop = Some (be_sp e)\<rparr>
     \<and> exhandler (bd_sys (cs_board (bt_con b))) (be_core e) 11 = arch_vcall_handler_ptr \<and> sources_in msk (bt_cpu b)"

lemma put_cpu_frame [simp]:
  "exhandler (bd_sys (cs_board (put_cpu c s))) = exhandler (bd_sys (cs_board s))" "sc_cpu (bd_clk (cs_board (put_cpu c s))) = c"
  by (simp_all add: put_cpu_def Let_def)

lemma on_con_inv:
  assumes "on_con f b = Ok (a, b')" and "boot_inv e msk b"
    and "\<And>s a s'. f s = Ok (a, s') \<Longrightarrow> bd_keeps (cs_board s) (cs_board s')"
  shows "boot_inv e msk b'"
proof -
  obtain s' where s': "f (put_cpu (bt_cpu b) (bt_con b)) = Ok (a, s')" and b': "b' = b\<lparr>bt_con := s', bt_cpu := con_cpu s'\<rparr>"
    using assms(1) by (auto simp: on_con_def outcome_simps)
  show ?thesis
    using assms(2) assms(3) [OF s'] by (simp add: b' boot_inv_def con_cpu_def bd_keeps_def sources_in_def)
qed

lemma on_io_keeps: "on_io f s = Ok (a, s') \<Longrightarrow> bd_keeps (cs_board s) (cs_board s')"
  by (auto simp: on_io_def outcome_simps bd_keeps_def)

lemma sysclk_on_inv:
  assumes "sysclk_on e b = Ok (r, b')" and "boot_inv e 0 b"
  shows "boot_inv e (be_junk e) b'"
proof (cases "bt_sysclk_exec b")
  case True
  then show ?thesis using assms by (auto simp: sysclk_on_def boot_inv_def sources_in_def)
next
  case False
  then obtain k where k: "sysclk_setup (bt_res b) (be_clk_alloc e) (be_clk_raw e) (be_junk e)
      (bd_clk (cs_board (put_cpu (bt_cpu b) (bt_con b)))) = Ok (r, k)"
    and b': "bt_res b' = bt_res b" "exhandler (bd_sys (cs_board (bt_con b'))) = exhandler (bd_sys (cs_board (bt_con b)))" "bt_cpu b' = sc_cpu k"
    using assms(1) by (auto simp: sysclk_on_def on_con_def on_clk_def outcome_simps con_cpu_def)
  show ?thesis
    using assms(2) sysclk_setup_mie [OF k] by (auto simp: boot_inv_def b' sources_in_def bit_simps)
qed

lemma sysclk_reset_inv:
  assumes "on_con (on_clk (sysclk_reset fuel hw)) b = Ok (r, b')" and "boot_inv e msk b"
  shows "boot_inv e msk b'"
  by (rule on_con_inv [OF assms]) (auto simp: on_clk_def outcome_simps bd_keeps_def dest: sysclk_reset_mie)

lemma bootmsgs_inv:
  assumes "bootmsgs_enable e b = Ok b'" and "boot_inv e msk b"
  shows "boot_inv e msk b'"
proof -
  have st: "set_log_stdout v e c = Ok b' \<Longrightarrow> boot_inv e msk c \<Longrightarrow> boot_inv e msk b'" for v c
    by (auto simp: set_log_stdout_def boot_inv_def split: if_splits)
  show ?thesis
    using assms
    by (auto simp: bootmsgs_enable_def outcome_simps syslog_stdout_enable_def split: if_splits
        intro: st on_con_inv [OF _ _ on_io_keeps])
qed

lemma boot_clock_inv:
  assumes "boot_clock e b = Ok b'" and "boot_inv e 0 b"
  shows "boot_inv e (if PRCI_CLK e then be_junk e else 0) b'"
proof (cases "PRCI_CLK e")
  case True
  then obtain r b1 where b1: "sysclk_on e b = Ok (r, b1)" "on_con (on_clk (sysclk_reset (be_fuel e) (be_hw e))) b1 = Ok (success, b')"
    using assms(1) by (auto simp: boot_clock_def outcome_simps exit_c_def split: if_splits)
  show ?thesis using sysclk_reset_inv [OF b1(2) sysclk_on_inv [OF b1(1) assms(2)]] True by simp
qed (use assms in \<open>simp add: boot_clock_def\<close>)

lemma platform_setup_inv:
  assumes "platform_setup art e b = Ok b'" and inv: "boot_inv e 0 b" and t: "tables_ok (be_dp e)"
    and p: "\<forall>up. al_port (be_ea e) = Some up \<longrightarrow> port_ok up"
  shows "boot_inv e (if PRCI_CLK e then be_junk e else 0) b'"
proof -
  let ?m = "if PRCI_CLK e then be_junk e else 0"
  obtain b3 r4 b4 b5 r6 where ck: "boot_clock e b = Ok b3"
    and ec: "on_con (earlycon_on (be_fuel e) (be_hw e) (be_core e) (be_junk e) (bt_res b3) (be_edev e) (be_ea e)) b3 = Ok (r4, b4)"
    and bm: "bootmsgs_enable e b4 = Ok b5"
    and pr: "on_con (on_io (cyancore_insignia art (BOOTLOADER e) (VERSION e))) b5 = Ok (r6, b')"
    using assms(1) by (auto simp: platform_setup_def outcome_simps)
  have b3: "boot_inv e ?m b3" by (rule boot_clock_inv [OF ck inv])
  have "dev_prop (bt_res b3) = Some (be_dp e)" using b3 by (simp add: boot_inv_def)
  from on_con_inv [OF ec b3 earlycon_on_keeps [THEN conjunct1, OF _ p this t]] have "boot_inv e ?m b4" .
  from on_con_inv [OF pr bootmsgs_inv [OF bm this] on_io_keeps] show ?thesis .
qed

text \<open>A boot that comes to its end leaves the board's tables loaded, the visor-call handler on exception 11 and the global
  interrupt enable on, with no interrupt source enabled; the exception is a build that sets the clock, whose setup on its
  error paths enables what an uninitialised local holds.\<close>

theorem bootstrap_result:
  assumes "bootstrap art e b = Ok (ret, b')" and lay: "boot_layout e" and ready: "boot_ready b" and t: "tables_ok (be_dp e)"
    and p: "\<forall>up. al_port (be_ea e) = Some up \<longrightarrow> port_ok up"
  shows "ret = success \<and> bt_res b' = \<lparr>dev_prop = Some (be_dp e), sw_prop = Some (be_sp e)\<rparr>
    \<and> exhandler (bd_sys (cs_board (bt_con b'))) (be_core e) 11 = arch_vcall_handler_ptr
    \<and> irqs_on (bt_cpu b') \<and> sources_in (if PRCI_CLK e then be_junk e else 0) (bt_cpu b')"
proof -
  let ?b = "b\<lparr>bt_cpu := arch_early_setup (bt_cpu b)\<rparr>"
  obtain b1 b2 b3 b4 where early: "platform_early_setup e ?b = Ok b1" and arch: "arch_setup e b1 = Ok b2"
    and plat: "platform_setup art e b2 = Ok b3" and rst: "boot_reset_check e b3 = Ok b4"
    and b': "ret = success" "b' = b4\<lparr>bt_cpu := arch_ei (bt_cpu b4)\<rparr>"
    using assms(1) unfolding bootstrap_def obind_eq_Ok platform_cpu_setup_def by force
  have r: "boot_ready ?b" using ready by (simp add: boot_ready_def)
  have "bt_res b1 = \<lparr>dev_prop = Some (be_dp e), sw_prop = Some (be_sp e)\<rparr> \<and> mie (bt_cpu b1) = mie (arch_early_setup (bt_cpu b))"
    using platform_early_setup_eq [OF lay r] early by (auto simp: mslog_on_def case_prod_unfold)
  then have "boot_inv e 0 b2"
    using arch sources_in_early [of 0 "bt_cpu b"]
    by (auto simp: arch_setup_def link_interrupt_def arch_register_interrupt_handler_def outcome_simps Let_def boot_inv_def
        sources_in_def)
  from platform_setup_inv [OF plat this t p] have "boot_inv e (if PRCI_CLK e then be_junk e else 0) b3" .
  then have "boot_inv e (if PRCI_CLK e then be_junk e else 0) b4"
    using rst by (auto simp: boot_reset_check_def outcome_simps boot_inv_def on_bd_def)
  moreover have "sources_in msk (arch_ei c) = sources_in msk c" for msk c by (simp add: sources_in_def arch_ei_def)
  ultimately show ?thesis by (simp add: b' boot_inv_def)
qed

text \<open>A secondary core always comes to the end of its boot: its visor-call handler is linked, no interrupt source is enabled and the
  global enable is on; the other cores' handlers and everything else stay as they were.\<close>

theorem bootstrap_secondary_result:
  "\<exists>b'. bootstrap_secondary e b = Ok (success, b') \<and> irqs_on (bt_cpu b') \<and> sources_in 0 (bt_cpu b')
    \<and> exhandler (bd_sys (cs_board (bt_con b'))) = (exhandler (bd_sys (cs_board (bt_con b))))(be_core e :=
        (exhandler (bd_sys (cs_board (bt_con b))) (be_core e))(11 := arch_vcall_handler_ptr))
    \<and> b'\<lparr>bt_cpu := bt_cpu b, bt_con := bt_con b\<rparr> = b"
proof -
  have "sources_in msk (arch_ei c) = sources_in msk c" for msk c by (simp add: sources_in_def arch_ei_def)
  then show ?thesis
    using sources_in_early [of 0 "bt_cpu b"]
    by (simp add: bootstrap_secondary_def arch_setup2_def link_interrupt_def arch_register_interrupt_handler_def Let_def
        platform_cpu_setup_def fun_eq_iff)
qed

section \<open>A concrete boot\<close>

lemma within_iff:
  assumes "unat p + unat n \<le> 4294967296"
  shows "within p n a \<longleftrightarrow> unat p \<le> unat a \<and> unat a < unat p + unat n"
  using assms unat_lt_32 [of a] by (auto simp: within_def word_less_nat_alt unat_sub_if')

text \<open>On an attached console printing returns and leaves the console attached.\<close>

definition prints :: "(u8 \<Rightarrow> 'c \<Rightarrow> status_t \<times> 'c) \<Rightarrow> ('a \<times> ('c, 'l) stdio) outcome \<Rightarrow> bool" where
  "prints w m \<longleftrightarrow> (\<exists>r s. m = Ok (r, s) \<and> con_ready w s)"

lemma prints_obind: "prints w m \<Longrightarrow> (\<And>r s. con_ready w s \<Longrightarrow> prints w (f (r, s))) \<Longrightarrow> prints w (obind m f)"
  by (auto simp: prints_def)

lemma prints_Ok: "con_ready w s \<Longrightarrow> prints w (Ok (r, s))"
  by (simp add: prints_def)

lemma prints_write: "con_ready w s \<Longrightarrow> prints w (ccpdfs_write std_out c s)"
  by (auto simp: prints_def con_ready_def ccpdfs_write_def console_putc_def case_prod_unfold)

lemma prints_fputc: "con_ready w s \<Longrightarrow> prints w (fputc_en std_out False c s)"
  by (auto simp: fputc_en_def fputc_one_def simp del: One_nat_def intro!: prints_obind prints_write prints_Ok)

lemma prints_fputs: "con_ready w s \<Longrightarrow> prints w (fputs_en std_out False cs s)"
  by (induction cs arbitrary: s) (auto simp del: One_nat_def intro!: prints_obind prints_fputc prints_Ok)

lemma prints_unum: "radix = 10 \<or> radix = 16 \<Longrightarrow> con_ready w s \<Longrightarrow> prints w (unumprint std_out False u radix c n s)"
  by (simp add: unumprint_text prints_fputs del: One_nat_def)

lemma prints_insignia: "con_ready w s \<Longrightarrow> prints w (cyancore_insignia art lite v s)"
  by (cases lite)
    (auto simp: cyancore_insignia_def printf_def vprintf_def insignia_fmt_def isDigit_def get_num_va_args_def
      simp del: One_nat_def intro!: prints_obind prints_fputc prints_fputs prints_unum prints_Ok)

text \<open>The board of \<open>demo_con\<close> with the always-on block added to its table, an early console that was not set up yet, and arbitrary
  memory contents.\<close>

definition demo_boot_dp :: dp_t where
  "demo_boot_dp = \<lparr>base_clock = 16000000, ports = [],
     modules = [\<lparr>mod_id = hw_uart, mod_baddr = 0x10013000, mod_stride = 0x20, mod_clk = 115200, mod_clk_id = 0, interrupt = [no_irq]\<rparr>,
                \<lparr>mod_id = hw_aon, mod_baddr = 0x10000000, mod_stride = 0x400, mod_clk = 0, mod_clk_id = 0, interrupt = [no_irq]\<rparr>]\<rparr>"

definition demo_boot_sp :: sp_t where
  "demo_boot_sp = \<lparr>terravisor = \<lparr>devids = [console_uart]\<rparr>,
     swdev = [\<lparr>swdev_id = console_uart, hwdev_id = hw_uart, pmux = Some \<lparr>pm_port = 0, pm_function = 0, pm_pins = []\<rparr>\<rparr>]\<rparr>"

text \<open>Registers that store nothing, with a power-on as the cause of the reset.\<close>

definition demo_boot_hw :: "(ptr \<Rightarrow> u32) hw" where
  "demo_boot_hw = \<lparr>hw_rd = \<lambda>a s. (if a = 0x10000144 then 0x101 else 0, s), hw_wr = \<lambda>a v s. s\<rparr>"

definition demo_env :: "(ptr \<Rightarrow> u32, unit) boot_env" where
  "demo_env = \<lparr>USE_PRNG = True, PRCI_CLK = False, NOLOGS = False, BOOTMSGS = False, BOOTLOADER = True, VERSION = 0x01000203,
     l_data_start = 0x20001000, l_data_vstart = 0x80000000, l_data_size = 16, l_itim_start = 0x20002000, l_itim_vstart = 0x08000000,
     l_itim_size = 64, l_bss_start = 0x80000010, l_bss_size = 32, randseed_at = 0x80000004, mlock_at = 0x80000010, syslog_lock_at = 0x80000014, be_dp = demo_boot_dp, be_sp = demo_boot_sp,
     be_fuel = 5, be_hw = demo_boot_hw, be_core = 0, be_junk = 0, be_edev = demo_console, be_ea = demo_alloc,
     be_clk_alloc = False, be_clk_raw = demo_prci_port\<rparr>"

definition demo_boot :: "mem \<Rightarrow> (u32, ptr \<Rightarrow> u32, nat list, unit) boot" where
  "demo_boot m = \<lparr>bt_mem = m, bt_heap = (demo_heap 88)\<lparr>mlock := True\<rparr>, bt_res = \<lparr>dev_prop = None, sw_prop = None\<rparr>,
     bt_cpu = \<lparr>mie = 0xffffffff, mstatus = 0xffffffff\<rparr>, bt_syslog_lock = True, bt_flag_stdout = True, bt_mslog_exec = False,
     bt_sysclk_exec = False,
     bt_con = \<lparr>cs_board = \<lparr>bd_sys = demo_sys, bd_ps = [0], bd_clk = demo_sysclk\<rparr>,
       cs_io = \<lparr>stddev = \<lambda>_. \<lparr>fs_write = F_null, fs_read = F_null\<rparr>, con = None, console_attached = False, con_hw = (),
                log = None, logger_attached = False, log_hw = \<lparr>membuf = [], wpointer = 0, pread = 0\<rparr>\<rparr>,
       console_port = None, console_handle = NULL, earlycon_port = None, earlycon_handle = NULL, earlycon_exec = False, cs_freed = []\<rparr>\<rparr>"

lemma demo_boot_ready: "boot_ready (demo_boot m)"
  by (simp add: boot_ready_def demo_boot_def demo_heap_def)

lemma demo_env_layout: "boot_layout demo_env"
proof -
  have w: "within 0x80000000 16 a \<longleftrightarrow> 0x80000000 \<le> unat a \<and> unat a < 0x80000010" "within 0x80000010 32 a \<longleftrightarrow> 0x80000010 \<le> unat a \<and> unat a < 0x80000030"
    "within 0x80000004 4 a \<longleftrightarrow> 0x80000004 \<le> unat a \<and> unat a < 0x80000008" "within 0x80000010 4 a \<longleftrightarrow> 0x80000010 \<le> unat a \<and> unat a < 0x80000014"
    "within 0x80000014 4 a \<longleftrightarrow> 0x80000014 \<le> unat a \<and> unat a < 0x80000018" "within 0x20001000 16 a \<longleftrightarrow> 0x20001000 \<le> unat a \<and> unat a < 0x20001010"
    "within 0x20002000 64 a \<longleftrightarrow> 0x20002000 \<le> unat a \<and> unat a < 0x20002040" "within 0x08000000 64 a \<longleftrightarrow> 0x08000000 \<le> unat a \<and> unat a < 0x08000040" for a
    by (simp_all add: within_iff)
  show ?thesis by (simp add: boot_layout_def demo_env_def apart_def w)
qed

theorem platform_early_setup_correct_witness:
  "\<exists>b'. platform_early_setup demo_env (demo_boot (\<lambda>a. ucast a)) = Ok b' \<and> bt_mem b' 0x8000000c = 0x0c \<and> bt_mem b' 0x80000012 = 0
    \<and> heap_wf (bt_heap b') [(88, True)]"
proof -
  obtain b' where b': "platform_early_setup demo_env (demo_boot (\<lambda>a. ucast a)) = Ok b'"
    "\<forall>a. within 0x80000010 32 a \<longrightarrow> bt_mem b' a = 0"
    "\<forall>a. within 0x80000000 16 a \<and> \<not> within 0x80000004 4 a \<longrightarrow> bt_mem b' a = ucast (0x20001000 + (a - 0x80000000))"
    "heap_wf (bt_heap b') [(88, True)]"
    using platform_early_setup_correct [OF demo_env_layout demo_boot_ready [of "\<lambda>a. ucast a"]]
    by (auto simp: demo_env_def demo_boot_def demo_heap_def)
  have "bt_mem b' 0x8000000c = 0x0c" using b'(3) [rule_format, of "0x8000000c"] by (simp add: within_def)
  moreover have "bt_mem b' 0x80000012 = 0" using b'(2) by (simp add: within_def)
  ultimately show ?thesis using b' by blast
qed

abbreviation demo_tables :: resources where
  "demo_tables \<equiv> \<lparr>dev_prop = Some demo_boot_dp, sw_prop = Some demo_boot_sp\<rparr>"

lemma demo_boot_properties: "uart_get_properties demo_tables console_uart demo_uart = Ok (success, demo_port)"
  by (simp add: uart_get_properties_def fetch_eval demo_boot_dp_def demo_boot_sp_def demo_port_def demo_uart_def no_irq_def)

lemma demo_early_console:
  assumes "\<not> earlycon_exec s" and "sysclk (bd_clk (cs_board s)) = Some demo_prci_port" and "clk_type (bd_clk (cs_board s)) = clk_external"
    and "cs_cbs s = demo_cbs"
  shows "\<exists>s'. earlycon_on 5 hw 0 0 demo_tables demo_console demo_alloc s = Ok (success, s')
    \<and> con_ready (\<lambda>_ u. (success, u)) (cs_io s')"
proof -
  let ?s3 = "fill_node 0x300 early_pre_clk_config_fn early_post_clk_config_fn
    (s\<lparr>earlycon_exec := True, earlycon_port := Some demo_uart, earlycon_handle := 0x300\<rparr>)"
  have b: "sysclk (bd_clk (cs_board ?s3)) = Some demo_prci_port" "clk_type (bd_clk (cs_board ?s3)) = clk_external"
    "earlycon_port ?s3 = Some demo_uart"
    using assms(2,3) by (simp_all add: fill_node_def set_cbs_def Let_def)
  have h: "demo_port\<lparr>u_irq_handler := 0\<rparr> = demo_port" by (simp add: demo_port_def demo_uart_def)
  obtain s4 where s4: "earlycon_serial_setup hw 0 0 demo_tables ?s3 = Ok (success, s4)"
    using bare_uart_setup [OF b(1,2), of dir_tx hw 0 0 demo_tables 0] b(3)
    by (auto simp: earlycon_serial_setup_def demo_boot_properties h)
  have "cs_cbs s4 = cs_cbs ?s3"
    using s4 by (auto simp: earlycon_serial_setup_def outcome_simps cs_cbs_def split: option.splits dest!: uart_setup_cbs)
  then have c4: "cs_cbs s4 = demo_cbs\<lparr>cb_nodes := (cb_nodes demo_cbs)(0x300 := (cb_nodes demo_cbs 0x300)\<lparr>pre_config := 3, post_config := 4\<rparr>)\<rparr>"
    using assms(4) by (simp add: fill_node_def Let_def cs_cbs_def set_cbs_def)
  have "cb_list (cs_cbs s4) [0x100, 0x200]" "fresh_node 0x300 (cs_cbs s4)"
    unfolding c4 by (simp_all add: cb_list_def fresh_node_def callbacks_set_def demo_cbs_def next_of_def)
  then obtain c5 where c5: "sysclk_register_config_clk_callback 5 0x300 (cs_cbs s4) = Ok (success, c5)"
    using register_fresh [of "cs_cbs s4" "[0x100, 0x200]" "0x300" 5] by auto
  have "\<exists>s'. attach_console 5 0x300 demo_console s4 = Ok (success, s') \<and> con_ready (\<lambda>_ u. (success, u)) (cs_io s')"
    by (simp add: attach_console_def c5 console_attach_device_def register_defs Let_def con_ready_def demo_console_def
        set_fs_read_def set_fs_write_def)
  then show ?thesis
    using s4 assms(1) by (auto simp: earlycon_on_def earlycon_serial_driver_setup_def demo_alloc_def)
qed

theorem bootstrap_result_witness:
  "\<exists>b'. bootstrap (\<lambda>_. [0x43]) demo_env (demo_boot (\<lambda>_. 0)) = Ok (success, b') \<and> irqs_on (bt_cpu b') \<and> sources_in 0 (bt_cpu b')
    \<and> exhandler (bd_sys (cs_board (bt_con b'))) 0 11 = arch_vcall_handler_ptr"
proof -
  let ?b = "(demo_boot (\<lambda>_. 0))\<lparr>bt_cpu := arch_early_setup (bt_cpu (demo_boot (\<lambda>_. 0)))\<rparr>"
  have "boot_ready ?b" using demo_boot_ready [of "\<lambda>_. 0"] by (simp add: boot_ready_def)
  from platform_early_setup_eq [OF demo_env_layout this]
  obtain b1 where b1: "platform_early_setup demo_env ?b = Ok b1" "bt_res b1 = demo_tables" "\<not> earlycon_exec (bt_con b1)"
    "bd_clk (cs_board (bt_con b1)) = demo_sysclk"
    by (auto simp: mslog_on_def case_prod_unfold demo_env_def demo_boot_def)
  obtain b2 where b2: "arch_setup demo_env b1 = Ok b2" "bt_res b2 = demo_tables" "\<not> earlycon_exec (bt_con b2)"
    "bd_clk (cs_board (bt_con b2)) = demo_sysclk"
    using b1(2-4) by (auto simp: arch_setup_def link_interrupt_def arch_register_interrupt_handler_def Let_def)
  obtain s4 where s4: "earlycon_on 5 (demo_boot_hw) 0 0 demo_tables demo_console demo_alloc (put_cpu (bt_cpu b2) (bt_con b2)) = Ok (success, s4)"
    "con_ready (\<lambda>_ u. (success, u)) (cs_io s4)"
    using demo_early_console [of "put_cpu (bt_cpu b2) (bt_con b2)" "demo_boot_hw"] b2(3,4)
    by (auto simp: put_cpu_def Let_def cs_cbs_def demo_sysclk_def)
  obtain r io where io: "cyancore_insignia (\<lambda>_. [0x43]) True 0x01000203 (cs_io s4) = Ok (r, io)"
    using prints_insignia [OF s4(2), of "\<lambda>_. [0x43]" True "0x01000203"] by (auto simp: prints_def)
  have "\<exists>b3. platform_setup (\<lambda>_. [0x43]) demo_env b2 = Ok b3 \<and> bt_res b3 = demo_tables"
    using s4(1) io b2(2)
    by (auto simp: platform_setup_def boot_clock_def bootmsgs_enable_def on_con_def on_io_def demo_env_def put_cpu_def Let_def)
  then obtain b3 where b3: "platform_setup (\<lambda>_. [0x43]) demo_env b2 = Ok b3" "bt_res b3 = demo_tables" by blast
  have t: "tables_ok (be_dp demo_env)" by (simp add: tables_ok_def demo_env_def demo_boot_dp_def no_irq_def)
  have p: "\<forall>up. al_port (be_ea demo_env) = Some up \<longrightarrow> port_ok up" by (simp add: demo_env_def demo_alloc_def demo_uart_def port_ok_def)
  have "\<exists>b4. boot_reset_check demo_env b3 = Ok b4"
    by (simp add: boot_reset_check_def platform_get_reset_syndrome_def b3(2) fetch_eval demo_boot_dp_def aon_pmucause_def demo_env_def
        demo_boot_hw_def reset_cause_def platform_reset_handler_def)
  then obtain b' where b': "bootstrap (\<lambda>_. [0x43]) demo_env (demo_boot (\<lambda>_. 0)) = Ok (success, b')"
    using b1(1) b2(1) b3(1) by (auto simp: bootstrap_def)
  from bootstrap_result [OF this demo_env_layout demo_boot_ready t p] b' show ?thesis by (auto simp: demo_env_def)
qed

end
