(* ===== verification/Arch_Arm.thy ===== *)
theory Arch_Arm
  imports Interrupts Mmio
begin

text \<open>
  The ARM-M architecture layer (\<open>arch/arm-m/32/common_v6_v7/supervisor\<close>): the tables of handlers and the dispatcher
  (\<open>exception_handler.c\<close>), the entry from the vector table (\<open>isr\<close> of \<open>asm.S\<close>), visor calls and the suspend flag (\<open>arch.c\<close>),
  and the fields of the processor's identification (\<open>include/arm.h\<close>). Numbers of cores, exceptions and interrupts are those
  of the RP2040 (\<open>platform/rpi/rp2040/config.mk\<close>).

  Memory is a store of words, because the context frame is a part of the stack: the processor writes it, and the C code reads
  it through \<open>context_frame_t\<close>. What a handler does is the parameter \<open>run\<close>, except for the visor-call handler.
\<close>

abbreviation (input) ARM_N_CORES :: u32 where "ARM_N_CORES \<equiv> 2"
abbreviation (input) ARM_N_EXCEP :: u32 where "ARM_N_EXCEP \<equiv> 15"
abbreviation (input) ARM_N_IRQ :: u32 where "ARM_N_IRQ \<equiv> 26"
abbreviation (input) arm_vcall_ptr :: handler where "arm_vcall_ptr \<equiv> 9"

record 'r arm_st =
  am_mem :: "ptr \<Rightarrow> u32"
  am_exhandler :: "u32 \<Rightarrow> u32 \<Rightarrow> handler"
  am_irqhandler :: "u32 \<Rightarrow> u32 \<Rightarrow> handler"
  am_frame :: "u32 \<Rightarrow> ptr"
  am_irqs_masked :: bool
  am_sleep_flag :: u32
  am_res :: 'r

section \<open>The tables of handlers\<close>

text \<open>The static initialisers fill the row of core 0 only: \<open>{{[0 ... N_EXCEP-1] = arch_panic_handler}}\<close>.\<close>

definition arm_exhandler_init :: "u32 \<Rightarrow> u32 \<Rightarrow> handler" where
  "arm_exhandler_init core i = (if core = 0 \<and> i < ARM_N_EXCEP then arch_panic_handler else no_handler)"

definition arm_irqhandler_init :: "u32 \<Rightarrow> u32 \<Rightarrow> handler" where
  "arm_irqhandler_init core i = (if core = 0 \<and> i < ARM_N_IRQ then arch_unhandled_irq else no_handler)"

definition arm_in_isr :: "u32 \<Rightarrow> 'r arm_st \<Rightarrow> bool" where
  "arm_in_isr core s = (am_frame s core \<noteq> NULL)"

definition arm_set_context_frame :: "u32 \<Rightarrow> ptr \<Rightarrow> 'r arm_st \<Rightarrow> 'r arm_st" where
  "arm_set_context_frame core frame s = s\<lparr>am_frame := (am_frame s)(core := frame)\<rparr>"

definition arm_get_context_frame :: "u32 \<Rightarrow> 'r arm_st \<Rightarrow> ptr" where
  "arm_get_context_frame core s = am_frame s core"

text \<open>An access outside of the arrays is undefined; the identifier is decremented first, and wraps.\<close>

definition arm_arch_register :: "u32 \<Rightarrow> u32 \<Rightarrow> handler \<Rightarrow> 'r arm_st \<Rightarrow> 'r arm_st outcome" where
  "arm_arch_register core i h s =
     (let j = i - 1
      in require (core < ARM_N_CORES \<and> j < ARM_N_EXCEP) Out_of_bounds
           (Ok (s\<lparr>am_exhandler := (am_exhandler s)(core := (am_exhandler s core)(j := h))\<rparr>)))"

definition arm_local_register :: "u32 \<Rightarrow> u32 \<Rightarrow> handler \<Rightarrow> 'r arm_st \<Rightarrow> 'r arm_st outcome" where
  "arm_local_register core i h s =
     (let j = i - 1
      in require (core < ARM_N_CORES \<and> j < ARM_N_IRQ) Out_of_bounds
           (Ok (s\<lparr>am_irqhandler := (am_irqhandler s)(core := (am_irqhandler s core)(j := h))\<rparr>)))"

section \<open>Visor calls\<close>

text \<open>The fields of \<open>context_frame_t\<close> in the order of the declaration.\<close>

abbreviation (input) fr_elr :: u32 where "fr_elr \<equiv> 0"
abbreviation (input) fr_psr :: u32 where "fr_psr \<equiv> 4"
abbreviation (input) fr_ret_addr :: u32 where "fr_ret_addr \<equiv> 8"
abbreviation (input) fr_lr :: u32 where "fr_lr \<equiv> 12"
abbreviation (input) fr_r12 :: u32 where "fr_r12 \<equiv> 16"
abbreviation (input) fr_r3 :: u32 where "fr_r3 \<equiv> 20"
abbreviation (input) fr_r2 :: u32 where "fr_r2 \<equiv> 24"
abbreviation (input) fr_r1 :: u32 where "fr_r1 \<equiv> 28"
abbreviation (input) fr_r0 :: u32 where "fr_r0 \<equiv> 32"

definition arm_vcall_handler ::
  "(vptr \<Rightarrow> u32) \<Rightarrow> 'r vcall_t list \<Rightarrow> vret_t \<Rightarrow> u32 \<Rightarrow> 'r arm_st \<Rightarrow> 'r arm_st outcome" where
  "arm_vcall_handler enc tbl vres core s =
     (let f = arm_get_context_frame core s; m = am_mem s
      in require (f \<noteq> NULL) Null_deref
           (obind (vcall_handler tbl (m (f + fr_r0)) (m (f + fr_r1)) (m (f + fr_r2)) (m (f + fr_r3)) vres (am_res s)) (\<lambda>(v, r).
            Ok (s\<lparr>am_mem := m(f + fr_r0 := enc (vr_p v), f + fr_r1 := vr_size v, f + fr_r2 := vr_status v), am_res := r\<rparr>))))"

text \<open>\<open>env\<close>: what the visor-call handler works with.\<close>

record 'r arm_env =
  ae_enc :: "vptr \<Rightarrow> u32"
  ae_tbl :: "'r vcall_t list"
  ae_vres :: vret_t
  ae_run :: "handler \<Rightarrow> 'r arm_st \<Rightarrow> 'r arm_st outcome"

definition arm_call :: "'r arm_env \<Rightarrow> u32 \<Rightarrow> handler \<Rightarrow> 'r arm_st \<Rightarrow> 'r arm_st outcome" where
  "arm_call e core h s =
     (if h = no_handler then Fault Null_deref
      else if h = arm_vcall_ptr then arm_vcall_handler (ae_enc e) (ae_tbl e) (ae_vres e) core s
      else ae_run e h s)"

definition arm_exception_handler :: "'r arm_env \<Rightarrow> u32 \<Rightarrow> u32 \<Rightarrow> ptr \<Rightarrow> 'r arm_st \<Rightarrow> 'r arm_st outcome" where
  "arm_exception_handler e core i frame s =
     (let s1 = arm_set_context_frame core frame s; j = i - 1
      in obind (if j \<ge> ARM_N_EXCEP
                then require (core < ARM_N_CORES \<and> j - ARM_N_EXCEP < ARM_N_IRQ) Out_of_bounds
                       (arm_call e core (am_irqhandler s1 core (j - ARM_N_EXCEP)) s1)
                else require (core < ARM_N_CORES) Out_of_bounds (arm_call e core (am_exhandler s1 core j) s1))
           (\<lambda>s2. Ok (arm_set_context_frame core NULL s2)))"

section \<open>Setup\<close>

definition arm_di :: "'r arm_st \<Rightarrow> 'r arm_st" where
  "arm_di s = s\<lparr>am_irqs_masked := True\<rparr>"

definition arm_ei :: "'r arm_st \<Rightarrow> 'r arm_st" where
  "arm_ei s = s\<lparr>am_irqs_masked := False\<rparr>"

definition arm_early_setup :: "'r arm_st \<Rightarrow> 'r arm_st" where
  "arm_early_setup s = arm_di s"

definition arm_setup :: "u32 \<Rightarrow> 'r arm_st \<Rightarrow> 'r arm_st outcome" where
  "arm_setup core s = arm_arch_register core 10 arm_vcall_ptr s"

text \<open>The critical sections of this architecture are empty.\<close>

definition arm_di_save_state :: "u32 \<Rightarrow> 'r arm_st \<Rightarrow> u32 \<times> 'r arm_st" where
  "arm_di_save_state istate s = (istate, s)"

definition arm_ei_restore_state :: "u32 \<Rightarrow> 'r arm_st \<Rightarrow> 'r arm_st" where
  "arm_ei_restore_state istate s = s"

definition arm_suspended_state_was :: "u32 \<Rightarrow> 'r arm_st \<Rightarrow> bool outcome" where
  "arm_suspended_state_was state s =
     require (state \<noteq> 0xffff) Assert_failed
       (Ok (if am_sleep_flag s = 0 then False else am_sleep_flag s = state))"

definition arm_signal_suspend :: "u32 \<Rightarrow> 'r arm_st \<Rightarrow> 'r arm_st" where
  "arm_signal_suspend state s = s\<lparr>am_sleep_flag := state\<rparr>"

definition arm_signal_resume :: "'r arm_st \<Rightarrow> 'r arm_st" where
  "arm_signal_resume s = s\<lparr>am_sleep_flag := 0xffff\<rparr>"

section \<open>Entering an exception\<close>

text \<open>The processor pushes eight words (ARMv6-M, B1.5.6), \<open>isr\<close> pushes the link register below them, and passes the exception's
  number and the stack pointer. \<open>xlr\<close> is the value the link register gets on entry.\<close>

record arm_regs =
  ar_r0 :: u32
  ar_r1 :: u32
  ar_r2 :: u32
  ar_r3 :: u32
  ar_r12 :: u32
  ar_lr :: u32
  ar_pc :: u32
  ar_psr :: u32
  ar_sp :: u32

definition arm_push :: "u32 \<Rightarrow> arm_regs \<Rightarrow> (ptr \<Rightarrow> u32) \<Rightarrow> (ptr \<Rightarrow> u32)" where
  "arm_push xlr g m =
     (let p = ar_sp g - 32
      in m(p := ar_r0 g, p + 4 := ar_r1 g, p + 8 := ar_r2 g, p + 12 := ar_r3 g, p + 16 := ar_r12 g, p + 20 := ar_lr g,
           p + 24 := ar_pc g, p + 28 := ar_psr g, p - 4 := xlr))"

definition arm_isr :: "'r arm_env \<Rightarrow> u32 \<Rightarrow> u32 \<Rightarrow> u32 \<Rightarrow> arm_regs \<Rightarrow> 'r arm_st \<Rightarrow> 'r arm_st outcome" where
  "arm_isr e core ipsr xlr g s =
     arm_exception_handler e core ipsr (ar_sp g - 36) (s\<lparr>am_mem := arm_push xlr g (am_mem s)\<rparr>)"

text \<open>\<open>arch_visor_call\<close>: the registers are set and \<open>svc\<close> raises exception 11; on the return the processor reloads the registers
  from the words it pushed. \<open>g\<close> holds the other registers, \<open>ret\<close> the words of \<open>*ret\<close>, or nothing for a NULL pointer.\<close>

definition arm_visor_call ::
  "'r arm_env \<Rightarrow> u32 \<Rightarrow> u32 \<Rightarrow> arm_regs \<Rightarrow> u32 \<Rightarrow> u32 \<Rightarrow> u32 \<Rightarrow> u32 \<Rightarrow> (u32 \<times> u32 \<times> u32) option \<Rightarrow> 'r arm_st
     \<Rightarrow> ((u32 \<times> u32 \<times> u32) option \<times> 'r arm_st) outcome" where
  "arm_visor_call e core xlr g c arg0 arg1 arg2 ret s =
     (case ret of
        None \<Rightarrow> Ok (None, s)
      | Some _ \<Rightarrow>
          obind (arm_isr e core 11 xlr (g\<lparr>ar_r0 := c, ar_r1 := arg0, ar_r2 := arg1, ar_r3 := arg2\<rparr>) s) (\<lambda>s1.
            let p = ar_sp g - 32 in Ok (Some (am_mem s1 p, am_mem s1 (p + 4), am_mem s1 (p + 8)), s1)))"

section \<open>Processor identification\<close>

definition arm_core_impid :: "u32 \<Rightarrow> u32" where "arm_core_impid cpuid = drop_bit 24 cpuid"

definition arm_core_varid :: "u32 \<Rightarrow> u32" where "arm_core_varid cpuid = drop_bit 20 cpuid AND 0xf"

definition arm_core_archid :: "u32 \<Rightarrow> u32" where "arm_core_archid cpuid = drop_bit 16 cpuid AND 0xf"

definition arm_core_partno :: "u32 \<Rightarrow> u32" where "arm_core_partno cpuid = drop_bit 4 cpuid AND 0xfff"

definition arm_core_revid :: "u32 \<Rightarrow> u32" where "arm_core_revid cpuid = cpuid AND 0xf"

text \<open>The five fields are the whole word.\<close>

lemma arm_cpuid_fields:
  "cpuid = push_bit 24 (arm_core_impid cpuid) OR push_bit 20 (arm_core_varid cpuid) OR push_bit 16 (arm_core_archid cpuid)
     OR push_bit 4 (arm_core_partno cpuid) OR arm_core_revid cpuid"
proof (rule bit_word_eqI)
  fix n assume "n < LENGTH(32)"
  then consider "n < 4" | "4 \<le> n" "n < 16" | "16 \<le> n" "n < 20" | "20 \<le> n" "n < 24" | "24 \<le> n" "n < 32" by fastforce
  moreover have m: "x AND 0xf = take_bit 4 x" "x AND 0xfff = take_bit 12 x" for x :: u32
    by (simp_all add: take_bit_eq_mask mask_eq_exp_minus_1)
  ultimately show "bit cpuid n = bit (push_bit 24 (arm_core_impid cpuid) OR push_bit 20 (arm_core_varid cpuid) OR push_bit 16 (arm_core_archid cpuid)
     OR push_bit 4 (arm_core_partno cpuid) OR arm_core_revid cpuid) n"
    unfolding arm_core_impid_def arm_core_varid_def arm_core_archid_def arm_core_partno_def arm_core_revid_def m
    by cases (auto simp: bit_simps)
qed

section \<open>The single-cycle registers of the RP2040\<close>

abbreviation (input) SIO_BASE :: u32 where "SIO_BASE \<equiv> 0xd0000000"
abbreviation (input) SIO_OFFSET_END :: u32 where "SIO_OFFSET_END \<equiv> 0x17c"

definition platform_sio_read :: "'d hw \<Rightarrow> u32 \<Rightarrow> 'd \<Rightarrow> status_t \<times> u32 option \<times> 'd" where
  "platform_sio_read hw offset s =
     (if offset \<le> SIO_OFFSET_END then (case hw_rd hw (SIO_BASE + offset) s of (v, s1) \<Rightarrow> (success, Some v, s1))
      else (error_func_inval_arg, None, s))"

definition platform_sio_write :: "'d hw \<Rightarrow> u32 \<Rightarrow> u32 \<Rightarrow> 'd \<Rightarrow> status_t \<times> 'd" where
  "platform_sio_write hw offset val s =
     (if offset \<le> SIO_OFFSET_END then (success, hw_wr hw (SIO_BASE + offset) val s) else (error_func_inval_arg, s))"

section \<open>Dispatching\<close>

lemma set_frame_tables [simp]:
  "am_exhandler (arm_set_context_frame core f s) = am_exhandler s" "am_irqhandler (arm_set_context_frame core f s) = am_irqhandler s"
  by (simp_all add: arm_set_context_frame_def)

text \<open>A handler that was registered for exception \<open>i\<close> runs when exception \<open>i\<close> is taken, with the frame set, and one
  registered for interrupt \<open>k\<close> runs on exception \<open>15 + k\<close>; afterwards no frame is set. No identifier but 1 to 15 is inside of
  the table of exceptions.\<close>

theorem arm_registered_handler_runs:
  assumes h: "h \<noteq> no_handler" "h \<noteq> arm_vcall_ptr"
  shows "(arm_arch_register core i h s = Ok s1 \<longrightarrow> arm_exception_handler e core i f s1 =
      obind (ae_run e h (arm_set_context_frame core f s1)) (\<lambda>s2. Ok (arm_set_context_frame core NULL s2)))
    \<and> (arm_local_register core k h s = Ok s2 \<longrightarrow> arm_exception_handler e core (15 + k) f s2 =
      obind (ae_run e h (arm_set_context_frame core f s2)) (\<lambda>s2. Ok (arm_set_context_frame core NULL s2)))
    \<and> (arm_arch_register core i h s = Fault Out_of_bounds \<longleftrightarrow> 2 \<le> core \<or> i = 0 \<or> 15 < i)"
proof (intro conjI impI)
  assume "arm_arch_register core i h s = Ok s1"
  then have "core < 2" "\<not> 15 \<le> i - 1" "am_exhandler s1 core (i - 1) = h"
    by (auto simp: arm_arch_register_def Let_def outcome_simps)
  then show "arm_exception_handler e core i f s1 =
      obind (ae_run e h (arm_set_context_frame core f s1)) (\<lambda>s2. Ok (arm_set_context_frame core NULL s2))"
    using h by (simp add: arm_exception_handler_def arm_call_def Let_def)
next
  assume "arm_local_register core k h s = Ok s2"
  then have k: "core < 2" "k - 1 < 26" "am_irqhandler s2 core (k - 1) = h"
    by (auto simp: arm_local_register_def Let_def outcome_simps)
  define j where "j = k - 1"
  have e: "15 + k - 1 = j + 15" by (simp add: j_def)
  have "unat (j + 15) = unat j + 15" using k(2) by (simp add: j_def [symmetric] word_less_nat_alt unat_word_ariths)
  then have "15 \<le> j + 15" by (simp add: word_le_nat_alt)
  then show "arm_exception_handler e core (15 + k) f s2 =
      obind (ae_run e h (arm_set_context_frame core f s2)) (\<lambda>s2. Ok (arm_set_context_frame core NULL s2))"
    using h k unfolding j_def [symmetric] arm_exception_handler_def Let_def e by (simp add: arm_call_def)
next
  have "i - 1 < 15 \<longleftrightarrow> \<not> (i = 0 \<or> 15 < i)"
  proof (cases "i = 0")
    case False
    then have "unat (i - 1) = unat i - 1" "0 < unat i" by (simp_all add: unat_minus_one unat_gt_0)
    then show ?thesis using False by (simp add: word_less_nat_alt) linarith
  qed simp
  then show "arm_arch_register core i h s = Fault Out_of_bounds \<longleftrightarrow> 2 \<le> core \<or> i = 0 \<or> 15 < i"
    by (auto simp: arm_arch_register_def Let_def require_def not_less)
qed

text \<open>A system with an empty table of visor calls whose handlers note their identifier in memory at address 0.\<close>

definition demo_arm :: "unit arm_st" where
  "demo_arm = \<lparr>am_mem = \<lambda>_. 0, am_exhandler = arm_exhandler_init, am_irqhandler = arm_irqhandler_init, am_frame = \<lambda>_. NULL,
     am_irqs_masked = True, am_sleep_flag = 0, am_res = ()\<rparr>"

definition demo_arm_env :: "unit arm_env" where
  "demo_arm_env = \<lparr>ae_enc = \<lambda>_. 0, ae_tbl = [], ae_vres = \<lparr>vr_p = P_null, vr_size = 0, vr_status = 0\<rparr>,
     ae_run = \<lambda>h s. Ok (s\<lparr>am_mem := (am_mem s)(0 := of_nat h)\<rparr>)\<rparr>"

theorem arm_registered_handler_runs_witness:
  "\<exists>s1 s2. arm_arch_register 0 14 7 demo_arm = Ok s1 \<and> arm_exception_handler demo_arm_env 0 14 0x2000 s1 = Ok s2 \<and> am_mem s2 0 = 7"
proof -
  obtain s1 where s1: "arm_arch_register 0 14 7 demo_arm = Ok s1" by (simp add: arm_arch_register_def Let_def require_def)
  show ?thesis
    using arm_registered_handler_runs [of 7 0 14 demo_arm s1 demo_arm_env "0x2000"] s1
    by (auto simp: demo_arm_env_def arm_set_context_frame_def)
qed

section \<open>Visor calls never arrive\<close>

text \<open>\<open>arch_setup\<close> registers the visor-call handler for exception 10; the instruction \<open>svc\<close> raises exception 11. On the boot core
  every visor call runs the panic handler.\<close>

lemma arm_visor_call_panics:
  assumes "am_exhandler s = arm_exhandler_init" and "arm_setup 0 s = Ok s1"
  shows "arm_isr e 0 11 xlr g s1 =
    obind (ae_run e arch_panic_handler (arm_set_context_frame 0 (ar_sp g - 36) (s1\<lparr>am_mem := arm_push xlr g (am_mem s1)\<rparr>)))
      (\<lambda>s2. Ok (arm_set_context_frame 0 NULL s2))"
proof -
  have "am_exhandler s1 0 10 = arch_panic_handler"
    using assms by (auto simp: arm_setup_def arm_arch_register_def Let_def outcome_simps arm_exhandler_init_def)
  then show ?thesis by (simp add: arm_isr_def arm_exception_handler_def Let_def arm_call_def)
qed

text \<open>So a visor call whose panic handler came back would return its own arguments as the result.\<close>

lemma arm_visor_call_echoes:
  assumes "am_exhandler s = arm_exhandler_init" and "arm_setup 0 s = Ok s1"
    and "\<And>t. ae_run e arch_panic_handler t = Ok t"
  shows "\<exists>s2. arm_visor_call e 0 xlr g c arg0 arg1 arg2 (Some v) s1 = Ok (Some (c, arg0, arg1), s2)"
  using arm_visor_call_panics [OF assms(1,2)] assms(3)
  by (simp add: arm_visor_call_def arm_set_context_frame_def arm_push_def Let_def)

text \<open>The declaration of \<open>context_frame_t\<close> is the reverse of what the processor pushes: the field \<open>r0\<close>, which holds the code of a
  visor call, is the saved status register, and \<open>psr\<close> is the register \<open>r0\<close>.\<close>

lemma arm_frame_reversed:
  "arm_push xlr g m (ar_sp g - 36 + fr_r0) = ar_psr g" "arm_push xlr g m (ar_sp g - 36 + fr_psr) = ar_r0 g"
  "arm_push xlr g m (ar_sp g - 36 + fr_r1) = ar_pc g" "arm_push xlr g m (ar_sp g - 36 + fr_r12) = ar_r3 g"
  "arm_push xlr g m (ar_sp g - 36 + fr_elr) = xlr"
  by (simp_all add: arm_push_def Let_def)

end
