(* ===== verification/Ibex.thy ===== *)
theory Ibex
  imports Boot
begin

text \<open>
  The Ibex simple system (\<open>platform/ibex/simple_system\<close>, \<open>driver/schedclk/schedclk_ibex\<close>,
  \<open>driver/console/con_serial_ibex\<close>): a simulated RISC-V board whose timer has other register addresses than the FE310's, whose
  serial device is a write-only register, and whose boot copies no sections.

  The drivers are the FE310's with another register map. \<open>ibex_map\<close> is that map: the FE310's operations on hardware seen
  through it are the Ibex operations, so that what is proved of the former holds of the latter.
\<close>

section \<open>The core-local timer\<close>

abbreviation (input) IBEX_MTCMP_OFFSET :: u32 where "IBEX_MTCMP_OFFSET \<equiv> 0x8"
abbreviation (input) IBEX_MTIME_OFFSET :: u32 where "IBEX_MTIME_OFFSET \<equiv> 0x0"

definition ibex_clint_setup :: "'h hw \<Rightarrow> resources \<Rightarrow> bool \<Rightarrow> 'h clint \<Rightarrow> (status_t \<times> 'h clint) outcome" where
  "ibex_clint_setup hw r alloc c =
     obind (visor_fetch r fetch_dp hw_clint 0) (\<lambda>v.
       if vr_status v \<noteq> success then Ok (vr_status v, c)
       else if \<not> alloc then Ok (error_memory_low, c\<lparr>clint_port := None\<rparr>)
       else case vr_p v of
              P_module m \<Rightarrow>
                Ok (success,
                  c\<lparr>clint_port := Some \<lparr>clint_port_id = hw_clint, clint_baddr = mod_baddr m, clint_stride = mod_stride m\<rparr>,
                    clint_dev := mmio64_wr hw (mod_baddr m + IBEX_MTIME_OFFSET) 0 (clint_dev c)\<rparr>)
            | _ \<Rightarrow> Fault Null_deref)"

definition ibex_clint_exit :: "'h clint \<Rightarrow> status_t \<times> 'h clint" where
  "ibex_clint_exit c = (success, c\<lparr>clint_port := None\<rparr>)"

definition ibex_clint_config_tcmp :: "'h hw \<Rightarrow> u32 \<Rightarrow> u64 \<Rightarrow> 'h clint \<Rightarrow> (status_t \<times> 'h clint) outcome" where
  "ibex_clint_config_tcmp hw core_id v c =
     (if \<not> core_id < N_CORES then Ok (error_system_inval_cpu, c)
      else with_clint c (\<lambda>b. Ok (success, c\<lparr>clint_dev := mmio64_wr hw (b + IBEX_MTCMP_OFFSET) v (clint_dev c)\<rparr>)))"

primrec ibex_read_time_loop :: "nat \<Rightarrow> 'h hw \<Rightarrow> ptr \<Rightarrow> 'h \<Rightarrow> (u64 \<times> 'h) outcome" where
  "ibex_read_time_loop 0 hw b s = Hang"
| "ibex_read_time_loop (Suc fuel) hw b s =
     (let (temp, s1) = hw_rd hw (b + IBEX_MTIME_OFFSET + 4) s;
          (tl, s2) = hw_rd hw (b + IBEX_MTIME_OFFSET) s1;
          (th, s3) = hw_rd hw (b + IBEX_MTIME_OFFSET + 4) s2
      in if temp \<noteq> th then ibex_read_time_loop fuel hw b s3
         else Ok (push_bit 32 (ucast th) OR ucast tl, s3))"

definition ibex_clint_read_time :: "nat \<Rightarrow> 'h hw \<Rightarrow> 'h clint \<Rightarrow> (u64 \<times> 'h clint) outcome" where
  "ibex_clint_read_time fuel hw c =
     with_clint c (\<lambda>b. obind (ibex_read_time_loop fuel hw b (clint_dev c)) (\<lambda>(t, s). Ok (t, c\<lparr>clint_dev := s\<rparr>)))"

section \<open>The scheduler clock\<close>

definition ibex_read_ticks :: "nat \<Rightarrow> 'd hw \<Rightarrow> ('h, 'd) tmr \<Rightarrow> (u64 \<times> ('h, 'd) tmr) outcome" where
  "ibex_read_ticks fuel hw s = obind (ibex_clint_read_time fuel hw (tmr_clint s)) (\<lambda>(t, c). Ok (t, s\<lparr>tmr_clint := c\<rparr>))"

definition ibex_arm_timer :: "'d hw \<Rightarrow> u32 \<Rightarrow> u64 \<Rightarrow> ('h, 'd) tmr \<Rightarrow> ('h, 'd) tmr outcome" where
  "ibex_arm_timer hw core v s =
     obind (ibex_clint_config_tcmp hw core v (tmr_clint s)) (\<lambda>(ret, c).
       if ret \<noteq> 0 then Fault (Panic ret) else Ok (s\<lparr>tmr_clint := c\<rparr>))"

definition ibex_tmr_isr ::
  "nat \<Rightarrow> 'd hw \<Rightarrow> (handler \<Rightarrow> ('h, 'd) tmr \<Rightarrow> ('h, 'd) tmr outcome) \<Rightarrow> u32 \<Rightarrow> ('h, 'd) tmr \<Rightarrow> ('h, 'd) tmr outcome" where
  "ibex_tmr_isr fuel hw run core s =
     obind (ibex_read_ticks fuel hw (set_csrs arch_di_mtime s)) (\<lambda>(t, s1).
     obind (ibex_arm_timer hw core (t + ticks s1) s1) (\<lambda>s2.
     let s3 = set_csrs arch_ei_mtime s2
     in if tmr_cb s3 \<noteq> no_handler then run (tmr_cb s3) s3 else Ok s3))"

definition ibex_timer_reg_cb :: "handler \<Rightarrow> ('h, 'd) tmr \<Rightarrow> ('h, 'd) tmr" where
  "ibex_timer_reg_cb cb s = set_csrs arch_ei_mtime ((set_csrs arch_di_mtime s)\<lparr>tmr_cb := cb\<rparr>)"

definition ibex_get_timer_prop :: "resources \<Rightarrow> ('h, 'd) tmr \<Rightarrow> (status_t \<times> ('h, 'd) tmr) outcome" where
  "ibex_get_timer_prop r s =
     obind (visor_fetch r fetch_sp sched_timer 0) (\<lambda>v.
       if vr_status v \<noteq> success then Ok (vr_status v, s)
       else case vr_p v of
              P_swdev sp \<Rightarrow>
                obind (visor_fetch r fetch_dp (hwdev_id sp AND 0xff00) (hwdev_id sp AND 0xff)) (\<lambda>v'.
                  if vr_status v' \<noteq> success then Ok (vr_status v', s)
                  else case vr_p v' of P_module m \<Rightarrow> Ok (success, s\<lparr>tm := Some m\<rparr>) | _ \<Rightarrow> Fault Null_deref)
            | _ \<Rightarrow> Fault Null_deref)"

definition ibex_timer_ticks_msec :: "u64 \<Rightarrow> u64" where
  "ibex_timer_ticks_msec freq = freq div 1000"

definition ibex_timer_set_period :: "nat \<Rightarrow> 'd hw \<Rightarrow> u32 \<Rightarrow> u32 \<Rightarrow> ('h, 'd) tmr \<Rightarrow> ('h, 'd) tmr outcome" where
  "ibex_timer_set_period fuel hw core p s =
     (case tm s of
        None \<Rightarrow> Fault Null_deref
      | Some m \<Rightarrow>
          let s1 = (set_csrs arch_di_mtime s)\<lparr>ticks := ibex_timer_ticks_msec (ucast (mod_clk m)) * ucast p\<rparr>
          in obind (ibex_read_ticks fuel hw s1) (\<lambda>(t, s2).
             obind (ibex_arm_timer hw core (ticks s2 + t) s2) (\<lambda>s3. Ok (set_csrs arch_ei_mtime s3))))"

definition ibex_read_time :: "nat \<Rightarrow> 'd hw \<Rightarrow> ('h, 'd) tmr \<Rightarrow> (u64 \<times> ('h, 'd) tmr) outcome" where
  "ibex_read_time fuel hw s =
     obind (ibex_read_ticks fuel hw s) (\<lambda>(stamp, s1).
       case tm s1 of
         None \<Rightarrow> Fault Null_deref
       | Some m \<Rightarrow> require (mod_clk m \<noteq> 0) Div_by_zero (Ok (stamp * 1000000 div ucast (mod_clk m), s1)))"

definition ibex_timer_port :: "nat \<Rightarrow> 'd hw \<Rightarrow> u32 \<Rightarrow> ('h, 'd) tmr schedclk_t" where
  "ibex_timer_port fuel hw core =
     \<lparr>sc_read_ticks = ibex_read_ticks fuel hw, sc_read_time = ibex_read_time fuel hw,
      sc_set_period = ibex_timer_set_period fuel hw core, sc_reg_cb = ibex_timer_reg_cb\<rparr>"

definition ibex_timer_setup ::
  "nat \<Rightarrow> 'd hw \<Rightarrow> u32 \<Rightarrow> resources \<Rightarrow> bool \<Rightarrow> ('h, 'd) tmr schedclk_core \<times> ('h, 'd) tmr
     \<Rightarrow> (status_t \<times> ('h, 'd) tmr schedclk_core \<times> ('h, 'd) tmr) outcome" where
  "ibex_timer_setup fuel hw core r alloc = (\<lambda>(c, s).
     let s0 = set_csrs arch_di_mtime s
     in if \<not> alloc then Ok (error_memory_low, c, s0)
        else obind (ibex_get_timer_prop r s0) (\<lambda>(ret, s1).
             obind (timer_irq s1) (\<lambda>q.
             obind (link_interrupt core (irq_module q) (irq_id q) plat_tmr_isr_ptr (tmr_sys s1)) (\<lambda>(ret1, sys).
             let ret2 = ret OR ret1;
                 (ret3, c1) = schedclk_attach_device core ret2 (Some (ibex_timer_port fuel hw core)) c
             in obind (ibex_timer_set_period fuel hw core 1 (s1\<lparr>tmr_sys := sys\<rparr>)) (\<lambda>s2. Ok (ret2 OR ret3, c1, s2))))))"

definition ibex_timer_exit ::
  "u32 \<Rightarrow> ('h, 'd) tmr schedclk_core \<times> ('h, 'd) tmr \<Rightarrow> (status_t \<times> ('h, 'd) tmr schedclk_core \<times> ('h, 'd) tmr) outcome" where
  "ibex_timer_exit core = (\<lambda>(c, s).
     let s1 = (set_csrs arch_di_mtime s)\<lparr>tmr_cb := no_handler, ticks := 0\<rparr>
     in obind (timer_irq s1) (\<lambda>q.
        obind (unlink_interrupt core (irq_module q) (irq_id q) (tmr_sys s1)) (\<lambda>(_, sys).
        case schedclk_release_device core c of (ret, c1) \<Rightarrow> Ok (ret, c1, s1\<lparr>tmr_sys := sys\<rparr>))))"

section \<open>The serial device\<close>

definition ibex_uart_tx :: "'d hw \<Rightarrow> uart_port_t \<Rightarrow> u8 \<Rightarrow> 'd \<Rightarrow> status_t \<times> 'd" where
  "ibex_uart_tx hw up c d = (success, hw_wr hw (u_baddr up + TXDATA_OFFSET) (ucast c) d)"

definition ibex_uart_get_properties :: "resources \<Rightarrow> u32 \<Rightarrow> uart_port_t \<Rightarrow> (status_t \<times> uart_port_t) outcome" where
  "ibex_uart_get_properties r sdev up =
     obind (visor_fetch r fetch_sp sdev 0) (\<lambda>v.
       if vr_status v \<noteq> success then Ok (vr_status v, up)
       else case vr_p v of
              P_swdev sp \<Rightarrow>
                let up1 = up\<lparr>u_pmux := pmux sp\<rparr>
                in obind (visor_fetch r fetch_dp (hwdev_id sp AND 0xff00) (hwdev_id sp AND 0xff)) (\<lambda>w.
                     if vr_status w \<noteq> success then Ok (vr_status w, up1)
                     else case vr_p w of
                            P_module m \<Rightarrow>
                              (case interrupt m of
                                 [] \<Rightarrow> Fault Out_of_bounds
                               | q # _ \<Rightarrow> Ok (success, up1\<lparr>u_port_id := mod_id m, u_clk_id := mod_clk_id m, u_baddr := mod_baddr m,
                                                            u_baud := mod_clk m, u_irq := Some q\<rparr>))
                          | _ \<Rightarrow> Fault Null_deref)
            | _ \<Rightarrow> Fault Null_deref)"

record ('c, 'l) ibex_con =
  ic_io :: "('c, 'l) stdio"
  ic_port :: "uart_port_t option"
  ic_driver :: bool
  ic_freed :: "con_obj list"

definition ibex_earlycon_serial_setup :: "resources \<Rightarrow> ('c, 'l) ibex_con \<Rightarrow> (status_t \<times> ('c, 'l) ibex_con) outcome" where
  "ibex_earlycon_serial_setup r s =
     (case ic_port s of
        None \<Rightarrow> Fault Null_deref
      | Some up \<Rightarrow> obind (ibex_uart_get_properties r console_uart up) (\<lambda>(_, up1). Ok (success, s\<lparr>ic_port := Some up1\<rparr>)))"

definition ibex_earlycon_serial_write :: "'d hw \<Rightarrow> uart_port_t \<Rightarrow> u8 \<Rightarrow> 'd \<Rightarrow> status_t \<times> 'd" where
  "ibex_earlycon_serial_write hw up c d = ibex_uart_tx hw up c d"

definition ibex_earlycon_driver_exit :: "('c, 'l) ibex_con \<Rightarrow> status_t \<times> ('c, 'l) ibex_con" where
  "ibex_earlycon_driver_exit s =
     (case console_release_device (ic_io s) of
        (ret, io) \<Rightarrow> (ret, s\<lparr>ic_io := io, ic_freed := ic_freed s @ [Console_port, Earlycon_driver]\<rparr>))"

text \<open>\<open>ap\<close> and \<open>ad\<close>: what the two calls of \<open>malloc\<close> give.\<close>

definition ibex_earlycon_driver_setup ::
  "resources \<Rightarrow> 'c console_t \<Rightarrow> uart_port_t option \<Rightarrow> bool \<Rightarrow> ('c, 'l) ibex_con \<Rightarrow> (status_t \<times> ('c, 'l) ibex_con) outcome" where
  "ibex_earlycon_driver_setup r edev ap ad s =
     (let s1 = s\<lparr>ic_port := ap\<rparr>
      in if ap = None then Ok (error_memory_low, snd (ibex_earlycon_driver_exit s1))
         else let s2 = s1\<lparr>ic_driver := ad\<rparr>
              in if \<not> ad then Ok (error_memory_low, snd (ibex_earlycon_driver_exit s2))
                 else obind (ibex_earlycon_serial_setup r s2) (\<lambda>(ret, s3).
                      if ret \<noteq> 0 then Ok (ret, snd (ibex_earlycon_driver_exit s3))
                      else case console_attach_device ret (Some edev) (ic_io s3) of (ret1, io) \<Rightarrow>
                        let s4 = s3\<lparr>ic_io := io\<rparr>
                        in if ret1 = 0 then Ok (ret1, s4) else Ok (ret1, snd (ibex_earlycon_driver_exit s4))))"

section \<open>Tables, boot, reset and the end of the simulation\<close>

definition ibex_modules :: "module_t list" where
  "ibex_modules =
     [\<lparr>mod_id = hw_uart OR 0, mod_baddr = 0x20000, mod_stride = 1, mod_clk = 0, mod_clk_id = 0, interrupt = [no_irq]\<rparr>,
      \<lparr>mod_id = hw_clint, mod_baddr = 0x30000, mod_stride = 16, mod_clk = 0, mod_clk_id = 0, interrupt = [no_irq]\<rparr>,
      \<lparr>mod_id = hw_timer OR 0, mod_baddr = 0, mod_stride = 0, mod_clk = 2000000, mod_clk_id = 0,
       interrupt = [\<lparr>irq_module = int_local, irq_id = 7, irq_trigger = int_level\<rparr>]\<rparr>]"

definition ibex_device_prop :: "u32 \<Rightarrow> dp_t" where
  "ibex_device_prop xclk = \<lparr>base_clock = xclk, ports = [], modules = ibex_modules\<rparr>"

definition ibex_software_prop :: sp_t where
  "ibex_software_prop =
     \<lparr>terravisor = \<lparr>devids = [console_uart, sched_timer]\<rparr>,
      swdev = [\<lparr>swdev_id = console_uart, hwdev_id = hw_uart OR 0, pmux = None\<rparr>,
               \<lparr>swdev_id = sched_timer, hwdev_id = hw_timer OR 0, pmux = None\<rparr>]\<rparr>"

definition ibex_resources_setup :: "dp_t \<Rightarrow> sp_t \<Rightarrow> resources \<Rightarrow> status_t \<times> resources" where
  "ibex_resources_setup device_prop software_prop r =
     (case dp_init (Some device_prop) r of (ret, r1) \<Rightarrow>
        (case sp_init (Some software_prop) r1 of (ret', r2) \<Rightarrow> (ret OR ret', r2)))"

definition ibex_fetch_sp :: "u32 \<Rightarrow> u32 \<Rightarrow> u32 \<Rightarrow> vret_t \<Rightarrow> resources \<Rightarrow> vret_t outcome" where
  "ibex_fetch_sp a0 a1 a2 ret r =
     (case sw_prop r of
        None \<Rightarrow> Fault Null_deref
      | Some sp \<Rightarrow>
          let p = ptr_of P_swdev (sp_terravisor_dev_info sp a0)
          in Ok (ret\<lparr>vr_p := p, vr_size := (if p \<noteq> P_null then 4 else 0), vr_status := status_of_ptr p\<rparr>))"

definition ibex_fetch_dp :: "u32 \<Rightarrow> u32 \<Rightarrow> u32 \<Rightarrow> vret_t \<Rightarrow> resources \<Rightarrow> vret_t outcome" where
  "ibex_fetch_dp a0 a1 a2 ret r =
     (case dev_prop r of
        None \<Rightarrow> Fault Null_deref
      | Some dp \<Rightarrow>
          let (p, sz) =
            (if a0 = hw_clock then (P_clock (base_clock dp), 8)
             else if a0 = hw_gpio then (ptr_of P_gpio (dp_get_port_info (ports dp) (a0 OR a1)), 12)
             else (ptr_of P_module (dp_get_module_info (modules dp) (a0 OR a1)), 24))
          in Ok (ret\<lparr>vr_p := p, vr_size := (if p \<noteq> P_null then sz else 0), vr_status := status_of_ptr p\<rparr>))"

definition ibex_cpu_setup :: "cpu \<Rightarrow> cpu" where
  "ibex_cpu_setup = arch_ei"

text \<open>These are the functions of the FE310 once more, so that the visor calls of its drivers are those of this development.\<close>

lemma ibex_handlers_eq:
  "ibex_resources_setup = platform_resources_setup" "ibex_fetch_sp = platform_fetch_sp" "ibex_fetch_dp = platform_fetch_dp"
  by (intro ext; simp add: ibex_resources_setup_def platform_resources_setup_def ibex_fetch_sp_def platform_fetch_sp_def
      ibex_fetch_dp_def platform_fetch_dp_def)+

definition ibex_bss_clear :: "('d, 'c) boot_env \<Rightarrow> mem \<Rightarrow> status_t \<times> mem" where
  "ibex_bss_clear e m = (success, fst (memset m (l_bss_start e) 0 (l_bss_size e)))"

definition ibex_early_setup :: "('d, 'c) boot_env \<Rightarrow> ('h, 'd, 's, 'c) boot \<Rightarrow> ('h, 'd, 's, 'c) boot outcome" where
  "ibex_early_setup e b =
     (let (temp_randomnumber, m0) = (if USE_PRNG e then boot_rand e (bt_mem b) else (0, bt_mem b));
          (r1, m1) = ibex_bss_clear e m0
      in obind (on_heap platform_init_heap (load_locks e m1 b)) (\<lambda>(r2, b1).
         let (r3, res) = ibex_resources_setup (be_dp e) (be_sp e) (bt_res b1);
             m2 = (if USE_PRNG e then boot_srand e temp_randomnumber (bt_mem b1) else bt_mem b1)
         in obind (syslog_stdout_disable e (b1\<lparr>bt_res := res, bt_mem := m2\<rparr>)) (\<lambda>b2.
            let (_, b3) = mslog_on b2
            in if r1 OR r2 OR r3 \<noteq> success then exit_c (\<lambda>_ _. Ok) 0 1 b3 else Ok b3)))"

definition ibex_get_reset_syndrome :: reset_t where
  "ibex_get_reset_syndrome = power_on_reset"

definition ibex_reset_handler :: "reset_t \<Rightarrow> unit outcome" where
  "ibex_reset_handler rsyn = (if rsyn = power_on_reset then Ok () else Fault (Panic error_system))"

definition platform_sim_halt :: "'d hw \<Rightarrow> 'd \<Rightarrow> 'd" where
  "platform_sim_halt hw d = hw_wr hw (0x20000 + 0x8) 1 d"

section \<open>The same drivers on another register map\<close>

text \<open>Where the FE310's registers of a timer at \<open>b\<close> lie on the Ibex.\<close>

definition ibex_addr :: "ptr \<Rightarrow> ptr \<Rightarrow> ptr" where
  "ibex_addr b a =
     (if a = b + 0xbff8 then b else if a = b + 0xbffc then b + 4
      else if a = b + 0x4000 then b + 8 else if a = b + 0x4004 then b + 12 else a)"

definition ibex_map :: "ptr \<Rightarrow> 'd hw \<Rightarrow> 'd hw" where
  "ibex_map b hw = \<lparr>hw_rd = \<lambda>a. hw_rd hw (ibex_addr b a), hw_wr = \<lambda>a. hw_wr hw (ibex_addr b a)\<rparr>"

lemma ibex_map_regs [simp]:
  "hw_rd (ibex_map b hw) (b + MTIME_OFFSET) = hw_rd hw b" "hw_rd (ibex_map b hw) (b + MTIME_OFFSET + 4) = hw_rd hw (b + 4)"
  "hw_wr (ibex_map b hw) (b + MTIME_OFFSET) = hw_wr hw b" "hw_wr (ibex_map b hw) (b + MTIME_OFFSET + 4) = hw_wr hw (b + 4)"
  "hw_wr (ibex_map b hw) (b + MTCMP_OFFSET 0) = hw_wr hw (b + 8)" "hw_wr (ibex_map b hw) (b + MTCMP_OFFSET 0 + 4) = hw_wr hw (b + 12)"
  by (simp_all add: ibex_map_def ibex_addr_def MTIME_OFFSET_def MTCMP_OFFSET_def add.assoc)

lemma core_zero: "(c :: u32) < 1 \<longleftrightarrow> c = 0"
  by (simp add: word_less_nat_alt unat_eq_0)

lemma ibex_config_tcmp_eq:
  assumes "clint_port c = Some p"
  shows "ibex_clint_config_tcmp hw core v c = clint_config_tcmp (ibex_map (clint_baddr p) hw) core v c"
  by (simp add: ibex_clint_config_tcmp_def clint_config_tcmp_def with_clint_def assms mmio64_wr_def core_zero add.assoc)
    (simp add: add.assoc [symmetric])

lemma ibex_read_time_eq:
  assumes "clint_port c = Some p"
  shows "ibex_clint_read_time fuel hw c = clint_read_time fuel (ibex_map (clint_baddr p) hw) c"
proof -
  have "ibex_read_time_loop fuel hw b s = read_time_loop fuel (ibex_map b hw) b s" for b s
    by (induction fuel arbitrary: s) (simp_all add: case_prod_unfold Let_def)
  then show ?thesis by (simp add: ibex_clint_read_time_def clint_read_time_def with_clint_def assms)
qed

lemma read_time_keeps_port: "clint_read_time fuel hw c = Ok (t, c') \<Longrightarrow> clint_port c' = clint_port c"
  by (auto simp: clint_read_time_def with_clint_def outcome_simps split: option.splits)

text \<open>C24: the Ibex drivers are the FE310's on the Ibex register map: reading the time, writing the compare register, the
  interrupt of the timer, setting a period and reading the time in microseconds do exactly what the FE310's operations do
  on hardware seen through the map, in every state with an initialised timer.\<close>

theorem ibex_clock_equiv:
  fixes s :: "('h, 'd) tmr"
  assumes p: "clint_port (tmr_clint s) = Some p"
  shows "ibex_read_ticks fuel hw s = read_time_tmr fuel (ibex_map (clint_baddr p) hw) s
    \<and> ibex_arm_timer hw core v s = arm (ibex_map (clint_baddr p) hw) core v s
    \<and> ibex_tmr_isr fuel hw run core s = plat_tmr_isr fuel (ibex_map (clint_baddr p) hw) run core s
    \<and> ibex_timer_set_period fuel hw core k s = plat_timer_set_period fuel (ibex_map (clint_baddr p) hw) core k s
    \<and> ibex_read_time fuel hw s = plat_read_time fuel (ibex_map (clint_baddr p) hw) s"
proof -
  define hw' where "hw' = ibex_map (clint_baddr p) hw"
  have ticks: "ibex_read_ticks fuel hw t = read_time_tmr fuel hw' t" if "clint_port (tmr_clint t) = Some p" for t :: "('h, 'd) tmr"
    by (simp add: ibex_read_ticks_def read_time_tmr_def ibex_read_time_eq [OF that] hw'_def)
  have arm: "ibex_arm_timer hw core w t = arm hw' core w t" if "clint_port (tmr_clint t) = Some p" for w and t :: "('h, 'd) tmr"
    by (simp add: ibex_arm_timer_def arm_def ibex_config_tcmp_eq [OF that] hw'_def)
  have keep: "clint_port (tmr_clint t') = Some p"
    if "read_time_tmr fuel hw' t = Ok (x, t')" "clint_port (tmr_clint t) = Some p" for x t' and t :: "('h, 'd) tmr"
    using that by (auto simp: read_time_tmr_def outcome_simps dest: read_time_keeps_port)
  have cont: "obind (read_time_tmr fuel hw' t) f = obind (read_time_tmr fuel hw' t) g"
    if "clint_port (tmr_clint t) = Some p" "\<And>x t'. clint_port (tmr_clint t') = Some p \<Longrightarrow> f (x, t') = g (x, t')"
    for f g :: "u64 \<times> ('h, 'd) tmr \<Rightarrow> ('h, 'd) tmr outcome" and t
    using that keep by (cases "read_time_tmr fuel hw' t") auto
  have d: "clint_port (tmr_clint (set_csrs q s)) = Some p" "clint_port (tmr_clint (set_csrs q s\<lparr>ticks := w\<rparr>)) = Some p" for q w
    using p by (simp_all add: set_csrs_def)
  have isr: "ibex_tmr_isr fuel hw run core s = plat_tmr_isr fuel hw' run core s"
    unfolding ibex_tmr_isr_def plat_tmr_isr_def ticks [OF d(1)] by (rule cont [OF d(1)]) (simp add: arm)
  have per: "ibex_timer_set_period fuel hw core k s = plat_timer_set_period fuel hw' core k s"
    by (auto simp: ibex_timer_set_period_def plat_timer_set_period_def ticks [OF d(2)] Let_def ibex_timer_ticks_msec_def
        plat_get_timer_ticks_msec_def arm split: option.split intro!: cont d(2))
  show ?thesis
    using ticks [OF p] arm [OF p] isr per unfolding hw'_def by (simp add: ibex_read_time_def plat_read_time_def)
qed

text \<open>The timer of the Ibex table on registers that read as zero.\<close>

definition demo_ibex_tmr :: "(u32, ptr \<Rightarrow> u32) tmr" where
  "demo_ibex_tmr = \<lparr>tmr_cb = no_handler, ticks = 0, tm = Some (ibex_modules ! 2),
     tmr_clint = \<lparr>clint_port = Some \<lparr>clint_port_id = hw_clint, clint_baddr = 0x30000, clint_stride = 16\<rparr>, clint_dev = \<lambda>_. 0\<rparr>,
     tmr_sys = demo_sys\<rparr>"

theorem ibex_clock_equiv_witness:
  "ibex_read_time 1 demo_boot_hw demo_ibex_tmr = plat_read_time 1 (ibex_map 0x30000 demo_boot_hw) demo_ibex_tmr
    \<and> (\<exists>s'. plat_timer_set_period 1 (ibex_map 0x30000 demo_boot_hw) 0 5 demo_ibex_tmr = Ok s' \<and> ticks s' = 10000)"
proof -
  have p: "clint_port (tmr_clint demo_ibex_tmr) = Some \<lparr>clint_port_id = hw_clint, clint_baddr = 0x30000, clint_stride = 16\<rparr>"
    by (simp add: demo_ibex_tmr_def)
  have "\<exists>s'. ibex_timer_set_period 1 demo_boot_hw 0 5 demo_ibex_tmr = Ok s' \<and> ticks s' = 10000"
    by (simp add: ibex_timer_set_period_def demo_ibex_tmr_def ibex_modules_def ibex_read_ticks_def ibex_clint_read_time_def with_clint_def
        set_csrs_def ibex_arm_timer_def ibex_clint_config_tcmp_def ibex_timer_ticks_msec_def demo_boot_hw_def Let_def mmio64_wr_def)
  then show ?thesis using ibex_clock_equiv [OF p, where fuel = 1 and core = 0 and k = 5 and hw = demo_boot_hw] by simp
qed

text \<open>The boot is that of the FE310 with empty sections to copy.\<close>

lemma ibex_early_setup_eq:
  fixes b :: "('h, 'd, 's, 'c) boot"
  shows "ibex_early_setup e b = platform_early_setup (e\<lparr>l_data_size := 0, l_itim_size := 0\<rparr>) b"
proof -
  let ?e = "e\<lparr>l_data_size := 0, l_itim_size := 0\<rparr>"
  have "boot_rand ?e = boot_rand e" "boot_srand ?e = boot_srand e" "syslog_stdout_disable ?e x = syslog_stdout_disable e x"
    "load_locks ?e m x = load_locks e m x" "platform_bss_clear ?e = ibex_bss_clear e" "platform_copy_data ?e m = (success, m)" "platform_copy_itim ?e m = (success, m)" for m
    and x :: "('h, 'd, 's, 'c) boot"
    by (simp_all add: fun_eq_iff boot_rand_def boot_srand_def load_locks_def syslog_stdout_disable_def set_log_stdout_def platform_bss_clear_def
        ibex_bss_clear_def platform_copy_data_def platform_copy_itim_def memcpy_def)
  then show ?thesis by (simp add: ibex_early_setup_def platform_early_setup_def ibex_handlers_eq case_prod_unfold)
qed

text \<open>The early console comes up exactly when both allocations succeed, and is attached then.\<close>

lemma ibex_earlycon_up:
  fixes s :: "('a, 'b) ibex_con"
  assumes "ibex_earlycon_driver_setup r edev ap ad s = Ok (ret, s')"
  shows "ret = success \<longleftrightarrow> ap \<noteq> None \<and> ad" and "ret = success \<Longrightarrow> console_attached (ic_io s') \<and> con (ic_io s') = Some edev"
    and "ret \<noteq> success \<Longrightarrow> \<not> console_attached (ic_io s')"
proof -
  have "fst (console_attach_device 0 (Some edev) io) = 0"
    "console_attached (snd (console_attach_device 0 (Some edev) io))" "con (snd (console_attach_device 0 (Some edev) io)) = Some edev"
    for io :: "('a, 'b) stdio"
    by (simp_all add: console_attach_device_def register_defs Let_def)
  note ok = this
  have e: "ibex_earlycon_driver_setup r edev ap ad s =
    (if ap = None \<or> \<not> ad then Ok (error_memory_low, snd (ibex_earlycon_driver_exit (if ap = None then s\<lparr>ic_port := ap\<rparr> else s\<lparr>ic_port := ap, ic_driver := ad\<rparr>)))
     else obind (ibex_earlycon_serial_setup r (s\<lparr>ic_port := ap, ic_driver := ad\<rparr>)) (\<lambda>(ret, s3).
       Ok (ret, s3\<lparr>ic_io := snd (console_attach_device 0 (Some edev) (ic_io s3))\<rparr>)))"
    using ok(1) by (auto simp: ibex_earlycon_driver_setup_def ibex_earlycon_serial_setup_def Let_def case_prod_unfold obind_assoc split: option.split)
  have x: "\<not> console_attached (ic_io (snd (ibex_earlycon_driver_exit t)))" for t :: "('a, 'b) ibex_con"
    by (simp add: ibex_earlycon_driver_exit_def console_release_device_def)
  have z: "ret = 0" if "ibex_earlycon_serial_setup r t = Ok (ret, t')" for t t' :: "('a, 'b) ibex_con"
    using that by (auto simp: ibex_earlycon_serial_setup_def outcome_simps split: option.splits)
  show "ret = success \<longleftrightarrow> ap \<noteq> None \<and> ad" "ret = success \<Longrightarrow> console_attached (ic_io s') \<and> con (ic_io s') = Some edev"
    "ret \<noteq> success \<Longrightarrow> \<not> console_attached (ic_io s')"
    using assms x ok(2,3) unfolding e by (auto simp: outcome_simps dest: z split: if_splits)
qed

end
