(* ===== verification/Avr_Boot.thy ===== *)
theory Avr_Boot
  imports Avr_Clock Board
begin

text \<open>
  The start of the Mega-AVR platforms (\<open>arch/avr/8/common_5x_6/terravisor/arch.c\<close>, the device part of
  \<open>platform/mega_avr/common/platform/platform.c\<close>), their watchdog driver (\<open>platform_wdt.c\<close>) on the watchdog engine, and the
  tables and clock gates of the ATmega2560.

  The watchdog's control register is not plain storage: its system-reset bit and prescaler change only in the store after an
  unlocking store, and the reset bit cannot be cleared while the reset cause still names the watchdog. \<open>wdt_hw\<close> states this
  behaviour of the device.
\<close>

section \<open>Architecture\<close>

abbreviation (input) MCUCR :: u16 where "MCUCR \<equiv> 0x55"
abbreviation (input) SMCR :: u16 where "SMCR \<equiv> 0x53"

definition avr_di :: "'d hw8 \<Rightarrow> 'd \<Rightarrow> 'd" where
  "avr_di hw = and8 hw SREG_IO (NOT (bit8 7))"

definition avr_ei :: "'d hw8 \<Rightarrow> 'd \<Rightarrow> 'd" where
  "avr_ei hw = or8 hw SREG_IO (bit8 7)"

definition avr_early_setup :: "'d hw8 \<Rightarrow> 'd \<Rightarrow> 'd" where
  "avr_early_setup hw s = wr8 hw WDTCSR 0 (wr8 hw SMCR 0 (wr8 hw MCUCR 0 (avr_di hw s)))"

text \<open>\<open>arch_wfi\<close> selects idle mode and sleeps; \<open>sleep\<close> is what happens until the processor wakes.\<close>

definition avr_wfi :: "'d hw8 \<Rightarrow> ('d \<Rightarrow> 'd) \<Rightarrow> 'd \<Rightarrow> 'd" where
  "avr_wfi hw sleep s = sleep (avr_ei hw (wr8 hw SMCR 1 s))"

definition avr_suspended_state_was :: "u16 \<Rightarrow> u16 \<Rightarrow> bool outcome" where
  "avr_suspended_state_was state sleep_flag =
     require (state \<noteq> 0xffff) Assert_failed (Ok (if sleep_flag = 0 then False else sleep_flag = state))"

definition avr_signal_suspend :: "u16 \<Rightarrow> u16 \<Rightarrow> u16" where
  "avr_signal_suspend state sleep_flag = state"

definition avr_signal_resume :: "u16 \<Rightarrow> u16" where
  "avr_signal_resume sleep_flag = 0xffff"

definition avr_cpu_setup :: "'d hw8 \<Rightarrow> 'd \<Rightarrow> 'd" where
  "avr_cpu_setup hw = avr_ei hw"

text \<open>The handlers of the platform's visor calls (\<open>platform_resource.c\<close>) with the sizes of the 16-bit target: a \<open>module_t\<close> has two
  interrupts. The code and the arguments have 16 bits.\<close>

definition avr_fetch_sp :: "u16 \<Rightarrow> u16 \<Rightarrow> u16 \<Rightarrow> vret_t \<Rightarrow> resources \<Rightarrow> vret_t outcome" where
  "avr_fetch_sp a0 a1 a2 ret r =
     (case sw_prop r of
        None \<Rightarrow> Fault Null_deref
      | Some sp \<Rightarrow>
          let p = ptr_of P_swdev (sp_terravisor_dev_info sp (ucast a0))
          in Ok (ret\<lparr>vr_p := p, vr_size := (if p \<noteq> P_null then 2 else 0), vr_status := status_of_ptr p\<rparr>))"

definition avr_fetch_dp :: "u16 \<Rightarrow> u16 \<Rightarrow> u16 \<Rightarrow> vret_t \<Rightarrow> resources \<Rightarrow> vret_t outcome" where
  "avr_fetch_dp a0 a1 a2 ret r =
     (case dev_prop r of
        None \<Rightarrow> Fault Null_deref
      | Some dp \<Rightarrow>
          let (p, sz) =
            (if a0 = 0x3000 then (P_clock (base_clock dp), 4)
             else if a0 = 0x5000 then (ptr_of P_gpio (dp_get_port_info (ports dp) (ucast (a0 OR a1))), 6)
             else (ptr_of P_module (dp_get_module_info (modules dp) (ucast (a0 OR a1))), 20))
          in Ok (ret\<lparr>vr_p := p, vr_size := (if p \<noteq> P_null then sz else 0), vr_status := status_of_ptr p\<rparr>))"

definition avr_resources_setup :: "dp_t \<Rightarrow> sp_t \<Rightarrow> resources \<Rightarrow> status_t \<times> resources" where
  "avr_resources_setup device_prop software_prop r =
     (case dp_init (Some device_prop) r of (ret, r1) \<Rightarrow>
        (case sp_init (Some software_prop) r1 of (ret', r2) \<Rightarrow> (ret OR ret', r2)))"

text \<open>For 16-bit identifiers the answers are those of the 32-bit handlers that the drivers of this development call, up to the size.\<close>

lemma avr_fetch_agrees:
  "map_outcome (\<lambda>v. v\<lparr>vr_size := 0\<rparr>) (avr_fetch_sp a0 a1 a2 ret r) = map_outcome (\<lambda>v. v\<lparr>vr_size := 0\<rparr>) (platform_fetch_sp (ucast a0) (ucast a1) (ucast a2) ret r)"
  "map_outcome (\<lambda>v. v\<lparr>vr_size := 0\<rparr>) (avr_fetch_dp a0 a1 a2 ret r) = map_outcome (\<lambda>v. v\<lparr>vr_size := 0\<rparr>) (platform_fetch_dp (ucast a0) (ucast a1) (ucast a2) ret r)"
proof -
  have u: "(ucast x = (0x3000 :: u32)) = (x = 0x3000)" "(ucast x = (0x5000 :: u32)) = (x = 0x5000)" for x :: u16
    by (simp_all add: word_unat_eq_iff unat_ucast_up)
  show "map_outcome (\<lambda>v. v\<lparr>vr_size := 0\<rparr>) (avr_fetch_sp a0 a1 a2 ret r) = map_outcome (\<lambda>v. v\<lparr>vr_size := 0\<rparr>) (platform_fetch_sp (ucast a0) (ucast a1) (ucast a2) ret r)"
    by (simp add: avr_fetch_sp_def platform_fetch_sp_def Let_def split: option.split)
  show "map_outcome (\<lambda>v. v\<lparr>vr_size := 0\<rparr>) (avr_fetch_dp a0 a1 a2 ret r) = map_outcome (\<lambda>v. v\<lparr>vr_size := 0\<rparr>) (platform_fetch_dp (ucast a0) (ucast a1) (ucast a2) ret r)"
    by (simp add: avr_fetch_dp_def platform_fetch_dp_def Let_def u unsigned_or_eq split: option.split)
qed

text \<open>\<open>arch_visor_call\<close> is a direct call of the dispatcher, without an exception; a NULL result is a call without effect.\<close>

definition avr_visor_call ::
  "'s vcall_t list \<Rightarrow> u32 \<Rightarrow> u32 \<Rightarrow> u32 \<Rightarrow> u32 \<Rightarrow> vret_t option \<Rightarrow> 's \<Rightarrow> (vret_t option \<times> 's) outcome" where
  "avr_visor_call tbl i a0 a1 a2 ret s =
     (case ret of
        None \<Rightarrow> Ok (None, s)
      | Some v \<Rightarrow> obind (vcall_handler tbl i a0 a1 a2 v s) (\<lambda>(w, s1). Ok (Some w, s1)))"

section \<open>The devices in the early phase\<close>

text \<open>The part of \<open>platform_early_setup\<close> behind the setup of memory and logger: cause of the reset, clock gates, watchdog.\<close>

definition avr_early_devices :: "'d hw8 \<Rightarrow> 'd \<Rightarrow> status_t \<times> u8 \<times> 'd" where
  "avr_early_devices hw s =
     (case avr_capture_reset hw s of (reset_syndrome, s1) \<Rightarrow>
      case platform_clk_reset hw s1 of (r1, s2) \<Rightarrow>
      case platform_wdt_reset hw s2 of (r2, s3) \<Rightarrow> (r1 OR r2, reset_syndrome, s3))"

section \<open>The watchdog driver\<close>

text \<open>The state a watchdog driver works on: its static variables, and the interrupt table with the devices. The handler of the
  interrupt has the number 6.\<close>

type_synonym 'd wdt_world = "plat_wdt \<times> 'd irq_dev"

abbreviation (input) platform_wdt_handler_ptr :: avr_handler where "platform_wdt_handler_ptr \<equiv> 6"

definition wdt_driver :: "'d hw8 \<Rightarrow> ('d \<Rightarrow> 'd) \<Rightarrow> 'd wdt_world wdog_t" where
  "wdt_driver hw wdr =
     \<lparr>wd_guard = Some (\<lambda>timeout bite cb (w, t, d).
        obind (platform_wdt_guard hw wdr (ucast timeout) bite cb w d) (\<lambda>(r, w1, d1). Ok (r, w1, t, d1))),
      wd_hush = Some (\<lambda>(w, t, d). obind (platform_wdt_hush hw wdr w d) (\<lambda>(r, w1, d1). Ok (r, w1, t, d1)))\<rparr>"

text \<open>The message is not modelled; \<open>run\<close> is what a callback does.\<close>

definition platform_wdt_handler :: "(avr_handler \<Rightarrow> 'd wdt_world \<Rightarrow> 'd wdt_world outcome) \<Rightarrow> 'd wdt_world \<Rightarrow> 'd wdt_world outcome" where
  "platform_wdt_handler run s = (if callback_on_bark (fst s) \<noteq> 0 then run (callback_on_bark (fst s)) s else Ok s)"

definition plat_wdt_driver_exit ::
  "'d hw8 \<Rightarrow> ('d \<Rightarrow> 'd) \<Rightarrow> 'd wdt_world wdog_core \<times> 'd wdt_world \<Rightarrow> (status_t \<times> 'd wdt_world wdog_core \<times> 'd wdt_world) outcome" where
  "plat_wdt_driver_exit hw wdr = (\<lambda>(c, w, s).
     case wdog_release_device 0 c of (r1, c1) \<Rightarrow>
       if pl_port w \<noteq> None
       then obind (wdt_shutdown hw wdr (pl_port w) s) (\<lambda>(r2, s1). Ok (r1 OR r2, c1, w, s1))
       else Ok (r1, c1, w, s))"

text \<open>\<open>a1\<close> and \<open>a2\<close>: the allocation of the driver structure and of the port succeed.\<close>

definition plat_wdt_driver_setup ::
  "'d hw8 \<Rightarrow> ('d \<Rightarrow> 'd) \<Rightarrow> resources \<Rightarrow> bool \<Rightarrow> bool \<Rightarrow> 'd wdt_world wdog_core \<times> 'd wdt_world
     \<Rightarrow> (status_t \<times> 'd wdt_world wdog_core \<times> 'd wdt_world) outcome" where
  "plat_wdt_driver_setup hw wdr r a1 a2 = (\<lambda>(c, w, s).
     if \<not> a1 then Ok (error_memory_low, c, w, s)
     else obind (platform_wdt_setup hw wdr r a2 platform_wdt_handler_ptr w s) (\<lambda>(ret, w1, s1).
          if ret \<noteq> 0 then obind (plat_wdt_driver_exit hw wdr (c, w1, s1)) (\<lambda>(_, x). Ok (ret, x))
          else case wdog_attach_device 0 ret (Some (wdt_driver hw wdr)) c of (ret1, c1) \<Rightarrow>
            if ret1 = 0 then Ok (ret1, c1, w1, s1)
            else obind (plat_wdt_driver_exit hw wdr (c1, w1, s1)) (\<lambda>(_, x). Ok (ret1, x))))"

section \<open>Tables and clock gates of the ATmega2560\<close>

abbreviation (input) PRR0 :: u16 where "PRR0 \<equiv> 0x64"
abbreviation (input) PRR1 :: u16 where "PRR1 \<equiv> 0x65"

definition mega2560_clk_reset :: "'d hw8 \<Rightarrow> 'd \<Rightarrow> status_t \<times> 'd" where
  "mega2560_clk_reset hw s = (success, wr8 hw PRR1 0xff (wr8 hw PRR0 0xff s))"

definition mega2560_clk_en :: "'d hw8 \<Rightarrow> u16 \<Rightarrow> 'd \<Rightarrow> status_t \<times> 'd" where
  "mega2560_clk_en hw i s =
     (if i \<ge> 16 then (error_func_inval_arg, s)
      else if i < 8 then (success, and8 hw PRR0 (NOT (bit8 (unat i))) s)
      else (success, and8 hw PRR1 (NOT (bit8 (unat i - 8))) s))"

definition mega2560_clk_dis :: "'d hw8 \<Rightarrow> u16 \<Rightarrow> 'd \<Rightarrow> status_t \<times> 'd" where
  "mega2560_clk_dis hw i s =
     (if i \<ge> 16 then (error_func_inval_arg, s)
      else if i < 8 then (success, or8 hw PRR0 (bit8 (unat i)) s)
      else (success, or8 hw PRR1 (bit8 (unat i - 8)) s))"

definition atmega2560_modules :: "u32 \<Rightarrow> module_t list" where
  "atmega2560_modules fclk =
     [\<lparr>mod_id = hw_uart OR 0, mod_baddr = 0xc0, mod_stride = 6, mod_clk = 115200, mod_clk_id = 1, interrupt = [arch_irq 25, arch_irq 27]\<rparr>,
      \<lparr>mod_id = 0x6000 OR 0, mod_baddr = 0x60, mod_stride = 1, mod_clk = 7, mod_clk_id = 0, interrupt = [arch_irq 6, no_irq]\<rparr>,
      \<lparr>mod_id = hw_timer OR 0x00, mod_baddr = 0x44, mod_stride = 5, mod_clk = fclk, mod_clk_id = 5, interrupt = [arch_irq 21, arch_irq 22]\<rparr>,
      \<lparr>mod_id = hw_timer OR 0x10, mod_baddr = 0x80, mod_stride = 12, mod_clk = fclk, mod_clk_id = 3, interrupt = [arch_irq 17, arch_irq 18]\<rparr>,
      \<lparr>mod_id = hw_timer OR 0x20, mod_baddr = 0xb0, mod_stride = 5, mod_clk = fclk, mod_clk_id = 6, interrupt = [arch_irq 13, arch_irq 24]\<rparr>,
      \<lparr>mod_id = hw_timer OR 0x30, mod_baddr = 0x90, mod_stride = 12, mod_clk = fclk, mod_clk_id = 11, interrupt = [arch_irq 32, arch_irq 33]\<rparr>,
      \<lparr>mod_id = hw_timer OR 0x40, mod_baddr = 0xa0, mod_stride = 12, mod_clk = fclk, mod_clk_id = 12, interrupt = [arch_irq 42, arch_irq 43]\<rparr>,
      \<lparr>mod_id = hw_timer OR 0x50, mod_baddr = 0x120, mod_stride = 12, mod_clk = fclk, mod_clk_id = 13, interrupt = [arch_irq 47, arch_irq 48]\<rparr>]"

text \<open>Ports A to L without I, numbered as in \<open>hal/gpio.h\<close>.\<close>

definition atmega2560_ports :: "gpio_module_t list" where
  "atmega2560_ports =
     map (\<lambda>(i, b). \<lparr>gpio_id = hw_gpio OR i, gpio_baddr = b, gpio_stride = 3\<rparr>)
       [(0, 0x20), (1, 0x23), (2, 0x26), (3, 0x29), (4, 0x2c), (5, 0x2f), (6, 0x32), (7, 0x100), (9, 0x103), (10, 0x106), (11, 0x109)]"

definition atmega2560_device_prop :: "u32 \<Rightarrow> dp_t" where
  "atmega2560_device_prop fclk = \<lparr>base_clock = fclk, ports = atmega2560_ports, modules = atmega2560_modules fclk\<rparr>"

definition atmega2560_software_prop :: sp_t where
  "atmega2560_software_prop =
     \<lparr>terravisor = \<lparr>devids = [console_uart, sched_timer, onboard_led OR 0]\<rparr>,
      swdev =
        [\<lparr>swdev_id = console_uart, hwdev_id = hw_uart OR 0, pmux = None\<rparr>,
         \<lparr>swdev_id = sched_timer, hwdev_id = hw_timer OR 0, pmux = None\<rparr>,
         \<lparr>swdev_id = onboard_led OR 0, hwdev_id = 0, pmux = Some \<lparr>pm_port = 1, pm_function = 0, pm_pins = [7]\<rparr>\<rparr>]\<rparr>"

text \<open>Every module of the table has a gate of its own or is never gated, and identifiers are unique.\<close>

lemma atmega2560_tables:
  "distinct (map mod_id (atmega2560_modules fclk))" "distinct (map gpio_id atmega2560_ports)"
  "\<forall>m \<in> set (atmega2560_modules fclk). mod_clk_id m < 16"
  by (simp_all add: atmega2560_modules_def atmega2560_ports_def)

section \<open>The watchdog after a reset\<close>

text \<open>\<open>unl\<close>: the store before this one unlocked the register. A store with both unlocking bits (3 and 4) opens it for the next
  store; any other store closes it. In a closed register bit 3 cannot be cleared; an open one takes the stored value, but
  bit 3 stays set while the cause of the reset (bit 3 of \<open>MCUSR\<close>) is the watchdog. Of the other registers nothing is
  demanded, except that accesses to them leave these two alone.\<close>

definition wdt_hw :: "'d hw8 \<Rightarrow> ('d \<Rightarrow> u16 \<Rightarrow> u8) \<Rightarrow> ('d \<Rightarrow> bool) \<Rightarrow> bool" where
  "wdt_hw hw val unl \<longleftrightarrow>
     (\<forall>s a b. b \<in> {WDTCSR, MCUSR} \<longrightarrow> val (snd (rd8 hw a s)) b = val s b)
     \<and> (\<forall>s a. a \<in> {WDTCSR, MCUSR} \<longrightarrow> fst (rd8 hw a s) = val s a)
     \<and> (\<forall>s v. unl (wr8 hw WDTCSR v s) \<longleftrightarrow> v AND 0x18 = 0x18)
     \<and> (\<forall>s v. unl s \<longrightarrow> val (wr8 hw WDTCSR v s) WDTCSR = (if val s MCUSR AND 8 \<noteq> 0 then v OR 8 else v))
     \<and> (\<forall>s v. \<not> unl s \<longrightarrow> val s WDTCSR AND 8 \<noteq> 0 \<longrightarrow> val (wr8 hw WDTCSR v s) WDTCSR AND 8 \<noteq> 0)
     \<and> (\<forall>s a v. a \<noteq> WDTCSR \<longrightarrow> \<not> unl (wr8 hw a v s))
     \<and> (\<forall>s a v b. b \<in> {WDTCSR, MCUSR} \<longrightarrow> a \<noteq> b \<longrightarrow> val (wr8 hw a v s) b = val s b)
     \<and> (\<forall>s v. val (wr8 hw MCUSR v s) MCUSR = v)"

lemma wdt_hw_rules:
  assumes "wdt_hw hw val unl"
  shows "val (snd (rd8 hw a s)) WDTCSR = val s WDTCSR" and "val (snd (rd8 hw a s)) MCUSR = val s MCUSR"
    and "fst (rd8 hw MCUSR s) = val s MCUSR" and "fst (rd8 hw WDTCSR s) = val s WDTCSR"
    and "unl (wr8 hw WDTCSR v s) \<longleftrightarrow> v AND 0x18 = 0x18"
    and "unl s \<Longrightarrow> val (wr8 hw WDTCSR v s) WDTCSR = (if val s MCUSR AND 8 \<noteq> 0 then v OR 8 else v)"
    and "\<not> unl s \<Longrightarrow> val s WDTCSR AND 8 \<noteq> 0 \<Longrightarrow> val (wr8 hw WDTCSR v s) WDTCSR AND 8 \<noteq> 0"
    and "a \<noteq> WDTCSR \<Longrightarrow> \<not> unl (wr8 hw a v s)" and "a \<noteq> WDTCSR \<Longrightarrow> val (wr8 hw a v s) WDTCSR = val s WDTCSR"
    and "a \<noteq> MCUSR \<Longrightarrow> val (wr8 hw a v s) MCUSR = val s MCUSR" and "val (wr8 hw MCUSR v s) MCUSR = v"
  using assms by (simp_all add: wdt_hw_def)

text \<open>C40: the early phase switches the watchdog off whatever state the reset left it in, also after a reset by the watchdog itself,
  when it restarts in its shortest period: the sequence succeeds, the control register is zero, and the cause of the reset
  has been read before it is cleared.\<close>

theorem avr_early_watchdog_off:
  assumes hw: "wdt_hw hw val unl" and "avr_early_devices hw s = (ret, syndrome, s')"
  shows "ret = success \<and> val s' WDTCSR = 0 \<and> val s' MCUSR = 0 \<and> syndrome = val s MCUSR AND 0x1f"
proof -
  let ?s2 = "wr8 hw PRR 0xff (wr8 hw MCUSR 0 (snd (rd8 hw MCUSR s)))"
  let ?s3 = "wr8 hw WDTCSR 0x78 ?s2"
  have "unl ?s3" "val ?s3 MCUSR = 0" by (simp_all add: wdt_hw_rules [OF hw])
  then have "val (wr8 hw WDTCSR 0 ?s3) WDTCSR = 0" "val (wr8 hw WDTCSR 0 ?s3) MCUSR = 0" by (simp_all add: wdt_hw_rules [OF hw])
  then show ?thesis
    using assms(2)
    by (auto simp: avr_early_devices_def avr_capture_reset_def platform_clk_reset_def platform_wdt_reset_def write_wdtcsr_def
        case_prod_unfold wdt_hw_rules [OF hw])
qed

text \<open>The store in \<open>arch_early_setup\<close> before it does not stop a running watchdog: the register is not unlocked.\<close>

lemma avr_arch_keeps_watchdog:
  assumes hw: "wdt_hw hw val unl" and "val s WDTCSR AND 8 \<noteq> 0"
  shows "val (avr_early_setup hw s) WDTCSR AND 8 \<noteq> 0"
  using assms(2)
  by (simp add: avr_early_setup_def avr_di_def upd8_def case_prod_unfold wdt_hw_rules [OF hw])

text \<open>The registers with the flag of the unlocking.\<close>

definition demo_wdt8 :: "((u16 \<Rightarrow> u8) \<times> bool) hw8" where
  "demo_wdt8 =
     \<lparr>rd8 = \<lambda>a s. (fst s a, s),
      wr8 = \<lambda>a v s. if a = WDTCSR
        then ((fst s)(WDTCSR := if snd s then (if fst s MCUSR AND 8 \<noteq> 0 then v OR 8 else v) else (v AND NOT 8) OR (fst s WDTCSR AND 8)),
              v AND 0x18 = 0x18)
        else ((fst s)(a := v), False)\<rparr>"

lemma demo_wdt8_hw: "wdt_hw demo_wdt8 fst snd"
proof -
  have "(x AND NOT 8 OR y AND 8) AND 8 = y AND (8 :: u8)" for x y :: u8
    by (rule bit_word_eqI) (auto simp: bit_simps)
  then show ?thesis by (simp add: wdt_hw_def demo_wdt8_def)
qed

theorem avr_early_watchdog_off_witness:
  "\<exists>s'. avr_early_devices demo_wdt8 ((\<lambda>_. 0)(MCUSR := 8, WDTCSR := 8), False) = (success, 8, s') \<and> fst s' WDTCSR = 0"
proof -
  let ?s = "((\<lambda>_. 0)(MCUSR := 8, WDTCSR := 8), False)"
  obtain r x s' where e: "avr_early_devices demo_wdt8 ?s = (r, x, s')" by (cases "avr_early_devices demo_wdt8 ?s")
  from avr_early_watchdog_off [OF demo_wdt8_hw e] e show ?thesis by simp
qed

section \<open>The engine on the driver\<close>

text \<open>After a successful setup the engine's calls reach the driver's port.\<close>

lemma wdt_driver_attached:
  assumes "plat_wdt_driver_setup hw wdr r a1 a2 (c, w, s) = Ok (success, c1, w1, s1)"
  shows "pl_port w1 \<noteq> None \<and> wdog_guard 0 c1 timeout bite cb (w1, t, d)
    = obind (platform_wdt_guard hw wdr (ucast timeout) bite cb w1 d) (\<lambda>(r, w2, d2). Ok (r, w2, t, d2))"
proof -
  have st: "platform_wdt_setup hw wdr r a2 platform_wdt_handler_ptr w s = Ok (success, w1, s1)"
    and at: "wdog_attach_device 0 success (Some (wdt_driver hw wdr)) c = (success, c1)"
    using assms
    by (auto simp: plat_wdt_driver_setup_def outcome_simps wdog_attach_device_def Let_def split: if_splits)
  have "pl_port w1 \<noteq> None"
    using st by (cases w; cases w1) (auto simp: platform_wdt_setup_def outcome_simps Let_def split: if_splits vptr.splits list.splits)
  moreover have "wdog_attached c1 0" "wd_port c1 0 = Some (wdt_driver hw wdr)" using at by (auto simp: wdog_attach_device_def Let_def)
  ultimately show ?thesis by (simp add: wdog_guard_def wdt_driver_def)
qed

end
