(* ===== verification/Demo_Helios.thy ===== *)
theory Demo_Helios
  imports Helios_Tasks
begin

text \<open>
  The demonstration project of the kernel, \<open>src/projects/demo_helios.src/project.c\<close>, composed of the heap, the task
  layer and the scheduler: three tasks are added to a fresh kernel, then \<open>helios_run\<close> starts it. What \<open>plug\<close>
  does before (\<open>bootstrap\<close>, \<open>driver_setup_all\<close>) is modelled in \<open>Boot\<close> and \<open>Driver\<close>. The project is built without deadlock detection and with the round-robin algorithm, the initial one.

  As long as nothing is freed, the heap is a row of blocks in use and one free block behind them, from which every
  request is served (\<open>bump_heap\<close>); control blocks are then fresh and all requests that fit succeed.
\<close>

section \<open>The project\<close>

text \<open>The part of \<open>plug\<close> that uses the kernel: the three additions, their statuses dropped as in the code, and the start.
  The state \<open>k\<close> is the one that \<open>bootstrap\<close>, \<open>driver_setup_all\<close> and the log message before them leave.\<close>

definition demo_helios_tasks ::
  "nat \<Rightarrow> ptr \<Rightarrow> ptr \<Rightarrow> ptr \<Rightarrow> ptr \<Rightarrow> kernel \<Rightarrow> (u16 \<times> u16 \<times> u16 \<times> kernel) outcome" where
  "demo_helios_tasks fuel name_a name_b name_c task_handler k =
     obind (helios_add_task fuel 0 name_a task_handler 0 5 255 k) (\<lambda>(_, Task_A, k1).
     obind (helios_add_task fuel 0 name_b task_handler 0 7 255 k1) (\<lambda>(_, Task_B, k2).
     obind (helios_add_task fuel 0 name_c task_handler 0 4 255 k2) (\<lambda>(_, Task_C, k3).
       Ok (Task_A, Task_B, Task_C, k3))))"

definition demo_helios_run ::
  "nat \<Rightarrow> ptr \<Rightarrow> ptr \<Rightarrow> ptr \<Rightarrow> ptr \<Rightarrow> ptr \<Rightarrow> ptr \<Rightarrow> ptr \<Rightarrow> kernel \<Rightarrow> kernel outcome" where
  "demo_helios_run fuel name_a name_b name_c task_handler idle_name idle_fn sched_ctrl k =
     obind (demo_helios_tasks fuel name_a name_b name_c task_handler k) (\<lambda>(_, _, _, k1).
       helios_run fuel 0 idle_name idle_fn sched_ctrl k1)"

section \<open>A heap from which nothing was freed\<close>

abbreviation (input) span :: "block list \<Rightarrow> nat" where
  "span us \<equiv> (\<Sum>b\<leftarrow>us. 12 + fst b)"

definition bump_heap :: "heap \<Rightarrow> block list \<Rightarrow> nat \<Rightarrow> bool" where
  "bump_heap h us n \<longleftrightarrow> heap_wf h (us @ [(n, True)]) \<and> (\<forall>b \<in> set us. \<not> snd b)
     \<and> fst (hd (us @ [(n, True)])) \<noteq> 0"

lemma amalloc_bump:
  assumes "\<forall>b \<in> set us. \<not> snd b" and "r + 12 < n"
  shows "amalloc r p (us @ [(n, True)]) = Some (Some (p + span us + 12), us @ [(r, False), (n - r - 12, True)])"
  using assms(1)
proof (induction us arbitrary: p)
  case Nil
  then show ?case using assms(2) by simp
qed (simp add: add.assoc)

lemma tiling_span: "tiling H p e (us @ [b]) \<Longrightarrow> p + span us + 12 + fst b = e"
  by (induction us arbitrary: p) force+

lemma bump_heap_top:
  assumes "bump_heap h us n"
  shows "unat (of_nat (unat (heap_start h) + span us + 12) :: ptr) = unat (heap_start h) + span us + 12"
proof -
  have "unat (heap_start h) + span us + 12 + n = unat (heap_end h)"
    using assms tiling_span [of "chunks h"] by (fastforce simp: bump_heap_def heap_wf_def)
  then have "unat (heap_start h) + span us + 12 < 2 ^ LENGTH(32)" using unat_lt_32 [of "heap_end h"] by simp
  then show ?thesis by (simp only: unat_of_nat mod_less)
qed

lemma malloc_bump:
  assumes "bump_heap h us n" and "len \<noteq> 0" and "unat len \<le> 4294967275" and "unat (roundup_align len) + 12 < n"
  shows "\<exists>h'. malloc len h = Ok (of_nat (unat (heap_start h) + span us + 12), h')
    \<and> bump_heap h' (us @ [(unat (roundup_align len), False)]) (n - unat (roundup_align len) - 12)
    \<and> heap_start h' = heap_start h"
proof -
  let ?r = "unat (roundup_align len)"
  have b: "heap_wf h (us @ [(n, True)])" "\<forall>b \<in> set us. \<not> snd b" "fst (hd (us @ [(n, True)])) \<noteq> 0"
    using assms(1) by (simp_all add: bump_heap_def)
  obtain h' where h': "malloc len h = Ok (of_nat (unat (heap_start h) + span us + 12), h')"
    "heap_wf h' (us @ [(?r, False), (n - ?r - 12, True)])" "heap_start h' = heap_start h"
    using malloc_refines [OF b(1) assms(2,3) b(3)] amalloc_bump [OF b(2) assms(4)] by auto
  moreover have "?r \<noteq> 0" using roundup_align_bound(2) [OF assms(3)] by simp
  ultimately show ?thesis using b by (cases us) (auto simp: bump_heap_def)
qed

section \<open>Adding tasks on such a heap\<close>

text \<open>The boot phase: the tasks lie in the part of the heap that is in use, and the links of a control block to come
  are equal, as in memory that was cleared.\<close>

definition boot_phase :: "kernel \<Rightarrow> ptr list \<Rightarrow> block list \<Rightarrow> nat \<Rightarrow> bool" where
  "boot_phase k xs us n \<longleftrightarrow> boot_inv k xs \<and> bump_heap (kheap k) us n
     \<and> (\<forall>x \<in> set xs. unat x \<le> unat (heap_start (kheap k)) + span us)
     \<and> (\<forall>q. unat (heap_start (kheap k)) + span us < unat q \<longrightarrow> get_next False k q = get_prev False k q)"

lemma roundup_sizes [simp]: "roundup_align 52 = 56" "roundup_align 255 = 256"
  by (simp_all add: roundup_align_def)

text \<open>What an addition keeps: settings and the other tasks.\<close>

definition keeps_tasks :: "ptr list \<Rightarrow> kernel \<Rightarrow> kernel \<Rightarrow> bool" where
  "keeps_tasks xs k k' \<longleftrightarrow> anti_deadlock k' = anti_deadlock k \<and> selected_sched k' = selected_sched k
     \<and> (\<forall>x \<in> set xs. priority (tcbs k' x) = priority (tcbs k x) \<and> task_id (tcbs k' x) = task_id (tcbs k x))"

lemma add_task_boot_phase:
  assumes ph: "boot_phase k xs us n" and n: "336 < n"
    and d: "\<not> anti_deadlock k"
    and args: "name \<noteq> 0" "func \<noteq> 0" "1 \<le> prio" "prio < 255" and f: "length xs < fuel"
  shows "\<exists>k' p. helios_add_task fuel 0 name func args prio 255 k = Ok (success, task_id_gen k + 1, k')
    \<and> p \<notin> set xs \<and> boot_phase k' (prio_insert ((\<lambda>q. priority (tcbs k q))(p := prio)) p xs)
        (us @ [(56, False), (256, False)]) (n - 336)
    \<and> priority (tcbs k' p) = prio \<and> task_id (tcbs k' p) = task_id_gen k + 1 \<and> task_id_gen k' = task_id_gen k + 1
    \<and> keeps_tasks xs k k'"
proof -
  let ?s = "unat (heap_start (kheap k))"
  define p :: ptr where "p = of_nat (?s + span us + 12)"
  have inv: "boot_inv k xs" and b: "bump_heap (kheap k) us n" and low: "\<forall>x \<in> set xs. unat x \<le> ?s + span us"
    and fresh: "\<forall>q. ?s + span us < unat q \<longrightarrow> get_next False k q = get_prev False k q"
    using ph by (simp_all add: boot_phase_def)
  obtain h1 where h1: "malloc (sizeof_tcb k) (kheap k) = Ok (p, h1)" "bump_heap h1 (us @ [(56, False)]) (n - 68)"
    "heap_start h1 = heap_start (kheap k)"
    using malloc_bump [OF b, of 52] n d by (auto simp: p_def sizeof_tcb_def)
  have n': "268 < n - 68" using n by simp
  obtain sp h2 where h2: "malloc 255 h1 = Ok (sp, h2)" "sp = of_nat (?s + span (us @ [(56, False)]) + 12)"
    "bump_heap h2 (us @ [(56, False), (256, False)]) (n - 336)" "heap_start h2 = heap_start (kheap k)"
    using malloc_bump [OF h1(2), of 255] n' h1(3) by auto
  have up: "unat p = ?s + span us + 12" using bump_heap_top [OF b] by (simp add: p_def)
  have usp: "unat sp = ?s + span (us @ [(56, False)]) + 12"
    using bump_heap_top [OF h1(2)] unfolding h1(3) h2(2) .
  have nz: "p \<noteq> 0" "sp \<noteq> 0" using up usp by auto
  have new: "p \<notin> set xs" using low up by auto
  have "get_next False k p = get_prev False k p" using fresh up by simp
  from add_task_boot_result [OF inv h1(1) h2(1) nz(1) new nz(2) this args(1,2) _ args(3,4) f, of args]
  obtain k' where k': "helios_add_task fuel 0 name func args prio 255 k = Ok (success, task_id_gen k + 1, k')"
    "boot_inv k' (prio_insert ((\<lambda>q. priority (tcbs k q))(p := prio)) p xs)"
    "task_id (tcbs k' p) = task_id_gen k + 1" "priority (tcbs k' p) = prio" "boot_frame p xs (k\<lparr>kheap := h2\<rparr>) k'"
    by auto
  have fr: "kheap k' = h2" "task_id_gen k' = task_id_gen k + 1" "keeps_tasks xs k k'"
    "ready_links_outside (insert p (set xs)) (k\<lparr>kheap := h2\<rparr>) k'"
    using k'(5) new by (auto simp: boot_frame_def keeps_tasks_def)
  have "get_next False k' q = get_prev False k' q" if "?s + span (us @ [(56, False), (256, False)]) < unat q" for q
  proof -
    have "q \<notin> insert p (set xs)" using low up that by (fastforce simp: add.assoc)
    then have "get_next False k' q = get_next False k q" "get_prev False k' q = get_prev False k q"
      using fr(4) by (simp_all add: ready_links_outside_def get_next_def get_prev_def)
    then show ?thesis using fresh that by simp
  qed
  moreover have "\<forall>x \<in> insert p (set xs). unat x \<le> ?s + span (us @ [(56, False), (256, False)])"
    using low up by fastforce
  ultimately have "boot_phase k' (prio_insert ((\<lambda>q. priority (tcbs k q))(p := prio)) p xs)
      (us @ [(56, False), (256, False)]) (n - 336)"
    using k'(2) h2(3,4) fr(1) by (simp add: boot_phase_def)
  then show ?thesis using k' fr new by blast
qed

section \<open>The run of the project\<close>

lemma boot_phase_inv: "boot_phase k xs us n \<Longrightarrow> boot_inv k xs"
  by (simp add: boot_phase_def)

text \<open>The first scheduling decision, from the idle task at the head, by round robin: the task after the successor.\<close>

lemma despatch_from_head:
  assumes l: "ready_list k (h # p # q # vs)" and w: "wait_list k []" and k: "curr_task k = h" "pre_sched k"
    "\<not> anti_deadlock k" "selected_sched k = Some 0" and st: "task_status (tcbs k p) = task_status_ready"
  shows "helios_scheduler_despatch fuel k = Ok (set_status q task_status_running (set_status h task_status_ready k))"
proof -
  let ?k1 = "set_status h task_status_ready k"
  have hd: "h \<noteq> 0" "ready_list_head k = h" "wait_list_head k = 0" "p \<noteq> h"
    using l w by (auto simp: node_list_def node_ring_def)
  then have "helios_pre_sched fuel k = Ok ?k1"
    using k by (simp add: helios_pre_sched_def helios_sched_wait_list_adjustment_def
        helios_sched_deadlock_adjustment_and_detection_def helios_sched_send_back_of_task_prio_def)
  moreover have "ready_list ?k1 ([] @ curr_task ?k1 # p # q # vs)" using l k(1) by (simp add: node_list_upd)
  moreover have "task_status (tcbs ?k1 p) = task_status_ready" "selected_sched ?k1 = Some 0"
    using st k(4) by (simp_all add: upd_tcb_def)
  ultimately show ?thesis
    using round_robin_skips_successor [of ?k1 "[]" p q vs] k
    by (simp add: helios_scheduler_despatch_def run_algo_def)
qed

lemma helios_run_panics:
  assumes ph: "boot_phase k (p # q # vs) us n" and n: "336 < n" and "idle_name \<noteq> 0" "idle_fn \<noteq> 0"
    and k: "\<not> anti_deadlock k" "selected_sched k = Some 0" and pr: "1 < priority (tcbs k p)"
    and f: "length vs + 2 < fuel"
  shows "helios_run fuel 0 idle_name idle_fn ctrl k = Fault (Panic error_os_panic_os_start_fail)"
proof -
  obtain k' i where k': "helios_add_task fuel 0 idle_name idle_fn ctrl 1 255 k = Ok (success, task_id_gen k + 1, k')"
    "i \<notin> set (p # q # vs)"
    "boot_phase k' (prio_insert ((\<lambda>x. priority (tcbs k x))(i := 1)) i (p # q # vs)) (us @ [(56, False), (256, False)]) (n - 336)"
    "keeps_tasks (p # q # vs) k k'"
    using add_task_boot_phase [OF ph n k(1), of idle_name idle_fn 1 fuel ctrl] assms(3,4) f by auto
  have "prio_insert ((\<lambda>x. priority (tcbs k x))(i := 1)) i (p # q # vs) = i # p # q # vs"
    using pr k'(2) by (auto simp: prio_insert_def)
  with k'(3) have inv: "boot_inv k' (i # p # q # vs)" using boot_phase_inv by metis
  let ?k = "helios_init_scheduler k'"
  have links: "get_next v ?k = get_next v k'" "get_prev v ?k = get_prev v k'" for v
    by (simp_all add: fun_eq_iff helios_init_scheduler_def get_next_def get_prev_def)
  have st: "task_status (tcbs k' p) = task_status_ready" using inv by (simp add: boot_inv_def)
  have "ready_list_head k' = i" using inv by (simp add: boot_inv_def node_list_def)
  moreover have "ready_list ?k (i # p # q # vs)" "wait_list ?k []"
    using inv by (simp_all add: boot_inv_def node_list_links [of _ ?k k'] links) (simp_all add: helios_init_scheduler_def)
  ultimately have "helios_task_yield fuel ?k
      = Ok (set_status q task_status_running (set_status i task_status_ready ?k))"
    unfolding helios_task_yield_def using st k k'(4)
    by (intro despatch_from_head) (simp_all add: helios_init_scheduler_def keeps_tasks_def)
  then show ?thesis using k'(1) by (simp add: helios_run_def)
qed

lemma demo_tasks_result:
  assumes ph: "boot_phase k [] us n" and n: "1344 < n" and nm: "name_a \<noteq> 0" "name_b \<noteq> 0" "name_c \<noteq> 0" "h \<noteq> 0"
    and g: "task_id_gen k = 0" and f: "2 < fuel" and d: "\<not> anti_deadlock k"
  shows "\<exists>k3 a b c us'. demo_helios_tasks fuel name_a name_b name_c h k = Ok (1, 2, 3, k3)
    \<and> boot_phase k3 [c, a, b] us' (n - 1008) \<and> anti_deadlock k3 = anti_deadlock k \<and> selected_sched k3 = selected_sched k
    \<and> map (\<lambda>p. (task_id (tcbs k3 p), priority (tcbs k3 p))) [c, a, b] = [(3, 4), (1, 5), (2, 7)]"
proof -
  obtain k1 a where A: "helios_add_task fuel 0 name_a h 0 5 255 k = Ok (success, 1, k1)"
    "boot_phase k1 [a] (us @ [(56, False), (256, False)]) (n - 336)" "priority (tcbs k1 a) = 5" "task_id (tcbs k1 a) = 1"
    "task_id_gen k1 = 1" "keeps_tasks [] k k1"
    using add_task_boot_phase [OF ph _ d, of name_a h 5 fuel 0] n nm f g by (auto simp: prio_insert_def)
  have n1: "336 < n - 336" "336 < n - 672" using n by simp_all
  have d1: "\<not> anti_deadlock k1" using A(6) d by (simp add: keeps_tasks_def)
  obtain k2 b where B: "helios_add_task fuel 0 name_b h 0 7 255 k1 = Ok (success, 2, k2)" "b \<noteq> a"
    "boot_phase k2 [a, b] (us @ [(56, False), (256, False)] @ [(56, False), (256, False)]) (n - 672)"
    "priority (tcbs k2 b) = 7" "task_id (tcbs k2 b) = 2" "task_id_gen k2 = 2" "keeps_tasks [a] k1 k2"
    using add_task_boot_phase [OF A(2) n1(1) d1, of name_b h 7 fuel 0] nm f A(3,5) by (auto simp: prio_insert_def)
  have d2: "\<not> anti_deadlock k2" using B(7) d1 by (simp add: keeps_tasks_def)
  obtain k3 c us' where C: "helios_add_task fuel 0 name_c h 0 4 255 k2 = Ok (success, 3, k3)" "c \<notin> {a, b}"
    "boot_phase k3 [c, a, b] us' (n - 1008)" "priority (tcbs k3 c) = 4" "task_id (tcbs k3 c) = 3" "keeps_tasks [a, b] k2 k3"
    using add_task_boot_phase [OF B(3) n1(2) d2, of name_c h 4 fuel 0] nm f A(3) B(4,6,7)
    by (auto simp: prio_insert_def keeps_tasks_def)
  have "demo_helios_tasks fuel name_a name_b name_c h k = Ok (1, 2, 3, k3)"
    using A(1) B(1) C(1) by (simp add: demo_helios_tasks_def)
  then show ?thesis using A B C by (fastforce simp: keeps_tasks_def)
qed

text \<open>C15: The demonstration project of the kernel, from the point where \<open>plug\<close> has set up the drivers: the three tasks
  are created with the identifiers 1, 2 and 3 and stand in the ready list by priority (task C, task A, task B), every one
  ready; then \<open>helios_run\<close> adds the idle task, takes the first scheduling decision, which returns since a context switch
  only marks a task as running, and panics. No task of the demonstration ever runs. Assumed of the state at that point
  (\<open>boot_phase\<close>): no task has been added yet; nothing was ever freed on the heap, which has more than 1344 bytes left;
  the two ready-list links of every control block still to be allocated hold the same value, as in cleared memory
  (\<open>malloc\<close> does not clear, and the insertion tells a new block by these links). The build is the project's own: no
  deadlock detection (\<open>HELIOS_ANTI_DEADLOCK=0\<close>, so that a control block has 52 bytes), and round robin is selected.\<close>

theorem demo_helios_result:
  assumes "boot_phase k [] us n" and "1344 < n" and "task_id_gen k = 0"
    and "\<not> anti_deadlock k" and "selected_sched k = Some 0"
    and "name_a \<noteq> 0" "name_b \<noteq> 0" "name_c \<noteq> 0" "task_handler \<noteq> 0" "idle_name \<noteq> 0" "idle_fn \<noteq> 0" and "3 < fuel"
  shows "(\<exists>k1 a b c. demo_helios_tasks fuel name_a name_b name_c task_handler k = Ok (1, 2, 3, k1)
      \<and> boot_inv k1 [c, a, b]
      \<and> map (\<lambda>p. (task_id (tcbs k1 p), priority (tcbs k1 p))) [c, a, b] = [(3, 4), (1, 5), (2, 7)])
    \<and> demo_helios_run fuel name_a name_b name_c task_handler idle_name idle_fn sched_ctrl k
      = Fault (Panic error_os_panic_os_start_fail)"
proof -
  obtain k1 a b c us' where k1: "demo_helios_tasks fuel name_a name_b name_c task_handler k = Ok (1, 2, 3, k1)"
    "boot_phase k1 [c, a, b] us' (n - 1008)" "\<not> anti_deadlock k1" "selected_sched k1 = Some 0"
    "map (\<lambda>p. (task_id (tcbs k1 p), priority (tcbs k1 p))) [c, a, b] = [(3, 4), (1, 5), (2, 7)]"
    using demo_tasks_result [OF assms(1,2,6-9,3), of fuel] assms(4,5,12) by auto
  have "helios_run fuel 0 idle_name idle_fn sched_ctrl k1 = Fault (Panic error_os_panic_os_start_fail)"
    using k1(5) assms(2,12) by (intro helios_run_panics [OF k1(2) _ assms(10,11) k1(3,4)]) simp_all
  then have "demo_helios_run fuel name_a name_b name_c task_handler idle_name idle_fn sched_ctrl k
      = Fault (Panic error_os_panic_os_start_fail)"
    using k1(1) by (simp add: demo_helios_run_def)
  moreover have "\<exists>k1 a b c. demo_helios_tasks fuel name_a name_b name_c task_handler k = Ok (1, 2, 3, k1)
      \<and> boot_inv k1 [c, a, b]
      \<and> map (\<lambda>p. (task_id (tcbs k1 p), priority (tcbs k1 p))) [c, a, b] = [(3, 4), (1, 5), (2, 7)]"
    by (intro exI conjI; fact k1(1,5) boot_phase_inv [OF k1(2)])
  ultimately show ?thesis by (rule conjI [rotated])
qed

theorem demo_helios_result_witness:
  "demo_helios_run 4 1 2 3 4 5 8 0 (fresh_kernel\<lparr>kheap := demo_heap 1400\<rparr>) = Fault (Panic error_os_panic_os_start_fail)"
proof -
  let ?k = "fresh_kernel\<lparr>kheap := demo_heap 1400\<rparr>"
  have "bump_heap (demo_heap 1400) [] 1400" by (simp add: bump_heap_def heap_wf_def demo_heap_def)
  then have "boot_phase ?k [] [] 1400"
    by (simp add: boot_phase_def boot_inv_def node_list_def fresh_kernel_def demo_kernel_def demo_tcb_def
        get_next_def get_prev_def)
  moreover have "task_id_gen ?k = 0" "\<not> anti_deadlock ?k" "selected_sched ?k = Some 0"
    by (simp_all add: fresh_kernel_def demo_kernel_def)
  ultimately show ?thesis
    using demo_helios_result [of ?k "[]" 1400 1 2 3 4 5 8 4 0] by simp
qed

end
