(* ===== verification/Bootloader.thy ===== *)
theory Bootloader
  imports Board Sched_Clock
begin

text \<open>
  The boot loader projects (\<open>src/projects/bl.src\<close>, \<open>src/projects/qemu_sifive_e_bl\<close>) with the platform code and the tables of
  their boards (\<open>platform/sifive/fe310g002-bl\<close>, \<open>qemu-sifive-e-bl\<close>): composed of the LED, the delays, the linking of
  handlers and the interrupt enables. The LED's port and the timer are different devices, so their states are separate.
\<close>

section \<open>Boards\<close>

definition qemu_bl_modules :: "module_t list" where
  "qemu_bl_modules =
     [\<lparr>mod_id = hw_uart OR 0, mod_baddr = 0x10013000, mod_stride = 0x20, mod_clk = 115200, mod_clk_id = 0,
       interrupt = [\<lparr>irq_module = int_plat, irq_id = 3, irq_trigger = int_rising_edge\<rparr>]\<rparr>,
      \<lparr>mod_id = hw_clint, mod_baddr = 0x02000000, mod_stride = 0xc000, mod_clk = 0, mod_clk_id = 0, interrupt = [no_irq]\<rparr>,
      \<lparr>mod_id = hw_aon OR 0, mod_baddr = 0x10000000, mod_stride = 0x1000, mod_clk = 0, mod_clk_id = 0, interrupt = [no_irq]\<rparr>,
      \<lparr>mod_id = hw_timer OR 0, mod_baddr = 0, mod_stride = 0, mod_clk = 32768, mod_clk_id = 0,
       interrupt = [\<lparr>irq_module = int_local, irq_id = 7, irq_trigger = int_level\<rparr>]\<rparr>]"

definition qemu_bl_device_prop :: "u32 \<Rightarrow> dp_t" where
  "qemu_bl_device_prop XCLK =
     \<lparr>base_clock = XCLK, ports = [\<lparr>gpio_id = hw_gpio OR 0, gpio_baddr = 0x10012000, gpio_stride = 0x4c\<rparr>], modules = qemu_bl_modules\<rparr>"

definition qemu_bl_software_prop :: sp_t where
  "qemu_bl_software_prop =
     \<lparr>terravisor = \<lparr>devids = [console_uart, sched_timer]\<rparr>,
      swdev = [\<lparr>swdev_id = console_uart, hwdev_id = hw_uart OR 0,
                pmux = Some \<lparr>pm_port = 0, pm_function = 0, pm_pins = [16, 17]\<rparr>\<rparr>,
               \<lparr>swdev_id = sched_timer, hwdev_id = hw_timer OR 0, pmux = None\<rparr>]\<rparr>"

text \<open>The other two boards repeat the tables of the FE310-G002.\<close>

definition bl_device_prop :: "u32 \<Rightarrow> dp_t" where
  "bl_device_prop XCLK = fe310_device_prop XCLK"

definition bl_software_prop :: sp_t where
  "bl_software_prop = fe310_software_prop"

definition qemu_device_prop :: "u32 \<Rightarrow> dp_t" where
  "qemu_device_prop XCLK = fe310_device_prop XCLK"

definition qemu_software_prop :: sp_t where
  "qemu_software_prop = fe310_software_prop"

section \<open>The boot loader with the LED\<close>

record ('l, 'h, 'd) bl =
  bl_led :: "'l led"
  bl_tmr :: "('h, 'd) tmr"

text \<open>What the boot loader uses: the LED's port, the fuel of a delay, the sleep and the clock engine.\<close>

record ('l, 'h, 'd) bl_env =
  bl_hw :: "'l hw"
  bl_fuel :: nat
  bl_wfi :: "('h, 'd) tmr \<Rightarrow> ('h, 'd) tmr"
  bl_clock :: "('h, 'd) tmr schedclk_core"

primrec bl_blink :: "nat \<Rightarrow> ('l, 'h, 'd) bl_env \<Rightarrow> ('l, 'h, 'd) bl \<Rightarrow> ('l, 'h, 'd) bl outcome" where
  "bl_blink 0 e s = Ok s"
| "bl_blink (Suc n) e s =
     obind (onboardled_toggle (bl_hw e) (bl_led s)) (\<lambda>(_, l).
     obind (mdelay (bl_fuel e) (bl_wfi e) 0 (bl_clock e) 50 (bl_tmr s)) (\<lambda>(_, t).
       bl_blink n e (s\<lparr>bl_led := l, bl_tmr := t\<rparr>)))"

definition bl_link :: "handler \<Rightarrow> ('l, 'h, 'd) bl \<Rightarrow> ('l, 'h, 'd) bl outcome" where
  "bl_link no_program s =
     obind (link_interrupt 0 int_arch 2 no_program (tmr_sys (bl_tmr s))) (\<lambda>(_, y). Ok (s\<lparr>bl_tmr := (bl_tmr s)\<lparr>tmr_sys := y\<rparr>\<rparr>))"

definition bl_di :: "('l, 'h, 'd) bl \<Rightarrow> ('l, 'h, 'd) bl" where
  "bl_di s = s\<lparr>bl_tmr := set_csrs arch_di (bl_tmr s)\<rparr>"

text \<open>The loop and the two calls behind it, up to the point where the drivers are stopped.\<close>

definition bl_wait :: "('l, 'h, 'd) bl_env \<Rightarrow> ('l, 'h, 'd) bl \<Rightarrow> ('l, 'h, 'd) bl outcome" where
  "bl_wait e s =
     obind (bl_blink 40 e s) (\<lambda>s1.
     let s2 = bl_di s1 in
     obind (onboardled_off (bl_hw e) (bl_led s2)) (\<lambda>(_, l). Ok (s2\<lparr>bl_led := l\<rparr>)))"

text \<open>The body of \<open>plug\<close> between the start of the drivers (\<open>bootstrap\<close>, \<open>driver_setup_all\<close>) and their stop
  (\<open>driver_exit_all\<close>), which are modelled in \<open>Boot\<close> and \<open>Driver\<close>. The two log messages are left out.\<close>

definition bl_run :: "('l, 'h, 'd) bl_env \<Rightarrow> handler \<Rightarrow> ('l, 'h, 'd) bl \<Rightarrow> ('l, 'h, 'd) bl outcome" where
  "bl_run e no_program s = obind (bl_link no_program s) (bl_wait e)"

text \<open>The handler for an illegal instruction, when there is no program to jump to: once the drivers are started
  again it blinks for ever; here for \<open>n\<close> rounds.\<close>

primrec bl_no_program_rounds :: "nat \<Rightarrow> ('l, 'h, 'd) bl_env \<Rightarrow> ('l, 'h, 'd) bl \<Rightarrow> ('l, 'h, 'd) bl outcome" where
  "bl_no_program_rounds 0 e s = Ok s"
| "bl_no_program_rounds (Suc n) e s =
     obind (onboardled_toggle (bl_hw e) (bl_led s)) (\<lambda>(_, l).
     obind (mdelay (bl_fuel e) (bl_wfi e) 0 (bl_clock e) 1000 (bl_tmr s)) (\<lambda>(_, t).
       bl_no_program_rounds n e (s\<lparr>bl_led := l, bl_tmr := t\<rparr>)))"

section \<open>What the boot loader does\<close>

definition led_up :: "'l led \<Rightarrow> gpio_port_t list \<Rightarrow> bool" where
  "led_up l gps \<longleftrightarrow> (\<exists>sp. obled_sp l = Some sp \<and> led_ports l sp = Ok gps)"

lemma led_up_dev [simp]: "led_up (l\<lparr>led_dev := d\<rparr>) gps \<longleftrightarrow> led_up l gps"
  by (simp add: led_up_def led_ports_def cong: option.case_cong)

text \<open>The LED's pins are different bits of registers that can be written.\<close>

definition led_pins :: "(ptr \<Rightarrow> u32) \<Rightarrow> gpio_port_t list \<Rightarrow> bool" where
  "led_pins m gps \<longleftrightarrow> (\<forall>p \<in> set gps. m (out_reg p) = - 1 \<and> g_pin p < 32)
     \<and> distinct (map (\<lambda>p. (out_reg p, unat (g_pin p))) gps)"

definition led_pin :: "gpio_port_t list \<Rightarrow> ptr \<Rightarrow> nat \<Rightarrow> bool" where
  "led_pin gps a k \<longleftrightarrow> (\<exists>p \<in> set gps. a = out_reg p \<and> k = unat (g_pin p))"

lemma toggle_led_up:
  assumes "led_up l gps" and "stores hw val m" and "led_pins m gps"
  shows "\<exists>d. onboardled_toggle hw l = Ok (success, l\<lparr>led_dev := d\<rparr>)
    \<and> (\<forall>a k. bit (val d a) k \<longleftrightarrow> bit (val (led_dev l) a) k \<noteq> led_pin gps a k)"
proof -
  obtain sp where "obled_sp l = Some sp" "led_ports l sp = Ok gps" using assms(1) by (auto simp: led_up_def)
  then have "onboardled_toggle hw l = Ok (success,
      l\<lparr>led_dev := fold (\<lambda>p. mmio_xor hw (out_reg p) (pin_bit (g_pin p))) gps (led_dev l)\<rparr>)"
    unfolding onboardled_toggle_def by (intro led_each_ok) (simp_all add: gpio_pin_toggle_def out_reg_def)
  then show ?thesis using led_toggle_val [OF assms(2), of gps "led_dev l"] assms(3) unfolding led_pins_def led_pin_def by blast
qed

lemma off_led_up:
  assumes "led_up l gps" and "stores hw val m"
  shows "\<exists>d. onboardled_off hw l = Ok (success, l\<lparr>led_dev := d\<rparr>)
    \<and> (\<forall>a k. bit (val d a) k \<longleftrightarrow> bit (val (led_dev l) a) k \<and> \<not> led_pin gps a k)"
proof -
  obtain sp where "obled_sp l = Some sp" "led_ports l sp = Ok gps" using assms(1) by (auto simp: led_up_def)
  then have "onboardled_off hw l = Ok (success,
      l\<lparr>led_dev := fold (\<lambda>p. mmio_and hw (out_reg p) (NOT (pin_bit (g_pin p)))) gps (led_dev l)\<rparr>)"
    unfolding onboardled_off_def by (intro led_each_ok) (simp_all add: gpio_pin_clear_def out_reg_def)
  then show ?thesis using led_clear_val [OF assms(2)] unfolding led_pin_def by blast
qed

lemma bl_link_result:
  "\<exists>y. bl_link h s = Ok (s\<lparr>bl_tmr := (bl_tmr s)\<lparr>tmr_sys := y\<rparr>\<rparr>) \<and> exhandler y 0 2 = h"
  by (rule exI [of _ "(tmr_sys (bl_tmr s))\<lparr>exhandler := (exhandler (tmr_sys (bl_tmr s)))
        (0 := (exhandler (tmr_sys (bl_tmr s)) 0)(2 := h))\<rparr>"])
    (simp add: bl_link_def link_interrupt_def arch_register_interrupt_handler_def)

lemma clock_sys [simp]:
  "now_us cnt (t\<lparr>tmr_sys := y\<rparr>) = now_us cnt t"
  "clock_good f hw cnt d val m c wfi w r (t\<lparr>tmr_sys := y\<rparr>) \<longleftrightarrow> clock_good f hw cnt d val m c wfi w r t"
  by (simp_all add: now_us_def clock_good_def)

text \<open>The steps of the clock that one delay of 50 ms may take.\<close>

abbreviation (input) blink_steps :: nat where "blink_steps \<equiv> Suc (2 * Suc 50000)"

lemma bl_blink_returns:
  assumes "led_up (bl_led s) gps" and "n * blink_steps \<le> r"
    and "clock_good f hw cnt d val m (bl_clock e) (bl_wfi e) w r (bl_tmr s)"
    and "50000 < bl_fuel e" and "stores (bl_hw e) lval lm" and "led_pins lm gps"
  shows "\<exists>s'. bl_blink n e s = Ok s' \<and> led_up (bl_led s') gps
    \<and> now_us cnt (bl_tmr s) + n * 50001 \<le> now_us cnt (bl_tmr s')
    \<and> (\<forall>a k. bit (lval (led_dev (bl_led s')) a) k \<longleftrightarrow> bit (lval (led_dev (bl_led s)) a) k \<noteq> (odd n \<and> led_pin gps a k))"
  using assms(1-3)
proof (induction n arbitrary: s r)
  case (Suc n)
  obtain g where g: "onboardled_toggle (bl_hw e) (bl_led s) = Ok (success, (bl_led s)\<lparr>led_dev := g\<rparr>)"
    "\<forall>a k. bit (lval g a) k \<longleftrightarrow> bit (lval (led_dev (bl_led s)) a) k \<noteq> led_pin gps a k"
    using toggle_led_up [OF Suc.prems(1) assms(5,6)] by blast
  obtain q where q: "r = blink_steps + q" "n * blink_steps \<le> q"
    using Suc.prems(2) by (auto simp: le_iff_add)
  obtain t r' where t: "mdelay (bl_fuel e) (bl_wfi e) 0 (bl_clock e) 50 (bl_tmr s) = Ok (success, t)"
    "now_us cnt (bl_tmr s) + 50000 < now_us cnt t" "q \<le> r'"
    "clock_good f hw cnt d val m (bl_clock e) (bl_wfi e) w r' t"
    using mdelay_returns [of f hw cnt d val m "bl_clock e" "bl_wfi e" w 50 q "bl_tmr s" "bl_fuel e"] Suc.prems(3) q(1) assms(4)
    by auto
  let ?s = "s\<lparr>bl_led := (bl_led s)\<lparr>led_dev := g\<rparr>, bl_tmr := t\<rparr>"
  have "led_up (bl_led ?s) gps" "n * blink_steps \<le> r'"
    "clock_good f hw cnt d val m (bl_clock e) (bl_wfi e) w r' (bl_tmr ?s)"
    using Suc.prems(1) q(2) t(3,4) by simp_all
  from Suc.IH [OF this] obtain s' where s': "bl_blink n e ?s = Ok s'" "led_up (bl_led s') gps"
    "now_us cnt t + n * 50001 \<le> now_us cnt (bl_tmr s')"
    "\<forall>a k. bit (lval (led_dev (bl_led s')) a) k \<longleftrightarrow> bit (lval g a) k \<noteq> (odd n \<and> led_pin gps a k)"
    by auto
  have "bl_blink (Suc n) e s = Ok s'" using g(1) t(1) s'(1) by simp
  moreover have "now_us cnt (bl_tmr s) + Suc n * 50001 \<le> now_us cnt (bl_tmr s')" using t(2) s'(3) by simp
  moreover have "\<forall>a k. bit (lval (led_dev (bl_led s')) a) k
      \<longleftrightarrow> bit (lval (led_dev (bl_led s)) a) k \<noteq> (odd (Suc n) \<and> led_pin gps a k)"
    using g(2) s'(4) by auto
  ultimately show ?case using s'(2) by blast
qed simp

text \<open>C16: The boot loader, when the LED and the timer are set up, blinks and comes to the point where it stops the drivers:
  after each number \<open>n\<close> of passes up to 40, at least \<open>n\<close> times 50001 microseconds have gone by and exactly the LED's pins are
  inverted when \<open>n\<close> is odd and as at the start when it is even, every other output bit untouched; after the last pass the
  interrupts are disabled and exactly the LED's pins are turned off, more than two seconds after the start; the handler for
  illegal instructions is linked before. The starting and stopping of the drivers around it and the jump are not part of
  the statement. Assumed: the LED's pins are different bits of registers that keep what is written, the clock is attached
  and advances while the core waits (\<open>clock_good\<close>).\<close>

theorem bl_run_result:
  fixes s :: "('l, 'h, 'd) bl"
  assumes "led_up (bl_led s) gps" and "stores (bl_hw e) lval lm" and "led_pins lm gps"
    and "clock_good f hw cnt d val m (bl_clock e) (bl_wfi e) w (40 * blink_steps) (bl_tmr s)" and "50000 < bl_fuel e"
  shows "\<exists>s1 s2. bl_link no_program s = Ok s1 \<and> exhandler (tmr_sys (bl_tmr s1)) 0 2 = no_program
    \<and> (\<forall>n \<le> 40. \<exists>sn. bl_blink n e s1 = Ok sn \<and> now_us cnt (bl_tmr s) + n * 50001 \<le> now_us cnt (bl_tmr sn)
         \<and> (\<forall>a k. bit (lval (led_dev (bl_led sn)) a) k
              \<longleftrightarrow> bit (lval (led_dev (bl_led s)) a) k \<noteq> (odd n \<and> led_pin gps a k)))
    \<and> bl_run e no_program s = Ok s2 \<and> now_us cnt (bl_tmr s) + 2000000 < now_us cnt (bl_tmr s2)
    \<and> \<not> irqs_on (csrs (tmr_sys (bl_tmr s2)))
    \<and> (\<forall>a k. bit (lval (led_dev (bl_led s2)) a) k \<longleftrightarrow> bit (lval (led_dev (bl_led s)) a) k \<and> \<not> led_pin gps a k)"
proof -
  obtain y where y: "bl_link no_program s = Ok (s\<lparr>bl_tmr := (bl_tmr s)\<lparr>tmr_sys := y\<rparr>\<rparr>)" "exhandler y 0 2 = no_program"
    using bl_link_result by blast
  let ?s1 = "s\<lparr>bl_tmr := (bl_tmr s)\<lparr>tmr_sys := y\<rparr>\<rparr>"
  have bl: "\<exists>sn. bl_blink n e ?s1 = Ok sn \<and> led_up (bl_led sn) gps
      \<and> now_us cnt (bl_tmr s) + n * 50001 \<le> now_us cnt (bl_tmr sn)
      \<and> (\<forall>a k. bit (lval (led_dev (bl_led sn)) a) k \<longleftrightarrow> bit (lval (led_dev (bl_led s)) a) k \<noteq> (odd n \<and> led_pin gps a k))"
    if "n \<le> 40" for n
    using bl_blink_returns [of ?s1 gps n "40 * blink_steps" f hw cnt d val m e w lval lm] assms that by simp
  obtain sb where sb: "bl_blink 40 e ?s1 = Ok sb" "led_up (bl_led sb) gps"
    "now_us cnt (bl_tmr s) + 2000040 \<le> now_us cnt (bl_tmr sb)"
    "\<forall>a k. bit (lval (led_dev (bl_led sb)) a) k \<longleftrightarrow> bit (lval (led_dev (bl_led s)) a) k"
    using bl [of 40] by auto
  obtain g where g: "onboardled_off (bl_hw e) (bl_led sb) = Ok (success, (bl_led sb)\<lparr>led_dev := g\<rparr>)"
    "\<forall>a k. bit (lval g a) k \<longleftrightarrow> bit (lval (led_dev (bl_led sb)) a) k \<and> \<not> led_pin gps a k"
    using off_led_up [OF sb(2) assms(2)] by blast
  let ?s2 = "(bl_di sb)\<lparr>bl_led := (bl_led sb)\<lparr>led_dev := g\<rparr>\<rparr>"
  have "bl_run e no_program s = Ok ?s2" using sb(1) g(1) y(1) by (simp add: bl_run_def bl_wait_def Let_def bl_di_def)
  moreover have "now_us cnt (bl_tmr s) + 2000000 < now_us cnt (bl_tmr ?s2)" "\<not> irqs_on (csrs (tmr_sys (bl_tmr ?s2)))"
    using sb(3) by (simp_all add: bl_di_def set_csrs_def)
  moreover have "\<forall>a k. bit (lval (led_dev (bl_led ?s2)) a) k \<longleftrightarrow> bit (lval (led_dev (bl_led s)) a) k \<and> \<not> led_pin gps a k"
    using g(2) sb(4) by simp
  moreover have "exhandler (tmr_sys (bl_tmr ?s1)) 0 2 = no_program" using y(2) by simp
  ultimately show ?thesis using y(1) bl by (intro exI conjI) blast+
qed

theorem bl_run_result_witness:
  "\<exists>s2. bl_run \<lparr>bl_hw = plain_hw (\<lambda>_. 0), bl_fuel = 60000, bl_wfi = demo_wfi, bl_clock = demo_schedclk\<rparr> 7
      \<lparr>bl_led = demo_led, bl_tmr = demo_tmr\<rparr> = Ok s2 \<and> now_us fst demo_tmr + 2000000 < now_us fst (bl_tmr s2)"
proof -
  let ?e = "\<lparr>bl_hw = plain_hw (\<lambda>_. 0), bl_fuel = 60000, bl_wfi = demo_wfi, bl_clock = demo_schedclk\<rparr>"
  let ?s = "\<lparr>bl_led = demo_led, bl_tmr = demo_tmr\<rparr>"
  let ?gps = "[demo_pin 19, demo_pin 21]"
  have "led_up demo_led ?gps"
    by (simp add: led_up_def demo_led_def led_ports_def fe310_software_prop_def)
  moreover have "led_pins (\<lambda>a. NOT 0) ?gps" by (simp add: led_pins_def demo_pin_def)
  moreover have "clock_good 2 demo_clint_hw fst 1 demo_val demo_mask demo_schedclk demo_wfi 40 (40 * blink_steps) demo_tmr"
    by (rule demo_clock_good) simp
  ultimately show ?thesis
    using bl_run_result [of ?s ?gps ?e "plain_val (\<lambda>_. 0)" "\<lambda>a. NOT 0" 2 demo_clint_hw fst 1 demo_val demo_mask 40 7]
      plain_stores [of "\<lambda>_. 0"] by auto
qed

end
