(* ===== verification/C_Float.thy ===== *)
theory C_Float
  imports C_Scanf Nmath
begin

text \<open>
  The code that computes with \<open>float\<close> and \<open>double\<close>: \<open>atof\<close> (\<open>lib/libc/strton.c\<close>), the conversion \<open>%f\<close> of \<open>printf.c\<close> and of \<open>scanf.c\<close>
  (compiled with \<open>USE_FLOAT\<close>), the convolution \<open>lib/libnmath/dsp/conv.c\<close> and the temperature conversion of the ATmega's ADC.

  The arithmetic of the machine is a parameter, the record \<open>fp\<close> with one field for each operator and conversion the code uses, so
  the theorems hold for every rounding; a law they rely on is a hypothesis (\<open>exact_ints\<close>: sums with zero, negation and test for
  zero are exact on the 32-bit integers, as they are in IEEE double precision).
\<close>

section \<open>Arithmetic\<close>

record 'f fp =
  fl_of_int :: "u32 \<Rightarrow> 'f"
  fl_of_uint :: "u32 \<Rightarrow> 'f"
  fl_to_long :: "'f \<Rightarrow> u32"
  fl_add :: "'f \<Rightarrow> 'f \<Rightarrow> 'f"
  fl_sub :: "'f \<Rightarrow> 'f \<Rightarrow> 'f"
  fl_mul :: "'f \<Rightarrow> 'f \<Rightarrow> 'f"
  fl_div :: "'f \<Rightarrow> 'f \<Rightarrow> 'f"
  fl_neg :: "'f \<Rightarrow> 'f"
  fl_times10 :: "'f \<Rightarrow> 'f"
  fl_over10 :: "'f \<Rightarrow> 'f"
  fl_tenth :: 'f
  fl_is0 :: "'f \<Rightarrow> bool"
  fl_below0 :: "'f \<Rightarrow> bool"

text \<open>\<open>fl_of_int\<close> reads its argument as signed; \<open>fl_times10\<close> and \<open>fl_over10\<close> are \<open>x *= 10.0\<close> and \<open>x /= 10.0\<close>.\<close>

definition exact_ints :: "'f fp \<Rightarrow> bool" where
  "exact_ints fp \<longleftrightarrow>
     (\<forall>a. fl_add fp (fl_of_int fp a) (fl_of_int fp 0) = fl_of_int fp a)
     \<and> (\<forall>a. fl_is0 fp (fl_of_int fp a) \<longleftrightarrow> a = 0)
     \<and> (\<forall>a. a \<noteq> 0x80000000 \<longrightarrow> fl_neg fp (fl_of_int fp a) = fl_of_int fp (- a))"

section \<open>Strings to floating point\<close>

definition num_char :: "u8 \<Rightarrow> bool" where
  "num_char c \<longleftrightarrow> c \<noteq> 0 \<and> c \<noteq> 0x2e \<and> \<not> isSpace c \<and> isDigit c"

partial_function (option) mantissa_loop :: "'f fp \<Rightarrow> mem \<Rightarrow> ptr \<Rightarrow> 'f \<Rightarrow> 'f \<Rightarrow> (ptr \<times> 'f \<times> 'f) option" where
  "mantissa_loop fp mm s m e =
     (if num_char (mm s)
      then let e1 = fl_mul fp e (fl_tenth fp)
           in mantissa_loop fp mm (s + 1) (fl_add fp m (fl_mul fp e1 (fl_of_int fp (ucast (mm s) - 0x30)))) e1
      else Some (s, m, e))"

definition mantissa_traverse :: "'f fp \<Rightarrow> mem \<Rightarrow> ptr \<Rightarrow> 'f \<Rightarrow> 'f \<Rightarrow> (ptr \<times> 'f \<times> 'f) option" where
  "mantissa_traverse fp mm s m e = mantissa_loop fp mm (if mm s = 0x2e \<and> isSpace (mm s) then s + 1 else s) m e"

partial_function (option) exponent_digits :: "mem \<Rightarrow> ptr \<Rightarrow> u32 \<Rightarrow> (ptr \<times> u32) option" where
  "exponent_digits mm s a =
     (if mm s \<noteq> 0 \<and> \<not> isSpace (mm s) \<and> isDigit (mm s)
      then exponent_digits mm (s + 1) (a * 10 + (ucast (mm s) - 0x30))
      else Some (s, a))"

text \<open>\<open>while((*a)--) *r *= *e\<close> runs as often as \<open>a\<close> says.\<close>

definition scientific_notation :: "'f fp \<Rightarrow> mem \<Rightarrow> ptr \<Rightarrow> 'f \<Rightarrow> 'f \<Rightarrow> 'f option" where
  "scientific_notation fp mm s r e =
     (if (mm s = 0x65 \<or> mm s = 0x45) \<and> isSign (mm (s + 1))
      then let e1 = (if mm (s + 1) = 0x2d then fl_tenth fp else if mm (s + 1) = 0x2b then fl_of_int fp 10 else e)
           in map_option (\<lambda>(_, a). ((\<lambda>x. fl_mul fp x e1) ^^ unat a) r) (exponent_digits mm (s + 2) 0)
      else Some r)"

definition atof :: "'f fp \<Rightarrow> mem \<Rightarrow> ptr \<Rightarrow> 'f option" where
  "atof fp mm s =
     (case trail_whitespace mm s of
        None \<Rightarrow> None
      | Some s1 \<Rightarrow>
          (case set_negative_flag mm s1 of (s2, N) \<Rightarrow>
             (case integer_traverse mm s2 0 of
                None \<Rightarrow> None
              | Some (s3, a) \<Rightarrow>
                  (case mantissa_traverse fp mm s3 (fl_of_int fp 0) (fl_of_int fp 1) of
                     None \<Rightarrow> None
                   | Some (s4, m, e) \<Rightarrow>
                       map_option (\<lambda>r. if N \<and> \<not> fl_is0 fp r then fl_neg fp r else r)
                         (scientific_notation fp mm s4 (fl_add fp (fl_of_int fp a) m) e)))))"

section \<open>Printing\<close>

text \<open>\<open>padf\<close> is 5 or what digits of the format say, so it is not negative.\<close>

primrec frac_loop :: "nat \<Rightarrow> 'f fp \<Rightarrow> nat \<Rightarrow> bool \<Rightarrow> 'f \<Rightarrow> u32 \<Rightarrow> ('c, 'l) stdio \<Rightarrow> (u32 \<times> ('c, 'l) stdio) outcome" where
  "frac_loop 0 fp fd en frac d s = Ok (d, s)"
| "frac_loop (Suc padf) fp fd en frac d s =
     (let frac1 = fl_times10 fp frac; d1 = fl_to_long fp frac1
      in obind (if d1 = 0 then obind (fputc_en fd en 0x30 s) (\<lambda>(_, s1). Ok s1) else Ok s)
           (frac_loop padf fp fd en frac1 d1))"

definition fltprint ::
  "'f fp \<Rightarrow> nat \<Rightarrow> bool \<Rightarrow> 'f \<Rightarrow> u8 \<Rightarrow> int \<Rightarrow> nat \<Rightarrow> ('c, 'l) stdio \<Rightarrow> (u32 \<times> ('c, 'l) stdio) outcome" where
  "fltprint fp fd en flt padc padd padf s =
     (let d = fl_to_long fp flt; frac = fl_sub fp flt (fl_of_int fp d)
      in obind (unumprint fd en d 10 padc padd s) (\<lambda>(ret, s1).
         obind (fputc_en fd en 0x2e s1) (\<lambda>(_, s2).
         obind (frac_loop padf fp fd en frac d s2) (\<lambda>(d1, s3).
         obind (unumprint fd en d1 10 0x30 0 s3) (\<lambda>(r, s4). Ok (ret + 1 + r, s4))))))"

text \<open>The conversion \<open>%f\<close> of \<open>vprintf\<close>.\<close>

definition print_f ::
  "'f fp \<Rightarrow> nat \<Rightarrow> bool \<Rightarrow> 'f \<Rightarrow> u8 \<Rightarrow> int \<Rightarrow> nat \<Rightarrow> ('c, 'l) stdio \<Rightarrow> (u32 \<times> ('c, 'l) stdio) outcome" where
  "print_f fp fd en flt padc padn padf s =
     (if fl_below0 fp flt
      then obind (fputc_en fd en 0x2d s) (\<lambda>(_, s1).
           fltprint fp fd en (fl_mul fp flt (fl_neg fp (fl_of_int fp 1))) padc (padn - 1) padf s1)
      else fltprint fp fd en flt padc padn padf s)"

section \<open>Reading\<close>

record 'f fscan =
  fs_a :: 'f
  fs_rp :: bool
  fs_e :: 'f
  fs_fl :: u32

text \<open>What one key does; \<open>fl\<close> is ten to the number of digits behind the point, modulo the width of the variable.\<close>

definition float_key :: "'f fp \<Rightarrow> u8 \<Rightarrow> 'f fscan \<Rightarrow> ('c, 'l) stdio \<Rightarrow> ('f fscan \<times> ('c, 'l) stdio) outcome" where
  "float_key fp c k s =
     (if \<not> fs_rp k \<and> c = 0x2e then obind (put c s) (\<lambda>s1. Ok (k\<lparr>fs_rp := True\<rparr>, s1))
      else if isDigit c
      then let v = fl_of_int fp (ucast c - 0x30);
               k1 = (if fs_rp k
                     then let e = fl_over10 fp (fs_e k)
                          in k\<lparr>fs_e := e, fs_a := fl_add fp (fs_a k) (fl_mul fp e v), fs_fl := fs_fl k * 10\<rparr>
                     else k\<lparr>fs_a := fl_add fp (fl_times10 fp (fs_a k)) v\<rparr>)
           in obind (put c s) (\<lambda>s1. Ok (k1, s1))
      else if \<not> fl_is0 fp (fs_a k) \<and> (c = chr_del \<or> c = chr_bs)
      then let d = fl_to_long fp (fs_a k); frac = fl_sub fp (fs_a k) (fl_of_int fp d);
               k1 = (if fl_is0 fp frac \<and> fs_rp k then k\<lparr>fs_rp := False\<rparr>
                     else if fs_rp k
                     then let fl = fs_fl k div 10;
                              f1 = fl_to_long fp (fl_mul fp frac (fl_of_uint fp fl))
                          in k\<lparr>fs_fl := fl, fs_a := fl_add fp (fl_of_int fp d) (fl_div fp (fl_of_int fp f1) (fl_of_uint fp fl))\<rparr>
                     else k\<lparr>fs_a := fl_of_int fp (word_of_int (sint d sdiv 10))\<rparr>)
           in obind (put_all rubout s) (\<lambda>s1. Ok (k1, s1))
      else Ok (k, s))"

primrec float_loop :: "nat \<Rightarrow> 'f fp \<Rightarrow> nat \<Rightarrow> 'f fscan \<Rightarrow> u8 \<Rightarrow> ('c, 'l) stdio \<Rightarrow> ('f fscan \<times> u8 \<times> ('c, 'l) stdio) outcome" where
  "float_loop 0 fp fd k c s = Hang"
| "float_loop (Suc fuel) fp fd k c s =
     obind (fgetc fd c s) (\<lambda>(_, c1, s1).
     obind (float_key fp c1 k s1) (\<lambda>(k1, s2). if isSpace c1 then Ok (k1, c1, s2) else float_loop fuel fp fd k1 c1 s2))"

definition scan_float :: "nat \<Rightarrow> 'f fp \<Rightarrow> nat \<Rightarrow> u8 \<Rightarrow> ('c, 'l) stdio \<Rightarrow> ('f \<times> u8 \<times> ('c, 'l) stdio) outcome" where
  "scan_float fuel fp fd c s =
     obind (skip_space fuel fd c s) (\<lambda>(c1, s1).
     let N = (c1 = 0x2d);
         k = \<lparr>fs_a = (if c1 \<noteq> 0x2e \<and> \<not> N \<and> isDigit c1 then fl_of_int fp (ucast c1 - 0x30) else fl_of_int fp 0),
              fs_rp = (c1 = 0x2e), fs_e = fl_of_int fp 1, fs_fl = 1\<rparr>
     in obind (float_loop fuel fp fd k c1 s1) (\<lambda>(k1, c2, s2).
        obind (echo c2 s2) (\<lambda>s3. Ok (if N then fl_neg fp (fs_a k1) else fs_a k1, c2, s3))))"

section \<open>Convolution\<close>

text \<open>An access outside of an array is a fault. The sizes are \<open>int\<close>; sums of sizes of arrays do not overflow.\<close>

definition at_idx :: "'f list \<Rightarrow> int \<Rightarrow> 'f outcome" where
  "at_idx xs i = require (0 \<le> i \<and> i < int (length xs)) Out_of_bounds (Ok (xs ! nat i))"

text \<open>\<open>n\<close> is the number of turns the inner loop still has.\<close>

primrec conv_sum :: "nat \<Rightarrow> 'f fp \<Rightarrow> 'f list \<Rightarrow> 'f list \<Rightarrow> int \<Rightarrow> int \<Rightarrow> 'f list \<Rightarrow> 'f list outcome" where
  "conv_sum 0 fp a b ci r c = Ok c"
| "conv_sum (Suc n) fp a b ci r c =
     obind (at_idx a r) (\<lambda>x. obind (at_idx b (ci - r)) (\<lambda>y. obind (at_idx c ci) (\<lambda>z.
       conv_sum n fp a b ci (r + 1) (c[nat ci := fl_add fp z (fl_mul fp x y)]))))"

primrec conv_rows :: "nat \<Rightarrow> 'f fp \<Rightarrow> 'f list \<Rightarrow> int \<Rightarrow> 'f list \<Rightarrow> int \<Rightarrow> int \<Rightarrow> 'f list \<Rightarrow> 'f list outcome" where
  "conv_rows 0 fp a size_a b size_b ci c = Ok c"
| "conv_rows (Suc n) fp a size_a b size_b ci c =
     (let rstart = (if ci \<ge> size_b - 1 then ci - (size_b - 1) else 0);
          rend = (if ci < rstart - 1 then ci else size_a - 1)
      in obind (conv_sum (nat (rend - rstart + 1)) fp a b ci rstart c) (conv_rows n fp a size_a b size_b (ci + 1)))"

definition conv :: "'f fp \<Rightarrow> 'f list \<Rightarrow> int \<Rightarrow> 'f list \<Rightarrow> int \<Rightarrow> 'f list \<Rightarrow> int \<Rightarrow> (status_t \<times> 'f list) outcome" where
  "conv fp a size_a b size_b c size_c =
     (if size_c < size_a + size_b - 1 then Ok (error_math_inval_arg, c)
      else obind (conv_rows (nat size_c) fp a size_a b size_b 0 c) (\<lambda>c1. Ok (success, c1)))"

section \<open>The temperature of the ATmega's converter\<close>

text \<open>\<open>CTO\<close> and \<open>CTK\<close> are both 1; \<open>unsigned long\<close> has 32 bits.\<close>

definition adc_temperature_convert :: "'f fp \<Rightarrow> u16 \<Rightarrow> status_t \<times> 'f" where
  "adc_temperature_convert fp raw_adc =
     (let scaled_val = (ucast raw_adc :: u32) * 1000
      in (success, fl_div fp (fl_of_uint fp (scaled_val - 1)) (fl_of_int fp 1)))"

text \<open>The reading 0 wraps around.\<close>

lemma temperature_of_zero: "adc_temperature_convert fp 0 = (success, fl_div fp (fl_of_uint fp (- 1)) (fl_of_int fp 1))"
  by (simp add: adc_temperature_convert_def)

section \<open>What \<open>atof\<close> reads\<close>

text \<open>The end of the integer part is not a digit, and the fraction's loop wants one: it ends where it starts.\<close>

lemma integer_traverse_end:
  assumes "integer_traverse mm s a = Some (s', a')"
  shows "\<not> num_char (mm s')"
proof -
  have "\<not> num_char (mm (fst (s', a')))"
    by (rule integer_traverse.raw_induct [where P = "\<lambda>mm s a r. \<not> num_char (mm (fst r))", OF _ assms])
      (auto simp: num_char_def split: if_splits)
  then show ?thesis by simp
qed

lemma mantissa_skipped:
  assumes "\<not> num_char (mm s)"
  shows "mantissa_traverse fp mm s m e = Some (s, m, e)"
proof -
  have "\<not> (mm s = 0x2e \<and> isSpace (mm s))" by (auto simp: isSpace_def isWhitespace_def)
  then have "mantissa_traverse fp mm s m e = mantissa_loop fp mm s m e" by (simp only: mantissa_traverse_def if_False)
  also have "\<dots> = Some (s, m, e)" using assms by (subst mantissa_loop.simps) simp
  finally show ?thesis .
qed

text \<open>Where the integer part of a number ends.\<close>

definition number_end :: "mem \<Rightarrow> ptr \<Rightarrow> ptr option" where
  "number_end mm s =
     (case trail_whitespace mm s of
        None \<Rightarrow> None
      | Some s1 \<Rightarrow> map_option fst (integer_traverse mm (fst (set_negative_flag mm s1)) 0))"

definition exponent_at :: "mem \<Rightarrow> ptr \<Rightarrow> bool" where
  "exponent_at mm s \<longleftrightarrow> (mm s = 0x65 \<or> mm s = 0x45) \<and> isSign (mm (s + 1))"

lemma atof_integer_part:
  assumes "exact_ints fp" and "number_end mm s = Some q" and "\<not> exponent_at mm q" and "atol mm s \<noteq> Some 0x80000000"
  shows "atof fp mm s = map_option (fl_of_int fp) (atol mm s)"
proof -
  obtain s1 where s1: "trail_whitespace mm s = Some s1" using assms(2) by (auto simp: number_end_def split: option.splits)
  obtain s2 N where s2: "set_negative_flag mm s1 = (s2, N)" by fastforce
  obtain a where a: "integer_traverse mm s2 0 = Some (q, a)"
    using assms(2) s1 s2 by (auto simp: number_end_def)
  have at: "atol mm s = Some (if N \<and> a \<noteq> 0 then - a else a)" using s1 s2 a by (simp add: atol_def)
  have "scientific_notation fp mm q r e = Some r" for r e
    using assms(3) by (auto simp: scientific_notation_def exponent_at_def)
  then have "atof fp mm s = Some (if N \<and> a \<noteq> 0 then fl_neg fp (fl_of_int fp a) else fl_of_int fp a)"
    using s1 s2 a mantissa_skipped [of mm q fp, OF integer_traverse_end [OF a]] assms(1)
    by (simp add: atof_def exact_ints_def)
  moreover have "a \<noteq> 0x80000000 \<or> \<not> N" using at assms(4) by auto
  ultimately show ?thesis using at assms(1) by (auto simp: exact_ints_def)
qed

text \<open>In particular the digits behind a point are lost.\<close>

lemma atof_drops_fraction:
  assumes "exact_ints fp" and "cstr m p (ds @ 0x2e # rest)" and "list_all isDigit ds" and "ds \<noteq> []"
    and "fold read_digit ds 0 \<noteq> 0x80000000"
  shows "atof fp m p = Some (fl_of_int fp (fold read_digit ds 0))"
proof -
  let ?q = "p + of_nat (length ds)"
  have i: "integer_traverse m p 0 = Some (?q, fold read_digit ds 0)"
    using integer_traverse_prefix [OF assms(2,3)] by (simp add: isDigit_def)
  obtain d es where d: "ds = d # es" "isDigit d" using assms(3,4) by (cases ds) auto
  then have "m p = d" using assms(2) by simp
  then have s: "trail_whitespace m p = Some p" "set_negative_flag m p = (p, False)"
    using isDigit_plain [OF d(2)] by (simp_all add: trail_whitespace.simps set_negative_flag_def)
  have "m ?q = 0x2e" using assms(2) unfolding cstr_append by simp
  then have "\<not> exponent_at m ?q" by (simp add: exponent_at_def)
  moreover have "number_end m p = Some ?q" "atol m p = Some (fold read_digit ds 0)"
    using s i by (simp_all add: number_end_def atol_def)
  ultimately show ?thesis using atof_integer_part [OF assms(1)] assms(5) by simp
qed

text \<open>The 32-bit integers themselves as the arithmetic of the witnesses.\<close>

definition demo_fp :: "u32 fp" where
  "demo_fp = \<lparr>fl_of_int = id, fl_of_uint = id, fl_to_long = id, fl_add = (+), fl_sub = (-), fl_mul = (*),
     fl_div = (div), fl_neg = uminus, fl_times10 = (\<lambda>x. 10 * x), fl_over10 = (\<lambda>x. x div 10), fl_tenth = 0,
     fl_is0 = (\<lambda>x. x = 0), fl_below0 = (\<lambda>x. x <s 0)\<rparr>"

lemma demo_exact: "exact_ints demo_fp"
  by (simp add: exact_ints_def demo_fp_def)

text \<open>Unless an exponent follows the integer part, \<open>atof\<close> returns the number that \<open>atol\<close> returns: the test before the
  fraction asks for a character that is a point and a space at once, so a fraction is never read, whatever the arithmetic
  (integers being exact in it).\<close>

theorem atof_is_atol:
  assumes "exact_ints fp" and "number_end mm s = Some q" and "\<not> exponent_at mm q" and "atol mm s \<noteq> Some 0x80000000"
  shows "atof fp mm s = map_option (fl_of_int fp) (atol mm s)"
  by (rule atof_integer_part [OF assms])

text \<open>The text \<open>-12.5\<close> at address 100.\<close>

theorem atof_is_atol_witness:
  "atof demo_fp (\<lambda>a. if a = 100 then 0x2d else if a = 101 then 0x31 else if a = 102 then 0x32 else if a = 103 then 0x2e
      else if a = 104 then 0x35 else 0) 100 = Some (- 12)"
proof -
  let ?m = "\<lambda>a :: ptr. if a = 100 then 0x2d else if a = 101 then 0x31 else if a = 102 then 0x32 else if a = 103 then 0x2e
      else if a = 104 then 0x35 else (0 :: u8)"
  have c: "isSpace (?m 100) = False" "set_negative_flag ?m 100 = (101, True)"
    by (simp_all add: isSpace_def isWhitespace_def set_negative_flag_def isSign_def)
  have w: "trail_whitespace ?m 100 = Some 100" using c(1) by (subst trail_whitespace.simps) (simp only: if_False)
  have i: "integer_traverse ?m 101 0 = Some (103, 12)"
    by (simp add: integer_traverse.simps isDigit_def isSpace_def isWhitespace_def)
  have "number_end ?m 100 = Some 103" "atol ?m 100 = Some (- 12)" using w c(2) i by (simp_all add: number_end_def atol_def)
  moreover have "\<not> exponent_at ?m 103" by (simp add: exponent_at_def)
  ultimately show ?thesis using atof_is_atol [OF demo_exact, of ?m 100 103] by (simp add: demo_fp_def)
qed

section \<open>Printing a number without a fraction\<close>

text \<open>One zero too many: the loop prints a zero for each place, and the numeral that should hold the fraction is another.\<close>

lemma frac_loop_zero:
  assumes "fl_times10 fp z = z" and "fl_to_long fp z = 0"
  shows "frac_loop n fp fd en z d s =
    obind (fputs_en fd en (replicate n 0x30) s) (\<lambda>(_, s1). Ok (if n = 0 then d else 0, s1))"
  using assms by (induction n arbitrary: d s) (auto simp: obind_assoc case_prod_unfold Let_def)

lemma fltprint_whole:
  fixes fp :: "'f fp" and s :: "('c, 'l) stdio"
  assumes "fl_sub fp x (fl_of_int fp (fl_to_long fp x)) = z" and "fl_times10 fp z = z" and "fl_to_long fp z = 0" and "0 < n"
  shows "obind (fltprint fp fd en x padc padd n s) (\<lambda>(_, s1). Ok s1) =
    obind (fputs_en fd en (numeral_text (fl_to_long fp x) 10 padc padd @ 0x2e # replicate (Suc n) 0x30) s) (\<lambda>(_, s1). Ok s1)"
proof -
  have "digit_buf 0 10 = [0x30]" by (simp add: digit_buf.simps digit_char_def)
  then have z: "numeral_text 0 10 0x30 0 = [0x30]" by (simp add: numeral_text_def)
  have "replicate (Suc n) 0x30 = replicate n 0x30 @ [0x30 :: u8]" by (simp add: replicate_append_same)
  then show ?thesis
    using assms(1,4)
    by (simp only: fltprint_def Let_def unumprint_text frac_loop_zero [OF assms(2,3)])
      (simp add: unumprint_text fputs_en_append obind_assoc case_prod_unfold z cong: if_cong)
qed

section \<open>The convolution\<close>

text \<open>The convolution of an array of two or more elements reads outside of the second array: the upper bound of the inner
  loop compares with the wrong variable and stays at the last index, so already the first row reads before the start of the
  array. Arrays that are too small are refused with an error and left alone.\<close>

theorem conv_faults:
  assumes "2 \<le> length a" and "b \<noteq> []" and "0 < length c" and "size_c \<le> int (length c)"
  shows "conv fp a (int (length a)) b (int (length b)) c size_c =
    (if size_c < int (length a) + int (length b) - 1 then Ok (error_math_inval_arg, c) else Fault Out_of_bounds)"
proof (cases "size_c < int (length a) + int (length b) - 1")
  case False
  have l: "0 < length b" using assms(2) by simp
  then obtain n where n: "nat size_c = Suc n" using False assms(1) by (cases "nat size_c") auto
  obtain k where k: "nat (int (length a) - 1 - 0 + 1) = Suc (Suc k)" using assms(1) by (auto simp: le_iff_add)
  have c: "conv_sum (Suc (Suc k)) fp a b 0 0 c = Fault Out_of_bounds"
    using assms(1,3) l by (cases a; cases "tl a") (auto simp: at_idx_def)
  have rs: "(if 0 \<ge> int (length b) - 1 then 0 - (int (length b) - 1) else 0) = 0" using l by (cases "length b") auto
  have "conv_rows (Suc n) fp a (int (length a)) b (int (length b)) 0 c
      = obind (conv_sum (nat (int (length a) - 1 - 0 + 1)) fp a b 0 0 c) (conv_rows n fp a (int (length a)) b (int (length b)) (0 + 1))"
    unfolding conv_rows.simps Let_def rs by simp
  then have "conv_rows (Suc n) fp a (int (length a)) b (int (length b)) 0 c = Fault Out_of_bounds"
    by (simp only: k c obind.simps)
  then show ?thesis using False n by (simp add: conv_def)
qed (simp add: conv_def)

theorem conv_faults_witness:
  "conv demo_fp [1, 2] 2 [3, 4] 2 [0, 0, 0] 3 = Fault Out_of_bounds"
  using conv_faults [of "[1, 2]" "[3, 4]" "[0, 0, 0]" 3 demo_fp] by simp

text \<open>With a single element it is right: each element of the other array is scaled and added to what the result held.\<close>

lemma conv_row_single:
  assumes "k < length c" and "b \<noteq> []"
  shows "conv_rows (Suc m) fp [x] 1 b (int (length b)) (int k) c =
    conv_rows m fp [x] 1 b (int (length b)) (int (Suc k))
      (if k < length b then c[k := fl_add fp (c ! k) (fl_mul fp x (b ! k))] else c)"
proof (cases "k < length b")
  case True
  let ?rs = "if int k \<ge> int (length b) - 1 then int k - (int (length b) - 1) else 0"
  have r: "?rs = 0" using True by auto
  have "conv_sum 1 fp [x] b (int k) 0 c = Ok (c[k := fl_add fp (c ! k) (fl_mul fp x (b ! k))])"
    using True assms(1) by (simp add: at_idx_def)
  then show ?thesis using True by (simp add: Let_def r del: of_nat_Suc One_nat_def) (simp add: add.commute)
next
  case False
  have "length b > 0" using assms(2) by simp
  then show ?thesis using False by (simp add: Let_def add.commute)
qed

lemma conv_rows_single:
  assumes "k + m \<le> length c" and "b \<noteq> []"
  shows "\<exists>c'. conv_rows m fp [x] 1 b (int (length b)) (int k) c = Ok c' \<and> length c' = length c
    \<and> (\<forall>i < length c. c' ! i = (if k \<le> i \<and> i < k + m \<and> i < length b then fl_add fp (c ! i) (fl_mul fp x (b ! i)) else c ! i))"
  using assms(1)
proof (induction m arbitrary: k c)
  case (Suc m)
  let ?c = "if k < length b then c[k := fl_add fp (c ! k) (fl_mul fp x (b ! k))] else c"
  obtain c' where "conv_rows m fp [x] 1 b (int (length b)) (int (Suc k)) ?c = Ok c'" "length c' = length c"
    "\<forall>i < length c. c' ! i = (if Suc k \<le> i \<and> i < Suc k + m \<and> i < length b then fl_add fp (?c ! i) (fl_mul fp x (b ! i)) else ?c ! i)"
  proof -
    have "Suc k + m \<le> length ?c" "length ?c = length c" using Suc.prems by simp_all
    then show ?thesis using Suc.IH [of "Suc k" ?c] that by metis
  qed
  then show ?case
    using conv_row_single [OF _ assms(2), of k c m fp x] Suc.prems
    by (intro exI [of _ c'] conjI) (auto simp: nth_list_update le_less simp del: conv_rows.simps)
qed auto

lemma conv_single:
  assumes "b \<noteq> []" and "length b \<le> length c"
  shows "\<exists>c'. conv fp [x] 1 b (int (length b)) c (int (length c)) = Ok (success, c')
    \<and> c' = map2 (fl_add fp) (take (length b) c) (map (fl_mul fp x) b) @ drop (length b) c"
proof -
  obtain c' where c': "conv_rows (length c) fp [x] 1 b (int (length b)) 0 c = Ok c'" "length c' = length c"
    "\<forall>i < length c. c' ! i = (if i < length b then fl_add fp (c ! i) (fl_mul fp x (b ! i)) else c ! i)"
    using conv_rows_single [of 0 "length c" c b fp x] assms(1) by auto
  then have "c' = map2 (fl_add fp) (take (length b) c) (map (fl_mul fp x) b) @ drop (length b) c"
    using assms(2) by (intro nth_equalityI) (auto simp: nth_append min_def)
  then show ?thesis using c'(1) assms by (simp add: conv_def)
qed

end
