(* ===== verification/Avr_Con.thy ===== *)
theory Avr_Con
  imports Avr_Serial
begin

text \<open>
  Setup and exit of the two console drivers of the Mega-AVR (\<open>driver/console/con_serial_mega_avr\<close>). The pointers to ports are
  static variables that keep their value after a free; what \<open>malloc\<close> returns is a parameter, and the frees are recorded in
  their order. The driver structures with their function pointers are the parameters \<open>cdev\<close> and \<open>edev\<close>.
\<close>

section \<open>State\<close>

datatype avr_con_obj = AC_port | AC_driver | AE_port | AE_driver

record ('d, 'c, 'l) avr_consoles =
  av_hw :: "'d irq_dev"
  av_io :: "('c, 'l) stdio"
  av_port :: "avr_uart_port option"
  av_early_port :: "avr_uart_port option"
  av_early_exec :: bool
  av_freed :: "avr_con_obj list"

text \<open>What the two calls of \<open>malloc\<close> in a setup return.\<close>

record avr_con_alloc =
  aa_driver :: bool
  aa_port :: "avr_uart_port option"

abbreviation (input) avr_con_write_irq :: avr_handler where "avr_con_write_irq \<equiv> 7"
abbreviation (input) avr_con_read_irq :: avr_handler where "avr_con_read_irq \<equiv> 8"

definition avr_freed :: "avr_con_obj list \<Rightarrow> ('d, 'c, 'l) avr_consoles \<Rightarrow> ('d, 'c, 'l) avr_consoles" where
  "avr_freed xs s = s\<lparr>av_freed := av_freed s @ xs\<rparr>"

section \<open>The early console\<close>

definition avr_earlycon_driver_exit ::
  "'d hw8 \<Rightarrow> ('d, 'c, 'l) avr_consoles \<Rightarrow> (status_t \<times> ('d, 'c, 'l) avr_consoles) outcome" where
  "avr_earlycon_driver_exit hw s =
     (case console_release_device (av_io s) of (r1, io) \<Rightarrow>
      obind (avr_uart_shutdown hw (av_early_port s) (av_hw s)) (\<lambda>(r2, h).
      Ok (r1 OR r2, avr_freed [AE_port, AE_driver] (s\<lparr>av_io := io, av_hw := h\<rparr>))))"

definition avr_earlycon_driver_setup ::
  "'d hw8 \<Rightarrow> resources \<Rightarrow> 'c console_t \<Rightarrow> avr_con_alloc \<Rightarrow> ('d, 'c, 'l) avr_consoles \<Rightarrow> (status_t \<times> ('d, 'c, 'l) avr_consoles) outcome" where
  "avr_earlycon_driver_setup hw r edev al s =
     (if \<not> aa_driver al then Ok (error_memory_low, s)
      else obind (avr_earlycon_serial_setup hw r (av_early_port s) (aa_port al) (av_hw s)) (\<lambda>(ret, p, h).
        let s1 = s\<lparr>av_early_port := p, av_hw := h\<rparr>;
            cleanup = (\<lambda>ret s. obind (avr_earlycon_driver_exit hw s) (\<lambda>(_, s'). Ok (ret, s')))
        in if ret \<noteq> 0 then cleanup ret s1
           else case console_attach_device ret (Some edev) (av_io s1) of (ret1, io) \<Rightarrow>
                  if ret1 = 0 then Ok (ret1, s1\<lparr>av_io := io\<rparr>) else cleanup ret1 (s1\<lparr>av_io := io\<rparr>)))"

text \<open>\<open>driver_setup("earlycon")\<close> and \<open>driver_exit("earlycon")\<close>: the entry of the driver table runs the function at most once.\<close>

definition avr_earlycon_on ::
  "'d hw8 \<Rightarrow> resources \<Rightarrow> 'c console_t \<Rightarrow> avr_con_alloc \<Rightarrow> ('d, 'c, 'l) avr_consoles \<Rightarrow> (status_t \<times> ('d, 'c, 'l) avr_consoles) outcome" where
  "avr_earlycon_on hw r edev al s =
     (if av_early_exec s then Ok (error_driver_init_done, s)
      else avr_earlycon_driver_setup hw r edev al (s\<lparr>av_early_exec := True\<rparr>))"

definition avr_earlycon_off :: "'d hw8 \<Rightarrow> ('d, 'c, 'l) avr_consoles \<Rightarrow> (status_t \<times> ('d, 'c, 'l) avr_consoles) outcome" where
  "avr_earlycon_off hw s =
     (if \<not> av_early_exec s then Ok (error_driver, s) else avr_earlycon_driver_exit hw (s\<lparr>av_early_exec := False\<rparr>))"

section \<open>The console\<close>

text \<open>\<open>ea\<close>: what \<open>malloc\<close> returns when the early console is set up again.\<close>

definition avr_console_driver_exit ::
  "'d hw8 \<Rightarrow> resources \<Rightarrow> 'c console_t \<Rightarrow> avr_con_alloc \<Rightarrow> ('d, 'c, 'l) avr_consoles \<Rightarrow> (status_t \<times> ('d, 'c, 'l) avr_consoles) outcome" where
  "avr_console_driver_exit hw r edev ea s =
     (case console_release_device (av_io s) of (r1, io) \<Rightarrow>
      obind (avr_uart_shutdown hw (av_port s) (av_hw s)) (\<lambda>(r2, h).
      obind (avr_earlycon_on hw r edev ea (avr_freed [AC_driver, AC_port] (s\<lparr>av_io := io, av_hw := h\<rparr>))) (\<lambda>(r3, s1).
      Ok (r1 OR r2 OR r3, s1))))"

definition avr_console_driver_setup ::
  "'d hw8 \<Rightarrow> resources \<Rightarrow> 'c console_t \<Rightarrow> 'c console_t \<Rightarrow> avr_con_alloc \<Rightarrow> avr_con_alloc \<Rightarrow> ('d, 'c, 'l) avr_consoles
     \<Rightarrow> (status_t \<times> ('d, 'c, 'l) avr_consoles) outcome" where
  "avr_console_driver_setup hw r cdev edev al ea s =
     obind (avr_earlycon_off hw s) (\<lambda>(_, s0).
       if \<not> aa_driver al then Ok (error_memory_low, s0)
       else obind (avr_console_serial_setup hw r (av_port s0) (aa_port al) avr_con_write_irq avr_con_read_irq (av_hw s0)) (\<lambda>(ret, p, h).
         let s1 = s0\<lparr>av_port := p, av_hw := h\<rparr>;
             cleanup = (\<lambda>ret s. obind (avr_console_driver_exit hw r edev ea s) (\<lambda>(_, s'). Ok (ret, s')))
         in if ret \<noteq> 0 then cleanup ret s1
            else case console_attach_device ret (Some cdev) (av_io s1) of (ret1, io) \<Rightarrow>
                   if ret1 = 0 then Ok (ret1, s1\<lparr>av_io := io\<rparr>) else cleanup ret1 (s1\<lparr>av_io := io\<rparr>)))"

section \<open>Who holds the console\<close>

lemma avr_attach_ok [simp]:
  "console_attach_device 0 (Some d) io =
     (0, (snd (stdin_register F_console_getc (snd (stderr_register F_console_putc (snd (stdout_register F_console_putc
       (io\<lparr>console_attached := True, con := Some d\<rparr>))))))))"
  by (simp add: console_attach_device_def register_defs Let_def)

lemma register_keeps [simp]:
  "con (snd (stdin_register f io)) = con io" "con (snd (stderr_register f io)) = con io" "con (snd (stdout_register f io)) = con io"
  "console_attached (snd (stdin_register f io)) = console_attached io"
  "console_attached (snd (stderr_register f io)) = console_attached io"
  "console_attached (snd (stdout_register f io)) = console_attached io"
  by (simp_all add: register_defs)

lemma avr_earlycon_exit_state:
  assumes "avr_earlycon_driver_exit hw s = Ok (ret, s')"
  shows "\<not> console_attached (av_io s') \<and> av_early_exec s' = av_early_exec s \<and> av_port s' = av_port s"
  using assms by (auto simp: avr_earlycon_driver_exit_def console_release_device_def avr_freed_def outcome_simps)

lemma avr_earlycon_on_state:
  assumes "avr_earlycon_on hw r edev al s = Ok (ret, s')"
  shows "av_early_exec s' \<and> (ret = success \<longrightarrow> console_attached (av_io s') \<and> con (av_io s') = Some edev)"
  using assms
  by (auto simp: avr_earlycon_on_def avr_earlycon_driver_setup_def Let_def outcome_simps split: if_splits
      dest!: avr_earlycon_exit_state)

lemma avr_console_exit_state:
  assumes "avr_console_driver_exit hw r edev ea s = Ok (ret, s')"
  shows "av_early_exec s'"
  using assms by (auto simp: avr_console_driver_exit_def outcome_simps split: prod.splits dest!: avr_earlycon_on_state)

text \<open>The console of the AVR takes over from the early console. When its setup succeeds, it is attached and the early console
  is stopped; when the setup fails later on, the early console is started again; but when the first allocation fails, the
  early console has been stopped already and nothing is attached: all output is lost from then on.\<close>

lemma avr_console_handover:
  assumes "avr_console_driver_setup hw r cdev edev al ea s = Ok (ret, s')" and "av_early_exec s"
  shows "if \<not> aa_driver al then ret = error_memory_low \<and> \<not> console_attached (av_io s') \<and> \<not> av_early_exec s'
    else if ret = success then console_attached (av_io s') \<and> con (av_io s') = Some cdev \<and> \<not> av_early_exec s'
    else av_early_exec s'"
proof -
  obtain q s0 where s0: "avr_earlycon_driver_exit hw (s\<lparr>av_early_exec := False\<rparr>) = Ok (q, s0)"
    using assms by (auto simp: avr_console_driver_setup_def avr_earlycon_off_def outcome_simps)
  have e: "\<not> console_attached (av_io s0)" "\<not> av_early_exec s0" using avr_earlycon_exit_state [OF s0] by simp_all
  show ?thesis
  proof (cases "aa_driver al")
    case False
    then show ?thesis using assms s0 e by (simp add: avr_console_driver_setup_def avr_earlycon_off_def)
  next
    case True
    show ?thesis using assms s0 e True
      by (auto simp: avr_console_driver_setup_def avr_earlycon_off_def Let_def outcome_simps split: if_splits
          dest!: avr_console_exit_state)
  qed
qed

end
