(* ===== verification/Entry.thy ===== *)
theory Entry
  imports Boot Arch_Arm
begin

text \<open>
  Entry points of the framework and of visor calls.

  \<^item> \<open>arch_visor_call\<close> of the RISC-V (\<open>arch/riscv/32/i/terravisor/include/arch.h\<close>): the instruction \<open>ecall\<close> with the prologue and
    epilogue of \<open>asm.S\<close>, the trap dispatcher and the visor-call handler in one path.
  \<^item> \<open>init\<close> of the three architectures (\<open>init.c\<close>) and the engine of the secondary cores (\<open>engine/engine.c\<close>).
  \<^item> \<open>init\<close> of a multi-core build as a transition system of the cores on \<open>boot_key\<close>, on the lock's own steps.
\<close>

section \<open>Visor calls on the RISC-V\<close>

text \<open>What a trap works on besides the tables: the argument registers in the frames on the stack and the state behind the visor
  calls. They stand beside the state of the interrupt controller, in the part of the machine that handlers change.\<close>

record ('h, 's) trap_dev =
  td_dev :: 'h
  td_frames :: "ptr \<Rightarrow> vframe"
  td_res :: 's

definition vcall_run ::
  "(vptr \<Rightarrow> u32) \<Rightarrow> 's vcall_t list \<Rightarrow> vret_t \<Rightarrow> u32 \<Rightarrow> (handler \<Rightarrow> ('h, 's) trap_dev sys \<Rightarrow> ('h, 's) trap_dev sys outcome)
     \<Rightarrow> handler \<Rightarrow> ('h, 's) trap_dev sys \<Rightarrow> ('h, 's) trap_dev sys outcome" where
  "vcall_run enc tbl vres core run h s =
     (if h = arch_vcall_handler_ptr
      then let f = get_context_frame core s; d = dev (plic s)
           in require (f \<noteq> NULL) Null_deref
                (obind (arch_vcall_handler enc tbl vres (td_frames d f) (td_res d)) (\<lambda>(fr, r).
                 Ok (s\<lparr>plic := (plic s)\<lparr>dev := d\<lparr>td_frames := (td_frames d)(f := fr), td_res := r\<rparr>\<rparr>\<rparr>)))
      else run h s)"

text \<open>\<open>ecall\<close> in machine mode: cause 11, the registers in a frame of 96 bytes below the stack pointer. The result is the registers
  that the epilogue reloads and the address at which \<open>mret\<close> resumes.\<close>

definition riscv_ecall ::
  "('h, 's) trap_dev plic_hw \<Rightarrow> (handler \<Rightarrow> ('h, 's) trap_dev sys \<Rightarrow> ('h, 's) trap_dev sys outcome) \<Rightarrow> u32 \<Rightarrow> u32 \<Rightarrow> u32 \<Rightarrow> vframe
     \<Rightarrow> ('h, 's) trap_dev sys \<Rightarrow> (vframe \<times> u32 \<times> ('h, 's) trap_dev sys) outcome" where
  "riscv_ecall hw run core sp pc g s =
     (let f = sp - 96; d = dev (plic s);
          s1 = s\<lparr>frame_mepc := (frame_mepc s)(f := pc), plic := (plic s)\<lparr>dev := d\<lparr>td_frames := (td_frames d)(f := g)\<rparr>\<rparr>\<rparr>
      in obind (exception_handler hw run core 11 f s1) (\<lambda>s2. Ok (td_frames (dev (plic s2)) f, frame_mepc s2 f, s2)))"

text \<open>A call with a NULL result pointer does nothing.\<close>

definition arch_visor_call ::
  "('h, 's) trap_dev plic_hw \<Rightarrow> (handler \<Rightarrow> ('h, 's) trap_dev sys \<Rightarrow> ('h, 's) trap_dev sys outcome) \<Rightarrow> u32 \<Rightarrow> u32 \<Rightarrow> u32
     \<Rightarrow> u32 \<Rightarrow> u32 \<Rightarrow> u32 \<Rightarrow> u32 \<Rightarrow> (u32 \<times> u32 \<times> u32) option \<Rightarrow> ('h, 's) trap_dev sys
     \<Rightarrow> ((u32 \<times> u32 \<times> u32) option \<times> u32 \<times> ('h, 's) trap_dev sys) outcome" where
  "arch_visor_call hw run core sp pc c arg0 arg1 arg2 ret s =
     (case ret of
        None \<Rightarrow> Ok (None, pc, s)
      | Some _ \<Rightarrow>
          obind (riscv_ecall hw run core sp pc \<lparr>f_a0 = c, f_a1 = arg0, f_a2 = arg1, f_a3 = arg2\<rparr> s) (\<lambda>(g, pc', s1).
          Ok (Some (f_a0 g, f_a1 g, f_a2 g), pc', s1)))"

section \<open>Entry points of a single core\<close>

text \<open>The defaults of the application's functions; \<open>wfi\<close> is what happens while the core sleeps.\<close>

definition plug_weak :: "'w \<Rightarrow> 'w outcome" where
  "plug_weak w = Ok w"

definition play_weak :: "('w \<Rightarrow> 'w) \<Rightarrow> 'w \<Rightarrow> 'w outcome" where
  "play_weak wfi w = Ok (wfi w)"

definition engine_secondary :: "nat \<Rightarrow> ('w \<Rightarrow> 'w outcome) \<Rightarrow> ('w \<Rightarrow> 'w outcome) \<Rightarrow> 'w \<Rightarrow> 'w outcome" where
  "engine_secondary n plug_secondary play_secondary w = obind (plug_secondary w) (play_rounds n play_secondary)"

text \<open>The engine does not return; its first \<open>n\<close> rounds are what can be observed, and the call of \<open>exit\<close> behind it is not reached.\<close>

definition riscv_init ::
  "('d, 'c) boot_env \<Rightarrow> nat \<Rightarrow> (('h, 'd, 's, 'c) boot \<Rightarrow> ('h, 'd, 's, 'c) boot outcome)
     \<Rightarrow> (('h, 'd, 's, 'c) boot \<Rightarrow> ('h, 'd, 's, 'c) boot outcome) \<Rightarrow> ('h, 'd, 's, 'c) boot \<Rightarrow> ('h, 'd, 's, 'c) boot outcome" where
  "riscv_init e n plug play b =
     (let b1 = b\<lparr>bt_cpu := arch_di (bt_cpu b)\<rparr>;
          b2 = (if USE_PRNG e then b1\<lparr>bt_mem := arch_rseed_capture e (bt_mem b1)\<rparr> else b1)
      in engine n plug play b2)"

definition arm_rseed_capture :: "('d, 'c) boot_env \<Rightarrow> mem \<Rightarrow> mem" where
  "arm_rseed_capture e m = boot_srand e (ld32 m (l_bss_start e)) m"

definition arm_init ::
  "('d, 'c) boot_env \<Rightarrow> nat \<Rightarrow> (mem \<times> 'w \<Rightarrow> (mem \<times> 'w) outcome) \<Rightarrow> (mem \<times> 'w \<Rightarrow> (mem \<times> 'w) outcome) \<Rightarrow> mem \<times> 'w \<Rightarrow> (mem \<times> 'w) outcome" where
  "arm_init e n plug play = (\<lambda>(m, w). engine n plug play (if USE_PRNG e then arm_rseed_capture e m else m, w))"

text \<open>On the AVR the assembly function \<open>zero_reg\<close> and the capture on its 16-bit memory are parameters.\<close>

definition avr_init :: "('w \<Rightarrow> 'w) \<Rightarrow> ('w \<Rightarrow> 'w) \<Rightarrow> nat \<Rightarrow> ('w \<Rightarrow> 'w outcome) \<Rightarrow> ('w \<Rightarrow> 'w outcome) \<Rightarrow> 'w \<Rightarrow> 'w outcome" where
  "avr_init zero_reg rseed_capture n plug play w = engine n plug play (rseed_capture (zero_reg w))"

section \<open>Entry points of several cores\<close>

text \<open>The program points of \<open>init\<close> with \<open>CCSMP\<close>: before the comparison of the core's number, before the boot core takes the key,
  in its engine before and after \<open>bootstrap\<close> has copied \<open>.data\<close> (the initial value of \<open>boot_key\<close> among it), a secondary core
  inside \<open>lock_acquire\<close> with the lock's program point, and in its engine.\<close>

datatype entry_pc = E_init | E_start | E_engine | E_booted | E_wait spc | E_secondary

record smp =
  boot_key :: u32
  smp_pc :: "nat \<Rightarrow> entry_pc"
  boot_done :: bool

definition init_smp :: "(nat \<Rightarrow> u32) \<Rightarrow> u32 \<Rightarrow> nat \<Rightarrow> entry_pc \<Rightarrow> u32 \<Rightarrow> entry_pc \<times> u32" where
  "init_smp hart BOOT_CORE_ID t pc k =
     (case pc of
        E_init \<Rightarrow> (if hart t = BOOT_CORE_ID then E_start else E_wait S_Idle, k)
      | E_start \<Rightarrow> (E_engine, arch_early_signal_boot_start k)
      | E_engine \<Rightarrow> (E_booted, LOCK_INITAL_VALUE)
      | E_booted \<Rightarrow> (E_booted, k)
      | E_wait p \<Rightarrow>
          (if p = S_CS then (E_secondary, spinlock_release_a k)
           else case spinlock_acquire_a p k of (p', k') \<Rightarrow> (E_wait p', k'))
      | E_secondary \<Rightarrow> (E_secondary, k))"

text \<open>Any core takes its next step. The boot core may also call \<open>arch_signal_boot_done\<close> once \<open>bootstrap\<close> is through, in a program
  that does (\<open>signals\<close>); the flag \<open>boot_done\<close> records the call. \<open>arch_core_index()\<close> is \<open>hart\<close>.\<close>

inductive smp_step :: "bool \<Rightarrow> (nat \<Rightarrow> u32) \<Rightarrow> u32 \<Rightarrow> smp \<Rightarrow> smp \<Rightarrow> bool" for signals hart boot where
  smp_core: "init_smp hart boot t (smp_pc s t) (boot_key s) = (pc', k')
    \<Longrightarrow> smp_step signals hart boot s (s\<lparr>boot_key := k', smp_pc := (smp_pc s)(t := pc')\<rparr>)"
| smp_signal: "signals \<Longrightarrow> smp_pc s t = E_booted
    \<Longrightarrow> smp_step signals hart boot s (s\<lparr>boot_key := arch_signal_boot_done (boot_key s), boot_done := True\<rparr>)"

text \<open>All cores start in \<open>init\<close>. The key lies in memory that nothing has initialised yet.\<close>

definition smp_init :: "smp \<Rightarrow> bool" where
  "smp_init s \<longleftrightarrow> (\<forall>t. smp_pc s t = E_init) \<and> \<not> boot_done s"

section \<open>A visor call is a call of the dispatcher\<close>


section \<open>Secondary cores\<close>

text \<open>Until the boot core signals, the key is taken and no other core is past the test of the lock.\<close>

definition smp_inv :: "smp \<Rightarrow> bool" where
  "smp_inv s \<longleftrightarrow> \<not> boot_done s \<longrightarrow>
     boot_key s \<noteq> 0 \<and> (\<forall>t. smp_pc s t \<notin> {E_wait S_Swap, E_wait S_CS, E_secondary})"

lemma init_smp_locked:
  assumes "init_smp hart boot t pc k = (pc', k')" and "k \<noteq> 0" and "pc \<notin> {E_wait S_Swap, E_wait S_CS, E_secondary}"
  shows "k' \<noteq> 0 \<and> pc' \<notin> {E_wait S_Swap, E_wait S_CS, E_secondary}"
  using assms
  by (cases pc) (auto simp: init_smp_def arch_early_signal_boot_start_def spinlock_acquire_a_def split: if_splits spc.splits)

interpretation smp: transition_system "\<lambda>s. smp_init s \<and> boot_key s \<noteq> 0" "smp_step signals hart boot" smp_inv
proof
  fix s s'
  show "smp_init s \<and> boot_key s \<noteq> 0 \<Longrightarrow> smp_inv s" by (simp add: smp_init_def smp_inv_def)
  assume inv: "smp_inv s" and "smp_step signals hart boot s s'"
  from this(2) show "smp_inv s'"
  proof (cases rule: smp_step.cases)
    case (smp_core t pc' k')
    then show ?thesis using inv init_smp_locked [OF smp_core(2)] by (auto simp: smp_inv_def)
  qed (simp add: smp_inv_def)
qed

lemma no_signal:
  assumes "(smp_step False hart boot)\<^sup>*\<^sup>* s s'" and "\<not> boot_done s"
  shows "\<not> boot_done s'"
  using assms by (induction rule: rtranclp_induct) (auto elim: smp_step.cases)

text \<open>C21: Secondary cores start after the boot: in every interleaving of the cores' entry functions, a core reaches
  \<open>engine_secondary\<close> only after the boot core has called \<open>arch_signal_boot_done\<close>, if the key's memory does not hold 0 at
  power-up. In the program as it stands nothing makes this call: no secondary core ever leaves \<open>arch_wait_till_boot_done\<close>.\<close>

theorem secondary_waits_for_signal:
  assumes "smp_init s" and "boot_key s \<noteq> 0" and "(smp_step signals hart boot)\<^sup>*\<^sup>* s s'" and "smp_pc s' t = E_secondary"
  shows "signals \<and> boot_done s'"
  using smp.reach_inv [OF _ assms(3)] no_signal assms
  by (cases signals) (fastforce simp: smp_inv_def smp_init_def)+

text \<open>Once the key is free, a waiting core takes it, releases it and starts; the key is free again for the next one.\<close>

lemma smp_core_step:
  assumes "init_smp hart boot t (smp_pc s t) (boot_key s) = (pc', k')" and "s' = s\<lparr>boot_key := k', smp_pc := (smp_pc s)(t := pc')\<rparr>"
  shows "smp_step signals hart boot s s'"
  using assms smp_core by blast

lemma secondary_starts:
  assumes "boot_key s = 0" and "smp_pc s t = E_wait S_Test"
  shows "(smp_step signals hart boot)\<^sup>*\<^sup>* s (s\<lparr>smp_pc := (smp_pc s)(t := E_secondary)\<rparr>)"
proof -
  let ?at = "\<lambda>k p. s\<lparr>boot_key := k, smp_pc := (smp_pc s)(t := p)\<rparr>"
  note step = smp_core_step [where hart = hart and boot = boot and t = t and signals = signals]
  have "smp_step signals hart boot s (?at 0 (E_wait S_Swap))"
    by (rule step [of _ "E_wait S_Swap" 0]) (simp_all add: assms init_smp_def spinlock_acquire_a_def)
  moreover have "smp_step signals hart boot (?at 0 (E_wait S_Swap)) (?at 1 (E_wait S_CS))"
    by (rule step [of _ "E_wait S_CS" 1]) (simp_all add: init_smp_def spinlock_acquire_a_def)
  moreover have "smp_step signals hart boot (?at 1 (E_wait S_CS)) (s\<lparr>smp_pc := (smp_pc s)(t := E_secondary)\<rparr>)"
    by (rule step [of _ E_secondary 0]) (simp_all add: assms(1) init_smp_def spinlock_release_a_def)
  ultimately show ?thesis by (meson rtranclp.rtrancl_into_rtrancl rtranclp.rtrancl_refl)
qed

lemma secondary_from_init:
  assumes "boot_key s = 0" and "smp_pc s t = E_init" and "hart t \<noteq> boot"
  shows "(smp_step signals hart boot)\<^sup>*\<^sup>* s (s\<lparr>smp_pc := (smp_pc s)(t := E_secondary)\<rparr>)"
proof -
  let ?at = "\<lambda>p. s\<lparr>smp_pc := (smp_pc s)(t := p)\<rparr>"
  note step = smp_core_step [where hart = hart and boot = boot and t = t and signals = signals]
  have "smp_step signals hart boot s (?at (E_wait S_Idle))"
    by (rule step [of _ "E_wait S_Idle" 0]) (simp_all add: assms init_smp_def)
  moreover have "smp_step signals hart boot (?at (E_wait S_Idle)) (?at (E_wait S_Test))"
    by (rule step [of _ "E_wait S_Test" 0]) (simp_all add: assms(1) init_smp_def spinlock_acquire_a_def)
  moreover have "(smp_step signals hart boot)\<^sup>*\<^sup>* (?at (E_wait S_Test)) (?at E_secondary)"
    using secondary_starts [of "?at (E_wait S_Test)" t signals hart boot] assms(1) by simp
  ultimately show ?thesis by (meson converse_rtranclp_into_rtranclp)
qed

text \<open>When the memory of the key holds 0 at power-up, a secondary core that comes first starts before the boot core has done
  anything.\<close>

lemma early_secondary:
  assumes "smp_init s" and "boot_key s = 0" and "hart t \<noteq> boot"
  shows "\<exists>s'. (smp_step signals hart boot)\<^sup>*\<^sup>* s s' \<and> smp_pc s' t = E_secondary \<and> \<not> boot_done s'
    \<and> (\<forall>u. u \<noteq> t \<longrightarrow> smp_pc s' u = E_init)"
  using secondary_from_init [of s t hart boot signals] assms
  by (intro exI [of _ "s\<lparr>smp_pc := (smp_pc s)(t := E_secondary)\<rparr>"]) (simp add: smp_init_def)

text \<open>The boot core's own part, up to the signal.\<close>

lemma boot_core_signals:
  assumes "smp_pc s t = E_init" and "hart t = boot"
  shows "(smp_step True hart boot)\<^sup>*\<^sup>* s (s\<lparr>boot_key := 0, smp_pc := (smp_pc s)(t := E_booted), boot_done := True\<rparr>)"
proof -
  let ?at = "\<lambda>k p. s\<lparr>boot_key := k, smp_pc := (smp_pc s)(t := p)\<rparr>"
  note step = smp_core_step [where hart = hart and boot = boot and t = t and signals = True]
  have "smp_step True hart boot s (?at (boot_key s) E_start)"
    by (rule step [of _ E_start "boot_key s"]) (simp_all add: assms init_smp_def)
  moreover have "smp_step True hart boot (?at (boot_key s) E_start) (?at 1 E_engine)"
    by (rule step [of _ E_engine 1]) (simp_all add: init_smp_def arch_early_signal_boot_start_def)
  moreover have "smp_step True hart boot (?at 1 E_engine) (?at 1 E_booted)"
    by (rule step [of _ E_booted 1]) (simp_all add: init_smp_def)
  moreover have "smp_step True hart boot (?at 1 E_booted) (s\<lparr>boot_key := 0, smp_pc := (smp_pc s)(t := E_booted), boot_done := True\<rparr>)"
    using smp_signal [of True "?at 1 E_booted" t hart boot] by (cases s) (simp add: arch_signal_boot_done_def spinlock_release_a_def)
  ultimately show ?thesis by (meson converse_rtranclp_into_rtranclp rtranclp.rtrancl_refl)
qed

section \<open>Instances\<close>

theorem secondary_waits_for_signal_witness:
  "\<exists>s'. (smp_step True of_nat 0)\<^sup>*\<^sup>* \<lparr>boot_key = 7, smp_pc = \<lambda>_. E_init, boot_done = False\<rparr> s'
    \<and> smp_pc s' 1 = E_secondary \<and> boot_done s'"
proof -
  let ?s = "\<lparr>boot_key = 7, smp_pc = \<lambda>_. E_init, boot_done = False\<rparr>"
  let ?t = "\<lparr>boot_key = 0, smp_pc = (\<lambda>_. E_init)(0 := E_booted), boot_done = True\<rparr>"
  have "(smp_step True of_nat 0)\<^sup>*\<^sup>* ?s ?t" using boot_core_signals [of ?s 0 of_nat 0] by simp
  moreover have "(smp_step True of_nat 0)\<^sup>*\<^sup>* ?t (?t\<lparr>smp_pc := (smp_pc ?t)(1 := E_secondary)\<rparr>)"
    by (rule secondary_from_init) simp_all
  ultimately have r: "(smp_step True of_nat 0)\<^sup>*\<^sup>* ?s (?t\<lparr>smp_pc := (smp_pc ?t)(1 := E_secondary)\<rparr>)" by (rule rtranclp_trans)
  have "boot_done (?t\<lparr>smp_pc := (smp_pc ?t)(1 := E_secondary)\<rparr>)"
    using secondary_waits_for_signal [OF _ _ r, of 1] by (simp add: smp_init_def)
  then show ?thesis using r by (intro exI [of _ "?t\<lparr>smp_pc := (smp_pc ?t)(1 := E_secondary)\<rparr>"]) simp
qed

text \<open>A core of the FE310 after \<open>arch_setup\<close>, about to execute an \<open>ecall\<close> (its first byte is 0x73).\<close>

definition demo_trap_hw :: "(unit, resources) trap_dev plic_hw" where
  "demo_trap_hw = \<lparr>hw_claim = \<lambda>core d. (0, d), hw_complete = \<lambda>core irq d. d\<rparr>"

definition demo_trap :: "(unit, resources) trap_dev sys" where
  "demo_trap =
     \<lparr>exhandler = \<lambda>_ i. if i = 11 then arch_vcall_handler_ptr else arch_panic_handler, irqhandler = \<lambda>_ _. arch_unhandled_irq,
      local_frame = \<lambda>_. NULL, frame_mepc = \<lambda>_. 0, code = \<lambda>_. 0x73, csrs = \<lparr>mie = 0, mstatus = 0\<rparr>,
      plic = \<lparr>port = None, ic_allocated = False, plic_irq_handler = replicate 52 plat_panic_handler, regs = \<lambda>_. 0,
              dev = \<lparr>td_dev = (), td_frames = \<lambda>_. \<lparr>f_a0 = 0, f_a1 = 0, f_a2 = 0, f_a3 = 0\<rparr>, td_res = demo_resources\<rparr>\<rparr>,
      ic_state = \<lparr>ic = None, ic_attached = False\<rparr>\<rparr>"


end
