(* ===== verification/Heap_Report.thy ===== *)
theory Heap_Report
  imports C_Malloc C_Stdio
begin

text \<open>
  The report on the heap, \<open>__heap_status\<close> of \<open>lib/libc/malloc_lite.c\<close> with its two entries of \<open>stdlib.h\<close>, on the heap of \<open>C_Malloc\<close> and
  the formatted output of \<open>C_Stdio\<close>. The model of the heap keeps chunk headers apart from the payload, so the bytes of the heap that
  the dump prints are a parameter (\<open>rd\<close>).
\<close>

section \<open>The report\<close>

definition pr :: "u8 list \<Rightarrow> varg list \<Rightarrow> ('c, 'l) stdio \<Rightarrow> ('c, 'l) stdio outcome" where
  "pr fmt as s = obind (printf fmt as s) (\<lambda>(_, s1). Ok s1)"

text \<open>\<open>"Heap Dump: %p - %p\n"\<close>, \<open>"Heap Used: %u/%u - %u%%\n"\<close> and \<open>"%02x"\<close>.\<close>

definition dump_fmt :: "u8 list" where
  "dump_fmt = [0x48, 0x65, 0x61, 0x70, 0x20, 0x44, 0x75, 0x6d, 0x70, 0x3a, 0x20, 0x25, 0x70, 0x20, 0x2d, 0x20, 0x25, 0x70, 0x0a]"

definition used_fmt :: "u8 list" where
  "used_fmt = [0x48, 0x65, 0x61, 0x70, 0x20, 0x55, 0x73, 0x65, 0x64, 0x3a, 0x20, 0x25, 0x75, 0x2f, 0x25, 0x75, 0x20, 0x2d, 0x20,
     0x25, 0x75, 0x25, 0x25, 0x0a]"

definition hex_fmt :: "u8 list" where
  "hex_fmt = [0x25, 0x30, 0x32, 0x78]"

fun dump_cells :: "(ptr \<Rightarrow> u8) \<Rightarrow> ptr \<Rightarrow> nat list \<Rightarrow> ('c, 'l) stdio \<Rightarrow> ('c, 'l) stdio outcome" where
  "dump_cells rd i [] s = Ok s"
| "dump_cells rd i (cntr # cs) s =
     obind (pr hex_fmt [A32 (ucast (rd (i + of_nat cntr)))] s) (\<lambda>s1.
     obind (if cntr \<noteq> 0 \<and> (cntr + 1) mod 4 = 0 \<and> cntr \<noteq> 31 then pr [0x20] [] s1 else Ok s1) (\<lambda>s2.
     dump_cells rd i cs s2))"

primrec dump_rows :: "nat \<Rightarrow> (ptr \<Rightarrow> u8) \<Rightarrow> ptr \<Rightarrow> ptr \<Rightarrow> ('c, 'l) stdio \<Rightarrow> ('c, 'l) stdio outcome" where
  "dump_rows 0 rd i e s = Hang"
| "dump_rows (Suc fuel) rd i e s =
     (if i < e
      then obind (pr [0x5b] [] s) (\<lambda>s1.
           obind (dump_cells rd i [0..<32] s1) (\<lambda>s2.
           obind (pr [0x5d, 0x0a] [] s2) (\<lambda>s3.
           dump_rows fuel rd (i + 32) e s3)))
      else Ok s)"

definition heap_percent :: "u32 \<Rightarrow> u32 \<Rightarrow> u32 outcome" where
  "heap_percent h_used sz = require (sz \<noteq> 0) Div_by_zero (Ok (h_used * 100 div sz))"

definition heap_status :: "nat \<Rightarrow> bool \<Rightarrow> (ptr \<Rightarrow> u8) \<Rightarrow> heap \<Rightarrow> ('c, 'l) stdio \<Rightarrow> ('c, 'l) stdio outcome" where
  "heap_status fuel dump rd h s =
     obind (heap_usage h) (\<lambda>h_used.
     obind (heap_percent h_used (heap_end h - heap_start h)) (\<lambda>h_perc.
     obind (pr dump_fmt [A32 (heap_start h), A32 (heap_end h)] s) (\<lambda>s1.
     obind (pr used_fmt [A32 h_used, A32 (heap_end h - heap_start h), A32 h_perc] s1) (\<lambda>s2.
     if \<not> dump then Ok s2 else dump_rows fuel rd (heap_start h) (heap_end h) s2))))"

section \<open>The text of a report\<close>

definition say :: "u8 list \<Rightarrow> ('c, 'l) stdio \<Rightarrow> ('c, 'l) stdio outcome" where
  "say t s = obind (fputs_en std_out False t s) (\<lambda>(_, s1). Ok s1)"

lemma say_Nil [simp]: "say [] s = Ok s"
  by (simp add: say_def)

lemma say_append: "obind (say t s) (say u) = say (t @ u) s"
  by (simp add: say_def fputs_en_append obind_assoc case_prod_unfold)

lemma say_then: "obind (say t s) (\<lambda>s1. obind (say u s1) f) = obind (say (t @ u) s) f"
  by (simp add: say_append [symmetric] obind_assoc)

definition hex2 :: "u8 \<Rightarrow> u8 list" where
  "hex2 b = numeral_text (ucast b) 16 0x30 2"

definition cell_text :: "(ptr \<Rightarrow> u8) \<Rightarrow> ptr \<Rightarrow> nat \<Rightarrow> u8 list" where
  "cell_text rd i k = hex2 (rd (i + of_nat k)) @ (if k \<noteq> 0 \<and> (k + 1) mod 4 = 0 \<and> k \<noteq> 31 then [0x20] else [])"

definition row_text :: "(ptr \<Rightarrow> u8) \<Rightarrow> ptr \<Rightarrow> u8 list" where
  "row_text rd i = [0x5b] @ concat (map (cell_text rd i) [0..<32]) @ [0x5d, 0x0a]"

lemma pr_texts:
  "pr [0x20] [] s = say [0x20] s" "pr [0x5b] [] s = say [0x5b] s" "pr [0x5d, 0x0a] [] s = say [0x5d, 0x0a] s"
  "pr hex_fmt [A32 (ucast b)] s = say (hex2 b) s"
  by (simp_all add: pr_def say_def printf_def vprintf_def hex_fmt_def hex2_def isDigit_def get_num_va_args_def unumprint_text
      obind_assoc case_prod_unfold)

text \<open>Two digits for every byte.\<close>

lemma hex2_length: "length (hex2 b) = 2"
proof -
  have "unat (ucast b :: u32) < unat (16 :: u32) ^ Suc 1"
    using unsigned_less [of b, where 'a = nat] by (simp add: unat_ucast_up)
  then have "length (digit_buf (ucast b) 16) \<le> 2" using digit_buf_length [of 16 "ucast b" 1] by simp
  then show ?thesis by (simp add: hex2_def numeral_text_def Let_def)
qed

lemma dump_cells_text: "dump_cells rd i ks = say (concat (map (cell_text rd i) ks))"
proof (induction ks)
  case Nil
  show ?case by (rule ext) simp
next
  case (Cons k ks)
  show ?case by (rule ext) (simp add: Cons.IH pr_texts cell_text_def say_append say_then)
qed

lemma dump_row_step:
  "dump_rows (Suc fuel) rd i e s = (if i < e then obind (say (row_text rd i) s) (dump_rows fuel rd (i + 32) e) else Ok s)"
  by (simp add: pr_texts dump_cells_text row_text_def say_then)

text \<open>The dump ends and is the text of its rows, each of 32 bytes, if the heap ends at least 32 bytes below the end of the address
  space. When its size is no multiple of 32, the last row goes on behind the heap.\<close>

lemma dump_rows_text:
  fixes s :: "('c, 'l) stdio"
  assumes "unat e \<le> 2 ^ 32 - 32" and "unat i \<le> unat e + 31" and "n = (unat e + 31 - unat i) div 32" and "n < fuel"
  shows "dump_rows fuel rd i e s = say (concat (map (\<lambda>k. row_text rd (i + 32 * of_nat k)) [0..<n])) s"
  using assms(2-4)
proof (induction n arbitrary: fuel i s)
  case 0
  then obtain f where "fuel = Suc f" by (cases fuel) auto
  moreover have "\<not> i < e" using 0 by (auto simp: word_less_nat_alt div_eq_0_iff)
  ultimately show ?case by simp
next
  case (Suc n)
  then obtain f where f: "fuel = Suc f" by (cases fuel) auto
  have lt: "unat i < unat e" using Suc.prems(1,2) by (rule_tac ccontr) (auto simp: not_less div_eq_0_iff)
  have w: "unat (i + 32) = unat i + 32"
    using lt assms(1) by (simp add: unat_word_ariths)
  have ih: "dump_rows f rd (i + 32) e s1 = say (concat (map (\<lambda>k. row_text rd (i + 32 + 32 * of_nat k)) [0..<n])) s1" for s1 :: "('c, 'l) stdio"
  proof (rule Suc.IH)
    show "unat (i + 32) \<le> unat e + 31" using lt w by simp
    show "n = (unat e + 31 - unat (i + 32)) div 32" unfolding w using Suc.prems(2) by simp
    show "n < f" using Suc.prems(3) f by simp
  qed
  have "[0..<Suc n] = 0 # map Suc [0..<n]" by (simp add: upt_conv_Cons map_Suc_upt del: upt_Suc)
  then have "concat (map (\<lambda>k. row_text rd (i + 32 * of_nat k)) [0..<Suc n])
      = row_text rd i @ concat (map (\<lambda>k. row_text rd (i + 32 + 32 * of_nat k)) [0..<n])"
    by (simp add: comp_def algebra_simps del: upt_Suc)
  then show ?case using lt by (simp add: f dump_row_step word_less_nat_alt ih [abs_def] say_append del: dump_rows.simps upt_Suc)
qed

section \<open>The percentage\<close>

text \<open>The product with 100 has 32 bits: up to about 42 MB of heap the percentage is the quotient, and at most 100.\<close>

lemma heap_percent_bound:
  assumes "h_used \<le> sz" and "sz \<noteq> 0" and "unat sz * 100 < 2 ^ 32"
  shows "\<exists>p. heap_percent h_used sz = Ok p \<and> unat p = unat h_used * 100 div unat sz \<and> unat p \<le> 100"
proof -
  have u: "unat h_used \<le> unat sz" "0 < unat sz" using assms(1,2) by (simp_all add: word_le_nat_alt unat_gt_0)
  then have "unat (h_used * 100) = unat h_used * 100" using assms(3) by (simp add: unat_word_ariths)
  moreover have "unat h_used * 100 div unat sz \<le> 100"
    using u by (metis div_le_mono div_mult_self1_is_m mult.commute mult_le_mono1)
  ultimately show ?thesis using assms(2) by (simp add: heap_percent_def unat_div)
qed

end
