(* ===== verification/Spec2Isabelle.thy ===== *)
theory Spec2Isabelle
  imports CC_Prelude CC_Status C_String C_Malloc Helios_Sync Posix_Time Locks Driver Interrupts
    Console C_Stdio Nmath Sched_Clock Sys_Clock Uart Aon Board Posix_Ipc C_Scanf Avr_Serial Avr_Clock Boot Arch_Arm Ibex Avr_Boot
    Demo_Helios Bootloader C_Float Avr_Con Entry Heap_Report
begin

text \<open>
  \<^bold>\<open>A verification library for Cyancore\<close>, a framework for embedded targets: an architecture layer, a
  driver core with drivers for interrupt controllers, clocks and consoles, a small C library, the
  Helios kernel and a POSIX layer on top of it. Paths below are relative to \<open>src/src\<close>.

  \<^bold>\<open>The modelled target\<close> is the 32-bit RISC-V build for the SiFive FE310 (ILP32: \<open>int\<close>, \<open>long\<close>, pointers
  32 bits, plain \<open>char\<close> unsigned). Machine integers are words, or integers with the wrap-around
  written out. A second group of theories models the ATmega parts (8-bit registers on 16-bit addresses), a third the
  ARM-M exception layer, a fourth the Ibex simple system. Where a function can trap, panic or fail to return it is a function into \<open>outcome\<close>:
  \<open>Ok\<close>, \<open>Fault\<close> (NULL dereference, index out of bounds, failed assertion, division by zero, signed overflow, panic)
  or \<open>Hang\<close> (the fuel of a loop was used up; theorems that a function returns give the fuel that is
  enough). Loops over NUL-terminated memory are partial functions into \<open>option\<close>.

  \<^bold>\<open>Parts of the program and their theories\<close>

  \<^item> \<open>CC_Prelude\<close>, \<open>CC_Status\<close>: types, outcomes, word lemmas, and the codes of \<open>include/status.h\<close> with what is
    left of them when they are combined by \<open>|=\<close>.
  \<^item> \<open>C_String\<close>: \<open>lib/libc/string.c\<close> over a flat byte memory. \<open>memmove\<close> is a move through a temporary copy,
    \<open>memcmp\<close> and \<open>strcmp\<close> decide the unsigned lexicographic order, \<open>strlcpy\<close> stays inside its buffer.
  \<^item> \<open>C_Malloc\<close>: \<open>lib/libc/malloc_lite.c\<close>. The chunk list is a store of headers; \<open>heap_wf\<close> says that the
    blocks tile the heap. \<open>malloc\<close> and \<open>free\<close> refine an allocator on lists of blocks and interpret the locale
    \<open>allocator\<close>, whose clients get disjoint live blocks. The fuel of the search is the number of chunks.
    \<open>Heap_Report\<close> adds the printed report: the dump ends, and is the text of its rows of 32 bytes.
  \<^item> \<open>Ring\<close>, \<open>Helios_Sched\<close>, \<open>Helios_Tasks\<close>, \<open>Helios_Sync\<close>: the kernel (\<open>visor/services/kernel/helios\<close>).
    Task control blocks are a store; the circular ready and wait lists are abstracted to lists by the locale
    \<open>links\<close>, interpreted once for each of the two links. Insertion is the stable insertion by priority, the
    priority-driven scheduler picks a ready task of greatest priority, the boot invariant is kept by
    \<open>helios_add_task\<close>, mutexes refine an abstract recursive mutex, semaphores count. Several theorems
    show where the kernel does not do what it is meant to (it does not return, or damages its lists).
  \<^item> \<open>Arch_Riscv\<close>: interrupt enables and suspend flags of \<open>arch/riscv/32/i/terravisor\<close>.
  \<^item> \<open>Locks\<close>: \<open>lib/liblocks\<close> and both spinlocks as step relations with one shared access per step. The locale
    \<open>transition_system\<close> carries the invariant proofs; mutual exclusion holds for any number of cores and
    every interleaving, for the bakery lock as long as its 8-bit tickets do not wrap.
  \<^item> \<open>Driver\<close>: \<open>driver/driver.c\<close>. What a driver's functions do is a parameter on the whole state; the locale
    \<open>device_walk\<close> turns a walk by rank into the operation on the devices in sorted order.
  \<^item> \<open>Resources\<close>: \<open>lib/libresource\<close>, the FE310 tables and handlers, the visor-call dispatcher, and the identifiers of devices
    and calls. The locale \<open>keyed_table\<close> is the contract of a table searched by identifier.
  \<^item> \<open>Interrupts\<close>: PLIC driver, interrupt-controller core, linking of handlers and trap dispatch. The locale
    \<open>ic_device\<close> is the contract behind \<open>ic_t\<close>, interpreted on the PLIC. The PLIC's claim and completion and
    the bodies of handlers are parameters.
  \<^item> \<open>Console\<close>: standard devices, console engine, membuf logger and log dump. The locale \<open>char_sink\<close> is the
    contract of a device that takes characters, interpreted for the log and the console; a \<open>reliable_sink\<close> extends it by
    the status of each write.
  \<^item> \<open>C_Stdio\<close>, \<open>C_Scanf\<close>: \<open>ctype.c\<close>, the integer part of \<open>strton.c\<close>, \<open>printf.c\<close> and \<open>scanf.c\<close> with its line editing; what \<open>printf("%d")\<close>
    sends to the console is read back by \<open>scanf("%d")\<close>, for all integers but the least, which overflows the accumulator.
  \<^item> \<open>C_Float\<close>: what computes with floating point: \<open>atof\<close>, \<open>%f\<close> of \<open>printf.c\<close> and \<open>scanf.c\<close>, \<open>lib/libnmath/dsp/conv.c\<close> and the converter's
    temperature. The arithmetic is a parameter (\<open>fp\<close>), so the lemmas hold for every rounding: \<open>atof\<close> reads what \<open>atol\<close> reads,
    the convolution leaves its arrays.
  \<^item> \<open>Nmath\<close>: \<open>lib/libnmath/arithmetic/arithmetic.c\<close>.
  \<^item> \<open>Posix_Time\<close>: \<open>lib/libposix/src/posix_utils.c\<close>; the conversions of times are exact within the stated ranges.
  \<^item> \<open>Posix_Ipc\<close>: semaphores, message queues, threads and sleeping of \<open>lib/libposix\<close>. The supervisor call and the
    mutexes below it are parameters (\<open>sysapi\<close>). Whatever the supervisor does, attributes made by the
    setters pass the checks of \<open>pthread_create\<close>. Under assumptions on the supervisor that the sources do not document
    (\<open>sem_kernel\<close>, \<open>mq_kernel\<close>) semaphores keep the contract of the locale \<open>counting\<close>, which the kernel's own keep too, and a
    descriptor is a queue.
  \<^item> \<open>Mmio\<close>: register accesses. The hardware is a parameter, the record \<open>hw\<close> with a load and a store on a state of its own;
    what a driver relies on is a hypothesis: \<open>stores hw val m\<close> (the bits \<open>m a\<close> of register \<open>a\<close> keep what is stored),
    \<open>settles\<close> (a flag changes within a number of loads). Polling loops take fuel.
  \<^item> \<open>Clint\<close>, \<open>Sched_Clock\<close>: the core-local timer and software interrupt, the scheduler clock, delays and time of day. The 64-bit
    time is read consistently in spite of its two halves; the delays return after the time asked for. The locale
    \<open>timestamp_source\<close> is the contract between the engine and its driver.
  \<^item> \<open>Prci\<close>, \<open>Sys_Clock\<close>: oscillators, PLL and the system clock with its callbacks. The search for PLL dividers finds a nearest
    frequency; setting and reading the clock are inverse; the list of callbacks refines a list.
  \<^item> \<open>Gpio\<close>, \<open>Uart\<close>, \<open>Aon\<close>, \<open>Board\<close>: pins, the UART and the serial consoles on it, power management and reset cause, the on-board
    LED, the watchdog engine, \<open>rand.c\<close> and \<open>exit.c\<close>. Both consoles interpret \<open>reliable_sink\<close>; the input ring buffer interprets
    \<open>byte_queue\<close>, from which bytes are read in their order of arrival as long as its 32 places suffice.
  \<^item> \<open>Con_Drivers\<close>: setup and exit of the two console drivers and the hand-over from the early one to the later one, with
    the callbacks at the system clock. Fresh memory and the outcome of allocations are parameters (\<open>con_alloc\<close>).
  \<^item> \<open>Boot\<close>: the composition. \<open>bootstrap\<close>, \<open>bootstrap_secondary\<close>, the early phase on a byte memory with the sections of the linker
    script (\<open>boot_env\<close>: build options, addresses, tables, parameters), the system log with its prefix, the visor-call handler
    on a trap frame, the boot key, the rounds of \<open>engine\<close>. The CSRs are shared: every component works on the same copy
    (\<open>on_heap\<close>, \<open>on_con\<close>). The early phase returns, loads the sections, which frees the locks in \<open>.bss\<close>, and makes heap and tables; a
    boot that comes to its end keeps the invariant \<open>boot_inv\<close>; a secondary core's boot always does. The fuel bounds the output
    loops and the polling of the clock.
  \<^item> \<open>Entry\<close>: how control enters. A visor call goes through \<open>ecall\<close>, the trap dispatcher of \<open>Interrupts\<close> and the handler of \<open>Boot\<close>, and
    is proved to be a call of the dispatcher of \<open>Resources\<close>, which the drivers' models call directly (\<open>visor_fetch\<close>). \<open>init\<close> of the
    three architectures; with several cores \<open>init\<close> is a transition system on the boot key, on the lock steps of \<open>Locks\<close>: no
    secondary core starts before the boot core signals.
  \<^item> \<open>Demo_Helios\<close>, \<open>Bootloader\<close>: projects on top. The kernel's demonstration, on the heap, the task layer and the scheduler, adds its
    tasks in order of priority and then panics; the boot loader toggles its LED for more than two seconds, on the pins and the
    delays, and leaves it and the interrupts off. Both are modelled from the point where the drivers have been set up.
  \<^item> \<open>Ibex\<close>: the Ibex simple system. Its clock drivers are the FE310's on another register map (\<open>ibex_map\<close>), which is a theorem.
  \<^item> \<open>Arch_Arm\<close>: exception tables, dispatch, the stacked frame and the visor call of \<open>arch/arm-m\<close>, and the RP2040's SIO accesses.
  \<^item> \<open>Avr_Gpio\<close>, \<open>Avr_Timer\<close>, \<open>Avr_Serial\<close>, \<open>Avr_Con\<close>, \<open>Avr_Clock\<close>, \<open>Avr_Boot\<close>: the ATmega HAL (\<open>platform/mega_avr\<close>) on byte registers (\<open>hw8\<close>, with
    the same form of hypotheses as \<open>hw\<close>): interrupt table, pins, converter, timers, PWM, watchdog, UART and consoles with the
    hand-over between them, SPI, scheduler clock, reset cause, architecture layer, tables. Pins are exclusive to their owner, the early phase always
    switches the watchdog off, the clock's time per interrupt is bounded.

  \<^bold>\<open>How the parts interact.\<close> A driver finds its device through visor calls (\<open>Resources\<close>), is started by the
  driver core (\<open>Driver\<close>), links its handler (\<open>Interrupts\<close>) and attaches itself to an engine (\<open>Console\<close>,
  interrupt controller). The kernel allocates task control blocks with \<open>malloc\<close> and disables interrupts
  around its lists (\<open>Arch_Riscv\<close>). Output goes from \<open>printf\<close> (\<open>C_Stdio\<close>) through the standard devices (\<open>Console\<close>)
  to a serial console (\<open>Uart\<close>), whose baud rate follows the system clock (\<open>Sys_Clock\<close>). The scheduler clock gets its
  ticks from the core-local timer and its frequency from the resource tables.

  At boot, \<open>Boot\<close> runs these in the order of the code, and the projects run on the result.

  \<^bold>\<open>Names.\<close> A definition has the name of the C function it models; the prefixes \<open>avr_\<close>, \<open>ibex_\<close>, \<open>arm_\<close>, \<open>bl_\<close> and \<open>qemu_\<close> tell the
  targets apart where a function exists on several. Definitions that start with \<open>demo_\<close> and have no counterpart in the sources are
  the concrete inputs of the witnesses.

  \<^bold>\<open>Not modelled\<close>: assembly (start-up, context switch, vectors), linker scripts and build files, panic
  handlers that print and sleep for ever, prints of the memory layout and of processor information, heap and memory setup of the AVR at 16 bits, the RP2040 platform (it has
  no tables or drivers in the repository), the blinking demonstrations, and headers that only declare. Code that is only
  declared in the sources, such as the supervisor call behind the POSIX layer, is a parameter where it is used.
\<close>

end
